(* ===== verification/Rina_Prelude.thy ===== *)
theory Rina_Prelude
  imports Main "HOL-Library.Word"
begin

text \<open>
  Prelude of the development: the machine types of the code, the generic
  table scans that the components share (first row that satisfies a test,
  first free row), and the collections of facts the component proofs use.

  The data model is that of the 32-bit target of the firmware: \<open>unsigned
  int\<close>, \<open>size_t\<close> and \<open>uint32_t\<close> are words of 32 bits.  A C string is its list
  of characters without the terminating NUL, a pointer that may be NULL is an
  option.  The allocator \<open>pvRsMemAlloc\<close> is a wrapper of \<open>malloc\<close>; whether a call
  of it succeeds is a Boolean argument of the operation that makes the call.
\<close>

type_synonym u8 = "8 word"
type_synonym u16 = "16 word"
type_synonym u32 = "32 word"
type_synonym u64 = "64 word"

named_theorems table_simps \<open>facts on scans and updates of fixed-size tables\<close>
named_theorems u32_simps \<open>facts that move 32-bit arithmetic to nat\<close>

section \<open>Words\<close>

lemma u32_less_nat [u32_simps]: "(a < b) = (unat (a::u32) < unat b)"
  by (simp add: word_less_nat_alt)

lemma u32_eq_nat: "(a = b) = (unat (a::'a::len word) = unat b)"
  by (rule word_unat_eq_iff)

lemma unat_inc_max:
  "a \<noteq> - 1 \<Longrightarrow> unat ((a::'a::len word) + 1) = Suc (unat a)"
  using unatSuc[of a] by (metis add.commute add.right_inverse add_eq_0_iff2)

lemma u32_bound: "unat (n::u32) < 4294967296"
  using unsigned_less[of n] by simp

lemma unat_ucast_mod: "unat (ucast (w::'a::len word) :: 'b::len word) = unat w mod 2 ^ LENGTH('b)"
  by (simp add: unsigned_ucast_eq take_bit_eq_mod)

section \<open>Scans of a table\<close>

text \<open>The index of the first row that satisfies a test: the shape of every
  \<open>for\<close> loop of the code that searches a fixed array and stops at the first
  hit.\<close>

fun first_ix :: "('a \<Rightarrow> bool) \<Rightarrow> 'a list \<Rightarrow> nat option" where
  "first_ix P [] = None"
| "first_ix P (x # xs) = (if P x then Some 0 else map_option Suc (first_ix P xs))"

lemma first_ix_None [table_simps]: "first_ix P xs = None \<longleftrightarrow> (\<forall>x\<in>set xs. \<not> P x)"
  by (induction xs) auto

lemma first_ix_SomeD:
  "first_ix P xs = Some i \<Longrightarrow> i < length xs \<and> P (xs ! i) \<and> (\<forall>j<i. \<not> P (xs ! j))"
proof (induction xs arbitrary: i)
  case (Cons x xs)
  show ?case
  proof (cases "P x")
    case False
    with Cons.prems obtain k where k: "first_ix P xs = Some k" "i = Suc k"
      by auto
    with Cons.IH[OF k(1)] False show ?thesis
      by (auto simp: less_Suc_eq_0_disj)
  qed (use Cons.prems in auto)
qed simp

lemma first_ix_Some:
  "first_ix P xs = Some i \<longleftrightarrow> i < length xs \<and> P (xs ! i) \<and> (\<forall>j<i. \<not> P (xs ! j))"
proof
  assume r: "i < length xs \<and> P (xs ! i) \<and> (\<forall>j<i. \<not> P (xs ! j))"
  then have "first_ix P xs \<noteq> None"
    by (auto simp: table_simps)
  then obtain k where k: "first_ix P xs = Some k" by auto
  from first_ix_SomeD[OF k] r have "k = i"
    by (metis linorder_neqE_nat)
  with k show "first_ix P xs = Some i" by simp
qed (rule first_ix_SomeD)

lemma first_ix_less: "first_ix P xs = Some i \<Longrightarrow> i < length xs"
  by (simp add: first_ix_Some)

lemma first_ix_holds: "first_ix P xs = Some i \<Longrightarrow> P (xs ! i)"
  by (simp add: first_ix_Some)

lemma first_ix_ex: "(\<exists>i. first_ix P xs = Some i) \<longleftrightarrow> (\<exists>x\<in>set xs. P x)"
  using first_ix_None[of P xs] by (metis option.exhaust option.distinct(1))

text \<open>The number of rows that satisfy a test, before and after one row is
  overwritten.\<close>

definition row_count :: "('a \<Rightarrow> bool) \<Rightarrow> 'a list \<Rightarrow> nat" where
  "row_count P xs = length (filter P xs)"

lemma row_count_Cons [simp]:
  "row_count P (x # xs) = (if P x then Suc (row_count P xs) else row_count P xs)"
  "row_count P [] = 0"
  by (simp_all add: row_count_def)

lemma row_count_update:
  "i < length xs \<Longrightarrow>
   row_count P (xs[i := y]) + (if P (xs ! i) then 1 else 0)
     = row_count P xs + (if P y then 1 else 0)"
proof (induction xs arbitrary: i)
  case (Cons x xs)
  show ?case
  proof (cases i)
    case (Suc k)
    with Cons show ?thesis by (auto split: if_splits)
  qed auto
qed simp

lemma row_count_le: "row_count P xs \<le> length xs"
  by (simp add: row_count_def)

lemma row_count_set:
  "\<lbrakk>i < length xs; \<not> P (xs ! i); P y\<rbrakk> \<Longrightarrow> row_count P (xs[i := y]) = Suc (row_count P xs)"
  using row_count_update[of i xs P y] by simp

lemma row_count_clear:
  "\<lbrakk>i < length xs; P (xs ! i); \<not> P y\<rbrakk> \<Longrightarrow> Suc (row_count P (xs[i := y])) = row_count P xs"
  using row_count_update[of i xs P y] by simp

lemma row_count_full: "row_count P xs = length xs \<longleftrightarrow> (\<forall>x\<in>set xs. P x)"
  by (metis filter_id_conv length_filter_less less_not_refl row_count_def)

end
