(* ===== verification/Bit_Arr.thy ===== *)
theory Bit_Arr
  imports Rina_Prelude
begin

text \<open>
  Bit arrays: \<open>Rina-manager/Common/include/common/bit_array.h\<close>.  The C object is
  a header with the number of bits followed by that many bits in units of 32;
  the record keeps both parts.  The interface the number manager relies on is
  the locale \<open>bit_store\<close>, which is interpreted on the bit array.
\<close>

unbundle bit_operations_syntax

record bitarray_t =
  nbbits :: u32
  units :: "u32 list"

text \<open>\<open>BIT_INDEX(n)\<close>: the bit within its unit (an 8-bit variable) and the index
  of the unit.\<close>

definition BIT_INDEX :: "u32 \<Rightarrow> u8 \<times> u32" where
  "BIT_INDEX n = (let bit = ucast (n mod 32) :: u8 in (bit, (n - ucast bit) div 32))"

definition pxBitArrayAlloc :: "bool \<Rightarrow> u32 \<Rightarrow> bitarray_t option" where
  "pxBitArrayAlloc mem n =
     (if mem then Some \<lparr> nbbits = n, units = replicate (unat (n div 32 + 1)) 0 \<rparr> else None)"

definition vBitArraySetBit :: "bitarray_t \<Rightarrow> u32 \<Rightarrow> bitarray_t" where
  "vBitArraySetBit ba n =
     (let (bit, index) = BIT_INDEX n in
      if n < nbbits ba
      then ba \<lparr> units := (units ba)[unat index := (units ba ! unat index) OR push_bit (unat bit) 1] \<rparr>
      else ba)"

definition vBitArrayClearBit :: "bitarray_t \<Rightarrow> u32 \<Rightarrow> bitarray_t" where
  "vBitArrayClearBit ba n =
     (let (bit, index) = BIT_INDEX n in
      if n < nbbits ba
      then ba \<lparr> units := (units ba)[unat index := (units ba ! unat index) AND NOT (push_bit (unat bit) 1)] \<rparr>
      else ba)"

definition xBitArrayGetBit :: "bitarray_t \<Rightarrow> u32 \<Rightarrow> bool" where
  "xBitArrayGetBit ba n =
     (let (bit, index) = BIT_INDEX n in
      if n < nbbits ba
      then (units ba ! unat index) AND push_bit (unat bit) 1 > 0
      else False)"

text \<open>A well-formed bit array owns every unit that an accepted index reaches.\<close>

definition ba_wf :: "bitarray_t \<Rightarrow> bool" where
  "ba_wf ba \<longleftrightarrow> unat (nbbits ba) div 32 < length (units ba)"

section \<open>Index arithmetic\<close>

lemma BIT_INDEX_nat:
  "BIT_INDEX n = (word_of_nat (unat n mod 32), word_of_nat (unat n div 32))"
proof -
  have b: "unat (ucast (n mod 32) :: u8) = unat n mod 32"
    by (simp add: unat_ucast_mod unat_mod)
  then have b': "ucast (ucast (n mod 32) :: u8) = n mod 32"
    by (simp add: word_unat_eq_iff unat_ucast_mod unat_mod)
  have le: "n mod 32 \<le> n"
    by (simp add: word_le_nat_alt unat_mod)
  have "unat ((n - n mod 32) div 32) = unat n div 32"
    using unat_sub[OF le] by (simp only: unat_div unat_mod) (simp add: minus_mod_eq_mult_div)
  then show ?thesis
    using b u32_bound[of n] unfolding BIT_INDEX_def Let_def b'
    by (simp add: word_unat_eq_iff unat_of_nat)
qed

lemma unat_bit_index [simp]:
  "unat (word_of_nat (unat (n::u32) mod 32) :: u8) = unat n mod 32"
  "unat (word_of_nat (unat (n::u32) div 32) :: u32) = unat n div 32"
  using u32_bound[of n] by (simp_all add: unat_of_nat)

lemma div_mod_32_eq: "a div 32 = b div 32 \<Longrightarrow> a mod 32 = b mod 32 \<Longrightarrow> a = (b::nat)"
  by (metis mult_div_mod_eq)

lemma unit_test: "((w::u32) AND 2 ^ k > 0) = bit w k"
  by (simp add: word_gt_0 and_exp_eq_0_iff_not_bit)

lemma xBitArrayGetBit_bit:
  "xBitArrayGetBit ba n = (n < nbbits ba \<and> bit (units ba ! (unat n div 32)) (unat n mod 32))"
  by (simp add: xBitArrayGetBit_def BIT_INDEX_nat unit_test)

lemma index_in_units:
  "ba_wf ba \<Longrightarrow> n < nbbits ba \<Longrightarrow> unat n div 32 < length (units ba)"
  by (auto simp: ba_wf_def word_less_nat_alt elim!: le_less_trans[rotated] intro: div_le_mono)

section \<open>Laws of the operations\<close>

lemma nbbits_updates [simp]:
  "nbbits (vBitArraySetBit ba n) = nbbits ba"
  "nbbits (vBitArrayClearBit ba n) = nbbits ba"
  by (simp_all add: vBitArraySetBit_def vBitArrayClearBit_def split: prod.splits)

lemma ba_wf_updates [simp]:
  "ba_wf (vBitArraySetBit ba n) = ba_wf ba"
  "ba_wf (vBitArrayClearBit ba n) = ba_wf ba"
  by (simp_all add: ba_wf_def vBitArraySetBit_def vBitArrayClearBit_def split: prod.splits)

lemma get_set_bit:
  assumes "ba_wf ba"
  shows "xBitArrayGetBit (vBitArraySetBit ba n) m
    = (xBitArrayGetBit ba m \<or> m = n \<and> n < nbbits ba)"
proof (cases "n < nbbits ba")
  case True
  show ?thesis
  proof (cases "unat m div 32 = unat n div 32")
    case same: True
    have "bit ((units ba ! (unat n div 32)) OR push_bit (unat n mod 32) 1) (unat m mod 32)
       = (bit (units ba ! (unat n div 32)) (unat m mod 32) \<or> m = n)"
      using same by (auto simp: bit_simps push_bit_of_1 u32_eq_nat intro: div_mod_32_eq)
    with same True index_in_units[OF assms True] show ?thesis
      by (auto simp: xBitArrayGetBit_bit vBitArraySetBit_def BIT_INDEX_nat)
  next
    case False
    with True show ?thesis
      by (auto simp: xBitArrayGetBit_bit vBitArraySetBit_def BIT_INDEX_nat)
  qed
qed (auto simp: xBitArrayGetBit_bit vBitArraySetBit_def BIT_INDEX_nat)

lemma get_clear_bit:
  assumes "ba_wf ba"
  shows "xBitArrayGetBit (vBitArrayClearBit ba n) m = (xBitArrayGetBit ba m \<and> m \<noteq> n)"
proof (cases "n < nbbits ba")
  case True
  show ?thesis
  proof (cases "unat m div 32 = unat n div 32")
    case same: True
    have "bit ((units ba ! (unat n div 32)) AND NOT (push_bit (unat n mod 32) 1)) (unat m mod 32)
       = (bit (units ba ! (unat n div 32)) (unat m mod 32) \<and> m \<noteq> n)"
      using same by (auto simp: bit_simps push_bit_of_1 u32_eq_nat intro: div_mod_32_eq)
    with same True index_in_units[OF assms True] show ?thesis
      by (auto simp: xBitArrayGetBit_bit vBitArrayClearBit_def BIT_INDEX_nat)
  next
    case False
    with True show ?thesis
      by (auto simp: xBitArrayGetBit_bit vBitArrayClearBit_def BIT_INDEX_nat)
  qed
qed (auto simp: xBitArrayGetBit_bit vBitArrayClearBit_def BIT_INDEX_nat)

lemma get_out_of_range: "\<not> n < nbbits ba \<Longrightarrow> \<not> xBitArrayGetBit ba n"
  by (simp add: xBitArrayGetBit_bit)

lemma alloc_bits:
  assumes "pxBitArrayAlloc mem n = Some ba" "n \<noteq> - 1"
  shows "ba_wf ba" "nbbits ba = n" "\<not> xBitArrayGetBit ba m"
proof -
  have u: "unat (n div 32 + 1) = Suc (unat n div 32)"
    using u32_bound[of n] by (simp add: unat_word_ariths unat_div)
  from assms show "ba_wf ba" "nbbits ba = n"
    by (auto simp: pxBitArrayAlloc_def ba_wf_def u split: if_splits)
  show "\<not> xBitArrayGetBit ba m"
  proof
    assume g: "xBitArrayGetBit ba m"
    then have "m < n" using \<open>nbbits ba = n\<close> by (simp add: xBitArrayGetBit_bit)
    then have "unat m div 32 < length (units ba)"
      using \<open>ba_wf ba\<close> \<open>nbbits ba = n\<close> index_in_units by simp
    moreover from assms have "units ba = replicate (Suc (unat n div 32)) 0"
      by (auto simp: pxBitArrayAlloc_def u split: if_splits)
    ultimately show False using g
      by (auto simp: xBitArrayGetBit_bit nth_append simp del: replicate.simps)
  qed
qed

section \<open>The interface of a bit store\<close>

locale bit_store =
  fixes get :: "'s \<Rightarrow> u32 \<Rightarrow> bool"
    and put :: "'s \<Rightarrow> u32 \<Rightarrow> 's"
    and clr :: "'s \<Rightarrow> u32 \<Rightarrow> 's"
    and size_of :: "'s \<Rightarrow> u32"
    and wf :: "'s \<Rightarrow> bool"
  assumes get_put: "wf s \<Longrightarrow> get (put s n) m = (get s m \<or> m = n \<and> n < size_of s)"
    and get_clr: "wf s \<Longrightarrow> get (clr s n) m = (get s m \<and> m \<noteq> n)"
    and get_range: "get s n \<Longrightarrow> n < size_of s"
    and size_put: "size_of (put s n) = size_of s"
    and size_clr: "size_of (clr s n) = size_of s"
    and wf_put: "wf s \<Longrightarrow> wf (put s n)"
    and wf_clr: "wf s \<Longrightarrow> wf (clr s n)"
begin

definition members :: "'s \<Rightarrow> u32 set" where
  "members s = {n. get s n}"

lemma members_put: "wf s \<Longrightarrow> n < size_of s \<Longrightarrow> members (put s n) = insert n (members s)"
  by (auto simp: members_def get_put)

lemma members_put_out: "wf s \<Longrightarrow> \<not> n < size_of s \<Longrightarrow> members (put s n) = members s"
  by (auto simp: members_def get_put)

lemma members_clr: "wf s \<Longrightarrow> members (clr s n) = members s - {n}"
  by (auto simp: members_def get_clr)

lemma members_bounded: "members s \<subseteq> {n. n < size_of s}"
  by (auto simp: members_def dest: get_range)

lemma clr_put_fresh: "wf s \<Longrightarrow> \<not> get s n \<Longrightarrow> members (clr (put s n) n) = members s"
  by (auto simp: members_def get_clr get_put wf_put)

end

interpretation bits: bit_store xBitArrayGetBit vBitArraySetBit vBitArrayClearBit nbbits ba_wf
  by unfold_locales (auto simp: get_set_bit get_clear_bit dest: get_out_of_range
      intro: ccontr)

end
