(* ===== verification/Num_Manager.thy ===== *)
theory Num_Manager
  imports Bit_Arr
begin

text \<open>
  The number manager of \<open>Rina-manager/Common/num_mgr.c\<close>, which hands out port
  ids, IPCP ids and connection-endpoint ids.  The search loop of
  \<open>ulNumMgrAllocate\<close> has no bound of its own, so it is a \<open>partial_function\<close>
  whose value is \<open>None\<close> when the C loop never leaves; \<open>ulNumMgrAllocate_spec\<close>
  compares it with a search along an explicit list of candidates, and says
  exactly when it does not return.
\<close>

record NumMgr_t =
  numCnt :: u32
  lastAllocated :: u32
  ba :: bitarray_t

abbreviation UINT_MAX :: u32 where
  "UINT_MAX \<equiv> 0xFFFFFFFF"

definition xNumMgrInit :: "bool \<Rightarrow> u32 \<Rightarrow> NumMgr_t option" where
  "xNumMgrInit mem cnt =
     (case pxBitArrayAlloc mem (cnt + 1) of
        None \<Rightarrow> None
      | Some b \<Rightarrow> Some \<lparr> numCnt = cnt + 1, lastAllocated = 0, ba = b \<rparr>)"

definition pxNumMgrCreate :: "bool \<Rightarrow> bool \<Rightarrow> u32 \<Rightarrow> NumMgr_t option" where
  "pxNumMgrCreate mem1 mem2 cnt =
     (if cnt = UINT_MAX then None
      else if \<not> mem1 then None
      else xNumMgrInit mem2 cnt)"

partial_function (option) num_alloc_loop :: "NumMgr_t \<Rightarrow> u32 \<Rightarrow> (u32 \<times> NumMgr_t) option" where
  "num_alloc_loop im p =
     (if p = lastAllocated im then Some (UINT_MAX, im)
      else (let q = (if p = numCnt im then 1 else p) in
            if \<not> xBitArrayGetBit (ba im) q
            then Some (q, im \<lparr> ba := vBitArraySetBit (ba im) q, lastAllocated := q \<rparr>)
            else num_alloc_loop im (q + 1)))"

definition ulNumMgrAllocate :: "NumMgr_t \<Rightarrow> (u32 \<times> NumMgr_t) option" where
  "ulNumMgrAllocate im = num_alloc_loop im (lastAllocated im + 1)"

definition xNumMgrRelease :: "NumMgr_t \<Rightarrow> u32 \<Rightarrow> bool \<times> NumMgr_t" where
  "xNumMgrRelease im n =
     (if \<not> xBitArrayGetBit (ba im) n then (False, im)
      else (True, im \<lparr> ba := vBitArrayClearBit (ba im) n \<rparr>))"

definition xNumMgrIsAllocated :: "NumMgr_t \<Rightarrow> u32 \<Rightarrow> bool" where
  "xNumMgrIsAllocated im n = xBitArrayGetBit (ba im) n"

section \<open>The invariant\<close>

definition nm_wf :: "NumMgr_t \<Rightarrow> bool" where
  "nm_wf im \<longleftrightarrow> ba_wf (ba im) \<and> nbbits (ba im) = numCnt im
     \<and> 2 \<le> numCnt im \<and> lastAllocated im < numCnt im"

lemma nm_wf_create:
  assumes "pxNumMgrCreate mem1 mem2 cnt = Some im" "0 < cnt" "cnt < UINT_MAX - 1"
  shows "nm_wf im" "numCnt im = cnt + 1" "lastAllocated im = 0" "\<not> xNumMgrIsAllocated im n"
proof -
  have c: "unat (cnt + 1) = Suc (unat cnt)" "cnt + 1 \<noteq> - 1"
    using assms(3)
    by (simp_all add: word_less_nat_alt unat_word_ariths word_unat_eq_iff unsigned_minus_1_eq_mask mask_eq_exp_minus_1)
  from assms obtain b where b: "pxBitArrayAlloc mem2 (cnt + 1) = Some b"
    and im: "im = \<lparr> numCnt = cnt + 1, lastAllocated = 0, ba = b \<rparr>"
    by (auto simp: pxNumMgrCreate_def xNumMgrInit_def split: if_splits option.splits)
  from alloc_bits[OF b c(2)] im c(1) assms(2)
  show "nm_wf im" "numCnt im = cnt + 1" "lastAllocated im = 0" "\<not> xNumMgrIsAllocated im n"
    by (auto simp: nm_wf_def xNumMgrIsAllocated_def word_less_nat_alt word_le_nat_alt)
qed

section \<open>The search\<close>

text \<open>The candidates in the order the loop visits them.  Number 0 is never a
  candidate; the number allocated last is one only when it is 1.\<close>

definition scan_order :: "nat \<Rightarrow> nat \<Rightarrow> nat list" where
  "scan_order l n = [Suc l..<n] @ 1 # [2..<l]"

definition nm_free :: "NumMgr_t \<Rightarrow> nat \<Rightarrow> bool" where
  "nm_free im k \<longleftrightarrow> \<not> xBitArrayGetBit (ba im) (word_of_nat k)"

definition nm_take :: "NumMgr_t \<Rightarrow> nat \<Rightarrow> (u32 \<times> NumMgr_t) option" where
  "nm_take im k = Some (word_of_nat k,
     im \<lparr> ba := vBitArraySetBit (ba im) (word_of_nat k), lastAllocated := word_of_nat k \<rparr>)"

lemma of_nat_u32_inject:
  "a < 4294967296 \<Longrightarrow> b < 4294967296 \<Longrightarrow> (word_of_nat a = (word_of_nat b :: u32)) = (a = b)"
  by (simp add: word_unat_eq_iff unat_of_nat)

lemma loop_step:
  assumes "k \<le> unat (numCnt im)" "k \<noteq> unat (lastAllocated im)"
  shows "num_alloc_loop im (word_of_nat k) =
    (let j = if k = unat (numCnt im) then 1 else k in
     if nm_free im j then nm_take im j else num_alloc_loop im (word_of_nat (Suc j)))"
proof -
  have "k < 4294967296"
    using assms(1) u32_bound[of "numCnt im"] by simp
  then have "(word_of_nat k = lastAllocated im) = (k = unat (lastAllocated im))"
    "(word_of_nat k = numCnt im) = (k = unat (numCnt im))"
    by (auto simp: word_unat_eq_iff unat_of_nat)
  with assms(2) show ?thesis
    by (subst num_alloc_loop.simps) (simp add: nm_free_def nm_take_def Let_def add.commute)
qed

lemma loop_up:
  assumes "unat (lastAllocated im) < k" "k \<le> unat (numCnt im)"
  shows "num_alloc_loop im (word_of_nat k) =
    (case find (nm_free im) [k..<unat (numCnt im)] of
       Some j \<Rightarrow> nm_take im j
     | None \<Rightarrow> num_alloc_loop im (numCnt im))"
  using assms
proof (induction "unat (numCnt im) - k" arbitrary: k)
  case (Suc d)
  then have "k < unat (numCnt im)" by simp
  with Suc loop_step[of k im] Suc.hyps(1)[of "Suc k"] show ?case
    by (simp add: upt_conv_Cons Let_def)
qed simp

lemma loop_up_last:
  assumes "1 \<le> k" "k \<le> unat (lastAllocated im)" "lastAllocated im < numCnt im"
  shows "num_alloc_loop im (word_of_nat k) =
    (case find (nm_free im) [k..<unat (lastAllocated im)] of
       Some j \<Rightarrow> nm_take im j
     | None \<Rightarrow> Some (UINT_MAX, im))"
  using assms
proof (induction "unat (lastAllocated im) - k" arbitrary: k)
  case 0
  then have "k = unat (lastAllocated im)" by simp
  then show ?case by (simp add: num_alloc_loop.simps)
next
  case (Suc d)
  then have "k < unat (lastAllocated im)" "unat (lastAllocated im) < unat (numCnt im)"
    by (simp_all add: word_less_nat_alt)
  with Suc loop_step[of k im] Suc.hyps(1)[of "Suc k"] show ?case
    by (simp add: upt_conv_Cons Let_def)
qed

lemma loop_wrap:
  assumes "lastAllocated im < numCnt im"
  shows "num_alloc_loop im (numCnt im) =
    (if nm_free im 1 then nm_take im 1 else num_alloc_loop im (word_of_nat 2))"
  using loop_step[of "unat (numCnt im)" im] assms
  by (simp add: word_less_nat_alt Let_def numeral_2_eq_2)

text \<open>The loop does not leave when every candidate is taken and it cannot meet
  the number allocated last.\<close>

lemma loop_diverges:
  assumes "lastAllocated im \<le> 1" "2 \<le> numCnt im"
    and taken: "\<And>k. 1 \<le> k \<Longrightarrow> k < unat (numCnt im) \<Longrightarrow> \<not> nm_free im k"
    and "2 \<le> k \<or> k = 1 \<and> lastAllocated im = 0" "k \<le> unat (numCnt im)"
  shows "num_alloc_loop im (word_of_nat k) = None"
proof -
  define D :: "u32 \<Rightarrow> bool" where "D p \<longleftrightarrow>
    (\<exists>k. p = word_of_nat k \<and> (2 \<le> k \<or> k = 1 \<and> lastAllocated im = 0) \<and> k \<le> unat (numCnt im))" for p
  have l: "unat (lastAllocated im) \<le> 1" and n: "2 \<le> unat (numCnt im)"
    using assms(1,2) by (simp_all add: word_le_nat_alt)
  have step: "\<exists>q. p \<noteq> lastAllocated im \<and> q = (if p = numCnt im then 1 else p)
      \<and> xBitArrayGetBit (ba im) q \<and> D (q + 1)" if "D p" for p
  proof -
    from that obtain k where k: "p = word_of_nat k" "2 \<le> k \<or> k = 1 \<and> lastAllocated im = 0"
      "k \<le> unat (numCnt im)" by (auto simp: D_def)
    define j where "j = (if k = unat (numCnt im) then 1 else k)"
    have lt: "k < 4294967296" using k(3) u32_bound[of "numCnt im"] by simp
    have j: "1 \<le> j" "j < unat (numCnt im)" using k n by (auto simp: j_def)
    have "D (word_of_nat (Suc j))"
      unfolding D_def using j by (intro exI[of _ "Suc j"]) auto
    moreover have "p \<noteq> lastAllocated im"
      using k l lt by (auto simp: word_unat_eq_iff unat_of_nat)
    moreover have "word_of_nat j = (if p = numCnt im then 1 else p)"
      using k(1) lt by (auto simp: j_def word_unat_eq_iff unat_of_nat)
    moreover have "xBitArrayGetBit (ba im) (word_of_nat j)"
      using taken[OF j] by (simp add: nm_free_def)
    ultimately show ?thesis by (auto simp: add.commute)
  qed
  have "im' = im \<longrightarrow> \<not> D p" if "num_alloc_loop im' p = Some r" for im' p r
    using that
  proof (rule num_alloc_loop.raw_induct[where P = "\<lambda>im' p r. im' = im \<longrightarrow> \<not> D p", rotated])
    fix rec im' p r
    assume IH: "\<And>im' p r. rec im' p = Some r \<Longrightarrow> im' = im \<longrightarrow> \<not> D p"
      and body: "(if p = lastAllocated im' then Some (UINT_MAX, im')
        else let q = if p = numCnt im' then 1 else p
             in if \<not> xBitArrayGetBit (ba im') q
                then Some (q, im' \<lparr>ba := vBitArraySetBit (ba im') q, lastAllocated := q\<rparr>)
                else rec im' (q + 1)) = Some r"
    show "im' = im \<longrightarrow> \<not> D p"
    proof (intro impI notI)
      assume im: "im' = im" and D: "D p"
      from step[OF D] body im obtain q where q: "rec im (q + 1) = Some r" "D (q + 1)"
        by (auto simp: Let_def split: if_splits)
      from IH[OF q(1)] q(2) show False by simp
    qed
  qed
  moreover have "D (word_of_nat k)" using assms(4,5) by (auto simp: D_def)
  ultimately show ?thesis by (cases "num_alloc_loop im (word_of_nat k)") auto
qed

section \<open>The allocation, specified\<close>

lemma find_append: "find P (xs @ ys) = (case find P xs of None \<Rightarrow> find P ys | Some x \<Rightarrow> Some x)"
  by (induction xs) auto

lemma find_SomeD: "find P xs = Some x \<Longrightarrow> x \<in> set xs \<and> P x"
  by (induction xs) (auto split: if_splits)

definition nm_search :: "NumMgr_t \<Rightarrow> nat option" where
  "nm_search im = find (nm_free im) (scan_order (unat (lastAllocated im)) (unat (numCnt im)))"

lemma nm_search_SomeD:
  assumes "nm_search im = Some k" "nm_wf im"
  shows "1 \<le> k" "k < unat (numCnt im)" "nm_free im k"
proof -
  have "k \<in> set (scan_order (unat (lastAllocated im)) (unat (numCnt im)))" "nm_free im k"
    using assms(1) find_SomeD unfolding nm_search_def by fast+
  with assms(2) show "1 \<le> k" "k < unat (numCnt im)" "nm_free im k"
    by (auto simp: scan_order_def nm_wf_def word_less_nat_alt word_le_nat_alt)
qed

lemma nm_search_NoneD:
  assumes "nm_search im = None" "nm_wf im" "1 \<le> k" "k < unat (numCnt im)"
    "k \<noteq> unat (lastAllocated im) \<or> lastAllocated im = 1"
  shows "\<not> nm_free im k"
proof -
  have "k \<in> set (scan_order (unat (lastAllocated im)) (unat (numCnt im)))"
    using assms(2-) by (auto simp: scan_order_def nm_wf_def)
  with assms(1) show ?thesis by (auto simp: nm_search_def find_None_iff)
qed

lemma alloc_start:
  assumes "nm_wf im"
  shows "ulNumMgrAllocate im =
    (case find (nm_free im) [Suc (unat (lastAllocated im))..<unat (numCnt im)] of
       Some j \<Rightarrow> nm_take im j
     | None \<Rightarrow> if nm_free im 1 then nm_take im 1 else num_alloc_loop im (word_of_nat 2))"
proof -
  have "lastAllocated im + 1 = word_of_nat (Suc (unat (lastAllocated im)))"
    by (simp add: add.commute)
  then show ?thesis
    using assms loop_up[of im "Suc (unat (lastAllocated im))"] loop_wrap[of im]
    unfolding ulNumMgrAllocate_def
    by (simp add: nm_wf_def word_less_nat_alt add.commute split: option.split)
qed

lemma ulNumMgrAllocate_spec0:
  assumes "nm_wf im"
  shows "ulNumMgrAllocate im =
    (case nm_search im of
       Some k \<Rightarrow> Some (word_of_nat k, im \<lparr> ba := vBitArraySetBit (ba im) (word_of_nat k),
                                          lastAllocated := word_of_nat k \<rparr>)
     | None \<Rightarrow> if 2 \<le> lastAllocated im then Some (UINT_MAX, im) else None)"
proof -
  let ?l = "unat (lastAllocated im)" and ?n = "unat (numCnt im)"
  have l: "?l < ?n" and n: "2 \<le> ?n" and wf: "lastAllocated im < numCnt im" "2 \<le> numCnt im"
    using assms by (simp_all add: nm_wf_def word_less_nat_alt word_le_nat_alt)
  note start = alloc_start[OF assms]
  show ?thesis
  proof (cases "find (nm_free im) [Suc ?l..<?n]")
    case (Some j)
    then show ?thesis using start
      by (simp add: nm_search_def scan_order_def find_append nm_take_def)
  next
    case None
    note wrap = start[unfolded None option.case]
    have upper: "\<not> nm_free im k" if "?l < k" "k < ?n" for k
      using None that by (auto simp: find_None_iff)
    show ?thesis
    proof (cases "nm_free im 1")
      case True
      then show ?thesis using wrap None
        by (simp add: nm_search_def scan_order_def find_append nm_take_def)
    next
      case False
      show ?thesis
      proof (cases "2 \<le> ?l")
        case True
        then show ?thesis using wrap None False loop_up_last[of 2 im] wf(1)
          by (simp add: nm_search_def scan_order_def find_append nm_take_def
              word_le_nat_alt split: option.split)
      next
        case small: False
        then have "\<not> nm_free im k" if "1 \<le> k" "k < ?n" for k
          using upper[of k] False that by (cases "k = 1") auto
        then have "num_alloc_loop im (word_of_nat 2) = None"
          using small n wf by (intro loop_diverges) (auto simp: word_le_nat_alt)
        moreover have "nm_search im = None"
          using None False small by (simp add: nm_search_def scan_order_def find_append)
        ultimately show ?thesis using wrap False small by (simp add: word_le_nat_alt)
      qed
    qed
  qed
qed

section \<open>Consequences\<close>

lemma word_of_nat_less: "k < unat (n::u32) \<Longrightarrow> word_of_nat k < n \<and> unat (word_of_nat k :: u32) = k"
  using u32_bound[of n] by (simp add: word_less_nat_alt unat_of_nat)

lemma allocate_cases:
  assumes "nm_wf im" "ulNumMgrAllocate im = Some (q, im')"
  obtains (taken) "1 \<le> q" "q < numCnt im" "\<not> xBitArrayGetBit (ba im) q"
      "im' = im \<lparr> ba := vBitArraySetBit (ba im) q, lastAllocated := q \<rparr>"
    | (exhausted) "q = UINT_MAX" "im' = im" "nm_search im = None" "2 \<le> lastAllocated im"
proof (cases "nm_search im")
  case None
  with assms show thesis by (intro exhausted) (auto simp: ulNumMgrAllocate_spec0 split: if_splits)
next
  case (Some k)
  note k = nm_search_SomeD[OF Some assms(1)]
  from assms Some have "q = word_of_nat k"
    "im' = im \<lparr> ba := vBitArraySetBit (ba im) q, lastAllocated := q \<rparr>"
    by (auto simp: ulNumMgrAllocate_spec0)
  with k word_of_nat_less[OF k(2)] show thesis
    by (intro taken) (auto simp: nm_free_def word_le_nat_alt)
qed

lemma allocate_wf:
  assumes "nm_wf im" "ulNumMgrAllocate im = Some (q, im')"
  shows "nm_wf im' \<and> numCnt im' = numCnt im"
  by (rule allocate_cases[OF assms]) (use assms(1) in \<open>auto simp: nm_wf_def\<close>)

lemma release_wf:
  "nm_wf im \<Longrightarrow> nm_wf (snd (xNumMgrRelease im n)) \<and> numCnt (snd (xNumMgrRelease im n)) = numCnt im"
  by (auto simp: nm_wf_def xNumMgrRelease_def)

text \<open>Whole histories: the numbers a client holds after a sequence of calls.\<close>

datatype nm_op = NmAllocate | NmRelease u32

fun nm_step :: "nm_op \<Rightarrow> NumMgr_t \<times> u32 list \<Rightarrow> (NumMgr_t \<times> u32 list) option" where
  "nm_step NmAllocate (im, out) =
     (case ulNumMgrAllocate im of
        None \<Rightarrow> None
      | Some (q, im') \<Rightarrow> Some (im', if q = UINT_MAX then out else q # out))"
| "nm_step (NmRelease n) (im, out) =
     (case xNumMgrRelease im n of (r, im') \<Rightarrow> Some (im', if r then remove1 n out else out))"

fun nm_run :: "nm_op list \<Rightarrow> NumMgr_t \<times> u32 list \<Rightarrow> (NumMgr_t \<times> u32 list) option" where
  "nm_run [] s = Some s"
| "nm_run (op # ops) s = (case nm_step op s of None \<Rightarrow> None | Some s' \<Rightarrow> nm_run ops s')"

fun nm_held :: "u32 \<Rightarrow> NumMgr_t \<times> u32 list \<Rightarrow> bool" where
  "nm_held n (im, out) \<longleftrightarrow> nm_wf im \<and> numCnt im = n \<and> distinct out
     \<and> set out = bits.members (ba im) \<and> 0 \<notin> bits.members (ba im)"

lemma nm_held_step:
  assumes "nm_held n s" "nm_step op s = Some s'"
  shows "nm_held n s'"
proof (cases op)
  case NmAllocate
  obtain im out where s: "s = (im, out)" by force
  with assms NmAllocate obtain q im' where q: "ulNumMgrAllocate im = Some (q, im')"
    "s' = (im', if q = UINT_MAX then out else q # out)" by (auto split: option.splits)
  have wf: "nm_wf im" using assms(1) s by simp
  from wf q(1) show ?thesis
  proof (cases rule: allocate_cases)
    case taken
    then have "q \<noteq> UINT_MAX"
      using u32_bound[of "numCnt im"] by (auto simp: word_less_nat_alt)
    moreover have "q \<noteq> 0" using taken(1) by auto
    moreover have "q \<notin> bits.members (ba im)" using taken(3) by (simp add: bits.members_def)
    moreover have "bits.members (vBitArraySetBit (ba im) q) = insert q (bits.members (ba im))"
      using bits.members_put wf taken(2) by (simp add: nm_wf_def)
    ultimately show ?thesis
      using assms(1) s q taken(4) allocate_wf[OF wf q(1)] by auto
  qed (use assms(1) s q in auto)
next
  case (NmRelease m)
  obtain im out where s: "s = (im, out)" by force
  have wf: "nm_wf im" using assms(1) s by simp
  then have "bits.members (vBitArrayClearBit (ba im) m) = bits.members (ba im) - {m}"
    by (intro bits.members_clr) (simp add: nm_wf_def)
  moreover have "s' = (snd (xNumMgrRelease im m), if xBitArrayGetBit (ba im) m then remove1 m out else out)"
    using assms(2) s NmRelease by (simp add: xNumMgrRelease_def split: if_splits)
  moreover have "ba (snd (xNumMgrRelease im m)) =
      (if xBitArrayGetBit (ba im) m then vBitArrayClearBit (ba im) m else ba im)"
    by (simp add: xNumMgrRelease_def)
  moreover have "xBitArrayGetBit (ba im) m \<longleftrightarrow> m \<in> set out"
    using assms(1) s by (simp add: bits.members_def)
  ultimately show ?thesis
    using assms(1) s release_wf[OF wf, of m] by simp
qed

lemma nm_held_run: "\<lbrakk>nm_held n s; nm_run ops s = Some s'\<rbrakk> \<Longrightarrow> nm_held n s'"
  by (induction ops arbitrary: s) (auto split: option.splits dest: nm_held_step)

section \<open>Properties\<close>

text \<open>C26: The allocation loop of the number manager refines a search: it takes
  the first free number in the order last+1, ..., count-1, 1, ..., last-1 and
  records it; when none is free it answers \<open>UINT_MAX\<close>, except that with the last
  allocated number 0 or 1 it never returns.\<close>

theorem ulNumMgrAllocate_spec:
  assumes "nm_wf im"
  shows "ulNumMgrAllocate im =
    (case find (\<lambda>k. \<not> xNumMgrIsAllocated im (word_of_nat k))
            ([Suc (unat (lastAllocated im))..<unat (numCnt im)] @ 1 # [2..<unat (lastAllocated im)]) of
       Some k \<Rightarrow> Some (word_of_nat k, im \<lparr> ba := vBitArraySetBit (ba im) (word_of_nat k),
                                          lastAllocated := word_of_nat k \<rparr>)
     | None \<Rightarrow> if 2 \<le> lastAllocated im then Some (UINT_MAX, im) else None)"
  using ulNumMgrAllocate_spec0[OF assms]
  by (simp add: nm_search_def scan_order_def nm_free_def[abs_def] xNumMgrIsAllocated_def)

definition nm_three :: "NumMgr_t" where
  "nm_three = \<lparr> numCnt = 4, lastAllocated = 2, ba = \<lparr> nbbits = 4, units = [0xC] \<rparr> \<rparr>"

lemma nm_wf_three: "nm_wf nm_three"
  by (simp add: nm_three_def nm_wf_def ba_wf_def)

lemma nm_three_bits:
  "xNumMgrIsAllocated nm_three 3" "\<not> xNumMgrIsAllocated nm_three 1"
  "vBitArraySetBit (ba nm_three) 1 = \<lparr> nbbits = 4, units = [0xE] \<rparr>"
  by (simp_all add: nm_three_def xNumMgrIsAllocated_def xBitArrayGetBit_bit
      vBitArraySetBit_def BIT_INDEX_def Let_def)

lemma ulNumMgrAllocate_spec_witness:
  "ulNumMgrAllocate nm_three = Some (1, \<lparr> numCnt = 4, lastAllocated = 1,
     ba = \<lparr> nbbits = 4, units = [0xE] \<rparr> \<rparr>)"
proof -
  have "[Suc (unat (lastAllocated nm_three))..<unat (numCnt nm_three)] @
      1 # [2..<unat (lastAllocated nm_three)] = [3, 1]"
    by (simp add: nm_three_def upt_conv_Cons)
  note L = this
  have F: "find (\<lambda>k. \<not> xNumMgrIsAllocated nm_three (word_of_nat k)) [3, 1] = Some 1"
    using nm_three_bits by simp
  show ?thesis
    unfolding ulNumMgrAllocate_spec[OF nm_wf_three] L F option.case of_nat_1 nm_three_bits
    by (simp add: nm_three_def)
qed

text \<open>C27: After any sequence of allocations and releases on a manager made by
  \<open>pxNumMgrCreate\<close>, the numbers the clients hold are pairwise distinct, lie
  between 1 and the requested count, and are exactly those marked allocated: no
  number is handed out twice.\<close>

theorem numbers_held_once:
  assumes "pxNumMgrCreate mem1 mem2 cnt = Some im0" "0 < cnt" "cnt < UINT_MAX - 1"
    and "nm_run ops (im0, []) = Some (im, out)"
  shows "distinct out \<and> (\<forall>n. xNumMgrIsAllocated im n \<longleftrightarrow> n \<in> set out)
    \<and> set out \<subseteq> {1..cnt}"
proof -
  note c = nm_wf_create[OF assms(1-3)]
  from c have "nm_held (cnt + 1) (im0, [])"
    by (auto simp: bits.members_def xNumMgrIsAllocated_def)
  from nm_held_run[OF this assms(4)] have h: "nm_wf im" "numCnt im = cnt + 1" "distinct out"
    "set out = bits.members (ba im)" "0 \<notin> set out" by auto
  have "n \<le> cnt" if "n < cnt + 1" for n
    using that assms(3) by (simp add: word_less_nat_alt word_le_nat_alt unat_word_ariths)
  moreover have "1 \<le> n" if "n \<noteq> 0" for n :: u32
    using that by (simp add: word_le_nat_alt Suc_le_eq unat_gt_0)
  moreover have "n < cnt + 1" "n \<noteq> 0" if "n \<in> set out" for n
    using that h bits.members_bounded[of "ba im"] by (auto simp: nm_wf_def)
  ultimately have "set out \<subseteq> {1..cnt}" by auto
  with h show ?thesis by (auto simp: bits.members_def xNumMgrIsAllocated_def)
qed

lemma created_bits:
  "pxNumMgrCreate True True 2 = Some \<lparr> numCnt = 3, lastAllocated = 0, ba = \<lparr> nbbits = 3, units = [0] \<rparr> \<rparr>"
  by (simp add: pxNumMgrCreate_def xNumMgrInit_def pxBitArrayAlloc_def)

lemma numbers_held_once_witness:
  "nm_run [NmAllocate, NmRelease 1]
     (\<lparr> numCnt = 3, lastAllocated = 0, ba = \<lparr> nbbits = 3, units = [0] \<rparr> \<rparr>, [])
   = Some (\<lparr> numCnt = 3, lastAllocated = 1, ba = \<lparr> nbbits = 3, units = [0] \<rparr> \<rparr>, [])
   \<and> \<not> xNumMgrIsAllocated \<lparr> numCnt = 3, lastAllocated = 1, ba = \<lparr> nbbits = 3, units = [0] \<rparr> \<rparr> 1"
proof -
  have run: "nm_run [NmAllocate, NmRelease 1]
     (\<lparr> numCnt = 3, lastAllocated = 0, ba = \<lparr> nbbits = 3, units = [0] \<rparr> \<rparr>, [])
   = Some (\<lparr> numCnt = 3, lastAllocated = 1, ba = \<lparr> nbbits = 3, units = [0] \<rparr> \<rparr>, [])"
    by (simp add: ulNumMgrAllocate_def num_alloc_loop.simps xNumMgrRelease_def xBitArrayGetBit_bit
        vBitArraySetBit_def vBitArrayClearBit_def BIT_INDEX_def Let_def)
  from numbers_held_once[OF created_bits _ _ run] run show ?thesis by simp
qed

text \<open>C28: Allocation returns exactly when the number allocated last is at least 2
  or some number of the range is free: with last number 1 (or 0) and every
  number taken the search loop runs for ever.\<close>

theorem ulNumMgrAllocate_returns:
  assumes "nm_wf im"
  shows "(\<exists>q im'. ulNumMgrAllocate im = Some (q, im')) \<longleftrightarrow>
    2 \<le> lastAllocated im \<or> (\<exists>n. 1 \<le> n \<and> n < numCnt im \<and> \<not> xNumMgrIsAllocated im n)"
proof (cases "nm_search im")
  case None
  have "xNumMgrIsAllocated im n" if "1 \<le> n" "n < numCnt im" "\<not> 2 \<le> lastAllocated im" for n
  proof -
    have "unat n \<noteq> unat (lastAllocated im) \<or> lastAllocated im = 1"
      using that by (auto simp: word_le_nat_alt word_unat_eq_iff)
    with nm_search_NoneD[OF None assms, of "unat n"] that show ?thesis
      by (simp add: nm_free_def xNumMgrIsAllocated_def word_le_nat_alt word_less_nat_alt)
  qed
  with None show ?thesis by (auto simp: ulNumMgrAllocate_spec0[OF assms])
next
  case (Some k)
  note k = nm_search_SomeD[OF Some assms]
  then have "1 \<le> (word_of_nat k :: u32) \<and> word_of_nat k < numCnt im
      \<and> \<not> xNumMgrIsAllocated im (word_of_nat k)"
    using word_of_nat_less[OF k(2)] by (simp add: nm_free_def xNumMgrIsAllocated_def word_le_nat_alt)
  with Some show ?thesis by (auto simp: ulNumMgrAllocate_spec0[OF assms])
qed

lemma ulNumMgrAllocate_returns_witness:
  "\<not> (\<exists>q im'. ulNumMgrAllocate \<lparr> numCnt = 2, lastAllocated = 1,
       ba = \<lparr> nbbits = 2, units = [2] \<rparr> \<rparr> = Some (q, im'))"
proof -
  let ?im = "\<lparr> numCnt = 2, lastAllocated = 1, ba = \<lparr> nbbits = 2, units = [2] \<rparr> \<rparr>"
  have "nm_wf ?im" by (simp add: nm_wf_def ba_wf_def)
  moreover have "unat n = 1" if "1 \<le> n" "n < 2" for n :: u32
    using that by (simp add: word_le_nat_alt word_less_nat_alt word_unat_eq_iff)
  then have "\<not> (\<exists>n. 1 \<le> n \<and> n < 2 \<and> \<not> xNumMgrIsAllocated ?im n)"
    by (simp add: xNumMgrIsAllocated_def xBitArrayGetBit_bit)
  ultimately show ?thesis by (simp add: ulNumMgrAllocate_returns word_le_nat_alt del: not_ex)
qed

text \<open>The manager gives up with \<open>UINT_MAX\<close> although a number is free: when
  every other number is taken and the one allocated last has just been released,
  the next allocation still reports exhaustion and leaves the state as it is.\<close>

theorem released_last_not_found:
  assumes "nm_wf im" "2 \<le> lastAllocated im"
    and "\<forall>n. 1 \<le> n \<and> n < numCnt im \<and> n \<noteq> lastAllocated im \<longrightarrow> xNumMgrIsAllocated im n"
    and "xNumMgrRelease im (lastAllocated im) = (True, im')"
  shows "ulNumMgrAllocate im' = Some (UINT_MAX, im') \<and> \<not> xNumMgrIsAllocated im' (lastAllocated im')"
proof -
  have wfb: "ba_wf (ba im)" using assms(1) by (simp add: nm_wf_def)
  have im': "im' = im \<lparr> ba := vBitArrayClearBit (ba im) (lastAllocated im) \<rparr>"
    using assms(4) by (auto simp: xNumMgrRelease_def split: if_splits)
  have wf': "nm_wf im'" using release_wf[OF assms(1), of "lastAllocated im"] assms(4) by simp
  have "nm_search im' = None"
  proof (rule ccontr)
    assume "nm_search im' \<noteq> None"
    then obtain k where k: "nm_search im' = Some k" by auto
    have "k \<noteq> unat (lastAllocated im')"
      using k assms(2) im' find_SomeD[of "nm_free im'"]
      by (fastforce simp: nm_search_def scan_order_def word_le_nat_alt)
    moreover have "word_of_nat k \<noteq> lastAllocated im" if "k \<noteq> unat (lastAllocated im)"
      using word_of_nat_less[of k "numCnt im"] nm_search_SomeD(2)[OF k wf'] im' that by auto
    ultimately show False
      using nm_search_SomeD[OF k wf'] word_of_nat_less[of k "numCnt im"] im'
      assms(3)[rule_format, of "word_of_nat k"]
      by (auto simp: nm_free_def xNumMgrIsAllocated_def bits.get_clr[OF wfb] word_le_nat_alt)
  qed
  then have "ulNumMgrAllocate im' = Some (UINT_MAX, im')"
    using ulNumMgrAllocate_spec0[OF wf'] assms(2) im' by simp
  with im' show ?thesis
    by (simp add: xNumMgrIsAllocated_def bits.get_clr[OF wfb])
qed

lemma released_last_not_found_witness:
  "ulNumMgrAllocate \<lparr> numCnt = 3, lastAllocated = 2, ba = \<lparr> nbbits = 3, units = [2] \<rparr> \<rparr>
   = Some (UINT_MAX, \<lparr> numCnt = 3, lastAllocated = 2, ba = \<lparr> nbbits = 3, units = [2] \<rparr> \<rparr>)"
proof -
  let ?im = "\<lparr> numCnt = 3, lastAllocated = 2, ba = \<lparr> nbbits = 3, units = [6] \<rparr> \<rparr>"
  have "unat n = 1" if "1 \<le> n" "n < 3" "n \<noteq> 2" for n :: u32
    using that by (auto simp: word_le_nat_alt word_less_nat_alt word_unat_eq_iff)
  then have "\<forall>n. 1 \<le> n \<and> n < numCnt ?im \<and> n \<noteq> lastAllocated ?im \<longrightarrow> xNumMgrIsAllocated ?im n"
    by (simp add: xNumMgrIsAllocated_def xBitArrayGetBit_bit)
  moreover have "xNumMgrRelease ?im (lastAllocated ?im) = (True,
      \<lparr> numCnt = 3, lastAllocated = 2, ba = \<lparr> nbbits = 3, units = [2] \<rparr> \<rparr>)"
    by (simp add: xNumMgrRelease_def xBitArrayGetBit_bit vBitArrayClearBit_def BIT_INDEX_def Let_def)
  moreover have "nm_wf ?im" by (simp add: nm_wf_def ba_wf_def)
  ultimately show ?thesis using released_last_not_found[of ?im] by simp
qed

end
