(* ===== verification/Rina_Names.thy ===== *)
theory Rina_Names
  imports Rina_Prelude "HOL-Library.Monad_Syntax"
begin

text \<open>
  Application naming information: \<open>Rina-manager/Common/rina_name.c\<close>.  A string
  pointer is a \<open>string option\<close> with \<open>None\<close> for NULL.  The outer option of an
  operation is \<open>None\<close> when the code has no defined behaviour: \<open>pcRstrDup\<close>,
  \<open>pcNameToString\<close> and their callers clear a fresh block before they test the
  pointer, so a failed allocation writes through NULL.  The Boolean arguments
  say whether the allocations succeed; freeing leaves no trace in the model but
  the pointer, which the code sets to NULL.
\<close>

record name_t =
  pcProcessName :: "string option"
  pcProcessInstance :: "string option"
  pcEntityName :: "string option"
  pcEntityInstance :: "string option"

definition empty_name :: name_t where
  "empty_name = \<lparr> pcProcessName = None, pcProcessInstance = None,
                  pcEntityName = None, pcEntityInstance = None \<rparr>"

definition pxRStrNameCreate :: "bool \<Rightarrow> name_t option" where
  "pxRStrNameCreate mem = (if mem then Some empty_name else None)"

definition vRstrNameFini :: "name_t \<Rightarrow> name_t" where
  "vRstrNameFini n = n \<lparr> pcProcessName := None, pcProcessInstance := None,
                        pcEntityName := None, pcEntityInstance := None \<rparr>"

definition pcRstrDup :: "bool \<Rightarrow> string option \<Rightarrow> string option option" where
  "pcRstrDup mem s =
     (case s of
        None \<Rightarrow> Some None
      | Some str \<Rightarrow> if mem then Some (Some str) else None)"

text \<open>The result of \<open>xRstringDup\<close> and the pointer it stores.\<close>

definition xRstringDup :: "bool \<Rightarrow> string option \<Rightarrow> (bool \<times> string option) option" where
  "xRstringDup mem src =
     (case src of
        Some str \<Rightarrow> do {
          d \<leftarrow> pcRstrDup mem (Some str);
          if d = None then Some (False, None) else Some (True, d) }
      | None \<Rightarrow> Some (True, None))"

text \<open>The disjunction of \<open>xRstrNameCpy\<close> stops at the first true operand; the
  pointers not reached keep the value \<open>vRstrNameFini\<close> gave them.\<close>

definition xRstrNameCpy :: "bool \<Rightarrow> name_t option \<Rightarrow> name_t option \<Rightarrow> (bool \<times> name_t option) option" where
  "xRstrNameCpy mem src dst =
     (case (src, dst) of
        (Some s, Some d) \<Rightarrow> do {
          let d = vRstrNameFini d;
          (a, p) \<leftarrow> xRstringDup mem (pcProcessName s);
          let d = d \<lparr> pcProcessName := p \<rparr>;
          (b, d) \<leftarrow> (if a then Some (True, d) else do {
             (r, p) \<leftarrow> xRstringDup mem (pcProcessInstance s);
             Some (r, d \<lparr> pcProcessInstance := p \<rparr>) });
          (c, d) \<leftarrow> (if b then Some (True, d) else do {
             (r, p) \<leftarrow> xRstringDup mem (pcEntityName s);
             Some (r, d \<lparr> pcEntityName := p \<rparr>) });
          (e, d) \<leftarrow> (if c then Some (True, d) else do {
             (r, p) \<leftarrow> xRstringDup mem (pcEntityInstance s);
             Some (r, d \<lparr> pcEntityInstance := p \<rparr>) });
          (if e then Some (False, Some (vRstrNameFini d)) else Some (True, Some d)) }
      | _ \<Rightarrow> Some (False, dst))"

definition pxRstrNameDup :: "bool \<Rightarrow> bool \<Rightarrow> name_t option \<Rightarrow> name_t option option" where
  "pxRstrNameDup mem1 mem2 src =
     (if src = None then Some None
      else case pxRStrNameCreate mem1 of
        None \<Rightarrow> Some None
      | Some tmp \<Rightarrow> do {
          (r, d) \<leftarrow> xRstrNameCpy mem2 src (Some tmp);
          if r then Some None else Some d })"

text \<open>The conjunction of \<open>xRINANameInitFrom\<close> stores every string it reaches.\<close>

definition xRINANameInitFrom ::
  "bool \<Rightarrow> name_t option \<Rightarrow> string option \<Rightarrow> string option \<Rightarrow> string option \<Rightarrow> string option
   \<Rightarrow> name_t option option" where
  "xRINANameInitFrom mem dst pn pi en ei =
     (case dst of
        None \<Rightarrow> Some None
      | Some d \<Rightarrow> do {
          (a, p) \<leftarrow> xRstringDup mem pn;
          if \<not> a then Some None else do {
          (b, q) \<leftarrow> xRstringDup mem pi;
          if \<not> b then Some None else do {
          (c, r) \<leftarrow> xRstringDup mem en;
          if \<not> c then Some None else do {
          (e, s) \<leftarrow> xRstringDup mem ei;
          if \<not> e then Some None
          else Some (Some ((vRstrNameFini d) \<lparr> pcProcessName := p, pcProcessInstance := q,
                 pcEntityName := r, pcEntityInstance := s \<rparr>)) }}}})"

text \<open>\<open>strsep\<close> of the C library with a delimiter of one character: the token and
  what the moved pointer sees.\<close>

definition strsep :: "char \<Rightarrow> string option \<Rightarrow> string option \<times> string option" where
  "strsep c p =
     (case p of
        None \<Rightarrow> (None, None)
      | Some s \<Rightarrow> (Some (takeWhile (\<lambda>x. x \<noteq> c) s),
           case dropWhile (\<lambda>x. x \<noteq> c) s of [] \<Rightarrow> None | _ # r \<Rightarrow> Some r))"

definition split4 :: "char \<Rightarrow> string option \<Rightarrow> string option \<times> string option \<times> string option \<times> string option" where
  "split4 c p =
     (let (pn, p) = strsep c p; (pi, p) = strsep c p; (en, p) = strsep c p; (ei, p) = strsep c p
      in (pn, pi, en, ei))"

abbreviation DELIMITER :: char where "DELIMITER \<equiv> CHR ''/''"
abbreviation BAR :: char where "BAR \<equiv> CHR ''|''"

definition xRINAstringToName :: "bool \<Rightarrow> bool \<Rightarrow> bool \<Rightarrow> string option \<Rightarrow> name_t option option" where
  "xRINAstringToName mem1 mem2 mem3 input = do {
     (_, tmp) \<leftarrow> xRstringDup mem1 input;
     let (pn, pi, en, ei) = split4 DELIMITER tmp;
     (case pxRStrNameCreate mem2 of
        None \<Rightarrow> Some None
      | Some n \<Rightarrow> xRINANameInitFrom mem3 (Some n) pn pi en ei) }"

definition dup_or_empty :: "string option \<Rightarrow> string option" where
  "dup_or_empty t = (case t of Some s \<Rightarrow> Some s | None \<Rightarrow> Some '''')"

definition xRinaNameFromString :: "bool \<Rightarrow> string option \<Rightarrow> (bool \<times> name_t) option" where
  "xRinaNameFromString mem str = do {
     strc \<leftarrow> pcRstrDup mem str;
     (case strc of
        None \<Rightarrow> Some (False, empty_name)
      | Some _ \<Rightarrow>
         (let (apn, api, aen, aei) = split4 BAR strc in
          if apn = None then Some (False, empty_name)
          else Some (True, \<lparr> pcProcessName = dup_or_empty apn, pcProcessInstance = dup_or_empty api,
                 pcEntityName = dup_or_empty aen, pcEntityInstance = dup_or_empty aei \<rparr>))) }"

definition str_of :: "string option \<Rightarrow> string" where
  "str_of p = (case p of Some s \<Rightarrow> s | None \<Rightarrow> '''')"

text \<open>The buffer has room for four delimiters and the text has three; the length
  that \<open>snprintf\<close> reports is compared with the size less one.\<close>

definition pcNameToString :: "bool \<Rightarrow> name_t option \<Rightarrow> string option option" where
  "pcNameToString mem np =
     (case np of
        None \<Rightarrow> Some None
      | Some n \<Rightarrow>
         (let size = length (str_of (pcProcessName n)) + 1 + length (str_of (pcProcessInstance n)) + 1
                   + length (str_of (pcEntityName n)) + 1 + length (str_of (pcEntityInstance n)) + 1;
              txt = str_of (pcProcessName n) @ [DELIMITER] @ str_of (pcProcessInstance n) @ [DELIMITER]
                   @ str_of (pcEntityName n) @ [DELIMITER] @ str_of (pcEntityInstance n)
          in if \<not> mem then None
             else if length txt \<noteq> size - 1 then Some None
             else Some (Some (take (size - 1) txt))))"

section \<open>Lemmas\<close>

lemma xRstringDup_Some: "xRstringDup True s = Some (True, s)"
  by (simp add: xRstringDup_def pcRstrDup_def split: option.split)

lemma xRstringDup_defined: "xRstringDup mem s = Some (r, d) \<Longrightarrow> r \<and> d = s"
  by (auto simp: xRstringDup_def pcRstrDup_def split: option.splits if_splits)

lemma xRINANameInitFrom_ok:
  "xRINANameInitFrom True (Some d) pn pi en ei = Some (Some \<lparr> pcProcessName = pn,
     pcProcessInstance = pi, pcEntityName = en, pcEntityInstance = ei \<rparr>)"
  by (cases d) (simp add: xRINANameInitFrom_def xRstringDup_Some vRstrNameFini_def)

lemma takeWhile_sep: "c \<notin> set s \<Longrightarrow> takeWhile (\<lambda>x. x \<noteq> c) (s @ c # r) = s"
  by (induction s) auto

lemma dropWhile_sep: "c \<notin> set s \<Longrightarrow> dropWhile (\<lambda>x. x \<noteq> c) (s @ c # r) = c # r"
  by (induction s) auto

lemma strsep_sep: "c \<notin> set s \<Longrightarrow> strsep c (Some (s @ c # r)) = (Some s, Some r)"
  by (simp add: strsep_def takeWhile_sep dropWhile_sep)

lemma strsep_end: "c \<notin> set s \<Longrightarrow> strsep c (Some s) = (Some s, None)"
proof -
  assume "c \<notin> set s"
  then have "takeWhile (\<lambda>x. x \<noteq> c) s = s" "dropWhile (\<lambda>x. x \<noteq> c) s = []"
    by (auto simp: takeWhile_eq_all_conv)
  then show ?thesis unfolding strsep_def option.case by (simp only: list.case)
qed

lemma split4_join:
  assumes "c \<notin> set a" "c \<notin> set b" "c \<notin> set d" "c \<notin> set e"
  shows "split4 c (Some (a @ c # b @ c # d @ c # e)) = (Some a, Some b, Some d, Some e)"
  using assms by (simp add: split4_def strsep_sep strsep_end)

lemma split4_none: "c \<notin> set s \<Longrightarrow> split4 c (Some s) = (Some s, None, None, None)"
  by (simp add: split4_def strsep_end) (simp add: strsep_def)

lemma pcNameToString_text:
  "pcNameToString True (Some n) = Some (Some (str_of (pcProcessName n) @ DELIMITER #
     str_of (pcProcessInstance n) @ DELIMITER # str_of (pcEntityName n) @ DELIMITER #
     str_of (pcEntityInstance n)))"
  by (simp add: pcNameToString_def Let_def)

definition name_chars :: "name_t \<Rightarrow> char set" where
  "name_chars n = set (str_of (pcProcessName n)) \<union> set (str_of (pcProcessInstance n))
     \<union> set (str_of (pcEntityName n)) \<union> set (str_of (pcEntityInstance n))"

section \<open>Properties\<close>

text \<open>C34: Printing a name and parsing the text gives the name back, NULL fields
  as empty strings, whenever no field contains the delimiter.\<close>

theorem name_print_parse:
  assumes "DELIMITER \<notin> name_chars n"
  shows "(do { s \<leftarrow> pcNameToString True (Some n); xRINAstringToName True True True s }) =
    Some (Some \<lparr> pcProcessName = Some (str_of (pcProcessName n)),
       pcProcessInstance = Some (str_of (pcProcessInstance n)),
       pcEntityName = Some (str_of (pcEntityName n)),
       pcEntityInstance = Some (str_of (pcEntityInstance n)) \<rparr>)"
  using assms split4_join[of DELIMITER "str_of (pcProcessName n)" "str_of (pcProcessInstance n)"
      "str_of (pcEntityName n)" "str_of (pcEntityInstance n)"]
  by (simp add: pcNameToString_text xRINAstringToName_def xRstringDup_Some pxRStrNameCreate_def
      xRINANameInitFrom_ok name_chars_def)

lemma name_print_parse_witness:
  "(do { s \<leftarrow> pcNameToString True (Some \<lparr> pcProcessName = Some ''st1'', pcProcessInstance = Some ''1'',
            pcEntityName = None, pcEntityInstance = Some ''x'' \<rparr>);
         xRINAstringToName True True True s }) =
   Some (Some \<lparr> pcProcessName = Some ''st1'', pcProcessInstance = Some ''1'',
            pcEntityName = Some '''', pcEntityInstance = Some ''x'' \<rparr>)"
  by (subst name_print_parse) (simp_all add: name_chars_def str_of_def)

text \<open>The copy of a name never copies: whenever \<open>xRstrNameCpy\<close> is defined it
  reports failure and leaves the destination empty, so \<open>pxRstrNameDup\<close> of a
  non-NULL name returns a name whose four fields are NULL (or NULL when the
  structure itself cannot be allocated).\<close>

theorem name_dup_never_copies:
  "pxRstrNameDup mem1 mem2 (Some n) = Some r \<Longrightarrow> r = (if mem1 then Some empty_name else None)"
  by (auto simp: pxRstrNameDup_def xRstrNameCpy_def pxRStrNameCreate_def vRstrNameFini_def
      empty_name_def Let_def split: if_splits option.splits prod.splits
      Option.bind_splits dest!: xRstringDup_defined)

lemma name_dup_never_copies_witness:
  "pxRstrNameDup True True (Some \<lparr> pcProcessName = Some ''a'', pcProcessInstance = None,
       pcEntityName = None, pcEntityInstance = None \<rparr>) = Some (Some empty_name)"
proof -
  have "pxRstrNameDup True True (Some \<lparr> pcProcessName = Some ''a'', pcProcessInstance = None,
       pcEntityName = None, pcEntityInstance = None \<rparr>) \<noteq> None"
    by (simp add: pxRstrNameDup_def xRstrNameCpy_def pxRStrNameCreate_def xRstringDup_Some Let_def)
  then show ?thesis using name_dup_never_copies by fastforce
qed

text \<open>The two parsers disagree on the separator: the text that \<open>pcNameToString\<close>
  prints for a name without bars comes back from \<open>xRinaNameFromString\<close> as one
  process name holding the whole text, with the other fields empty.\<close>

theorem name_from_string_other_separator:
  assumes "BAR \<notin> name_chars n"
  shows "(do { s \<leftarrow> pcNameToString True (Some n); xRinaNameFromString True s }) =
    Some (True, \<lparr> pcProcessName = Some (str_of (pcProcessName n) @ DELIMITER #
        str_of (pcProcessInstance n) @ DELIMITER # str_of (pcEntityName n) @ DELIMITER #
        str_of (pcEntityInstance n)),
      pcProcessInstance = Some '''', pcEntityName = Some '''', pcEntityInstance = Some '''' \<rparr>)"
  using assms by (simp add: pcNameToString_text xRinaNameFromString_def pcRstrDup_def
      split4_none name_chars_def dup_or_empty_def)

lemma name_from_string_other_separator_witness:
  "(do { s \<leftarrow> pcNameToString True (Some \<lparr> pcProcessName = Some ''p'', pcProcessInstance = Some ''1'',
            pcEntityName = None, pcEntityInstance = None \<rparr>);
         xRinaNameFromString True s }) =
   Some (True, \<lparr> pcProcessName = Some ''p/1//'', pcProcessInstance = Some '''',
            pcEntityName = Some '''', pcEntityInstance = Some '''' \<rparr>)"
  by (subst name_from_string_other_separator) (simp_all add: name_chars_def str_of_def)

end
