(* ===== verification/Rina_Links.thy ===== *)
theory Rina_Links
  imports Rina_Prelude "HOL-Library.Monad_Syntax"
begin

text \<open>
  The intrusive lists of \<open>Rina-manager/Common/include/common/list.h\<close> on top of
  the doubly linked ring of \<open>private/iot_doubly_linked_list.h\<close>.  The store maps
  the address of an item (the list head is one) to its links, its containing
  list and its owner; a NULL pointer is \<open>None\<close>, and following one makes the
  operation undefined.  \<open>ring s h xs\<close> says that the memory at \<open>h\<close> holds the list
  of the items \<open>xs\<close>; the operations are proved to act on \<open>xs\<close>.
\<close>

type_synonym addr = nat

record lstore =
  pxNext :: "addr \<Rightarrow> addr option"
  pxPrev :: "addr \<Rightarrow> addr option"
  pvCont :: "addr \<Rightarrow> addr option"
  pvOwner :: "addr \<Rightarrow> nat option"
  nLength :: "addr \<Rightarrow> u32"

definition listINIT_HEAD :: "addr \<Rightarrow> lstore \<Rightarrow> lstore" where
  "listINIT_HEAD h s = s \<lparr> pxPrev := (pxPrev s)(h := Some h), pxNext := (pxNext s)(h := Some h) \<rparr>"

definition listADD :: "addr \<Rightarrow> addr \<Rightarrow> lstore \<Rightarrow> lstore option" where
  "listADD p l s = do {
     let prevLink = p;
     nextLink \<leftarrow> pxNext s p;
     let s = s \<lparr> pxNext := (pxNext s)(l := Some nextLink) \<rparr>;
     let s = s \<lparr> pxPrev := (pxPrev s)(nextLink := Some l) \<rparr>;
     let s = s \<lparr> pxNext := (pxNext s)(prevLink := Some l) \<rparr>;
     let s = s \<lparr> pxPrev := (pxPrev s)(l := Some prevLink) \<rparr>;
     Some s }"

definition listREMOVE :: "addr \<Rightarrow> lstore \<Rightarrow> lstore" where
  "listREMOVE l s =
     (let s = (case (pxNext s l, pxPrev s l) of
                 (Some n, Some p) \<Rightarrow>
                   s \<lparr> pxNext := (pxNext s)(p := Some n), pxPrev := (pxPrev s)(n := Some p) \<rparr>
               | _ \<Rightarrow> s)
      in s \<lparr> pxPrev := (pxPrev s)(l := None), pxNext := (pxNext s)(l := None) \<rparr>)"

definition vRsListInitItem :: "addr \<Rightarrow> nat option \<Rightarrow> lstore \<Rightarrow> lstore" where
  "vRsListInitItem i ow s = (listINIT_HEAD i s) \<lparr> pvOwner := (pvOwner s)(i := ow) \<rparr>"

definition vRsListInit :: "addr \<Rightarrow> lstore \<Rightarrow> lstore" where
  "vRsListInit h s = (vRsListInitItem h None s) \<lparr> nLength := (nLength s)(h := 0) \<rparr>"

definition list_count :: "addr \<Rightarrow> addr \<Rightarrow> lstore \<Rightarrow> lstore" where
  "list_count h i s = s \<lparr> nLength := (nLength s)(h := nLength s h + 1), pvCont := (pvCont s)(i := Some h) \<rparr>"

definition vRsListInsert :: "addr \<Rightarrow> addr \<Rightarrow> lstore \<Rightarrow> lstore option" where
  "vRsListInsert h i s = do {
     f \<leftarrow> pxNext s h;
     s \<leftarrow> listADD f i s;
     Some (list_count h i s) }"

definition vRsListInsertEnd :: "addr \<Rightarrow> addr \<Rightarrow> lstore \<Rightarrow> lstore option" where
  "vRsListInsertEnd h i s = do {
     l \<leftarrow> pxPrev s h;
     s \<leftarrow> listADD l i s;
     Some (list_count h i s) }"

definition vRsListRemove :: "addr \<Rightarrow> lstore \<Rightarrow> lstore option" where
  "vRsListRemove i s = do {
     h \<leftarrow> pvCont s i;
     Some (listREMOVE i (s \<lparr> nLength := (nLength s)(h := nLength s h - 1) \<rparr>)) }"

definition pxRsListGetFirst :: "addr \<Rightarrow> lstore \<Rightarrow> addr option" where
  "pxRsListGetFirst h s = (if nLength s h = 0 then None else pxNext s h)"

definition pxRsListGetLast :: "addr \<Rightarrow> lstore \<Rightarrow> addr option" where
  "pxRsListGetLast h s = (if nLength s h = 0 then None else pxPrev s h)"

text \<open>The owner of the head itself, not of the first item.\<close>

definition pxRsListGetHeadOwner :: "addr \<Rightarrow> lstore \<Rightarrow> nat option" where
  "pxRsListGetHeadOwner h s = pvOwner s h"

text \<open>The next item, NULL when it has no owner, as the head has none.\<close>

definition pxRsListGetNext :: "addr \<Rightarrow> lstore \<Rightarrow> addr option option" where
  "pxRsListGetNext i s = do {
     n \<leftarrow> pxNext s i;
     Some (if pvOwner s n \<noteq> None then Some n else None) }"

partial_function (option) contained_loop :: "lstore \<Rightarrow> addr \<Rightarrow> addr option \<Rightarrow> bool option" where
  "contained_loop s x p =
     (case p of
        None \<Rightarrow> Some False
      | Some i \<Rightarrow> if i = x then Some True
                 else do { n \<leftarrow> pxRsListGetNext i s; contained_loop s x n })"

definition xRsListIsContainedWithin :: "addr \<Rightarrow> addr \<Rightarrow> lstore \<Rightarrow> bool option" where
  "xRsListIsContainedWithin h x s = contained_loop s x (pxRsListGetFirst h s)"

section \<open>Rings\<close>

text \<open>\<open>seg s a xs b\<close>: from \<open>a\<close> the next links visit \<open>xs\<close> and arrive at \<open>b\<close>, and the
  previous links lead back.\<close>

fun seg :: "lstore \<Rightarrow> addr \<Rightarrow> addr list \<Rightarrow> addr \<Rightarrow> bool" where
  "seg s a [] b \<longleftrightarrow> pxNext s a = Some b \<and> pxPrev s b = Some a"
| "seg s a (x # xs) b \<longleftrightarrow> pxNext s a = Some x \<and> pxPrev s x = Some a \<and> seg s x xs b"

definition ring :: "lstore \<Rightarrow> addr \<Rightarrow> addr list \<Rightarrow> bool" where
  "ring s h xs \<longleftrightarrow> seg s h xs h \<and> distinct (h # xs) \<and> pvOwner s h = None
     \<and> (\<forall>x\<in>set xs. pvOwner s x \<noteq> None \<and> pvCont s x = Some h)
     \<and> nLength s h = word_of_nat (length xs) \<and> length xs < 2 ^ 32"

lemma seg_append: "seg s a (xs @ y # ys) b \<longleftrightarrow> seg s a xs y \<and> seg s y ys b"
  by (induction xs arbitrary: a) auto

lemma seg_cong:
  assumes "\<And>x. x \<in> insert a (set xs) \<Longrightarrow> pxNext s' x = pxNext s x"
    and "\<And>x. x \<in> insert b (set xs) \<Longrightarrow> pxPrev s' x = pxPrev s x"
  shows "seg s' a xs b = seg s a xs b"
  using assms by (induction xs arbitrary: a) auto

lemma seg_frame:
  assumes "pxNext s' = (pxNext s)(l := n, p := q)" "pxPrev s' = (pxPrev s)(m := o1, l := r)"
    and "l \<notin> insert a (set xs)" "p \<notin> insert a (set xs)"
    and "m \<notin> insert b (set xs)" "l \<notin> insert b (set xs)"
  shows "seg s' a xs b = seg s a xs b"
  using assms by (intro seg_cong) auto

lemma seg_next: "seg s a xs b \<Longrightarrow> pxNext s a = Some (case xs of [] \<Rightarrow> b | x # _ \<Rightarrow> x)"
  by (cases xs) auto

lemma seg_prev: "seg s a xs b \<Longrightarrow> pxPrev s b = Some (if xs = [] then a else last xs)"
  by (induction xs arbitrary: a) auto

text \<open>Adding a fresh item between two neighbours of a segment.\<close>

lemma listADD_seg:
  assumes "seg s a (xs @ ys) b" "distinct (a # xs @ ys)" "b \<notin> set (xs @ ys)"
    and "l \<notin> insert a (insert b (set (xs @ ys)))"
    and p: "p = last (a # xs)"
  shows "\<exists>s'. listADD p l s = Some s' \<and> seg s' a (xs @ l # ys) b
    \<and> pvOwner s' = pvOwner s \<and> pvCont s' = pvCont s \<and> nLength s' = nLength s"
proof -
  define n where "n = (case ys of [] \<Rightarrow> b | y # _ \<Rightarrow> y)"
  have pn: "pxNext s p = Some n"
  proof (cases xs rule: rev_cases)
    case Nil
    then show ?thesis using assms(1) p seg_next[of s a ys b] by (simp add: n_def)
  next
    case (snoc zs z)
    then have "seg s z ys b" using assms(1) seg_append[of s a zs z ys b] by simp
    then show ?thesis using snoc p seg_next[of s z ys b] by (simp add: n_def)
  qed
  define s' where "s' = s \<lparr> pxNext := (pxNext s)(l := Some n, p := Some l),
     pxPrev := (pxPrev s)(n := Some l, l := Some p) \<rparr>"
  have add: "listADD p l s = Some s'"
    using pn by (simp add: listADD_def s'_def)
  have fr: "seg s' c zs d = seg s c zs d"
    if "l \<notin> insert c (insert d (set zs))" "p \<notin> insert c (set zs)" "n \<notin> insert d (set zs)" for c zs d
    using that by (intro seg_frame[of s' s l "Some n" p "Some l" n "Some l" "Some p"]) (auto simp: s'_def)
  have lp: "l \<noteq> p" "l \<noteq> n" using assms(4) p by (auto simp: n_def split: list.splits if_splits)
  have right: "seg s' l ys b"
  proof (cases ys)
    case Nil
    then show ?thesis using lp by (simp add: s'_def n_def)
  next
    case (Cons y zs)
    have ny: "n = y" using Cons by (simp add: n_def)
    have "seg s y zs b" using assms(1) Cons seg_append[of s a xs y zs b] by simp
    moreover have "p \<in> set (a # xs)" using p last_in_set[of "a # xs"] by simp
    then have "p \<notin> insert y (set zs)" using assms(2) Cons by auto
    moreover have "n \<notin> insert b (set zs)" using assms(2,3) Cons ny by auto
    moreover have "l \<notin> insert y (insert b (set zs))" using assms(4) Cons by auto
    ultimately have "seg s' y zs b" using fr[of y b zs] by blast
    then show ?thesis using Cons ny lp by (simp add: s'_def)
  qed
  have left: "seg s' a xs l"
  proof (cases xs rule: rev_cases)
    case Nil
    then show ?thesis using lp p by (simp add: s'_def)
  next
    case (snoc zs z)
    have pz: "p = z" using p snoc by simp
    have "seg s a zs z" using assms(1) snoc seg_append[of s a zs z ys b] by simp
    moreover have "z \<notin> insert a (set zs)" using assms(2) snoc by auto
    moreover have "n \<notin> insert z (set zs)"
      using assms(2,3) snoc by (auto simp: n_def split: list.splits)
    moreover have "l \<notin> insert a (insert z (set zs))" using assms(4) snoc by auto
    ultimately have "seg s' a zs z" using fr[of a z zs] pz by blast
    moreover have "pxNext s' z = Some l" "pxPrev s' l = Some z"
      using pz lp by (simp_all add: s'_def)
    ultimately show ?thesis using snoc seg_append[of s' a zs z "[]" l] by simp
  qed
  from add left right show ?thesis
    using seg_append[of s' a xs l ys b] by (intro exI[of _ s']) (simp add: s'_def)
qed

text \<open>Removing an item closes the gap.\<close>

lemma listREMOVE_seg:
  assumes "seg s a (xs @ l # ys) b" "distinct (a # xs @ l # ys)" "b \<notin> set (xs @ l # ys)"
  shows "seg (listREMOVE l s) a (xs @ ys) b"
proof -
  define n where "n = (case ys of [] \<Rightarrow> b | y # _ \<Rightarrow> y)"
  define p where "p = last (a # xs)"
  have sp: "seg s a xs l" "seg s l ys b" using assms(1) seg_append[of s a xs l ys b] by auto
  have l: "pxNext s l = Some n" "pxPrev s l = Some p"
    using seg_next[OF sp(2)] seg_prev[OF sp(1)] by (auto simp: n_def p_def)
  define s' where "s' = listREMOVE l s"
  have s': "pxNext s' = (pxNext s)(p := Some n, l := None)" "pxPrev s' = (pxPrev s)(n := Some p, l := None)"
    using l by (simp_all add: s'_def listREMOVE_def Let_def)
  have pin: "p \<in> set (a # xs)" using last_in_set[of "a # xs"] by (simp add: p_def)
  have lp: "l \<noteq> p" "l \<noteq> n" using assms(2,3) pin by (auto simp: n_def split: list.splits)
  have fr: "seg s' c zs d = seg s c zs d"
    if "l \<notin> insert c (insert d (set zs))" "p \<notin> insert c (set zs)" "n \<notin> insert d (set zs)" for c zs d
    using that by (intro seg_cong) (auto simp: s')
  have tail: "ys = [] \<or> (\<exists>y zs. ys = y # zs \<and> n = y \<and> seg s' y zs b)"
  proof (cases ys)
    case (Cons y zs)
    moreover have "seg s y zs b" using sp(2) Cons by simp
    moreover have "p \<notin> insert y (set zs)" using assms(2) Cons pin by auto
    moreover have "y \<notin> insert b (set zs)" "l \<notin> insert y (insert b (set zs))"
      using assms(2,3) Cons by auto
    ultimately show ?thesis using fr[of y b zs] by (auto simp: n_def)
  qed simp
  have join: "seg s' p ys b"
  proof (cases ys)
    case Nil
    then have "n = b" by (simp add: n_def)
    then show ?thesis using Nil lp by (simp add: s')
  next
    case (Cons y zs)
    then have "n = y" "seg s' y zs b" using tail by auto
    then show ?thesis using Cons lp by (simp add: s')
  qed
  show ?thesis
  proof (cases xs rule: rev_cases)
    case Nil
    then show ?thesis using join by (simp add: p_def s'_def)
  next
    case (snoc zs z)
    have pz: "p = z" using snoc by (simp add: p_def)
    have "seg s a zs z" using sp(1) snoc seg_append[of s a zs z "[]" l] by simp
    moreover have "z \<notin> insert a (set zs)" using assms(2) snoc by auto
    moreover have "n \<notin> insert z (set zs)"
      using assms(2,3) snoc by (auto simp: n_def split: list.splits)
    moreover have "l \<notin> insert a (insert z (set zs))" using assms(2) snoc by auto
    ultimately have "seg s' a zs z" using fr[of a z zs] pz by blast
    then show ?thesis using join pz snoc seg_append[of s' a zs z ys b] by (simp add: s'_def)
  qed
qed

section \<open>The operations on lists\<close>

text \<open>\<open>vRsListInsert\<close> adds after the first item.\<close>

fun insert_second :: "'a \<Rightarrow> 'a list \<Rightarrow> 'a list" where
  "insert_second x [] = [x]"
| "insert_second x (y # ys) = y # x # ys"

lemma set_insert_second [simp]: "set (insert_second x xs) = insert x (set xs)"
  by (cases xs) auto

lemma length_insert_second [simp]: "length (insert_second x xs) = Suc (length xs)"
  by (cases xs) auto

lemma distinct_insert_second [simp]: "distinct (insert_second x xs) \<longleftrightarrow> x \<notin> set xs \<and> distinct xs"
  by (cases xs) auto

lemma ring_add:
  assumes "ring s h (xs @ ys)" "i \<notin> insert h (set (xs @ ys))" "pvOwner s i \<noteq> None"
    and "p = last (h # xs)" "length (xs @ ys) + 1 < 2 ^ 32"
  shows "\<exists>s'. listADD p i s = Some s' \<and> ring (list_count h i s') h (xs @ i # ys)"
proof -
  have r: "seg s h (xs @ ys) h" "distinct (h # xs @ ys)" using assms(1) by (auto simp: ring_def)
  obtain s' where s': "listADD p i s = Some s'" "seg s' h (xs @ i # ys) h"
    "pvOwner s' = pvOwner s" "pvCont s' = pvCont s" "nLength s' = nLength s"
    using listADD_seg[OF r(1) r(2) _ _ assms(4), of i] r(2) assms(2) by auto
  have "seg (list_count h i s') h (xs @ i # ys) h = seg s' h (xs @ i # ys) h"
    by (intro seg_cong) (simp_all add: list_count_def)
  with s' assms show ?thesis
    by (auto simp: ring_def list_count_def)
qed

lemma vRsListInsert_ring:
  assumes "ring s h xs" "i \<notin> insert h (set xs)" "pvOwner s i \<noteq> None" "length xs + 1 < 2 ^ 32"
  shows "\<exists>s'. vRsListInsert h i s = Some s' \<and> ring s' h (insert_second i xs)"
proof (cases xs)
  case Nil
  then have "pxNext s h = Some h" using assms(1) by (simp add: ring_def)
  with Nil show ?thesis using ring_add[of s h "[]" "[]" i h] assms by (auto simp: vRsListInsert_def)
next
  case (Cons x ys)
  then have "pxNext s h = Some x" using assms(1) by (simp add: ring_def)
  with Cons show ?thesis using ring_add[of s h "[x]" ys i x] assms by (auto simp: vRsListInsert_def)
qed

lemma vRsListInsertEnd_ring:
  assumes "ring s h xs" "i \<notin> insert h (set xs)" "pvOwner s i \<noteq> None" "length xs + 1 < 2 ^ 32"
  shows "\<exists>s'. vRsListInsertEnd h i s = Some s' \<and> ring s' h (xs @ [i])"
proof -
  have "pxPrev s h = Some (last (h # xs))"
    using assms(1) seg_prev[of s h xs h] by (simp add: ring_def)
  then show ?thesis using ring_add[of s h xs "[]" i "last (h # xs)"] assms
    by (auto simp: vRsListInsertEnd_def)
qed

lemma vRsListRemove_ring:
  assumes "ring s h (xs @ i # ys)"
  shows "\<exists>s'. vRsListRemove i s = Some s' \<and> ring s' h (xs @ ys)
    \<and> pxNext s' i = None \<and> pxPrev s' i = None \<and> pvCont s' = pvCont s"
proof -
  define t where "t = s \<lparr> nLength := (nLength s)(h := nLength s h - 1) \<rparr>"
  have r: "distinct (h # xs @ i # ys)" "pvCont s i = Some h" using assms by (auto simp: ring_def)
  have "seg t h (xs @ i # ys) h = seg s h (xs @ i # ys) h"
    by (intro seg_cong) (simp_all add: t_def)
  then have "seg (listREMOVE i t) h (xs @ ys) h"
    using assms r by (intro listREMOVE_seg) (auto simp: ring_def)
  moreover have "pvOwner (listREMOVE i t) = pvOwner s" "pvCont (listREMOVE i t) = pvCont s"
    "nLength (listREMOVE i t) = (nLength s)(h := nLength s h - 1)"
    "pxNext (listREMOVE i t) i = None" "pxPrev (listREMOVE i t) i = None"
    by (auto simp: listREMOVE_def t_def Let_def split: option.split)
  ultimately show ?thesis
    using assms r by (auto simp: vRsListRemove_def ring_def t_def)
qed

lemma first_ring:
  "ring s h xs \<Longrightarrow> pxRsListGetFirst h s = (case xs of [] \<Rightarrow> None | x # _ \<Rightarrow> Some x)"
proof -
  assume r: "ring s h xs"
  have "(word_of_nat (length xs) = (0::u32)) = (xs = [])"
    using r by (auto simp: ring_def word_unat_eq_iff unat_of_nat)
  with r show ?thesis
    by (auto simp: pxRsListGetFirst_def ring_def split: list.split dest: seg_next)
qed

lemma contained_loop_seg:
  assumes "seg s i ys h" "pvOwner s h = None" "\<forall>y\<in>set ys. pvOwner s y \<noteq> None"
  shows "contained_loop s x (Some i) = Some (x \<in> set (i # ys))"
  using assms
proof (induction ys arbitrary: i)
  case Nil
  then show ?case
    by (subst contained_loop.simps) (auto simp: pxRsListGetNext_def contained_loop.simps)
next
  case (Cons y ys)
  then show ?case
    by (subst contained_loop.simps) (auto simp: pxRsListGetNext_def)
qed

lemma contained_ring:
  "ring s h xs \<Longrightarrow> xRsListIsContainedWithin h x s = Some (x \<in> set xs)"
  using first_ring[of s h xs] contained_loop_seg[of s _ _ h x]
  by (cases xs) (auto simp: xRsListIsContainedWithin_def contained_loop.simps ring_def)

section \<open>The interface of a list of items\<close>

text \<open>
  What the users of the lists rely on: a representation of the list of items,
  insertion, removal of the first item.  Two clients follow: posting a sequence of
  items and taking them back one by one.
\<close>

primrec post_all :: "(addr \<Rightarrow> 's \<Rightarrow> 's option) \<Rightarrow> addr list \<Rightarrow> 's \<Rightarrow> 's option" where
  "post_all f [] s = Some s"
| "post_all f (i # is) s = do { s \<leftarrow> f i s; post_all f is s }"

primrec take_items :: "('s \<Rightarrow> addr option) \<Rightarrow> (addr \<Rightarrow> 's \<Rightarrow> 's option) \<Rightarrow> nat \<Rightarrow> 's \<Rightarrow> addr list option" where
  "take_items hd1 rm 0 s = Some []"
| "take_items hd1 rm (Suc n) s = do {
     i \<leftarrow> hd1 s;
     s \<leftarrow> rm i s;
     is \<leftarrow> take_items hd1 rm n s;
     Some (i # is) }"

lemma fold_insert_second: "fold insert_second is (x # xs) = x # rev is @ xs"
  by (induction "is" arbitrary: xs) auto

lemma fold_insert_second_Nil: "fold insert_second is [] = (case is of [] \<Rightarrow> [] | i # js \<Rightarrow> i # rev js)"
  by (cases "is") (simp_all add: fold_insert_second)

lemma fold_append_end: "fold (\<lambda>i xs. xs @ [i]) is xs = xs @ is"
  by (induction "is" arbitrary: xs) auto

locale item_list =
  fixes rep :: "'s \<Rightarrow> addr \<Rightarrow> addr list \<Rightarrow> bool"
    and owned :: "'s \<Rightarrow> addr \<Rightarrow> bool"
    and ins :: "addr \<Rightarrow> addr \<Rightarrow> 's \<Rightarrow> 's option"
    and rem :: "addr \<Rightarrow> 's \<Rightarrow> 's option"
    and first :: "addr \<Rightarrow> 's \<Rightarrow> addr option"
    and place :: "addr \<Rightarrow> addr list \<Rightarrow> addr list"
  assumes rep_ins: "\<lbrakk>rep s h xs; i \<notin> insert h (set xs); owned s i; length xs + 1 < 2 ^ 32\<rbrakk>
      \<Longrightarrow> \<exists>s'. ins h i s = Some s' \<and> rep s' h (place i xs) \<and> (\<forall>j. owned s' j = owned s j)"
    and rep_rem: "rep s h (i # xs) \<Longrightarrow> \<exists>s'. rem i s = Some s' \<and> rep s' h xs"
    and rep_first: "rep s h (i # xs) \<Longrightarrow> first h s = Some i"
    and place: "set (place i xs) = insert i (set xs)" "length (place i xs) = Suc (length xs)"
begin

lemma rep_post_all:
  assumes "rep s h xs" "distinct (h # js)" "set js \<inter> set xs = {}" "\<forall>j\<in>set js. owned s j"
    "length xs + length js < 2 ^ 32"
  shows "\<exists>s'. post_all (ins h) js s = Some s' \<and> rep s' h (fold place js xs)"
  using assms
proof (induction js arbitrary: s xs)
  case (Cons j js)
  obtain s1 where s1: "ins h j s = Some s1" "rep s1 h (place j xs)" "\<forall>j. owned s1 j = owned s j"
    if "j \<notin> insert h (set xs)"
    using rep_ins[OF Cons.prems(1), of j] Cons.prems by auto
  have "j \<notin> insert h (set xs)" using Cons.prems by auto
  note s1 = s1[OF this]
  show ?case
    using Cons.IH[OF s1(2)] Cons.prems s1 place[of j xs] by auto
qed simp

lemma rep_take_items: "rep s h xs \<Longrightarrow> take_items (first h) rem (length xs) s = Some xs"
proof (induction xs arbitrary: s)
  case (Cons i xs)
  then obtain s1 where "rem i s = Some s1" "rep s1 h xs" using rep_rem by blast
  with Cons rep_first[of s h i xs] show ?case by simp
qed simp

lemma post_then_take:
  assumes "rep s h []" "distinct (h # js)" "\<forall>j\<in>set js. owned s j" "length js < 2 ^ 32"
  shows "\<exists>s'. post_all (ins h) js s = Some s' \<and> rep s' h (fold place js [])
    \<and> take_items (first h) rem (length (fold place js [])) s' = Some (fold place js [])"
  using rep_post_all[OF assms(1,2)] assms(3,4) rep_take_items by fastforce

end

lemma vRsListInsert_owner: "vRsListInsert h i s = Some s' \<Longrightarrow> pvOwner s' = pvOwner s"
  by (auto simp: vRsListInsert_def listADD_def list_count_def Let_def split: bind_splits)

lemma vRsListInsertEnd_owner: "vRsListInsertEnd h i s = Some s' \<Longrightarrow> pvOwner s' = pvOwner s"
  by (auto simp: vRsListInsertEnd_def listADD_def list_count_def Let_def split: bind_splits)

interpretation ins_list: item_list ring "\<lambda>s i. pvOwner s i \<noteq> None" vRsListInsert vRsListRemove
  pxRsListGetFirst insert_second
proof (unfold_locales, goal_cases)
  case (1 s h xs i)
  then show ?case using vRsListInsert_ring[of s h xs i] vRsListInsert_owner by fastforce
next
  case (2 s h i xs)
  then show ?case using vRsListRemove_ring[of s h "[]" i xs] by auto
qed (simp_all add: first_ring)

interpretation end_list: item_list ring "\<lambda>s i. pvOwner s i \<noteq> None" vRsListInsertEnd vRsListRemove
  pxRsListGetFirst "\<lambda>i xs. xs @ [i]"
proof (unfold_locales, goal_cases)
  case (1 s h xs i)
  then show ?case using vRsListInsertEnd_ring[of s h xs i] vRsListInsertEnd_owner by fastforce
next
  case (2 s h i xs)
  then show ?case using vRsListRemove_ring[of s h "[]" i xs] by auto
qed (simp_all add: first_ring)

text \<open>The empty list.\<close>

lemma vRsListInit_ring: "ring (vRsListInit h s) h []"
  by (simp add: ring_def vRsListInit_def vRsListInitItem_def listINIT_HEAD_def)

lemma vRsListInit_owner: "pvOwner (vRsListInit h s) = (pvOwner s)(h := None)"
  by (simp add: vRsListInit_def vRsListInitItem_def listINIT_HEAD_def)

section \<open>Properties\<close>

text \<open>C29: On a list initialised with \<open>vRsListInit\<close>, items added with \<open>vRsListInsertEnd\<close>
  are taken out again from the front in the order in which they were added; items
  added with \<open>vRsListInsert\<close> are not, and not in the reverse order either: the
  first one stays in front and the others follow in reverse.\<close>

theorem list_order:
  assumes "distinct (h # i # js)" "\<forall>j\<in>set (i # js). pvOwner s j \<noteq> None" "length js + 1 < 2 ^ 32"
  shows "(\<exists>s'. post_all (vRsListInsertEnd h) (i # js) (vRsListInit h s) = Some s'
      \<and> take_items (pxRsListGetFirst h) vRsListRemove (Suc (length js)) s' = Some (i # js))
    \<and> (\<exists>s'. post_all (vRsListInsert h) (i # js) (vRsListInit h s) = Some s'
      \<and> take_items (pxRsListGetFirst h) vRsListRemove (Suc (length js)) s' = Some (i # rev js))"
proof -
  let ?s = "vRsListInit h s"
  have own: "\<forall>j\<in>set (i # js). pvOwner ?s j \<noteq> None"
    using assms(1,2) by (auto simp: vRsListInit_owner)
  have len: "length (i # js) < 2 ^ 32" using assms(3) by simp
  from end_list.post_then_take[OF vRsListInit_ring assms(1) own len]
    ins_list.post_then_take[OF vRsListInit_ring assms(1) own len]
  show ?thesis
    unfolding fold_append_end fold_insert_second_Nil list.case append_Nil
    by (simp only: length_Cons length_rev Suc_eq_plus1) blast
qed

definition owned_store :: lstore where
  "owned_store = \<lparr> pxNext = (\<lambda>_. None), pxPrev = (\<lambda>_. None), pvCont = (\<lambda>_. None),
     pvOwner = (\<lambda>i. Some i), nLength = (\<lambda>_. 0) \<rparr>"

theorem list_order_witness:
  "\<exists>s'. post_all (vRsListInsert 0) [1, 2, 3] (vRsListInit 0 owned_store) = Some s'
      \<and> take_items (pxRsListGetFirst 0) vRsListRemove (Suc (Suc (Suc 0))) s' = Some [1, 3, 2]"
  using list_order[of 0 1 "[2, 3]" owned_store] by (simp add: owned_store_def)

text \<open>On the list of the items \<open>xs\<close>, \<open>xRsListIsContainedWithin\<close> ends and answers
  membership, the first and last items are those of \<open>xs\<close>, and removing a member
  removes exactly it; the removed item keeps its containing list, so that removing
  it again is not noticed and only decrements the length once more.\<close>

theorem list_remove:
  assumes "ring s h (xs @ i # ys)"
  shows "xRsListIsContainedWithin h x s = Some (x \<in> set (xs @ i # ys))
    \<and> pxRsListGetFirst h s = Some (hd (xs @ [i])) \<and> pxRsListGetLast h s = Some (last (i # ys))
    \<and> (\<exists>s1 s2. vRsListRemove i s = Some s1 \<and> ring s1 h (xs @ ys)
         \<and> xRsListIsContainedWithin h i s1 = Some False
         \<and> vRsListRemove i s1 = Some s2 \<and> seg s2 h (xs @ ys) h
         \<and> nLength s2 h = nLength s h - 2)"
proof -
  have d: "distinct (xs @ i # ys)" and n: "nLength s h = word_of_nat (length (xs @ i # ys))"
    "length (xs @ i # ys) < 2 ^ 32" using assms by (auto simp: ring_def)
  obtain s1 where s1: "vRsListRemove i s = Some s1" "ring s1 h (xs @ ys)"
    "pxNext s1 i = None" "pxPrev s1 i = None" "pvCont s1 = pvCont s"
    using vRsListRemove_ring[OF assms] by auto
  have nz: "nLength s h \<noteq> 0"
    unfolding n(1) using n(2) by (simp only: word_unat_eq_iff unat_of_nat) simp
  have l: "pxRsListGetLast h s = Some (last (i # ys))"
    using assms nz seg_prev[of s h "xs @ i # ys" h] by (simp add: pxRsListGetLast_def ring_def)
  have f: "pxRsListGetFirst h s = Some (hd (xs @ [i]))"
    using first_ring[OF assms] by (cases xs) auto
  have c: "pvCont s1 i = Some h" using assms s1(5) by (auto simp: ring_def)
  let ?s2 = "listREMOVE i (s1 \<lparr> nLength := (nLength s1)(h := nLength s1 h - 1) \<rparr>)"
  have s2: "vRsListRemove i s1 = Some ?s2" using c by (simp add: vRsListRemove_def)
  have "seg ?s2 h (xs @ ys) h = seg s1 h (xs @ ys) h"
    using s1(3,4) d assms by (intro seg_cong) (auto simp: listREMOVE_def ring_def)
  moreover have "nLength ?s2 h = nLength s h - 2"
    using s1 assms by (simp add: listREMOVE_def ring_def)
  ultimately show ?thesis
    using contained_ring[OF assms, of x] contained_ring[OF s1(2), of i] d l f s1 s2
    by (auto simp: ring_def)
qed

theorem list_remove_witness:
  "ring (the (vRsListInsert 0 7 (vRsListInit 0 owned_store))) 0 ([] @ [7])
   \<and> xRsListIsContainedWithin 0 7 (the (vRsListInsert 0 7 (vRsListInit 0 owned_store))) = Some True"
proof -
  have r: "ring (the (vRsListInsert 0 7 (vRsListInit 0 owned_store))) 0 ([] @ [7])"
    using vRsListInsert_ring[OF vRsListInit_ring[of 0 owned_store], of 7]
    by (auto simp: vRsListInit_owner owned_store_def)
  from list_remove[OF r, of 7] r show ?thesis by simp
qed

end
