(* ===== verification/Slot_Tables.thy ===== *)
theory Slot_Tables
  imports Rina_Prelude
begin

text \<open>
  The fixed-size tables of the code.  The RIB, the neighbours, the application
  connections, the pending response handlers and the IPCP instances are all
  arrays of rows with a validity flag: adding takes the first invalid row and
  does nothing when there is none, looking up takes the first valid row that
  matches.  The locale \<open>bounded_table\<close> is what their clients may rely on,
  \<open>slot_rows\<close> what a row type has to offer for it.
\<close>

definition slot_add :: "('r \<Rightarrow> bool) \<Rightarrow> 'r \<Rightarrow> 'r list \<Rightarrow> 'r list" where
  "slot_add valid r xs =
     (case first_ix (\<lambda>x. \<not> valid x) xs of None \<Rightarrow> xs | Some i \<Rightarrow> xs[i := r])"

definition slot_get :: "('r \<Rightarrow> bool) \<Rightarrow> 'r list \<Rightarrow> 'r option" where
  "slot_get P xs = map_option ((!) xs) (first_ix P xs)"

lemma length_slot_add [simp]: "length (slot_add valid r xs) = length xs"
  by (simp add: slot_add_def split: option.split)

lemma first_ix_update_neutral:
  "\<lbrakk>\<not> P (xs ! i); \<not> P y; i < length xs\<rbrakk> \<Longrightarrow> first_ix P (xs[i := y]) = first_ix P xs"
proof (induction xs arbitrary: i)
  case (Cons x xs)
  then show ?case by (cases i) auto
qed simp

lemma first_ix_update_first:
  "\<lbrakk>\<forall>x\<in>set xs. \<not> P x; P y; i < length xs\<rbrakk> \<Longrightarrow> first_ix P (xs[i := y]) = Some i"
proof (induction xs arbitrary: i)
  case (Cons x xs)
  then show ?case by (cases i) auto
qed simp

lemma slot_get_None [table_simps]: "slot_get P xs = None \<longleftrightarrow> (\<forall>x\<in>set xs. \<not> P x)"
  by (simp add: slot_get_def table_simps)

lemma slot_get_SomeD: "slot_get P xs = Some r \<Longrightarrow> r \<in> set xs \<and> P r"
  by (auto simp: slot_get_def first_ix_Some)

lemma slot_get_update_neutral:
  "\<lbrakk>\<not> P (xs ! i); \<not> P y; i < length xs\<rbrakk> \<Longrightarrow> slot_get P (xs[i := y]) = slot_get P xs"
  unfolding slot_get_def
  by (cases "first_ix P xs") (auto simp: first_ix_update_neutral nth_list_update dest: first_ix_holds)

lemma free_slot: "row_count valid xs < length xs \<Longrightarrow>
  \<exists>i. first_ix (\<lambda>x. \<not> valid x) xs = Some i \<and> i < length xs \<and> \<not> valid (xs ! i)"
proof -
  assume "row_count valid xs < length xs"
  then have "\<exists>x\<in>set xs. \<not> valid x"
    using row_count_full[of valid xs] by auto
  then obtain i where "first_ix (\<lambda>x. \<not> valid x) xs = Some i"
    using first_ix_ex[of "\<lambda>x. \<not> valid x" xs] by auto
  then show ?thesis by (auto simp: first_ix_Some)
qed

lemma no_free_slot:
  "row_count valid xs = length xs \<Longrightarrow> first_ix (\<lambda>x. \<not> valid x) xs = None"
  by (simp add: table_simps row_count_full)

section \<open>Bounded tables\<close>

locale bounded_table =
  fixes find :: "'k \<Rightarrow> 't \<Rightarrow> 'v option"
    and add :: "'k \<Rightarrow> 'v \<Rightarrow> 't \<Rightarrow> 't"
    and used :: "'t \<Rightarrow> nat"
    and cap :: "'t \<Rightarrow> nat"
  assumes find_add_same: "find k t = None \<Longrightarrow> used t < cap t \<Longrightarrow> find k (add k v t) = Some v"
    and find_add_other: "j \<noteq> k \<Longrightarrow> find j (add k v t) = find j t"
    and used_add: "used t < cap t \<Longrightarrow> used (add k v t) = Suc (used t)"
    and add_full: "\<not> used t < cap t \<Longrightarrow> add k v t = t"
    and cap_add: "cap (add k v t) = cap t"
begin

fun adds :: "('k \<times> 'v) list \<Rightarrow> 't \<Rightarrow> 't" where
  "adds [] t = t"
| "adds ((k, v) # kvs) t = adds kvs (add k v t)"

lemma find_add_map:
  "find k t = None \<Longrightarrow> used t < cap t \<Longrightarrow> (\<lambda>j. find j (add k v t)) = (\<lambda>j. find j t)(k \<mapsto> v)"
  by (auto simp: find_add_same find_add_other fun_upd_def)

lemma full_rejects: "\<not> used t < cap t \<Longrightarrow> find j (add k v t) = find j t"
  by (simp add: add_full)

lemma used_le_add: "used t \<le> cap t \<Longrightarrow> used (add k v t) \<le> cap (add k v t)"
  by (cases "used t < cap t") (simp_all add: used_add cap_add add_full)

lemma find_adds_other: "k \<notin> fst ` set kvs \<Longrightarrow> find k (adds kvs t) = find k t"
  by (induction kvs t rule: adds.induct) (auto simp: find_add_other)

lemma find_adds:
  "\<lbrakk>distinct (map fst kvs); \<forall>k\<in>fst ` set kvs. find k t = None; used t + length kvs \<le> cap t;
    (k, v) \<in> set kvs\<rbrakk> \<Longrightarrow> find k (adds kvs t) = Some v"
proof (induction kvs t rule: adds.induct)
  case (2 k' v' kvs t)
  have room: "used t < cap t" using 2(4) by simp
  show ?case
  proof (cases "(k, v) = (k', v')")
    case True
    with 2 room show ?thesis by (simp add: find_adds_other find_add_same)
  next
    case False
    with 2(5) have "(k, v) \<in> set kvs" by auto
    moreover have "\<forall>j\<in>fst ` set kvs. find j (add k' v' t) = None"
    proof
      fix j assume j: "j \<in> fst ` set kvs"
      with 2(2) have "j \<noteq> k'" by (auto simp: image_iff)
      with j 2(3) show "find j (add k' v' t) = None" by (auto simp: find_add_other)
    qed
    ultimately show ?thesis using 2 room by (simp add: used_add cap_add)
  qed
qed simp

lemma used_adds: "used t + length kvs \<le> cap t \<Longrightarrow> used (adds kvs t) = used t + length kvs"
  by (induction kvs t rule: adds.induct) (auto simp: used_add cap_add)

end

section \<open>Rows\<close>

locale slot_rows =
  fixes valid :: "'r \<Rightarrow> bool"
    and key :: "'r \<Rightarrow> 'k"
    and val :: "'r \<Rightarrow> 'v"
    and mk :: "'k \<Rightarrow> 'v \<Rightarrow> 'r"
  assumes valid_mk: "valid (mk k v)"
    and key_mk: "key (mk k v) = k"
    and val_mk: "val (mk k v) = v"
begin

definition lookup :: "'k \<Rightarrow> 'r list \<Rightarrow> 'v option" where
  "lookup k xs = map_option val (slot_get (\<lambda>r. valid r \<and> key r = k) xs)"

definition insert_row :: "'k \<Rightarrow> 'v \<Rightarrow> 'r list \<Rightarrow> 'r list" where
  "insert_row k v xs = slot_add valid (mk k v) xs"

lemma lookup_rec:
  "lookup k [] = None"
  "lookup k (r # rs) = (if valid r \<and> key r = k then Some (val r) else lookup k rs)"
  by (simp_all add: lookup_def slot_get_def option.map_comp comp_def)

lemma lookup_insert_same:
  assumes "lookup k xs = None" "row_count valid xs < length xs"
  shows "lookup k (insert_row k v xs) = Some v"
proof -
  from free_slot[OF assms(2)] obtain i where i: "first_ix (\<lambda>x. \<not> valid x) xs = Some i"
    "i < length xs" by auto
  have "\<forall>x\<in>set xs. \<not> (valid x \<and> key x = k)"
    using assms(1) by (simp add: lookup_def table_simps)
  then show ?thesis
    using i by (simp add: lookup_def insert_row_def slot_add_def slot_get_def
        first_ix_update_first valid_mk key_mk val_mk)
qed

lemma lookup_insert_other:
  assumes "j \<noteq> k"
  shows "lookup j (insert_row k v xs) = lookup j xs"
proof (cases "first_ix (\<lambda>x. \<not> valid x) xs")
  case (Some i)
  then have "slot_get (\<lambda>r. valid r \<and> key r = j) (xs[i := mk k v])
      = slot_get (\<lambda>r. valid r \<and> key r = j) xs"
    using assms by (intro slot_get_update_neutral) (auto simp: first_ix_Some key_mk)
  with Some show ?thesis by (simp add: lookup_def insert_row_def slot_add_def)
qed (simp add: lookup_def insert_row_def slot_add_def)

lemma count_insert:
  "row_count valid xs < length xs \<Longrightarrow> row_count valid (insert_row k v xs) = Suc (row_count valid xs)"
  using free_slot[of valid xs] by (auto simp: insert_row_def slot_add_def row_count_set valid_mk)

lemma insert_full: "\<not> row_count valid xs < length xs \<Longrightarrow> insert_row k v xs = xs"
  using row_count_le[of valid xs] by (simp add: insert_row_def slot_add_def no_free_slot)

text \<open>Tables whose rows are never invalidated stay packed: the valid rows come
  first, and then a row that is already there hides a later one with its key.\<close>

definition packed :: "'r list \<Rightarrow> bool" where
  "packed xs \<longleftrightarrow> (\<forall>i j. i < j \<and> j < length xs \<and> valid (xs ! j) \<longrightarrow> valid (xs ! i))"

lemma packed_insert: "packed xs \<Longrightarrow> packed (insert_row k v xs)"
proof (cases "first_ix (\<lambda>x. \<not> valid x) xs")
  case (Some m)
  assume p: "packed xs"
  from Some have m: "m < length xs" "\<not> valid (xs ! m)" "\<forall>j<m. valid (xs ! j)"
    by (auto simp: first_ix_Some)
  then have "valid (xs[m := mk k v] ! i)"
    if "i < j" "j < length xs" "valid (xs[m := mk k v] ! j)" for i j
    using that p valid_mk[of k v] unfolding packed_def nth_list_update
    by (metis (no_types, lifting) dual_order.strict_trans nth_list_update_eq nth_list_update_neq)
  with Some show ?thesis by (auto simp: packed_def insert_row_def slot_add_def)
qed (simp add: insert_row_def slot_add_def)

lemma lookup_insert_present:
  assumes "packed xs" "lookup k xs = Some v"
  shows "lookup k (insert_row k v' xs) = Some v"
proof (cases "first_ix (\<lambda>x. \<not> valid x) xs")
  case (Some m)
  let ?P = "\<lambda>r. valid r \<and> key r = k"
  from Some have m: "m < length xs" "\<not> valid (xs ! m)" by (auto simp: first_ix_Some)
  from assms(2) obtain i where i: "first_ix ?P xs = Some i" "val (xs ! i) = v"
    by (auto simp: lookup_def slot_get_def)
  then have i': "i < length xs" "?P (xs ! i)" "\<forall>j<i. \<not> ?P (xs ! j)" by (simp_all add: first_ix_Some)
  have "i < m"
    using assms(1) m i' unfolding packed_def by (metis linorder_neqE_nat)
  then have "first_ix ?P (xs[m := mk k v']) = Some i"
    using i' m by (auto simp: first_ix_Some nth_list_update)
  with Some i(2) \<open>i < m\<close> show ?thesis
    by (simp add: lookup_def insert_row_def slot_add_def slot_get_def)
qed (use assms in \<open>simp add: insert_row_def slot_add_def\<close>)

lemma lookup_insert_spec:
  assumes "packed xs"
  shows "lookup j (insert_row k v xs) =
    (if j = k \<and> lookup k xs = None \<and> row_count valid xs < length xs then Some v else lookup j xs)"
proof (cases "j = k \<and> lookup k xs \<noteq> None")
  case True
  then show ?thesis using lookup_insert_present[OF assms] by auto
next
  case False
  then show ?thesis using lookup_insert_same lookup_insert_other insert_full by auto
qed

end

sublocale slot_rows \<subseteq> tbl: bounded_table lookup insert_row "row_count valid" length
  by unfold_locales
    (simp_all add: lookup_insert_same lookup_insert_other count_insert insert_full,
     simp add: insert_row_def)

end
