(* ===== verification/Rina_Rib.thy ===== *)
theory Rina_Rib
  imports Slot_Tables Rina_Names
begin

text \<open>
  The RIB object table of \<open>Ipcp/Modules/rib.c\<close>.  An object's callbacks are the
  functions \<open>pxRibCreateObject\<close> installs; a pointer it does not set is left as
  \<open>malloc\<close> returned it and is \<open>None\<close> here, as is the object class, which the
  function receives and never stores.
\<close>

datatype rib_fn =
    Fn_EnrollmentEnroller
  | Fn_EnrollmentHandleStop
  | Fn_EnrollmentHandleOperationalStart
  | Fn_FlowAllocatorHandleDelete
  | Fn_NULL

datatype eObjectType_t = ENROLLMENT | FLOW_ALLOCATOR | OPERATIONAL | FLOW | OTHER_TYPE

record ribObjOps_t =
  op_start :: "rib_fn option"
  op_stop :: "rib_fn option"
  op_create :: "rib_fn option"
  op_delete :: "rib_fn option"

record ribObject_t =
  pxObjOps :: ribObjOps_t
  ucObjName :: string
  ulObjInst :: int
  ucDisplayableValue :: "string option"

record ribObjectRow_t =
  rib_xValid :: bool
  rib_obj :: "ribObject_t option"

definition RIB_TABLE_SIZE :: nat where "RIB_TABLE_SIZE = 10"

definition rib_init :: "ribObjectRow_t list" where
  "rib_init = replicate RIB_TABLE_SIZE \<lparr> rib_xValid = False, rib_obj = None \<rparr>"

definition vRibAddObjectEntry :: "ribObject_t \<Rightarrow> ribObjectRow_t list \<Rightarrow> ribObjectRow_t list" where
  "vRibAddObjectEntry ob tbl =
     (case first_ix (\<lambda>r. \<not> rib_xValid r) tbl of
        None \<Rightarrow> tbl
      | Some x \<Rightarrow> tbl[x := (tbl ! x) \<lparr> rib_obj := Some ob, rib_xValid := True \<rparr>])"

text \<open>The search compares with \<open>strcmp\<close>: a NULL name is undefined as soon as a row
  is valid, and so is a valid row without an object.\<close>

fun rib_scan :: "string option \<Rightarrow> ribObjectRow_t list \<Rightarrow> ribObject_t option option" where
  "rib_scan nam [] = Some None"
| "rib_scan nam (r # rs) =
     (if rib_xValid r
      then (case (rib_obj r, nam) of
              (Some ob, Some s) \<Rightarrow> if ucObjName ob = s then Some (Some ob) else rib_scan nam rs
            | _ \<Rightarrow> None)
      else rib_scan nam rs)"

definition pxRibFindObject :: "string option \<Rightarrow> ribObjectRow_t list \<Rightarrow> ribObject_t option option" where
  "pxRibFindObject nam tbl = rib_scan nam tbl"

definition no_ops :: ribObjOps_t where
  "no_ops = \<lparr> op_start = None, op_stop = None, op_create = None, op_delete = None \<rparr>"

fun rib_ops :: "eObjectType_t \<Rightarrow> ribObjOps_t" where
  "rib_ops ENROLLMENT = no_ops \<lparr> op_stop := Some Fn_EnrollmentHandleStop, op_start := Some Fn_EnrollmentEnroller \<rparr>"
| "rib_ops FLOW_ALLOCATOR = no_ops"
| "rib_ops OPERATIONAL = no_ops \<lparr> op_start := Some Fn_EnrollmentHandleOperationalStart \<rparr>"
| "rib_ops FLOW = no_ops \<lparr> op_delete := Some Fn_FlowAllocatorHandleDelete \<rparr>"
| "rib_ops OTHER_TYPE = no_ops \<lparr> op_create := Some Fn_NULL \<rparr>"

text \<open>The instance is a \<open>long\<close>, 32 bits wide on the target.\<close>

definition to_long :: "int \<Rightarrow> int" where
  "to_long i = (i + 2 ^ 31) mod 2 ^ 32 - 2 ^ 31"

definition pxRibCreateObject ::
  "string option \<Rightarrow> int \<Rightarrow> string option \<Rightarrow> string option \<Rightarrow> eObjectType_t \<Rightarrow> ribObjectRow_t list
   \<Rightarrow> (ribObject_t \<times> ribObjectRow_t list) option" where
  "pxRibCreateObject nam inst disp cls ty tbl =
     (case nam of
        None \<Rightarrow> None
      | Some s \<Rightarrow>
         (let ob = \<lparr> pxObjOps = rib_ops ty, ucObjName = s, ulObjInst = to_long inst,
                     ucDisplayableValue = disp \<rparr>
          in Some (ob, vRibAddObjectEntry ob tbl)))"

section \<open>The table as a bounded map\<close>

type_synonym rib_body = "ribObjOps_t \<times> int \<times> string option"

definition rib_row :: "string \<Rightarrow> rib_body \<Rightarrow> ribObjectRow_t" where
  "rib_row s b = (case b of (ops, inst, disp) \<Rightarrow>
     \<lparr> rib_xValid = True, rib_obj = Some \<lparr> pxObjOps = ops, ucObjName = s, ulObjInst = inst,
                                          ucDisplayableValue = disp \<rparr> \<rparr>)"

definition rib_name :: "ribObjectRow_t \<Rightarrow> string" where
  "rib_name r = ucObjName (the (rib_obj r))"

definition rib_body_of :: "ribObjectRow_t \<Rightarrow> rib_body" where
  "rib_body_of r = (let ob = the (rib_obj r) in (pxObjOps ob, ulObjInst ob, ucDisplayableValue ob))"

interpretation rib_tbl: slot_rows rib_xValid rib_name rib_body_of rib_row
  by unfold_locales (auto simp: rib_row_def rib_name_def rib_body_of_def split: prod.splits)

definition rib_wf :: "ribObjectRow_t list \<Rightarrow> bool" where
  "rib_wf tbl \<longleftrightarrow> length tbl = RIB_TABLE_SIZE \<and> rib_tbl.packed tbl
     \<and> (\<forall>r\<in>set tbl. rib_xValid r \<longrightarrow> rib_obj r \<noteq> None)"

definition rib_used :: "ribObjectRow_t list \<Rightarrow> nat" where
  "rib_used tbl = row_count rib_xValid tbl"

lemma rib_wf_init: "rib_wf rib_init"
  by (simp add: rib_wf_def rib_init_def rib_tbl.packed_def)

lemma rib_row_update:
  "r \<lparr> rib_obj := Some ob, rib_xValid := True \<rparr> =
   rib_row (ucObjName ob) (pxObjOps ob, ulObjInst ob, ucDisplayableValue ob)"
  by (cases r, cases ob) (simp add: rib_row_def)

lemma vRibAddObjectEntry_insert:
  "vRibAddObjectEntry ob tbl =
   rib_tbl.insert_row (ucObjName ob) (pxObjOps ob, ulObjInst ob, ucDisplayableValue ob) tbl"
  by (simp add: vRibAddObjectEntry_def rib_tbl.insert_row_def slot_add_def rib_row_update
      split: option.split)

lemma rib_wf_add:
  assumes "rib_wf tbl"
  shows "rib_wf (vRibAddObjectEntry ob tbl)"
proof -
  have "rib_obj r \<noteq> None" if "r \<in> set (vRibAddObjectEntry ob tbl)" "rib_xValid r" for r
    using that assms unfolding rib_wf_def vRibAddObjectEntry_def
    by (auto split: option.splits dest!: subsetD[OF set_update_subset_insert])
  moreover have "rib_tbl.packed (vRibAddObjectEntry ob tbl)"
    using assms unfolding vRibAddObjectEntry_insert by (intro rib_tbl.packed_insert) (simp add: rib_wf_def)
  moreover have "length (vRibAddObjectEntry ob tbl) = length tbl"
    by (simp add: vRibAddObjectEntry_def split: option.split)
  ultimately show ?thesis using assms by (auto simp: rib_wf_def)
qed

definition rib_object :: "string \<Rightarrow> rib_body \<Rightarrow> ribObject_t" where
  "rib_object s b = (case b of (ops, inst, disp) \<Rightarrow>
     \<lparr> pxObjOps = ops, ucObjName = s, ulObjInst = inst, ucDisplayableValue = disp \<rparr>)"

lemma rib_object_of: "rib_object (ucObjName ob) (pxObjOps ob, ulObjInst ob, ucDisplayableValue ob) = ob"
  by (simp add: rib_object_def)

lemma rib_scan_lookup:
  "\<forall>r\<in>set tbl. rib_xValid r \<longrightarrow> rib_obj r \<noteq> None \<Longrightarrow>
   rib_scan (Some s) tbl = Some (map_option (rib_object s) (rib_tbl.lookup s tbl))"
proof (induction tbl)
  case (Cons r rs)
  show ?case
  proof (cases "rib_xValid r")
    case True
    with Cons.prems obtain ob where ob: "rib_obj r = Some ob" by auto
    then have "rib_name r = ucObjName ob" "rib_object (ucObjName ob) (rib_body_of r) = ob"
      by (simp_all add: rib_name_def rib_body_of_def rib_object_def Let_def)
    with True ob Cons show ?thesis by (auto simp: rib_tbl.lookup_rec)
  qed (use Cons in \<open>simp add: rib_tbl.lookup_rec\<close>)
qed (simp add: rib_tbl.lookup_rec)

lemma pxRibFindObject_lookup:
  "rib_wf tbl \<Longrightarrow> pxRibFindObject (Some s) tbl = Some (map_option (rib_object s) (rib_tbl.lookup s tbl))"
  by (simp add: rib_wf_def pxRibFindObject_def rib_scan_lookup)

lemma pxRibFindObject_add:
  assumes "rib_wf tbl"
  shows "pxRibFindObject (Some t) (vRibAddObjectEntry ob tbl) =
    (if t = ucObjName ob \<and> pxRibFindObject (Some t) tbl = Some None \<and> rib_used tbl < RIB_TABLE_SIZE
     then Some (Some ob) else pxRibFindObject (Some t) tbl)"
proof -
  have "rib_tbl.packed tbl" "length tbl = RIB_TABLE_SIZE" using assms by (simp_all add: rib_wf_def)
  then show ?thesis
    unfolding pxRibFindObject_lookup[OF assms] pxRibFindObject_lookup[OF rib_wf_add[OF assms]]
    by (auto simp: vRibAddObjectEntry_insert rib_tbl.lookup_insert_spec rib_used_def rib_object_of)
qed

section \<open>Properties\<close>

text \<open>C30: An object created in the RIB is found under its name afterwards exactly
  when the name was not there yet and one of the ten rows was free; in every other
  case each look-up answers as before, although \<open>pxRibCreateObject\<close> returns the new
  object all the same.\<close>

theorem rib_create_find:
  assumes "rib_wf tbl" "pxRibCreateObject (Some s) inst disp cls ty tbl = Some (ob, tbl')"
  shows "rib_wf tbl' \<and> ucObjName ob = s \<and> pxObjOps ob = rib_ops ty
    \<and> pxRibFindObject (Some t) tbl' =
      (if t = s \<and> pxRibFindObject (Some t) tbl = Some None \<and> rib_used tbl < RIB_TABLE_SIZE
       then Some (Some ob) else pxRibFindObject (Some t) tbl)"
  using assms pxRibFindObject_add[OF assms(1)] by (auto simp: pxRibCreateObject_def Let_def rib_wf_add)

lemma rib_create_find_witness:
  "\<exists>ob tbl'. pxRibCreateObject (Some ''/difm/enr'') 0 (Some ''e'') (Some ''e'') ENROLLMENT rib_init = Some (ob, tbl')
     \<and> pxRibFindObject (Some ''/difm/enr'') tbl' = Some (Some ob)"
proof -
  obtain ob tbl' where c: "pxRibCreateObject (Some ''/difm/enr'') 0 (Some ''e'') (Some ''e'') ENROLLMENT rib_init
      = Some (ob, tbl')" by (simp add: pxRibCreateObject_def Let_def)
  have "rib_used rib_init < RIB_TABLE_SIZE"
    by (simp add: rib_used_def rib_init_def RIB_TABLE_SIZE_def row_count_def)
  moreover have "pxRibFindObject (Some ''/difm/enr'') rib_init = Some None"
    by (simp add: pxRibFindObject_def rib_init_def RIB_TABLE_SIZE_def numeral_eq_Suc)
  ultimately show ?thesis using rib_create_find[OF rib_wf_init c, of "''/difm/enr''"] c by auto
qed

end
