(* ===== verification/Cdap_Messages.thy ===== *)
theory Cdap_Messages
  imports Rina_Names
begin

text \<open>
  CDAP messages: the code's own structures (\<open>ribd.h\<close>, \<open>enrollment.h\<close>), the
  structures of the generated protocol code it fills for the encoder and reads
  after the decoder (\<open>ribd.c\<close>, \<open>serdesMsg.c\<close>), and the conversions between the
  two.  The encoder and the decoder are arguments: \<open>enc\<close> stands for \<open>pb_encode\<close> into
  the buffer of the call (\<open>None\<close> when it reports an error) and \<open>dec\<close> for \<open>pb_decode\<close>;
  \<open>Pb_Cdap\<close> gives them as nanopb on the descriptors of the messages.

  A \<open>has_x\<close>/\<open>x\<close> pair of a generated structure is an option.  The character arrays
  of those structures have a fixed size, so a \<open>strcpy\<close> of a longer string is
  undefined; the outer option of a conversion is \<open>None\<close> then.  The decoders fill
  structures fresh from \<open>malloc\<close> and leave absent fields as they are: \<open>junk\<close> is the
  content of that memory.
\<close>

record authPolicy_t =
  ucAbsSyntax :: u8
  pcVersion :: "string option"
  pcName :: "string option"

record messageCdap_t =
  eOpCode :: u32
  pxDestinationInfo :: name_t
  pxSourceInfo :: name_t
  version :: int
  pxAuthPolicy :: authPolicy_t
  invokeID :: int
  pcObjClass :: "string option"
  pcObjName :: "string option"
  objInst :: int
  pxObjValue :: "u8 list option"
  cdap_result :: int

text \<open>The operation codes of \<open>opCode_t\<close>; the field is a 32-bit enumeration and may
  hold any value that arrives from the network.\<close>

abbreviation M_CONNECT :: u32 where "M_CONNECT \<equiv> 0"
abbreviation M_CONNECT_R :: u32 where "M_CONNECT_R \<equiv> 1"
abbreviation M_RELEASE :: u32 where "M_RELEASE \<equiv> 2"
abbreviation M_RELEASE_R :: u32 where "M_RELEASE_R \<equiv> 3"
abbreviation M_CREATE :: u32 where "M_CREATE \<equiv> 4"
abbreviation M_CREATE_R :: u32 where "M_CREATE_R \<equiv> 5"
abbreviation M_DELETE :: u32 where "M_DELETE \<equiv> 6"
abbreviation M_WRITE :: u32 where "M_WRITE \<equiv> 12"
abbreviation M_START :: u32 where "M_START \<equiv> 14"
abbreviation M_START_R :: u32 where "M_START_R \<equiv> 15"
abbreviation M_STOP :: u32 where "M_STOP \<equiv> 16"
abbreviation M_STOP_R :: u32 where "M_STOP_R \<equiv> 17"
abbreviation MAX_CDAP_OPCODE :: u32 where "MAX_CDAP_OPCODE \<equiv> M_STOP_R"

record CDAPMessage =
  pb_opCode :: u32
  pb_version :: "int option"
  pb_invokeID :: "int option"
  pb_result :: "int option"
  pb_destAEInst :: "string option"
  pb_destAEName :: "string option"
  pb_destApInst :: "string option"
  pb_destApName :: "string option"
  pb_srcAEInst :: "string option"
  pb_srcAEName :: "string option"
  pb_srcApInst :: "string option"
  pb_srcApName :: "string option"
  pb_authPolicy :: "(string option \<times> string) option"
  pb_objClass :: "string option"
  pb_objName :: "string option"
  pb_objInst :: "int option"
  pb_objValue :: "u8 list option"

definition strcpy_arr :: "nat \<Rightarrow> string option \<Rightarrow> string option option" where
  "strcpy_arr n p =
     (case p of None \<Rightarrow> Some None | Some s \<Rightarrow> if length s < n then Some (Some s) else None)"

definition memcpy_arr :: "nat \<Rightarrow> u8 list option \<Rightarrow> u8 list option option" where
  "memcpy_arr n p =
     (case p of None \<Rightarrow> Some None | Some b \<Rightarrow> if length b \<le> n then Some (Some b) else None)"

text \<open>The authentication policy: the version is copied whenever the name is there,
  so a missing version is a copy from NULL.\<close>

definition fill_auth :: "authPolicy_t \<Rightarrow> (string option \<times> string) option option" where
  "fill_auth a =
     (case pcName a of
        None \<Rightarrow> Some None
      | Some nm \<Rightarrow> do {
          nm' \<leftarrow> strcpy_arr 40 (Some nm);
          v \<leftarrow> pcVersion a;
          v' \<leftarrow> strcpy_arr 40 (Some v);
          Some (Some (nm', v)) })"

definition prvRibdSerToRinaMessage :: "messageCdap_t \<Rightarrow> CDAPMessage option" where
  "prvRibdSerToRinaMessage m = do {
     dAEI \<leftarrow> strcpy_arr 20 (pcEntityInstance (pxDestinationInfo m));
     dAEN \<leftarrow> strcpy_arr 20 (pcEntityName (pxDestinationInfo m));
     dAPI \<leftarrow> strcpy_arr 20 (pcProcessInstance (pxDestinationInfo m));
     dAPN \<leftarrow> strcpy_arr 20 (pcProcessName (pxDestinationInfo m));
     sAEI \<leftarrow> strcpy_arr 20 (pcEntityInstance (pxSourceInfo m));
     sAEN \<leftarrow> strcpy_arr 20 (pcEntityName (pxSourceInfo m));
     sAPI \<leftarrow> strcpy_arr 20 (pcProcessInstance (pxSourceInfo m));
     sAPN \<leftarrow> strcpy_arr 20 (pcProcessName (pxSourceInfo m));
     auth \<leftarrow> fill_auth (pxAuthPolicy m);
     cls \<leftarrow> strcpy_arr 40 (pcObjClass m);
     nam \<leftarrow> strcpy_arr 40 (pcObjName m);
     val \<leftarrow> memcpy_arr 1024 (pxObjValue m);
     Some \<lparr> pb_opCode = eOpCode m, pb_version = Some (version m), pb_invokeID = Some (invokeID m),
            pb_result = (if cdap_result m \<noteq> -1 then Some (cdap_result m) else None),
            pb_destAEInst = dAEI, pb_destAEName = dAEN, pb_destApInst = dAPI, pb_destApName = dAPN,
            pb_srcAEInst = sAEI, pb_srcAEName = sAEN, pb_srcApInst = sAPI, pb_srcApName = sAPN,
            pb_authPolicy = auth, pb_objClass = cls, pb_objName = nam,
            pb_objInst = (if objInst m \<noteq> -1 then Some (objInst m) else None),
            pb_objValue = val \<rparr> }"

text \<open>\<open>prvRibdEncodeCDAP\<close> fills the structure as above, encodes it into a buffer of
  its own and copies the bytes into a network buffer; \<open>nb\<close> says whether one is
  available.  A NULL message or a missing network buffer is used unchecked.\<close>

definition prvRibdEncodeCDAP ::
  "(CDAPMessage \<Rightarrow> u8 list option) \<Rightarrow> bool \<Rightarrow> messageCdap_t option \<Rightarrow> u8 list option option" where
  "prvRibdEncodeCDAP enc nb mp = do {
     m \<leftarrow> mp;
     msg \<leftarrow> prvRibdSerToRinaMessage m;
     (case enc msg of
        None \<Rightarrow> Some None
      | Some bytes \<Rightarrow> if nb then Some (Some bytes) else None) }"

definition or_junk :: "'a option \<Rightarrow> 'a option \<Rightarrow> 'a option" where
  "or_junk p j = (case p of None \<Rightarrow> j | Some x \<Rightarrow> Some x)"

definition prvRibdFillDecodeMessage :: "messageCdap_t \<Rightarrow> CDAPMessage \<Rightarrow> messageCdap_t" where
  "prvRibdFillDecodeMessage junk p =
     \<lparr> eOpCode = pb_opCode p,
       pxDestinationInfo =
         \<lparr> pcProcessName = or_junk (pb_destApName p) (pcProcessName (pxDestinationInfo junk)),
           pcProcessInstance = or_junk (pb_destApInst p) (pcProcessInstance (pxDestinationInfo junk)),
           pcEntityName = or_junk (pb_destAEName p) (pcEntityName (pxDestinationInfo junk)),
           pcEntityInstance = or_junk (pb_destAEInst p) (pcEntityInstance (pxDestinationInfo junk)) \<rparr>,
       pxSourceInfo =
         \<lparr> pcProcessName = or_junk (pb_srcApName p) (pcProcessName (pxSourceInfo junk)),
           pcProcessInstance = or_junk (pb_srcApInst p) (pcProcessInstance (pxSourceInfo junk)),
           pcEntityName = or_junk (pb_srcAEName p) (pcEntityName (pxSourceInfo junk)),
           pcEntityInstance = or_junk (pb_srcAEInst p) (pcEntityInstance (pxSourceInfo junk)) \<rparr>,
       version = (case pb_version p of Some v \<Rightarrow> v | None \<Rightarrow> 0),
       pxAuthPolicy =
         (case pb_authPolicy p of
            None \<Rightarrow> pxAuthPolicy junk
          | Some (nm, v) \<Rightarrow> \<lparr> ucAbsSyntax = ucAbsSyntax (pxAuthPolicy junk), pcVersion = Some v,
                              pcName = or_junk nm (pcName (pxAuthPolicy junk)) \<rparr>),
       invokeID = (case pb_invokeID p of Some i \<Rightarrow> i | None \<Rightarrow> 0),
       pcObjClass = or_junk (pb_objClass p) (pcObjClass junk),
       pcObjName = or_junk (pb_objName p) (pcObjName junk),
       objInst = (case pb_objInst p of Some i \<Rightarrow> i | None \<Rightarrow> objInst junk),
       pxObjValue = or_junk (pb_objValue p) (pxObjValue junk),
       cdap_result = (case pb_result p of Some r \<Rightarrow> r | None \<Rightarrow> 0) \<rparr>"

definition prvRibdDecodeCDAP ::
  "(u8 list \<Rightarrow> CDAPMessage option) \<Rightarrow> messageCdap_t \<Rightarrow> u8 list \<Rightarrow> messageCdap_t option" where
  "prvRibdDecodeCDAP dec junk bytes = map_option (prvRibdFillDecodeMessage junk) (dec bytes)"

section \<open>Building messages\<close>

definition mgmt_name :: name_t where
  "mgmt_name = \<lparr> pcProcessName = None, pcProcessInstance = None,
     pcEntityName = Some ''Management'', pcEntityInstance = Some '''' \<rparr>"

definition prvRibMessageCdapInit :: messageCdap_t where
  "prvRibMessageCdapInit =
     \<lparr> eOpCode = - 1, pxDestinationInfo = mgmt_name, pxSourceInfo = mgmt_name, version = 1,
       pxAuthPolicy = \<lparr> ucAbsSyntax = 0, pcVersion = None, pcName = None \<rparr>, invokeID = 1,
       pcObjClass = None, pcObjName = None, objInst = - 1, pxObjValue = None, cdap_result = 0 \<rparr>"

definition prvRibdFillEnrollMsg ::
  "int \<Rightarrow> string option \<Rightarrow> string option \<Rightarrow> int \<Rightarrow> u32 \<Rightarrow> u8 list option \<Rightarrow> messageCdap_t" where
  "prvRibdFillEnrollMsg iid cls nam inst op val =
     (let m = prvRibMessageCdapInit \<lparr> invokeID := iid, eOpCode := op, objInst := inst \<rparr>;
          m = (if nam \<noteq> None then m \<lparr> pcObjName := nam \<rparr> else m)
      in if val \<noteq> None then m \<lparr> pxObjValue := val \<rparr> else m)"

definition prvRibdFillCommon ::
  "int \<Rightarrow> string option \<Rightarrow> string option \<Rightarrow> int \<Rightarrow> u32 \<Rightarrow> u8 list option \<Rightarrow> messageCdap_t" where
  "prvRibdFillCommon iid cls nam inst op val =
     (let m = prvRibMessageCdapInit \<lparr> invokeID := iid, eOpCode := op, objInst := inst \<rparr>;
          m = (if cls \<noteq> None then m \<lparr> pcObjClass := cls \<rparr> else m);
          m = (if nam \<noteq> None then m \<lparr> pcObjName := nam \<rparr> else m)
      in if val \<noteq> None then m \<lparr> pxObjValue := val \<rparr> else m)"

definition prvRibdFillEnrollMsgStop ::
  "int \<Rightarrow> string option \<Rightarrow> string option \<Rightarrow> int \<Rightarrow> u32 \<Rightarrow> u8 list option \<Rightarrow> int \<Rightarrow> int \<Rightarrow> messageCdap_t" where
  "prvRibdFillEnrollMsgStop iid cls nam inst op val res i =
     (prvRibdFillEnrollMsg iid cls nam inst op val) \<lparr> invokeID := i, cdap_result := res \<rparr>"

definition prvRibdFillEnrollMsgStart ::
  "int \<Rightarrow> string option \<Rightarrow> string option \<Rightarrow> int \<Rightarrow> u32 \<Rightarrow> u8 list option \<Rightarrow> int \<Rightarrow> int \<Rightarrow> messageCdap_t" where
  "prvRibdFillEnrollMsgStart iid cls nam inst op val res i =
     (prvRibdFillEnrollMsg iid cls nam inst op val) \<lparr> invokeID := i, cdap_result := res \<rparr>"

definition prvRibdFillMsgCreate ::
  "int \<Rightarrow> string option \<Rightarrow> string option \<Rightarrow> int \<Rightarrow> u8 list option \<Rightarrow> messageCdap_t" where
  "prvRibdFillMsgCreate iid cls nam inst val = prvRibdFillCommon iid cls nam inst M_CREATE val"

definition prvRibdFillDeleteMsg ::
  "int \<Rightarrow> string option \<Rightarrow> string option \<Rightarrow> int \<Rightarrow> u32 \<Rightarrow> u8 list option \<Rightarrow> messageCdap_t" where
  "prvRibdFillDeleteMsg iid cls nam inst op val = prvRibdFillCommon iid cls nam inst op val"

section \<open>Object values of enrollment, neighbours and A-data\<close>

record enrollmentMessage_t =
  em_ullAddress :: u64
  em_pcToken :: "string option"

record enrollmentInformation =
  pb_ei_address :: "u64 option"
  pb_ei_token :: "string option"

text \<open>The two allocations of an encoder, of the buffer and of the structure it returns, are not
  tested: writing through NULL is undefined, and a structure without members writes nothing.  An
  encoder that reports an error may have written before.\<close>

definition ser_value :: "(nat \<Rightarrow> bool) \<Rightarrow> u8 list option \<Rightarrow> u8 list option option" where
  "ser_value mem r =
     (case r of
        None \<Rightarrow> if mem 0 then Some None else None
      | Some bytes \<Rightarrow> if (mem 0 \<or> bytes = []) \<and> mem 1 then Some (Some bytes) else None)"

definition pxSerdesMsgEnrollmentEncode ::
  "(nat \<Rightarrow> bool) \<Rightarrow> (enrollmentInformation \<Rightarrow> u8 list option) \<Rightarrow> enrollmentMessage_t \<Rightarrow> u8 list option option" where
  "pxSerdesMsgEnrollmentEncode mem enc m =
     ser_value mem (enc \<lparr> pb_ei_address = (if em_ullAddress m > 0 then Some (em_ullAddress m) else None),
                          pb_ei_token = None \<rparr>)"

definition prvSerdesMsgDecodeEnrollment ::
  "enrollmentMessage_t \<Rightarrow> enrollmentInformation \<Rightarrow> enrollmentMessage_t" where
  "prvSerdesMsgDecodeEnrollment junk p =
     \<lparr> em_ullAddress = (case pb_ei_address p of Some a \<Rightarrow> a | None \<Rightarrow> em_ullAddress junk),
       em_pcToken = or_junk (pb_ei_token p) (em_pcToken junk) \<rparr>"

definition pxSerdesMsgEnrollmentDecode ::
  "(u8 list \<Rightarrow> enrollmentInformation option) \<Rightarrow> enrollmentMessage_t \<Rightarrow> u8 list \<Rightarrow> enrollmentMessage_t option" where
  "pxSerdesMsgEnrollmentDecode dec junk bytes = map_option (prvSerdesMsgDecodeEnrollment junk) (dec bytes)"

record neighborMessage_t =
  nm_pcApName :: "string option"
  nm_pcApInstance :: "string option"
  nm_pcAeName :: "string option"
  nm_pcAeInstance :: "string option"
  nm_ullAddress :: u64

record neighborMessage_pb =
  pb_nb_apname :: "string option"
  pb_nb_apinstance :: "string option"
  pb_nb_aename :: "string option"
  pb_nb_aeinstance :: "string option"
  pb_nb_address :: "u64 option"

definition prvSerdesMsgEncodeNeighbor :: "neighborMessage_t \<Rightarrow> neighborMessage_pb option" where
  "prvSerdesMsgEncodeNeighbor m = do {
     aei \<leftarrow> strcpy_arr 20 (nm_pcAeInstance m);
     aen \<leftarrow> strcpy_arr 20 (nm_pcAeName m);
     api \<leftarrow> strcpy_arr 20 (nm_pcApInstance m);
     apn \<leftarrow> strcpy_arr 20 (nm_pcApName m);
     Some \<lparr> pb_nb_apname = apn, pb_nb_apinstance = api, pb_nb_aename = aen,
            pb_nb_aeinstance = aei, pb_nb_address = None \<rparr> }"

definition pxSerdesMsgNeighborEncode ::
  "(nat \<Rightarrow> bool) \<Rightarrow> (neighborMessage_pb \<Rightarrow> u8 list option) \<Rightarrow> neighborMessage_t \<Rightarrow> u8 list option option" where
  "pxSerdesMsgNeighborEncode mem enc m = do { p \<leftarrow> prvSerdesMsgEncodeNeighbor m; ser_value mem (enc p) }"

definition prvSerdesMsgDecodeNeighbor :: "neighborMessage_t \<Rightarrow> neighborMessage_pb \<Rightarrow> neighborMessage_t" where
  "prvSerdesMsgDecodeNeighbor junk p =
     \<lparr> nm_pcApName = or_junk (pb_nb_apname p) (nm_pcApName junk),
       nm_pcApInstance = or_junk (pb_nb_apinstance p) (nm_pcApInstance junk),
       nm_pcAeName = or_junk (pb_nb_aename p) (nm_pcAeName junk),
       nm_pcAeInstance = or_junk (pb_nb_aeinstance p) (nm_pcAeInstance junk),
       nm_ullAddress = (case pb_nb_address p of Some a \<Rightarrow> a | None \<Rightarrow> nm_ullAddress junk) \<rparr>"

definition pxserdesMsgDecodeNeighbor ::
  "(u8 list \<Rightarrow> neighborMessage_pb option) \<Rightarrow> neighborMessage_t \<Rightarrow> u8 list \<Rightarrow> neighborMessage_t option" where
  "pxserdesMsgDecodeNeighbor dec junk bytes = map_option (prvSerdesMsgDecodeNeighbor junk) (dec bytes)"

record aDataMsg_t =
  ad_xSourceAddress :: int
  ad_xDestinationAddress :: int
  ad_pxMsgCdap :: "u8 list option"

record aData_pb =
  pb_ad_sourceAddress :: "int option"
  pb_ad_destAddress :: "int option"
  pb_ad_cdapMessage :: "u8 list option"

definition prvSerdesMsgDecodeAData :: "aDataMsg_t \<Rightarrow> aData_pb \<Rightarrow> aDataMsg_t" where
  "prvSerdesMsgDecodeAData junk p =
     \<lparr> ad_xSourceAddress = (case pb_ad_sourceAddress p of Some a \<Rightarrow> a | None \<Rightarrow> ad_xSourceAddress junk),
       ad_xDestinationAddress = (case pb_ad_destAddress p of Some a \<Rightarrow> a | None \<Rightarrow> ad_xDestinationAddress junk),
       ad_pxMsgCdap = or_junk (pb_ad_cdapMessage p) (ad_pxMsgCdap junk) \<rparr>"

definition pxSerdesMsgDecodeAData ::
  "(u8 list \<Rightarrow> aData_pb option) \<Rightarrow> aDataMsg_t \<Rightarrow> u8 list \<Rightarrow> aDataMsg_t option" where
  "pxSerdesMsgDecodeAData dec junk bytes = map_option (prvSerdesMsgDecodeAData junk) (dec bytes)"

section \<open>Lemmas\<close>

definition fits :: "nat \<Rightarrow> 'a list option \<Rightarrow> bool" where
  "fits n p = (case p of None \<Rightarrow> True | Some s \<Rightarrow> length s \<le> n)"

lemma strcpy_arr_fits:
  "strcpy_arr 20 p = (if fits 19 p then Some p else None)"
  "strcpy_arr 40 p = (if fits 39 p then Some p else None)"
  by (cases p; simp add: strcpy_arr_def fits_def)+

lemma memcpy_arr_fits: "memcpy_arr n p = (if fits n p then Some p else None)"
  by (cases p) (auto simp: memcpy_arr_def fits_def)

definition auth_ok :: "authPolicy_t \<Rightarrow> bool" where
  "auth_ok a \<longleftrightarrow> pcName a = None \<or> pcVersion a \<noteq> None \<and> fits 39 (pcName a) \<and> fits 39 (pcVersion a)"

lemma fill_auth_ok:
  "fill_auth a = (if auth_ok a
     then Some (case pcName a of None \<Rightarrow> None | Some nm \<Rightarrow> Some (Some nm, the (pcVersion a)))
     else None)"
  by (cases "pcVersion a") (auto simp: fill_auth_def auth_ok_def strcpy_arr_fits split: option.split)

lemma bind_if_Some:
  "Option.bind (if c then Some x else None) f = (if c then f x else None)"
  by simp

lemma if_Some_eq: "(if c then q else None) = Some p \<longleftrightarrow> c \<and> q = Some p"
  by simp

lemma or_junk_simps [simp]: "or_junk (Some x) j = Some x" "or_junk None j = j"
  by (simp_all add: or_junk_def)

text \<open>What a message looks like at the other end.\<close>

definition merge_name :: "name_t \<Rightarrow> name_t \<Rightarrow> name_t" where
  "merge_name n j = \<lparr> pcProcessName = or_junk (pcProcessName n) (pcProcessName j),
     pcProcessInstance = or_junk (pcProcessInstance n) (pcProcessInstance j),
     pcEntityName = or_junk (pcEntityName n) (pcEntityName j),
     pcEntityInstance = or_junk (pcEntityInstance n) (pcEntityInstance j) \<rparr>"

definition received :: "messageCdap_t \<Rightarrow> messageCdap_t \<Rightarrow> messageCdap_t" where
  "received junk m = m
     \<lparr> pxDestinationInfo := merge_name (pxDestinationInfo m) (pxDestinationInfo junk),
       pxSourceInfo := merge_name (pxSourceInfo m) (pxSourceInfo junk),
       pxAuthPolicy := (case pcName (pxAuthPolicy m) of
          None \<Rightarrow> pxAuthPolicy junk
        | Some nm \<Rightarrow> (pxAuthPolicy m) \<lparr> ucAbsSyntax := ucAbsSyntax (pxAuthPolicy junk) \<rparr>),
       pcObjClass := or_junk (pcObjClass m) (pcObjClass junk),
       pcObjName := or_junk (pcObjName m) (pcObjName junk),
       objInst := (if objInst m = -1 then objInst junk else objInst m),
       pxObjValue := or_junk (pxObjValue m) (pxObjValue junk),
       cdap_result := (if cdap_result m = -1 then 0 else cdap_result m) \<rparr>"

lemma ser_explicit:
  assumes "prvRibdSerToRinaMessage m = Some p"
  shows "auth_ok (pxAuthPolicy m)"
    "p = \<lparr> pb_opCode = eOpCode m, pb_version = Some (version m), pb_invokeID = Some (invokeID m),
       pb_result = (if cdap_result m \<noteq> -1 then Some (cdap_result m) else None),
       pb_destAEInst = pcEntityInstance (pxDestinationInfo m),
       pb_destAEName = pcEntityName (pxDestinationInfo m),
       pb_destApInst = pcProcessInstance (pxDestinationInfo m),
       pb_destApName = pcProcessName (pxDestinationInfo m),
       pb_srcAEInst = pcEntityInstance (pxSourceInfo m),
       pb_srcAEName = pcEntityName (pxSourceInfo m),
       pb_srcApInst = pcProcessInstance (pxSourceInfo m),
       pb_srcApName = pcProcessName (pxSourceInfo m),
       pb_authPolicy = (case pcName (pxAuthPolicy m) of None \<Rightarrow> None
          | Some nm \<Rightarrow> Some (Some nm, the (pcVersion (pxAuthPolicy m)))),
       pb_objClass = pcObjClass m, pb_objName = pcObjName m,
       pb_objInst = (if objInst m \<noteq> -1 then Some (objInst m) else None),
       pb_objValue = pxObjValue m \<rparr>"
  using assms unfolding prvRibdSerToRinaMessage_def
  by (simp_all only: strcpy_arr_fits memcpy_arr_fits fill_auth_ok bind_if_Some if_Some_eq option.inject)

lemma fill_decode:
  assumes "prvRibdSerToRinaMessage m = Some p"
  shows "prvRibdFillDecodeMessage junk p = received junk m"
proof -
  have "(case pcName (pxAuthPolicy m) of None \<Rightarrow> pxAuthPolicy junk
      | Some nm \<Rightarrow> \<lparr> ucAbsSyntax = ucAbsSyntax (pxAuthPolicy junk),
          pcVersion = Some (the (pcVersion (pxAuthPolicy m))), pcName = Some nm \<rparr>)
    = (case pcName (pxAuthPolicy m) of None \<Rightarrow> pxAuthPolicy junk
      | Some nm \<Rightarrow> (pxAuthPolicy m) \<lparr> ucAbsSyntax := ucAbsSyntax (pxAuthPolicy junk) \<rparr>)"
    using ser_explicit(1)[OF assms] by (cases "pxAuthPolicy m") (auto simp: auth_ok_def split: option.split)
  then show ?thesis
    unfolding ser_explicit(2)[OF assms] prvRibdFillDecodeMessage_def received_def merge_name_def
    by (cases m) (auto split: option.split)
qed

section \<open>Any protocol library\<close>

text \<open>Whatever encoder and decoder invert each other on a structure, a message comes back with the
  operation code, invoke id, version, names, authentication policy, object and result it had; only the
  fields the sender left out are whatever the receiver's memory held, and a result of -1 arrives
  as 0.\<close>

lemma cdap_roundtrip:
  assumes "prvRibdSerToRinaMessage m = Some p" "enc p = Some bytes" "dec bytes = Some p"
  shows "prvRibdEncodeCDAP enc True (Some m) = Some (Some bytes)
    \<and> prvRibdDecodeCDAP dec junk bytes = Some (received junk m)"
  using assms by (simp add: prvRibdEncodeCDAP_def prvRibdDecodeCDAP_def fill_decode)

definition start_msg :: messageCdap_t where
  "start_msg = prvRibdFillEnrollMsg 7 None (Some ''/difm/enr'') (-1) M_START (Some [8, 1])"

end
