(* ===== verification/Mgmt_Plane.thy ===== *)
theory Mgmt_Plane
  imports Rina_Rib Cdap_Messages
begin

text \<open>
  The state of the management plane and the sending half of the RIB daemon:
  the neighbour table and its operations (\<open>enrollment.c\<close>), the tables of
  application connections and of pending response handlers, the invoke ids, and
  the requests and responses of \<open>ribd.c\<close>.

  The tables own the structures their rows point to, so a row holds the
  structure itself and a pointer to one is the index of its row; a structure that
  found no free row is reachable only through the pointer its creator returned
  (\<open>Detached\<close>).  \<open>vRibdSentCdapMsg\<close> hands its buffer to the relaying task and
  ignores the answer: the model appends the port and the bytes to \<open>sent\<close>.
  Functions that can reach undefined behaviour return an option.
\<close>

datatype enrollmentState_t = eENROLLMENT_NONE | eENROLLMENT_IN_PROGRESS | eENROLLED

record neighborInfo_t =
  eEnrollmentState :: enrollmentState_t
  pcApName :: string
  ni_xN1Port :: u32
  xNeighborAddress :: u8
  pcToken :: "string option"

record neighborsTableRow_t =
  nb_xValid :: bool
  pxNeighborInfo :: "neighborInfo_t option"

datatype connectionStatus_t = eCONNECTION_IN_PROGRESS | eCONNECTED | eRELEASED

record appConnection_t =
  ac_pxSourceInfo :: name_t
  ac_pxDestinationInfo :: name_t
  uCdapVersion :: u8
  uRibVersion :: u8
  xStatus :: connectionStatus_t

record appConnectionTableRow_t =
  ac_xValid :: bool
  ac_xN1portId :: u32
  pxAppConnection :: "appConnection_t option"

datatype resp_fn = Fn_EnrollmentHandleStartR | Fn_EnrollmentHandleStopR | Fn_FlowAllocatorHandleCreateR

record ribCallbackOps_t =
  cb_start_response :: "resp_fn option"
  cb_stop_response :: "resp_fn option"
  cb_create_response :: "resp_fn option"

record responseHandlersRow_t =
  rh_xValid :: bool
  rh_invokeID :: int
  pxCallbackHandler :: "ribCallbackOps_t option"

record mgmt =
  xRibObjectTable :: "ribObjectRow_t list"
  xNeighborsTable :: "neighborsTableRow_t list"
  xAppConnectionTable :: "appConnectionTableRow_t list"
  xPendingResponseHandlersTable :: "responseHandlersRow_t list"
  invoke_id :: int
  sent :: "(u32 \<times> u8 list) list"

text \<open>What the code runs on: the protocol library, the content of fresh memory, and
  whether the memory of a serialised value and a network buffer are to be had.\<close>

record env =
  enc_cdap :: "CDAPMessage \<Rightarrow> u8 list option"
  dec_cdap :: "u8 list \<Rightarrow> CDAPMessage option"
  enc_enroll :: "enrollmentInformation \<Rightarrow> u8 list option"
  dec_enroll :: "u8 list \<Rightarrow> enrollmentInformation option"
  enc_neighbor :: "neighborMessage_pb \<Rightarrow> u8 list option"
  dec_adata :: "u8 list \<Rightarrow> aData_pb option"
  junk_cdap :: messageCdap_t
  junk_enroll :: enrollmentMessage_t
  junk_adata :: aDataMsg_t
  junk_string :: "string option"
  ser_mem :: "nat \<Rightarrow> bool"
  buf_ok :: bool

definition NEIGHBOR_TABLE_SIZE :: nat where "NEIGHBOR_TABLE_SIZE = 5"
definition APP_CONNECTION_TABLE_SIZE :: nat where "APP_CONNECTION_TABLE_SIZE = 5"
definition RESPONSE_HANDLER_TABLE_SIZE :: nat where "RESPONSE_HANDLER_TABLE_SIZE = 10"

definition mgmt_boot :: mgmt where
  "mgmt_boot = \<lparr> xRibObjectTable = rib_init,
     xNeighborsTable = replicate NEIGHBOR_TABLE_SIZE \<lparr> nb_xValid = False, pxNeighborInfo = None \<rparr>,
     xAppConnectionTable = replicate APP_CONNECTION_TABLE_SIZE
        \<lparr> ac_xValid = False, ac_xN1portId = 0, pxAppConnection = None \<rparr>,
     xPendingResponseHandlersTable = replicate RESPONSE_HANDLER_TABLE_SIZE
        \<lparr> rh_xValid = False, rh_invokeID = 0, pxCallbackHandler = None \<rparr>,
     invoke_id = 1, sent = [] \<rparr>"

section \<open>Neighbours\<close>

datatype nbr_ptr = InTable nat | Detached

definition vEnrollmentAddNeighborEntry ::
  "neighborInfo_t \<Rightarrow> neighborsTableRow_t list \<Rightarrow> nbr_ptr \<times> neighborsTableRow_t list" where
  "vEnrollmentAddNeighborEntry n tbl =
     (case first_ix (\<lambda>r. \<not> nb_xValid r) tbl of
        None \<Rightarrow> (Detached, tbl)
      | Some x \<Rightarrow> (InTable x, tbl[x := (tbl ! x) \<lparr> pxNeighborInfo := Some n, nb_xValid := True \<rparr>]))"

fun nbr_scan :: "string option \<Rightarrow> nat \<Rightarrow> neighborsTableRow_t list \<Rightarrow> nat option option" where
  "nbr_scan nam x [] = Some None"
| "nbr_scan nam x (r # rs) =
     (if nb_xValid r
      then (case (pxNeighborInfo r, nam) of
              (Some n, Some s) \<Rightarrow> if pcApName n = s then Some (Some x) else nbr_scan nam (Suc x) rs
            | _ \<Rightarrow> None)
      else nbr_scan nam (Suc x) rs)"

definition pxEnrollmentFindNeighbor :: "string option \<Rightarrow> neighborsTableRow_t list \<Rightarrow> nat option option" where
  "pxEnrollmentFindNeighbor nam tbl = nbr_scan nam 0 tbl"

definition nbr_at :: "neighborsTableRow_t list \<Rightarrow> nat \<Rightarrow> neighborInfo_t" where
  "nbr_at tbl x = the (pxNeighborInfo (tbl ! x))"

definition xEnrollmentGetNeighborAddress :: "string option \<Rightarrow> neighborsTableRow_t list \<Rightarrow> u8 option" where
  "xEnrollmentGetNeighborAddress nam tbl =
     (if nam = None then Some 0
      else do {
        p \<leftarrow> pxEnrollmentFindNeighbor nam tbl;
        (case p of Some x \<Rightarrow> Some (xNeighborAddress (nbr_at tbl x)) | None \<Rightarrow> Some 3) })"

definition pxEnrollmentCreateNeighInfo ::
  "string option \<Rightarrow> u32 \<Rightarrow> neighborsTableRow_t list \<Rightarrow> (nbr_ptr \<times> neighborsTableRow_t list) option" where
  "pxEnrollmentCreateNeighInfo nam port tbl = do {
     s \<leftarrow> nam;
     Some (vEnrollmentAddNeighborEntry
       \<lparr> eEnrollmentState = eENROLLMENT_NONE, pcApName = s, ni_xN1Port = port,
         xNeighborAddress = - 1, pcToken = None \<rparr> tbl) }"

text \<open>A write through a neighbour pointer.\<close>

definition nbr_update ::
  "nbr_ptr \<Rightarrow> (neighborInfo_t \<Rightarrow> neighborInfo_t) \<Rightarrow> neighborsTableRow_t list \<Rightarrow> neighborsTableRow_t list" where
  "nbr_update p f tbl =
     (case p of
        InTable x \<Rightarrow> tbl[x := (tbl ! x) \<lparr> pxNeighborInfo := map_option f (pxNeighborInfo (tbl ! x)) \<rparr>]
      | Detached \<Rightarrow> tbl)"

text \<open>The neighbour of a name, created when there is none: the first half of the
  enrollment handlers.\<close>

definition nbr_find_or_create ::
  "string option \<Rightarrow> u32 \<Rightarrow> neighborsTableRow_t list \<Rightarrow> (nbr_ptr \<times> neighborsTableRow_t list) option" where
  "nbr_find_or_create nam port tbl = do {
     p \<leftarrow> pxEnrollmentFindNeighbor nam tbl;
     (case p of Some x \<Rightarrow> Some (InTable x, tbl) | None \<Rightarrow> pxEnrollmentCreateNeighInfo nam port tbl) }"

section \<open>Application connections\<close>

definition vRibdAddAppConnectionEntry ::
  "appConnection_t \<Rightarrow> u32 \<Rightarrow> appConnectionTableRow_t list \<Rightarrow> appConnectionTableRow_t list" where
  "vRibdAddAppConnectionEntry c port tbl =
     (case first_ix (\<lambda>r. \<not> ac_xValid r) tbl of
        None \<Rightarrow> tbl
      | Some x \<Rightarrow> tbl[x := (tbl ! x) \<lparr> pxAppConnection := Some c, ac_xN1portId := port, ac_xValid := True \<rparr>])"

definition pxRibdFindAppConnection :: "u32 \<Rightarrow> appConnectionTableRow_t list \<Rightarrow> nat option" where
  "pxRibdFindAppConnection port tbl = first_ix (\<lambda>r. ac_xValid r \<and> ac_xN1portId r = port) tbl"

definition conn_at :: "appConnectionTableRow_t list \<Rightarrow> nat \<Rightarrow> appConnection_t" where
  "conn_at tbl x = the (pxAppConnection (tbl ! x))"

definition conn_update ::
  "nat \<Rightarrow> (appConnection_t \<Rightarrow> appConnection_t) \<Rightarrow> appConnectionTableRow_t list \<Rightarrow> appConnectionTableRow_t list" where
  "conn_update x f tbl =
     tbl[x := (tbl ! x) \<lparr> pxAppConnection := map_option f (pxAppConnection (tbl ! x)) \<rparr>]"

text \<open>The entity instance is written twice, the second time with the process name;
  the process name of the copy is never written.\<close>

definition prvRibCreateConnection :: "string option \<Rightarrow> name_t \<Rightarrow> name_t \<Rightarrow> appConnection_t option" where
  "prvRibCreateConnection junk src dst = do {
     _ \<leftarrow> pcEntityInstance src; sen \<leftarrow> pcEntityName src;
     spi \<leftarrow> pcProcessInstance src; sei \<leftarrow> pcProcessName src;
     _ \<leftarrow> pcEntityInstance dst; den \<leftarrow> pcEntityName dst;
     dpi \<leftarrow> pcProcessInstance dst; dei \<leftarrow> pcProcessName dst;
     Some \<lparr> ac_pxSourceInfo = \<lparr> pcProcessName = junk, pcProcessInstance = Some spi,
                                pcEntityName = Some sen, pcEntityInstance = Some sei \<rparr>,
            ac_pxDestinationInfo = \<lparr> pcProcessName = junk, pcProcessInstance = Some dpi,
                                pcEntityName = Some den, pcEntityInstance = Some dei \<rparr>,
            uCdapVersion = 1, uRibVersion = 1, xStatus = eCONNECTION_IN_PROGRESS \<rparr> }"

section \<open>Pending responses\<close>

definition vRibdAddResponseHandler ::
  "int \<Rightarrow> ribCallbackOps_t option \<Rightarrow> responseHandlersRow_t list \<Rightarrow> responseHandlersRow_t list" where
  "vRibdAddResponseHandler iid cb tbl =
     (case cb of
        None \<Rightarrow> tbl
      | Some c \<Rightarrow>
         (case first_ix (\<lambda>r. \<not> rh_xValid r) tbl of
            None \<Rightarrow> tbl
          | Some x \<Rightarrow> tbl[x := (tbl ! x) \<lparr> rh_invokeID := iid, rh_xValid := True, pxCallbackHandler := Some c \<rparr>]))"

definition pxRibdFindPendingResponseHandler ::
  "int \<Rightarrow> responseHandlersRow_t list \<Rightarrow> ribCallbackOps_t option" where
  "pxRibdFindPendingResponseHandler iid tbl =
     (case first_ix (\<lambda>r. rh_xValid r \<and> rh_invokeID r = iid) tbl of
        Some x \<Rightarrow> pxCallbackHandler (tbl ! x)
      | None \<Rightarrow> None)"

definition no_callbacks :: ribCallbackOps_t where
  "no_callbacks = \<lparr> cb_start_response = None, cb_stop_response = None, cb_create_response = None \<rparr>"

definition pxRibdCreateCdapCallback :: "u32 \<Rightarrow> ribCallbackOps_t" where
  "pxRibdCreateCdapCallback op =
     (if op = M_START then no_callbacks \<lparr> cb_start_response := Some Fn_EnrollmentHandleStartR \<rparr>
      else if op = M_STOP then no_callbacks \<lparr> cb_stop_response := Some Fn_EnrollmentHandleStopR \<rparr>
      else if op = M_CREATE then no_callbacks \<lparr> cb_create_response := Some Fn_FlowAllocatorHandleCreateR \<rparr>
      else no_callbacks)"

definition INT_MAX :: int where "INT_MAX = 2147483647"

definition get_next_invoke_id :: "int \<Rightarrow> int \<times> int" where
  "get_next_invoke_id i = (if i mod INT_MAX = 0 then (1, 1) else (i, i + 1))"

section \<open>Requests and responses\<close>

definition vRibdSentCdapMsg :: "u8 list \<Rightarrow> u32 \<Rightarrow> 'a mgmt_scheme \<Rightarrow> 'a mgmt_scheme" where
  "vRibdSentCdapMsg bytes port s = s \<lparr> sent := sent s @ [(port, bytes)] \<rparr>"

text \<open>Encode a message and send it; the common end of the functions below.\<close>

definition encode_and_send ::
  "'e env_scheme \<Rightarrow> messageCdap_t option \<Rightarrow> u32 \<Rightarrow> 'a mgmt_scheme \<Rightarrow> (bool \<times> 'a mgmt_scheme) option" where
  "encode_and_send env m port s = do {
     r \<leftarrow> prvRibdEncodeCDAP (enc_cdap env) (buf_ok env) m;
     (case r of None \<Rightarrow> Some (False, s) | Some bytes \<Rightarrow> Some (True, vRibdSentCdapMsg bytes port s)) }"

definition xRibdSendRequest ::
  "'e env_scheme \<Rightarrow> string option \<Rightarrow> string option \<Rightarrow> int \<Rightarrow> u32 \<Rightarrow> u32 \<Rightarrow> u8 list option
   \<Rightarrow> 'a mgmt_scheme \<Rightarrow> (bool \<times> 'a mgmt_scheme) option" where
  "xRibdSendRequest env cls nam inst op port val s =
     (let (iid, next) = get_next_invoke_id (invoke_id s);
          msg = (if op = M_START \<or> op = M_STOP then Some (prvRibdFillEnrollMsg iid cls nam inst op val)
                 else if op = M_CREATE then Some (prvRibdFillMsgCreate iid cls nam inst val)
                 else if op = M_DELETE then Some (prvRibdFillDeleteMsg iid cls nam inst op val)
                 else None)
      in case msg of
           None \<Rightarrow> Some (False, s)
         | Some m \<Rightarrow>
             encode_and_send env (Some m) port
               (s \<lparr> invoke_id := next,
                    xPendingResponseHandlersTable :=
                      vRibdAddResponseHandler (invokeID m) (Some (pxRibdCreateCdapCallback op))
                        (xPendingResponseHandlersTable s) \<rparr>))"

text \<open>The case \<open>M_START_R\<close> falls through to \<open>M_STOP_R\<close>: its message is built, using
  up an invoke id, and replaced by an equal one.\<close>

definition xRibdSendResponse ::
  "'e env_scheme \<Rightarrow> string option \<Rightarrow> string option \<Rightarrow> int \<Rightarrow> int \<Rightarrow> u32 \<Rightarrow> int \<Rightarrow> u32 \<Rightarrow> u8 list option
   \<Rightarrow> 'a mgmt_scheme \<Rightarrow> (bool \<times> 'a mgmt_scheme) option" where
  "xRibdSendResponse env cls nam inst res op iid port val s =
     (let s = (if op = M_START_R then s \<lparr> invoke_id := snd (get_next_invoke_id (invoke_id s)) \<rparr> else s)
      in if op = M_START_R \<or> op = M_STOP_R
         then (let (i, next) = get_next_invoke_id (invoke_id s)
               in encode_and_send env (Some (prvRibdFillEnrollMsgStop i cls nam inst op val res iid)) port
                    (s \<lparr> invoke_id := next \<rparr>))
         else encode_and_send env None port s)"

text \<open>\<open>xRibdConnectToIpcp\<close> and \<open>xRibdConnectRToIpcp\<close> differ in the operation code only.\<close>

definition connect_msg :: "u32 \<Rightarrow> name_t \<Rightarrow> name_t \<Rightarrow> authPolicy_t \<Rightarrow> messageCdap_t option" where
  "connect_msg op src dst auth = do {
     den \<leftarrow> pcEntityName dst; dpi \<leftarrow> pcProcessInstance dst; dpn \<leftarrow> pcProcessName dst;
     sen \<leftarrow> pcEntityName src; spi \<leftarrow> pcProcessInstance src; spn \<leftarrow> pcProcessName src;
     an \<leftarrow> pcName auth; av \<leftarrow> pcVersion auth;
     Some (prvRibMessageCdapInit
       \<lparr> eOpCode := op,
         pxDestinationInfo := mgmt_name \<lparr> pcEntityName := Some den, pcProcessInstance := Some dpi,
                                          pcProcessName := Some dpn \<rparr>,
         pxSourceInfo := mgmt_name \<lparr> pcEntityName := Some sen, pcProcessInstance := Some spi,
                                     pcProcessName := Some spn \<rparr>,
         pxAuthPolicy := \<lparr> ucAbsSyntax = 0, pcVersion = Some av, pcName = Some an \<rparr> \<rparr>) }"

definition connect_ipcp ::
  "'e env_scheme \<Rightarrow> u32 \<Rightarrow> name_t \<Rightarrow> name_t \<Rightarrow> u32 \<Rightarrow> authPolicy_t \<Rightarrow> 'a mgmt_scheme
   \<Rightarrow> (bool \<times> 'a mgmt_scheme) option" where
  "connect_ipcp env op src dst port auth s = do {
     m \<leftarrow> connect_msg op src dst auth;
     c \<leftarrow> prvRibCreateConnection (junk_string env) src dst;
     encode_and_send env (Some m) port
       (s \<lparr> xAppConnectionTable := vRibdAddAppConnectionEntry c port (xAppConnectionTable s) \<rparr>) }"

definition xRibdConnectToIpcp ::
  "'e env_scheme \<Rightarrow> name_t \<Rightarrow> name_t \<Rightarrow> u32 \<Rightarrow> authPolicy_t \<Rightarrow> 'a mgmt_scheme
   \<Rightarrow> (bool \<times> 'a mgmt_scheme) option" where
  "xRibdConnectToIpcp env src dst port auth s = connect_ipcp env M_CONNECT src dst port auth s"

definition xRibdConnectRToIpcp ::
  "'e env_scheme \<Rightarrow> name_t \<Rightarrow> name_t \<Rightarrow> u32 \<Rightarrow> authPolicy_t \<Rightarrow> 'a mgmt_scheme
   \<Rightarrow> (bool \<times> 'a mgmt_scheme) option" where
  "xRibdConnectRToIpcp env src dst port auth s = connect_ipcp env M_CONNECT_R src dst port auth s"

end
