(* ===== verification/Rina_Enrollment.thy ===== *)
theory Rina_Enrollment
  imports Mgmt_Plane
begin

text \<open>
  The enrollment task of \<open>Ipcp/Modules/enrollment.c\<close>: the handlers that the RIB
  objects and the pending responses call, on the state of \<open>Mgmt_Plane\<close>.  A
  handler that dereferences a NULL pointer or a failed decoding is undefined
  (\<open>None\<close>).  The tables of the management plane are bounded maps here, and
  \<open>mgmt_wf\<close> is the invariant of the whole state.
\<close>

definition LOCAL_ADDRESS :: u64 where "LOCAL_ADDRESS = 1"
definition NORMAL_PROCESS_NAME :: string where "NORMAL_PROCESS_NAME = ''st1.slice1''"
definition REMOTE_ADDRESS_AP_NAME :: string where "REMOTE_ADDRESS_AP_NAME = ''st2.slice1''"

text \<open>\<open>enrollee\<close> is the setting \<open>ieee802154_COORDINATOR == 1\<close>; it is 0, that is false,
  in \<open>configRINA.h\<close>.\<close>

definition init_source :: name_t where
  "init_source = \<lparr> pcProcessName = Some NORMAL_PROCESS_NAME, pcProcessInstance = Some ''1'',
     pcEntityName = Some ''Management'', pcEntityInstance = Some '''' \<rparr>"

definition init_dest :: name_t where
  "init_dest = \<lparr> pcProcessName = Some ''slice1.DIF'', pcProcessInstance = Some '''',
     pcEntityName = Some ''Management'', pcEntityInstance = Some '''' \<rparr>"

definition enr_auth :: authPolicy_t where
  "enr_auth = \<lparr> ucAbsSyntax = 1, pcVersion = Some ''1'', pcName = Some ''PSOC_authentication-none'' \<rparr>"

definition vEnrollmentInit :: "'e env_scheme \<Rightarrow> bool \<Rightarrow> u32 \<Rightarrow> 'a mgmt_scheme \<Rightarrow> 'a mgmt_scheme option" where
  "vEnrollmentInit env enrollee port s = do {
     (_, t) \<leftarrow> pxRibCreateObject (Some ''/difm/enr'') 0 (Some ''enrollment'') (Some ''enrollment'')
                ENROLLMENT (xRibObjectTable s);
     (_, t) \<leftarrow> pxRibCreateObject (Some ''/difm/ops'') 1 (Some ''OperationalStatus'')
                (Some ''OperationalStatus'') OPERATIONAL t;
     if enrollee then do {
       (_, s) \<leftarrow> xRibdConnectToIpcp env init_source init_dest port enr_auth (s \<lparr> xRibObjectTable := t \<rparr>);
       Some s }
     else Some (s \<lparr> xRibObjectTable := t \<rparr>) }"

text \<open>The state of the neighbour behind a pointer; a detached one is fresh.\<close>

definition nbr_state :: "nbr_ptr \<Rightarrow> neighborsTableRow_t list \<Rightarrow> enrollmentState_t" where
  "nbr_state p tbl = (case p of InTable x \<Rightarrow> eEnrollmentState (nbr_at tbl x) | Detached \<Rightarrow> eENROLLMENT_NONE)"

definition xEnrollmentEnroller ::
  "'e env_scheme \<Rightarrow> u8 list option \<Rightarrow> string option \<Rightarrow> u32 \<Rightarrow> 'a mgmt_scheme \<Rightarrow> (bool \<times> 'a mgmt_scheme) option" where
  "xEnrollmentEnroller env val remote port s = do {
     (p, t) \<leftarrow> nbr_find_or_create remote port (xNeighborsTable s);
     (case nbr_state p t of
        eENROLLMENT_IN_PROGRESS \<Rightarrow> do {
          bytes \<leftarrow> val;
          m \<leftarrow> pxSerdesMsgEnrollmentDecode (dec_enroll env) (junk_enroll env) bytes;
          Some (True, s \<lparr> xNeighborsTable :=
             nbr_update p (\<lambda>n. n \<lparr> xNeighborAddress := ucast (em_ullAddress m) \<rparr>) t \<rparr>) }
      | _ \<Rightarrow> Some (True, s \<lparr> xNeighborsTable := t \<rparr>)) }"

definition set_state :: "enrollmentState_t \<Rightarrow> neighborInfo_t \<Rightarrow> neighborInfo_t" where
  "set_state e n = n \<lparr> eEnrollmentState := e \<rparr>"

definition enr_source :: name_t where
  "enr_source = \<lparr> pcProcessName = Some NORMAL_PROCESS_NAME, pcProcessInstance = Some ''1'',
     pcEntityName = Some ''Management'', pcEntityInstance = Some '''' \<rparr>"

definition enr_dest :: name_t where
  "enr_dest = \<lparr> pcProcessName = Some REMOTE_ADDRESS_AP_NAME, pcProcessInstance = Some ''1'',
     pcEntityName = Some ''Management'', pcEntityInstance = Some '''' \<rparr>"

definition xEnrollmentHandleConnect ::
  "'e env_scheme \<Rightarrow> string option \<Rightarrow> u32 \<Rightarrow> 'a mgmt_scheme \<Rightarrow> (bool \<times> 'a mgmt_scheme) option" where
  "xEnrollmentHandleConnect env remote port s = do {
     (p, t) \<leftarrow> nbr_find_or_create remote port (xNeighborsTable s);
     (_, s) \<leftarrow> xRibdConnectRToIpcp env enr_source enr_dest port enr_auth
                (s \<lparr> xNeighborsTable := nbr_update p (set_state eENROLLMENT_IN_PROGRESS) t \<rparr>);
     Some (True, s) }"

definition xEnrollmentHandleConnectR ::
  "'e env_scheme \<Rightarrow> string option \<Rightarrow> u32 \<Rightarrow> 'a mgmt_scheme \<Rightarrow> (bool \<times> 'a mgmt_scheme) option" where
  "xEnrollmentHandleConnectR env remote port s = do {
     (p, t) \<leftarrow> nbr_find_or_create remote port (xNeighborsTable s);
     let s = s \<lparr> xNeighborsTable := nbr_update p (set_state eENROLLMENT_IN_PROGRESS) t \<rparr>;
     val \<leftarrow> pxSerdesMsgEnrollmentEncode (ser_mem env) (enc_enroll env)
                 \<lparr> em_ullAddress = LOCAL_ADDRESS, em_pcToken = None \<rparr>;
     xRibdSendRequest env (Some ''Enrollment'') (Some ''/difm/enr'') (-1) M_START port val s }"

definition xEnrollmentHandleStartR :: "string option \<Rightarrow> u8 list option \<Rightarrow> bool" where
  "xEnrollmentHandleStartR remote val = True"

definition xEnrollmentHandleStopR :: "string option \<Rightarrow> 'a mgmt_scheme \<Rightarrow> bool option" where
  "xEnrollmentHandleStopR remote s =
     (if remote = None then Some False
      else do {
        p \<leftarrow> pxEnrollmentFindNeighbor remote (xNeighborsTable s);
        Some (p \<noteq> None) })"

definition xEnrollmentHandleStop ::
  "'e env_scheme \<Rightarrow> ribObject_t \<Rightarrow> u8 list option \<Rightarrow> string option \<Rightarrow> int \<Rightarrow> u32 \<Rightarrow> 'a mgmt_scheme
   \<Rightarrow> (bool \<times> 'a mgmt_scheme) option" where
  "xEnrollmentHandleStop env ob val remote iid port s = do {
     p \<leftarrow> pxEnrollmentFindNeighbor remote (xNeighborsTable s);
     (case p of
        None \<Rightarrow> Some (False, s)
      | Some x \<Rightarrow> do {
          bytes \<leftarrow> val;
          m \<leftarrow> pxSerdesMsgEnrollmentDecode (dec_enroll env) (junk_enroll env) bytes;
          xRibdSendResponse env None (Some (ucObjName ob)) (ulObjInst ob) 0 M_STOP_R iid port None
            (s \<lparr> xNeighborsTable :=
                  nbr_update (InTable x) (\<lambda>n. (set_state eENROLLED n) \<lparr> pcToken := em_pcToken m \<rparr>)
                    (xNeighborsTable s) \<rparr>) }) }"

definition xEnrollmentHandleOperationalStart ::
  "'e env_scheme \<Rightarrow> ribObject_t \<Rightarrow> string option \<Rightarrow> int \<Rightarrow> u32 \<Rightarrow> 'a mgmt_scheme
   \<Rightarrow> (bool \<times> 'a mgmt_scheme) option" where
  "xEnrollmentHandleOperationalStart env ob remote iid port s = do {
     p \<leftarrow> pxEnrollmentFindNeighbor remote (xNeighborsTable s);
     x \<leftarrow> p;
     val \<leftarrow> pxSerdesMsgNeighborEncode (ser_mem env) (enc_neighbor env)
       \<lparr> nm_pcApName = Some NORMAL_PROCESS_NAME, nm_pcApInstance = Some ''1'',
         nm_pcAeName = Some ''Management'', nm_pcAeInstance = pcToken (nbr_at (xNeighborsTable s) x),
         nm_ullAddress = 0 \<rparr>;
     xRibdSendResponse env None (Some (ucObjName ob)) (ulObjInst ob) 0 M_START_R iid port val s }"

section \<open>The tables as bounded maps\<close>

definition nbr_row :: "string \<Rightarrow> enrollmentState_t \<times> u32 \<times> u8 \<times> string option \<Rightarrow> neighborsTableRow_t" where
  "nbr_row s b = (case b of (e, p, a, t) \<Rightarrow> \<lparr> nb_xValid = True, pxNeighborInfo = Some
     \<lparr> eEnrollmentState = e, pcApName = s, ni_xN1Port = p, xNeighborAddress = a, pcToken = t \<rparr> \<rparr>)"

definition nbr_body :: "neighborInfo_t \<Rightarrow> enrollmentState_t \<times> u32 \<times> u8 \<times> string option" where
  "nbr_body n = (eEnrollmentState n, ni_xN1Port n, xNeighborAddress n, pcToken n)"

definition nbr_name_of :: "neighborsTableRow_t \<Rightarrow> string" where
  "nbr_name_of r = pcApName (the (pxNeighborInfo r))"

definition nbr_body_of :: "neighborsTableRow_t \<Rightarrow> enrollmentState_t \<times> u32 \<times> u8 \<times> string option" where
  "nbr_body_of r = nbr_body (the (pxNeighborInfo r))"

interpretation nbrs: slot_rows nb_xValid nbr_name_of nbr_body_of nbr_row
  by unfold_locales (auto simp: nbr_row_def nbr_name_of_def nbr_body_of_def nbr_body_def split: prod.splits)

definition conn_row :: "u32 \<Rightarrow> appConnection_t \<Rightarrow> appConnectionTableRow_t" where
  "conn_row port c = \<lparr> ac_xValid = True, ac_xN1portId = port, pxAppConnection = Some c \<rparr>"

definition conn_of :: "appConnectionTableRow_t \<Rightarrow> appConnection_t" where
  "conn_of r = the (pxAppConnection r)"

interpretation conns: slot_rows ac_xValid ac_xN1portId conn_of conn_row
  by unfold_locales (simp_all add: conn_row_def conn_of_def)

definition hnd_row :: "int \<Rightarrow> ribCallbackOps_t \<Rightarrow> responseHandlersRow_t" where
  "hnd_row i c = \<lparr> rh_xValid = True, rh_invokeID = i, pxCallbackHandler = Some c \<rparr>"

definition hnd_of :: "responseHandlersRow_t \<Rightarrow> ribCallbackOps_t" where
  "hnd_of r = the (pxCallbackHandler r)"

interpretation hnds: slot_rows rh_xValid rh_invokeID hnd_of hnd_row
  by unfold_locales (simp_all add: hnd_row_def hnd_of_def)

definition nbr_wf :: "neighborsTableRow_t list \<Rightarrow> bool" where
  "nbr_wf t \<longleftrightarrow> length t = NEIGHBOR_TABLE_SIZE \<and> (\<forall>r\<in>set t. nb_xValid r \<longrightarrow> pxNeighborInfo r \<noteq> None)"

definition conn_wf :: "appConnectionTableRow_t list \<Rightarrow> bool" where
  "conn_wf t \<longleftrightarrow> length t = APP_CONNECTION_TABLE_SIZE \<and> (\<forall>r\<in>set t. ac_xValid r \<longrightarrow> pxAppConnection r \<noteq> None)"

definition hnd_wf :: "responseHandlersRow_t list \<Rightarrow> bool" where
  "hnd_wf t \<longleftrightarrow> length t = RESPONSE_HANDLER_TABLE_SIZE \<and> hnds.packed t
     \<and> (\<forall>r\<in>set t. rh_xValid r \<longrightarrow> pxCallbackHandler r \<noteq> None)"

definition mgmt_wf :: "'a mgmt_scheme \<Rightarrow> bool" where
  "mgmt_wf s \<longleftrightarrow> rib_wf (xRibObjectTable s) \<and> nbr_wf (xNeighborsTable s)
     \<and> conn_wf (xAppConnectionTable s) \<and> hnd_wf (xPendingResponseHandlersTable s)
     \<and> 1 \<le> invoke_id s \<and> invoke_id s \<le> INT_MAX"

lemma mgmt_wf_boot: "mgmt_wf mgmt_boot"
  by (simp add: mgmt_wf_def mgmt_boot_def rib_wf_init nbr_wf_def conn_wf_def hnd_wf_def
      hnds.packed_def INT_MAX_def)

lemma get_next_invoke_id_range:
  "1 \<le> i \<Longrightarrow> i \<le> INT_MAX \<Longrightarrow> get_next_invoke_id i = (j, k) \<Longrightarrow>
   1 \<le> j \<and> j < INT_MAX \<and> 1 \<le> k \<and> k \<le> INT_MAX"
  by (cases "i = INT_MAX") (auto simp: get_next_invoke_id_def INT_MAX_def split: if_splits)

lemma add_handler_insert:
  "vRibdAddResponseHandler i (Some c) t = hnds.insert_row i c t"
proof -
  have "(r::responseHandlersRow_t) \<lparr> rh_invokeID := i, rh_xValid := True, pxCallbackHandler := Some c \<rparr>
      = hnd_row i c" for r by (cases r) (simp add: hnd_row_def)
  then show ?thesis
    by (simp add: vRibdAddResponseHandler_def hnds.insert_row_def slot_add_def split: option.split)
qed

lemma add_conn_insert:
  "vRibdAddAppConnectionEntry c port t = conns.insert_row port c t"
proof -
  have "(r::appConnectionTableRow_t) \<lparr> pxAppConnection := Some c, ac_xN1portId := port, ac_xValid := True \<rparr>
      = conn_row port c" for r by (cases r) (simp add: conn_row_def)
  then show ?thesis
    by (simp add: vRibdAddAppConnectionEntry_def conns.insert_row_def slot_add_def split: option.split)
qed

lemma find_handler_lookup:
  assumes "hnd_wf t"
  shows "pxRibdFindPendingResponseHandler i t = hnds.lookup i t"
proof (cases "first_ix (\<lambda>r. rh_xValid r \<and> rh_invokeID r = i) t")
  case (Some x)
  then have "pxCallbackHandler (t ! x) \<noteq> None"
    using assms first_ix_less[OF Some] first_ix_holds[OF Some] by (auto simp: hnd_wf_def)
  with Some show ?thesis
    by (auto simp: pxRibdFindPendingResponseHandler_def hnds.lookup_def slot_get_def hnd_of_def)
qed (simp add: pxRibdFindPendingResponseHandler_def hnds.lookup_def slot_get_def)

lemma hnd_wf_add: "hnd_wf t \<Longrightarrow> hnd_wf (vRibdAddResponseHandler i (Some c) t)"
  unfolding hnd_wf_def
proof (intro conjI, goal_cases)
  case 3
  then show ?case
    by (auto simp: vRibdAddResponseHandler_def split: option.split
        dest!: subsetD[OF set_update_subset_insert])
next
  case 2
  then show ?case unfolding add_handler_insert by (intro hnds.packed_insert) simp
qed (simp add: vRibdAddResponseHandler_def split: option.split)

lemma conn_wf_add: "conn_wf t \<Longrightarrow> conn_wf (vRibdAddAppConnectionEntry c port t)"
  unfolding conn_wf_def
proof (intro conjI, goal_cases)
  case 2
  then show ?case
    by (auto simp: vRibdAddAppConnectionEntry_def split: option.split
        dest!: subsetD[OF set_update_subset_insert])
qed (auto simp: vRibdAddAppConnectionEntry_def split: option.split)

lemma conn_wf_update: "conn_wf t \<Longrightarrow> conn_wf (conn_update x f t)"
proof (cases "x < length t")
  case True
  assume w: "conn_wf t"
  with True have "ac_xValid (t ! x) \<longrightarrow> (\<exists>n. pxAppConnection (t ! x) = Some n)"
    by (auto simp: conn_wf_def)
  with w show ?thesis
    by (auto simp: conn_wf_def conn_update_def dest!: subsetD[OF set_update_subset_insert])
qed (simp add: conn_wf_def conn_update_def list_update_beyond)

lemma nbr_wf_add: "nbr_wf t \<Longrightarrow> nbr_wf (snd (vEnrollmentAddNeighborEntry n t))"
  unfolding nbr_wf_def
proof (intro conjI, goal_cases)
  case 2
  then show ?case
    by (auto simp: vEnrollmentAddNeighborEntry_def split: option.split
        dest!: subsetD[OF set_update_subset_insert])
qed (auto simp: vEnrollmentAddNeighborEntry_def split: option.split)

lemma nbr_wf_update: "nbr_wf t \<Longrightarrow> nbr_wf (nbr_update p f t)"
proof (cases p)
  case (InTable x)
  assume w: "nbr_wf t"
  show ?thesis
  proof (cases "x < length t")
    case True
    with w have "nb_xValid (t ! x) \<longrightarrow> (\<exists>n. pxNeighborInfo (t ! x) = Some n)"
      by (auto simp: nbr_wf_def)
    with w InTable show ?thesis
      by (auto simp: nbr_wf_def nbr_update_def dest!: subsetD[OF set_update_subset_insert])
  qed (use w InTable in \<open>simp add: nbr_wf_def nbr_update_def list_update_beyond\<close>)
qed (simp add: nbr_update_def)

lemma nbr_wf_find_or_create:
  "nbr_wf t \<Longrightarrow> nbr_find_or_create nam port t = Some (p, t') \<Longrightarrow> nbr_wf t'"
  using nbr_wf_add[of t]
  by (auto simp: nbr_find_or_create_def pxEnrollmentCreateNeighInfo_def
      split: Option.bind_splits option.splits) (metis snd_conv)

lemma encode_and_send_cases:
  assumes "encode_and_send env m port s = Some (r, s')"
  obtains bytes where "r" "s' = vRibdSentCdapMsg bytes port s"
        "prvRibdEncodeCDAP (enc_cdap env) (buf_ok env) m = Some (Some bytes)"
    | "\<not> r" "s' = s" "prvRibdEncodeCDAP (enc_cdap env) (buf_ok env) m = Some None"
  using assms by (auto simp: encode_and_send_def split: Option.bind_splits option.splits)

lemma encode_and_send_wf:
  "encode_and_send env m port s = Some (r, s') \<Longrightarrow> mgmt_wf s' = mgmt_wf s"
  by (erule encode_and_send_cases) (auto simp: mgmt_wf_def vRibdSentCdapMsg_def)

lemma send_request_wf:
  assumes "mgmt_wf s" "xRibdSendRequest env cls nam inst op port val s = Some (r, s')"
  shows "mgmt_wf s'"
proof -
  obtain i k where g: "get_next_invoke_id (invoke_id s) = (i, k)" by force
  have "1 \<le> k" "k \<le> INT_MAX"
    using get_next_invoke_id_range[OF _ _ g] assms(1) by (auto simp: mgmt_wf_def)
  with assms g show ?thesis
    by (auto simp: xRibdSendRequest_def Let_def mgmt_wf_def hnd_wf_add
        dest!: encode_and_send_wf split: if_splits)
qed

lemma next_invoke_wf:
  "mgmt_wf s \<Longrightarrow> mgmt_wf (s \<lparr> invoke_id := snd (get_next_invoke_id (invoke_id s)) \<rparr>)"
  using get_next_invoke_id_range[of "invoke_id s" "fst (get_next_invoke_id (invoke_id s))"
      "snd (get_next_invoke_id (invoke_id s))"] by (simp add: mgmt_wf_def)

lemma send_response_wf:
  assumes "mgmt_wf s" "xRibdSendResponse env cls nam inst res op i port val s = Some (r, s')"
  shows "mgmt_wf s'"
  using assms(2) next_invoke_wf[OF assms(1)] next_invoke_wf[OF next_invoke_wf[OF assms(1)]] assms(1)
  by (auto simp: xRibdSendResponse_def Let_def case_prod_beta
      dest!: encode_and_send_wf split: if_splits)

lemma connect_wf:
  "mgmt_wf s \<Longrightarrow> xRibdConnectRToIpcp env src dst port auth s = Some (r, s') \<Longrightarrow> mgmt_wf s'"
  by (auto simp: xRibdConnectRToIpcp_def connect_ipcp_def mgmt_wf_def conn_wf_add
      dest!: encode_and_send_wf split: Option.bind_splits)

end
