(* ===== verification/Du_Pci.thy ===== *)
theory Du_Pci
  imports Rina_Prelude "HOL-Library.Monad_Syntax"
begin

unbundle bit_operations_syntax

text \<open>
  Protocol control information and data units (\<open>Ipcp/Modules/pci.h\<close>, \<open>pci.c\<close>,
  \<open>du.h\<close>, \<open>du.c\<close>).  A header is laid over the first 14 bytes of a buffer: the
  packed little-endian layout is \<open>pci_bytes\<close>, its inverse \<open>pci_parse\<close>.

  A network buffer descriptor has an identity; the free ones are a list.  Taking
  one can fail; releasing one that is already free aborts in \<open>vRsrcFree\<close>.  An
  operation that aborts or has undefined behaviour has the value \<open>None\<close>.  A data unit
  owns its descriptor, and its field \<open>pxPci\<close> is unset until encapsulation or
  decapsulation sets it.  \<open>size_t\<close> has 32 bits, as on the ESP32.
\<close>

section \<open>Headers\<close>

record pci_t =
  ucVersion :: u8
  pci_xDestination :: u8
  pci_xSource :: u8
  pci_xQosId :: u8
  pci_cepDestination :: u8
  pci_cepSource :: u8
  pci_xType :: u8
  pci_xFlags :: u8
  xPduLen :: u16
  xSequenceNumber :: u32

definition PDU_FLAGS_DATA_RUN :: u8 where "PDU_FLAGS_DATA_RUN = 0x80"
definition PDU_TYPE_DT :: u8 where "PDU_TYPE_DT = 0x80"
definition PDU_TYPE_CACK :: u8 where "PDU_TYPE_CACK = 0xC0"
definition PDU_TYPE_ACK :: u8 where "PDU_TYPE_ACK = 0xC1"
definition PDU_TYPE_NACK :: u8 where "PDU_TYPE_NACK = 0xC2"
definition PDU_TYPE_FC :: u8 where "PDU_TYPE_FC = 0xC4"
definition PDU_TYPE_ACK_AND_FC :: u8 where "PDU_TYPE_ACK_AND_FC = 0xC5"
definition PDU_TYPE_NACK_AND_FC :: u8 where "PDU_TYPE_NACK_AND_FC = 0xC6"
definition PDU_TYPE_SACK :: u8 where "PDU_TYPE_SACK = 0xC9"
definition PDU_TYPE_SNACK :: u8 where "PDU_TYPE_SNACK = 0xCA"
definition PDU_TYPE_SACK_AND_FC :: u8 where "PDU_TYPE_SACK_AND_FC = 0xCD"
definition PDU_TYPE_SNACK_AND_FC :: u8 where "PDU_TYPE_SNACK_AND_FC = 0xCE"
definition PDU_TYPE_RENDEZVOUS :: u8 where "PDU_TYPE_RENDEZVOUS = 0xCF"
definition PDU_TYPE_MGMT :: u8 where "PDU_TYPE_MGMT = 0x40"

lemmas pdu_types = PDU_TYPE_DT_def PDU_TYPE_CACK_def PDU_TYPE_ACK_def PDU_TYPE_NACK_def
  PDU_TYPE_FC_def PDU_TYPE_ACK_AND_FC_def PDU_TYPE_NACK_AND_FC_def PDU_TYPE_SACK_def
  PDU_TYPE_SNACK_def PDU_TYPE_SACK_AND_FC_def PDU_TYPE_SNACK_AND_FC_def
  PDU_TYPE_RENDEZVOUS_def PDU_TYPE_MGMT_def

definition pdu_type_is_ok :: "u8 \<Rightarrow> bool" where
  "pdu_type_is_ok X \<longleftrightarrow>
     X = PDU_TYPE_DT \<or> X = PDU_TYPE_CACK \<or> X = PDU_TYPE_SACK \<or> X = PDU_TYPE_NACK \<or> X = PDU_TYPE_FC
     \<or> X = PDU_TYPE_ACK \<or> X = PDU_TYPE_ACK_AND_FC \<or> X = PDU_TYPE_SACK_AND_FC
     \<or> X = PDU_TYPE_SNACK_AND_FC \<or> X = PDU_TYPE_RENDEZVOUS \<or> X = PDU_TYPE_MGMT"

definition pdu_type_is_control :: "u8 \<Rightarrow> bool" where
  "pdu_type_is_control X \<longleftrightarrow>
     X = PDU_TYPE_CACK \<or> X = PDU_TYPE_SACK \<or> X = PDU_TYPE_NACK \<or> X = PDU_TYPE_FC
     \<or> X = PDU_TYPE_ACK \<or> X = PDU_TYPE_ACK_AND_FC \<or> X = PDU_TYPE_SACK_AND_FC
     \<or> X = PDU_TYPE_RENDEZVOUS \<or> X = PDU_TYPE_SNACK_AND_FC"

definition is_port_id_ok :: "u32 \<Rightarrow> bool" where "is_port_id_ok i \<longleftrightarrow> i \<noteq> - 1"
definition is_cep_id_ok :: "u8 \<Rightarrow> bool" where "is_cep_id_ok i \<longleftrightarrow> i \<noteq> - 1"
definition is_address_ok :: "u8 \<Rightarrow> bool" where "is_address_ok a \<longleftrightarrow> a \<noteq> - 1"
definition is_qos_id_ok :: "u8 \<Rightarrow> bool" where "is_qos_id_ok q \<longleftrightarrow> q \<noteq> - 1"
definition CEP_ID_WRONG :: u8 where "CEP_ID_WRONG = - 1"

text \<open>\<open>sizeof(pxPci)\<close> is the size of a pointer, never 0.\<close>

definition xPciIsOk :: "pci_t option \<Rightarrow> bool" where
  "xPciIsOk p = (case p of None \<Rightarrow> False | Some p \<Rightarrow> pdu_type_is_ok (pci_xType p))"

text \<open>The bytes of a header in memory.\<close>

definition le16 :: "u16 \<Rightarrow> u8 list" where
  "le16 w = [ucast w, ucast (drop_bit 8 w)]"

definition le32 :: "u32 \<Rightarrow> u8 list" where
  "le32 w = [ucast w, ucast (drop_bit 8 w), ucast (drop_bit 16 w), ucast (drop_bit 24 w)]"

definition of_le16 :: "u8 \<Rightarrow> u8 \<Rightarrow> u16" where
  "of_le16 a b = ucast a OR push_bit 8 (ucast b)"

definition of_le32 :: "u8 \<Rightarrow> u8 \<Rightarrow> u8 \<Rightarrow> u8 \<Rightarrow> u32" where
  "of_le32 a b c d = ucast a OR push_bit 8 (ucast b) OR push_bit 16 (ucast c) OR push_bit 24 (ucast d)"

definition pci_bytes :: "pci_t \<Rightarrow> u8 list" where
  "pci_bytes p =
     [ucVersion p, pci_xDestination p, pci_xSource p, pci_xQosId p, pci_cepDestination p,
      pci_cepSource p, pci_xType p, pci_xFlags p] @ le16 (xPduLen p) @ le32 (xSequenceNumber p)"

fun pci_parse :: "u8 list \<Rightarrow> pci_t option" where
  "pci_parse (v # d # s # q # cd # cs # t # f # l0 # l1 # s0 # s1 # s2 # s3 # _) =
     Some \<lparr> ucVersion = v, pci_xDestination = d, pci_xSource = s, pci_xQosId = q,
            pci_cepDestination = cd, pci_cepSource = cs, pci_xType = t, pci_xFlags = f,
            xPduLen = of_le16 l0 l1, xSequenceNumber = of_le32 s0 s1 s2 s3 \<rparr>"
| "pci_parse _ = None"

lemma of_le16_le16: "of_le16 (ucast w) (ucast (drop_bit 8 w)) = w"
  unfolding of_le16_def by (rule bit_word_eqI) (auto simp: bit_simps)

lemma of_le32_le32:
  "of_le32 (ucast w) (ucast (drop_bit 8 w)) (ucast (drop_bit 16 w)) (ucast (drop_bit 24 w)) = w"
  unfolding of_le32_def
proof (rule bit_word_eqI, goal_cases)
  case (1 n)
  then show ?case by (cases "n < 8"; cases "n < 16"; cases "n < 24") (auto simp: bit_simps)
qed

lemma length_pci_bytes [simp]: "length (pci_bytes p) = 14"
  by (simp add: pci_bytes_def le16_def le32_def)

lemma pci_parse_bytes: "pci_parse (pci_bytes p @ bs) = Some p"
  by (simp add: pci_bytes_def le16_def le32_def of_le16_le16 of_le32_le32)

lemma le16_of_le16: "le16 (of_le16 a b) = [a, b]"
  unfolding le16_def of_le16_def
  by (simp, intro conjI; rule bit_word_eqI; auto simp: bit_simps dest: bit_imp_le_length)

lemma le32_of_le32: "le32 (of_le32 a b c d) = [a, b, c, d]"
  unfolding le32_def of_le32_def
  by (simp, intro conjI; rule bit_word_eqI; auto simp: bit_simps dest: bit_imp_le_length)

lemma pci_bytes_parse: "pci_parse bs = Some p \<Longrightarrow> pci_bytes p = take 14 bs"
  by (erule pci_parse.elims) (auto simp: pci_bytes_def le16_of_le16 le32_of_le32)

lemma pci_parse_None: "pci_parse bs = None \<longleftrightarrow> length bs < 14"
proof (cases "length bs < 14")
  case True
  then have "pci_parse bs \<noteq> Some p" for p
    using pci_bytes_parse[of bs p] length_pci_bytes[of p] by fastforce
  with True show ?thesis by (cases "pci_parse bs") auto
next
  case False
  then obtain n where "length bs = Suc (Suc (Suc (Suc (Suc (Suc (Suc (Suc (Suc (Suc (Suc (Suc (Suc (Suc n)))))))))))))"
    using that[of "length bs - 14"] by simp
  then show ?thesis by (auto simp: length_Suc_conv)
qed

section \<open>Descriptors\<close>

text \<open>The bytes of a pointer field are those of the storage from there on; a NULL
  pointer is \<open>None\<close>.\<close>

record NetworkBufferDescriptor_t =
  nb_id :: nat
  pucEthernetBuffer :: "u8 list option"
  pucRinaBuffer :: "u8 list option"
  pucDataBuffer :: "u8 list option"
  xRinaDataLength :: nat
  xDataLength :: nat

definition NUM_NETWORK_BUFFER_DESCRIPTORS :: nat where "NUM_NETWORK_BUFFER_DESCRIPTORS = 20"
definition baMINIMAL_BUFFER_SIZE :: nat where "baMINIMAL_BUFFER_SIZE = 22"

definition buffer_size :: "nat \<Rightarrow> nat" where
  "buffer_size n =
     (let m = (max n baMINIMAL_BUFFER_SIZE + 2) mod 2 ^ 32
      in if m mod 4 \<noteq> 0 then (m - m mod 4 + 4) mod 2 ^ 32 else m)"

text \<open>New storage starts with the address of its descriptor, which the number of the
  descriptor stands for (\<open>BUFFER_PADDING\<close> is 0, so that this is not before the
  buffer but in it), and is cleared from there on.\<close>

definition fresh_buffer :: "nat \<Rightarrow> nat \<Rightarrow> u8 list" where
  "fresh_buffer i n = le32 (word_of_nat i) @ replicate (n - 4) 0"

text \<open>\<open>mem n\<close> says whether storage of \<open>n\<close> bytes can be had: the code clears it
  before it tests the pointer.\<close>

definition pxGetNetworkBufferWithDescriptor ::
  "(nat \<Rightarrow> bool) \<Rightarrow> nat \<Rightarrow> nat list \<Rightarrow> (NetworkBufferDescriptor_t option \<times> nat list) option" where
  "pxGetNetworkBufferWithDescriptor mem n free =
     (case free of
        [] \<Rightarrow> Some (None, [])
      | i # rest \<Rightarrow>
          let d = \<lparr> nb_id = i, pucEthernetBuffer = None, pucRinaBuffer = None, pucDataBuffer = None,
                    xRinaDataLength = 0, xDataLength = 0 \<rparr>
          in if n = 0 then Some (Some d, rest)
             else if mem (buffer_size n)
             then Some (Some (d \<lparr> pucEthernetBuffer := Some (fresh_buffer i (buffer_size n)),
                                xDataLength := buffer_size n \<rparr>), rest)
             else None)"

definition vReleaseNetworkBufferAndDescriptor ::
  "NetworkBufferDescriptor_t \<Rightarrow> nat list \<Rightarrow> nat list option" where
  "vReleaseNetworkBufferAndDescriptor d free =
     (if nb_id d \<in> set free then None else Some (nb_id d # free))"

section \<open>Data units\<close>

record du_t =
  pxPci :: "pci_t option"
  pxNetworkBuffer :: NetworkBufferDescriptor_t

definition xDuDestroy :: "du_t \<Rightarrow> nat list \<Rightarrow> (bool \<times> nat list) option" where
  "xDuDestroy du free = do {
     free \<leftarrow> vReleaseNetworkBufferAndDescriptor (pxNetworkBuffer du) free;
     Some (True, free) }"

text \<open>Returns true when it fails.  The buffer it takes is not used and not released.\<close>

definition xDuDecap :: "(nat \<Rightarrow> bool) \<Rightarrow> du_t \<Rightarrow> nat list \<Rightarrow> (bool \<times> du_t \<times> nat list) option" where
  "xDuDecap mem du free = do {
     let nb = pxNetworkBuffer du;
     rina \<leftarrow> pucRinaBuffer nb;
     pci \<leftarrow> pci_parse rina;
     if \<not> pdu_type_is_ok (pci_xType pci) then Some (True, du, free)
     else do {
       let n = (xRinaDataLength nb + 2 ^ 32 - 14) mod 2 ^ 32;
       (new, free) \<leftarrow> pxGetNetworkBufferWithDescriptor mem n free;
       (case new of
          None \<Rightarrow> Some (False, du, free)
        | Some _ \<Rightarrow> Some (False, \<lparr> pxPci = Some pci,
            pxNetworkBuffer = nb \<lparr> xDataLength := n, pucDataBuffer := Some (drop 14 rina) \<rparr> \<rparr>, free)) } }"

definition xDuDataLen :: "du_t \<Rightarrow> nat option" where
  "xDuDataLen du = do {
     p \<leftarrow> pxPci du;
     if unat (xPduLen p) \<noteq> xRinaDataLength (pxNetworkBuffer du)
     then Some (xRinaDataLength (pxNetworkBuffer du))
     else Some ((xDataLength (pxNetworkBuffer du) + 2 ^ 32 - unat (xPduLen p)) mod 2 ^ 32) }"

definition xDuLen :: "du_t \<Rightarrow> nat" where
  "xDuLen du = xRinaDataLength (pxNetworkBuffer du)"

text \<open>The type argument is not used: the header of the new buffer is not written here.\<close>

definition xDuEncap :: "(nat \<Rightarrow> bool) \<Rightarrow> du_t \<Rightarrow> nat list \<Rightarrow> (bool \<times> du_t \<times> nat list) option" where
  "xDuEncap mem du free = do {
     let old = pxNetworkBuffer du;
     let n = (xDataLength old + 14) mod 2 ^ 32;
     (new, free) \<leftarrow> pxGetNetworkBufferWithDescriptor mem n free;
     (case new of
        None \<Rightarrow> Some (False, du, free)
      | Some new \<Rightarrow> do {
          dst \<leftarrow> pucEthernetBuffer new;
          src \<leftarrow> pucEthernetBuffer old;
          if length src < xDataLength old \<or> length dst < xDataLength old + 14 then None
          else do {
            let bytes = take 14 dst @ take (xDataLength old) src @ drop (xDataLength old + 14) dst;
            free \<leftarrow> vReleaseNetworkBufferAndDescriptor old free;
            Some (True, \<lparr> pxPci = pci_parse bytes,
              pxNetworkBuffer = new \<lparr> pucEthernetBuffer := Some bytes, xDataLength := n \<rparr> \<rparr>, free) } }) }"

definition xDuIsOk :: "du_t option \<Rightarrow> bool" where
  "xDuIsOk du = (du \<noteq> None)"

text \<open>Writing the header of an encapsulated data unit, which lies in its buffer.\<close>

definition pci_write :: "pci_t \<Rightarrow> du_t \<Rightarrow> du_t" where
  "pci_write p du = du \<lparr> pxPci := Some p,
     pxNetworkBuffer := (pxNetworkBuffer du) \<lparr> pucEthernetBuffer :=
       map_option (\<lambda>bs. pci_bytes p @ drop 14 bs) (pucEthernetBuffer (pxNetworkBuffer du)) \<rparr> \<rparr>"

lemma buffer_size_ge:
  assumes "n \<le> 2 ^ 32 - 8"
  shows "n \<le> buffer_size n"
proof -
  define m where "m = max n baMINIMAL_BUFFER_SIZE + 2"
  have m: "m mod 2 ^ 32 = m" "n + 2 \<le> m" "m + 6 \<le> 2 ^ 32"
    using assms by (simp_all add: m_def baMINIMAL_BUFFER_SIZE_def)
  have r: "m mod 4 < 4" "m mod 4 \<le> m" by simp_all
  then have "m - m mod 4 + 4 < 2 ^ 32" "n \<le> m - m mod 4 + 4" using m by linarith+
  then have "(m - m mod 4 + 4) mod 2 ^ 32 = m - m mod 4 + 4" by (rule_tac mod_less)
  then show ?thesis
    using m r unfolding buffer_size_def m_def[symmetric] Let_def by auto
qed

lemma length_le32: "length (le32 w) = 4"
  by (simp add: le32_def)

lemma length_fresh_buffer [simp]: "4 \<le> n \<Longrightarrow> length (fresh_buffer i n) = n"
  by (simp add: fresh_buffer_def le32_def)

lemma take_fresh_buffer: "4 \<le> k \<Longrightarrow> k \<le> n \<Longrightarrow> take k (fresh_buffer i n) = fresh_buffer i k"
  by (simp add: fresh_buffer_def length_le32 min_def)

text \<open>Storage always has room for two more bytes.\<close>

lemma buffer_size_more:
  assumes "n \<le> 2 ^ 31"
  shows "n + 2 \<le> buffer_size n"
proof -
  define m where "m = max n baMINIMAL_BUFFER_SIZE + 2"
  have m: "m mod 2 ^ 32 = m" "n + 2 \<le> m" "m + 6 \<le> 2 ^ 32"
    using assms by (simp_all add: m_def baMINIMAL_BUFFER_SIZE_def)
  have r: "m mod 4 < 4" "m mod 4 \<le> m" by simp_all
  then have "m - m mod 4 + 4 < 2 ^ 32" "n + 2 \<le> m - m mod 4 + 4" using m by linarith+
  then have "(m - m mod 4 + 4) mod 2 ^ 32 = m - m mod 4 + 4" by (rule_tac mod_less)
  then show ?thesis
    using m r \<open>n + 2 \<le> m - m mod 4 + 4\<close> unfolding buffer_size_def m_def[symmetric] Let_def by auto
qed

lemma drop_fresh_buffer: "4 \<le> k \<Longrightarrow> drop k (fresh_buffer i n) = replicate (n - k) 0"
  by (simp add: fresh_buffer_def length_le32)

lemma get_buffer_cases:
  assumes "pxGetNetworkBufferWithDescriptor mem n free = Some (r, free')"
  obtains "free = []" "r = None" "free' = []"
  | i d where "free = i # free'" "r = Some d" "nb_id d = i"
  using assms
  by (auto simp: pxGetNetworkBufferWithDescriptor_def Let_def split: list.splits if_splits)

section \<open>Properties\<close>

text \<open>The header laid over a buffer: it takes 14 bytes, reading back what was
  written gives it whatever follows, any 14 bytes are the bytes of some header, and
  only a shorter buffer holds none.\<close>

theorem pci_layout:
  "length (pci_bytes p) = 14 \<and> pci_parse (pci_bytes p @ bs) = Some p
   \<and> (case pci_parse bs of None \<Rightarrow> length bs < 14 | Some q \<Rightarrow> pci_bytes q = take 14 bs \<and> 14 \<le> length bs)"
  using pci_parse_None[of bs] pci_parse_bytes[of p bs] pci_bytes_parse[of bs]
  by (auto split: option.split simp: not_less)

text \<open>C12: What one side encapsulates the other side decapsulates: when \<open>xDuEncap\<close>
  succeeds on a unit holding the data \<open>d\<close>, a valid header is written and the bytes of the
  new buffer arrive as the RINA packet of a received unit, then \<open>xDuDecap\<close> finds this
  header, the length and the data.  The sender has as many free descriptors as before;
  the receiver has lost one.\<close>

theorem du_transfer:
  assumes "pucEthernetBuffer (pxNetworkBuffer du) = Some d" "xDataLength (pxNetworkBuffer du) = length d"
    and "length d < 2 ^ 32 - 64"
    and enc: "xDuEncap mem du free = Some (True, du1, free1)"
    and "pdu_type_is_ok (pci_xType h)"
    and wire: "pucEthernetBuffer (pxNetworkBuffer (pci_write h du1)) = pucRinaBuffer (pxNetworkBuffer rx)"
    and "xDataLength (pxNetworkBuffer du1) = xRinaDataLength (pxNetworkBuffer rx)"
    and rcv: "free2 = i # rest" "\<And>n. mem2 n"
  shows "length free1 = length free
    \<and> (\<exists>du2 bs. xDuDecap mem2 rx free2 = Some (False, du2, rest) \<and> pxPci du2 = Some h
         \<and> xDataLength (pxNetworkBuffer du2) = length d
         \<and> pucDataBuffer (pxNetworkBuffer du2) = Some (d @ bs))"
proof -
  obtain new fr where g: "pxGetNetworkBufferWithDescriptor mem (length d + 14) free = Some (Some new, fr)"
    and r: "vReleaseNetworkBufferAndDescriptor (pxNetworkBuffer du) fr = Some free1"
    and d1: "pucEthernetBuffer (pxNetworkBuffer du1)
        = map_option (\<lambda>dst. take 14 dst @ d @ drop (length d + 14) dst) (pucEthernetBuffer new)"
      "xDataLength (pxNetworkBuffer du1) = length d + 14"
    and dst: "pucEthernetBuffer new \<noteq> None" "length d + 14 \<le> length (the (pucEthernetBuffer new))"
    using enc assms(1-3) unfolding xDuEncap_def Let_def
    by (auto split: Option.bind_splits option.splits if_splits)
  obtain nb where nb: "pucEthernetBuffer new = Some nb" using dst(1) by auto
  have "length free1 = length free"
    using g r by (auto elim!: get_buffer_cases simp: vReleaseNetworkBufferAndDescriptor_def split: if_splits)
  moreover have rina: "pucRinaBuffer (pxNetworkBuffer rx) = Some (pci_bytes h @ d @ drop (length d + 14) nb)"
    using wire d1 nb dst(2) by (simp add: pci_write_def)
  moreover have "(length d + 14 + 2 ^ 32 - 14) mod 2 ^ 32 = length d" using assms(3) by simp
  moreover obtain e where "pxGetNetworkBufferWithDescriptor mem2 (length d) free2 = Some (Some e, rest)"
    using that rcv by (cases "d = []") (simp_all add: pxGetNetworkBufferWithDescriptor_def Let_def)
  moreover have "xRinaDataLength (pxNetworkBuffer rx) = length d + 14" using assms(7) d1(2) by simp
  ultimately show ?thesis
    using assms(5) by (auto simp: xDuDecap_def Let_def pci_parse_bytes)
qed

definition ex_nb :: "nat \<Rightarrow> u8 list option \<Rightarrow> u8 list option \<Rightarrow> nat \<Rightarrow> nat \<Rightarrow> NetworkBufferDescriptor_t" where
  "ex_nb i eth rina rl dl = \<lparr> nb_id = i, pucEthernetBuffer = eth, pucRinaBuffer = rina,
     pucDataBuffer = None, xRinaDataLength = rl, xDataLength = dl \<rparr>"

definition ex_pci :: "u8 \<Rightarrow> u8 \<Rightarrow> pci_t" where
  "ex_pci ty dst = \<lparr> ucVersion = 1, pci_xDestination = dst, pci_xSource = 3, pci_xQosId = 1,
     pci_cepDestination = 1, pci_cepSource = 1, pci_xType = ty, pci_xFlags = 0x80,
     xPduLen = 16, xSequenceNumber = 1 \<rparr>"

theorem du_transfer_witness:
  "\<exists>du1 free1 rx du2 bs.
     xDuEncap (\<lambda>_. True) \<lparr> pxPci = None, pxNetworkBuffer = ex_nb 7 (Some [5, 6]) None 0 2 \<rparr> [1, 2]
       = Some (True, du1, free1)
     \<and> xDuDecap (\<lambda>_. True) rx [9] = Some (False, du2, []) \<and> pxPci du2 = Some (ex_pci PDU_TYPE_DT 1)
     \<and> pucDataBuffer (pxNetworkBuffer du2) = Some ([5, 6] @ bs)"
proof -
  let ?du = "\<lparr> pxPci = None, pxNetworkBuffer = ex_nb 7 (Some [5, 6]) None 0 2 \<rparr>"
  obtain du1 free1 where e: "xDuEncap (\<lambda>_. True) ?du [1, 2] = Some (True, du1, free1)"
    "xDataLength (pxNetworkBuffer du1) = 16"
    by (simp add: xDuEncap_def ex_nb_def pxGetNetworkBufferWithDescriptor_def buffer_size_def
        baMINIMAL_BUFFER_SIZE_def Let_def vReleaseNetworkBufferAndDescriptor_def)
  let ?rx = "\<lparr> pxPci = None, pxNetworkBuffer = ex_nb 8 None
      (pucEthernetBuffer (pxNetworkBuffer (pci_write (ex_pci PDU_TYPE_DT 1) du1))) 16 16 \<rparr>"
  show ?thesis
    using du_transfer[OF _ _ _ e(1), of "[5, 6]" "ex_pci PDU_TYPE_DT 1" ?rx "[9]" 9 "[]" "\<lambda>_. True"] e
    by (simp add: ex_nb_def pdu_type_is_ok_def ex_pci_def) blast
qed

end
