(* ===== verification/Data_Plane.thy ===== *)
theory Data_Plane
  imports Du_Pci Rina_Links
begin

text \<open>
  The data plane: flows of the flow allocator (\<open>flowAllocator.c\<close>, posting), EFCP
  (\<open>efcp.c\<close>), DTP (\<open>dtp.c\<close>) and the sending half of the RMT (\<open>rmt.c\<close>), bottom up
  in the order of the calls.

  Tables own the structures their rows point to; the code reaches every flow
  allocator instance through row 0 and every EFCP instance through its row.  A
  field that is read before any assignment (\<open>malloc\<close> does not clear) takes its value
  from \<open>junk_ptr\<close> (whether such a pointer is non-NULL) or \<open>junk_cep\<close>; following such
  a pointer is undefined.  \<open>malloc\<close> itself is taken to succeed.  The shim is reached
  through the function pointer \<open>duWrite\<close>, which takes over the unit; it is handed the
  buffers that it has already queued for the network during the event and the free
  descriptors, and answers both.
\<close>

definition LOCAL_ADDRESS_8 :: u8 where "LOCAL_ADDRESS_8 = 1"

section \<open>State\<close>

datatype eFaiState_t = eFAI_NONE | eFAI_PENDING | eFAI_ALLOCATED

record flowAllocateHandle_t =
  xListWaitingPackets :: "NetworkBufferDescriptor_t list"
  nEventBits :: u32

definition eFLOW_RECEIVE :: u32 where "eFLOW_RECEIVE = 0x1"
definition eFLOW_BOUND :: u32 where "eFLOW_BOUND = 0x10"

record flowAllocatorInstance_t =
  eFaiState :: eFaiState_t
  fai_xPortId :: u32
  pxFlowAllocatorHandle :: flowAllocateHandle_t

record FlowRequestRow_t =
  fr_xValid :: bool
  pxFAI :: "flowAllocatorInstance_t option"

definition FLOWS_REQUEST :: nat where "FLOWS_REQUEST = 5"

record connection_t =
  cn_xPortId :: u32
  xSourceAddress :: u8
  xDestinationAddress :: u8
  xSourceCepId :: u8
  xDestinationCepId :: u8
  cn_xQosId :: u8

record dtpSv_t =
  xMaxFlowPduSize :: u32
  xMaxFlowSduSize :: u32
  xRcvLeftWindowEdge :: u32
  xWindowClosed :: bool
  xDrfFlag :: bool
  xSeqNumberRolloverThreshold :: u32
  xMaxSeqNumberRcvd :: u32
  xNextSeqNumberToSend :: u32
  xMaxSeqNumberToSend :: u32
  xWindowBased :: bool
  xRexmsnCtrl :: bool
  xRateBased :: bool
  xDrfRequired :: bool
  xRateFulfiled :: bool

datatype eEfcpState_t = eEfcpAllocated | eEfcpDeallocated

record efcp_t =
  efcp_xState :: eEfcpState_t
  pxConnection :: connection_t
  pxDtpStateVector :: dtpSv_t
  efcp_freed :: bool

record efcpImapRow_t =
  xCepIdKey :: u8
  xEfcpValue :: "efcp_t option"
  ucValid :: u8

definition EFCP_IMAP_ENTRIES :: nat where "EFCP_IMAP_ENTRIES = 3"

datatype eFlowState_t = eN1_PORT_STATE_ENABLED | eN1_PORT_STATE_ALLOCATED
  | eN1_PORT_STATE_DISABLED | eN1_PORT_STATE_DO_NOT_DISABLE | eN1_PORT_STATE_DEALLOCATED

record n1PortStats_t =
  plen :: u32
  dropPdus :: u32
  errPdus :: u32
  txPdus :: u32
  txBytes :: u32
  rxPdus :: u32
  rxBytes :: u32

record rmtN1Port_t =
  n1_xPortId :: u32
  n1_eState :: eFlowState_t
  xStats :: n1PortStats_t
  uxBusy :: bool

text \<open>The field \<open>pxN1Port\<close> of the RMT: not initialised (and then non-NULL or not), or
  the port of the port table.\<close>

datatype n1ptr = N1Junk bool | N1Table

datatype eNormalFlowState_t = ePORT_STATE_NULL | ePORT_STATE_PENDING | ePORT_STATE_ALLOCATED
  | ePORT_STATE_DEALLOCATED | ePORT_STATE_DISABLED

record normalFlow_t =
  nf_xPortId :: u32
  nf_eState :: eNormalFlowState_t
  xActive :: u8

record rmtAddress_t =
  ra_xAddress :: u8
  ra_freed :: bool

record dplane =
  free_desc :: "nat list"
  xEfcpImapTable :: "efcpImapRow_t list"
  xFlowRequestTable :: "FlowRequestRow_t list"
  xPortIdTable0 :: "rmtN1Port_t option"
  rmt_pxN1Port :: n1ptr
  xAddresses :: "rmtAddress_t list"
  xFlowsList :: "normalFlow_t list"
  net_tx :: "NetworkBufferDescriptor_t list"

record denv =
  storage :: "nat \<Rightarrow> bool"
  duWrite :: "u32 \<Rightarrow> du_t \<Rightarrow> NetworkBufferDescriptor_t list \<Rightarrow> nat list
    \<Rightarrow> (bool \<times> NetworkBufferDescriptor_t list \<times> nat list) option"
  junk_ptr :: bool
  junk_cep :: u8

text \<open>\<open>xDuDestroy\<close> in the state.\<close>

definition destroy :: "du_t \<Rightarrow> dplane \<Rightarrow> dplane option" where
  "destroy du s = do {
     (_, free) \<leftarrow> xDuDestroy du (free_desc s);
     Some (s \<lparr> free_desc := free \<rparr>) }"

definition destroy_and :: "bool \<Rightarrow> du_t \<Rightarrow> dplane \<Rightarrow> (bool \<times> dplane) option" where
  "destroy_and r du s = do { s \<leftarrow> destroy du s; Some (r, s) }"

section \<open>Flows\<close>

text \<open>The look-ups test the rows but read the instance of row 0.\<close>

fun fa_scan :: "u32 \<Rightarrow> flowAllocatorInstance_t option \<Rightarrow> FlowRequestRow_t list \<Rightarrow> bool option" where
  "fa_scan port f0 [] = Some False"
| "fa_scan port f0 (r # rs) =
     (if fr_xValid r
      then (case f0 of None \<Rightarrow> None
            | Some f \<Rightarrow> if fai_xPortId f = port then Some True else fa_scan port f0 rs)
      else fa_scan port f0 rs)"

definition pxFAFindInstance :: "u32 \<Rightarrow> FlowRequestRow_t list \<Rightarrow> flowAllocatorInstance_t option option" where
  "pxFAFindInstance port tbl = do {
     b \<leftarrow> fa_scan port (pxFAI (tbl ! 0)) tbl;
     Some (if b then pxFAI (tbl ! 0) else None) }"

definition pxFAFindFlowHandle :: "u32 \<Rightarrow> FlowRequestRow_t list \<Rightarrow> flowAllocateHandle_t option option" where
  "pxFAFindFlowHandle port tbl = do {
     f \<leftarrow> pxFAFindInstance port tbl;
     Some (map_option pxFlowAllocatorHandle f) }"

definition prvGetPendingFlowRequest :: "u32 \<Rightarrow> FlowRequestRow_t list \<Rightarrow> flowAllocateHandle_t option option" where
  "prvGetPendingFlowRequest port tbl = do {
     f \<leftarrow> pxFAFindInstance port tbl;
     Some (map_option pxFlowAllocatorHandle f) }"

definition prvAddFlowRequestEntry :: "flowAllocatorInstance_t \<Rightarrow> FlowRequestRow_t list \<Rightarrow> FlowRequestRow_t list" where
  "prvAddFlowRequestEntry f tbl =
     (case first_ix (\<lambda>r. \<not> fr_xValid r) tbl of
        None \<Rightarrow> tbl
      | Some x \<Rightarrow> tbl[x := \<lparr> fr_xValid = True, pxFAI = Some f \<rparr>])"

text \<open>A write through the pointer that the look-ups return.\<close>

definition fai_update ::
  "(flowAllocatorInstance_t \<Rightarrow> flowAllocatorInstance_t) \<Rightarrow> FlowRequestRow_t list \<Rightarrow> FlowRequestRow_t list" where
  "fai_update f tbl = tbl[0 := (tbl ! 0) \<lparr> pxFAI := map_option f (pxFAI (tbl ! 0)) \<rparr>]"

definition post_packet :: "NetworkBufferDescriptor_t \<Rightarrow> flowAllocatorInstance_t \<Rightarrow> flowAllocatorInstance_t" where
  "post_packet nb f = f \<lparr> pxFlowAllocatorHandle := (pxFlowAllocatorHandle f)
     \<lparr> xListWaitingPackets := insert_second nb (xListWaitingPackets (pxFlowAllocatorHandle f)),
       nEventBits := nEventBits (pxFlowAllocatorHandle f) OR eFLOW_RECEIVE \<rparr> \<rparr>"

definition xFlowAllocatorDuPost :: "u32 \<Rightarrow> du_t \<Rightarrow> dplane \<Rightarrow> (bool \<times> dplane) option" where
  "xFlowAllocatorDuPost port du s =
     (if \<not> xDuIsOk (Some du) \<or> \<not> is_port_id_ok port then destroy_and False du s
      else do {
        p \<leftarrow> pxFAFindInstance port (xFlowRequestTable s);
        (case p of
           None \<Rightarrow> destroy_and False du s
         | Some f \<Rightarrow>
             if eFaiState f \<noteq> eFAI_ALLOCATED then destroy_and False du s
             else Some (True, s \<lparr> xFlowRequestTable :=
               fai_update (post_packet (pxNetworkBuffer du)) (xFlowRequestTable s) \<rparr>)) })"

section \<open>The table of EFCP instances\<close>

definition xEfcpImapCreate :: "efcpImapRow_t list" where
  "xEfcpImapCreate = replicate EFCP_IMAP_ENTRIES \<lparr> xCepIdKey = 0, xEfcpValue = None, ucValid = 0 \<rparr>"

text \<open>The row of the instance; the validity of the row is set, not tested.\<close>

definition pxEfcpImapFind :: "u8 \<Rightarrow> efcpImapRow_t list \<Rightarrow> nat option \<times> efcpImapRow_t list" where
  "pxEfcpImapFind key tbl =
     (case first_ix (\<lambda>r. xCepIdKey r = key) tbl of
        None \<Rightarrow> (None, tbl)
      | Some x \<Rightarrow> (if xEfcpValue (tbl ! x) = None then None else Some x, tbl[x := (tbl ! x) \<lparr> ucValid := 1 \<rparr>]))"

definition xEfcpImapAdd :: "u8 \<Rightarrow> efcp_t \<Rightarrow> efcpImapRow_t list \<Rightarrow> bool \<times> efcpImapRow_t list" where
  "xEfcpImapAdd key e tbl =
     (True, tbl[0 := \<lparr> xCepIdKey = key, xEfcpValue = Some e, ucValid = 1 \<rparr>])"

definition xEfcpImapRemove :: "u8 \<Rightarrow> efcpImapRow_t list \<Rightarrow> bool \<times> efcpImapRow_t list" where
  "xEfcpImapRemove key tbl =
     (case first_ix (\<lambda>r. xCepIdKey r = key) tbl of
        None \<Rightarrow> (True, tbl)
      | Some x \<Rightarrow> (True, tbl[x := \<lparr> xCepIdKey = 0, xEfcpValue = None, ucValid = 0 \<rparr>]))"

text \<open>Reading and writing the instance of a row.\<close>

definition efcp_at :: "nat \<Rightarrow> dplane \<Rightarrow> efcp_t option" where
  "efcp_at x s = (case xEfcpValue (xEfcpImapTable s ! x) of
     None \<Rightarrow> None | Some e \<Rightarrow> if efcp_freed e then None else Some e)"

definition efcp_put :: "nat \<Rightarrow> efcp_t \<Rightarrow> dplane \<Rightarrow> dplane" where
  "efcp_put x e s = s \<lparr> xEfcpImapTable :=
     (xEfcpImapTable s)[x := (xEfcpImapTable s ! x) \<lparr> xEfcpValue := Some e \<rparr>] \<rparr>"

definition imap_find :: "u8 \<Rightarrow> dplane \<Rightarrow> nat option \<times> dplane" where
  "imap_find key s = (let (p, t) = pxEfcpImapFind key (xEfcpImapTable s) in (p, s \<lparr> xEfcpImapTable := t \<rparr>))"

section \<open>DTP and EFCP, receiving\<close>

definition pxDtpStateVectorInit :: dtpSv_t where
  "pxDtpStateVectorInit = \<lparr> xMaxFlowPduSize = - 1, xMaxFlowSduSize = - 1, xRcvLeftWindowEdge = 0,
     xWindowClosed = False, xDrfFlag = True, xSeqNumberRolloverThreshold = 0, xMaxSeqNumberRcvd = 0,
     xNextSeqNumberToSend = 0, xMaxSeqNumberToSend = 0, xWindowBased = False, xRexmsnCtrl = False,
     xRateBased = False, xDrfRequired = True, xRateFulfiled = False \<rparr>"

definition xEfcpEnqueue :: "u32 \<Rightarrow> du_t \<Rightarrow> dplane \<Rightarrow> (bool \<times> dplane) option" where
  "xEfcpEnqueue port du s = xFlowAllocatorDuPost port du s"

definition xDtpPduPost :: "nat \<Rightarrow> du_t \<Rightarrow> dplane \<Rightarrow> (bool \<times> dplane) option" where
  "xDtpPduPost x du s = do {
     e \<leftarrow> efcp_at x s;
     xEfcpEnqueue (cn_xPortId (pxConnection e)) du s }"

definition sv_update :: "(dtpSv_t \<Rightarrow> dtpSv_t) \<Rightarrow> efcp_t \<Rightarrow> efcp_t" where
  "sv_update f e = e \<lparr> pxDtpStateVector := f (pxDtpStateVector e) \<rparr>"

definition xDtpReceive :: "nat \<Rightarrow> du_t \<Rightarrow> dplane \<Rightarrow> (bool \<times> dplane) option" where
  "xDtpReceive x du s = do {
     e \<leftarrow> efcp_at x s;
     p \<leftarrow> pxPci du;
     _ \<leftarrow> xDuDataLen du;
     let sv = pxDtpStateVector e; let sn = xSequenceNumber p; let lwe = xRcvLeftWindowEdge sv;
     if xDrfRequired sv
     then if pci_xFlags p AND PDU_FLAGS_DATA_RUN \<noteq> 0
       then do {
         (_, s) \<leftarrow> xDtpPduPost x du
           (efcp_put x (sv_update (\<lambda>v. v \<lparr> xDrfRequired := False, xRcvLeftWindowEdge := sn \<rparr>) e) s);
         Some (True, s) }
       else destroy_and True du s
     else if sn \<le> lwe then destroy_and False du s
     else do {
       (_, s) \<leftarrow> xDtpPduPost x du
         (if sn = lwe + 1 then efcp_put x (sv_update (\<lambda>v. v \<lparr> xRcvLeftWindowEdge := sn \<rparr>) e) s else s);
       Some (True, s) } }"

text \<open>A control unit is neither processed nor destroyed when the uninitialised pointer
  \<open>pxDtcp\<close> is not NULL.\<close>

definition xEfcpReceive :: "denv \<Rightarrow> nat \<Rightarrow> du_t \<Rightarrow> dplane \<Rightarrow> (bool \<times> dplane) option" where
  "xEfcpReceive env x du s = do {
     p \<leftarrow> pxPci du;
     if pdu_type_is_control (pci_xType p)
     then if \<not> junk_ptr env then destroy_and False du s else Some (True, s)
     else do {
       (r, s) \<leftarrow> xDtpReceive x du s;
       Some (r, s) } }"

definition xEfcpContainerReceive :: "denv \<Rightarrow> u8 \<Rightarrow> du_t \<Rightarrow> dplane \<Rightarrow> (bool \<times> dplane) option" where
  "xEfcpContainerReceive env cep du s =
     (if \<not> is_cep_id_ok cep then destroy_and False du s
      else let (px, s) = imap_find cep s in
        (case px of
           None \<Rightarrow> destroy_and False du s
         | Some x \<Rightarrow> do {
             e \<leftarrow> efcp_at x s;
             if efcp_xState e = eEfcpDeallocated then destroy_and True du s
             else do {
               p \<leftarrow> pxPci du;
               let e = (if pci_xType p = PDU_TYPE_DT \<and> xDestinationCepId (pxConnection e) \<noteq> CEP_ID_WRONG
                        then e \<lparr> pxConnection := (pxConnection e) \<lparr> xDestinationCepId := pci_cepDestination p \<rparr> \<rparr>
                        else e);
               xEfcpReceive env x du (efcp_put x e s) } }))"

section \<open>RMT, sending\<close>

definition pxRmtN1PortCreate :: "u32 \<Rightarrow> rmtN1Port_t" where
  "pxRmtN1PortCreate i = \<lparr> n1_xPortId = i, n1_eState = eN1_PORT_STATE_ENABLED,
     xStats = \<lparr> plen = 0, dropPdus = 0, errPdus = 0, txPdus = 0, txBytes = 0, rxPdus = 0, rxBytes = 0 \<rparr>,
     uxBusy = False \<rparr>"

text \<open>A port can be bound only when the field for it is not NULL already.\<close>

definition xRmtN1PortBind :: "u32 \<Rightarrow> dplane \<Rightarrow> bool \<times> dplane" where
  "xRmtN1PortBind i s =
     (if \<not> is_port_id_ok i then (False, s)
      else if rmt_pxN1Port s = N1Junk False then (False, s)
      else (True, s \<lparr> xPortIdTable0 := Some ((pxRmtN1PortCreate i) \<lparr> n1_eState := eN1_PORT_STATE_ALLOCATED \<rparr>),
                      rmt_pxN1Port := N1Table \<rparr>))"

definition n1_stats :: "(n1PortStats_t \<Rightarrow> n1PortStats_t) \<Rightarrow> rmtN1Port_t \<Rightarrow> rmtN1Port_t" where
  "n1_stats f p = p \<lparr> xStats := f (xStats p) \<rparr>"

definition port_put :: "rmtN1Port_t \<Rightarrow> dplane \<Rightarrow> dplane" where
  "port_put p s = s \<lparr> xPortIdTable0 := Some p \<rparr>"

text \<open>The branch for a failed write follows a return on failure, so it is never taken.\<close>

definition xRmtN1PortWriteDu :: "denv \<Rightarrow> rmtN1Port_t \<Rightarrow> du_t \<Rightarrow> dplane \<Rightarrow> (bool \<times> dplane) option" where
  "xRmtN1PortWriteDu env p du s = do {
     (ret, tx, free) \<leftarrow> duWrite env (n1_xPortId p) du (net_tx s) (free_desc s);
     let s = s \<lparr> free_desc := free, net_tx := tx \<rparr>;
     if \<not> ret then Some (False, s) else Some (True, s) }"

definition xRmtSendPortId :: "denv \<Rightarrow> u32 \<Rightarrow> du_t \<Rightarrow> dplane \<Rightarrow> (bool \<times> dplane) option" where
  "xRmtSendPortId env port du s =
     (case xPortIdTable0 s of
        None \<Rightarrow> destroy_and False du s
      | Some p \<Rightarrow>
          if plen (xStats p) \<noteq> 0 \<or> uxBusy p \<or> n1_eState p = eN1_PORT_STATE_DISABLED
          then do {
            s \<leftarrow> destroy du s;
            Some (False, port_put (n1_stats (\<lambda>t. t \<lparr> errPdus := errPdus t + 1 \<rparr>) p) s) }
          else do {
            (ret, s) \<leftarrow> xRmtN1PortWriteDu env (p \<lparr> uxBusy := True \<rparr>) du (port_put (p \<lparr> uxBusy := True \<rparr>) s);
            Some (True, port_put (n1_stats (\<lambda>t. t \<lparr> txPdus := txPdus t + 1,
              txBytes := txBytes t + (if ret then 1 else 0) \<rparr>) (p \<lparr> uxBusy := False \<rparr>)) s) })"

definition xRmtSend :: "denv \<Rightarrow> du_t \<Rightarrow> dplane \<Rightarrow> (bool \<times> dplane) option" where
  "xRmtSend env du s =
     (if \<not> xPciIsOk (pxPci du) then destroy_and False du s
      else do {
        p \<leftarrow> (if rmt_pxN1Port s = N1Table then xPortIdTable0 s else None);
        (r, s) \<leftarrow> xRmtSendPortId env (n1_xPortId p) du s;
        Some (r, s) })"

definition xRmtAddressAdd :: "u8 \<Rightarrow> dplane \<Rightarrow> bool \<times> dplane" where
  "xRmtAddressAdd a s =
     (True, s \<lparr> xAddresses := insert_second \<lparr> ra_xAddress = a, ra_freed = False \<rparr> (xAddresses s) \<rparr>)"

text \<open>The matching entry is freed and stays in the list.\<close>

fun addr_scan :: "u8 \<Rightarrow> rmtAddress_t list \<Rightarrow> (bool \<times> rmtAddress_t list) option" where
  "addr_scan a [] = Some (False, [])"
| "addr_scan a (r # rs) =
     (if ra_freed r then None
      else if ra_xAddress r = a then Some (True, r \<lparr> ra_freed := True \<rparr> # rs)
      else do { (b, rs) \<leftarrow> addr_scan a rs; Some (b, r # rs) })"

definition xRmtPduIsAddressedToMe :: "u8 \<Rightarrow> dplane \<Rightarrow> (bool \<times> dplane) option" where
  "xRmtPduIsAddressedToMe a s = do {
     (b, rs) \<leftarrow> addr_scan a (xAddresses s);
     Some (b, s \<lparr> xAddresses := rs \<rparr>) }"

section \<open>DTP and EFCP, sending\<close>

text \<open>A unit for the local system is decapsulated first, although its buffer is new and
  its field \<open>pucRinaBuffer\<close> not set.\<close>

definition xDtpPduSend :: "denv \<Rightarrow> du_t \<Rightarrow> dplane \<Rightarrow> (bool \<times> dplane) option" where
  "xDtpPduSend env du s = do {
     p \<leftarrow> pxPci du;
     if pci_xSource p \<noteq> pci_xDestination p
     then do { (r, s) \<leftarrow> xRmtSend env du s; Some (r, s) }
     else do {
       (bad, du, free) \<leftarrow> xDuDecap (storage env) du (free_desc s);
       let s = s \<lparr> free_desc := free \<rparr>;
       if bad \<or> \<not> xDuIsOk (Some du) then destroy_and False du s
       else do {
         (r, s) \<leftarrow> xEfcpContainerReceive env (pci_cepDestination p) du s;
         Some (\<not> r, s) } } }"

definition dt_header :: "connection_t \<Rightarrow> dtpSv_t \<Rightarrow> nat \<Rightarrow> pci_t" where
  "dt_header c sv n = \<lparr> ucVersion = 1, pci_xDestination = xDestinationAddress c,
     pci_xSource = xSourceAddress c, pci_xQosId = cn_xQosId c,
     pci_cepDestination = xDestinationCepId c, pci_cepSource = xSourceCepId c,
     pci_xType = PDU_TYPE_DT, pci_xFlags = (if xDrfFlag sv then PDU_FLAGS_DATA_RUN else 0),
     xPduLen = word_of_nat n, xSequenceNumber = xNextSeqNumberToSend sv \<rparr>"

definition next_seq :: "dtpSv_t \<Rightarrow> dtpSv_t" where
  "next_seq v = v \<lparr> xNextSeqNumberToSend := xNextSeqNumberToSend v + 1 \<rparr>"

definition xDtpWrite :: "denv \<Rightarrow> nat \<Rightarrow> du_t \<Rightarrow> dplane \<Rightarrow> (bool \<times> dplane) option" where
  "xDtpWrite env x du s = do {
     (ok, du, free) \<leftarrow> xDuEncap (storage env) du (free_desc s);
     let s = s \<lparr> free_desc := free \<rparr>;
     if \<not> ok then destroy_and False du s
     else do {
       e \<leftarrow> efcp_at x s;
       let e = sv_update next_seq e;
       let du = pci_write (dt_header (pxConnection e) (pxDtpStateVector e) (xDataLength (pxNetworkBuffer du))) du;
       let s = efcp_put x e s;
       if \<not> xPciIsOk (pxPci du) then destroy_and False du s
       else do { (r, s) \<leftarrow> xDtpPduSend env du s; Some (r, s) } } }"

definition xEfcpWrite :: "denv \<Rightarrow> nat \<Rightarrow> du_t \<Rightarrow> dplane \<Rightarrow> (bool \<times> dplane) option" where
  "xEfcpWrite env x du s = xDtpWrite env x du s"

definition xEfcpContainerWrite :: "denv \<Rightarrow> u8 \<Rightarrow> du_t \<Rightarrow> dplane \<Rightarrow> (bool \<times> dplane) option" where
  "xEfcpContainerWrite env cep du s =
     (if \<not> is_cep_id_ok cep then destroy_and False du s
      else let (px, s) = imap_find cep s in
        (case px of
           None \<Rightarrow> destroy_and False du s
         | Some x \<Rightarrow> do {
             e \<leftarrow> efcp_at x s;
             if efcp_xState e = eEfcpDeallocated then destroy_and False du s
             else xEfcpWrite env x du s }))"

section \<open>Connections\<close>

text \<open>The field \<open>pxUserIpcp\<close> is never set.\<close>

definition xEfcpDestroy :: "denv \<Rightarrow> nat option \<Rightarrow> dplane \<Rightarrow> (bool \<times> dplane) option" where
  "xEfcpDestroy env px s =
     (if junk_ptr env then None
      else (case px of
              None \<Rightarrow> Some (True, s)
            | Some x \<Rightarrow> do { e \<leftarrow> efcp_at x s; Some (True, efcp_put x (e \<lparr> efcp_freed := True \<rparr>) s) }))"

definition is_candidate_connection_ok :: "connection_t \<Rightarrow> bool" where
  "is_candidate_connection_ok c \<longleftrightarrow> is_cep_id_ok (xSourceCepId c) \<and> is_port_id_ok (cn_xPortId c)"

definition xEfcpConnectionCreate ::
  "denv \<Rightarrow> u8 \<Rightarrow> u8 \<Rightarrow> u32 \<Rightarrow> u8 \<Rightarrow> u8 \<Rightarrow> u8 \<Rightarrow> dplane \<Rightarrow> (u8 \<times> dplane) option" where
  "xEfcpConnectionCreate env src dst port qos srcCep dstCep s =
     (let cep = 1;
          c = \<lparr> cn_xPortId = port, xSourceAddress = LOCAL_ADDRESS_8, xDestinationAddress = dst,
                xSourceCepId = cep, xDestinationCepId = dstCep, cn_xQosId = qos \<rparr>
      in if \<not> is_cep_id_ok cep \<or> \<not> is_candidate_connection_ok c
         then do { (_, s) \<leftarrow> xEfcpDestroy env None s; Some (CEP_ID_WRONG, s) }
         else Some (cep, s \<lparr> xEfcpImapTable := snd (xEfcpImapAdd cep
                \<lparr> efcp_xState = eEfcpAllocated, pxConnection = c, pxDtpStateVector = pxDtpStateVectorInit,
                  efcp_freed = False \<rparr> (xEfcpImapTable s)) \<rparr>))"

definition xEfcpConnectionModify :: "denv \<Rightarrow> u8 \<Rightarrow> u8 \<Rightarrow> u8 \<Rightarrow> dplane \<Rightarrow> (bool \<times> dplane) option" where
  "xEfcpConnectionModify env cep src dst s =
     (let (px, s) = imap_find cep s in
      case px of
        None \<Rightarrow> Some (False, s)
      | Some x \<Rightarrow> do {
          e \<leftarrow> efcp_at x s;
          if efcp_xState e = eEfcpDeallocated
          then do { (r, s) \<leftarrow> xEfcpDestroy env (Some x) s; Some (\<not> r, s) }
          else Some (True, efcp_put x (e \<lparr> pxConnection := (pxConnection e)
                 \<lparr> xSourceAddress := src, xDestinationAddress := dst \<rparr> \<rparr>) s) })"

definition xEfcpConnectionUpdate :: "denv \<Rightarrow> u8 \<Rightarrow> u8 \<Rightarrow> dplane \<Rightarrow> (bool \<times> dplane) option" where
  "xEfcpConnectionUpdate env from to s =
     (if \<not> is_cep_id_ok from \<or> \<not> is_cep_id_ok to then Some (False, s)
      else let (px, s) = imap_find from s in
      case px of
        None \<Rightarrow> Some (False, s)
      | Some x \<Rightarrow> do {
          e \<leftarrow> efcp_at x s;
          if efcp_xState e = eEfcpDeallocated
          then do { (r, s) \<leftarrow> xEfcpDestroy env (Some x) s; Some (\<not> r, s) }
          else Some (True, efcp_put x (e \<lparr> pxConnection := (pxConnection e)
                 \<lparr> xDestinationCepId := to \<rparr> \<rparr>) s) })"

text \<open>What follows the removal is not reached when the removal answers true.\<close>

definition xEfcpConnectionDestroy :: "denv \<Rightarrow> u8 \<Rightarrow> dplane \<Rightarrow> (bool \<times> dplane) option" where
  "xEfcpConnectionDestroy env cep s =
     (if \<not> is_cep_id_ok cep then Some (False, s)
      else let (px, s) = imap_find cep s in
      case px of
        None \<Rightarrow> Some (False, s)
      | Some x \<Rightarrow>
          (let (removed, t) = xEfcpImapRemove cep (xEfcpImapTable s)
           in if removed then Some (False, s \<lparr> xEfcpImapTable := t \<rparr>)
              else do {
                (r, s) \<leftarrow> xEfcpDestroy env (Some x) (s \<lparr> xEfcpImapTable := t \<rparr>);
                Some (\<not> r, s) }))"

end
