(* ===== verification/Dtp_Window.thy ===== *)
theory Dtp_Window
  imports Data_Plane
begin

text \<open>
  The receiving window of DTP.  \<open>dtp_accept\<close> is what \<open>xDtpReceive\<close> decides from the
  state vector and the header alone; on a flow that is allocated a run of
  received units is delivered and dropped as \<open>dtp_split\<close> says, every descriptor
  ending up in the list of waiting packets or in the pool, once.
\<close>

definition dtp_accept :: "dtpSv_t \<Rightarrow> pci_t \<Rightarrow> bool \<times> dtpSv_t" where
  "dtp_accept sv p =
     (if xDrfRequired sv
      then if pci_xFlags p AND PDU_FLAGS_DATA_RUN \<noteq> 0
           then (True, sv \<lparr> xDrfRequired := False, xRcvLeftWindowEdge := xSequenceNumber p \<rparr>)
           else (False, sv)
      else if xSequenceNumber p \<le> xRcvLeftWindowEdge sv then (False, sv)
      else (True, if xSequenceNumber p = xRcvLeftWindowEdge sv + 1
                  then sv \<lparr> xRcvLeftWindowEdge := xSequenceNumber p \<rparr> else sv))"

definition du_sn :: "du_t \<Rightarrow> u32" where
  "du_sn du = xSequenceNumber (the (pxPci du))"

primrec dtp_split :: "dtpSv_t \<Rightarrow> du_t list \<Rightarrow> du_t list \<times> du_t list \<times> dtpSv_t" where
  "dtp_split sv [] = ([], [], sv)"
| "dtp_split sv (du # dus) =
     (let (ok, sv) = dtp_accept sv (the (pxPci du)); (del, drp, sv) = dtp_split sv dus
      in if ok then (du # del, drp, sv) else (del, du # drp, sv))"

primrec receive_all :: "nat \<Rightarrow> du_t list \<Rightarrow> dplane \<Rightarrow> dplane option" where
  "receive_all x [] s = Some s"
| "receive_all x (du # dus) s = do { (_, s) \<leftarrow> xDtpReceive x du s; receive_all x dus s }"

definition du_id :: "du_t \<Rightarrow> nat" where
  "du_id du = nb_id (pxNetworkBuffer du)"

text \<open>The flow of row 0 is allocated to the port.\<close>

definition flow_ready :: "u32 \<Rightarrow> dplane \<Rightarrow> bool" where
  "flow_ready port s \<longleftrightarrow> is_port_id_ok port \<and> xFlowRequestTable s \<noteq> []
     \<and> fr_xValid (hd (xFlowRequestTable s))
     \<and> (case pxFAI (hd (xFlowRequestTable s)) of
          None \<Rightarrow> False | Some f \<Rightarrow> fai_xPortId f = port \<and> eFaiState f = eFAI_ALLOCATED)"

definition waiting :: "dplane \<Rightarrow> NetworkBufferDescriptor_t list" where
  "waiting s = xListWaitingPackets (pxFlowAllocatorHandle (the (pxFAI (xFlowRequestTable s ! 0))))"

lemma flow_readyE:
  assumes "flow_ready port s"
  obtains r f rs where "xFlowRequestTable s = r # rs" "fr_xValid r" "pxFAI r = Some f"
    "fai_xPortId f = port" "eFaiState f = eFAI_ALLOCATED" "is_port_id_ok port"
  using assms by (cases "xFlowRequestTable s") (auto simp: flow_ready_def split: option.splits)

lemma post_ready:
  assumes "flow_ready port s"
  shows "\<exists>s'. xFlowAllocatorDuPost port du s = Some (True, s') \<and> flow_ready port s'
    \<and> waiting s' = insert_second (pxNetworkBuffer du) (waiting s)
    \<and> free_desc s' = free_desc s \<and> xEfcpImapTable s' = xEfcpImapTable s"
proof -
  from assms obtain r f rs where "xFlowRequestTable s = r # rs" "fr_xValid r" "pxFAI r = Some f"
    "fai_xPortId f = port" "eFaiState f = eFAI_ALLOCATED" "is_port_id_ok port"
    by (rule flow_readyE)
  then show ?thesis
    by (simp add: xFlowAllocatorDuPost_def xDuIsOk_def pxFAFindInstance_def fai_update_def
        flow_ready_def waiting_def post_packet_def)
qed

lemma flow_ready_cong: "xFlowRequestTable s' = xFlowRequestTable s \<Longrightarrow> flow_ready port s' = flow_ready port s"
  by (simp add: flow_ready_def)

lemma efcp_at_put:
  "efcp_at x s = Some e \<Longrightarrow> x < length (xEfcpImapTable s) \<Longrightarrow> \<not> efcp_freed e' \<Longrightarrow>
   efcp_at x (efcp_put x e' s) = Some e'"
  by (simp add: efcp_at_def efcp_put_def)

lemma efcp_at_not_freed: "efcp_at x s = Some e \<Longrightarrow> \<not> efcp_freed e"
  by (simp add: efcp_at_def split: option.splits if_splits)

lemma efcp_at_cong: "xEfcpImapTable s' = xEfcpImapTable s \<Longrightarrow> efcp_at x s' = efcp_at x s"
  by (simp add: efcp_at_def)

lemma efcp_put_same:
  assumes "efcp_at x s = Some e"
  shows "efcp_put x e s = s"
proof -
  have "xEfcpValue (xEfcpImapTable s ! x) = Some e"
    using assms by (simp add: efcp_at_def split: option.splits if_splits)
  then have "xEfcpImapTable s ! x = (xEfcpImapTable s ! x) \<lparr> xEfcpValue := Some e \<rparr>" by simp
  then show ?thesis by (simp add: efcp_put_def list_update_id)
qed

lemma xDuDataLen_Some: "pxPci du = Some p \<Longrightarrow> \<exists>n. xDuDataLen du = Some n"
  by (simp add: xDuDataLen_def)

text \<open>One unit.\<close>

lemma xDtpReceive_step:
  assumes e: "efcp_at x s = Some e" "x < length (xEfcpImapTable s)"
    and p: "pxPci du = Some p"
    and f: "flow_ready (cn_xPortId (pxConnection e)) s"
    and d: "du_id du \<notin> set (free_desc s)"
    and a: "dtp_accept (pxDtpStateVector e) p = (ok, sv)"
  shows "\<exists>r s'. xDtpReceive x du s = Some (r, s') \<and> flow_ready (cn_xPortId (pxConnection e)) s'
    \<and> waiting s' = (if ok then insert_second (pxNetworkBuffer du) (waiting s) else waiting s)
    \<and> free_desc s' = (if ok then free_desc s else du_id du # free_desc s)
    \<and> efcp_at x s' = Some (e \<lparr> pxDtpStateVector := sv \<rparr>)
    \<and> length (xEfcpImapTable s') = length (xEfcpImapTable s)
    \<and> (ok \<longrightarrow> r)"
proof -
  define e' where "e' = e \<lparr> pxDtpStateVector := sv \<rparr>"
  define t where "t = efcp_put x e' s"
  have nf: "\<not> efcp_freed e'" using efcp_at_not_freed[OF e(1)] by (simp add: e'_def)
  have t: "efcp_at x t = Some e'" "free_desc t = free_desc s" "waiting t = waiting s"
    "length (xEfcpImapTable t) = length (xEfcpImapTable s)"
    "flow_ready (cn_xPortId (pxConnection e)) t"
    using f efcp_at_put[OF e nf] by (simp_all add: t_def efcp_put_def waiting_def flow_ready_def)
  have port: "cn_xPortId (pxConnection e') = cn_xPortId (pxConnection e)" by (simp add: e'_def)
  obtain n where n: "xDuDataLen du = Some n" using xDuDataLen_Some[OF p] by auto
  have same: "sv = pxDtpStateVector e \<Longrightarrow> t = s" using efcp_put_same[OF e(1)] by (simp add: t_def e'_def)
  have dest: "\<exists>s'. destroy du s = Some s' \<and> free_desc s' = du_id du # free_desc s
      \<and> waiting s' = waiting s \<and> xEfcpImapTable s' = xEfcpImapTable s
      \<and> xFlowRequestTable s' = xFlowRequestTable s"
    using d by (simp add: destroy_def xDuDestroy_def vReleaseNetworkBufferAndDescriptor_def du_id_def waiting_def)
  show ?thesis
  proof (cases ok)
    case True
    from post_ready[OF t(5), of du] obtain s' where
      s': "xFlowAllocatorDuPost (cn_xPortId (pxConnection e')) du t = Some (True, s')"
      "flow_ready (cn_xPortId (pxConnection e)) s'"
      "waiting s' = insert_second (pxNetworkBuffer du) (waiting t)"
      "free_desc s' = free_desc t" "xEfcpImapTable s' = xEfcpImapTable t"
      unfolding port by blast
    have "xDtpReceive x du s = Some (True, s')"
      using True a e(1) p n same s'(1) t(1)
      by (auto simp: xDtpReceive_def dtp_accept_def Let_def xDtpPduPost_def xEfcpEnqueue_def
          t_def e'_def sv_update_def split: if_splits)
    then show ?thesis
      using s' t True efcp_at_cong[OF s'(5)] by (auto simp: e'_def)
  next
    case False
    then have sv: "sv = pxDtpStateVector e" using a by (auto simp: dtp_accept_def split: if_splits)
    obtain r where "xDtpReceive x du s = destroy_and r du s"
      using False a e(1) p n by (auto simp: xDtpReceive_def dtp_accept_def Let_def split: if_splits)
    with dest False sv e(1) show ?thesis
      using f by (auto simp: destroy_and_def efcp_at_def flow_ready_def)
  qed
qed

lemma dtp_split_append:
  "dtp_split sv (xs @ ys) =
     (let (d1, r1, sv1) = dtp_split sv xs; (d2, r2, sv2) = dtp_split sv1 ys in (d1 @ d2, r1 @ r2, sv2))"
  by (induction xs arbitrary: sv) (auto simp: Let_def case_prod_beta split: prod.splits)

lemma dtp_split_old:
  "\<not> xDrfRequired sv \<Longrightarrow> \<forall>du\<in>set dus. du_sn du \<le> xRcvLeftWindowEdge sv \<Longrightarrow> dtp_split sv dus = ([], dus, sv)"
  by (induction dus) (auto simp: dtp_accept_def du_sn_def)

lemma dtp_split_gap:
  "\<not> xDrfRequired sv \<Longrightarrow> \<forall>du\<in>set dus. du_sn du \<noteq> xRcvLeftWindowEdge sv + 1 \<Longrightarrow>
   dtp_split sv dus = (filter (\<lambda>du. xRcvLeftWindowEdge sv < du_sn du) dus,
     filter (\<lambda>du. du_sn du \<le> xRcvLeftWindowEdge sv) dus, sv)"
  by (induction dus) (auto simp: dtp_accept_def du_sn_def not_le not_less)

lemma dtp_split_consecutive:
  assumes "\<not> xDrfRequired sv" "\<forall>i<length dus. du_sn (dus ! i) = xRcvLeftWindowEdge sv + 1 + word_of_nat i"
    and "unat (xRcvLeftWindowEdge sv) + length dus < 2 ^ 32"
  shows "dtp_split sv dus
    = (dus, [], sv \<lparr> xRcvLeftWindowEdge := xRcvLeftWindowEdge sv + word_of_nat (length dus) \<rparr>)"
  using assms
proof (induction dus arbitrary: sv)
  case (Cons du dus)
  let ?sv = "sv \<lparr> xRcvLeftWindowEdge := xRcvLeftWindowEdge sv + 1 \<rparr>"
  have sn: "du_sn du = xRcvLeftWindowEdge sv + 1" using Cons.prems(2) by auto
  have u: "unat (xRcvLeftWindowEdge sv + 1) = unat (xRcvLeftWindowEdge sv) + 1"
    using Cons.prems(3) by (subst unat_add_lem[THEN iffD1]) simp_all
  have gt: "\<not> xRcvLeftWindowEdge sv + 1 \<le> xRcvLeftWindowEdge sv" using u by (simp add: word_le_nat_alt)
  have acc: "dtp_accept sv (the (pxPci du)) = (True, ?sv)"
    using sn gt Cons.prems(1) by (simp add: dtp_accept_def du_sn_def)
  have "dtp_split ?sv dus
      = (dus, [], ?sv \<lparr> xRcvLeftWindowEdge := xRcvLeftWindowEdge ?sv + word_of_nat (length dus) \<rparr>)"
    using Cons.prems u by (intro Cons.IH) (auto simp: nth_Cons' algebra_simps dest: spec[of _ "Suc _"])
  then show ?case by (simp add: acc algebra_simps)
qed simp

section \<open>Sequences of units\<close>

lemma receive_all_splits:
  assumes "efcp_at x s = Some e" "x < length (xEfcpImapTable s)" "\<forall>du\<in>set dus. pxPci du \<noteq> None"
    and "flow_ready (cn_xPortId (pxConnection e)) s"
    and "distinct (map du_id dus)" "set (map du_id dus) \<inter> set (free_desc s) = {}"
    and "dtp_split (pxDtpStateVector e) dus = (del, drp, sv)"
  shows "\<exists>s'. receive_all x dus s = Some s'
    \<and> waiting s' = fold insert_second (map pxNetworkBuffer del) (waiting s)
    \<and> free_desc s' = rev (map du_id drp) @ free_desc s
    \<and> efcp_at x s' = Some (e \<lparr> pxDtpStateVector := sv \<rparr>)"
  using assms
proof (induction dus arbitrary: s e del drp sv)
  case (Cons du dus)
  obtain p where p: "pxPci du = Some p" using Cons.prems(3) by auto
  obtain ok sv1 where a: "dtp_accept (pxDtpStateVector e) p = (ok, sv1)" by force
  obtain del1 drp1 sv2 where d: "dtp_split sv1 dus = (del1, drp1, sv2)" by (metis prod_cases3)
  have ident: "du_id du \<notin> set (free_desc s)" using Cons.prems(6) by auto
  obtain r s1 where s1: "xDtpReceive x du s = Some (r, s1)" "flow_ready (cn_xPortId (pxConnection e)) s1"
    "waiting s1 = (if ok then insert_second (pxNetworkBuffer du) (waiting s) else waiting s)"
    "free_desc s1 = (if ok then free_desc s else du_id du # free_desc s)"
    "efcp_at x s1 = Some (e \<lparr> pxDtpStateVector := sv1 \<rparr>)"
    "length (xEfcpImapTable s1) = length (xEfcpImapTable s)"
    using xDtpReceive_step[OF Cons.prems(1,2) p Cons.prems(4) ident a] by blast
  have "set (map du_id dus) \<inter> set (free_desc s1) = {}"
    using Cons.prems(5,6) s1(4) by (auto split: if_splits)
  moreover have "dtp_split (pxDtpStateVector (e \<lparr> pxDtpStateVector := sv1 \<rparr>)) dus = (del1, drp1, sv2)"
    using d by simp
  ultimately obtain s' where s': "receive_all x dus s1 = Some s'"
    "waiting s' = fold insert_second (map pxNetworkBuffer del1) (waiting s1)"
    "free_desc s' = rev (map du_id drp1) @ free_desc s1"
    "efcp_at x s' = Some (e \<lparr> pxDtpStateVector := sv2 \<rparr>)"
    using Cons.IH[OF s1(5)] Cons.prems(2,3,5) s1(2,6) by auto
  show ?case
    using Cons.prems(7) s1 s' p a d by (auto split: if_splits)
qed simp

section \<open>Properties\<close>

text \<open>C10: On an allocated flow \<open>xDtpReceive\<close> defines a result for every sequence of
  units with distinct descriptors in use: exactly the units that \<open>dtp_split\<close> delivers
  are in the list of waiting packets (inserted as \<open>vRsListInsert\<close> does), exactly the
  descriptors of the others are back in the pool, and the state vector of the
  connection is the one of \<open>dtp_split\<close>.\<close>

theorem dtp_receive_all:
  assumes "efcp_at x s = Some e" "x < length (xEfcpImapTable s)" "\<forall>du\<in>set dus. pxPci du \<noteq> None"
    and "flow_ready (cn_xPortId (pxConnection e)) s"
    and "distinct (map du_id dus)" "set (map du_id dus) \<inter> set (free_desc s) = {}"
    and "dtp_split (pxDtpStateVector e) dus = (del, drp, sv)"
  shows "\<exists>s'. receive_all x dus s = Some s'
    \<and> waiting s' = fold insert_second (map pxNetworkBuffer del) (waiting s)
    \<and> free_desc s' = rev (map du_id drp) @ free_desc s
    \<and> efcp_at x s' = Some (e \<lparr> pxDtpStateVector := sv \<rparr>)"
  using receive_all_splits[OF assms] .

definition ex_du :: "nat \<Rightarrow> u8 \<Rightarrow> u32 \<Rightarrow> du_t" where
  "ex_du i fl sn = \<lparr> pxPci = Some ((ex_pci PDU_TYPE_DT 1) \<lparr> pci_xFlags := fl, xSequenceNumber := sn \<rparr>),
     pxNetworkBuffer = ex_nb i None None 16 2 \<rparr>"

definition ex_efcp :: efcp_t where
  "ex_efcp = \<lparr> efcp_xState = eEfcpAllocated,
     pxConnection = \<lparr> cn_xPortId = 33, xSourceAddress = 1, xDestinationAddress = 3, xSourceCepId = 1,
                      xDestinationCepId = 1, cn_xQosId = 1 \<rparr>,
     pxDtpStateVector = pxDtpStateVectorInit, efcp_freed = False \<rparr>"

definition ex_fai :: flowAllocatorInstance_t where
  "ex_fai = \<lparr> eFaiState = eFAI_ALLOCATED, fai_xPortId = 33,
     pxFlowAllocatorHandle = \<lparr> xListWaitingPackets = [], nEventBits = 0 \<rparr> \<rparr>"

definition ex_plane :: dplane where
  "ex_plane = \<lparr> free_desc = [0], xEfcpImapTable = snd (xEfcpImapAdd 1 ex_efcp xEfcpImapCreate),
     xFlowRequestTable = [\<lparr> fr_xValid = True, pxFAI = Some ex_fai \<rparr>],
     xPortIdTable0 = None, rmt_pxN1Port = N1Junk True, xAddresses = [], xFlowsList = [],
     net_tx = [] \<rparr>"

lemma ex_plane_efcp: "efcp_at 0 ex_plane = Some ex_efcp" "0 < length (xEfcpImapTable ex_plane)"
  by (simp_all add: efcp_at_def ex_plane_def xEfcpImapAdd_def xEfcpImapCreate_def EFCP_IMAP_ENTRIES_def
      numeral_3_eq_3 ex_efcp_def)

lemma ex_plane_ready: "flow_ready 33 ex_plane"
  by (simp add: flow_ready_def ex_plane_def ex_fai_def is_port_id_ok_def)

theorem dtp_receive_all_witness:
  "\<exists>s'. receive_all 0 [ex_du 5 0x80 1, ex_du 6 0 3, ex_du 7 0 1] ex_plane = Some s'
     \<and> map nb_id (waiting s') = [5, 6] \<and> free_desc s' = [7, 0]"
proof -
  let ?dus = "[ex_du 5 0x80 1, ex_du 6 0 3, ex_du 7 0 1]"
  have f: "flow_ready (cn_xPortId (pxConnection ex_efcp)) ex_plane"
    using ex_plane_ready by (simp add: ex_efcp_def)
  have d: "dtp_split (pxDtpStateVector ex_efcp) ?dus = ([ex_du 5 0x80 1, ex_du 6 0 3], [ex_du 7 0 1],
      pxDtpStateVectorInit \<lparr> xDrfRequired := False, xRcvLeftWindowEdge := 1 \<rparr>)"
    by (simp add: ex_efcp_def pxDtpStateVectorInit_def ex_du_def dtp_accept_def PDU_FLAGS_DATA_RUN_def
        word_le_nat_alt)
  have "waiting ex_plane = []" by (simp add: waiting_def ex_plane_def ex_fai_def)
  then show ?thesis
    using dtp_receive_all[OF ex_plane_efcp _ f _ _ d] by (auto simp: ex_du_def du_id_def ex_nb_def ex_plane_def)
qed

lemma dtp_split_run:
  assumes "xDrfRequired sv" "pxPci du = Some p" "pci_xFlags p AND PDU_FLAGS_DATA_RUN \<noteq> 0"
    and "\<forall>i<length dus. du_sn (dus ! i) = xSequenceNumber p + 1 + word_of_nat i"
    and "unat (xSequenceNumber p) + length dus < 2 ^ 32" "du_sn ` set dups \<subseteq> du_sn ` set (du # dus)"
  shows "\<exists>sv'. dtp_split sv (du # dus @ dups) = (du # dus, dups, sv')"
proof -
  let ?n = "xSequenceNumber p"
  let ?sv1 = "sv \<lparr> xDrfRequired := False, xRcvLeftWindowEdge := ?n \<rparr>"
  let ?sv2 = "?sv1 \<lparr> xRcvLeftWindowEdge := ?n + word_of_nat (length dus) \<rparr>"
  have a: "dtp_accept sv p = (True, ?sv1)" using assms(1,3) by (simp add: dtp_accept_def)
  have c: "dtp_split ?sv1 dus = (dus, [], ?sv2)"
    using dtp_split_consecutive[of ?sv1 dus] assms(4,5) by simp
  have un: "unat (?n + word_of_nat k) = unat ?n + k" if "k \<le> length dus" for k
    using that assms(5) unat_of_nat[of k, where 'a = 32] unat_add_lem[of ?n "word_of_nat k"] by simp
  have "du_sn v \<le> ?n + word_of_nat (length dus)" if "v \<in> set (du # dus)" for v
  proof (cases "v = du")
    case True
    then show ?thesis using un[of "length dus"] assms(2) by (simp add: du_sn_def word_le_nat_alt)
  next
    case False
    then have "v \<in> set dus" using that by simp
    then obtain i where i: "i < length dus" "v = dus ! i" unfolding in_set_conv_nth by blast
    then have "du_sn v = ?n + word_of_nat (Suc i)" using assms(4) by (simp add: algebra_simps)
    then show ?thesis using un[of "Suc i"] un[of "length dus"] i(1) by (simp add: word_le_nat_alt)
  qed
  then have "dtp_split ?sv2 dups = ([], dups, ?sv2)"
    using assms(6) by (intro dtp_split_old) auto
  then show ?thesis using a c assms(2) by (simp add: dtp_split_append)
qed

text \<open>Units that start with the data run flag and are numbered consecutively are all
  delivered by \<open>xDtpReceive\<close>, in order and once: any repetition of them that follows, in
  descriptors of its own, is dropped and its descriptor back in the pool.\<close>

theorem dtp_in_order_once:
  assumes "efcp_at x s = Some e" "x < length (xEfcpImapTable s)" "flow_ready (cn_xPortId (pxConnection e)) s"
    and "\<forall>v\<in>set (du # dus @ dups). pxPci v \<noteq> None" "distinct (map du_id (du # dus @ dups))"
    and "set (map du_id (du # dus @ dups)) \<inter> set (free_desc s) = {}"
    and "xDrfRequired (pxDtpStateVector e)" "pxPci du = Some p" "pci_xFlags p AND PDU_FLAGS_DATA_RUN \<noteq> 0"
    and "\<forall>i<length dus. du_sn (dus ! i) = xSequenceNumber p + 1 + word_of_nat i"
    and "unat (xSequenceNumber p) + length dus < 2 ^ 32" "du_sn ` set dups \<subseteq> du_sn ` set (du # dus)"
  shows "\<exists>s'. receive_all x (du # dus @ dups) s = Some s'
    \<and> waiting s' = fold insert_second (map pxNetworkBuffer (du # dus)) (waiting s)
    \<and> free_desc s' = rev (map du_id dups) @ free_desc s"
  using receive_all_splits[OF assms(1,2,4,3,5,6)] dtp_split_run[OF assms(7-12)] by metis

theorem dtp_in_order_once_witness:
  "\<exists>s'. receive_all 0 [ex_du 5 0x80 1, ex_du 6 0 2, ex_du 7 0 2] ex_plane = Some s'
     \<and> map nb_id (waiting s') = [5, 6] \<and> free_desc s' = [7, 0]"
proof -
  have f: "flow_ready (cn_xPortId (pxConnection ex_efcp)) ex_plane"
    using ex_plane_ready by (simp add: ex_efcp_def)
  have "waiting ex_plane = []" by (simp add: waiting_def ex_plane_def ex_fai_def)
  then show ?thesis
    using dtp_in_order_once[OF ex_plane_efcp f, of "ex_du 5 0x80 1" "[ex_du 6 0 2]" "[ex_du 7 0 2]" "the (pxPci (ex_du 5 0x80 1))"]
    by (auto simp: ex_du_def du_id_def du_sn_def ex_nb_def ex_plane_def ex_efcp_def pxDtpStateVectorInit_def
        PDU_FLAGS_DATA_RUN_def)
qed

text \<open>C36: Once a unit is lost the window stops: as long as no unit with the number after
  the left edge arrives, \<open>xDtpReceive\<close> leaves the state of the connection as it is and delivers
  every unit beyond the edge each time it arrives, repetitions and units out of order included.\<close>

theorem dtp_lost_unit:
  assumes "efcp_at x s = Some e" "x < length (xEfcpImapTable s)" "flow_ready (cn_xPortId (pxConnection e)) s"
    and "\<forall>du\<in>set dus. pxPci du \<noteq> None" "distinct (map du_id dus)" "set (map du_id dus) \<inter> set (free_desc s) = {}"
    and "\<not> xDrfRequired (pxDtpStateVector e)"
    and "\<forall>du\<in>set dus. du_sn du \<noteq> xRcvLeftWindowEdge (pxDtpStateVector e) + 1"
  shows "\<exists>s'. receive_all x dus s = Some s' \<and> efcp_at x s' = Some e
    \<and> waiting s' = fold insert_second
        (map pxNetworkBuffer (filter (\<lambda>du. xRcvLeftWindowEdge (pxDtpStateVector e) < du_sn du) dus)) (waiting s)
    \<and> free_desc s' = rev (map du_id (filter (\<lambda>du. du_sn du \<le> xRcvLeftWindowEdge (pxDtpStateVector e)) dus)) @ free_desc s"
  using receive_all_splits[OF assms(1,2,4,3,5,6) dtp_split_gap[OF assms(7,8)]] by simp blast

definition ex_lost :: efcp_t where
  "ex_lost = ex_efcp \<lparr> pxDtpStateVector := pxDtpStateVectorInit \<lparr> xDrfRequired := False, xRcvLeftWindowEdge := 1 \<rparr> \<rparr>"

definition ex_lost_plane :: dplane where
  "ex_lost_plane = ex_plane \<lparr> xEfcpImapTable := snd (xEfcpImapAdd 1 ex_lost xEfcpImapCreate) \<rparr>"

theorem dtp_lost_unit_witness:
  "\<exists>s'. receive_all 0 [ex_du 5 0 4, ex_du 6 0 3, ex_du 7 0 3, ex_du 8 0 1] ex_lost_plane = Some s'
     \<and> efcp_at 0 s' = Some ex_lost \<and> length (waiting s') = 3 \<and> free_desc s' = [8, 0]"
proof -
  have e: "efcp_at 0 ex_lost_plane = Some ex_lost" "0 < length (xEfcpImapTable ex_lost_plane)"
    by (simp_all add: efcp_at_def ex_lost_plane_def xEfcpImapAdd_def xEfcpImapCreate_def EFCP_IMAP_ENTRIES_def
        numeral_3_eq_3 ex_lost_def ex_efcp_def)
  have f: "flow_ready (cn_xPortId (pxConnection ex_lost)) ex_lost_plane"
    using ex_plane_ready by (simp add: ex_lost_def ex_efcp_def flow_ready_def ex_lost_plane_def)
  have "waiting ex_lost_plane = []" by (simp add: waiting_def ex_lost_plane_def ex_plane_def ex_fai_def)
  then show ?thesis
    using dtp_lost_unit[OF e f, of "[ex_du 5 0 4, ex_du 6 0 3, ex_du 7 0 3, ex_du 8 0 1]"]
    by (auto simp: ex_du_def du_id_def du_sn_def ex_nb_def ex_lost_plane_def ex_plane_def ex_lost_def
        word_le_nat_alt word_less_nat_alt)
qed

end
