(* ===== verification/Efcp_Paths.thy ===== *)
theory Efcp_Paths
  imports Dtp_Window
begin

text \<open>
  The sending path of the data plane, from \<open>xEfcpContainerWrite\<close> to the shim, and
  the table of EFCP instances behind it.
\<close>

lemma get_buffer_ok:
  assumes "free = i # rest" "\<And>k. storage env k" "0 < n"
  shows "pxGetNetworkBufferWithDescriptor (storage env) n free = Some (Some
    \<lparr> nb_id = i, pucEthernetBuffer = Some (fresh_buffer i (buffer_size n)), pucRinaBuffer = None,
      pucDataBuffer = None, xRinaDataLength = 0, xDataLength = buffer_size n \<rparr>, rest)"
  using assms by (simp add: pxGetNetworkBufferWithDescriptor_def Let_def)

text \<open>Encapsulation with a spare descriptor.\<close>

lemma xDuEncap_ok:
  assumes "pucEthernetBuffer (pxNetworkBuffer du) = Some d" "xDataLength (pxNetworkBuffer du) = length d"
    and "length d < 2 ^ 32 - 64" and "free = i # rest" "\<And>k. storage env k" "du_id du \<notin> set rest"
  shows "xDuEncap (storage env) du free = Some (True,
    \<lparr> pxPci = pci_parse (fresh_buffer i 14 @ d @ replicate (buffer_size (length d + 14) - length d - 14) 0),
      pxNetworkBuffer = \<lparr> nb_id = i,
        pucEthernetBuffer = Some (fresh_buffer i 14 @ d @ replicate (buffer_size (length d + 14) - length d - 14) 0),
        pucRinaBuffer = None, pucDataBuffer = None, xRinaDataLength = 0, xDataLength = length d + 14 \<rparr> \<rparr>,
    du_id du # rest)"
proof -
  have ge: "length d + 14 \<le> buffer_size (length d + 14)" using assms(3) by (intro buffer_size_ge) simp
  have n: "(length d + 14) mod 2 ^ 32 = length d + 14" using assms(3) by (intro mod_less) simp
  have g: "pxGetNetworkBufferWithDescriptor (storage env) (length d + 14) free = Some (Some
    \<lparr> nb_id = i, pucEthernetBuffer = Some (fresh_buffer i (buffer_size (length d + 14))), pucRinaBuffer = None,
      pucDataBuffer = None, xRinaDataLength = 0, xDataLength = buffer_size (length d + 14) \<rparr>, rest)"
    using get_buffer_ok[OF assms(4) assms(5), of "length d + 14"] by simp
  have r: "vReleaseNetworkBufferAndDescriptor (pxNetworkBuffer du) rest = Some (du_id du # rest)"
    using assms(6) by (simp add: vReleaseNetworkBufferAndDescriptor_def du_id_def)
  show ?thesis
    unfolding xDuEncap_def Let_def assms(2) n g
    using ge assms(1,2) r by (simp add: take_fresh_buffer drop_fresh_buffer)
qed

text \<open>A connection that can send: the port is bound and idle, the peer is remote.\<close>

definition port_idle :: "rmtN1Port_t \<Rightarrow> bool" where
  "port_idle p \<longleftrightarrow> plen (xStats p) = 0 \<and> \<not> uxBusy p \<and> n1_eState p \<noteq> eN1_PORT_STATE_DISABLED"

definition conn_remote :: "connection_t \<Rightarrow> bool" where
  "conn_remote c \<longleftrightarrow> xSourceAddress c \<noteq> xDestinationAddress c"

lemma xPciIsOk_dt: "xPciIsOk (Some (dt_header c sv n))"
  by (simp add: xPciIsOk_def dt_header_def pdu_type_is_ok_def)

text \<open>The port after a unit has been sent over it.\<close>

definition port_sent :: "bool \<Rightarrow> rmtN1Port_t \<Rightarrow> rmtN1Port_t" where
  "port_sent ret p = n1_stats (\<lambda>t. t \<lparr> txPdus := txPdus t + 1, txBytes := txBytes t + (if ret then 1 else 0) \<rparr>)
     (p \<lparr> uxBusy := False \<rparr>)"

lemma xRmtSend_ok:
  assumes "xPciIsOk (pxPci du)" "rmt_pxN1Port s = N1Table" "xPortIdTable0 s = Some p" "port_idle p"
  shows "xRmtSend env du s = do {
    (ret, tx, free) \<leftarrow> duWrite env (n1_xPortId p) du (net_tx s) (free_desc s);
    Some (True, s \<lparr> free_desc := free, net_tx := tx, xPortIdTable0 := Some (port_sent ret p) \<rparr>) }"
proof (cases "duWrite env (n1_xPortId p) du (net_tx s) (free_desc s)")
  case None
  then show ?thesis
    using assms by (simp add: xRmtSend_def xRmtSendPortId_def port_idle_def xRmtN1PortWriteDu_def port_put_def)
next
  case (Some a)
  then show ?thesis
    using assms by (cases a)
      (auto simp: xRmtSend_def xRmtSendPortId_def port_idle_def xRmtN1PortWriteDu_def port_put_def port_sent_def)
qed

text \<open>A write that reaches the shim: what it is called with and what follows.\<close>

lemma efcp_write_unit:
  assumes "pxEfcpImapFind cep (xEfcpImapTable s) = (Some x, xEfcpImapTable s)" "is_cep_id_ok cep"
    and e: "efcp_at x s = Some e" "x < length (xEfcpImapTable s)" "efcp_xState e = eEfcpAllocated"
    and "conn_remote (pxConnection e)"
    and du: "pucEthernetBuffer (pxNetworkBuffer du) = Some d" "xDataLength (pxNetworkBuffer du) = length d"
      "length d < 2 ^ 32 - 64"
    and pool: "free_desc s = i # rest" "\<And>k. storage env k" "du_id du \<notin> set rest"
    and port: "rmt_pxN1Port s = N1Table" "xPortIdTable0 s = Some p" "port_idle p"
  obtains u t pad where
    "pxPci u = Some (dt_header (pxConnection e) (next_seq (pxDtpStateVector e)) (length d + 14))"
    "pucEthernetBuffer (pxNetworkBuffer u) = Some
        (pci_bytes (dt_header (pxConnection e) (next_seq (pxDtpStateVector e)) (length d + 14)) @ d @ pad)"
    "xDataLength (pxNetworkBuffer u) = length d + 14" "du_id u = i"
    "efcp_at x t = Some (sv_update next_seq e)"
    "t = s \<lparr> xEfcpImapTable := xEfcpImapTable t, free_desc := du_id du # rest \<rparr>"
    "xEfcpContainerWrite env cep du s = do {
       (ret, tx, free) \<leftarrow> duWrite env (n1_xPortId p) u (net_tx s) (du_id du # rest);
       Some (True, t \<lparr> free_desc := free, net_tx := tx, xPortIdTable0 := Some (port_sent ret p) \<rparr>) }"
proof -
  let ?pad = "replicate (buffer_size (length d + 14) - length d - 14) 0"
  let ?e = "sv_update next_seq e"
  let ?h = "dt_header (pxConnection ?e) (pxDtpStateVector ?e) (length d + 14)"
  define v where "v = \<lparr> pxPci = pci_parse (fresh_buffer i 14 @ d @ ?pad),
      pxNetworkBuffer = \<lparr> nb_id = i, pucEthernetBuffer = Some (fresh_buffer i 14 @ d @ ?pad),
        pucRinaBuffer = None, pucDataBuffer = None, xRinaDataLength = 0, xDataLength = length d + 14 \<rparr> \<rparr>"
  define u where "u = pci_write ?h v"
  define t where "t = efcp_put x ?e (s \<lparr> free_desc := du_id du # rest \<rparr>)"
  have enc: "xDuEncap (storage env) du (free_desc s) = Some (True, v, du_id du # rest)"
    using xDuEncap_ok[OF du pool] by (simp add: v_def)
  have u: "pxPci u = Some ?h" "xDataLength (pxNetworkBuffer v) = length d + 14"
    "pucEthernetBuffer (pxNetworkBuffer u) = Some (pci_bytes ?h @ d @ ?pad)"
    "xDataLength (pxNetworkBuffer u) = length d + 14" "du_id u = i"
    by (simp_all add: u_def v_def pci_write_def du_id_def)
  have h: "?h = dt_header (pxConnection e) (next_seq (pxDtpStateVector e)) (length d + 14)"
    by (simp add: sv_update_def)
  have rem: "pci_xSource ?h \<noteq> pci_xDestination ?h"
    using assms(6) by (simp add: dt_header_def conn_remote_def sv_update_def)
  have t: "rmt_pxN1Port t = N1Table" "xPortIdTable0 t = Some p" "free_desc t = du_id du # rest" "net_tx t = net_tx s"
    using port by (simp_all add: t_def efcp_put_def)
  have nf: "\<not> efcp_freed ?e" using efcp_at_not_freed[OF e(1)] by (simp add: sv_update_def)
  have at: "efcp_at x (s \<lparr> free_desc := du_id du # rest \<rparr>) = Some e"
    using e(1) by (simp add: efcp_at_def)
  have "xDtpWrite env x du s = xRmtSend env u t"
    using enc at rem u(1,2) xPciIsOk_dt
    by (simp add: xDtpWrite_def xDtpPduSend_def Let_def u_def[symmetric] t_def[symmetric] split: Option.bind_splits)
  moreover have "imap_find cep s = (Some x, s)" using assms(1) by (simp add: imap_find_def)
  ultimately have w: "xEfcpContainerWrite env cep du s = do {
       (ret, tx, free) \<leftarrow> duWrite env (n1_xPortId p) u (net_tx s) (du_id du # rest);
       Some (True, t \<lparr> free_desc := free, net_tx := tx, xPortIdTable0 := Some (port_sent ret p) \<rparr>) }"
    using assms(2) e xRmtSend_ok[of u t p env] u(1) t port(3) xPciIsOk_dt
    by (simp add: xEfcpContainerWrite_def xEfcpWrite_def)
  have "t = s \<lparr> xEfcpImapTable := xEfcpImapTable t, free_desc := du_id du # rest \<rparr>"
    by (simp add: t_def efcp_put_def)
  then show ?thesis
    using that[of u ?pad t] u w efcp_at_put[OF at _ nf] e(2) unfolding h by (simp add: t_def)
qed

text \<open>C11: Writing \<open>d\<close> into a connection with a remote peer over an idle port, with a spare
  descriptor: the shim is called once, with a unit whose bytes are the header of the
  connection with the next sequence number, followed by \<open>d\<close>; the number wraps at 32
  bits.  The write then reports success whatever the shim answered.\<close>

theorem efcp_write_wire:
  assumes "pxEfcpImapFind cep (xEfcpImapTable s) = (Some x, xEfcpImapTable s)" "is_cep_id_ok cep"
    and e: "efcp_at x s = Some e" "x < length (xEfcpImapTable s)" "efcp_xState e = eEfcpAllocated"
    and "conn_remote (pxConnection e)"
    and du: "pucEthernetBuffer (pxNetworkBuffer du) = Some d" "xDataLength (pxNetworkBuffer du) = length d"
      "length d < 2 ^ 32 - 64"
    and pool: "free_desc s = i # rest" "\<And>k. storage env k" "du_id du \<notin> set rest"
    and port: "rmt_pxN1Port s = N1Table" "xPortIdTable0 s = Some p" "port_idle p"
    and shim: "\<And>u tx free. duWrite env (n1_xPortId p) u tx free = Some (ok u free, sent u tx free, fr u free)"
  shows "\<exists>u s' pad. xEfcpContainerWrite env cep du s = Some (True, s')
    \<and> pucEthernetBuffer (pxNetworkBuffer u) = Some
        (pci_bytes (dt_header (pxConnection e) (next_seq (pxDtpStateVector e)) (length d + 14)) @ d @ pad)
    \<and> xDataLength (pxNetworkBuffer u) = length d + 14 \<and> du_id u = i
    \<and> free_desc s' = fr u (du_id du # rest) \<and> net_tx s' = sent u (net_tx s) (du_id du # rest)
    \<and> efcp_at x s' = Some (sv_update next_seq e)"
proof -
  obtain u t pad where u: "pucEthernetBuffer (pxNetworkBuffer u) = Some
        (pci_bytes (dt_header (pxConnection e) (next_seq (pxDtpStateVector e)) (length d + 14)) @ d @ pad)"
    "xDataLength (pxNetworkBuffer u) = length d + 14" "du_id u = i" "efcp_at x t = Some (sv_update next_seq e)"
    and w: "xEfcpContainerWrite env cep du s = do {
       (ret, tx, free) \<leftarrow> duWrite env (n1_xPortId p) u (net_tx s) (du_id du # rest);
       Some (True, t \<lparr> free_desc := free, net_tx := tx, xPortIdTable0 := Some (port_sent ret p) \<rparr>) }"
    by (rule efcp_write_unit[OF assms(1-15)]) blast
  have "efcp_at x (t \<lparr> free_desc := f, net_tx := q, xPortIdTable0 := r \<rparr>) = efcp_at x t" for f q r
    by (rule efcp_at_cong) simp
  then show ?thesis
    using u w by (intro exI[of _ u] exI[of _ "t \<lparr> free_desc := fr u (du_id du # rest),
      net_tx := sent u (net_tx s) (du_id du # rest),
      xPortIdTable0 := Some (port_sent (ok u (du_id du # rest)) p) \<rparr>"] exI[of _ pad]) (simp add: shim)
qed

definition ex_env :: denv where
  "ex_env = \<lparr> storage = (\<lambda>_. True), duWrite = (\<lambda>_ u tx free. Some (False, tx, du_id u # free)),
     junk_ptr = False, junk_cep = 0 \<rparr>"

definition ex_bound :: dplane where
  "ex_bound = ex_plane \<lparr> xPortIdTable0 := Some (pxRmtN1PortCreate 1), rmt_pxN1Port := N1Table \<rparr>"

theorem efcp_write_wire_witness:
  "\<exists>(u::du_t) s' pad. xEfcpContainerWrite ex_env 1
       \<lparr> pxPci = None, pxNetworkBuffer = ex_nb 4 (Some [10, 11, 12]) None 0 3 \<rparr> ex_bound = Some (True, s')
     \<and> pucEthernetBuffer (pxNetworkBuffer u) = Some
         (pci_bytes (dt_header (pxConnection ex_efcp) (next_seq pxDtpStateVectorInit) 17) @ [10, 11, 12] @ pad)
     \<and> free_desc s' = [0, 4]"
proof -
  let ?du = "\<lparr> pxPci = None, pxNetworkBuffer = ex_nb 4 (Some [10, 11, 12]) None 0 3 \<rparr>"
  have f: "pxEfcpImapFind 1 (xEfcpImapTable ex_bound) = (Some 0, xEfcpImapTable ex_bound)"
    by (simp add: ex_bound_def ex_plane_def xEfcpImapAdd_def xEfcpImapCreate_def EFCP_IMAP_ENTRIES_def
        numeral_3_eq_3 pxEfcpImapFind_def)
  have e: "efcp_at 0 ex_bound = Some ex_efcp" "0 < length (xEfcpImapTable ex_bound)"
    using ex_plane_efcp by (simp_all add: ex_bound_def efcp_at_def)
  have "conn_remote (pxConnection ex_efcp)"
    "efcp_xState ex_efcp = eEfcpAllocated" "pxDtpStateVector ex_efcp = pxDtpStateVectorInit"
    by (simp_all add: ex_efcp_def conn_remote_def)
  moreover have "pucEthernetBuffer (pxNetworkBuffer ?du) = Some [10, 11, 12]"
    "xDataLength (pxNetworkBuffer ?du) = length [10::u8, 11, 12]" "du_id ?du = 4"
    by (simp_all add: ex_nb_def du_id_def)
  moreover have "free_desc ex_bound = [0]" "rmt_pxN1Port ex_bound = N1Table"
    "xPortIdTable0 ex_bound = Some (pxRmtN1PortCreate 1)" "port_idle (pxRmtN1PortCreate 1)"
    by (simp_all add: ex_bound_def ex_plane_def port_idle_def pxRmtN1PortCreate_def)
  moreover have "storage ex_env k" "duWrite ex_env q u tx fr = Some (False, tx, du_id u # fr)" for k q u tx fr
    by (simp_all add: ex_env_def)
  ultimately obtain u s' pad where "xEfcpContainerWrite ex_env 1 ?du ex_bound = Some (True, s')"
    "pucEthernetBuffer (pxNetworkBuffer u) = Some (pci_bytes (dt_header (pxConnection ex_efcp)
       (next_seq pxDtpStateVectorInit) (length [10::u8, 11, 12] + 14)) @ [10, 11, 12] @ pad)"
    "du_id u = 0" "free_desc s' = du_id u # [4]"
    using efcp_write_wire[OF f _ e, of ?du "[10, 11, 12]" 0 "[]" ex_env "pxRmtN1PortCreate 1"
      "\<lambda>_ _. False" "\<lambda>_ tx _. tx" "\<lambda>u free. du_id u # free"] by (auto simp: is_cep_id_ok_def)
  then show ?thesis by - (rule exI[of _ u], rule exI[of _ s'], rule exI[of _ pad], simp)
qed

section \<open>One connection\<close>

text \<open>Every connection gets the endpoint id 1 and row 0: creating one and then a
  second is, in result and state, the same as creating only the second.\<close>

theorem efcp_one_connection:
  assumes "is_port_id_ok port1" "is_port_id_ok port2"
  shows "(do { (c1, s1) \<leftarrow> xEfcpConnectionCreate env src1 dst1 port1 qos1 sc1 dc1 s;
               xEfcpConnectionCreate env src2 dst2 port2 qos2 sc2 dc2 s1 })
       = xEfcpConnectionCreate env src2 dst2 port2 qos2 sc2 dc2 s
    \<and> (\<exists>s2. xEfcpConnectionCreate env src2 dst2 port2 qos2 sc2 dc2 s = Some (1, s2)
         \<and> (0 < length (xEfcpImapTable s) \<longrightarrow> (\<exists>e. efcp_at 0 s2 = Some e \<and> cn_xPortId (pxConnection e) = port2)))"
  using assms
  by (auto simp: xEfcpConnectionCreate_def Let_def is_candidate_connection_ok_def is_cep_id_ok_def
      xEfcpImapAdd_def efcp_at_def)

theorem efcp_one_connection_witness:
  "xEfcpConnectionCreate ex_env 1 3 34 1 255 255 ex_plane
     = (do { (c1, s1) \<leftarrow> xEfcpConnectionCreate ex_env 1 3 33 1 255 255 ex_plane;
             xEfcpConnectionCreate ex_env 1 3 34 1 255 255 s1 })"
  using efcp_one_connection[of 33 34 ex_env 1 3 1 255 255 ex_plane 1 3 1 255 255]
  by (simp add: is_port_id_ok_def)

text \<open>\<open>xEfcpConnectionDestroy\<close> always answers false.  When it finds an instance, its
  row is cleared all the same, the instance is neither marked nor destroyed, and a later
  write to the endpoint is refused and its unit destroyed.\<close>

theorem efcp_destroy_refused:
  assumes "is_cep_id_ok cep" "cep \<noteq> 0" "first_ix (\<lambda>r. xCepIdKey r = cep) (xEfcpImapTable s) = Some x"
    and "xEfcpValue (xEfcpImapTable s ! x) \<noteq> None"
    and "\<forall>y<length (xEfcpImapTable s). xCepIdKey (xEfcpImapTable s ! y) = cep \<longrightarrow> y = x"
  shows "\<exists>s'. xEfcpConnectionDestroy env cep s = Some (False, s')
    \<and> xEfcpImapTable s' = (xEfcpImapTable s)[x := \<lparr> xCepIdKey = 0, xEfcpValue = None, ucValid = 0 \<rparr>]
    \<and> free_desc s' = free_desc s
    \<and> xEfcpContainerWrite env cep du s' = destroy_and False du s'"
proof -
  let ?t = "xEfcpImapTable s"
  let ?t1 = "?t[x := (?t ! x) \<lparr> ucValid := 1 \<rparr>]"
  let ?null = "\<lparr> xCepIdKey = 0, xEfcpValue = None, ucValid = 0 \<rparr>"
  have x: "x < length ?t" "xCepIdKey (?t ! x) = cep"
    using first_ix_less[OF assms(3)] first_ix_holds[OF assms(3)] by simp_all
  have "first_ix (\<lambda>r. xCepIdKey r = cep) ?t1 = Some x"
    using assms(3) x unfolding first_ix_Some by (auto simp: nth_list_update)
  then have r: "xEfcpImapRemove cep ?t1 = (True, ?t[x := ?null])"
    by (simp add: xEfcpImapRemove_def)
  have "first_ix (\<lambda>r. xCepIdKey r = cep) (?t[x := ?null]) = None"
    unfolding first_ix_None
  proof (intro ballI notI)
    fix r
    assume "r \<in> set (?t[x := ?null])" "xCepIdKey r = cep"
    then obtain i where "i < length ?t" "xCepIdKey (?t[x := ?null] ! i) = cep"
      by (auto simp: set_conv_nth)
    then show False using assms(2,5) by (cases "i = x") auto
  qed
  then have f2: "imap_find cep (s \<lparr> xEfcpImapTable := ?t[x := ?null] \<rparr>) = (None, s \<lparr> xEfcpImapTable := ?t[x := ?null] \<rparr>)"
    by (simp add: imap_find_def pxEfcpImapFind_def)
  have f1: "imap_find cep s = (Some x, s \<lparr> xEfcpImapTable := ?t1 \<rparr>)"
    using assms(3,4) by (simp add: imap_find_def pxEfcpImapFind_def)
  have "xEfcpConnectionDestroy env cep s = Some (False, s \<lparr> xEfcpImapTable := ?t[x := ?null] \<rparr>)"
    using assms(1) r by (simp add: xEfcpConnectionDestroy_def f1)
  then show ?thesis
    using assms(1) f2 by (simp add: xEfcpContainerWrite_def)
qed

theorem efcp_destroy_refused_witness:
  "\<exists>s'. xEfcpConnectionDestroy ex_env 1 ex_plane = Some (False, s')
     \<and> xEfcpContainerWrite ex_env 1 (ex_du 4 0 0) s' = destroy_and False (ex_du 4 0 0) s'"
proof -
  have t: "xEfcpImapTable ex_plane = [\<lparr> xCepIdKey = 1, xEfcpValue = Some ex_efcp, ucValid = 1 \<rparr>,
      \<lparr> xCepIdKey = 0, xEfcpValue = None, ucValid = 0 \<rparr>, \<lparr> xCepIdKey = 0, xEfcpValue = None, ucValid = 0 \<rparr>]"
    by (simp add: ex_plane_def xEfcpImapAdd_def xEfcpImapCreate_def EFCP_IMAP_ENTRIES_def numeral_3_eq_3)
  show ?thesis
    using efcp_destroy_refused[of 1 ex_plane 0 ex_env "ex_du 4 0 0"]
    by (simp add: t is_cep_id_ok_def  less_Suc_eq nth_Cons' numeral_3_eq_3) blast
qed

text \<open>An address added to the RMT is recognised once: the query frees the entry it
  finds, and asking for it again uses freed memory.\<close>

theorem rmt_address_once:
  assumes "xAddresses s = []"
  shows "\<exists>s1 s2. xRmtAddressAdd a s = (True, s1) \<and> xRmtPduIsAddressedToMe a s1 = Some (True, s2)
    \<and> xRmtPduIsAddressedToMe a s2 = None \<and> (b \<noteq> a \<longrightarrow> xRmtPduIsAddressedToMe b s1 = Some (False, s1))"
  using assms by (auto simp: xRmtAddressAdd_def xRmtPduIsAddressedToMe_def)

theorem rmt_address_once_witness:
  "\<exists>s1 s2. xRmtAddressAdd 1 ex_plane = (True, s1) \<and> xRmtPduIsAddressedToMe 1 s1 = Some (True, s2)
    \<and> xRmtPduIsAddressedToMe 1 s2 = None"
  using rmt_address_once[of ex_plane 1 2] by (auto simp: ex_plane_def)

end
