(* ===== verification/Ipcp_Normal.thy ===== *)
theory Ipcp_Normal
  imports Efcp_Paths
begin

text \<open>
  The normal IPC process (\<open>Ipcp/IPCP_ops.c\<close>): creation of the data plane, the
  list of flows, and the operations that the flow allocator, the RIB daemon and the
  stack task call.  The list of flows is a list of items inserted with
  \<open>vRsListInsert\<close>.
\<close>

section \<open>Creation\<close>

definition pxEfcpContainerCreate :: "efcpImapRow_t list" where
  "pxEfcpContainerCreate = xEfcpImapCreate"

text \<open>The RMT: an empty list of addresses, its port field not set.\<close>

definition pxRmtCreate :: "denv \<Rightarrow> rmtAddress_t list \<times> n1ptr" where
  "pxRmtCreate env = ([], N1Junk (junk_ptr env))"


definition pxIpcpCreate :: "denv \<Rightarrow> dplane" where
  "pxIpcpCreate env = \<lparr> free_desc = [0..<NUM_NETWORK_BUFFER_DESCRIPTORS],
     xEfcpImapTable = pxEfcpContainerCreate,
     xFlowRequestTable = replicate FLOWS_REQUEST \<lparr> fr_xValid = False, pxFAI = None \<rparr>,
     xPortIdTable0 = None, rmt_pxN1Port = snd (pxRmtCreate env), xAddresses = fst (pxRmtCreate env),
     xFlowsList = [], net_tx = [] \<rparr>"

section \<open>Flows\<close>

definition prvNormalFindFlow :: "u32 \<Rightarrow> dplane \<Rightarrow> nat option" where
  "prvNormalFindFlow port s = first_ix (\<lambda>f. nf_xPortId f = port) (xFlowsList s)"

definition prvFindFlowCepid :: "u8 \<Rightarrow> dplane \<Rightarrow> nat option" where
  "prvFindFlowCepid cep s = first_ix (\<lambda>f. xActive f = cep) (xFlowsList s)"

definition flow_put :: "nat \<Rightarrow> (normalFlow_t \<Rightarrow> normalFlow_t) \<Rightarrow> dplane \<Rightarrow> dplane" where
  "flow_put x f s = s \<lparr> xFlowsList := (xFlowsList s)[x := f (xFlowsList s ! x)] \<rparr>"

definition xNormalFlowPrebind :: "denv \<Rightarrow> u32 \<Rightarrow> dplane \<Rightarrow> bool \<times> dplane" where
  "xNormalFlowPrebind env port s =
     (True, s \<lparr> xFlowsList := insert_second
        \<lparr> nf_xPortId = port, nf_eState = ePORT_STATE_PENDING, xActive = junk_cep env \<rparr> (xFlowsList s) \<rparr>)"

definition xNormalUpdateFlowStatus :: "u32 \<Rightarrow> eNormalFlowState_t \<Rightarrow> dplane \<Rightarrow> bool \<times> dplane" where
  "xNormalUpdateFlowStatus port st s =
     (case prvNormalFindFlow port s of
        None \<Rightarrow> (False, s)
      | Some x \<Rightarrow> (True, flow_put x (\<lambda>f. f \<lparr> nf_eState := st \<rparr>) s))"

definition xNormalIsFlowAllocated :: "u32 \<Rightarrow> dplane \<Rightarrow> bool" where
  "xNormalIsFlowAllocated port s =
     (case prvNormalFindFlow port s of
        None \<Rightarrow> False
      | Some x \<Rightarrow> nf_eState (xFlowsList s ! x) = ePORT_STATE_ALLOCATED)"

definition xNormalUpdateCepIdFlow :: "u32 \<Rightarrow> u8 \<Rightarrow> dplane \<Rightarrow> bool \<times> dplane" where
  "xNormalUpdateCepIdFlow port cep s =
     (case prvNormalFindFlow port s of
        None \<Rightarrow> (False, s)
      | Some x \<Rightarrow> (True, flow_put x (\<lambda>f. f \<lparr> xActive := cep \<rparr>) s))"

section \<open>Connections\<close>

definition xNormalConnectionCreateRequest ::
  "denv \<Rightarrow> u32 \<Rightarrow> u8 \<Rightarrow> u8 \<Rightarrow> u8 \<Rightarrow> dplane \<Rightarrow> (u8 \<times> dplane) option" where
  "xNormalConnectionCreateRequest env port src dst qos s = do {
     (cep, s) \<leftarrow> xEfcpConnectionCreate env src dst port qos CEP_ID_WRONG CEP_ID_WRONG s;
     Some (if \<not> is_cep_id_ok cep then CEP_ID_WRONG else cep, s) }"

definition xNormalConnectionModify :: "denv \<Rightarrow> u8 \<Rightarrow> u8 \<Rightarrow> u8 \<Rightarrow> dplane \<Rightarrow> (bool \<times> dplane) option" where
  "xNormalConnectionModify env cep src dst s = xEfcpConnectionModify env cep src dst s"

definition xNormalConnectionUpdate :: "denv \<Rightarrow> u32 \<Rightarrow> u8 \<Rightarrow> u8 \<Rightarrow> dplane \<Rightarrow> (bool \<times> dplane) option" where
  "xNormalConnectionUpdate env port srcCep dstCep s = do {
     (r, s) \<leftarrow> xEfcpConnectionUpdate env srcCep dstCep s;
     Some (if \<not> r then (False, s) else xNormalUpdateFlowStatus port ePORT_STATE_ALLOCATED s) }"

definition xNormalConnectionDestroy :: "denv \<Rightarrow> u8 \<Rightarrow> dplane \<Rightarrow> (bool \<times> dplane) option" where
  "xNormalConnectionDestroy env cep s = do {
     (_, s) \<leftarrow> xEfcpConnectionDestroy env cep s;
     Some (prvFindFlowCepid cep s \<noteq> None, s) }"

definition xNormalFlowBinding :: "u32 \<Rightarrow> dplane \<Rightarrow> bool \<times> dplane" where
  "xNormalFlowBinding port s = xRmtN1PortBind port s"

section \<open>Writing\<close>

definition xNormalDuWrite :: "denv \<Rightarrow> u32 \<Rightarrow> NetworkBufferDescriptor_t \<Rightarrow> dplane \<Rightarrow> (bool \<times> dplane) option" where
  "xNormalDuWrite env port nb s =
     (let du = \<lparr> pxPci = None, pxNetworkBuffer = nb \<rparr> in
      case prvNormalFindFlow port s of
        None \<Rightarrow> destroy_and False du s
      | Some x \<Rightarrow>
          if nf_eState (xFlowsList s ! x) \<noteq> ePORT_STATE_ALLOCATED then destroy_and False du s
          else do { (r, s) \<leftarrow> xEfcpContainerWrite env (xActive (xFlowsList s ! x)) du s; Some (r, s) })"

definition mgmt_header :: "nat \<Rightarrow> pci_t" where
  "mgmt_header n = \<lparr> ucVersion = 1, pci_xDestination = 0, pci_xSource = LOCAL_ADDRESS_8, pci_xQosId = 1,
     pci_cepDestination = 0, pci_cepSource = 0, pci_xType = PDU_TYPE_MGMT, pci_xFlags = 0,
     xPduLen = word_of_nat n, xSequenceNumber = 0 \<rparr>"

definition xNormalMgmtDuWrite :: "denv \<Rightarrow> u32 \<Rightarrow> du_t \<Rightarrow> dplane \<Rightarrow> (bool \<times> dplane) option" where
  "xNormalMgmtDuWrite env port du s = do {
     (ok, du, free) \<leftarrow> xDuEncap (storage env) du (free_desc s);
     let s = s \<lparr> free_desc := free \<rparr>;
     if \<not> ok then destroy_and False du s
     else do {
       let du = pci_write (mgmt_header (xDataLength (pxNetworkBuffer du))) du;
       if port \<noteq> 0 then do { (r, s) \<leftarrow> xRmtSendPortId env port du s; Some (r, s) }
       else destroy_and False du s } }"

section \<open>The invariant of the data plane\<close>

text \<open>Row 0 of the instance table is the only one in use and its instance is alive; the
  requests of flows fill the table from row 0 on; a bound port is idle between calls.\<close>

definition efcp_ok :: "efcp_t option \<Rightarrow> bool" where
  "efcp_ok p = (case p of None \<Rightarrow> True | Some e \<Rightarrow> efcp_xState e = eEfcpAllocated \<and> \<not> efcp_freed e)"

definition imap_wf :: "efcpImapRow_t list \<Rightarrow> bool" where
  "imap_wf t \<longleftrightarrow> length t = EFCP_IMAP_ENTRIES \<and> efcp_ok (xEfcpValue (t ! 0))
     \<and> (\<forall>x<length t. 0 < x \<longrightarrow> xCepIdKey (t ! x) = 0 \<and> xEfcpValue (t ! x) = None)"

definition flows_wf :: "FlowRequestRow_t list \<Rightarrow> bool" where
  "flows_wf t \<longleftrightarrow> length t = FLOWS_REQUEST \<and> (\<forall>r\<in>set t. fr_xValid r \<longrightarrow> fr_xValid (t ! 0))
     \<and> (fr_xValid (t ! 0) \<longleftrightarrow> pxFAI (t ! 0) \<noteq> None)"

definition port_wf :: "rmtN1Port_t option \<Rightarrow> n1ptr \<Rightarrow> bool" where
  "port_wf p n \<longleftrightarrow> (case p of None \<Rightarrow> n \<noteq> N1Table | Some p \<Rightarrow> port_idle p)"

definition dp_inv :: "dplane \<Rightarrow> bool" where
  "dp_inv s \<longleftrightarrow> imap_wf (xEfcpImapTable s) \<and> flows_wf (xFlowRequestTable s) \<and> port_wf (xPortIdTable0 s) (rmt_pxN1Port s)"

lemma EFCP_IMAP_ENTRIES_pos: "0 < EFCP_IMAP_ENTRIES"
  by (simp add: EFCP_IMAP_ENTRIES_def)

lemma FLOWS_REQUEST_pos: "0 < FLOWS_REQUEST"
  by (simp add: FLOWS_REQUEST_def)

lemma dp_inv_boot: "dp_inv (pxIpcpCreate env)"
  by (simp add: dp_inv_def pxIpcpCreate_def pxEfcpContainerCreate_def xEfcpImapCreate_def imap_wf_def
      efcp_ok_def flows_wf_def port_wf_def pxRmtCreate_def EFCP_IMAP_ENTRIES_pos FLOWS_REQUEST_pos)

lemma dp_inv_free [simp]: "dp_inv (s \<lparr> free_desc := f \<rparr>) = dp_inv s"
  by (simp add: dp_inv_def)

lemma dp_inv_flows [simp]: "dp_inv (s \<lparr> xFlowsList := f \<rparr>) = dp_inv s"
  by (simp add: dp_inv_def)

lemma destroy_inv: "destroy du s = Some s' \<Longrightarrow> dp_inv s' = dp_inv s"
  by (auto simp: destroy_def split: Option.bind_splits)

lemma destroy_and_inv: "destroy_and r du s = Some (b, s') \<Longrightarrow> dp_inv s \<Longrightarrow> dp_inv s'"
  by (auto simp: destroy_and_def dest: destroy_inv split: Option.bind_splits)

lemma destroy_and_inv_free: "destroy_and r du (s \<lparr> free_desc := f \<rparr>) = Some (b, s') \<Longrightarrow> dp_inv s \<Longrightarrow> dp_inv s'"
  by (auto dest: destroy_and_inv)

lemma efcp_at_inv:
  assumes "dp_inv s" "efcp_at x s = Some e" "x < length (xEfcpImapTable s)"
  shows "x = 0" "efcp_ok (Some e)"
proof -
  have "xEfcpValue (xEfcpImapTable s ! x) = Some e"
    using assms(2) by (simp add: efcp_at_def split: option.splits if_splits)
  then show "x = 0" "efcp_ok (Some e)"
    using assms(1,3) by (cases x; force simp: dp_inv_def imap_wf_def)+
qed

lemma efcp_put_inv:
  assumes "dp_inv s" "efcp_ok (Some e)" "x = 0"
  shows "dp_inv (efcp_put x e s)"
  using assms EFCP_IMAP_ENTRIES_pos
  by (auto simp: dp_inv_def imap_wf_def efcp_put_def nth_list_update)

lemma imap_find_inv:
  assumes "dp_inv s" "imap_find key s = (px, s')"
  shows "dp_inv s'" "xFlowRequestTable s' = xFlowRequestTable s"
    "length (xEfcpImapTable s') = length (xEfcpImapTable s)"
    "px = Some x \<Longrightarrow> x < length (xEfcpImapTable s')"
proof -
  show "dp_inv s'"
    using assms
    by (auto simp: imap_find_def pxEfcpImapFind_def dp_inv_def imap_wf_def nth_list_update
        split: option.splits dest: first_ix_less)
  show "xFlowRequestTable s' = xFlowRequestTable s" "length (xEfcpImapTable s') = length (xEfcpImapTable s)"
    "px = Some x \<Longrightarrow> x < length (xEfcpImapTable s')"
    using assms(2)
    by (auto simp: imap_find_def pxEfcpImapFind_def split: option.splits if_splits dest: first_ix_less)
qed

lemma fa_scan_wf:
  assumes "flows_wf t" "set u \<subseteq> set t"
  shows "fa_scan port (pxFAI (t ! 0)) u \<noteq> None"
  using assms(2)
proof (induction u)
  case (Cons r rs)
  then show ?case
    using assms(1) by (auto simp: flows_wf_def split: option.splits)
qed simp

lemma find_instance_wf: "flows_wf t \<Longrightarrow> \<exists>p. pxFAFindInstance port t = Some p"
  using fa_scan_wf[of t t port] by (auto simp: pxFAFindInstance_def)

lemma fai_update_wf: "flows_wf t \<Longrightarrow> flows_wf (fai_update f t)"
  using FLOWS_REQUEST_pos
  by (auto simp: flows_wf_def fai_update_def dest!: subsetD[OF set_update_subset_insert])

lemma add_request_wf:
  assumes "flows_wf t"
  shows "flows_wf (prvAddFlowRequestEntry f t)"
proof (cases "first_ix (\<lambda>r. \<not> fr_xValid r) t")
  case (Some x)
  let ?t = "t[x := \<lparr> fr_xValid = True, pxFAI = Some f \<rparr>]"
  have x: "x < length t" "\<forall>j<x. fr_xValid (t ! j)" using first_ix_SomeD[OF Some] by auto
  have "fr_xValid (?t ! 0) \<and> pxFAI (?t ! 0) \<noteq> None"
    using x assms FLOWS_REQUEST_pos by (cases "x = 0") (auto simp: flows_wf_def)
  then show ?thesis using Some assms by (simp add: flows_wf_def prvAddFlowRequestEntry_def)
qed (use assms in \<open>simp add: prvAddFlowRequestEntry_def\<close>)

text \<open>Every operation keeps the invariant.\<close>

lemma post_inv:
  assumes "dp_inv s" "xFlowAllocatorDuPost port du s = Some (r, s')"
  shows "dp_inv s' \<and> xEfcpImapTable s' = xEfcpImapTable s"
  using assms
  by (auto simp: xFlowAllocatorDuPost_def destroy_and_def destroy_def dp_inv_def fai_update_wf
      split: if_splits Option.bind_splits option.splits)

lemma dtp_receive_inv:
  assumes "dp_inv s" "x < length (xEfcpImapTable s)" "xDtpReceive x du s = Some (r, s')"
  shows "dp_inv s'"
proof -
  obtain e p where e: "efcp_at x s = Some e" and "pxPci du = Some p"
    using assms(3) by (auto simp: xDtpReceive_def split: Option.bind_splits)
  have put: "dp_inv (efcp_put x (sv_update f e) s)" for f
    using efcp_at_inv[OF assms(1) e assms(2)] assms(1)
    by (intro efcp_put_inv) (auto simp: efcp_ok_def sv_update_def)
  show ?thesis
    using assms(1,3) put e
    by (auto simp: xDtpReceive_def Let_def xDtpPduPost_def xEfcpEnqueue_def
        dest: destroy_and_inv post_inv split: if_splits Option.bind_splits)
qed

lemma container_receive_inv:
  assumes "dp_inv s" "xEfcpContainerReceive env cep du s = Some (r, s')"
  shows "dp_inv s'"
proof -
  obtain px s1 where f: "imap_find cep s = (px, s1)" by force
  note i = imap_find_inv[OF assms(1) f]
  show ?thesis
  proof (cases "is_cep_id_ok cep \<and> px \<noteq> None")
    case False
    then show ?thesis
      using assms f i
      by (auto simp: xEfcpContainerReceive_def dest: destroy_and_inv split: if_splits)
  next
    case True
    then obtain x where x: "px = Some x" by auto
    obtain e where e: "efcp_at x s1 = Some e"
      using assms(2) True x f by (auto simp: xEfcpContainerReceive_def split: Option.bind_splits)
    have ok: "x = 0" "efcp_ok (Some e)" using efcp_at_inv[OF i(1) e] i(4)[OF x] by auto
    have put: "dp_inv (efcp_put x e' s1)" if "efcp_ok (Some e')" for e'
      using efcp_put_inv[OF i(1) that ok(1)] .
    have len: "x < length (xEfcpImapTable (efcp_put x e' s1))" for e'
      using i(4)[OF x] by (simp add: efcp_put_def)
    have rcv: "dp_inv t" if "xDtpReceive x du (efcp_put x e' s1) = Some (q, t)" "efcp_ok (Some e')" for q t e'
      using dtp_receive_inv[OF put[OF that(2)] len that(1)] .
    have des: "dp_inv t" if "destroy_and q du (efcp_put x e' s1) = Some (b, t)" "efcp_ok (Some e')" for q b t e'
      using destroy_and_inv[OF that(1) put[OF that(2)]] .
    show ?thesis
      using assms(2) True x f e ok(2) put i(1)
      by (auto simp: xEfcpContainerReceive_def xEfcpReceive_def Let_def efcp_ok_def
          dest!: destroy_and_inv rcv des split: if_splits Option.bind_splits)
  qed
qed

lemma send_port_inv:
  assumes "dp_inv s" "xRmtSendPortId env port du s = Some (r, s')"
  shows "dp_inv s' \<and> (xPortIdTable0 s \<noteq> None \<longrightarrow> r)"
  using assms
  by (auto simp: xRmtSendPortId_def dp_inv_def port_wf_def port_idle_def destroy_and_def destroy_def
      xRmtN1PortWriteDu_def port_put_def n1_stats_def Let_def
      split: option.splits if_splits Option.bind_splits)

lemma rmt_send_inv:
  assumes "dp_inv s" "xRmtSend env du s = Some (r, s')"
  shows "dp_inv s'"
  using assms
  by (auto simp: xRmtSend_def dest: send_port_inv destroy_and_inv split: if_splits Option.bind_splits)

lemma dtp_write_inv:
  assumes "dp_inv s" "x < length (xEfcpImapTable s)" "xDtpWrite env x du s = Some (r, s')"
  shows "dp_inv s'"
proof -
  have rcv: "dp_inv t'" if "xEfcpContainerReceive env c v (t \<lparr> free_desc := f \<rparr>) = Some (q, t')" "dp_inv t"
    for c v t f q t'
    using container_receive_inv[OF _ that(1)] that(2) by simp
  have send: "dp_inv t'" if "dp_inv t" "xDtpPduSend env v t = Some (q, t')" for t v q t'
    using that
    by (auto simp: xDtpPduSend_def Let_def dest: rmt_send_inv destroy_and_inv_free rcv
        split: if_splits Option.bind_splits)
  have put: "dp_inv (efcp_put x (sv_update g e) (s \<lparr> free_desc := f \<rparr>))"
    if "efcp_at x (s \<lparr> free_desc := f \<rparr>) = Some e" for e f g
    using efcp_at_inv[of "s \<lparr> free_desc := f \<rparr>" x e] that assms(1,2)
    by (intro efcp_put_inv) (auto simp: efcp_ok_def sv_update_def)
  have sp: "dp_inv t'" if "xDtpPduSend env v (efcp_put x (sv_update g e) (s \<lparr> free_desc := f \<rparr>)) = Some (q, t')"
    "efcp_at x (s \<lparr> free_desc := f \<rparr>) = Some e" for v g e f q t'
    using send[OF put[OF that(2)] that(1)] .
  have des: "dp_inv t'" if "destroy_and q v (efcp_put x (sv_update g e) (s \<lparr> free_desc := f \<rparr>)) = Some (b, t')"
    "efcp_at x (s \<lparr> free_desc := f \<rparr>) = Some e" for v g e f q b t'
    using destroy_and_inv[OF that(1) put[OF that(2)]] .
  show ?thesis
    using assms(1,3)
    by (auto simp: xDtpWrite_def Let_def dest!: destroy_and_inv_free sp des split: if_splits Option.bind_splits)
qed

lemma container_write_inv:
  assumes "dp_inv s" "xEfcpContainerWrite env cep du s = Some (r, s')"
  shows "dp_inv s'"
proof -
  obtain px s1 where f: "imap_find cep s = (px, s1)" by force
  note i = imap_find_inv[OF assms(1) f]
  show ?thesis
    using assms f i
    by (auto simp: xEfcpContainerWrite_def xEfcpWrite_def Let_def
        dest: destroy_and_inv dtp_write_inv split: if_splits Option.bind_splits option.splits)
qed

lemma conn_create_inv:
  assumes "dp_inv s" "xEfcpConnectionCreate env src dst port qos c1 c2 s = Some (c, s')"
  shows "dp_inv s'"
  using assms EFCP_IMAP_ENTRIES_pos
  by (auto simp: xEfcpConnectionCreate_def Let_def xEfcpDestroy_def xEfcpImapAdd_def dp_inv_def imap_wf_def
      efcp_ok_def nth_list_update split: if_splits)

text \<open>An endpoint that is found is alive, so it is modified and nothing is destroyed.\<close>

lemma conn_modify_cases:
  assumes "dp_inv s" "xEfcpConnectionModify env cep src dst s = Some (r, s')"
  obtains "\<not> r" "imap_find cep s = (None, s')"
  | s1 e where "r" "imap_find cep s = (Some 0, s1)" "efcp_at 0 s1 = Some e" "dp_inv s1"
      "s' = efcp_put 0 (e \<lparr> pxConnection := (pxConnection e) \<lparr> xSourceAddress := src, xDestinationAddress := dst \<rparr> \<rparr>) s1"
      "dp_inv s'"
proof -
  obtain px s1 where f: "imap_find cep s = (px, s1)" by force
  note i = imap_find_inv[OF assms(1) f]
  show ?thesis
  proof (cases px)
    case None
    then show ?thesis using assms(2) f that(1) by (simp add: xEfcpConnectionModify_def)
  next
    case (Some x)
    obtain e where e: "efcp_at x s1 = Some e"
      using assms(2) Some f by (auto simp: xEfcpConnectionModify_def split: Option.bind_splits)
    have ok: "x = 0" "efcp_ok (Some e)" using efcp_at_inv[OF i(1) e] i(4)[OF Some] by auto
    let ?e = "e \<lparr> pxConnection := (pxConnection e) \<lparr> xSourceAddress := src, xDestinationAddress := dst \<rparr> \<rparr>"
    have "r" "s' = efcp_put 0 ?e s1"
      using assms(2) Some f e ok by (auto simp: xEfcpConnectionModify_def efcp_ok_def split: if_splits)
    moreover have "dp_inv (efcp_put 0 ?e s1)"
      using ok(2) by (intro efcp_put_inv[OF i(1)]) (auto simp: efcp_ok_def)
    ultimately show ?thesis using that(2)[of s1 e] f Some e ok(1) i(1) by simp
  qed
qed

lemma conn_update_inv:
  assumes "dp_inv s" "xEfcpConnectionUpdate env a b s = Some (r, s')"
  shows "dp_inv s'"
proof -
  obtain px s1 where f: "imap_find a s = (px, s1)" by force
  note i = imap_find_inv[OF assms(1) f]
  have put: "dp_inv (efcp_put x (e \<lparr> pxConnection := c \<rparr>) s1)" "efcp_xState e = eEfcpAllocated"
    if "efcp_at x s1 = Some e" "px = Some x" for x e c
    using efcp_at_inv[OF i(1) that(1) i(4)[OF that(2)]]
    by (auto intro!: efcp_put_inv[OF i(1)] simp: efcp_ok_def)
  show ?thesis
    using assms f i put
    by (auto simp: xEfcpConnectionUpdate_def split: if_splits Option.bind_splits option.splits)
qed

lemma conn_destroy_inv:
  assumes "dp_inv s" "xEfcpConnectionDestroy env cep s = Some (r, s')"
  shows "dp_inv s'"
proof -
  have rm: "imap_wf (snd (xEfcpImapRemove k t))" if t: "imap_wf t" for k t
  proof (cases "first_ix (\<lambda>r. xCepIdKey r = k) t")
    case (Some x)
    then have "x < length t" by (rule first_ix_less)
    then show ?thesis
      using t Some EFCP_IMAP_ENTRIES_pos
      by (cases x) (auto simp: xEfcpImapRemove_def imap_wf_def efcp_ok_def nth_list_update)
  qed (use t in \<open>simp add: xEfcpImapRemove_def\<close>)
  obtain px s1 where f: "imap_find cep s = (px, s1)" by force
  have "fst (xEfcpImapRemove cep t)" for t by (simp add: xEfcpImapRemove_def split: option.splits)
  then show ?thesis
    using assms f imap_find_inv(1)[OF assms(1) f] rm[of "xEfcpImapTable s1" cep]
    by (auto simp: xEfcpConnectionDestroy_def case_prod_beta dp_inv_def split: if_splits option.splits)
qed

lemma flow_status_inv: "xNormalUpdateFlowStatus port st s = (r, s') \<Longrightarrow> dp_inv s' = dp_inv s"
  by (auto simp: xNormalUpdateFlowStatus_def flow_put_def split: option.splits)

lemma flow_cep_inv: "xNormalUpdateCepIdFlow port c s = (r, s') \<Longrightarrow> dp_inv s' = dp_inv s"
  by (auto simp: xNormalUpdateCepIdFlow_def flow_put_def split: option.splits)

lemma normal_update_inv:
  "dp_inv s \<Longrightarrow> xNormalConnectionUpdate env port a b s = Some (r, s') \<Longrightarrow> dp_inv s'"
  using conn_update_inv flow_status_inv
  by (auto simp: xNormalConnectionUpdate_def split: Option.bind_splits if_splits)

lemma bind_inv:
  "dp_inv s \<Longrightarrow> xRmtN1PortBind i s = (r, s') \<Longrightarrow> dp_inv s'"
  by (auto simp: xRmtN1PortBind_def dp_inv_def port_wf_def port_idle_def pxRmtN1PortCreate_def split: if_splits)

lemma normal_write_inv:
  "dp_inv s \<Longrightarrow> xNormalDuWrite env port nb s = Some (r, s') \<Longrightarrow> dp_inv s'"
  by (auto simp: xNormalDuWrite_def Let_def dest: destroy_and_inv container_write_inv
      split: if_splits Option.bind_splits option.splits)

lemma mgmt_write_inv:
  assumes "dp_inv s" "xNormalMgmtDuWrite env port du s = Some (r, s')"
  shows "dp_inv s'"
proof -
  have sp: "dp_inv t'" if "xRmtSendPortId env port v (s \<lparr> free_desc := f \<rparr>) = Some (q, t')" for v f q t'
    using send_port_inv[OF _ that] assms(1) by simp
  show ?thesis
    using assms
    by (auto simp: xNormalMgmtDuWrite_def Let_def dest!: destroy_and_inv_free sp
        split: if_splits Option.bind_splits)
qed

end
