(* ===== verification/Flow_Allocator.thy ===== *)
theory Flow_Allocator
  imports Rina_Enrollment Ipcp_Normal
begin

text \<open>
  The flow allocator (\<open>flowAllocator.c\<close>) and the serialisation of its messages
  (\<open>serdesMsg.c\<close>), on the state of a whole node: the management plane extended by
  the data plane.  The structure handed to nanopb is \<open>Flow\<close>; the encoder and the
  decoder are arguments as in \<open>Cdap_Messages\<close>; \<open>Pb_Flow\<close> gives nanopb for them.
\<close>

record node = mgmt +
  nd_dp :: dplane

record connectionId_t =
  ci_xQosId :: u8
  ci_xDestination :: u8
  ci_xSource :: u8

record qosSpec_t =
  pcQosName :: string
  qs_xQosId :: u8
  xPartialDelivery :: bool
  xOrderedDelivery :: bool

record dtpConfig_t =
  xDtcpPresent :: bool
  xInitialATimer :: u32
  pcPolicyName :: string
  pcPolicyVersion :: string

datatype eFlowAllocationState_t = eFA_EMPTY | eFA_ALLOCATION_IN_PROGRESS | eFA_ALLOCATED
  | eFA_WAITING_2_MPL_BEFORE_TEARING_DOWN | eFA_DEALLOCATED

record flow_t =
  fl_pxSourceInfo :: name_t
  fl_pxDestInfo :: name_t
  ulHopCount :: u32
  fl_eState :: eFlowAllocationState_t
  ulMaxCreateFlowRetries :: u32
  fl_xSourceAddress :: u8
  xRemoteAddress :: u8
  pxConnectionId :: connectionId_t
  ulCurrentConnectionId :: u32
  pxQosSpec :: qosSpec_t
  pxDtpConfig :: dtpConfig_t
  xSourcePortId :: u32
  xDestinationPortId :: u32

record Flow =
  pf_srcApName :: string
  pf_srcApInst :: "string option"
  pf_srcAEName :: "string option"
  pf_srcAEInst :: "string option"
  pf_dstApName :: string
  pf_dstApInst :: "string option"
  pf_dstAEName :: "string option"
  pf_dstAEInst :: "string option"
  pf_sourcePortId :: u64
  pf_destinationPortId :: "u64 option"
  pf_sourceAddress :: u64
  pf_destinationAddress :: "u64 option"
  pf_connectionIds_count :: nat
  pf_sourceCEPId :: "u32 option"
  pf_destinationCEPId :: "u32 option"
  pf_qosId :: "u32 option"
  pf_hopCount :: "u32 option"
  pf_qos :: "(u32 \<times> string \<times> bool \<times> bool) option"
  pf_dtpConfig :: "(bool \<times> u32) option"
  pf_dtppolicyset :: "(string \<times> string) option"

record nenv = env +
  enc_flow :: "Flow \<Rightarrow> u8 list option"
  dec_flow :: "u8 list \<Rightarrow> Flow option"
  sizeof_Flow :: nat
  junk_flow :: flow_t
  nv_dp :: denv

section \<open>Messages\<close>

text \<open>The flag of the policy set is not set, so nanopb does not encode it.  The buffer
  starts 64 bytes (8 structures of 8 bytes) into an allocation made 8 bytes larger than
  the message, and up to \<open>sizeof_Flow\<close> bytes are written there.\<close>

definition pxSerdesMsgFlowEncode :: "'e nenv_scheme \<Rightarrow> flow_t \<Rightarrow> u8 list option option" where
  "pxSerdesMsgFlowEncode env f = do {
     sn \<leftarrow> pcProcessName (fl_pxSourceInfo f); _ \<leftarrow> strcpy_arr 20 (Some sn);
     dn \<leftarrow> pcProcessName (fl_pxDestInfo f); _ \<leftarrow> strcpy_arr 20 (Some dn);
     _ \<leftarrow> strcpy_arr 20 (Some (pcQosName (pxQosSpec f)));
     _ \<leftarrow> strcpy_arr 20 (Some (pcPolicyName (pxDtpConfig f)));
     _ \<leftarrow> strcpy_arr 20 (Some (pcPolicyVersion (pxDtpConfig f)));
     if \<not> ser_mem env 0 then Some None
     else (case enc_flow env
        \<lparr> pf_srcApName = sn, pf_srcApInst = None, pf_srcAEName = None, pf_srcAEInst = None,
          pf_dstApName = dn, pf_dstApInst = None, pf_dstAEName = None, pf_dstAEInst = None,
          pf_sourcePortId = ucast (xSourcePortId f), pf_destinationPortId = None,
          pf_sourceAddress = ucast (fl_xSourceAddress f), pf_destinationAddress = None,
          pf_connectionIds_count = 1,
          pf_sourceCEPId = Some (ucast (ci_xSource (pxConnectionId f))),
          pf_destinationCEPId = Some (ucast (ci_xDestination (pxConnectionId f))),
          pf_qosId = Some (ucast (ci_xQosId (pxConnectionId f))),
          pf_hopCount = Some (ulHopCount f),
          pf_qos = Some (ucast (qs_xQosId (pxQosSpec f)), pcQosName (pxQosSpec f),
            xPartialDelivery (pxQosSpec f), xOrderedDelivery (pxQosSpec f)),
          pf_dtpConfig = Some (xDtcpPresent (pxDtpConfig f), xInitialATimer (pxDtpConfig f)),
          pf_dtppolicyset = None \<rparr> of
        None \<Rightarrow> Some None
      | Some bytes \<Rightarrow> if length bytes + 64 \<le> sizeof_Flow env + 8 then Some (Some bytes) else None) }"

definition prvSerdesMsgDecodeFlow :: "flow_t \<Rightarrow> Flow \<Rightarrow> flow_t" where
  "prvSerdesMsgDecodeFlow junk p = junk
     \<lparr> xRemoteAddress := (case pf_destinationAddress p of Some a \<Rightarrow> ucast a | None \<Rightarrow> xRemoteAddress junk),
       fl_pxDestInfo :=
         \<lparr> pcProcessName = Some (pf_dstApName p),
           pcProcessInstance = or_junk (pf_dstApInst p) (pcProcessInstance (fl_pxDestInfo junk)),
           pcEntityName = or_junk (pf_dstAEName p) (pcEntityName (fl_pxDestInfo junk)),
           pcEntityInstance = or_junk (pf_dstAEInst p) (pcEntityInstance (fl_pxDestInfo junk)) \<rparr>,
       xDestinationPortId := (case pf_destinationPortId p of Some a \<Rightarrow> ucast a | None \<Rightarrow> xDestinationPortId junk),
       fl_xSourceAddress := ucast (pf_sourceAddress p),
       fl_pxSourceInfo :=
         \<lparr> pcProcessName = Some (pf_srcApName p),
           pcProcessInstance = or_junk (pf_srcApInst p) (pcProcessInstance (fl_pxSourceInfo junk)),
           pcEntityName = or_junk (pf_srcAEName p) (pcEntityName (fl_pxSourceInfo junk)),
           pcEntityInstance = or_junk (pf_srcAEInst p) (pcEntityInstance (fl_pxSourceInfo junk)) \<rparr>,
       xSourcePortId := ucast (pf_sourcePortId p),
       pxConnectionId :=
         \<lparr> ci_xQosId = (case pf_qosId p of Some a \<Rightarrow> ucast a | None \<Rightarrow> ci_xQosId (pxConnectionId junk)),
           ci_xDestination = (case pf_destinationCEPId p of Some a \<Rightarrow> ucast a
                              | None \<Rightarrow> ci_xDestination (pxConnectionId junk)),
           ci_xSource = (case pf_sourceCEPId p of Some a \<Rightarrow> ucast a
                         | None \<Rightarrow> ci_xSource (pxConnectionId junk)) \<rparr> \<rparr>"

definition pxSerdesMsgDecodeFlow :: "'e nenv_scheme \<Rightarrow> u8 list \<Rightarrow> flow_t option" where
  "pxSerdesMsgDecodeFlow env bytes = map_option (prvSerdesMsgDecodeFlow (junk_flow env)) (dec_flow env bytes)"

section \<open>Requests\<close>

text \<open>The parts of the request handle that these modules use: the port, the names, the
  packets that wait and the event bits.  The instance shares the handle with the
  application.\<close>

record flowRequest =
  fq_xPortId :: u32
  fq_pxLocal :: name_t
  fq_pxRemote :: name_t
  fq_handle :: flowAllocateHandle_t

definition prvFlowAllocatorSelectQoSCube :: qosSpec_t where
  "prvFlowAllocatorSelectQoSCube = \<lparr> pcQosName = ''unreliable'', qs_xQosId = 3,
     xPartialDelivery = False, xOrderedDelivery = True \<rparr>"

definition prvFlowAllocatorNewFlow :: "flow_t \<Rightarrow> flowRequest \<Rightarrow> flow_t" where
  "prvFlowAllocatorNewFlow junk rq = junk
     \<lparr> fl_pxSourceInfo := fq_pxLocal rq, fl_pxDestInfo := fq_pxRemote rq, ulHopCount := 4,
       ulMaxCreateFlowRetries := 1, fl_eState := eFA_ALLOCATION_IN_PROGRESS,
       fl_xSourceAddress := LOCAL_ADDRESS_8, ulCurrentConnectionId := 0,
       pxQosSpec := prvFlowAllocatorSelectQoSCube,
       pxDtpConfig := \<lparr> xDtcpPresent = False, xInitialATimer = 300, pcPolicyName = ''default'',
                        pcPolicyVersion = ''0'' \<rparr> \<rparr>"

fun decimal :: "nat \<Rightarrow> string" where
  "decimal n = (if n < 10 then [char_of (48 + n)] else decimal (n div 10) @ [char_of (48 + n mod 10)])"

declare decimal.simps [simp del]

text \<open>The name is printed into 24 characters.\<close>

definition flow_obj_name :: "u32 \<Rightarrow> string option" where
  "flow_obj_name port =
     (let s = ''/fa/flows/key=1-'' @ decimal (unat port) in if length s < 24 then Some s else None)"

definition fai_new :: "u32 \<Rightarrow> flowAllocateHandle_t \<Rightarrow> flowAllocatorInstance_t" where
  "fai_new port h = \<lparr> eFaiState = eFAI_NONE, fai_xPortId = port, pxFlowAllocatorHandle = h \<rparr>"

text \<open>The instance enters the table before the neighbour is looked up.\<close>

definition vFlowAllocatorFlowRequest :: "nenv \<Rightarrow> flowRequest \<Rightarrow> node \<Rightarrow> node option" where
  "vFlowAllocatorFlowRequest env rq s = do {
     let port = fq_xPortId rq;
     let fl = prvFlowAllocatorNewFlow (junk_flow env) rq;
     let dp = (nd_dp s) \<lparr> xFlowRequestTable := prvAddFlowRequestEntry (fai_new port (fq_handle rq)) (xFlowRequestTable (nd_dp s)) \<rparr>;
     p \<leftarrow> pxEnrollmentFindNeighbor (Some REMOTE_ADDRESS_AP_NAME) (xNeighborsTable s);
     (case p of
        None \<Rightarrow> Some (s \<lparr> nd_dp := dp \<rparr>)
      | Some x \<Rightarrow> do {
          let n = nbr_at (xNeighborsTable s) x;
          let fl = fl \<lparr> xRemoteAddress := xNeighborAddress n, xSourcePortId := port \<rparr>;
          (cep, dp) \<leftarrow> xNormalConnectionCreateRequest (nv_dp env) port LOCAL_ADDRESS_8
                        (xRemoteAddress fl) (qs_xQosId (pxQosSpec fl)) dp;
          let dp = snd (xNormalUpdateCepIdFlow port cep dp);
          let fl = fl \<lparr> pxConnectionId := \<lparr> ci_xQosId = qs_xQosId (pxQosSpec fl), ci_xDestination = 0,
                                            ci_xSource = cep \<rparr> \<rparr>;
          val \<leftarrow> pxSerdesMsgFlowEncode env fl;
          nam \<leftarrow> flow_obj_name port;
          (_, t) \<leftarrow> pxRibCreateObject (Some nam) (-1) (Some ''Flow'') (Some ''Flow'') FLOW (xRibObjectTable s);
          (_, s) \<leftarrow> xRibdSendRequest env (Some ''Flow'') (Some nam) (-1) M_CREATE (ni_xN1Port n) val
                     (s \<lparr> nd_dp := dp, xRibObjectTable := t \<rparr>);
          Some s }) }"

text \<open>The answer to a request.  The endpoint that is modified is the destination of the
  message, the one that is updated its source.\<close>

definition bound :: "flowAllocatorInstance_t \<Rightarrow> flowAllocatorInstance_t" where
  "bound f = f \<lparr> eFaiState := eFAI_ALLOCATED, pxFlowAllocatorHandle := (pxFlowAllocatorHandle f)
     \<lparr> nEventBits := nEventBits (pxFlowAllocatorHandle f) OR eFLOW_BOUND \<rparr> \<rparr>"

definition xFlowAllocatorHandleCreateR :: "nenv \<Rightarrow> u8 list option \<Rightarrow> int \<Rightarrow> node \<Rightarrow> (bool \<times> node) option" where
  "xFlowAllocatorHandleCreateR env val res s =
     (case val of
        None \<Rightarrow> Some (False, s)
      | Some bytes \<Rightarrow>
          if res \<noteq> 0 then Some (False, s)
          else (case pxSerdesMsgDecodeFlow env bytes of
             None \<Rightarrow> Some (False, s)
           | Some fl \<Rightarrow> do {
               let ci = pxConnectionId fl; let dp = nd_dp s;
               p \<leftarrow> pxFAFindInstance (xDestinationPortId fl) (xFlowRequestTable dp);
               if p = None then Some (False, s)
               else do {
                 (r, dp) \<leftarrow> xNormalConnectionModify (nv_dp env) (ci_xDestination ci) (xRemoteAddress fl)
                             (fl_xSourceAddress fl) dp;
                 if \<not> r then Some (False, s \<lparr> nd_dp := dp \<rparr>)
                 else do {
                   (r, dp) \<leftarrow> xNormalConnectionUpdate (nv_dp env) (xDestinationPortId fl) (ci_xSource ci)
                               (ci_xDestination ci) dp;
                   if \<not> r then Some (False, s \<lparr> nd_dp := dp \<rparr>)
                   else Some (True, s \<lparr> nd_dp := dp \<lparr> xFlowRequestTable :=
                          fai_update bound (xFlowRequestTable dp) \<rparr> \<rparr>) } } }))"

definition xFlowAllocatorHandleDelete :: "ribObject_t \<Rightarrow> int \<Rightarrow> bool" where
  "xFlowAllocatorHandleDelete ob iid = False"

section \<open>An environment for examples\<close>

text \<open>A protocol library that encodes every message as one byte and decodes none.\<close>

definition ex_name :: name_t where
  "ex_name = \<lparr> pcProcessName = Some ''p'', pcProcessInstance = Some ''1'', pcEntityName = Some ''e'',
     pcEntityInstance = Some [] \<rparr>"

definition ex_flow :: flow_t where
  "ex_flow = \<lparr> fl_pxSourceInfo = ex_name, fl_pxDestInfo = ex_name, ulHopCount = 0, fl_eState = eFA_EMPTY,
     ulMaxCreateFlowRetries = 0, fl_xSourceAddress = 1, xRemoteAddress = 3,
     pxConnectionId = \<lparr> ci_xQosId = 3, ci_xDestination = 1, ci_xSource = 1 \<rparr>, ulCurrentConnectionId = 0,
     pxQosSpec = prvFlowAllocatorSelectQoSCube,
     pxDtpConfig = \<lparr> xDtcpPresent = False, xInitialATimer = 300, pcPolicyName = ''default'', pcPolicyVersion = ''0'' \<rparr>,
     xSourcePortId = 33, xDestinationPortId = 33 \<rparr>"

definition ex_nenv :: nenv where
  "ex_nenv = \<lparr> enc_cdap = (\<lambda>_. Some [1]), dec_cdap = (\<lambda>_. None), enc_enroll = (\<lambda>_. Some [2]),
     dec_enroll = (\<lambda>_. None), enc_neighbor = (\<lambda>_. Some [3]), dec_adata = (\<lambda>_. None),
     junk_cdap = prvRibMessageCdapInit, junk_enroll = \<lparr> em_ullAddress = 0, em_pcToken = None \<rparr>,
     junk_adata = \<lparr> ad_xSourceAddress = 0, ad_xDestinationAddress = 0, ad_pxMsgCdap = None \<rparr>,
     junk_string = None, ser_mem = (\<lambda>_. True), buf_ok = True, enc_flow = (\<lambda>_. Some [4]), dec_flow = (\<lambda>_. None),
     sizeof_Flow = 400, junk_flow = ex_flow, nv_dp = ex_env \<rparr>"

end
