(* ===== verification/Rina_Node.thy ===== *)
theory Rina_Node
  imports Flow_Allocator
begin

text \<open>
  A whole node: the handler of CDAP messages (\<open>vRibHandleMessage\<close> in \<open>ribd.c\<close>), the
  receiving half of the RMT (\<open>rmt.c\<close>) and the stack task's dispatch of events
  (\<open>IPCP_task.c\<close>), over the management plane and the data plane.  A NULL pointer
  followed, an unset function pointer called or an abort makes the event undefined
  (\<open>None\<close>).  Events from the shim that do not reach these modules are left out.
\<close>

section \<open>CDAP messages\<close>

text \<open>The process name of the peer of a connection.\<close>

definition peer_name :: "nat \<Rightarrow> node \<Rightarrow> string option" where
  "peer_name c s = pcProcessName (ac_pxDestinationInfo (conn_at (xAppConnectionTable s) c))"

definition call_start ::
  "nenv \<Rightarrow> ribObject_t \<Rightarrow> u8 list option \<Rightarrow> string option \<Rightarrow> int \<Rightarrow> u32 \<Rightarrow> node \<Rightarrow> (bool \<times> node) option" where
  "call_start env ob val remote iid port s =
     (case op_start (pxObjOps ob) of
        Some Fn_EnrollmentEnroller \<Rightarrow> xEnrollmentEnroller env val remote port s
      | Some Fn_EnrollmentHandleOperationalStart \<Rightarrow> xEnrollmentHandleOperationalStart env ob remote iid port s
      | _ \<Rightarrow> None)"

definition call_stop ::
  "nenv \<Rightarrow> ribObject_t \<Rightarrow> u8 list option \<Rightarrow> string option \<Rightarrow> int \<Rightarrow> u32 \<Rightarrow> node \<Rightarrow> (bool \<times> node) option" where
  "call_stop env ob val remote iid port s =
     (case op_stop (pxObjOps ob) of
        Some Fn_EnrollmentHandleStop \<Rightarrow> xEnrollmentHandleStop env ob val remote iid port s
      | _ \<Rightarrow> None)"

text \<open>The answer to a pending create request: only a callback made for one has the
  function set.\<close>

definition call_create_response ::
  "nenv \<Rightarrow> int \<Rightarrow> u8 list option \<Rightarrow> int \<Rightarrow> node \<Rightarrow> (bool \<times> node) option" where
  "call_create_response env iid val res s = do {
     cb \<leftarrow> pxRibdFindPendingResponseHandler iid (xPendingResponseHandlersTable s);
     _ \<leftarrow> cb_create_response cb;
     xFlowAllocatorHandleCreateR env val res s }"

definition prvRibdHandledAData :: "nenv \<Rightarrow> u8 list \<Rightarrow> node \<Rightarrow> node option" where
  "prvRibdHandledAData env bytes s = do {
     m \<leftarrow> prvRibdDecodeCDAP (dec_cdap env) (junk_cdap env) bytes;
     if eOpCode m > MAX_CDAP_OPCODE then None
     else do {
       ob \<leftarrow> pxRibFindObject (pcObjName m) (xRibObjectTable s);
       if eOpCode m = M_CREATE_R
       then do {
         (_, s) \<leftarrow> call_create_response env (invokeID m) (pxObjValue m) (cdap_result m) s;
         Some s }
       else if eOpCode m = M_DELETE
       then do { ob \<leftarrow> ob; _ \<leftarrow> op_delete (pxObjOps ob); Some s }
       else Some s } }"

definition vRibHandleMessage :: "nenv \<Rightarrow> messageCdap_t \<Rightarrow> u32 \<Rightarrow> node \<Rightarrow> (bool \<times> node) option" where
  "vRibHandleMessage env m port s =
     (if eOpCode m > MAX_CDAP_OPCODE then None
      else let conn = pxRibdFindAppConnection port (xAppConnectionTable s) in do {
        ob \<leftarrow> pxRibFindObject (pcObjName m) (xRibObjectTable s);
        if eOpCode m = M_CONNECT
        then (case conn of None \<Rightarrow> None | Some _ \<Rightarrow> Some (True, s))
        else if eOpCode m = M_CONNECT_R
        then do {
          c \<leftarrow> conn;
          if xStatus (conn_at (xAppConnectionTable s) c) \<noteq> eCONNECTION_IN_PROGRESS then Some (True, s)
          else do {
            let s = s \<lparr> xAppConnectionTable := conn_update c (\<lambda>a. a
              \<lparr> ac_pxDestinationInfo := (ac_pxDestinationInfo a)
                  \<lparr> pcProcessName := pcProcessName (pxSourceInfo m) \<rparr>,
                xStatus := eCONNECTED \<rparr>) (xAppConnectionTable s) \<rparr>;
            (_, s) \<leftarrow> xEnrollmentHandleConnectR env (peer_name c s) port s;
            Some (True, s) } }
        else if eOpCode m = M_RELEASE_R
        then do {
          c \<leftarrow> conn;
          if xStatus (conn_at (xAppConnectionTable s) c) \<noteq> eRELEASED then Some (True, s)
          else Some (True, s \<lparr> xAppConnectionTable :=
                 conn_update c (\<lambda>a. a \<lparr> xStatus := eRELEASED \<rparr>) (xAppConnectionTable s) \<rparr>) }
        else if eOpCode m = M_CREATE
        then do {
          (_, t) \<leftarrow> pxRibCreateObject (pcObjName m) (objInst m) (pcObjName m) (pcObjClass m) ENROLLMENT
                     (xRibObjectTable s);
          Some (True, s \<lparr> xRibObjectTable := t \<rparr>) }
        else if eOpCode m = M_STOP
        then do {
          ob \<leftarrow> ob; c \<leftarrow> conn;
          (_, s) \<leftarrow> call_stop env ob (pxObjValue m) (peer_name c s) (invokeID m) port s;
          Some (True, s) }
        else if eOpCode m = M_START
        then do {
          ob \<leftarrow> ob; c \<leftarrow> conn;
          (_, s) \<leftarrow> call_start env ob (pxObjValue m) (peer_name c s) (invokeID m) port s;
          Some (True, s) }
        else if eOpCode m = M_START_R
        then do {
          cb \<leftarrow> pxRibdFindPendingResponseHandler (invokeID m) (xPendingResponseHandlersTable s);
          _ \<leftarrow> cb_start_response cb; c \<leftarrow> conn;
          let _ = xEnrollmentHandleStartR (peer_name c s) (pxObjValue m);
          Some (True, s) }
        else if eOpCode m = M_STOP_R
        then do {
          cb \<leftarrow> pxRibdFindPendingResponseHandler (invokeID m) (xPendingResponseHandlersTable s);
          _ \<leftarrow> cb_stop_response cb; c \<leftarrow> conn;
          _ \<leftarrow> xEnrollmentHandleStopR (peer_name c s) s;
          Some (True, s) }
        else if eOpCode m = M_CREATE_R
        then do {
          (_, s) \<leftarrow> call_create_response env (invokeID m) (pxObjValue m) (cdap_result m) s;
          Some (True, s) }
        else if eOpCode m = M_WRITE
        then do {
          nam \<leftarrow> pcObjName m;
          if nam = ''a_data''
          then do {
            val \<leftarrow> pxObjValue m;
            ad \<leftarrow> pxSerdesMsgDecodeAData (dec_adata env) (junk_adata env) val;
            if ad_xDestinationAddress ad = 1
            then do {
              bytes \<leftarrow> ad_pxMsgCdap ad;
              s \<leftarrow> prvRibdHandledAData env bytes s;
              Some (True, s) }
            else Some (True, s) }
          else Some (True, s) }
        else if eOpCode m = M_DELETE then Some (True, s)
        else Some (False, s) })"

text \<open>Printing the message follows the pointer before it is tested, so a message that
  does not decode is undefined; the answer of the handler is not used.\<close>

definition lift_dp :: "(dplane \<Rightarrow> (bool \<times> dplane) option) \<Rightarrow> node \<Rightarrow> (bool \<times> node) option" where
  "lift_dp f s = do { (r, dp) \<leftarrow> f (nd_dp s); Some (r, s \<lparr> nd_dp := dp \<rparr>) }"

definition xRibdProcessLayerManagementPDU :: "nenv \<Rightarrow> u32 \<Rightarrow> du_t \<Rightarrow> node \<Rightarrow> (bool \<times> node) option" where
  "xRibdProcessLayerManagementPDU env port du s = do {
     data \<leftarrow> pucDataBuffer (pxNetworkBuffer du);
     if length data < xDataLength (pxNetworkBuffer du) then None
     else do {
       m \<leftarrow> prvRibdDecodeCDAP (dec_cdap env) (junk_cdap env) (take (xDataLength (pxNetworkBuffer du)) data);
       (_, s) \<leftarrow> lift_dp (destroy_and True du) s;
       (_, s) \<leftarrow> vRibHandleMessage env m port s;
       Some (True, s) } }"

definition xNormalMgmtDuPost :: "nenv \<Rightarrow> u32 \<Rightarrow> du_t \<Rightarrow> node \<Rightarrow> (bool \<times> node) option" where
  "xNormalMgmtDuPost env port du s =
     (if \<not> is_port_id_ok port then lift_dp (destroy_and False du) s
      else xRibdProcessLayerManagementPDU env port du s)"

section \<open>RMT, receiving\<close>

definition xRmtProcessMgmtPdu :: "nenv \<Rightarrow> u32 \<Rightarrow> du_t \<Rightarrow> node \<Rightarrow> (bool \<times> node) option" where
  "xRmtProcessMgmtPdu env port du s = xNormalMgmtDuPost env port du s"

definition xRmtProcessDtPdu :: "denv \<Rightarrow> u32 \<Rightarrow> du_t \<Rightarrow> dplane \<Rightarrow> (bool \<times> dplane) option" where
  "xRmtProcessDtPdu env port du s = do {
     p \<leftarrow> pxPci du;
     if \<not> is_address_ok (pci_xDestination p) then destroy_and False du s
     else if pci_xType p = PDU_TYPE_MGMT then destroy_and False du s
     else if \<not> is_cep_id_ok (pci_cepDestination p) then destroy_and False du s
     else xEfcpContainerReceive env (pci_cepDestination p) du s }"

definition rmt_dt_types :: "u8 list" where
  "rmt_dt_types = [PDU_TYPE_CACK, PDU_TYPE_SACK, PDU_TYPE_NACK, PDU_TYPE_FC, PDU_TYPE_ACK,
     PDU_TYPE_ACK_AND_FC, PDU_TYPE_RENDEZVOUS, PDU_TYPE_DT]"

definition rx_stats :: "nat \<Rightarrow> rmtN1Port_t \<Rightarrow> rmtN1Port_t" where
  "rx_stats n = n1_stats (\<lambda>t. t \<lparr> rxPdus := rxPdus t + 1, rxBytes := rxBytes t + word_of_nat n \<rparr>)"

text \<open>A unit for another system is refused and not destroyed.\<close>

definition xRmtReceive :: "nenv \<Rightarrow> du_t \<Rightarrow> u32 \<Rightarrow> node \<Rightarrow> (bool \<times> node) option" where
  "xRmtReceive env du port s =
     (if \<not> is_port_id_ok port then lift_dp (destroy_and False du) s
      else case xPortIdTable0 (nd_dp s) of
        None \<Rightarrow> lift_dp (destroy_and False du) s
      | Some n1 \<Rightarrow> do {
          let dp = port_put (rx_stats (xRinaDataLength (pxNetworkBuffer du)) n1) (nd_dp s);
          (bad, du, free) \<leftarrow> xDuDecap (storage (nv_dp env)) du (free_desc dp);
          let s = s \<lparr> nd_dp := dp \<lparr> free_desc := free \<rparr> \<rparr>;
          if bad then lift_dp (destroy_and False du) s
          else do {
            p \<leftarrow> pxPci du;
            if \<not> pdu_type_is_ok (pci_xType p) \<or> \<not> is_address_ok (pci_xDestination p)
               \<or> \<not> is_qos_id_ok (pci_xQosId p)
            then lift_dp (destroy_and False du) s
            else if pci_xDestination p = LOCAL_ADDRESS_8
            then if pci_xType p = PDU_TYPE_MGMT then xRmtProcessMgmtPdu env port du s
                 else if pci_xType p \<in> set rmt_dt_types
                 then lift_dp (xRmtProcessDtPdu (nv_dp env) port du) s
                 else lift_dp (destroy_and False du) s
            else if pci_xDestination p = 0 then xRmtProcessMgmtPdu env port du s
            else Some (False, s) } })"

definition xNormalDuEnqueue :: "nenv \<Rightarrow> u32 \<Rightarrow> du_t \<Rightarrow> node \<Rightarrow> (bool \<times> node) option" where
  "xNormalDuEnqueue env port du s = xRmtReceive env du port s"

section \<open>Events\<close>

text \<open>The events of the stack task that reach the modules above.  For
  \<open>ShimEnrolled\<close> the shim has accepted the registration; it binds the flow when it
  answers the allocation.  The units of \<open>StackRx\<close> come with the port 1.  The wake-up
  that ends \<open>FlowBind\<close> sets a bit of a handle that the application still owns: it is in
  \<open>Rina_Api\<close>.\<close>

datatype event =
    ShimEnrolled bool u32
  | ShimFlowAllocated u32
  | StackFlowAllocate flowRequest
  | FlowBind u32
  | StackRx du_t
  | StackTx u32 NetworkBufferDescriptor_t

fun prvIpcpTask_event :: "nenv \<Rightarrow> bool \<Rightarrow> event \<Rightarrow> node \<Rightarrow> node option" where
  "prvIpcpTask_event env enrollee (ShimEnrolled binds port) s =
     vEnrollmentInit env enrollee port
       (if binds then s \<lparr> nd_dp := snd (xNormalFlowBinding port (nd_dp s)) \<rparr> else s)"
| "prvIpcpTask_event env enrollee (ShimFlowAllocated port) s =
     (case (rmt_pxN1Port (nd_dp s), xPortIdTable0 (nd_dp s)) of
        (N1Table, Some p) \<Rightarrow>
          if n1_eState p = eN1_PORT_STATE_ALLOCATED then vEnrollmentInit env enrollee port s else Some s
      | _ \<Rightarrow> None)"
| "prvIpcpTask_event env enrollee (StackFlowAllocate rq) s = vFlowAllocatorFlowRequest env rq s"
| "prvIpcpTask_event env enrollee (FlowBind port) s =
     Some (s \<lparr> nd_dp := snd (xNormalFlowPrebind (nv_dp env) port (nd_dp s)) \<rparr>)"
| "prvIpcpTask_event env enrollee (StackRx du) s = do {
     (r, s) \<leftarrow> xNormalDuEnqueue env 1 du s;
     if \<not> r then do { (_, s) \<leftarrow> lift_dp (destroy_and True du) s; Some s } else Some s }"
| "prvIpcpTask_event env enrollee (StackTx port nb) s = do {
     (_, s) \<leftarrow> lift_dp (xNormalDuWrite (nv_dp env) port nb) s;
     Some s }"

definition node_boot :: "nenv \<Rightarrow> node" where
  "node_boot env = mgmt.extend mgmt_boot \<lparr> nd_dp = pxIpcpCreate (nv_dp env) \<rparr>"

text \<open>The states that sequences of events lead to.\<close>

inductive node_reach :: "nenv \<Rightarrow> bool \<Rightarrow> node \<Rightarrow> bool" for env enrollee where
  boot: "node_reach env enrollee (node_boot env)"
| event: "node_reach env enrollee s \<Longrightarrow> prvIpcpTask_event env enrollee e s = Some s' \<Longrightarrow> node_reach env enrollee s'"

definition ex_node :: "dplane \<Rightarrow> node" where
  "ex_node d = mgmt.extend mgmt_boot \<lparr> nd_dp = d \<rparr>"

lemma nd_dp_ex_node [simp]: "nd_dp (ex_node d) = d"
  by (simp add: ex_node_def mgmt.defs)

end
