(* ===== verification/Node_Inv.thy ===== *)
theory Node_Inv
  imports Rina_Node
begin

text \<open>
  The invariant of a node: the tables of the management plane are well formed
  (\<open>mgmt_wf\<close>), the data plane keeps \<open>dp_inv\<close>, and no application connection is ever
  in the state \<open>eRELEASED\<close>.  Every event keeps it.
\<close>

section \<open>The handlers of the enrollment task\<close>

lemma mgmt_wf_nbr: "mgmt_wf s \<Longrightarrow> nbr_wf t \<Longrightarrow> mgmt_wf (s \<lparr> xNeighborsTable := t \<rparr>)"
  by (simp add: mgmt_wf_def)

lemma mgmt_wf_nbrD: "mgmt_wf s \<Longrightarrow> nbr_wf (xNeighborsTable s)"
  by (simp add: mgmt_wf_def)

lemma mgmt_wf_rib: "mgmt_wf s \<Longrightarrow> rib_wf t \<Longrightarrow> mgmt_wf (s \<lparr> xRibObjectTable := t \<rparr>)"
  by (simp add: mgmt_wf_def)

lemma mgmt_wf_conn: "mgmt_wf s \<Longrightarrow> conn_wf t \<Longrightarrow> mgmt_wf (s \<lparr> xAppConnectionTable := t \<rparr>)"
  by (simp add: mgmt_wf_def)

lemma mgmt_wf_dp [simp]: "mgmt_wf (s \<lparr> nd_dp := d \<rparr>) = mgmt_wf s"
  by (simp add: mgmt_wf_def)

text \<open>What sending leaves alone.\<close>

definition same_but_sent :: "'a mgmt_scheme \<Rightarrow> 'a mgmt_scheme \<Rightarrow> bool" where
  "same_but_sent s s' \<longleftrightarrow> mgmt.more s' = mgmt.more s \<and> xAppConnectionTable s' = xAppConnectionTable s
     \<and> xNeighborsTable s' = xNeighborsTable s \<and> xRibObjectTable s' = xRibObjectTable s"

lemma encode_and_send_same: "encode_and_send env m port s = Some (r, s') \<Longrightarrow> same_but_sent s s'"
  by (erule encode_and_send_cases) (auto simp: same_but_sent_def vRibdSentCdapMsg_def)

lemma send_request_same:
  "xRibdSendRequest env cls nam inst op port val s = Some (r, s') \<Longrightarrow> same_but_sent s s'"
  by (auto simp: xRibdSendRequest_def Let_def case_prod_beta same_but_sent_def
      dest!: encode_and_send_same split: if_splits)

lemma send_response_same:
  "xRibdSendResponse env cls nam inst res op iid port val s = Some (r, s') \<Longrightarrow> same_but_sent s s'"
  by (auto simp: xRibdSendResponse_def Let_def case_prod_beta same_but_sent_def
      dest!: encode_and_send_same split: if_splits)

lemma more_dp: "mgmt.more s' = mgmt.more s \<Longrightarrow> nd_dp s' = nd_dp (s::node)"
  by (cases s, cases s') simp

lemma enroller_wf:
  assumes "mgmt_wf s" "xEnrollmentEnroller env val rn port s = Some (r, s')"
  shows "mgmt_wf s' \<and> mgmt.more s' = mgmt.more s \<and> xAppConnectionTable s' = xAppConnectionTable s"
proof -
  obtain p t where f: "nbr_find_or_create rn port (xNeighborsTable s) = Some (p, t)"
    using assms(2) by (auto simp: xEnrollmentEnroller_def split: Option.bind_splits)
  have t: "nbr_wf t" using nbr_wf_find_or_create[OF mgmt_wf_nbrD[OF assms(1)] f] .
  show ?thesis
    using assms(2) f mgmt_wf_nbr[OF assms(1) t] mgmt_wf_nbr[OF assms(1) nbr_wf_update[OF t]]
    by (auto simp: xEnrollmentEnroller_def split: Option.bind_splits enrollmentState_t.splits)
qed

lemma connectR_wf:
  assumes "mgmt_wf s" "xEnrollmentHandleConnectR env rn port s = Some (r, s')"
  shows "mgmt_wf s' \<and> mgmt.more s' = mgmt.more s \<and> xAppConnectionTable s' = xAppConnectionTable s"
proof -
  obtain p t where f: "nbr_find_or_create rn port (xNeighborsTable s) = Some (p, t)"
    using assms(2) by (auto simp: xEnrollmentHandleConnectR_def split: Option.bind_splits)
  let ?s = "s \<lparr> xNeighborsTable := nbr_update p (set_state eENROLLMENT_IN_PROGRESS) t \<rparr>"
  have w: "mgmt_wf ?s"
    using nbr_wf_find_or_create[OF mgmt_wf_nbrD[OF assms(1)] f]
    by (intro mgmt_wf_nbr[OF assms(1)] nbr_wf_update)
  obtain v where q: "xRibdSendRequest env (Some ''Enrollment'') (Some ''/difm/enr'') (-1) M_START port v ?s = Some (r, s')"
    using assms(2) f by (auto simp: xEnrollmentHandleConnectR_def Let_def split: Option.bind_splits)
  show ?thesis
    using send_request_wf[OF w q] send_request_same[OF q] by (simp add: same_but_sent_def)
qed

lemma stop_wf:
  assumes "mgmt_wf s" "xEnrollmentHandleStop env ob val rn iid port s = Some (r, s')"
  shows "mgmt_wf s' \<and> mgmt.more s' = mgmt.more s \<and> xAppConnectionTable s' = xAppConnectionTable s"
proof -
  have w: "mgmt_wf (s \<lparr> xNeighborsTable := nbr_update p f (xNeighborsTable s) \<rparr>)" for p f
    using mgmt_wf_nbr[OF assms(1) nbr_wf_update[OF mgmt_wf_nbrD[OF assms(1)]]] .
  have sr: "mgmt_wf s' \<and> same_but_sent (s \<lparr> xNeighborsTable := nbr_update p f (xNeighborsTable s) \<rparr>) s'"
    if "xRibdSendResponse env cls nam inst res op iid port v
          (s \<lparr> xNeighborsTable := nbr_update p f (xNeighborsTable s) \<rparr>) = Some (r, s')" for cls nam inst res op v p f
    using send_response_wf[OF w that] send_response_same[OF that] by blast
  show ?thesis
    using assms
    by (auto simp: xEnrollmentHandleStop_def same_but_sent_def split: Option.bind_splits option.splits
        dest!: sr)
qed

lemma operational_wf:
  assumes "mgmt_wf s" "xEnrollmentHandleOperationalStart env ob rn iid port s = Some (r, s')"
  shows "mgmt_wf s' \<and> mgmt.more s' = mgmt.more s \<and> xAppConnectionTable s' = xAppConnectionTable s"
  using assms
  by (auto simp: xEnrollmentHandleOperationalStart_def same_but_sent_def split: Option.bind_splits
      dest: send_response_same send_response_wf)

lemma rib_create_wf:
  "rib_wf t \<Longrightarrow> pxRibCreateObject nam inst disp cls ty t = Some (ob, t') \<Longrightarrow> rib_wf t'"
  using rib_wf_add by (auto simp: pxRibCreateObject_def Let_def split: option.splits)

section \<open>Connections are never released\<close>

definition not_released :: "appConnectionTableRow_t list \<Rightarrow> bool" where
  "not_released t \<longleftrightarrow> (\<forall>r\<in>set t. \<forall>c. pxAppConnection r = Some c \<longrightarrow> xStatus c \<noteq> eRELEASED)"

definition node_inv :: "node \<Rightarrow> bool" where
  "node_inv s \<longleftrightarrow> mgmt_wf s \<and> dp_inv (nd_dp s) \<and> not_released (xAppConnectionTable s)"

lemma node_inv_dp: "node_inv s \<Longrightarrow> dp_inv d \<Longrightarrow> node_inv (s \<lparr> nd_dp := d \<rparr>)"
  by (simp add: node_inv_def)

lemma not_released_add:
  "not_released t \<Longrightarrow> xStatus c \<noteq> eRELEASED \<Longrightarrow> not_released (vRibdAddAppConnectionEntry c port t)"
  by (auto simp: not_released_def vRibdAddAppConnectionEntry_def split: option.splits
      dest!: subsetD[OF set_update_subset_insert])

lemma not_released_update:
  "not_released t \<Longrightarrow> x < length t \<Longrightarrow> (\<And>c. xStatus (f c) \<noteq> eRELEASED) \<Longrightarrow> not_released (conn_update x f t)"
  by (auto simp: not_released_def conn_update_def dest!: subsetD[OF set_update_subset_insert])

lemma connect_inv:
  assumes "node_inv s" "connect_ipcp env op src dst port auth s = Some (r, s')"
  shows "node_inv s'"
proof -
  obtain m c where m: "connect_msg op src dst auth = Some m" "prvRibCreateConnection (junk_string env) src dst = Some c"
    and e: "encode_and_send env (Some m) port
       (s \<lparr> xAppConnectionTable := vRibdAddAppConnectionEntry c port (xAppConnectionTable s) \<rparr>) = Some (r, s')"
    using assms(2) by (auto simp: connect_ipcp_def split: Option.bind_splits)
  let ?s = "s \<lparr> xAppConnectionTable := vRibdAddAppConnectionEntry c port (xAppConnectionTable s) \<rparr>"
  have "xStatus c = eCONNECTION_IN_PROGRESS"
    using m(2) by (auto simp: prvRibCreateConnection_def split: Option.bind_splits)
  then have "not_released (xAppConnectionTable ?s)"
    using assms(1) by (simp add: node_inv_def not_released_add)
  moreover have "mgmt_wf ?s"
    using assms(1) by (auto simp: node_inv_def intro!: mgmt_wf_conn conn_wf_add simp: mgmt_wf_def)
  moreover have "same_but_sent ?s s'" using encode_and_send_same[OF e] .
  ultimately show ?thesis
    using assms(1) encode_and_send_wf[OF e] more_dp[of s' ?s]
    by (auto simp: node_inv_def same_but_sent_def)
qed

lemma init_inv:
  assumes "node_inv s" "vEnrollmentInit env enrollee port s = Some s'"
  shows "node_inv s'"
proof -
  obtain ob1 t1 ob2 t2 where t:
    "pxRibCreateObject (Some ''/difm/enr'') 0 (Some ''enrollment'') (Some ''enrollment'') ENROLLMENT
       (xRibObjectTable s) = Some (ob1, t1)"
    "pxRibCreateObject (Some ''/difm/ops'') 1 (Some ''OperationalStatus'') (Some ''OperationalStatus'')
       OPERATIONAL t1 = Some (ob2, t2)"
    using assms(2) by (auto simp: vEnrollmentInit_def split: Option.bind_splits)
  have "rib_wf t2"
    using assms(1) rib_create_wf[OF rib_create_wf[OF _ t(1)] t(2)] by (simp add: node_inv_def mgmt_wf_def)
  then have "node_inv (s \<lparr> xRibObjectTable := t2 \<rparr>)"
    using assms(1) by (simp add: node_inv_def mgmt_wf_rib)
  then show ?thesis
    using assms(2) t connect_inv
    by (auto simp: vEnrollmentInit_def xRibdConnectToIpcp_def split: Option.bind_splits if_splits)
qed

section \<open>The flow allocator\<close>

lemma request_inv:
  assumes "node_inv s" "vFlowAllocatorFlowRequest env rq s = Some s'"
  shows "node_inv s'"
proof -
  let ?dp = "(nd_dp s) \<lparr> xFlowRequestTable :=
      prvAddFlowRequestEntry (fai_new (fq_xPortId rq) (fq_handle rq)) (xFlowRequestTable (nd_dp s)) \<rparr>"
  have dp: "dp_inv ?dp" using assms(1) by (simp add: node_inv_def dp_inv_def add_request_wf)
  have cr: "dp_inv (snd (xNormalUpdateCepIdFlow port cep d))"
    if "xNormalConnectionCreateRequest e port src dst q ?dp = Some (cep, d)" for e port src dst q cep d
    using that conn_create_inv[OF dp] flow_cep_inv[of port cep d]
    by (cases "xNormalUpdateCepIdFlow port cep d")
      (auto simp: xNormalConnectionCreateRequest_def split: Option.bind_splits)
  have sr: "node_inv t'"
    if "xRibdSendRequest env c n i op p v (s \<lparr> nd_dp := d, xRibObjectTable := t \<rparr>) = Some (r, t')"
      "dp_inv d" "rib_wf t" for c n i op p v d t r t'
  proof -
    have "mgmt_wf (s \<lparr> nd_dp := d, xRibObjectTable := t \<rparr>)"
      using assms(1) that(3) by (simp add: node_inv_def mgmt_wf_rib)
    then show ?thesis
      using send_request_wf[OF _ that(1)] send_request_same[OF that(1)] that(2) assms(1)
        more_dp[of t' "s \<lparr> nd_dp := d, xRibObjectTable := t \<rparr>"]
      by (simp add: node_inv_def same_but_sent_def)
  qed
  have rib: "rib_wf t" if "pxRibCreateObject n i d c ty (xRibObjectTable s) = Some (ob, t)" for n i d c ty ob t
    using rib_create_wf[OF _ that] assms(1) by (simp add: node_inv_def mgmt_wf_def)
  show ?thesis
    using assms node_inv_dp[OF assms(1) dp]
    by (auto simp: vFlowAllocatorFlowRequest_def Let_def
        split: Option.bind_splits option.splits dest!: cr rib sr)
qed

text \<open>The cases of a create response.\<close>

lemma create_r_cases:
  assumes "xFlowAllocatorHandleCreateR env val res s = Some (r, s')"
  obtains "\<not> r" "s' = s"
  | bytes fl d where "val = Some bytes" "pxSerdesMsgDecodeFlow env bytes = Some fl" "\<not> r" "s' = s \<lparr> nd_dp := d \<rparr>"
      "xNormalConnectionModify (nv_dp env) (ci_xDestination (pxConnectionId fl)) (xRemoteAddress fl)
         (fl_xSourceAddress fl) (nd_dp s) = Some (False, d)"
  | bytes fl f d e where "val = Some bytes" "res = 0" "pxSerdesMsgDecodeFlow env bytes = Some fl"
      "pxFAFindInstance (xDestinationPortId fl) (xFlowRequestTable (nd_dp s)) = Some (Some f)"
      "xNormalConnectionModify (nv_dp env) (ci_xDestination (pxConnectionId fl)) (xRemoteAddress fl)
         (fl_xSourceAddress fl) (nd_dp s) = Some (True, d)"
      "xNormalConnectionUpdate (nv_dp env) (xDestinationPortId fl) (ci_xSource (pxConnectionId fl))
         (ci_xDestination (pxConnectionId fl)) d = Some (r, e)"
      "s' = s \<lparr> nd_dp := (if r then e \<lparr> xFlowRequestTable := fai_update bound (xFlowRequestTable e) \<rparr> else e) \<rparr>"
proof (cases "val = None \<or> res \<noteq> 0 \<or> pxSerdesMsgDecodeFlow env (the val) = None")
  case True
  then show ?thesis
    using assms that(1) by (auto simp: xFlowAllocatorHandleCreateR_def split: option.splits if_splits)
next
  case False
  then obtain bytes fl where v: "val = Some bytes" "res = 0" "pxSerdesMsgDecodeFlow env bytes = Some fl" by auto
  obtain p where p: "pxFAFindInstance (xDestinationPortId fl) (xFlowRequestTable (nd_dp s)) = Some p"
    using assms v by (auto simp: xFlowAllocatorHandleCreateR_def Let_def split: Option.bind_splits)
  show ?thesis
  proof (cases p)
    case None
    then show ?thesis
      using assms v p that(1) by (simp add: xFlowAllocatorHandleCreateR_def)
  next
    case (Some f)
    obtain q d where m: "xNormalConnectionModify (nv_dp env) (ci_xDestination (pxConnectionId fl)) (xRemoteAddress fl)
         (fl_xSourceAddress fl) (nd_dp s) = Some (q, d)"
      using assms v p Some by (auto simp: xFlowAllocatorHandleCreateR_def Let_def split: Option.bind_splits)
    show ?thesis
    proof (cases q)
      case True
      obtain q' e where u: "xNormalConnectionUpdate (nv_dp env) (xDestinationPortId fl) (ci_xSource (pxConnectionId fl))
         (ci_xDestination (pxConnectionId fl)) d = Some (q', e)"
        using assms v p Some m True
        by (auto simp: xFlowAllocatorHandleCreateR_def Let_def split: Option.bind_splits)
      show ?thesis
        using assms v p Some m True u
        by (intro that(3)[of bytes fl f d e]) (auto simp: xFlowAllocatorHandleCreateR_def split: if_splits)
    next
      case False
      show ?thesis
        using assms v p Some m False
        by (intro that(2)[of bytes fl d]) (auto simp: xFlowAllocatorHandleCreateR_def)
    qed
  qed
qed

lemma create_r_inv:
  assumes "node_inv s" "xFlowAllocatorHandleCreateR env val res s = Some (r, s')"
  shows "node_inv s' \<and> xAppConnectionTable s' = xAppConnectionTable s"
proof -
  have d: "dp_inv (nd_dp s)" using assms(1) by (simp add: node_inv_def)
  have md: "dp_inv d'" if "xNormalConnectionModify e c a b (nd_dp s) = Some (q, d')" for e c a b q d'
    using d that[unfolded xNormalConnectionModify_def]
    by (rule conn_modify_cases) (use imap_find_inv(1)[OF d] in auto)
  from assms(2) show ?thesis
  proof (cases rule: create_r_cases)
    case 1
    then show ?thesis using assms(1) by simp
  next
    case (2 bytes fl d)
    then show ?thesis using md[OF 2(5)] node_inv_dp[OF assms(1)] by simp
  next
    case (3 bytes fl f d e)
    have "dp_inv e" using normal_update_inv[OF md[OF 3(5)] 3(6)] .
    then show ?thesis using 3(7) by (auto intro!: node_inv_dp[OF assms(1)] simp: dp_inv_def fai_update_wf)
  qed
qed

section \<open>Messages and events\<close>

lemma lift_dp_inv:
  assumes "node_inv s" "lift_dp f s = Some (r, s')" "\<And>d. f (nd_dp s) = Some (r, d) \<Longrightarrow> dp_inv d"
  shows "node_inv s' \<and> xAppConnectionTable s' = xAppConnectionTable s"
  using assms by (auto simp: lift_dp_def node_inv_def split: Option.bind_splits)

lemma destroy_node_inv:
  "node_inv s \<Longrightarrow> lift_dp (destroy_and b du) s = Some (r, s') \<Longrightarrow> node_inv s'"
  using lift_dp_inv[of s "destroy_and b du" r s'] destroy_and_inv[of b du "nd_dp s" r]
  by (auto simp: node_inv_def)

lemma node_inv_cong:
  "node_inv s \<Longrightarrow> mgmt_wf s' \<Longrightarrow> mgmt.more s' = mgmt.more s \<Longrightarrow>
   xAppConnectionTable s' = xAppConnectionTable s \<Longrightarrow> node_inv s'"
  using more_dp[of s' s] by (simp add: node_inv_def)

lemma call_start_inv:
  assumes "node_inv s" "call_start env ob val rn iid port s = Some (r, s')"
  shows "node_inv s'"
proof -
  have w: "mgmt_wf s" using assms(1) by (simp add: node_inv_def)
  show ?thesis
    using assms(2)
    by (auto simp: call_start_def split: option.splits rib_fn.splits
        dest!: enroller_wf[OF w] operational_wf[OF w] intro: node_inv_cong[OF assms(1)])
qed

lemma call_stop_inv:
  assumes "node_inv s" "call_stop env ob val rn iid port s = Some (r, s')"
  shows "node_inv s'"
proof -
  have w: "mgmt_wf s" using assms(1) by (simp add: node_inv_def)
  show ?thesis
    using assms(2)
    by (auto simp: call_stop_def split: option.splits rib_fn.splits
        dest!: stop_wf[OF w] intro: node_inv_cong[OF assms(1)])
qed

lemma call_create_inv:
  "node_inv s \<Longrightarrow> call_create_response env iid val res s = Some (r, s') \<Longrightarrow> node_inv s'"
  using create_r_inv[of s env val res r s'] by (auto simp: call_create_response_def split: Option.bind_splits)

lemma adata_inv:
  "node_inv s \<Longrightarrow> prvRibdHandledAData env bytes s = Some s' \<Longrightarrow> node_inv s'"
  by (auto simp: prvRibdHandledAData_def split: Option.bind_splits if_splits dest: call_create_inv)

lemma connect_r_msg_inv:
  assumes "node_inv s" "c < length (xAppConnectionTable s)"
    and "xEnrollmentHandleConnectR env rn port (s \<lparr> xAppConnectionTable := conn_update c (\<lambda>a. a
           \<lparr> ac_pxDestinationInfo := (ac_pxDestinationInfo a) \<lparr> pcProcessName := nam \<rparr>,
             xStatus := eCONNECTED \<rparr>) (xAppConnectionTable s) \<rparr>) = Some (r, s')"
  shows "node_inv s'"
proof -
  let ?t = "conn_update c (\<lambda>a. a \<lparr> ac_pxDestinationInfo := (ac_pxDestinationInfo a) \<lparr> pcProcessName := nam \<rparr>,
             xStatus := eCONNECTED \<rparr>) (xAppConnectionTable s)"
  have w: "mgmt_wf (s \<lparr> xAppConnectionTable := ?t \<rparr>)"
    using assms(1) by (auto simp: node_inv_def mgmt_wf_def intro!: conn_wf_update)
  moreover have "not_released ?t"
    using assms(1,2) by (intro not_released_update) (auto simp: node_inv_def)
  ultimately show ?thesis
    using connectR_wf[OF w assms(3)] assms(1) more_dp[of s' "s \<lparr> xAppConnectionTable := ?t \<rparr>"]
    by (simp add: node_inv_def)
qed

lemma find_conn_status:
  assumes "node_inv s" "pxRibdFindAppConnection port (xAppConnectionTable s) = Some c"
  shows "c < length (xAppConnectionTable s)" "xStatus (conn_at (xAppConnectionTable s) c) \<noteq> eRELEASED"
proof -
  let ?r = "xAppConnectionTable s ! c"
  have c: "c < length (xAppConnectionTable s)" "ac_xValid ?r"
    using first_ix_less[OF assms(2)[unfolded pxRibdFindAppConnection_def]]
      first_ix_holds[OF assms(2)[unfolded pxRibdFindAppConnection_def]] by auto
  have "?r \<in> set (xAppConnectionTable s)" using c(1) by simp
  moreover have "conn_wf (xAppConnectionTable s)" using assms(1) by (simp add: node_inv_def mgmt_wf_def)
  ultimately obtain a where a: "pxAppConnection ?r = Some a" using c(2) by (auto simp: conn_wf_def)
  then show "xStatus (conn_at (xAppConnectionTable s) c) \<noteq> eRELEASED"
    using assms(1) \<open>?r \<in> _\<close> by (auto simp: node_inv_def not_released_def conn_at_def)
  show "c < length (xAppConnectionTable s)" by (rule c(1))
qed

lemma handle_message_inv:
  assumes "node_inv s" "vRibHandleMessage env m port s = Some (r, s')"
  shows "node_inv s'"
proof -
  have rib: "node_inv (s \<lparr> xRibObjectTable := t \<rparr>)"
    if "pxRibCreateObject n i d c ty (xRibObjectTable s) = Some (ob, t)" for n i d c ty ob t
    using rib_create_wf[OF _ that] assms(1) by (simp add: node_inv_def mgmt_wf_def)
  note f = find_conn_status[OF assms(1)]
  show ?thesis
    using assms f(2)
    by (auto simp: vRibHandleMessage_def Let_def peer_name_def
        split: if_splits Option.bind_splits option.splits
        dest: rib call_stop_inv call_start_inv call_create_inv adata_inv
          connect_r_msg_inv[OF assms(1) f(1)])
qed

lemma mgmt_post_inv:
  assumes "node_inv s" "xNormalMgmtDuPost env port du s = Some (r, s')"
  shows "node_inv s'"
  using assms
  by (auto simp: xNormalMgmtDuPost_def xRibdProcessLayerManagementPDU_def
      split: if_splits Option.bind_splits dest!: destroy_node_inv[OF assms(1)] dest: handle_message_inv)

lemma rx_port_inv:
  assumes "node_inv s" "xPortIdTable0 (nd_dp s) = Some n1"
  shows "node_inv (s \<lparr> nd_dp := (port_put (rx_stats k n1) (nd_dp s)) \<lparr> free_desc := f \<rparr> \<rparr>)"
  using assms
  by (auto simp: node_inv_def dp_inv_def port_wf_def port_put_def rx_stats_def n1_stats_def port_idle_def)

lemma dt_pdu_inv:
  "dp_inv d \<Longrightarrow> xRmtProcessDtPdu env port du d = Some (r, d') \<Longrightarrow> dp_inv d'"
  by (auto simp: xRmtProcessDtPdu_def split: if_splits Option.bind_splits
      dest: destroy_and_inv container_receive_inv)

lemma rmt_receive_inv:
  assumes "node_inv s" "xRmtReceive env du port s = Some (r, s')"
  shows "node_inv s'"
proof (cases "xPortIdTable0 (nd_dp s)")
  case None
  then show ?thesis
    using assms by (auto simp: xRmtReceive_def split: if_splits dest: destroy_node_inv)
next
  case (Some n1)
  have des: "node_inv t"
    if "lift_dp (destroy_and b v) (s \<lparr> nd_dp := (port_put (rx_stats k n1) (nd_dp s)) \<lparr> free_desc := f \<rparr> \<rparr>) = Some (q, t)"
    for b v k f q t using destroy_node_inv[OF rx_port_inv[OF assms(1) Some] that] .
  have post: "node_inv t"
    if "xNormalMgmtDuPost env port v (s \<lparr> nd_dp := (port_put (rx_stats k n1) (nd_dp s)) \<lparr> free_desc := f \<rparr> \<rparr>) = Some (q, t)"
    for v k f q t using mgmt_post_inv[OF rx_port_inv[OF assms(1) Some] that] .
  have dt: "node_inv t"
    if "lift_dp (xRmtProcessDtPdu (nv_dp env) port v)
          (s \<lparr> nd_dp := (port_put (rx_stats k n1) (nd_dp s)) \<lparr> free_desc := f \<rparr> \<rparr>) = Some (q, t)" for v k f q t
  proof -
    have i: "node_inv (s \<lparr> nd_dp := (port_put (rx_stats k n1) (nd_dp s)) \<lparr> free_desc := f \<rparr> \<rparr>)"
      by (rule rx_port_inv[OF assms(1) Some])
    have "dp_inv d" if "xRmtProcessDtPdu (nv_dp env) port v
        (nd_dp (s \<lparr> nd_dp := (port_put (rx_stats k n1) (nd_dp s)) \<lparr> free_desc := f \<rparr> \<rparr>)) = Some (q, d)" for d
      using dt_pdu_inv[OF _ that] i unfolding node_inv_def by blast
    then show ?thesis using lift_dp_inv[OF i that] by blast
  qed
  show ?thesis
    using assms Some rx_port_inv[OF assms(1) Some]
    by (auto simp: xRmtReceive_def Let_def xRmtProcessMgmtPdu_def
        split: if_splits Option.bind_splits dest!: des post dt dest: destroy_node_inv)
qed

lemma boot_inv: "node_inv (node_boot env)"
proof -
  have "mgmt_wf (node_boot env)" "xAppConnectionTable (node_boot env) = xAppConnectionTable mgmt_boot"
    "nd_dp (node_boot env) = pxIpcpCreate (nv_dp env)"
    using mgmt_wf_boot by (simp_all add: node_boot_def mgmt.defs mgmt_wf_def)
  then show ?thesis
    using dp_inv_boot by (simp add: node_inv_def not_released_def mgmt_boot_def)
qed

lemma event_inv:
  assumes "node_inv s" "prvIpcpTask_event env enrollee e s = Some s'"
  shows "node_inv s'"
proof -
  have d: "dp_inv (nd_dp s)" using assms(1) by (simp add: node_inv_def)
  show ?thesis
  proof (cases e)
    case (ShimEnrolled binds port)
    have "dp_inv (snd (xRmtN1PortBind port (nd_dp s)))"
      using bind_inv[OF d] by (cases "xRmtN1PortBind port (nd_dp s)") auto
    then show ?thesis
      using assms ShimEnrolled init_inv[OF node_inv_dp[OF assms(1)]] init_inv[OF assms(1)]
      by (auto simp: xNormalFlowBinding_def split: if_splits)
  next
    case (ShimFlowAllocated port)
    then show ?thesis
      using assms init_inv by (auto split: n1ptr.splits option.splits if_splits)
  next
    case (StackFlowAllocate rq)
    then show ?thesis using assms request_inv by simp
  next
    case (FlowBind port)
    then show ?thesis using assms d by (auto simp: node_inv_def xNormalFlowPrebind_def)
  next
    case (StackRx du)
    then show ?thesis
      using assms
      by (auto simp: xNormalDuEnqueue_def split: Option.bind_splits if_splits
          dest!: rmt_receive_inv[OF assms(1)] dest: destroy_node_inv)
  next
    case (StackTx port nb)
    then show ?thesis
      using assms lift_dp_inv[OF assms(1)] normal_write_inv[OF d]
      by (fastforce split: Option.bind_splits)
  qed
qed

end
