(* ===== verification/Node_Props.thy ===== *)
theory Node_Props
  imports Node_Inv
begin

text \<open>
  Properties of the node: its invariant over all sequences of events, what becomes of
  enrollment, the pending responses, the flows and the received units.
\<close>

section \<open>The invariant\<close>

text \<open>C3: In every state a sequence of events leads to, the tables of the management
  plane are well formed (sizes, rows that are valid hold a structure, the RIB and the
  pending responses fill from row 0, the invoke id stays in range), the only EFCP
  instance is that of row 0 and is neither deallocated nor freed, and the bound port is
  idle between events.\<close>

theorem node_invariant:
  assumes "node_reach env enrollee s"
  shows "mgmt_wf s \<and> imap_wf (xEfcpImapTable (nd_dp s)) \<and> flows_wf (xFlowRequestTable (nd_dp s))
    \<and> port_wf (xPortIdTable0 (nd_dp s)) (rmt_pxN1Port (nd_dp s))"
proof -
  have "node_inv s"
    using assms by induction (auto intro: boot_inv event_inv)
  then show ?thesis by (simp add: node_inv_def dp_inv_def)
qed

lemma reach_inv: "node_reach env enrollee s \<Longrightarrow> node_inv s"
  by (induction rule: node_reach.induct) (auto intro: boot_inv event_inv)

theorem node_invariant_witness: "mgmt_wf (node_boot ex_nenv)"
  using node_invariant[OF node_reach.boot] by blast

text \<open>No application connection is ever released: in a reachable state the answer to
  a release request changes nothing, whatever the state of the connection.\<close>

theorem connection_never_released:
  assumes "node_reach env enrollee s" "eOpCode m = M_RELEASE_R" "vRibHandleMessage env m port s = Some (r, s')"
  shows "s' = s \<and> r \<and> (\<forall>row\<in>set (xAppConnectionTable s). \<forall>c. pxAppConnection row = Some c \<longrightarrow> xStatus c \<noteq> eRELEASED)"
  using assms(2,3) find_conn_status(2)[OF reach_inv[OF assms(1)]] reach_inv[OF assms(1)]
  by (auto simp: vRibHandleMessage_def Let_def node_inv_def not_released_def
      split: if_splits Option.bind_splits option.splits)

text \<open>The first event of an enrollee.\<close>

definition ex_enrolled :: "node option" where
  "ex_enrolled = prvIpcpTask_event ex_nenv True (ShimEnrolled False 5) (node_boot ex_nenv)"

definition ex_release :: messageCdap_t where
  "ex_release = prvRibMessageCdapInit \<lparr> eOpCode := M_RELEASE_R, pcObjName := Some ''x'' \<rparr>"

lemma ex_enrolled_runs:
  "\<not> Option.is_none ex_enrolled"
  "\<not> Option.is_none (Option.bind ex_enrolled (vRibHandleMessage ex_nenv ex_release 5))"
  by code_simp+

theorem connection_never_released_witness:
  "vRibHandleMessage ex_nenv ex_release 5 (the ex_enrolled) = Some (True, the ex_enrolled)"
proof -
  obtain s where s: "ex_enrolled = Some s"
    using ex_enrolled_runs(1) by (auto simp: Option.is_none_def)
  then have r: "node_reach ex_nenv True s"
    using node_reach.event[OF node_reach.boot, where e = "ShimEnrolled False 5"] by (simp add: ex_enrolled_def)
  obtain q s' where v: "vRibHandleMessage ex_nenv ex_release 5 s = Some (q, s')"
    using ex_enrolled_runs(2) unfolding s by (auto simp: Option.is_none_def)
  show ?thesis
    using connection_never_released[OF r _ v] v unfolding s by (simp add: ex_release_def)
qed

section \<open>Enrollment\<close>

text \<open>A node without application connections and neighbours.\<close>

definition alone :: "node \<Rightarrow> bool" where
  "alone s \<longleftrightarrow> (\<forall>r\<in>set (xAppConnectionTable s). \<not> ac_xValid r) \<and> (\<forall>r\<in>set (xNeighborsTable s). \<not> nb_xValid r)"

lemma alone_conn: "alone s \<Longrightarrow> pxRibdFindAppConnection port (xAppConnectionTable s) = None"
  by (auto simp: alone_def pxRibdFindAppConnection_def first_ix_None)

lemma nbr_scan_alone: "\<forall>r\<in>set t. \<not> nb_xValid r \<Longrightarrow> nbr_scan nam x t = Some None"
  by (induction t arbitrary: x) auto

lemma alone_nbr: "alone s \<Longrightarrow> pxEnrollmentFindNeighbor nam (xNeighborsTable s) = Some None"
  by (simp add: alone_def pxEnrollmentFindNeighbor_def nbr_scan_alone)

lemma alone_cong:
  "alone s \<Longrightarrow> xAppConnectionTable s' = xAppConnectionTable s \<Longrightarrow> xNeighborsTable s' = xNeighborsTable s \<Longrightarrow> alone s'"
  by (simp add: alone_def)

lemma alone_dp [simp]: "alone (s \<lparr> nd_dp := d \<rparr>) = alone s" "alone (s \<lparr> xRibObjectTable := t \<rparr>) = alone s"
  by (simp_all add: alone_def)

lemma create_r_alone: "call_create_response env iid val res s = Some (r, s') \<Longrightarrow> alone s \<Longrightarrow> alone s'"
  by (auto simp: call_create_response_def split: Option.bind_splits elim!: create_r_cases)

lemma adata_alone: "prvRibdHandledAData env bytes s = Some s' \<Longrightarrow> alone s \<Longrightarrow> alone s'"
  by (auto simp: prvRibdHandledAData_def split: Option.bind_splits if_splits dest: create_r_alone)

abbreviation conn_ops :: "u32 set" where
  "conn_ops \<equiv> {M_CONNECT, M_CONNECT_R, M_RELEASE_R, M_START, M_STOP, M_START_R, M_STOP_R}"

lemma message_no_conn:
  assumes "alone s" "eOpCode m \<in> conn_ops"
  shows "vRibHandleMessage env m port s = None"
  using assms(2) unfolding vRibHandleMessage_def Let_def alone_conn[OF assms(1)]
  by (elim insertE emptyE) (simp_all add: bind_eq_None_conv)

lemma message_alone:
  assumes "alone s" "vRibHandleMessage env m port s = Some (r, s')"
  shows "alone s'"
proof -
  have n: "eOpCode m \<notin> conn_ops"
    using assms message_no_conn[of s m env port] by auto
  consider "eOpCode m = M_CREATE" | "eOpCode m = M_CREATE_R" | "eOpCode m = M_WRITE"
    | "eOpCode m \<notin> {M_CREATE, M_CREATE_R, M_WRITE}" by blast
  then show ?thesis
  proof cases
    case 1
    then show ?thesis using assms by (auto simp: vRibHandleMessage_def Let_def split: Option.bind_splits)
  next
    case 2
    then show ?thesis
      using assms by (auto simp: vRibHandleMessage_def Let_def split: Option.bind_splits
          dest!: create_r_alone[OF _ assms(1)])
  next
    case 3
    then show ?thesis
      using assms by (auto simp: vRibHandleMessage_def Let_def split: Option.bind_splits if_splits
          dest!: adata_alone[OF _ assms(1)])
  next
    case 4
    then show ?thesis
    proof (cases "eOpCode m > MAX_CDAP_OPCODE \<or> pxRibFindObject (pcObjName m) (xRibObjectTable s) = None")
      case True
      then have "vRibHandleMessage env m port s = None"
        unfolding vRibHandleMessage_def Let_def by (elim disjE) simp_all
      then show ?thesis using assms(2) by simp
    next
      case False
      then obtain ob where ob: "pxRibFindObject (pcObjName m) (xRibObjectTable s) = Some ob" "\<not> MAX_CDAP_OPCODE < eOpCode m"
        by auto
      have ne: "(eOpCode m = M_CONNECT) = False"
        "(eOpCode m = M_CONNECT_R) = False"
        "(eOpCode m = M_RELEASE_R) = False"
        "(eOpCode m = M_START) = False"
        "(eOpCode m = M_STOP) = False"
        "(eOpCode m = M_START_R) = False"
        "(eOpCode m = M_STOP_R) = False"
        "(eOpCode m = M_CREATE) = False"
        "(eOpCode m = M_CREATE_R) = False"
        "(eOpCode m = M_WRITE) = False"
        using n 4 by (simp_all only: insert_iff empty_iff de_Morgan_disj simp_thms)
      have "vRibHandleMessage env m port s = Some (eOpCode m = M_DELETE, s)"
        unfolding vRibHandleMessage_def Let_def
        by (simp only: ne ob if_False bind.bind_lunit) (cases "eOpCode m = M_DELETE"; simp only: if_True if_False simp_thms)
      then show ?thesis using assms by simp
    qed
  qed
qed

lemma lift_alone: "lift_dp f s = Some (r, s') \<Longrightarrow> alone s \<Longrightarrow> alone s'"
  by (auto simp: lift_dp_def split: Option.bind_splits)

lemma mgmt_post_alone:
  assumes "xNormalMgmtDuPost env port du s = Some (r, s')" "alone s"
  shows "alone s'"
proof -
  have lift: "alone t" if "lift_dp f s = Some (q, t)" for f q t
    using lift_alone[OF that assms(2)] .
  show ?thesis
    using assms
    by (auto simp: xNormalMgmtDuPost_def xRibdProcessLayerManagementPDU_def
        split: if_splits Option.bind_splits dest!: lift message_alone[rotated])
qed

lemma rmt_receive_alone:
  assumes "alone s" "xRmtReceive env du port s = Some (r, s')"
  shows "alone s'"
proof -
  have post: "alone s'" if "xNormalMgmtDuPost env port v (s \<lparr> nd_dp := d \<rparr>) = Some (q, s')" for v d q
    using mgmt_post_alone[OF that] assms(1) by simp
  have lift: "alone s'" if "lift_dp f (s \<lparr> nd_dp := d \<rparr>) = Some (q, s')" for f d q
    using lift_alone[OF that] assms(1) by simp
  show ?thesis
    using assms
    by (auto simp: xRmtReceive_def Let_def xRmtProcessMgmtPdu_def
        split: if_splits Option.bind_splits option.splits dest!: lift_alone[OF _ assms(1)] post lift)
qed

lemma request_alone:
  assumes "alone s"
  shows "vFlowAllocatorFlowRequest env rq s = Some (s \<lparr> nd_dp := (nd_dp s)
    \<lparr> xFlowRequestTable := prvAddFlowRequestEntry (fai_new (fq_xPortId rq) (fq_handle rq)) (xFlowRequestTable (nd_dp s)) \<rparr> \<rparr>)"
  using alone_nbr[OF assms] by (simp add: vFlowAllocatorFlowRequest_def Let_def)

lemma event_alone:
  assumes "alone s" "prvIpcpTask_event env False e s = Some s'"
  shows "alone s'"
proof (cases e)
  case (StackRx du)
  then show ?thesis
    using assms
    by (auto simp: xNormalDuEnqueue_def split: Option.bind_splits if_splits
        dest!: rmt_receive_alone[OF assms(1)] lift_alone)
qed (use assms in \<open>auto simp: vEnrollmentInit_def request_alone
      split: Option.bind_splits if_splits n1ptr.splits option.splits dest: lift_alone\<close>)

lemma coordinator_alone:
  assumes "node_reach env False s"
  shows "alone s"
  using assms
proof (induction rule: node_reach.induct)
  case boot
  show ?case by (simp add: alone_def node_boot_def mgmt.defs mgmt_boot_def)
next
  case (event s e s')
  then show ?case using event_alone by blast
qed

text \<open>C38: A node built with \<open>ieee802154_COORDINATOR\<close> 0, the setting of the repository, never
  gets an application connection or a neighbour: in every reachable state a connect
  message (as well as its answer, a start or a stop) is undefined, as it follows the NULL
  pointer of the connection it did not find, and a request for a flow ends without a
  message sent, its instance left in the table.\<close>

theorem coordinator_never_enrolls:
  assumes "node_reach env False s" "eOpCode m \<in> {M_CONNECT, M_CONNECT_R, M_START, M_STOP, M_START_R, M_STOP_R}"
  shows "vRibHandleMessage env m port s = None
    \<and> (\<exists>s'. vFlowAllocatorFlowRequest env rq s = Some s' \<and> sent s' = sent s
         \<and> xEfcpImapTable (nd_dp s') = xEfcpImapTable (nd_dp s)
         \<and> xFlowRequestTable (nd_dp s') = prvAddFlowRequestEntry (fai_new (fq_xPortId rq) (fq_handle rq)) (xFlowRequestTable (nd_dp s)))"
proof -
  note a = coordinator_alone[OF assms(1)]
  have "vRibHandleMessage env m port s = None"
    using message_no_conn[OF a] assms(2) by auto
  then show ?thesis using request_alone[OF a] by simp
qed

theorem coordinator_never_enrolls_witness:
  "vRibHandleMessage ex_nenv (prvRibMessageCdapInit \<lparr> eOpCode := M_CONNECT \<rparr>) 1 (node_boot ex_nenv) = None"
  using coordinator_never_enrolls[OF node_reach.boot, of "prvRibMessageCdapInit \<lparr> eOpCode := M_CONNECT \<rparr>" ex_nenv 1]
  by simp

end
