(* ===== verification/Node_Rx.thy ===== *)
theory Node_Rx
  imports Rina_Node
begin

text \<open>
  What becomes of a unit that the shim hands to the stack task (the event \<open>StackRx\<close>):
  decapsulated, dispatched by the RMT, accepted or not by DTP and posted to the
  waiting packets of the flow.
\<close>

section \<open>The RMT's dispatch of a data transfer unit\<close>

text \<open>The unit after decapsulation.\<close>

definition rx_unit :: "du_t \<Rightarrow> pci_t \<Rightarrow> u8 list \<Rightarrow> du_t" where
  "rx_unit du p bs = \<lparr> pxPci = Some p, pxNetworkBuffer = (pxNetworkBuffer du)
     \<lparr> xDataLength := (xRinaDataLength (pxNetworkBuffer du) + 2 ^ 32 - 14) mod 2 ^ 32,
       pucDataBuffer := Some bs \<rparr> \<rparr>"

lemma rx_unit_simps [simp]:
  "pxPci (rx_unit du p bs) = Some p" "du_id (rx_unit du p bs) = du_id du"
  "nb_id (pxNetworkBuffer (rx_unit du p bs)) = nb_id (pxNetworkBuffer du)"
  by (simp_all add: rx_unit_def du_id_def)

lemma xDuDecap_rx:
  assumes "pucRinaBuffer (pxNetworkBuffer du) = Some (pci_bytes p @ bs)" "pdu_type_is_ok (pci_xType p)"
    and "free = i # rest" "\<And>n. mem n"
  shows "xDuDecap mem du free = Some (False, rx_unit du p bs, rest)"
  using assms by (simp add: xDuDecap_def pci_parse_bytes Let_def pxGetNetworkBufferWithDescriptor_def rx_unit_def)

lemma dt_type_ok: "pdu_type_is_ok PDU_TYPE_DT" "PDU_TYPE_DT \<in> set rmt_dt_types" "PDU_TYPE_DT \<noteq> PDU_TYPE_MGMT"
  "\<not> pdu_type_is_control PDU_TYPE_DT"
  by (simp_all add: pdu_type_is_ok_def rmt_dt_types_def pdu_type_is_control_def pdu_types)

text \<open>A data transfer unit for this system: what is asked of its header.\<close>

definition dt_for_us :: "pci_t \<Rightarrow> bool" where
  "dt_for_us p \<longleftrightarrow> pci_xType p = PDU_TYPE_DT \<and> pci_xDestination p = LOCAL_ADDRESS_8
     \<and> is_qos_id_ok (pci_xQosId p) \<and> is_cep_id_ok (pci_cepDestination p)"

definition dt_arrives :: "nenv \<Rightarrow> du_t \<Rightarrow> pci_t \<Rightarrow> u8 list \<Rightarrow> dplane \<Rightarrow> bool" where
  "dt_arrives env du p bs s \<longleftrightarrow> pucRinaBuffer (pxNetworkBuffer du) = Some (pci_bytes p @ bs)
     \<and> dt_for_us p \<and> xPortIdTable0 s \<noteq> None \<and> free_desc s \<noteq> [] \<and> (\<forall>n. storage (nv_dp env) n)"

lemma rx_dispatch:
  assumes "dt_arrives env du p bs (nd_dp s)" "xPortIdTable0 (nd_dp s) = Some n1"
  shows "xRmtReceive env du 1 s = lift_dp (xEfcpContainerReceive (nv_dp env) (pci_cepDestination p) (rx_unit du p bs))
    (s \<lparr> nd_dp := (port_put (rx_stats (xRinaDataLength (pxNetworkBuffer du)) n1) (nd_dp s))
        \<lparr> free_desc := tl (free_desc (nd_dp s)) \<rparr> \<rparr>)"
proof -
  obtain i rest where f: "free_desc (nd_dp s) = i # rest"
    using assms(1) by (auto simp: dt_arrives_def neq_Nil_conv)
  have d: "xDuDecap (storage (nv_dp env)) du (free_desc (nd_dp s)) = Some (False, rx_unit du p bs, rest)"
    using assms(1) f by (intro xDuDecap_rx) (auto simp: dt_arrives_def dt_for_us_def dt_type_ok)
  show ?thesis
    using assms d f
    by (simp add: xRmtReceive_def Let_def port_put_def dt_arrives_def dt_for_us_def dt_type_ok
        is_port_id_ok_def is_address_ok_def LOCAL_ADDRESS_8_def lift_dp_def xRmtProcessDtPdu_def)
qed

text \<open>The EFCP instance that a unit reaches: the first row with its endpoint id.\<close>

definition efcp_for :: "pci_t \<Rightarrow> dplane \<Rightarrow> nat option" where
  "efcp_for p s = first_ix (\<lambda>r. xCepIdKey r = pci_cepDestination p) (xEfcpImapTable s)"

definition rx_conn :: "pci_t \<Rightarrow> efcp_t \<Rightarrow> efcp_t" where
  "rx_conn p e = (if xDestinationCepId (pxConnection e) \<noteq> CEP_ID_WRONG
     then e \<lparr> pxConnection := (pxConnection e) \<lparr> xDestinationCepId := pci_cepDestination p \<rparr> \<rparr> else e)"

lemma rx_conn_simps [simp]:
  "cn_xPortId (pxConnection (rx_conn p e)) = cn_xPortId (pxConnection e)"
  "pxDtpStateVector (rx_conn p e) = pxDtpStateVector e" "efcp_freed (rx_conn p e) = efcp_freed e"
  by (simp_all add: rx_conn_def)

lemma efcp_at_value:
  "efcp_at x s = Some e \<longleftrightarrow> xEfcpValue (xEfcpImapTable s ! x) = Some e \<and> \<not> efcp_freed e"
  by (auto simp: efcp_at_def split: option.splits)

lemma rx_container:
  assumes "dt_for_us p" "pxPci du = Some p" "efcp_for p s = Some x" "efcp_at x s = Some e"
    and "efcp_xState e = eEfcpAllocated"
  shows "\<exists>t. xEfcpContainerReceive env (pci_cepDestination p) du s =
      xDtpReceive x du t
    \<and> efcp_at x t = Some (rx_conn p e) \<and> x < length (xEfcpImapTable t)
    \<and> xFlowRequestTable t = xFlowRequestTable s \<and> free_desc t = free_desc s"
proof -
  have x: "x < length (xEfcpImapTable s)" using assms(3) by (auto simp: efcp_for_def dest: first_ix_less)
  define t0 where "t0 = s \<lparr> xEfcpImapTable :=
    (xEfcpImapTable s)[x := (xEfcpImapTable s ! x) \<lparr> ucValid := 1 \<rparr>] \<rparr>"
  have f: "imap_find (pci_cepDestination p) s = (Some x, t0)"
    using assms(3,4) by (simp add: imap_find_def pxEfcpImapFind_def efcp_for_def efcp_at_value t0_def)
  have e: "efcp_at x t0 = Some e" using assms(4) x by (simp add: efcp_at_value t0_def)
  have nf: "\<not> efcp_freed (rx_conn p e)" using assms(4) by (simp add: efcp_at_value)
  have "xEfcpContainerReceive env (pci_cepDestination p) du s = xEfcpReceive env x du (efcp_put x (rx_conn p e) t0)"
    using assms(1,2,5) f e
    by (simp add: xEfcpContainerReceive_def dt_for_us_def Let_def rx_conn_def)
  also have "\<dots> = xDtpReceive x du (efcp_put x (rx_conn p e) t0)"
    using assms(1,2) by (simp add: xEfcpReceive_def dt_for_us_def dt_type_ok)
  finally show ?thesis
    using efcp_at_put[OF e _ nf] x
    by (intro exI[of _ "efcp_put x (rx_conn p e) t0"]) (simp add: t0_def efcp_put_def)
qed

lemma lift_dp_Some: "f (nd_dp s) = Some (r, d) \<Longrightarrow> lift_dp f s = Some (r, s \<lparr> nd_dp := d \<rparr>)"
  by (simp add: lift_dp_def)

text \<open>A unit for this system that reaches an endpoint: what the normal IPC process does, and
  the event.\<close>

lemma rx_enqueue:
  assumes "dt_arrives env du p bs (nd_dp s)"
    and "efcp_for p (nd_dp s) = Some x" "efcp_at x (nd_dp s) = Some e" "efcp_xState e = eEfcpAllocated"
  obtains t where "efcp_at x t = Some (rx_conn p e)" "x < length (xEfcpImapTable t)"
    "xFlowRequestTable t = xFlowRequestTable (nd_dp s)" "free_desc t = tl (free_desc (nd_dp s))"
    "xNormalDuEnqueue env 1 du s = do {
       (r, u) \<leftarrow> xDtpReceive x (rx_unit du p bs) t; Some (r, s \<lparr> nd_dp := u \<rparr>) }"
proof -
  obtain n1 where n1: "xPortIdTable0 (nd_dp s) = Some n1" using assms(1) by (auto simp: dt_arrives_def)
  define d where "d = (port_put (rx_stats (xRinaDataLength (pxNetworkBuffer du)) n1) (nd_dp s))
        \<lparr> free_desc := tl (free_desc (nd_dp s)) \<rparr>"
  have p: "dt_for_us p" using assms(1) by (simp add: dt_arrives_def)
  have d': "efcp_for p d = Some x" "efcp_at x d = Some e" "free_desc d = tl (free_desc (nd_dp s))"
    "xFlowRequestTable d = xFlowRequestTable (nd_dp s)"
    using assms(2,3) by (simp_all add: d_def port_put_def efcp_for_def efcp_at_def)
  obtain t where t: "xEfcpContainerReceive (nv_dp env) (pci_cepDestination p) (rx_unit du p bs) d
        = xDtpReceive x (rx_unit du p bs) t"
      "efcp_at x t = Some (rx_conn p e)" "x < length (xEfcpImapTable t)"
      "xFlowRequestTable t = xFlowRequestTable d" "free_desc t = free_desc d"
    using rx_container[OF p rx_unit_simps(1) d'(1,2) assms(4)] by blast
  have l: "lift_dp f (s \<lparr> nd_dp := d \<rparr>) = do { (r, u) \<leftarrow> f d; Some (r, s \<lparr> nd_dp := u \<rparr>) }" for f
    by (simp add: lift_dp_def)
  have "xNormalDuEnqueue env 1 du s = do {
      (r, u) \<leftarrow> xDtpReceive x (rx_unit du p bs) t; Some (r, s \<lparr> nd_dp := u \<rparr>) }"
    unfolding xNormalDuEnqueue_def rx_dispatch[OF assms(1) n1] d_def[symmetric] l t(1) ..
  then show ?thesis using t d' by (intro that[of t]) simp_all
qed

lemma rx_event:
  assumes "dt_arrives env du p bs (nd_dp s)"
    and "efcp_for p (nd_dp s) = Some x" "efcp_at x (nd_dp s) = Some e" "efcp_xState e = eEfcpAllocated"
  obtains t where "efcp_at x t = Some (rx_conn p e)" "x < length (xEfcpImapTable t)"
    "xFlowRequestTable t = xFlowRequestTable (nd_dp s)" "free_desc t = tl (free_desc (nd_dp s))"
    "prvIpcpTask_event env enrollee (StackRx du) s = do {
       (r, d) \<leftarrow> xDtpReceive x (rx_unit du p bs) t;
       d \<leftarrow> (if r then Some d else destroy du d);
       Some (s \<lparr> nd_dp := d \<rparr>) }"
proof -
  obtain t where t: "efcp_at x t = Some (rx_conn p e)" "x < length (xEfcpImapTable t)"
    "xFlowRequestTable t = xFlowRequestTable (nd_dp s)" "free_desc t = tl (free_desc (nd_dp s))"
    and eq: "xNormalDuEnqueue env 1 du s = do {
       (r, u) \<leftarrow> xDtpReceive x (rx_unit du p bs) t; Some (r, s \<lparr> nd_dp := u \<rparr>) }"
    by (rule rx_enqueue[OF assms])
  have "prvIpcpTask_event env enrollee (StackRx du) s = do {
       (r, d) \<leftarrow> xDtpReceive x (rx_unit du p bs) t;
       d \<leftarrow> (if r then Some d else destroy du d);
       Some (s \<lparr> nd_dp := d \<rparr>) }"
  proof (cases "xDtpReceive x (rx_unit du p bs) t")
    case (Some q)
    then show ?thesis
      by (cases q; cases "fst q"; cases "destroy du (snd q)") (simp_all add: eq lift_dp_def destroy_and_def)
  qed (simp add: eq)
  then show ?thesis using t by (intro that[of t]) simp_all
qed

text \<open>A unit that is posted, as the normal IPC process sees it.\<close>

lemma rx_posted:
  assumes "dt_arrives env du p bs (nd_dp s)"
    and "efcp_for p (nd_dp s) = Some x" "efcp_at x (nd_dp s) = Some e" "efcp_xState e = eEfcpAllocated"
    and "flow_ready (cn_xPortId (pxConnection e)) (nd_dp s)"
    and "fst (dtp_accept (pxDtpStateVector e) p)" "du_id du \<notin> set (free_desc (nd_dp s))"
  obtains d where "xNormalDuEnqueue env 1 du s = Some (True, s \<lparr> nd_dp := d \<rparr>)"
    "waiting d = insert_second (pxNetworkBuffer (rx_unit du p bs)) (waiting (nd_dp s))"
    "free_desc d = tl (free_desc (nd_dp s))"
proof -
  obtain t where t: "efcp_at x t = Some (rx_conn p e)" "x < length (xEfcpImapTable t)"
    "xFlowRequestTable t = xFlowRequestTable (nd_dp s)" "free_desc t = tl (free_desc (nd_dp s))"
    and eq: "xNormalDuEnqueue env 1 du s = do {
       (r, u) \<leftarrow> xDtpReceive x (rx_unit du p bs) t; Some (r, s \<lparr> nd_dp := u \<rparr>) }"
    by (rule rx_enqueue[OF assms(1-4)])
  obtain sv where a: "dtp_accept (pxDtpStateVector (rx_conn p e)) p = (True, sv)"
    using assms(6) by (cases "dtp_accept (pxDtpStateVector e) p") auto
  have f: "flow_ready (cn_xPortId (pxConnection (rx_conn p e))) t"
    using assms(5) flow_ready_cong[OF t(3)] by simp
  have n: "du_id (rx_unit du p bs) \<notin> set (free_desc t)"
    using assms(7) t(4) by (cases "free_desc (nd_dp s)") simp_all
  have w: "waiting t = waiting (nd_dp s)" using t(3) by (simp add: waiting_def)
  from xDtpReceive_step[OF t(1,2) rx_unit_simps(1) f n a] obtain r s' where
      s': "xDtpReceive x (rx_unit du p bs) t = Some (r, s')" "True \<longrightarrow> r"
      "waiting s' = (if True then insert_second (pxNetworkBuffer (rx_unit du p bs)) (waiting t) else waiting t)"
      "free_desc s' = (if True then free_desc t else du_id (rx_unit du p bs) # free_desc t)"
    by blast
  then show ?thesis using that[of s'] eq t(4) w by simp
qed

section \<open>Properties\<close>

text \<open>C9: A unit that arrives for this system, on an endpoint whose flow is allocated
  and with a number that DTP accepts, is posted to the waiting packets of the flow with
  the bytes after its header as data, its descriptor with it.  One more descriptor
  leaves the pool and is held by nobody: the pool shrinks with every unit received.\<close>

theorem rx_delivered:
  assumes "dt_arrives env du p bs (nd_dp s)"
    and "efcp_for p (nd_dp s) = Some x" "efcp_at x (nd_dp s) = Some e" "efcp_xState e = eEfcpAllocated"
    and "flow_ready (cn_xPortId (pxConnection e)) (nd_dp s)"
    and "fst (dtp_accept (pxDtpStateVector e) p)" "du_id du \<notin> set (free_desc (nd_dp s))"
  shows "\<exists>s'. prvIpcpTask_event env enrollee (StackRx du) s = Some s'
    \<and> waiting (nd_dp s') = insert_second (pxNetworkBuffer (rx_unit du p bs)) (waiting (nd_dp s))
    \<and> free_desc (nd_dp s') = tl (free_desc (nd_dp s))"
proof -
  obtain d where "xNormalDuEnqueue env 1 du s = Some (True, s \<lparr> nd_dp := d \<rparr>)"
    "waiting d = insert_second (pxNetworkBuffer (rx_unit du p bs)) (waiting (nd_dp s))"
    "free_desc d = tl (free_desc (nd_dp s))"
    by (rule rx_posted[OF assms])
  then show ?thesis by simp
qed

text \<open>A unit on the wire: the header \<open>p\<close> and two bytes.\<close>

definition ex_wire :: "nat \<Rightarrow> pci_t \<Rightarrow> du_t" where
  "ex_wire i p = \<lparr> pxPci = None, pxNetworkBuffer = ex_nb i None (Some (pci_bytes p @ [5, 6])) 16 0 \<rparr>"

definition ex_rx :: "bool \<Rightarrow> dplane" where
  "ex_rx drf = ex_bound \<lparr> xEfcpImapTable := snd (xEfcpImapAdd 1 (sv_update (\<lambda>v. v \<lparr> xDrfRequired := drf \<rparr>) ex_efcp)
     xEfcpImapCreate) \<rparr>"

lemma ex_rx_facts:
  "dt_arrives ex_nenv (ex_wire 7 (ex_pci PDU_TYPE_DT 1)) (ex_pci PDU_TYPE_DT 1) [5, 6] (ex_rx b)"
  "efcp_for (ex_pci PDU_TYPE_DT 1) (ex_rx b) = Some 0"
  "efcp_at 0 (ex_rx b) = Some (sv_update (\<lambda>v. v \<lparr> xDrfRequired := b \<rparr>) ex_efcp)"
  "waiting (ex_rx b) = []" "free_desc (ex_rx b) = [0]" "flow_ready 33 (ex_rx b)"
  by (simp_all add: dt_arrives_def ex_wire_def ex_nb_def dt_for_us_def ex_pci_def ex_rx_def ex_bound_def
      ex_plane_def LOCAL_ADDRESS_8_def is_qos_id_ok_def is_cep_id_ok_def ex_nenv_def ex_env_def efcp_for_def
      xEfcpImapAdd_def xEfcpImapCreate_def EFCP_IMAP_ENTRIES_def numeral_3_eq_3 efcp_at_value
      sv_update_def ex_efcp_def waiting_def flow_ready_def ex_fai_def is_port_id_ok_def)

theorem rx_delivered_witness:
  "\<exists>s'. prvIpcpTask_event ex_nenv False (StackRx (ex_wire 7 (ex_pci PDU_TYPE_DT 1))) (ex_node (ex_rx True)) = Some s'
    \<and> map pucDataBuffer (waiting (nd_dp s')) = [Some [5, 6]] \<and> free_desc (nd_dp s') = []"
proof -
  let ?p = "ex_pci PDU_TYPE_DT 1" let ?du = "ex_wire 7 ?p"
  have "fst (dtp_accept (pxDtpStateVector (sv_update (\<lambda>v. v \<lparr> xDrfRequired := True \<rparr>) ex_efcp)) ?p)"
    "efcp_xState (sv_update (\<lambda>v. v \<lparr> xDrfRequired := True \<rparr>) ex_efcp) = eEfcpAllocated"
    "cn_xPortId (pxConnection (sv_update (\<lambda>v. v \<lparr> xDrfRequired := True \<rparr>) ex_efcp)) = 33"
    by (simp_all add: dtp_accept_def sv_update_def ex_pci_def PDU_FLAGS_DATA_RUN_def ex_efcp_def)
  moreover have "du_id ?du = 7" by (simp add: ex_wire_def du_id_def ex_nb_def)
  ultimately show ?thesis
    using rx_delivered[of ex_nenv ?du ?p "[5, 6]" "ex_node (ex_rx True)" 0
        "sv_update (\<lambda>v. v \<lparr> xDrfRequired := True \<rparr>) ex_efcp" False] ex_rx_facts[of True]
    by (auto simp: rx_unit_def)
qed

lemma destroy_twice:
  "destroy du s = Some t \<Longrightarrow> du_id u = du_id du \<Longrightarrow> destroy u t = None"
  by (auto simp: destroy_def xDuDestroy_def vReleaseNetworkBufferAndDescriptor_def du_id_def
      split: Option.bind_splits if_splits)

lemma rx_duplicate:
  assumes "dt_arrives env du p bs (nd_dp s)"
    and "efcp_for p (nd_dp s) = Some x" "efcp_at x (nd_dp s) = Some e" "efcp_xState e = eEfcpAllocated"
    and "\<not> xDrfRequired (pxDtpStateVector e)" "xSequenceNumber p \<le> xRcvLeftWindowEdge (pxDtpStateVector e)"
  shows "prvIpcpTask_event env enrollee (StackRx du) s = None"
proof -
  obtain t where t: "efcp_at x t = Some (rx_conn p e)"
    and ev: "prvIpcpTask_event env enrollee (StackRx du) s = do {
       (r, d) \<leftarrow> xDtpReceive x (rx_unit du p bs) t;
       d \<leftarrow> (if r then Some d else destroy du d);
       Some (s \<lparr> nd_dp := d \<rparr>) }"
    by (rule rx_event[OF assms(1-4)])
  obtain n where "xDuDataLen (rx_unit du p bs) = Some n" using xDuDataLen_Some[OF rx_unit_simps(1)] by blast
  then have "xDtpReceive x (rx_unit du p bs) t = destroy_and False (rx_unit du p bs) t"
    using t assms(5,6) by (simp add: xDtpReceive_def Let_def)
  then show ?thesis
    unfolding ev using destroy_twice[of "rx_unit du p bs" t _ du]
    by (cases "destroy (rx_unit du p bs) t") (simp_all add: destroy_and_def)
qed

text \<open>A unit that the RMT destroys and refuses.\<close>

lemma rx_refused:
  assumes "xRmtReceive env du 1 s = lift_dp (destroy_and False u) t" "du_id u = du_id du"
  shows "prvIpcpTask_event env enrollee (StackRx du) s = None"
  using destroy_twice[of u "nd_dp t" _ du] assms
  by (cases "destroy u (nd_dp t)") (simp_all add: xNormalDuEnqueue_def lift_dp_def destroy_and_def)

lemma rx_bad_type:
  assumes "xPortIdTable0 (nd_dp s) = Some n1" "pucRinaBuffer (pxNetworkBuffer du) = Some (pci_bytes p @ bs)"
    and "\<not> pdu_type_is_ok (pci_xType p)"
  shows "prvIpcpTask_event env enrollee (StackRx du) s = None"
  using assms
  by (intro rx_refused) (auto simp: xRmtReceive_def Let_def xDuDecap_def pci_parse_bytes is_port_id_ok_def port_put_def)

lemma rx_empty_pool:
  assumes "xPortIdTable0 (nd_dp s) = Some n1" "pucRinaBuffer (pxNetworkBuffer du) = Some (pci_bytes p @ bs)"
    and "free_desc (nd_dp s) = []" "pxPci du = None"
  shows "prvIpcpTask_event env enrollee (StackRx du) s = None"
proof (cases "pdu_type_is_ok (pci_xType p)")
  case True
  then show ?thesis
    using assms by (simp add: xNormalDuEnqueue_def xRmtReceive_def Let_def xDuDecap_def pci_parse_bytes
        is_port_id_ok_def port_put_def pxGetNetworkBufferWithDescriptor_def)
qed (rule rx_bad_type[OF assms(1,2)])

text \<open>C37: Three units that stop the stack task.  A duplicate: a unit whose number is not
  beyond the left window edge is destroyed by DTP and refused, and the stack task
  destroys it again, so that the release aborts.  A unit whose type is not valid, in the
  same way.  And without a free descriptor every unit, as the header of the unit is then
  read before it is set.\<close>

theorem rx_aborts:
  assumes "xPortIdTable0 (nd_dp s) \<noteq> None" "pucRinaBuffer (pxNetworkBuffer du) = Some (pci_bytes p @ bs)"
    and "dt_arrives env du p bs (nd_dp s) \<and> efcp_for p (nd_dp s) = Some x \<and> efcp_at x (nd_dp s) = Some e
        \<and> efcp_xState e = eEfcpAllocated \<and> \<not> xDrfRequired (pxDtpStateVector e)
        \<and> xSequenceNumber p \<le> xRcvLeftWindowEdge (pxDtpStateVector e)
      \<or> \<not> pdu_type_is_ok (pci_xType p)
      \<or> free_desc (nd_dp s) = [] \<and> pxPci du = None"
  shows "prvIpcpTask_event env enrollee (StackRx du) s = None"
  using assms rx_duplicate[of env du p bs s x e enrollee] rx_bad_type[of s _ du p bs env enrollee]
    rx_empty_pool[of s _ du p bs env enrollee]
  by blast

theorem rx_aborts_witness:
  "prvIpcpTask_event ex_nenv False (StackRx (ex_wire 7 (ex_pci 0x11 1))) (ex_node (ex_rx True)) = None"
  using rx_aborts[of "ex_node (ex_rx True)" "ex_wire 7 (ex_pci 0x11 1)" "ex_pci 0x11 1" "[5, 6]"]
  by (simp add: ex_wire_def ex_nb_def ex_rx_def ex_bound_def pdu_type_is_ok_def pdu_types ex_pci_def)

end
