(* ===== verification/Rina_Time.thy ===== *)
theory Rina_Time
  imports Rina_Prelude
begin

text \<open>
  Time: the waiting times and time-outs of \<open>Portability/posix/posix_rstime.c\<close> and the
  timers of \<open>Rina-manager/Common/rina_timer.c\<close>.  What \<open>clock_gettime\<close> answers is an
  argument, \<open>None\<close> when it fails.  \<open>useconds_t\<close> and \<open>long\<close> have 32 bits, \<open>time_t\<close> has 64.
\<close>

record timespec =
  tv_sec :: int
  tv_nsec :: int

definition ts_ok :: "timespec \<Rightarrow> bool" where
  "ts_ok t \<longleftrightarrow> 0 \<le> tv_sec t \<and> 0 \<le> tv_nsec t \<and> tv_nsec t < 1000000000"

definition ts_ns :: "timespec \<Rightarrow> int" where
  "ts_ns t = tv_sec t * 1000000000 + tv_nsec t"

section \<open>Waiting times\<close>

definition rstime_waitsec :: "timespec option \<Rightarrow> u32 \<Rightarrow> timespec option" where
  "rstime_waitsec clk n = map_option (\<lambda>t. t \<lparr> tv_sec := tv_sec t + uint n \<rparr>) clk"

text \<open>The assertion at the end is part of the result: it fails with \<open>Some None\<close>.\<close>

definition rstime_waitnsec :: "timespec option \<Rightarrow> u64 \<Rightarrow> timespec option option" where
  "rstime_waitnsec clk n =
     (case clk of
        None \<Rightarrow> None
      | Some t \<Rightarrow>
          let t = t \<lparr> tv_sec := tv_sec t + uint (n div 1000000000),
                      tv_nsec := tv_nsec t + uint (n mod 1000000000) \<rparr>;
              t = (if tv_nsec t \<ge> 1000000000
                   then t \<lparr> tv_nsec := tv_nsec t - 1000000000, tv_sec := tv_sec t + 1 \<rparr> else t)
          in Some (if tv_nsec t \<le> 999999999 then Some t else None))"

text \<open>The macros multiply at the width of \<open>useconds_t\<close>.\<close>

definition rstime_waitmsec :: "timespec option \<Rightarrow> u32 \<Rightarrow> timespec option option" where
  "rstime_waitmsec clk n = rstime_waitnsec clk (ucast (n * 1000000))"

definition rstime_waitusec :: "timespec option \<Rightarrow> u32 \<Rightarrow> timespec option option" where
  "rstime_waitusec clk n = rstime_waitnsec clk (ucast (n * 1000))"

section \<open>Time-outs\<close>

definition xRsTimeSetTimeOut :: "timespec option \<Rightarrow> timespec option" where
  "xRsTimeSetTimeOut clk = clk"

definition SEC_TO_NS :: "int \<Rightarrow> int" where "SEC_TO_NS s = s * 1000000000"

text \<open>The time left and the time saved in the time-out object.\<close>

definition xRsTimeCheckTimeOut :: "timespec option \<Rightarrow> timespec \<Rightarrow> u32 \<Rightarrow> (u32 \<times> timespec) option" where
  "xRsTimeCheckTimeOut clk t left =
     (case clk of
        None \<Rightarrow> None
      | Some c \<Rightarrow>
          let unNsTimeThen = word_of_int (SEC_TO_NS (tv_sec t) + tv_nsec t) :: u64;
              unNsTimeNow = word_of_int (SEC_TO_NS (tv_sec c) + tv_nsec c) :: u64;
              unNsTimeDone = unNsTimeThen + ucast (left * 1000);
              nNsTimeLeft = sint (unNsTimeDone - unNsTimeNow)
          in Some (if nNsTimeLeft > 0 then word_of_int (nNsTimeLeft div 1000) else 0, c))"

section \<open>Timers\<close>

record IPCPTimer_t =
  bActive :: bool
  bExpired :: bool
  xTimeOut :: timespec
  ulRemainingTimeUS :: u32
  ulReloadTimeUS :: u32

text \<open>When the clock fails, the structure it should have filled is read all the same
  (\<open>junk\<close>).\<close>

definition vIPCPTimerStart :: "timespec option \<Rightarrow> timespec \<Rightarrow> u32 \<Rightarrow> IPCPTimer_t \<Rightarrow> IPCPTimer_t" where
  "vIPCPTimerStart clk junk us t =
     (let n = (case clk of Some c \<Rightarrow> c | None \<Rightarrow> junk);
          nsec = us * 1000 + word_of_int (tv_nsec n)
      in t \<lparr> xTimeOut := \<lparr> tv_sec = uint (nsec div 1000000000), tv_nsec = uint (nsec mod 1000000000) \<rparr>,
             ulRemainingTimeUS := us, bExpired := (us = 0), bActive := True \<rparr>)"

definition bIPCPTimerCheck :: "timespec option \<Rightarrow> timespec \<Rightarrow> IPCPTimer_t \<Rightarrow> bool \<times> IPCPTimer_t" where
  "bIPCPTimerCheck clk junk t =
     (if \<not> bActive t then (False, t)
      else let n = (case clk of Some c \<Rightarrow> c | None \<Rightarrow> junk);
               t = (if \<not> bExpired t
                    then t \<lparr> bExpired := (if tv_sec n = tv_sec (xTimeOut t)
                                         then tv_nsec n < tv_nsec (xTimeOut t)
                                         else tv_sec n < tv_sec (xTimeOut t)) \<rparr>
                    else t)
           in if bExpired t then (True, vIPCPTimerStart clk junk (ulReloadTimeUS t) t) else (False, t))"

definition vIPCPTimerReload :: "timespec option \<Rightarrow> timespec \<Rightarrow> u32 \<Rightarrow> IPCPTimer_t \<Rightarrow> IPCPTimer_t" where
  "vIPCPTimerReload clk junk us t = vIPCPTimerStart clk junk us (t \<lparr> ulReloadTimeUS := us \<rparr>)"

section \<open>Arithmetic\<close>

lemma u32_times_1000: "uint ((n::u32) * 1000) = uint n * 1000 mod 2 ^ 32"
  by (simp add: uint_word_ariths)

lemma uint_word_of_int_u32: "0 \<le> i \<Longrightarrow> i < 2 ^ 32 \<Longrightarrow> uint (word_of_int i :: u32) = i"
  by (simp add: uint_word_of_int)

lemma sint_word_of_int_u64: "- (2 ^ 63) \<le> i \<Longrightarrow> i < 2 ^ 63 \<Longrightarrow> sint (word_of_int i :: u64) = i"
  by (simp add: int_word_sint mod_pos_pos_trivial)

text \<open>The nanoseconds left at a check, as the code computes them.\<close>

definition time_rest :: "u32 \<Rightarrow> timespec \<Rightarrow> timespec \<Rightarrow> int" where
  "time_rest left t c = uint left * 1000 mod 2 ^ 32 - (ts_ns c - ts_ns t)"

lemma wait_ok:
  assumes "ts_ok t"
  shows "\<exists>u. rstime_waitnsec (Some t) n = Some (Some u) \<and> ts_ok u \<and> ts_ns u = ts_ns t + uint n"
proof -
  define q r where "q = uint n div 1000000000" and "r = uint n mod 1000000000"
  have d: "uint (n div 1000000000) = q" "uint (n mod 1000000000) = r"
    by (simp_all add: q_def r_def uint_div uint_mod)
  have qr: "0 \<le> q" "0 \<le> r" "r < 1000000000" "uint n = q * 1000000000 + r"
    by (simp_all add: q_def r_def pos_imp_zdiv_nonneg_iff)
  show ?thesis
    using assms qr unfolding rstime_waitnsec_def
    by (simp add: Let_def ts_ok_def ts_ns_def d)
qed

lemma wait_works: "ts_ok t \<Longrightarrow> \<exists>u. rstime_waitusec (Some t) us = Some (Some u)"
  using wait_ok[of t "ucast (us * 1000)"] by (auto simp: rstime_waitusec_def)

section \<open>Properties\<close>

text \<open>\<open>rstime_waitnsec\<close> answers the time \<open>n\<close> nanoseconds after the clock's, as a
  valid \<open>timespec\<close>: its assertion never fails.  Through the macro for microseconds the
  time is that modulo \<open>2 ^ 32\<close> nanoseconds, so every wait is shorter than 4.3 seconds.\<close>

theorem wait_time:
  assumes "ts_ok t"
  shows "(\<exists>u. rstime_waitnsec (Some t) n = Some (Some u) \<and> ts_ok u \<and> ts_ns u = ts_ns t + uint n)
    \<and> (\<exists>u. rstime_waitusec (Some t) k = Some (Some u) \<and> ts_ok u
         \<and> ts_ns u = ts_ns t + uint k * 1000 mod 2 ^ 32)"
proof -
  have "uint (ucast (k * 1000) :: u64) = uint k * 1000 mod 2 ^ 32"
    by (simp add: u32_times_1000 unsigned_ucast_eq take_bit_eq_mod)
  then show ?thesis using wait_ok[OF assms, of n] wait_ok[OF assms, of "ucast (k * 1000)"] by (simp add: rstime_waitusec_def)
qed

theorem wait_time_witness:
  "\<exists>u. rstime_waitusec (Some \<lparr> tv_sec = 1, tv_nsec = 0 \<rparr>) 5000000 = Some (Some u) \<and> ts_ns u = 1705032704"
  using wait_time[of "\<lparr> tv_sec = 1, tv_nsec = 0 \<rparr>" 0 5000000] by (auto simp: ts_ok_def ts_ns_def)

text \<open>The time left after a check of a time-out is what was left before, less the
  time since the last check, rounded down to microseconds, and 0 when nothing is left.
  What was left is taken modulo \<open>2 ^ 32\<close> nanoseconds, so that this is exact only
  for less than 4.3 seconds.\<close>

theorem timeout_check:
  assumes "ts_ok t" "ts_ok c" "ts_ns t \<le> ts_ns c" "ts_ns c < 2 ^ 62"
  shows "\<exists>left'. xRsTimeCheckTimeOut (Some c) t left = Some (left', c)
    \<and> uint left' = (if time_rest left t c > 0 then time_rest left t c div 1000 else 0)
    \<and> (uint left < 4294968 \<longrightarrow> time_rest left t c = uint left * 1000 - (ts_ns c - ts_ns t))"
proof -
  define rest where "rest = time_rest left t c"
  have nn: "0 \<le> ts_ns t" using assms(1) by (simp add: ts_ok_def ts_ns_def)
  have m: "0 \<le> uint left * 1000 mod 2 ^ 32" "uint left * 1000 mod 2 ^ 32 < 2 ^ 32" by simp_all
  have e: "ucast (left * 1000) = (word_of_int (uint left * 1000 mod 2 ^ 32) :: u64)"
    by (simp only: ucast_eq u32_times_1000)
  have s: "(word_of_int (SEC_TO_NS (tv_sec t) + tv_nsec t) :: u64) + ucast (left * 1000)
      - word_of_int (SEC_TO_NS (tv_sec c) + tv_nsec c) = word_of_int rest"
    unfolding e rest_def time_rest_def ts_ns_def SEC_TO_NS_def by (simp add: algebra_simps)
  have r: "sint (word_of_int rest :: u64) = rest"
    using m nn assms(3,4) by (intro sint_word_of_int_u64) (simp_all add: rest_def time_rest_def)
  have lt: "rest < 2 ^ 32" using m assms(3) by (simp add: rest_def time_rest_def)
  have small: "rest > 0 \<Longrightarrow> uint (word_of_int (rest div 1000) :: u32) = rest div 1000"
    using lt by (intro uint_word_of_int_u32) (auto simp: pos_imp_zdiv_nonneg_iff)
  have x: "uint left < 4294968 \<Longrightarrow> uint left * 1000 mod 2 ^ 32 = uint left * 1000"
    by (intro mod_pos_pos_trivial) simp_all
  have "xRsTimeCheckTimeOut (Some c) t left = Some (if rest > 0 then word_of_int (rest div 1000) else 0, c)"
    unfolding xRsTimeCheckTimeOut_def Let_def option.case s r ..
  moreover have "uint left < 4294968 \<longrightarrow> rest = uint left * 1000 - (ts_ns c - ts_ns t)"
    using x by (simp add: rest_def time_rest_def)
  ultimately show ?thesis using small by (simp add: rest_def)
qed

theorem timeout_check_witness:
  "\<exists>left'. xRsTimeCheckTimeOut (Some \<lparr> tv_sec = 2, tv_nsec = 0 \<rparr>) \<lparr> tv_sec = 1, tv_nsec = 0 \<rparr> 3000000
     = Some (left', \<lparr> tv_sec = 2, tv_nsec = 0 \<rparr>) \<and> uint left' = 2000000"
  using timeout_check[of "\<lparr> tv_sec = 1, tv_nsec = 0 \<rparr>" "\<lparr> tv_sec = 2, tv_nsec = 0 \<rparr>" 3000000]
  by (auto simp: ts_ok_def ts_ns_def time_rest_def)

text \<open>A timer never expires: started or reloaded with a time other than 0, it answers
  that it has not expired and stays as it is, at every time after the first five seconds
  of the epoch.  The time-out is computed without the seconds of the clock, and the
  test of the check is inverted.\<close>

theorem timer_never_expires:
  assumes "us \<noteq> 0" "t = vIPCPTimerStart clk junk us t0 \<or> t = vIPCPTimerReload clk junk us t0" "5 \<le> tv_sec c"
  shows "bIPCPTimerCheck (Some c) junk' t = (False, t)"
proof -
  obtain n where n: "xTimeOut t = \<lparr> tv_sec = uint ((n::u32) div 1000000000), tv_nsec = uint (n mod 1000000000) \<rparr>"
    "bActive t" "\<not> bExpired t"
    using assms(1,2) by (auto simp: vIPCPTimerReload_def vIPCPTimerStart_def Let_def)
  have "uint n div 1000000000 < 5"
    using uint_lt2p[of n] by simp
  then have "tv_sec (xTimeOut t) < 5" using n(1) by (simp add: uint_div)
  moreover have "t \<lparr> bExpired := False \<rparr> = t" using n(3) by (cases t) simp
  ultimately show ?thesis
    using n(2,3) assms(3) by (simp add: bIPCPTimerCheck_def Let_def)
qed

theorem timer_never_expires_witness:
  "bIPCPTimerCheck (Some \<lparr> tv_sec = 1700000000, tv_nsec = 0 \<rparr>) \<lparr> tv_sec = 0, tv_nsec = 0 \<rparr>
     (vIPCPTimerStart (Some \<lparr> tv_sec = 5, tv_nsec = 0 \<rparr>) \<lparr> tv_sec = 0, tv_nsec = 0 \<rparr> 10
        \<lparr> bActive = False, bExpired = False, xTimeOut = \<lparr> tv_sec = 0, tv_nsec = 0 \<rparr>, ulRemainingTimeUS = 0,
          ulReloadTimeUS = 0 \<rparr>)
   = (False, vIPCPTimerStart (Some \<lparr> tv_sec = 5, tv_nsec = 0 \<rparr>) \<lparr> tv_sec = 0, tv_nsec = 0 \<rparr> 10
        \<lparr> bActive = False, bExpired = False, xTimeOut = \<lparr> tv_sec = 0, tv_nsec = 0 \<rparr>, ulRemainingTimeUS = 0,
          ulReloadTimeUS = 0 \<rparr>)"
  by (rule timer_never_expires[OF _ disjI1[OF refl]]) simp_all

end
