(* ===== verification/Rsrc_Pool.thy ===== *)
theory Rsrc_Pool
  imports Rina_Prelude "HOL-Library.Monad_Syntax"
begin

text \<open>
  Resource pools: \<open>Rina-manager/Common/rsrc.c\<close>.  A resource is a number, handed out in
  order by the heap; \<open>magic\<close> tells the resources whose flag is \<open>RESFREE_MAGIC\<close>, which
  the links of the active list overwrite.  The chain of the free list and the ring of
  the active list are lists of resources.  Helper functions, which the repository
  only sets for printing, are left out, and so is the out-of-memory function, which it
  does not set: running out of memory aborts.  An operation that aborts is \<open>None\<close>, a
  NULL pointer answered is \<open>Some (None, _)\<close>.
\<close>

record rsrcPool =
  pxFreelist :: "nat list"
  xActive :: "nat list"
  pl_pcName :: string
  ulTotalAllocs :: nat
  uxSizeEach :: nat
  uiIncrement :: u16
  uiFreeOnFree :: bool
  uiMaxNumRes :: u16
  uiNumInUse :: u16
  uiNumFree :: u16
  uiLowWater :: u16
  uiHiWater :: u16

text \<open>All pools, the pool of pools first; the pool of each resource, and the mark of
  the free ones.\<close>

record rsrc_world =
  rsrcPools :: "rsrcPool list"
  rs_pool :: "nat \<Rightarrow> nat option"
  magic :: "nat \<Rightarrow> bool"
  next_rsrc :: nat

definition pool_upd :: "nat \<Rightarrow> (rsrcPool \<Rightarrow> rsrcPool) \<Rightarrow> rsrc_world \<Rightarrow> rsrc_world" where
  "pool_upd k f w = w \<lparr> rsrcPools := (rsrcPools w)[k := f (rsrcPools w ! k)] \<rparr>"

definition pool_at :: "nat \<Rightarrow> rsrc_world \<Rightarrow> rsrcPool" where
  "pool_at k w = rsrcPools w ! k"

section \<open>Free resources\<close>

definition privuxRsrcAlignUp :: "nat \<Rightarrow> nat" where
  "privuxRsrcAlignUp n = (if n mod 4 \<noteq> 0 then n + (4 - n mod 4) else n)"

definition prvvFreeResTail :: "nat \<Rightarrow> nat \<Rightarrow> rsrc_world \<Rightarrow> rsrc_world" where
  "prvvFreeResTail k r w =
     pool_upd k (\<lambda>p. p \<lparr> pxFreelist := r # pxFreelist p, uiNumFree := uiNumFree p + 1 \<rparr>)
       (w \<lparr> magic := (magic w)(r := True) \<rparr>)"

primrec add_loop :: "nat \<Rightarrow> nat \<Rightarrow> rsrc_world \<Rightarrow> rsrc_world" where
  "add_loop k 0 w = w"
| "add_loop k (Suc n) w = add_loop k n (prvvFreeResTail k (next_rsrc w) (w \<lparr> next_rsrc := next_rsrc w + 1 \<rparr>))"

text \<open>\<open>mem\<close> says whether there is memory for the new resources.\<close>

definition prviRsrcAdd2Pool :: "bool \<Rightarrow> nat \<Rightarrow> nat \<Rightarrow> rsrc_world \<Rightarrow> (int \<times> rsrc_world) option" where
  "prviRsrcAdd2Pool mem k n w =
     (if n = 0 then Some (0, w)
      else if \<not> mem then None
      else Some (int n, add_loop k n
        (if unat (uiNumInUse (pool_at k w)) + unat (uiNumFree (pool_at k w)) = 0
         then pool_upd k (\<lambda>p. p \<lparr> uiLowWater := word_of_nat n \<rparr>) w else w)))"

section \<open>Allocating and freeing\<close>

definition pxRsrcVarAlloc :: "bool \<Rightarrow> nat \<Rightarrow> nat \<Rightarrow> rsrc_world \<Rightarrow> (nat option \<times> rsrc_world) option" where
  "pxRsrcVarAlloc mem k len w =
     (let p = pool_at k w in
      if len = 0
         \<or> uiMaxNumRes p \<noteq> 0 \<and> unat (uiNumInUse p) + unat (uiNumFree p) \<ge> unat (uiMaxNumRes p)
         \<or> uxSizeEach p \<noteq> 0 \<and> len \<noteq> uxSizeEach p
      then Some (None, w)
      else do {
        (n, w) \<leftarrow> (if pxFreelist p = [] then prviRsrcAdd2Pool mem k (unat (uiIncrement p)) w else Some (1, w));
        if n \<le> 0 then Some (None, w)
        else (case pxFreelist (pool_at k w) of
            [] \<Rightarrow> None
          | r # rest \<Rightarrow>
              let w = pool_upd k (\<lambda>p. p \<lparr> pxFreelist := rest, uiNumFree := uiNumFree p - 1 \<rparr>) w;
                  w = pool_upd k (\<lambda>p. p \<lparr> uiLowWater := min (uiNumFree p) (uiLowWater p),
                        ulTotalAllocs := ulTotalAllocs p + 1, xActive := r # xActive p,
                        uiNumInUse := uiNumInUse p + 1 \<rparr>) w;
                  w = pool_upd k (\<lambda>p. p \<lparr> uiHiWater := max (uiNumInUse p) (uiHiWater p) \<rparr>) w
              in Some (Some r, w \<lparr> rs_pool := (rs_pool w)(r := Some k), magic := (magic w)(r := False) \<rparr>)) })"

definition pxRsrcAlloc :: "bool \<Rightarrow> nat \<Rightarrow> rsrc_world \<Rightarrow> (nat option \<times> rsrc_world) option" where
  "pxRsrcAlloc mem k w = pxRsrcVarAlloc mem k (uxSizeEach (pool_at k w)) w"

text \<open>A resource returned to the heap may not be used again: its pool is forgotten.
  Freeing it then, like freeing a resource that was never handed out, is undefined.\<close>

definition vRsrcFree :: "nat option \<Rightarrow> rsrc_world \<Rightarrow> rsrc_world option" where
  "vRsrcFree pr w =
     (case pr of
        None \<Rightarrow> Some w
      | Some r \<Rightarrow> do {
          k \<leftarrow> rs_pool w r;
          if magic w r then None
          else do {
            let w = pool_upd k (\<lambda>p. p \<lparr> xActive := remove1 r (xActive p), uiNumInUse := uiNumInUse p - 1 \<rparr>) w;
            if uiFreeOnFree (pool_at k w)
            then Some (w \<lparr> rs_pool := (rs_pool w)(r := None) \<rparr>)
            else Some (prvvFreeResTail k r w) } })"

section \<open>Pools\<close>

definition prviRsrcInitPool ::
  "bool \<Rightarrow> string \<Rightarrow> nat \<Rightarrow> nat \<Rightarrow> nat \<Rightarrow> nat \<Rightarrow> rsrc_world \<Rightarrow> (int \<times> rsrc_world) option" where
  "prviRsrcInitPool mem nam sz ini inc mx w =
     (let p = \<lparr> pxFreelist = [], xActive = [], pl_pcName = nam, ulTotalAllocs = 0, uxSizeEach = sz,
                uiIncrement = word_of_nat inc, uiFreeOnFree = (sz = 0 \<or> inc \<le> 1 \<and> ini \<le> 1),
                uiMaxNumRes = word_of_nat mx, uiNumInUse = 0, uiNumFree = 0,
                uiLowWater = word_of_nat ini, uiHiWater = 0 \<rparr>;
          k = length (rsrcPools w);
          w = w \<lparr> rsrcPools := rsrcPools w @ [p] \<rparr>
      in if ini \<noteq> 0 then prviRsrcAdd2Pool mem k ini w else Some (0, w))"

definition sizeof_rsrcPool :: nat where "sizeof_rsrcPool = 64"
definition rsrcINIT_NUM_POOLS :: nat where "rsrcINIT_NUM_POOLS = 5"

text \<open>The structure of a new pool is a resource of the pool of pools; the pool is known
  by its place in the list of all pools.\<close>

definition pxRsrcNewPool ::
  "bool \<Rightarrow> string \<Rightarrow> nat \<Rightarrow> nat \<Rightarrow> nat \<Rightarrow> nat \<Rightarrow> rsrc_world \<Rightarrow> (nat option \<times> rsrc_world) option" where
  "pxRsrcNewPool mem nam sz ini inc mx w =
     (if ini > 65535 \<or> inc > 65535 \<or> mx > 65535 \<or> inc + ini = 0 then None
      else if sz = 0 \<and> (ini > 1 \<or> inc > 1) then Some (None, w)
      else do {
        (n, w) \<leftarrow> (if rsrcPools w = []
                   then prviRsrcInitPool mem ''Pools'' sizeof_rsrcPool rsrcINIT_NUM_POOLS 1 0 w
                   else Some (1, w));
        if n \<le> 0 then Some (None, w)
        else do {
          (r, w) \<leftarrow> pxRsrcAlloc mem 0 w;
          (case r of
             None \<Rightarrow> Some (None, w)
           | Some _ \<Rightarrow> do {
               let k = length (rsrcPools w);
               (n, w) \<leftarrow> prviRsrcInitPool mem nam sz ini inc mx w;
               if n < 0 then Some (None, w) else Some (Some k, w) }) } })"

definition pxRsrcNewVarPool :: "bool \<Rightarrow> string \<Rightarrow> nat \<Rightarrow> rsrc_world \<Rightarrow> (nat option \<times> rsrc_world) option" where
  "pxRsrcNewVarPool mem nam mx w = pxRsrcNewPool mem nam 0 0 1 mx w"

definition pxRsrcNewDynPool :: "bool \<Rightarrow> string \<Rightarrow> nat \<Rightarrow> nat \<Rightarrow> rsrc_world \<Rightarrow> (nat option \<times> rsrc_world) option" where
  "pxRsrcNewDynPool mem nam sz mx w = pxRsrcNewPool mem nam sz 0 1 mx w"

definition rsrc_boot :: rsrc_world where
  "rsrc_boot = \<lparr> rsrcPools = [], rs_pool = (\<lambda>_. None), magic = (\<lambda>_. False), next_rsrc = 0 \<rparr>"


lemma privuxRsrcAlignUp_least:
  "4 dvd privuxRsrcAlignUp n \<and> n \<le> privuxRsrcAlignUp n \<and> privuxRsrcAlignUp n < n + 4"
proof -
  have r: "n mod 4 < 4" "n mod 4 \<le> n" by simp_all
  show ?thesis
  proof (cases "n mod 4 = 0")
    case False
    then have "n + (4 - n mod 4) = 4 * (n div 4 + 1)" using div_mult_mod_eq[of n 4] r by presburger
    moreover have "n < 4 * (n div 4 + 1)" "4 * (n div 4) < n"
      using False by presburger+
    ultimately show ?thesis using False by (simp add: privuxRsrcAlignUp_def)
  qed (simp add: privuxRsrcAlignUp_def dvd_eq_mod_eq_0)
qed

section \<open>The invariant\<close>

text \<open>The lists of a pool are its free and its used resources; its counters are their
  lengths, at the width of the counters.\<close>

definition pool_ok :: "nat \<Rightarrow> rsrcPool \<Rightarrow> bool" where
  "pool_ok nx p \<longleftrightarrow> distinct (pxFreelist p @ xActive p)
     \<and> (\<forall>r\<in>set (pxFreelist p) \<union> set (xActive p). r < nx)
     \<and> uiNumFree p = word_of_nat (length (pxFreelist p)) \<and> uiNumInUse p = word_of_nat (length (xActive p))
     \<and> (\<forall>n\<le>length (xActive p). word_of_nat n \<le> uiHiWater p)"

definition free_marked :: "nat \<Rightarrow> rsrcPool \<Rightarrow> (nat \<Rightarrow> nat option) \<Rightarrow> (nat \<Rightarrow> bool) \<Rightarrow> bool" where
  "free_marked k p own mg \<longleftrightarrow> (\<forall>r\<in>set (pxFreelist p). mg r \<and> (own r = None \<or> own r = Some k))
     \<and> (\<forall>r\<in>set (xActive p). \<not> mg r \<and> own r = Some k)"

definition rsrc_wf :: "rsrc_world \<Rightarrow> bool" where
  "rsrc_wf w \<longleftrightarrow>
     (\<forall>k<length (rsrcPools w). pool_ok (next_rsrc w) (pool_at k w)
        \<and> free_marked k (pool_at k w) (rs_pool w) (magic w)
        \<and> (\<forall>j<length (rsrcPools w). j \<noteq> k \<longrightarrow>
             set (pxFreelist (pool_at j w)) \<inter> set (pxFreelist (pool_at k w)) = {}))
     \<and> (\<forall>r k. rs_pool w r = Some k \<longrightarrow> k < length (rsrcPools w)
          \<and> r \<in> set (pxFreelist (pool_at k w)) \<union> set (xActive (pool_at k w)))"

lemma rsrc_wf_boot: "rsrc_wf rsrc_boot"
  by (simp add: rsrc_wf_def rsrc_boot_def)

lemma pool_at_upd [simp]:
  "k < length (rsrcPools w) \<Longrightarrow> pool_at j (pool_upd k f w) = (if j = k then f (pool_at k w) else pool_at j w)"
  by (simp add: pool_at_def pool_upd_def)

lemma pool_upd_simps [simp]:
  "length (rsrcPools (pool_upd k f w)) = length (rsrcPools w)" "rs_pool (pool_upd k f w) = rs_pool w"
  "magic (pool_upd k f w) = magic w" "next_rsrc (pool_upd k f w) = next_rsrc w"
  by (simp_all add: pool_upd_def)

lemma pool_at_other [simp]:
  "pool_at j (w \<lparr> magic := m \<rparr>) = pool_at j w" "pool_at j (w \<lparr> next_rsrc := n \<rparr>) = pool_at j w"
  "pool_at j (w \<lparr> rs_pool := p \<rparr>) = pool_at j w"
  by (simp_all add: pool_at_def)

definition pool_rsrcs :: "rsrcPool \<Rightarrow> nat set" where
  "pool_rsrcs p = set (pxFreelist p) \<union> set (xActive p)"

lemma rsrc_wfD:
  assumes "rsrc_wf w" "k < length (rsrcPools w)"
  shows "pool_ok (next_rsrc w) (pool_at k w)" "free_marked k (pool_at k w) (rs_pool w) (magic w)"
    "j < length (rsrcPools w) \<Longrightarrow> j \<noteq> k \<Longrightarrow> set (pxFreelist (pool_at j w)) \<inter> set (pxFreelist (pool_at k w)) = {}"
  using assms unfolding rsrc_wf_def by blast+

lemma rsrc_wf_owner:
  assumes "rsrc_wf w" "rs_pool w r = Some k"
  shows "k < length (rsrcPools w)" "r \<in> pool_rsrcs (pool_at k w)"
  using assms unfolding rsrc_wf_def pool_rsrcs_def by blast+

lemma pool_ok_mono: "pool_ok n p \<Longrightarrow> n \<le> m \<Longrightarrow> pool_ok m p"
  unfolding pool_ok_def by (blast intro: less_le_trans)

lemma free_marked_cong:
  "free_marked k p own mg \<Longrightarrow> (\<And>r. r \<in> pool_rsrcs p \<Longrightarrow> own' r = own r \<and> mg' r = mg r) \<Longrightarrow> free_marked k p own' mg'"
  by (simp add: free_marked_def pool_rsrcs_def)

text \<open>A step that changes one pool and leaves the resources of the others alone.\<close>

lemma rsrc_wf_step:
  assumes w: "rsrc_wf w" "k < length (rsrcPools w)"
    and l: "length (rsrcPools w') = length (rsrcPools w)" "next_rsrc w \<le> next_rsrc w'"
    and at: "\<And>j. j \<noteq> k \<Longrightarrow> pool_at j w' = pool_at j w"
    and ok: "pool_ok (next_rsrc w') (pool_at k w')" "free_marked k (pool_at k w') (rs_pool w') (magic w')"
    and same: "\<And>j r. j < length (rsrcPools w) \<Longrightarrow> j \<noteq> k \<Longrightarrow> r \<in> pool_rsrcs (pool_at j w) \<Longrightarrow>
      rs_pool w' r = rs_pool w r \<and> magic w' r = magic w r \<and> r \<notin> set (pxFreelist (pool_at k w'))"
    and own: "\<And>r. rs_pool w' r = rs_pool w r \<or> rs_pool w' r = None \<or> rs_pool w' r = Some k"
      "\<And>r. rs_pool w' r = Some k \<Longrightarrow> r \<in> pool_rsrcs (pool_at k w')"
  shows "rsrc_wf w'"
  unfolding rsrc_wf_def
proof (intro conjI allI impI)
  fix j assume j: "j < length (rsrcPools w')"
  have a: "pool_ok (next_rsrc w') (pool_at j w') \<and> free_marked j (pool_at j w') (rs_pool w') (magic w')"
  proof (cases "j = k")
    case False
    have jw: "j < length (rsrcPools w)" using j l(1) by simp
    have "free_marked j (pool_at j w) (rs_pool w') (magic w')"
      by (rule free_marked_cong[OF rsrc_wfD(2)[OF w(1) jw]]) (use same[OF jw False] in blast)
    then show ?thesis
      using pool_ok_mono[OF rsrc_wfD(1)[OF w(1) jw] l(2)] at[OF False] by simp
  qed (use ok in simp)
  then show "pool_ok (next_rsrc w') (pool_at j w')" "free_marked j (pool_at j w') (rs_pool w') (magic w')"
    by simp_all
  fix i assume i: "i < length (rsrcPools w')" "i \<noteq> j"
  show "set (pxFreelist (pool_at i w')) \<inter> set (pxFreelist (pool_at j w')) = {}"
  proof (cases "i = k \<or> j = k")
    case True
    then show ?thesis
      using same at i j l(1) by (auto simp: pool_rsrcs_def)
  next
    case False
    then show ?thesis
      using rsrc_wfD(3)[OF w(1), of j i] at i j l(1) by simp
  qed
next
  fix r j assume r: "rs_pool w' r = Some j"
  have "j < length (rsrcPools w') \<and> r \<in> pool_rsrcs (pool_at j w')"
  proof (cases "j = k")
    case False
    then have "rs_pool w r = Some j" using r own(1)[of r] by auto
    then show ?thesis using rsrc_wf_owner[OF w(1)] at[OF False] l(1) by auto
  qed (use r own(2) w(2) l(1) in simp)
  then show "j < length (rsrcPools w')"
    "r \<in> set (pxFreelist (pool_at j w')) \<union> set (xActive (pool_at j w'))"
    by (simp_all add: pool_rsrcs_def)
qed

section \<open>Every operation keeps it\<close>

text \<open>Putting a resource that is on no list on the free list of a pool.\<close>

definition on_no_list :: "nat \<Rightarrow> rsrc_world \<Rightarrow> bool" where
  "on_no_list r w \<longleftrightarrow> (\<forall>k<length (rsrcPools w). r \<notin> pool_rsrcs (pool_at k w))"

lemma free_tail_wf:
  assumes "rsrc_wf w" "k < length (rsrcPools w)" "r < next_rsrc w" "on_no_list r w"
    and "rs_pool w r = None"
  shows "rsrc_wf (prvvFreeResTail k r w)"
proof (rule rsrc_wf_step[OF assms(1,2)])
  have p: "pool_ok (next_rsrc w) (pool_at k w)" "free_marked k (pool_at k w) (rs_pool w) (magic w)"
    using rsrc_wfD[OF assms(1,2)] by blast+
  have n: "r \<notin> set (pxFreelist (pool_at k w))" "r \<notin> set (xActive (pool_at k w))"
    using assms(2,4) by (auto simp: on_no_list_def pool_rsrcs_def)
  show "pool_ok (next_rsrc (prvvFreeResTail k r w)) (pool_at k (prvvFreeResTail k r w))"
    using p(1) n assms(2,3) by (simp add: prvvFreeResTail_def pool_ok_def)
  show "free_marked k (pool_at k (prvvFreeResTail k r w)) (rs_pool (prvvFreeResTail k r w)) (magic (prvvFreeResTail k r w))"
    using p(2) n assms(2,5) by (auto simp: prvvFreeResTail_def free_marked_def)
next
  fix j q assume "j < length (rsrcPools w)" "j \<noteq> k" "q \<in> pool_rsrcs (pool_at j w)"
  then show "rs_pool (prvvFreeResTail k r w) q = rs_pool w q \<and> magic (prvvFreeResTail k r w) q = magic w q
      \<and> q \<notin> set (pxFreelist (pool_at k (prvvFreeResTail k r w)))"
    using assms rsrc_wfD(3)[OF assms(1,2), of j] rsrc_wfD(2)[OF assms(1), of j] rsrc_wfD(2)[OF assms(1,2)]
    by (auto simp: prvvFreeResTail_def on_no_list_def pool_rsrcs_def free_marked_def)
next
  fix q assume "rs_pool (prvvFreeResTail k r w) q = Some k"
  then show "q \<in> pool_rsrcs (pool_at k (prvvFreeResTail k r w))"
    using rsrc_wf_owner[OF assms(1), of q k] assms(2) by (auto simp: prvvFreeResTail_def pool_rsrcs_def)
qed (use assms(2) in \<open>simp_all add: prvvFreeResTail_def\<close>)

lemma next_wf: "rsrc_wf w \<Longrightarrow> rsrc_wf (w \<lparr> next_rsrc := next_rsrc w + 1 \<rparr>)"
  unfolding rsrc_wf_def by (auto intro: pool_ok_mono)

lemma fresh_on_no_list: "rsrc_wf w \<Longrightarrow> next_rsrc w \<le> r \<Longrightarrow> on_no_list r w"
  using rsrc_wfD(1)[of w] unfolding on_no_list_def pool_ok_def pool_rsrcs_def by (meson leD)

lemma fresh_no_owner:
  assumes "rsrc_wf w" "next_rsrc w \<le> r" shows "rs_pool w r = None"
proof (cases "rs_pool w r")
  case (Some k)
  then show ?thesis
    using fresh_on_no_list[OF assms] rsrc_wf_owner[OF assms(1) Some] by (simp add: on_no_list_def)
qed simp

lemma length_free_tail [simp]: "length (rsrcPools (prvvFreeResTail k r w)) = length (rsrcPools w)"
  by (simp add: prvvFreeResTail_def)

lemma add_loop_wf:
  assumes "rsrc_wf w" "k < length (rsrcPools w)"
  shows "rsrc_wf (add_loop k n w) \<and> length (rsrcPools (add_loop k n w)) = length (rsrcPools w)
    \<and> (0 < n \<longrightarrow> pxFreelist (pool_at k (add_loop k n w)) \<noteq> [])"
  using assms
proof (induction n arbitrary: w)
  case (Suc n)
  let ?w = "w \<lparr> next_rsrc := next_rsrc w + 1 \<rparr>"
  have "rsrc_wf (prvvFreeResTail k (next_rsrc w) ?w)"
    using next_wf[OF Suc.prems(1)] Suc.prems fresh_on_no_list[OF Suc.prems(1), of "next_rsrc w"]
      fresh_no_owner[OF Suc.prems(1), of "next_rsrc w"]
    by (intro free_tail_wf) (simp_all add: on_no_list_def)
  then have "rsrc_wf (add_loop k n (prvvFreeResTail k (next_rsrc w) ?w))
      \<and> length (rsrcPools (add_loop k n (prvvFreeResTail k (next_rsrc w) ?w))) = length (rsrcPools w)
      \<and> (0 < n \<longrightarrow> pxFreelist (pool_at k (add_loop k n (prvvFreeResTail k (next_rsrc w) ?w))) \<noteq> [])"
    using Suc.IH Suc.prems(2) by simp
  moreover have "n = 0 \<Longrightarrow> pxFreelist (pool_at k (prvvFreeResTail k (next_rsrc w) ?w)) \<noteq> []"
    using Suc.prems(2) by (simp add: prvvFreeResTail_def)
  ultimately show ?case by (cases n) auto
qed simp

lemma add_loop_pool:
  assumes "k < length (rsrcPools w)"
  shows "xActive (pool_at j (add_loop k n w)) = xActive (pool_at j w)
    \<and> length (pxFreelist (pool_at k (add_loop k n w))) = n + length (pxFreelist (pool_at k w))
    \<and> uiMaxNumRes (pool_at k (add_loop k n w)) = uiMaxNumRes (pool_at k w)
    \<and> uxSizeEach (pool_at k (add_loop k n w)) = uxSizeEach (pool_at k w)
    \<and> uiIncrement (pool_at k (add_loop k n w)) = uiIncrement (pool_at k w)
    \<and> uiFreeOnFree (pool_at k (add_loop k n w)) = uiFreeOnFree (pool_at k w)"
  using assms by (induction n arbitrary: w) (auto simp: prvvFreeResTail_def)

text \<open>Changes of a pool that do not touch its lists.\<close>

lemma pool_upd_wf:
  assumes "rsrc_wf w" "k < length (rsrcPools w)"
    and "\<And>p. pool_ok (next_rsrc w) p \<Longrightarrow> pool_ok (next_rsrc w) (f p)"
      "\<And>p. pxFreelist (f p) = pxFreelist p \<and> xActive (f p) = xActive p"
  shows "rsrc_wf (pool_upd k f w)"
proof (rule rsrc_wf_step[OF assms(1,2)])
  show "free_marked k (pool_at k (pool_upd k f w)) (rs_pool (pool_upd k f w)) (magic (pool_upd k f w))"
    using rsrc_wfD(2)[OF assms(1,2)] assms(2,4) by (simp add: free_marked_def)
next
  fix j q assume "j < length (rsrcPools w)" "j \<noteq> k" "q \<in> pool_rsrcs (pool_at j w)"
  then show "rs_pool (pool_upd k f w) q = rs_pool w q \<and> magic (pool_upd k f w) q = magic w q
      \<and> q \<notin> set (pxFreelist (pool_at k (pool_upd k f w)))"
    using assms(2,4) rsrc_wfD(3)[OF assms(1,2), of j] rsrc_wfD(2)[OF assms(1), of j] rsrc_wfD(2)[OF assms(1,2)]
    by (auto simp: pool_rsrcs_def free_marked_def)
next
  fix q assume "rs_pool (pool_upd k f w) q = Some k"
  then show "q \<in> pool_rsrcs (pool_at k (pool_upd k f w))"
    using rsrc_wf_owner[OF assms(1), of q k] assms(2,4) by (simp add: pool_rsrcs_def)
qed (use assms rsrc_wfD(1)[OF assms(1,2)] in simp_all)

lemma add2pool_wf:
  assumes "rsrc_wf w" "k < length (rsrcPools w)" "prviRsrcAdd2Pool mem k n w = Some (i, w')"
  shows "rsrc_wf w' \<and> length (rsrcPools w') = length (rsrcPools w) \<and> i = int n
    \<and> (0 < n \<longrightarrow> pxFreelist (pool_at k w') \<noteq> [])"
proof -
  have "rsrc_wf (pool_upd k (\<lambda>p. p \<lparr> uiLowWater := word_of_nat n \<rparr>) w)"
    using assms(1,2) by (intro pool_upd_wf) (simp_all add: pool_ok_def)
  from add_loop_wf[OF this, of k n] add_loop_wf[OF assms(1,2), of n] assms show ?thesis
    by (auto simp: prviRsrcAdd2Pool_def split: if_splits)
qed

text \<open>Taking the first free resource of a pool, as the end of \<open>pxRsrcVarAlloc\<close> does.\<close>

definition taken :: "nat \<Rightarrow> nat list \<Rightarrow> rsrcPool \<Rightarrow> rsrcPool" where
  "taken r rest p = p \<lparr> pxFreelist := rest, uiNumFree := uiNumFree p - 1,
     uiLowWater := min (uiNumFree p - 1) (uiLowWater p), ulTotalAllocs := ulTotalAllocs p + 1,
     xActive := r # xActive p, uiNumInUse := uiNumInUse p + 1,
     uiHiWater := max (uiNumInUse p + 1) (uiHiWater p) \<rparr>"

definition take_rsrc :: "nat \<Rightarrow> nat \<Rightarrow> nat list \<Rightarrow> rsrc_world \<Rightarrow> rsrc_world" where
  "take_rsrc k r rest w = (pool_upd k (taken r rest) w)
     \<lparr> rs_pool := (rs_pool w)(r := Some k), magic := (magic w)(r := False) \<rparr>"

lemma pool_upd_twice: "pool_upd k g (pool_upd k f w) = pool_upd k (\<lambda>p. g (f p)) w"
  by (cases "k < length (rsrcPools w)") (simp_all add: pool_upd_def list_update_beyond)

lemma var_alloc_cases:
  assumes "pxRsrcVarAlloc mem k len w = Some (pr, w')" "rsrc_wf w" "k < length (rsrcPools w)"
  obtains "pr = None" "w' = w"
  | r rest u where "pr = Some r" "rsrc_wf u" "length (rsrcPools u) = length (rsrcPools w)"
      "pxFreelist (pool_at k u) = r # rest" "w' = take_rsrc k r rest u"
      "pxFreelist (pool_at k w) \<noteq> [] \<longrightarrow> u = w" "\<And>j. xActive (pool_at j u) = xActive (pool_at j w)"
proof (cases "len = 0
    \<or> uiMaxNumRes (pool_at k w) \<noteq> 0 \<and> unat (uiNumInUse (pool_at k w)) + unat (uiNumFree (pool_at k w)) \<ge> unat (uiMaxNumRes (pool_at k w))
    \<or> uxSizeEach (pool_at k w) \<noteq> 0 \<and> len \<noteq> uxSizeEach (pool_at k w)")
  case True
  then show ?thesis using assms(1) that(1) by (auto simp: pxRsrcVarAlloc_def Let_def)
next
  case False
  have body: "thesis" if u: "rsrc_wf u" "length (rsrcPools u) = length (rsrcPools w)"
      "pxFreelist (pool_at k w) \<noteq> [] \<longrightarrow> u = w" "\<And>j. xActive (pool_at j u) = xActive (pool_at j w)" and n: "pxFreelist (pool_at k u) \<noteq> []"
    and e: "(case pxFreelist (pool_at k u) of [] \<Rightarrow> None | r # rest \<Rightarrow> Some (Some r, take_rsrc k r rest u)) = Some (pr, w')" for u
    using that \<open>\<And>r rest u. pr = Some r \<Longrightarrow> rsrc_wf u \<Longrightarrow> length (rsrcPools u) = length (rsrcPools w) \<Longrightarrow>
      pxFreelist (pool_at k u) = r # rest \<Longrightarrow> w' = take_rsrc k r rest u \<Longrightarrow>
      (pxFreelist (pool_at k w) \<noteq> [] \<longrightarrow> u = w) \<Longrightarrow>
      (\<And>j. xActive (pool_at j u) = xActive (pool_at j w)) \<Longrightarrow> thesis\<close>
    by (auto split: list.splits)
  have t: "(let w = pool_upd k (\<lambda>p. p \<lparr> pxFreelist := rest, uiNumFree := uiNumFree p - 1 \<rparr>) u;
              w = pool_upd k (\<lambda>p. p \<lparr> uiLowWater := min (uiNumFree p) (uiLowWater p),
                        ulTotalAllocs := ulTotalAllocs p + 1, xActive := r # xActive p,
                        uiNumInUse := uiNumInUse p + 1 \<rparr>) w;
              w = pool_upd k (\<lambda>p. p \<lparr> uiHiWater := max (uiNumInUse p) (uiHiWater p) \<rparr>) w
          in (Some r, w \<lparr> rs_pool := (rs_pool w)(r := Some k), magic := (magic w)(r := False) \<rparr>))
      = (Some r, take_rsrc k r rest u)" for r rest u
    by (simp add: pool_upd_twice take_rsrc_def taken_def[abs_def])
  show ?thesis
  proof (cases "pxFreelist (pool_at k w) = []")
    case True
    obtain n u where a: "prviRsrcAdd2Pool mem k (unat (uiIncrement (pool_at k w))) w = Some (n, u)"
      using assms(1) False True by (auto simp: pxRsrcVarAlloc_def Let_def split: Option.bind_splits)
    note u = add2pool_wf[OF assms(2,3) a]
    have act: "xActive (pool_at j u) = xActive (pool_at j w)" for j
      using a assms(3) add_loop_pool[of k "pool_upd k (\<lambda>p. p \<lparr> uiLowWater := uiIncrement (pool_at k w) \<rparr>) w" j]
        add_loop_pool[of k w j]
      by (auto simp: prviRsrcAdd2Pool_def split: if_splits)
    show ?thesis
    proof (cases "n \<le> 0")
      case True
      then have "unat (uiIncrement (pool_at k w)) = 0" using u by linarith
      then have "u = w" using a unfolding prviRsrcAdd2Pool_def by (simp only: if_True simp_thms option.inject prod.inject)
      then show ?thesis
        using assms(1) False \<open>pxFreelist (pool_at k w) = []\<close> a True that(1)
        by (auto simp: pxRsrcVarAlloc_def Let_def)
    next
      case pos: False
      then show ?thesis
        using assms(1) False True a u t act by (intro body[of u]) (auto simp: pxRsrcVarAlloc_def Let_def split: list.splits)
    qed
  next
    case nonempty: False
    then show ?thesis
      using assms False t by (intro body[of w]) (auto simp: pxRsrcVarAlloc_def Let_def split: list.splits)
  qed
qed

lemma take_wf:
  assumes "rsrc_wf w" "k < length (rsrcPools w)" "pxFreelist (pool_at k w) = r # rest"
  shows "rsrc_wf (take_rsrc k r rest w)"
proof (rule rsrc_wf_step[OF assms(1,2)])
  have p: "pool_ok (next_rsrc w) (pool_at k w)" "free_marked k (pool_at k w) (rs_pool w) (magic w)"
    using rsrc_wfD[OF assms(1,2)] by blast+
  show "pool_ok (next_rsrc (take_rsrc k r rest w)) (pool_at k (take_rsrc k r rest w))"
    using p(1) assms(2,3)
    by (auto simp: take_rsrc_def taken_def pool_ok_def add.commute le_Suc_eq max_def dest: order_trans)
  show "free_marked k (pool_at k (take_rsrc k r rest w)) (rs_pool (take_rsrc k r rest w)) (magic (take_rsrc k r rest w))"
    using p assms(2,3) by (auto simp: take_rsrc_def taken_def free_marked_def pool_ok_def)
next
  fix j q assume "j < length (rsrcPools w)" "j \<noteq> k" "q \<in> pool_rsrcs (pool_at j w)"
  then show "rs_pool (take_rsrc k r rest w) q = rs_pool w q \<and> magic (take_rsrc k r rest w) q = magic w q
      \<and> q \<notin> set (pxFreelist (pool_at k (take_rsrc k r rest w)))"
    using assms rsrc_wfD(3)[OF assms(1,2), of j] rsrc_wfD(2)[OF assms(1), of j] rsrc_wfD(2)[OF assms(1,2)]
    by (auto simp: take_rsrc_def taken_def pool_rsrcs_def free_marked_def)
next
  fix q assume "rs_pool (take_rsrc k r rest w) q = Some k"
  then show "q \<in> pool_rsrcs (pool_at k (take_rsrc k r rest w))"
    using rsrc_wf_owner[OF assms(1), of q k] assms(2,3)
    by (auto simp: take_rsrc_def taken_def pool_rsrcs_def split: if_splits)
qed (use assms(2) in \<open>simp_all add: take_rsrc_def\<close>)

lemma var_alloc_wf:
  assumes "pxRsrcVarAlloc mem k len w = Some (pr, w')" "rsrc_wf w" "k < length (rsrcPools w)"
  shows "rsrc_wf w' \<and> length (rsrcPools w') = length (rsrcPools w)"
  using assms
proof (rule var_alloc_cases)
  fix r rest u
  assume "rsrc_wf u" "length (rsrcPools u) = length (rsrcPools w)" "pxFreelist (pool_at k u) = r # rest"
    "w' = take_rsrc k r rest u"
  then show ?thesis using take_wf[of u k r rest] assms(3) by (simp add: take_rsrc_def)
qed (use assms(2) in simp)

lemma free_wf:
  assumes "vRsrcFree pr w = Some w'" "rsrc_wf w"
  shows "rsrc_wf w' \<and> length (rsrcPools w') = length (rsrcPools w)"
proof (cases pr)
  case (Some r)
  then obtain k where k: "rs_pool w r = Some k" "\<not> magic w r"
    using assms(1) by (auto simp: vRsrcFree_def split: Option.bind_splits if_splits)
  note kl = rsrc_wf_owner[OF assms(2) k(1)]
  have p: "pool_ok (next_rsrc w) (pool_at k w)" "free_marked k (pool_at k w) (rs_pool w) (magic w)"
    using rsrc_wfD[OF assms(2) kl(1)] by blast+
  have r: "r \<in> set (xActive (pool_at k w))" "r \<notin> set (pxFreelist (pool_at k w))"
    using kl(2) p k by (auto simp: pool_rsrcs_def free_marked_def pool_ok_def)
  define u where "u = pool_upd k (\<lambda>p. p \<lparr> xActive := remove1 r (xActive p), uiNumInUse := uiNumInUse p - 1 \<rparr>) w"
  have w': "w' = (if uiFreeOnFree (pool_at k w) then u \<lparr> rs_pool := (rs_pool w)(r := None) \<rparr> else prvvFreeResTail k r u)"
    using assms(1) Some k kl(1) by (auto simp: vRsrcFree_def Let_def u_def split: if_splits)
  have len: "length (xActive (pool_at k w)) = Suc (length (remove1 r (xActive (pool_at k w))))"
    using r(1) length_pos_if_in_set[OF r(1)] by (simp add: length_remove1)
  show ?thesis
  proof (rule conjI, rule rsrc_wf_step[OF assms(2) kl(1)])
    show "pool_ok (next_rsrc w') (pool_at k w')"
      using p(1) r kl(1) len by (auto simp: w' u_def prvvFreeResTail_def pool_ok_def)
    show "free_marked k (pool_at k w') (rs_pool w') (magic w')"
      using p r kl(1) k by (auto simp: w' u_def prvvFreeResTail_def free_marked_def pool_ok_def)
  next
    fix j q assume "j < length (rsrcPools w)" "j \<noteq> k" "q \<in> pool_rsrcs (pool_at j w)"
    then show "rs_pool w' q = rs_pool w q \<and> magic w' q = magic w q \<and> q \<notin> set (pxFreelist (pool_at k w'))"
      using kl(1) k r rsrc_wfD(3)[OF assms(2) kl(1), of j] rsrc_wfD(2)[OF assms(2), of j] p(2)
      by (auto simp: w' u_def prvvFreeResTail_def pool_rsrcs_def free_marked_def)
  next
    fix q assume "rs_pool w' q = Some k"
    then show "q \<in> pool_rsrcs (pool_at k w')"
      using rsrc_wf_owner[OF assms(2), of q k] kl(1)
      by (auto simp: w' u_def prvvFreeResTail_def pool_rsrcs_def split: if_splits)
  qed (use kl(1) in \<open>auto simp: w' u_def prvvFreeResTail_def\<close>)
qed (use assms in \<open>simp add: vRsrcFree_def\<close>)

lemma init_pool_wf:
  assumes "prviRsrcInitPool mem nam sz ini inc mx w = Some (n, w')" "rsrc_wf w"
  shows "rsrc_wf w' \<and> length (rsrcPools w') = Suc (length (rsrcPools w))"
proof -
  define p where "p = \<lparr> pxFreelist = [], xActive = [], pl_pcName = nam, ulTotalAllocs = 0, uxSizeEach = sz,
                uiIncrement = word_of_nat inc, uiFreeOnFree = (sz = 0 \<or> inc \<le> 1 \<and> ini \<le> 1),
                uiMaxNumRes = word_of_nat mx, uiNumInUse = 0, uiNumFree = 0,
                uiLowWater = word_of_nat ini, uiHiWater = 0 \<rparr>"
  define v where "v = w \<lparr> rsrcPools := rsrcPools w @ [p] \<rparr>"
  have at: "pool_at k v = (if k < length (rsrcPools w) then pool_at k w else p)" if "k < Suc (length (rsrcPools w))" for k
    using that by (auto simp: pool_at_def v_def nth_append)
  have "rsrc_wf v"
    unfolding rsrc_wf_def
  proof (intro conjI allI impI)
    fix k assume k: "k < length (rsrcPools v)"
    show "pool_ok (next_rsrc v) (pool_at k v)"
      using k rsrc_wfD(1)[OF assms(2), of k] at[of k] by (auto simp: v_def p_def pool_ok_def)
    show "free_marked k (pool_at k v) (rs_pool v) (magic v)"
      using k rsrc_wfD(2)[OF assms(2), of k] at[of k] by (auto simp: v_def p_def free_marked_def)
    fix j assume "j < length (rsrcPools v)" "j \<noteq> k"
    then show "set (pxFreelist (pool_at j v)) \<inter> set (pxFreelist (pool_at k v)) = {}"
      using k at[of k] at[of j] rsrc_wfD(3)[OF assms(2), of k j] by (auto simp: v_def p_def)
  next
    fix r k assume "rs_pool v r = Some k"
    then have o: "k < length (rsrcPools w)" "r \<in> pool_rsrcs (pool_at k w)"
      using rsrc_wf_owner[OF assms(2), of r k] by (simp_all add: v_def)
    then show "k < length (rsrcPools v)" "r \<in> set (pxFreelist (pool_at k v)) \<union> set (xActive (pool_at k v))"
      using at[of k] by (simp_all add: v_def pool_rsrcs_def)
  qed
  moreover have "prviRsrcInitPool mem nam sz ini inc mx w =
      (if ini \<noteq> 0 then prviRsrcAdd2Pool mem (length (rsrcPools w)) ini v else Some (0, v))"
    by (simp only: prviRsrcInitPool_def Let_def v_def p_def)
  moreover have "length (rsrcPools v) = Suc (length (rsrcPools w))" by (simp add: v_def)
  ultimately show ?thesis
    using assms(1) add2pool_wf[of v "length (rsrcPools w)" mem ini n w'] by (simp split: if_splits)
qed

lemma pool_at_new [simp]: "pool_at (length (rsrcPools w)) (w \<lparr> rsrcPools := rsrcPools w @ [p] \<rparr>) = p"
  by (simp add: pool_at_def)

lemma init_pool_pool:
  assumes "prviRsrcInitPool mem nam sz ini inc mx w = Some (n, w')"
  shows "length (pxFreelist (pool_at (length (rsrcPools w)) w')) = ini
    \<and> uiMaxNumRes (pool_at (length (rsrcPools w)) w') = word_of_nat mx
    \<and> uxSizeEach (pool_at (length (rsrcPools w)) w') = sz
    \<and> uiIncrement (pool_at (length (rsrcPools w)) w') = word_of_nat inc
    \<and> uiFreeOnFree (pool_at (length (rsrcPools w)) w') = (sz = 0 \<or> inc \<le> 1 \<and> ini \<le> 1)"
  using assms by (auto simp: prviRsrcInitPool_def prviRsrcAdd2Pool_def Let_def add_loop_pool split: if_splits)

lemma new_pool_wf:
  assumes "pxRsrcNewPool mem nam sz ini inc mx w = Some (pk, w')" "rsrc_wf w"
  shows "rsrc_wf w' \<and> (\<forall>k. pk = Some k \<longrightarrow> k < length (rsrcPools w'))
    \<and> length (rsrcPools w) \<le> length (rsrcPools w')"
proof -
  have first: "rsrc_wf u \<and> length (rsrcPools w) \<le> length (rsrcPools u) \<and> rsrcPools u \<noteq> []"
    if "(if rsrcPools w = [] then prviRsrcInitPool mem ''Pools'' sizeof_rsrcPool rsrcINIT_NUM_POOLS 1 0 w
        else Some (1, w)) = Some (n, u)" for n u
    using that assms(2) init_pool_wf[of mem "''Pools''" sizeof_rsrcPool rsrcINIT_NUM_POOLS 1 0 w n u]
    by (auto split: if_splits)
  have al: "rsrc_wf v \<and> length (rsrcPools v) = length (rsrcPools u)"
    if "pxRsrcAlloc mem 0 u = Some (q, v)" "rsrc_wf u" "rsrcPools u \<noteq> []" for q u v
    using var_alloc_wf[of mem 0 _ u q v] that by (simp add: pxRsrcAlloc_def)
  show ?thesis
  proof (cases "ini > 65535 \<or> inc > 65535 \<or> mx > 65535 \<or> inc + ini = 0 \<or> sz = 0 \<and> (ini > 1 \<or> inc > 1)")
    case True
    then show ?thesis using assms by (auto simp: pxRsrcNewPool_def split: if_splits)
  next
    case False
    obtain n u where u: "(if rsrcPools w = [] then prviRsrcInitPool mem ''Pools'' sizeof_rsrcPool rsrcINIT_NUM_POOLS 1 0 w
        else Some (1, w)) = Some (n, u)"
      and rest: "(if n \<le> 0 then Some (None, u) else do {
          (r, w) \<leftarrow> pxRsrcAlloc mem 0 u;
          (case r of None \<Rightarrow> Some (None, w)
           | Some _ \<Rightarrow> do {
               let k = length (rsrcPools w);
               (n, w) \<leftarrow> prviRsrcInitPool mem nam sz ini inc mx w;
               if n < 0 then Some (None, w) else Some (Some k, w) }) }) = Some (pk, w')"
      using assms(1) False unfolding pxRsrcNewPool_def by (auto split: Option.bind_splits if_splits)
    note f = first[OF u]
    show ?thesis
    proof (cases "n \<le> 0")
      case False
      then obtain q v where v: "pxRsrcAlloc mem 0 u = Some (q, v)"
        and rest': "(case q of None \<Rightarrow> Some (None, v)
           | Some _ \<Rightarrow> do {
               let k = length (rsrcPools v);
               (n, w) \<leftarrow> prviRsrcInitPool mem nam sz ini inc mx v;
               if n < 0 then Some (None, w) else Some (Some k, w) }) = Some (pk, w')"
        using rest by (auto split: Option.bind_splits)
      have "rsrc_wf v \<and> length (rsrcPools v) = length (rsrcPools u)" using al[OF v] f by blast
      then show ?thesis
        using rest' f init_pool_wf[of mem nam sz ini inc mx v]
        by (auto simp: Let_def split: option.splits Option.bind_splits if_splits)
    qed (use rest f in auto)
  qed
qed

section \<open>What the operations do to the pools\<close>

lemma add_loop_other: "k < length (rsrcPools w) \<Longrightarrow> j \<noteq> k \<Longrightarrow> pool_at j (add_loop k n w) = pool_at j w"
  by (induction n arbitrary: w) (simp_all add: prvvFreeResTail_def)

lemma take_rsrc_at [simp]:
  "k < length (rsrcPools w) \<Longrightarrow> pool_at j (take_rsrc k r rest w) = (if j = k then taken r rest (pool_at k w) else pool_at j w)"
  "length (rsrcPools (take_rsrc k r rest w)) = length (rsrcPools w)"
  "rs_pool (take_rsrc k r rest w) = (rs_pool w)(r := Some k)"
  "magic (take_rsrc k r rest w) = (magic w)(r := False)"
  by (simp_all add: take_rsrc_def)

lemma taken_simps [simp]:
  "pxFreelist (taken r rest p) = rest" "xActive (taken r rest p) = r # xActive p"
  "uxSizeEach (taken r rest p) = uxSizeEach p" "uiIncrement (taken r rest p) = uiIncrement p"
  "uiFreeOnFree (taken r rest p) = uiFreeOnFree p" "uiMaxNumRes (taken r rest p) = uiMaxNumRes p"
  by (simp_all add: taken_def)

definition may_alloc :: "rsrcPool \<Rightarrow> nat \<Rightarrow> bool" where
  "may_alloc p len \<longleftrightarrow> len \<noteq> 0
     \<and> (uiMaxNumRes p = 0 \<or> unat (uiNumInUse p) + unat (uiNumFree p) < unat (uiMaxNumRes p))
     \<and> (uxSizeEach p = 0 \<or> len = uxSizeEach p)"

text \<open>A free resource is taken from the front of the list.\<close>

lemma var_alloc_take:
  assumes "may_alloc (pool_at k w) len" "pxFreelist (pool_at k w) = r # rest"
  shows "pxRsrcVarAlloc mem k len w = Some (Some r, take_rsrc k r rest w)"
  using assms
  by (auto simp: pxRsrcVarAlloc_def may_alloc_def Let_def pool_upd_twice take_rsrc_def taken_def[abs_def])

text \<open>A pool of resources of any length has no free ones: each is got from the heap.\<close>

lemma var_alloc_grow:
  assumes "may_alloc (pool_at k w) len" "pxFreelist (pool_at k w) = []" "uiIncrement (pool_at k w) = 1"
    "k < length (rsrcPools w)" "mem"
  obtains u where "pxRsrcVarAlloc mem k len w = Some (Some (next_rsrc w), take_rsrc k (next_rsrc w) [] u)"
    "rs_pool u = rs_pool w" "length (rsrcPools u) = length (rsrcPools w)"
    "\<And>j. j \<noteq> k \<Longrightarrow> pool_at j u = pool_at j w" "xActive (pool_at k u) = xActive (pool_at k w)"
    "uxSizeEach (pool_at k u) = uxSizeEach (pool_at k w)" "uiIncrement (pool_at k u) = uiIncrement (pool_at k w)"
    "uiFreeOnFree (pool_at k u) = uiFreeOnFree (pool_at k w)" "uiMaxNumRes (pool_at k u) = uiMaxNumRes (pool_at k w)"
proof -
  define v where "v = (if unat (uiNumInUse (pool_at k w)) + unat (uiNumFree (pool_at k w)) = 0
         then pool_upd k (\<lambda>p. p \<lparr> uiLowWater := word_of_nat 1 \<rparr>) w else w)"
  define u where "u = prvvFreeResTail k (next_rsrc v) (v \<lparr> next_rsrc := next_rsrc v + 1 \<rparr>)"
  have v: "next_rsrc v = next_rsrc w" "rs_pool v = rs_pool w" "length (rsrcPools v) = length (rsrcPools w)"
    "pxFreelist (pool_at k v) = []" "\<And>j. j \<noteq> k \<Longrightarrow> pool_at j v = pool_at j w"
    "xActive (pool_at k v) = xActive (pool_at k w)" "uxSizeEach (pool_at k v) = uxSizeEach (pool_at k w)"
    "uiIncrement (pool_at k v) = uiIncrement (pool_at k w)" "uiFreeOnFree (pool_at k v) = uiFreeOnFree (pool_at k w)"
    "uiMaxNumRes (pool_at k v) = uiMaxNumRes (pool_at k w)"
    using assms(2,4) by (simp_all add: v_def)
  have "prviRsrcAdd2Pool mem k 1 w = Some (1, u)"
    using assms(5) by (simp add: prviRsrcAdd2Pool_def u_def v_def)
  moreover have "pxFreelist (pool_at k u) = [next_rsrc w]"
    using v assms(4) by (simp add: u_def prvvFreeResTail_def)
  ultimately have "pxRsrcVarAlloc mem k len w = Some (Some (next_rsrc w), take_rsrc k (next_rsrc w) [] u)"
    using assms
    by (auto simp: pxRsrcVarAlloc_def may_alloc_def Let_def pool_upd_twice take_rsrc_def taken_def[abs_def])
  then show ?thesis
    using that[of u] v assms(4) by (simp add: u_def prvvFreeResTail_def)
qed

lemma var_alloc_refused: "\<not> may_alloc (pool_at k w) len \<Longrightarrow> pxRsrcVarAlloc mem k len w = Some (None, w)"
  by (auto simp: pxRsrcVarAlloc_def may_alloc_def Let_def)

lemma var_alloc_no_memory:
  assumes "may_alloc (pool_at k w) len" "pxFreelist (pool_at k w) = []" "uiIncrement (pool_at k w) = 1"
  shows "pxRsrcVarAlloc False k len w = None"
  using assms by (auto simp: pxRsrcVarAlloc_def may_alloc_def Let_def prviRsrcAdd2Pool_def)

lemma free_at:
  assumes "vRsrcFree (Some r) w = Some w'" "rsrc_wf w" "rs_pool w r = Some k"
  shows "pool_at j w' = (if j = k then (pool_at k w) \<lparr> xActive := remove1 r (xActive (pool_at k w)),
      uiNumInUse := uiNumInUse (pool_at k w) - 1,
      pxFreelist := (if uiFreeOnFree (pool_at k w) then [] else [r]) @ pxFreelist (pool_at k w),
      uiNumFree := uiNumFree (pool_at k w) + (if uiFreeOnFree (pool_at k w) then 0 else 1) \<rparr> else pool_at j w)"
    "rs_pool w' = (if uiFreeOnFree (pool_at k w) then (rs_pool w)(r := None) else rs_pool w)"
  using assms rsrc_wf_owner[OF assms(2,3)]
  by (auto simp: vRsrcFree_def Let_def prvvFreeResTail_def split: if_splits)

lemma free_defined:
  assumes "rsrc_wf w" "rs_pool w r = Some k"
  shows "vRsrcFree (Some r) w = None \<longleftrightarrow> r \<in> set (pxFreelist (pool_at k w))"
  using assms rsrc_wf_owner[OF assms] rsrc_wfD(2)[OF assms(1), of k]
  by (auto simp: vRsrcFree_def Let_def free_marked_def pool_rsrcs_def)

lemma active_owner:
  assumes "rsrc_wf w" "k < length (rsrcPools w)" "r \<in> set (xActive (pool_at k w))"
  shows "rs_pool w r = Some k" "\<not> magic w r" "r \<notin> set (pxFreelist (pool_at k w))"
  using assms rsrc_wfD(1,2)[OF assms(1,2)] by (auto simp: free_marked_def pool_ok_def)

lemma add_loop_length: "length (rsrcPools (add_loop k n w)) = length (rsrcPools w)"
  by (induction n arbitrary: w) simp_all

lemma init_pool_length:
  "prviRsrcInitPool mem nam sz ini inc mx w = Some (n, w') \<Longrightarrow> length (rsrcPools w') = Suc (length (rsrcPools w))"
  by (auto simp: prviRsrcInitPool_def prviRsrcAdd2Pool_def Let_def add_loop_length split: if_splits)

lemma var_alloc_only:
  assumes "pxRsrcVarAlloc mem k len w = Some (pr, w')" "k < length (rsrcPools w)"
  shows "length (rsrcPools w') = length (rsrcPools w) \<and> (\<forall>i. i \<noteq> k \<longrightarrow> pool_at i w' = pool_at i w)"
  using assms
  by (auto simp: pxRsrcVarAlloc_def prviRsrcAdd2Pool_def Let_def add_loop_other add_loop_length
      split: if_splits Option.bind_splits list.splits)

lemma init_pool_at:
  assumes "prviRsrcInitPool mem nam sz ini inc mx w = Some (n, w')"
  shows "xActive (pool_at (length (rsrcPools w)) w') = []"
    "i < length (rsrcPools w) \<Longrightarrow> pool_at i w' = pool_at i w" "0 \<le> n"
proof -
  have a: "pool_at i (w \<lparr> rsrcPools := rsrcPools w @ [p] \<rparr>) = pool_at i w" if "i < length (rsrcPools w)" for p i
    using that by (simp add: pool_at_def nth_append)
  show "xActive (pool_at (length (rsrcPools w)) w') = []" "0 \<le> n"
    "i < length (rsrcPools w) \<Longrightarrow> pool_at i w' = pool_at i w"
    using assms by (auto simp: prviRsrcInitPool_def prviRsrcAdd2Pool_def Let_def add_loop_pool add_loop_other a split: if_splits)
qed

lemma new_pool_at:
  assumes "pxRsrcNewPool mem nam sz ini inc mx w = Some (Some k, w')"
  obtains v n where "k = length (rsrcPools v)" "prviRsrcInitPool mem nam sz ini inc mx v = Some (n, w')"
    "0 < k" "length (rsrcPools w) \<le> k" "\<And>i. 0 < i \<Longrightarrow> i < length (rsrcPools w) \<Longrightarrow> pool_at i v = pool_at i w"
proof -
  obtain n u where u: "(if rsrcPools w = [] then prviRsrcInitPool mem ''Pools'' sizeof_rsrcPool rsrcINIT_NUM_POOLS 1 0 w
      else Some (1, w)) = Some (n, u)" "n > 0"
    and rest: "(do {
        (r, w) \<leftarrow> pxRsrcAlloc mem 0 u;
        (case r of None \<Rightarrow> Some (None, w)
         | Some _ \<Rightarrow> do {
             let k = length (rsrcPools w);
             (n, w) \<leftarrow> prviRsrcInitPool mem nam sz ini inc mx w;
             if n < 0 then Some (None, w) else Some (Some k, w) }) }) = Some (Some k, w')"
    using assms unfolding pxRsrcNewPool_def by (auto split: Option.bind_splits if_splits)
  have len: "0 < length (rsrcPools u)" "length (rsrcPools w) \<le> length (rsrcPools u)"
      "\<And>i. i < length (rsrcPools w) \<Longrightarrow> pool_at i u = pool_at i w"
    using u init_pool_length[of mem "''Pools''" sizeof_rsrcPool rsrcINIT_NUM_POOLS 1 0 w n u] by (auto split: if_splits)
  obtain q v m where v: "pxRsrcAlloc mem 0 u = Some (Some q, v)" "k = length (rsrcPools v)"
      "prviRsrcInitPool mem nam sz ini inc mx v = Some (m, w')"
    using rest by (auto simp: Let_def split: Option.bind_splits option.splits if_splits)
  have "length (rsrcPools v) = length (rsrcPools u) \<and> (\<forall>i. 0 < i \<longrightarrow> pool_at i v = pool_at i u)"
    using var_alloc_only[of mem 0 _ u "Some q" v] v(1) len(1) by (auto simp: pxRsrcAlloc_def)
  then show ?thesis using that[of v m] v len by simp
qed

text \<open>With memory, pools can always be created.\<close>

definition pools_head :: "rsrc_world \<Rightarrow> bool" where
  "pools_head w \<longleftrightarrow> rsrcPools w = [] \<or> uxSizeEach (pool_at 0 w) = sizeof_rsrcPool
     \<and> uiMaxNumRes (pool_at 0 w) = 0 \<and> uiIncrement (pool_at 0 w) = 1"

lemma init_pool_runs: "\<exists>w'. prviRsrcInitPool True nam sz ini inc mx w = Some (int ini, w')"
  by (auto simp: prviRsrcInitPool_def prviRsrcAdd2Pool_def Let_def)

lemma head_alloc_runs:
  assumes "pools_head w" "rsrcPools w \<noteq> []"
  obtains r w' where "pxRsrcAlloc True 0 w = Some (Some r, w')" "pools_head w'" "rsrcPools w' \<noteq> []"
proof -
  have m: "may_alloc (pool_at 0 w) (uxSizeEach (pool_at 0 w))"
    and h: "uxSizeEach (pool_at 0 w) = sizeof_rsrcPool" "uiMaxNumRes (pool_at 0 w) = 0" "uiIncrement (pool_at 0 w) = 1"
      "0 < length (rsrcPools w)"
    using assms by (simp_all add: may_alloc_def pools_head_def sizeof_rsrcPool_def)
  show ?thesis
  proof (cases "pxFreelist (pool_at 0 w)")
    case Nil
    show ?thesis
      by (rule var_alloc_grow[OF m Nil h(3,4) TrueI])
        (use that h in \<open>auto simp: pxRsrcAlloc_def pools_head_def simp flip: length_greater_0_conv\<close>)
  next
    case (Cons r rest)
    show ?thesis
      using that[of r "take_rsrc 0 r rest w"] var_alloc_take[OF m Cons] h
      by (auto simp: pxRsrcAlloc_def pools_head_def simp flip: length_greater_0_conv)
  qed
qed

lemma new_pool_runs:
  assumes "pools_head w" "ini \<le> 65535" "inc \<le> 65535" "mx \<le> 65535" "0 < inc + ini" "sz = 0 \<longrightarrow> ini \<le> 1 \<and> inc \<le> 1"
  obtains k w' where "pxRsrcNewPool True nam sz ini inc mx w = Some (Some k, w')" "pools_head w'"
proof -
  obtain n u where u: "(if rsrcPools w = [] then prviRsrcInitPool True ''Pools'' sizeof_rsrcPool rsrcINIT_NUM_POOLS 1 0 w
      else Some (1, w)) = Some (n, u)" "0 < n" "pools_head u" "rsrcPools u \<noteq> []"
  proof (cases "rsrcPools w = []")
    case True
    obtain u where u: "prviRsrcInitPool True ''Pools'' sizeof_rsrcPool rsrcINIT_NUM_POOLS 1 0 w = Some (int rsrcINIT_NUM_POOLS, u)"
      using init_pool_runs by blast
    show ?thesis
      by (rule that[of "int rsrcINIT_NUM_POOLS" u])
        (use True u init_pool_length[OF u] init_pool_pool[OF u] in
          \<open>auto simp: pools_head_def rsrcINIT_NUM_POOLS_def\<close>)
  qed (use that[of 1 w] assms(1) in simp)
  obtain r v where v: "pxRsrcAlloc True 0 u = Some (Some r, v)" "pools_head v" "rsrcPools v \<noteq> []"
    using head_alloc_runs[OF u(3,4)] .
  obtain w' where w': "prviRsrcInitPool True nam sz ini inc mx v = Some (int ini, w')"
    using init_pool_runs by blast
  have "pools_head w'"
    using v(2,3) init_pool_at(2)[OF w', of 0] by (simp add: pools_head_def)
  moreover have "pxRsrcNewPool True nam sz ini inc mx w = Some (Some (length (rsrcPools v)), w')"
    using u(2) v(1) w' assms(2-6) unfolding pxRsrcNewPool_def u(1) by auto
  ultimately show ?thesis using that by blast
qed

section \<open>Histories\<close>

datatype rsrc_op = NewPool string nat nat nat nat | VarAlloc nat nat | Free "nat option"

fun rsrc_step :: "bool \<Rightarrow> rsrc_op \<Rightarrow> rsrc_world \<Rightarrow> rsrc_world option" where
  "rsrc_step mem (NewPool nam sz ini inc mx) w = map_option snd (pxRsrcNewPool mem nam sz ini inc mx w)"
| "rsrc_step mem (VarAlloc k len) w =
     (if k < length (rsrcPools w) then map_option snd (pxRsrcVarAlloc mem k len w) else None)"
| "rsrc_step mem (Free pr) w = vRsrcFree pr w"

inductive rsrc_reach :: "rsrc_world \<Rightarrow> bool" where
  boot: "rsrc_reach rsrc_boot"
| step: "rsrc_reach w \<Longrightarrow> rsrc_step mem op w = Some w' \<Longrightarrow> rsrc_reach w'"

lemma step_wf: "rsrc_step mem op w = Some w' \<Longrightarrow> rsrc_wf w \<Longrightarrow> rsrc_wf w'"
  by (cases op) (auto split: if_splits dest: new_pool_wf var_alloc_wf free_wf)

lemma reach_wf: "rsrc_reach w \<Longrightarrow> rsrc_wf w"
  by (induction rule: rsrc_reach.induct) (auto intro: rsrc_wf_boot step_wf)

definition ex_pools :: rsrc_world where
  "ex_pools = the (rsrc_step True (NewPool ''a'' 8 3 0 0) rsrc_boot)"

definition ex_used :: rsrc_world where
  "ex_used = the (rsrc_step True (VarAlloc 1 8) ex_pools)"

lemma add_loop_numeral [simp]:
  "add_loop k (numeral m) w = add_loop k (pred_numeral m)
     (prvvFreeResTail k (next_rsrc w) (w \<lparr> next_rsrc := next_rsrc w + 1 \<rparr>))"
  by (simp add: numeral_eq_Suc)

lemmas pool_eval = pxRsrcNewPool_def prviRsrcInitPool_def prviRsrcAdd2Pool_def Let_def pool_upd_def
  prvvFreeResTail_def pool_at_def pxRsrcAlloc_def pxRsrcVarAlloc_def rsrcINIT_NUM_POOLS_def
  sizeof_rsrcPool_def

lemma ex_pools_runs:
  "\<not> Option.is_none (rsrc_step True (NewPool ''a'' 8 3 0 0) rsrc_boot)"
  "\<not> Option.is_none (rsrc_step True (VarAlloc 1 8) ex_pools) \<and> length (rsrcPools ex_pools) = 2"
  unfolding ex_pools_def rsrc_boot_def by (simp_all add: pool_eval)

lemma ex_used_runs: "\<not> Option.is_none (vRsrcFree (Some 7) ex_used)"
  unfolding ex_used_def ex_pools_def rsrc_boot_def by (simp add: pool_eval vRsrcFree_def)

lemma ex_pools_reach: "rsrc_reach ex_pools" "rsrc_reach ex_used"
proof -
  obtain u where u: "rsrc_step True (NewPool ''a'' 8 3 0 0) rsrc_boot = Some u"
    using ex_pools_runs(1) by (auto simp: Option.is_none_def)
  show p: "rsrc_reach ex_pools"
    using rsrc_reach.step[OF rsrc_reach.boot u] unfolding ex_pools_def u by simp
  obtain v where v: "rsrc_step True (VarAlloc 1 8) ex_pools = Some v"
    using ex_pools_runs(2) by (auto simp: Option.is_none_def)
  show "rsrc_reach ex_used"
    using rsrc_reach.step[OF p v] unfolding ex_used_def v by simp
qed

section \<open>Properties\<close>

text \<open>C23: After any sequence of pools created, resources allocated and freed, the free
  and the used resources of a pool are distinct, its 16-bit counters are their numbers
  modulo \<open>2 ^ 16\<close>, the free ones carry the mark that a second release is recognised
  by and the used ones do not; a resource that is handed out is used in no pool.\<close>

theorem pool_invariant:
  assumes "rsrc_reach w" "k < length (rsrcPools w)"
  shows "distinct (pxFreelist (pool_at k w) @ xActive (pool_at k w))
    \<and> uiNumFree (pool_at k w) = word_of_nat (length (pxFreelist (pool_at k w)))
    \<and> uiNumInUse (pool_at k w) = word_of_nat (length (xActive (pool_at k w)))
    \<and> (\<forall>r\<in>set (pxFreelist (pool_at k w)). magic w r) \<and> (\<forall>r\<in>set (xActive (pool_at k w)). \<not> magic w r)
    \<and> (\<forall>mem len r w' j. pxRsrcVarAlloc mem k len w = Some (Some r, w') \<longrightarrow> j < length (rsrcPools w)
         \<longrightarrow> r \<notin> set (xActive (pool_at j w)))"
proof -
  note w = reach_wf[OF assms(1)]
  have "r \<notin> set (xActive (pool_at j w))"
    if a: "pxRsrcVarAlloc mem k len w = Some (Some r, w')" and j: "j < length (rsrcPools w)" for mem len r w' j
    using a w assms(2)
  proof (rule var_alloc_cases)
    fix r' rest u
    assume u: "Some r = Some r'" "rsrc_wf u" "length (rsrcPools u) = length (rsrcPools w)"
      "pxFreelist (pool_at k u) = r' # rest" "\<And>j. xActive (pool_at j u) = xActive (pool_at j w)"
    have "magic u r" using rsrc_wfD(2)[OF u(2), of k] u(1,3,4) assms(2) by (auto simp: free_marked_def)
    moreover have "\<forall>r\<in>set (xActive (pool_at j u)). \<not> magic u r"
      using rsrc_wfD(2)[OF u(2), of j] u(3) j by (auto simp: free_marked_def)
    ultimately show ?thesis using u(5) by auto
  qed simp
  then show ?thesis
    using rsrc_wfD(1,2)[OF w assms(2)] by (auto simp: pool_ok_def free_marked_def)
qed

theorem pool_invariant_witness:
  "distinct (pxFreelist (pool_at 1 ex_pools) @ xActive (pool_at 1 ex_pools))"
  using pool_invariant[OF ex_pools_reach(1), of 1] ex_pools_runs(2) by simp

text \<open>A freed resource cannot be freed again (the call aborts), and in a pool that
  keeps its resources it is the next one handed out, when the pool has no limit.\<close>

theorem pool_free_twice:
  assumes "rsrc_reach w" "vRsrcFree (Some r) w = Some w'"
  shows "vRsrcFree (Some r) w' = None
    \<and> (\<exists>k. rs_pool w r = Some k \<and> (\<not> uiFreeOnFree (pool_at k w) \<and> uiMaxNumRes (pool_at k w) = 0 \<and> 0 < uxSizeEach (pool_at k w)
         \<longrightarrow> (\<exists>w''. pxRsrcAlloc mem k w' = Some (Some r, w''))))"
proof -
  note w = reach_wf[OF assms(1)]
  obtain k where k: "rs_pool w r = Some k" "\<not> magic w r"
    using assms(2) by (auto simp: vRsrcFree_def split: Option.bind_splits if_splits)
  have kl: "k < length (rsrcPools w)" using rsrc_wf_owner[OF w k(1)] by simp
  have w': "w' = (let u = pool_upd k (\<lambda>p. p \<lparr> xActive := remove1 r (xActive p), uiNumInUse := uiNumInUse p - 1 \<rparr>) w
      in if uiFreeOnFree (pool_at k w) then u \<lparr> rs_pool := (rs_pool w)(r := None) \<rparr> else prvvFreeResTail k r u)"
    using assms(2) k kl by (auto simp: vRsrcFree_def Let_def split: if_splits)
  have "vRsrcFree (Some r) w' = None"
    using k kl by (simp add: w' Let_def vRsrcFree_def prvvFreeResTail_def)
  moreover have "\<exists>w''. pxRsrcAlloc mem k w' = Some (Some r, w'')"
    if "\<not> uiFreeOnFree (pool_at k w)" "uiMaxNumRes (pool_at k w) = 0" "0 < uxSizeEach (pool_at k w)"
    using that kl by (simp add: w' Let_def pxRsrcAlloc_def pxRsrcVarAlloc_def prvvFreeResTail_def)
  ultimately show ?thesis using k(1) by simp
qed

theorem pool_free_twice_witness: "vRsrcFree (Some 7) (the (vRsrcFree (Some 7) ex_used)) = None"
proof -
  obtain w where w: "vRsrcFree (Some 7) ex_used = Some w"
    using ex_used_runs by (auto simp: Option.is_none_def)
  show ?thesis using pool_free_twice[OF ex_pools_reach(2) w] w by simp
qed

text \<open>The limit of a pool counts the free resources too: a pool created with all the
  resources its limit allows hands out none of them.\<close>

theorem pool_limit_refuses:
  assumes "rsrc_reach w" "pxRsrcNewPool mem nam sz ini inc mx w = Some (Some k, w')" "0 < mx" "mx \<le> ini"
  shows "length (pxFreelist (pool_at k w')) = ini \<and> pxRsrcVarAlloc mem' k len w' = Some (None, w')"
proof -
  have b: "ini \<le> 65535" "mx \<le> 65535"
    using assms(2) unfolding pxRsrcNewPool_def by (auto split: if_splits)
  obtain v n where v: "prviRsrcInitPool mem nam sz ini inc mx v = Some (n, w')" "k = length (rsrcPools v)" "rsrc_wf w'"
    using assms(2) new_pool_wf[OF assms(2) reach_wf[OF assms(1)]] unfolding pxRsrcNewPool_def
    by (auto simp: Let_def split: if_splits Option.bind_splits option.splits)
  have w': "length (pxFreelist (pool_at k w')) = ini" "uiMaxNumRes (pool_at k w') = word_of_nat mx"
    using init_pool_pool[OF v(1)] v(2) by simp_all
  have "k < length (rsrcPools w')" using new_pool_wf[OF assms(2) reach_wf[OF assms(1)]] by simp
  then have "uiNumFree (pool_at k w') = word_of_nat ini"
    using rsrc_wfD(1)[OF v(3), of k] w'(1) by (simp add: pool_ok_def)
  moreover have "unat (word_of_nat ini :: u16) = ini" "unat (word_of_nat mx :: u16) = mx"
    using b by (simp_all add: unat_of_nat)
  moreover have "(word_of_nat mx :: u16) \<noteq> 0"
    using calculation(3) assms(3) by auto
  ultimately show ?thesis
    using w' assms(3,4) by (simp add: pxRsrcVarAlloc_def Let_def)
qed

lemma ex_limit_runs:
  "\<not> Option.is_none (pxRsrcNewPool True ''a'' 8 3 0 3 rsrc_boot)"
  "fst (the (pxRsrcNewPool True ''a'' 8 3 0 3 rsrc_boot)) = Some 1"
  unfolding rsrc_boot_def by (simp_all add: pool_eval)

theorem pool_limit_refuses_witness:
  "pxRsrcVarAlloc True 1 8 (snd (the (pxRsrcNewPool True ''a'' 8 3 0 3 rsrc_boot)))
     = Some (None, snd (the (pxRsrcNewPool True ''a'' 8 3 0 3 rsrc_boot)))"
proof -
  obtain w where w: "pxRsrcNewPool True ''a'' 8 3 0 3 rsrc_boot = Some (Some 1, w)"
    using ex_limit_runs by (cases "pxRsrcNewPool True ''a'' 8 3 0 3 rsrc_boot") (auto simp: Option.is_none_def)
  show ?thesis using pool_limit_refuses[OF rsrc_reach.boot w, of True 8] unfolding w by simp
qed

end
