(* ===== verification/Net_Buffers.thy ===== *)
theory Net_Buffers
  imports Rsrc_Pool Rina_Time Du_Pci
begin

text \<open>
  The network buffers on the resource pools: \<open>BufferManagement/BufferManagement.c\<close>.
  A descriptor is a resource of the first pool, its buffer one of the second; the store
  gives the bytes of a buffer.  A call that aborts or follows a NULL pointer is \<open>None\<close>.
  The last part shows that the list of free descriptors, over which the modules of the
  IPC process are modelled, is an abstraction of this.
\<close>

record nb_world =
  nw_rsrc :: rsrc_world
  xNetworkBufferDescriptorPool :: "nat option"
  xNetworkBufferPool :: "nat option"
  semInitialized :: bool
  xNetworkBufferSemaphore :: nat
  nd_buffer :: "nat \<Rightarrow> nat option"
  nd_length :: "nat \<Rightarrow> nat"
  nb_store :: "nat \<Rightarrow> u8 list"

definition BUFFER_PADDING :: nat where "BUFFER_PADDING = 0"
definition sizeof_NetworkBufferDescriptor_t :: nat where "sizeof_NetworkBufferDescriptor_t = 60"

section \<open>Operations\<close>

text \<open>\<open>sem_ret\<close> is what \<open>sem_init\<close> answers, \<open>- 1\<close> when it fails.\<close>

definition xNetworkBuffersInitialise :: "bool \<Rightarrow> int \<Rightarrow> nb_world \<Rightarrow> (bool \<times> nb_world) option" where
  "xNetworkBuffersInitialise mem sem_ret w = do {
     let ret = (if semInitialized w then - 1 else sem_ret);
     w \<leftarrow> (if ret = 0 then do {
              (k, rs) \<leftarrow> pxRsrcNewPool mem ''NetBufDesc'' sizeof_NetworkBufferDescriptor_t
                           NUM_NETWORK_BUFFER_DESCRIPTORS 0 0 (nw_rsrc w);
              (j, rs) \<leftarrow> pxRsrcNewVarPool mem ''NetBuf'' (NUM_NETWORK_BUFFER_DESCRIPTORS + 1) rs;
              Some (w \<lparr> nw_rsrc := rs, xNetworkBufferDescriptorPool := k, xNetworkBufferPool := j,
                        xNetworkBufferSemaphore := NUM_NETWORK_BUFFER_DESCRIPTORS \<rparr>) }
            else Some w);
     let ok = \<not> ret > 0;
     Some (ok, w \<lparr> semInitialized := ok \<rparr>) }"

definition nb_round :: "nat \<Rightarrow> nat" where
  "nb_round n = (if n mod 4 \<noteq> 0 then (n - n mod 4 + 4) mod 2 ^ 32 else n)"

text \<open>The answer is the buffer and its size.\<close>

definition pucGetNetworkBufferFor :: "bool \<Rightarrow> nat \<Rightarrow> nb_world \<Rightarrow> (nat \<times> nat \<times> nb_world) option" where
  "pucGetNetworkBufferFor mem n w = do {
     let m = nb_round (max n baMINIMAL_BUFFER_SIZE);
     k \<leftarrow> xNetworkBufferPool w;
     (b, rs) \<leftarrow> pxRsrcVarAlloc mem k (m + BUFFER_PADDING) (nw_rsrc w);
     b \<leftarrow> b;
     Some (b, m, w \<lparr> nw_rsrc := rs, nb_store := (nb_store w)(b := replicate (m + BUFFER_PADDING) 0) \<rparr>) }"

definition vReleaseNetworkBuffer :: "nat option \<Rightarrow> nb_world \<Rightarrow> nb_world option" where
  "vReleaseNetworkBuffer buf w =
     (case buf of
        None \<Rightarrow> Some w
      | Some b \<Rightarrow> do { rs \<leftarrow> vRsrcFree (Some b) (nw_rsrc w); Some (w \<lparr> nw_rsrc := rs \<rparr>) })"

definition nb_release :: "nat \<Rightarrow> nb_world \<Rightarrow> nb_world option" where
  "nb_release d w = do {
     w \<leftarrow> vReleaseNetworkBuffer (nd_buffer w d) w;
     let w = w \<lparr> nd_buffer := (nd_buffer w)(d := None), nd_length := (nd_length w)(d := 0) \<rparr>;
     rs \<leftarrow> vRsrcFree (Some d) (nw_rsrc w);
     Some (w \<lparr> nw_rsrc := rs, xNetworkBufferSemaphore := xNetworkBufferSemaphore w + 1 \<rparr>) }"

text \<open>The part after the semaphore has been taken.  The memory of a new descriptor is
  cleared by the pool.  The storage is cleared before the pointer is tested, so that the
  release after the test is never reached.\<close>

definition nb_attach :: "bool \<Rightarrow> nat \<Rightarrow> nb_world \<Rightarrow> (nat option \<times> nb_world) option" where
  "nb_attach mem n w = do {
     k \<leftarrow> xNetworkBufferDescriptorPool w;
     (d, rs) \<leftarrow> pxRsrcAlloc mem k (nw_rsrc w);
     if n > 0
     then do {
       let m = buffer_size n;
       j \<leftarrow> xNetworkBufferPool w;
       (b, rs) \<leftarrow> pxRsrcVarAlloc mem j (m + BUFFER_PADDING) rs;
       d \<leftarrow> d;
       b \<leftarrow> b;
       Some (Some d, w \<lparr> nw_rsrc := rs, nd_buffer := (nd_buffer w)(d \<mapsto> b), nd_length := (nd_length w)(d := m),
         nb_store := (nb_store w)(b := le32 (word_of_nat d) @ drop 4 (replicate (m + BUFFER_PADDING) 0)) \<rparr>) }
     else do {
       d \<leftarrow> d;
       Some (Some d, w \<lparr> nw_rsrc := rs, nd_buffer := (nd_buffer w)(d := None), nd_length := (nd_length w)(d := 0) \<rparr>) } }"

text \<open>A wait that would block ends with its time-out.\<close>

definition pxGetNetworkBufferWithDescriptorFor ::
  "timespec option \<Rightarrow> bool \<Rightarrow> nat \<Rightarrow> u32 \<Rightarrow> nb_world \<Rightarrow> (nat option \<times> nb_world) option" where
  "pxGetNetworkBufferWithDescriptorFor clk mem n us w =
     (if \<not> semInitialized w then None
      else if us > 0 \<and> rstime_waitusec clk us = None then Some (None, w)
      else if us > 0 \<and> rstime_waitusec clk us = Some None then None
      else if xNetworkBufferSemaphore w = 0 then Some (None, w)
      else nb_attach mem n (w \<lparr> xNetworkBufferSemaphore := xNetworkBufferSemaphore w - 1 \<rparr>))"

definition uxGetNumberOfFreeNetworkBuffers :: "nb_world \<Rightarrow> nat option" where
  "uxGetNumberOfFreeNetworkBuffers w =
     map_option (\<lambda>k. unat (uiNumFree (pool_at k (nw_rsrc w)))) (xNetworkBufferDescriptorPool w)"

definition uxGetMinimumFreeNetworkBuffers :: "nb_world \<Rightarrow> nat option" where
  "uxGetMinimumFreeNetworkBuffers w =
     map_option (\<lambda>k. unat (uiLowWater (pool_at k (nw_rsrc w)))) (xNetworkBufferDescriptorPool w)"

text \<open>The copy is made from the old storage, which must be there and hold as many bytes.\<close>

definition pxResizeNetworkBufferWithDescriptorFor ::
  "bool \<Rightarrow> nat \<Rightarrow> nat \<Rightarrow> nb_world \<Rightarrow> (nat option \<times> nb_world) option" where
  "pxResizeNetworkBufferWithDescriptorFor mem d n w = do {
     let orig = nd_length w d + BUFFER_PADDING;
     (b, m, w) \<leftarrow> pucGetNetworkBufferFor mem (n + BUFFER_PADDING) w;
     let w = w \<lparr> nd_length := (nd_length w)(d := m) \<rparr>;
     let c = min m orig;
     old \<leftarrow> nd_buffer w d;
     if length (nb_store w old) < c \<or> length (nb_store w b) < c then None
     else do {
       let w = w \<lparr> nb_store := (nb_store w)(b := take c (nb_store w old) @ drop c (nb_store w b)) \<rparr>;
       w \<leftarrow> vReleaseNetworkBuffer (Some old) w;
       Some (Some d, w \<lparr> nd_buffer := (nd_buffer w)(d \<mapsto> b) \<rparr>) } }"

text \<open>Before the pools are created.\<close>

definition nb_boot :: nb_world where
  "nb_boot = \<lparr> nw_rsrc = rsrc_boot, xNetworkBufferDescriptorPool = None, xNetworkBufferPool = None,
     semInitialized = False, xNetworkBufferSemaphore = 0, nd_buffer = (\<lambda>_. None), nd_length = (\<lambda>_. 0),
     nb_store = (\<lambda>_. []) \<rparr>"

section \<open>The invariant\<close>

definition desc_pool :: "rsrcPool \<Rightarrow> bool" where
  "desc_pool p \<longleftrightarrow> uxSizeEach p = sizeof_NetworkBufferDescriptor_t \<and> uiMaxNumRes p = 0 \<and> uiIncrement p = 0
     \<and> \<not> uiFreeOnFree p \<and> length (pxFreelist p) + length (xActive p) = NUM_NETWORK_BUFFER_DESCRIPTORS"

definition buf_pool :: "rsrcPool \<Rightarrow> bool" where
  "buf_pool p \<longleftrightarrow> uxSizeEach p = 0 \<and> uiMaxNumRes p = word_of_nat (NUM_NETWORK_BUFFER_DESCRIPTORS + 1)
     \<and> uiIncrement p = 1 \<and> uiFreeOnFree p \<and> pxFreelist p = []"

text \<open>Every buffer in use belongs to one used descriptor.\<close>

definition nb_owned :: "nat list \<Rightarrow> nat list \<Rightarrow> nb_world \<Rightarrow> bool" where
  "nb_owned ds bs w \<longleftrightarrow>
     (\<forall>d b. nd_buffer w d = Some b \<longrightarrow> d \<in> set ds \<and> b \<in> set bs \<and> length (nb_store w b) = nd_length w d)
     \<and> (\<forall>d d' b. nd_buffer w d = Some b \<longrightarrow> nd_buffer w d' = Some b \<longrightarrow> d = d')
     \<and> (\<forall>b\<in>set bs. \<exists>d. nd_buffer w d = Some b)"

definition nb_wf :: "nat \<Rightarrow> nat \<Rightarrow> nb_world \<Rightarrow> bool" where
  "nb_wf k j w \<longleftrightarrow> xNetworkBufferDescriptorPool w = Some k \<and> xNetworkBufferPool w = Some j \<and> semInitialized w
     \<and> k \<noteq> j \<and> k < length (rsrcPools (nw_rsrc w)) \<and> j < length (rsrcPools (nw_rsrc w)) \<and> rsrc_wf (nw_rsrc w)
     \<and> desc_pool (pool_at k (nw_rsrc w)) \<and> buf_pool (pool_at j (nw_rsrc w))
     \<and> xNetworkBufferSemaphore w = length (pxFreelist (pool_at k (nw_rsrc w)))
     \<and> nb_owned (xActive (pool_at k (nw_rsrc w))) (xActive (pool_at j (nw_rsrc w))) w"

lemma nb_wfD:
  assumes "nb_wf k j w"
  shows "xNetworkBufferDescriptorPool w = Some k" "xNetworkBufferPool w = Some j" "semInitialized w"
    "k \<noteq> j" "k < length (rsrcPools (nw_rsrc w))" "j < length (rsrcPools (nw_rsrc w))" "rsrc_wf (nw_rsrc w)"
    "desc_pool (pool_at k (nw_rsrc w))" "buf_pool (pool_at j (nw_rsrc w))"
    "xNetworkBufferSemaphore w = length (pxFreelist (pool_at k (nw_rsrc w)))"
    "nb_owned (xActive (pool_at k (nw_rsrc w))) (xActive (pool_at j (nw_rsrc w))) w"
  using assms by (simp_all add: nb_wf_def)

text \<open>There are never more buffers than used descriptors: the limit of their pool is never
  met.\<close>

lemma buffers_bound:
  assumes "nb_wf k j w"
  shows "length (xActive (pool_at j (nw_rsrc w))) \<le> length (xActive (pool_at k (nw_rsrc w)))"
    "length (xActive (pool_at k (nw_rsrc w))) \<le> NUM_NETWORK_BUFFER_DESCRIPTORS"
proof -
  note w = nb_wfD[OF assms]
  have d: "distinct (xActive (pool_at j (nw_rsrc w)))"
    using rsrc_wfD(1)[OF w(7) w(6)] by (auto simp: pool_ok_def)
  have "Some ` set (xActive (pool_at j (nw_rsrc w))) \<subseteq> nd_buffer w ` set (xActive (pool_at k (nw_rsrc w)))"
  proof
    fix x assume "x \<in> Some ` set (xActive (pool_at j (nw_rsrc w)))"
    then obtain b d where "x = Some b" "nd_buffer w d = Some b" using w(11) by (auto simp: nb_owned_def)
    then show "x \<in> nd_buffer w ` set (xActive (pool_at k (nw_rsrc w)))"
      using w(11) unfolding nb_owned_def by (metis image_eqI)
  qed
  then have "card (set (xActive (pool_at j (nw_rsrc w)))) \<le> card (set (xActive (pool_at k (nw_rsrc w))))"
    by (metis (no_types) List.finite_set card_image card_image_le card_mono finite_imageI inj_Some order_trans)
  then show "length (xActive (pool_at j (nw_rsrc w))) \<le> length (xActive (pool_at k (nw_rsrc w)))"
    using distinct_card[OF d] card_length[of "xActive (pool_at k (nw_rsrc w))"] by linarith
  show "length (xActive (pool_at k (nw_rsrc w))) \<le> NUM_NETWORK_BUFFER_DESCRIPTORS"
    using w(8) by (simp add: desc_pool_def)
qed

lemma buf_may_alloc:
  assumes "nb_wf k j w" "0 < len"
  shows "may_alloc (pool_at j (nw_rsrc w)) len"
proof -
  note w = nb_wfD[OF assms(1)]
  have "length (xActive (pool_at j (nw_rsrc w))) \<le> 20"
    using buffers_bound[OF assms(1)] by (simp add: NUM_NETWORK_BUFFER_DESCRIPTORS_def)
  then have "unat (uiNumInUse (pool_at j (nw_rsrc w))) \<le> 20" "unat (uiNumFree (pool_at j (nw_rsrc w))) = 0"
    using rsrc_wfD(1)[OF w(7) w(6)] w(9) by (simp_all add: pool_ok_def buf_pool_def unat_of_nat)
  then show ?thesis
    using w(9) assms(2) by (simp add: may_alloc_def buf_pool_def NUM_NETWORK_BUFFER_DESCRIPTORS_def)
qed

text \<open>A new buffer: only its pool changes.\<close>

lemma new_buffer:
  assumes "nb_wf k j w" "0 < len"
  obtains u where
    "pxRsrcVarAlloc mem j len (nw_rsrc w) = (if mem then Some (Some (next_rsrc (nw_rsrc w)), u) else None)"
    "mem \<Longrightarrow> rsrc_wf u" "length (rsrcPools u) = length (rsrcPools (nw_rsrc w))"
    "pool_at k u = pool_at k (nw_rsrc w)" "buf_pool (pool_at j u)"
    "xActive (pool_at j u) = next_rsrc (nw_rsrc w) # xActive (pool_at j (nw_rsrc w))"
proof -
  note w = nb_wfD[OF assms(1)]
  note m = buf_may_alloc[OF assms]
  have p: "pxFreelist (pool_at j (nw_rsrc w)) = []" "uiIncrement (pool_at j (nw_rsrc w)) = 1"
    using w(9) by (simp_all add: buf_pool_def)
  obtain u where u: "pxRsrcVarAlloc True j len (nw_rsrc w)
        = Some (Some (next_rsrc (nw_rsrc w)), take_rsrc j (next_rsrc (nw_rsrc w)) [] u)"
    "rs_pool u = rs_pool (nw_rsrc w)" "length (rsrcPools u) = length (rsrcPools (nw_rsrc w))"
    "\<And>i. i \<noteq> j \<Longrightarrow> pool_at i u = pool_at i (nw_rsrc w)" "xActive (pool_at j u) = xActive (pool_at j (nw_rsrc w))"
    "uxSizeEach (pool_at j u) = uxSizeEach (pool_at j (nw_rsrc w))"
    "uiIncrement (pool_at j u) = uiIncrement (pool_at j (nw_rsrc w))"
    "uiFreeOnFree (pool_at j u) = uiFreeOnFree (pool_at j (nw_rsrc w))"
    "uiMaxNumRes (pool_at j u) = uiMaxNumRes (pool_at j (nw_rsrc w))"
    using var_alloc_grow[OF m p w(6) TrueI] by metis
  show ?thesis
    using that[of "take_rsrc j (next_rsrc (nw_rsrc w)) [] u"] u w var_alloc_no_memory[OF m p]
      var_alloc_wf[OF u(1) w(7) w(6)]
    by (auto simp: buf_pool_def)
qed

lemma buffer_size_dvd: "4 dvd buffer_size n"
proof -
  define m where "m = (max n baMINIMAL_BUFFER_SIZE + 2) mod 2 ^ 32"
  have "4 dvd m - m mod 4" by (rule dvd_minus_mod)
  then have "4 dvd m - m mod 4 + 4" by (rule dvd_add) simp
  then have "4 dvd (m - m mod 4 + 4) mod 2 ^ 32" by (rule dvd_mod) simp
  then show ?thesis
    unfolding buffer_size_def m_def[symmetric] Let_def by (cases "m mod 4 = 0") (simp_all only: if_True if_False simp_thms dvd_eq_mod_eq_0)
qed

section \<open>Getting a buffer\<close>

definition nb_free :: "nb_world \<Rightarrow> nat list" where
  "nb_free w = (case xNetworkBufferDescriptorPool w of None \<Rightarrow> [] | Some k \<Rightarrow> pxFreelist (pool_at k (nw_rsrc w)))"

definition nb_used :: "nb_world \<Rightarrow> nat list" where
  "nb_used w = (case xNetworkBufferDescriptorPool w of None \<Rightarrow> [] | Some k \<Rightarrow> xActive (pool_at k (nw_rsrc w)))"

text \<open>A descriptor as the modules of the IPC process see it when they get it.\<close>

definition nb_view :: "nb_world \<Rightarrow> nat \<Rightarrow> NetworkBufferDescriptor_t" where
  "nb_view w d = \<lparr> nb_id = d, pucEthernetBuffer = map_option (nb_store w) (nd_buffer w d), pucRinaBuffer = None,
     pucDataBuffer = None, xRinaDataLength = 0, xDataLength = nd_length w d \<rparr>"

lemma nb_free_used: "nb_wf k j w \<Longrightarrow> nb_free w = pxFreelist (pool_at k (nw_rsrc w))"
  "nb_wf k j w \<Longrightarrow> nb_used w = xActive (pool_at k (nw_rsrc w))"
  by (simp_all add: nb_free_def nb_used_def nb_wf_def)

lemma free_no_buffer:
  assumes "nb_wf k j w" "d \<in> set (nb_free w)" shows "nd_buffer w d = None" "d \<notin> set (nb_used w)"
proof -
  have "d \<notin> set (xActive (pool_at k (nw_rsrc w)))"
    using assms nb_wfD(5,7)[OF assms(1)] rsrc_wfD(1)[of "nw_rsrc w" k] by (auto simp: nb_free_used pool_ok_def)
  then show "nd_buffer w d = None" "d \<notin> set (nb_used w)"
    using nb_wfD(11)[OF assms(1)] assms(1) by (cases "nd_buffer w d"; auto simp: nb_owned_def nb_free_used)+
qed

text \<open>Taking a descriptor without storage.\<close>

definition nb_taken :: "nat \<Rightarrow> nat \<Rightarrow> nat list \<Rightarrow> nb_world \<Rightarrow> nb_world" where
  "nb_taken k d rest w = w \<lparr> xNetworkBufferSemaphore := xNetworkBufferSemaphore w - 1,
     nw_rsrc := take_rsrc k d rest (nw_rsrc w), nd_buffer := (nd_buffer w)(d := None),
     nd_length := (nd_length w)(d := 0) \<rparr>"

lemma nb_taken_wf:
  assumes "nb_wf k j w" "nb_free w = d # rest"
  shows "nb_wf k j (nb_taken k d rest w) \<and> nb_free (nb_taken k d rest w) = rest
    \<and> nb_used (nb_taken k d rest w) = d # nb_used w"
proof -
  note w = nb_wfD[OF assms(1)]
  have f: "pxFreelist (pool_at k (nw_rsrc w)) = d # rest" using assms by (simp add: nb_free_used)
  have n: "nd_buffer w d = None" using free_no_buffer[OF assms(1)] assms(2) by simp
  have b: "b \<noteq> d" if "nd_buffer w b \<noteq> None" for b using n that by auto
  have "rsrc_wf (take_rsrc k d rest (nw_rsrc w))" using take_wf[OF w(7,5) f] .
  then have "nb_wf k j (nb_taken k d rest w)"
    using w n f by (auto simp: nb_wf_def nb_taken_def desc_pool_def nb_owned_def fun_upd_idem dest: b)
  then show ?thesis
    using f w(5) assms(1) by (simp add: nb_free_used) (simp add: nb_taken_def)
qed

text \<open>Attaching storage to a descriptor that has none.\<close>

lemma nb_attach_wf:
  assumes "nb_wf k j w" "d \<in> set (nb_used w)" "nd_buffer w d = None" "length bs = m"
    and b: "b = next_rsrc (nw_rsrc w)" "xActive (pool_at j u) = b # xActive (pool_at j (nw_rsrc w))"
    and u: "rsrc_wf u" "length (rsrcPools u) = length (rsrcPools (nw_rsrc w))"
      "pool_at k u = pool_at k (nw_rsrc w)" "buf_pool (pool_at j u)"
  shows "nb_wf k j (w \<lparr> nw_rsrc := u, nd_buffer := (nd_buffer w)(d \<mapsto> b), nd_length := (nd_length w)(d := m),
    nb_store := (nb_store w)(b := bs) \<rparr>)"
    "b \<notin> set (xActive (pool_at j (nw_rsrc w)))"
proof -
  note w = nb_wfD[OF assms(1)]
  show "b \<notin> set (xActive (pool_at j (nw_rsrc w)))"
    using rsrc_wfD(1)[OF w(7,6)] b(1) by (auto simp: pool_ok_def)
  then have "nd_buffer w d' \<noteq> Some b" for d' using w(11) unfolding nb_owned_def by blast
  then have "nb_owned (xActive (pool_at k u)) (xActive (pool_at j u))
      (w \<lparr> nw_rsrc := u, nd_buffer := (nd_buffer w)(d \<mapsto> b), nd_length := (nd_length w)(d := m),
         nb_store := (nb_store w)(b := bs) \<rparr>)"
    using w(11) assms(1-4) b(2) u(3) unfolding nb_owned_def by (auto simp: nb_free_used) (metis option.distinct(1))
  then show "nb_wf k j (w \<lparr> nw_rsrc := u, nd_buffer := (nd_buffer w)(d \<mapsto> b), nd_length := (nd_length w)(d := m),
    nb_store := (nb_store w)(b := bs) \<rparr>)"
    using w u by (simp add: nb_wf_def)
qed

lemma nb_attach_cases:
  assumes w: "nb_wf k j w" and f: "nb_free w = d # rest"
  obtains "n = 0" "nb_attach mem n (w \<lparr> xNetworkBufferSemaphore := xNetworkBufferSemaphore w - 1 \<rparr>)
      = Some (Some d, nb_taken k d rest w)"
  | "n > 0" "\<not> (mem \<and> 0 < buffer_size n)"
      "nb_attach mem n (w \<lparr> xNetworkBufferSemaphore := xNetworkBufferSemaphore w - 1 \<rparr>) = None"
  | w' b where "n > 0" "mem" "0 < buffer_size n"
      "nb_attach mem n (w \<lparr> xNetworkBufferSemaphore := xNetworkBufferSemaphore w - 1 \<rparr>) = Some (Some d, w')"
      "nb_wf k j w'" "nb_free w' = rest" "nb_used w' = d # nb_used w"
      "nb_view w' d = \<lparr> nb_id = d, pucEthernetBuffer = Some (fresh_buffer d (buffer_size n)), pucRinaBuffer = None,
         pucDataBuffer = None, xRinaDataLength = 0, xDataLength = buffer_size n \<rparr>"
      "\<And>e. e \<in> set (nb_used w) \<Longrightarrow> nb_view w' e = nb_view w e"
proof -
  let ?w = "w \<lparr> xNetworkBufferSemaphore := xNetworkBufferSemaphore w - 1 \<rparr>"
  note W = nb_wfD[OF w]
  have fl: "pxFreelist (pool_at k (nw_rsrc w)) = d # rest" using w f by (simp add: nb_free_used)
  have ma: "may_alloc (pool_at k (nw_rsrc w)) sizeof_NetworkBufferDescriptor_t"
    using W(8) by (simp add: may_alloc_def desc_pool_def sizeof_NetworkBufferDescriptor_t_def)
  have al: "pxRsrcAlloc mem k (nw_rsrc w) = Some (Some d, take_rsrc k d rest (nw_rsrc w))"
    using var_alloc_take[OF ma fl] W(8) by (simp add: pxRsrcAlloc_def desc_pool_def)
  note t = nb_taken_wf[OF w f]
  show ?thesis
  proof (cases "n = 0")
    case True
    then show ?thesis using that(1) al W by (simp add: nb_attach_def nb_taken_def)
  next
    case False
    show ?thesis
    proof (cases "0 < buffer_size n")
      case zero: False
      then have "pxRsrcVarAlloc mem j (buffer_size n + BUFFER_PADDING) (take_rsrc k d rest (nw_rsrc w))
          = Some (None, take_rsrc k d rest (nw_rsrc w))"
        by (intro var_alloc_refused) (simp add: may_alloc_def BUFFER_PADDING_def)
      then show ?thesis using that(2) False zero al W by (simp add: nb_attach_def Let_def)
    next
      case pos: True
      let ?r = "take_rsrc k d rest (nw_rsrc w)" and ?b = "next_rsrc (nw_rsrc w)"
      have nr: "nw_rsrc (nb_taken k d rest w) = ?r" "next_rsrc ?r = ?b"
        by (simp_all add: nb_taken_def take_rsrc_def)
      obtain u where u: "pxRsrcVarAlloc mem j (buffer_size n) ?r = (if mem then Some (Some ?b, u) else None)"
        "mem \<Longrightarrow> rsrc_wf u" "length (rsrcPools u) = length (rsrcPools ?r)" "pool_at k u = pool_at k ?r"
        "buf_pool (pool_at j u)" "xActive (pool_at j u) = ?b # xActive (pool_at j ?r)"
        using new_buffer[OF conjunct1[OF t] pos, of mem] unfolding nr by metis
      define w' where "w' = (nb_taken k d rest w) \<lparr> nw_rsrc := u,
        nd_buffer := (nd_buffer (nb_taken k d rest w))(d \<mapsto> ?b),
        nd_length := (nd_length (nb_taken k d rest w))(d := buffer_size n),
        nb_store := (nb_store (nb_taken k d rest w))(?b := fresh_buffer d (buffer_size n)) \<rparr>"
      have a: "nb_attach mem n ?w = (if mem then Some (Some d, w') else None)"
        using False al u(1) W
        by (simp add: nb_attach_def BUFFER_PADDING_def w'_def nb_taken_def fresh_buffer_def Let_def)
      have ge: "4 \<le> buffer_size n" using pos buffer_size_dvd[of n] by (auto elim: dvdE)
      show ?thesis
      proof (cases mem)
        case True
        have wf: "nb_wf k j w'" and nb: "?b \<notin> set (xActive (pool_at j ?r))"
          using nb_attach_wf[OF conjunct1[OF t], of d "fresh_buffer d (buffer_size n)" "buffer_size n" ?b u]
            t u True ge unfolding w'_def nr by (auto simp: nb_taken_def)
        have "nb_view w' e = nb_view w e" if e: "e \<in> set (nb_used w)" for e
        proof -
          have "e \<noteq> d" using e free_no_buffer[OF w, of d] f by auto
          moreover have "nd_buffer w e \<noteq> Some ?b"
            using nb_wfD(11)[OF w] rsrc_wfD(1)[OF W(7,6)] unfolding nb_owned_def pool_ok_def by fastforce
          ultimately show ?thesis by (cases "nd_buffer w e") (auto simp: nb_view_def w'_def nb_taken_def)
        qed
        then show ?thesis
          using that(3)[of w'] False True pos a wf u t W fl
          by (simp add: nb_free_used[OF wf] nb_free_used[OF w] nb_view_def) (simp add: w'_def)
      qed (use that(2) False a in simp)
    qed
  qed
qed

section \<open>Releasing a buffer\<close>

lemma free_storage:
  assumes "nb_wf k j w"
  obtains u where "vReleaseNetworkBuffer (nd_buffer w d) w = Some (w \<lparr> nw_rsrc := u \<rparr>)" "rsrc_wf u"
    "length (rsrcPools u) = length (rsrcPools (nw_rsrc w))" "pool_at k u = pool_at k (nw_rsrc w)"
    "buf_pool (pool_at j u)"
    "set (xActive (pool_at j u)) = set (xActive (pool_at j (nw_rsrc w))) - set_option (nd_buffer w d)"
proof (cases "nd_buffer w d")
  case None
  then show ?thesis using that[of "nw_rsrc w"] nb_wfD[OF assms] by (simp add: vReleaseNetworkBuffer_def)
next
  case (Some b)
  note w = nb_wfD[OF assms]
  have b: "b \<in> set (xActive (pool_at j (nw_rsrc w)))" using w(11) Some by (auto simp: nb_owned_def)
  note o = active_owner[OF w(7,6) b]
  obtain u where u: "vRsrcFree (Some b) (nw_rsrc w) = Some u"
    using free_defined[OF w(7) o(1)] o(3) by auto
  have "distinct (xActive (pool_at j (nw_rsrc w)))" using rsrc_wfD(1)[OF w(7,6)] by (simp add: pool_ok_def)
  then show ?thesis
    using that[of u] u Some free_wf[OF u w(7)] free_at[OF u w(7) o(1)] w(4,9)
    by (simp add: buf_pool_def vReleaseNetworkBuffer_def)
qed

lemma release_cases:
  assumes w: "nb_wf k j w" and d: "d \<in> set (nb_free w) \<union> set (nb_used w)"
  obtains "d \<in> set (nb_free w)" "nb_release d w = None"
  | w' where "d \<in> set (nb_used w)" "nb_release d w = Some w'" "nb_wf k j w'" "nb_free w' = d # nb_free w"
      "nb_used w' = remove1 d (nb_used w)" "\<And>e. e \<noteq> d \<Longrightarrow> nb_view w' e = nb_view w e"
proof -
  note W = nb_wfD[OF w]
  show ?thesis
  proof (cases "d \<in> set (nb_free w)")
    case True
    then have "nd_buffer w d = None" using free_no_buffer[OF w] by simp
    moreover have "vRsrcFree (Some d) (nw_rsrc w) = None"
      using True rsrc_wfD(2)[OF W(7,5)] w
      by (cases "rs_pool (nw_rsrc w) d") (auto simp: vRsrcFree_def nb_free_used free_marked_def)
    ultimately have "nb_release d w = None"
      by (simp add: nb_release_def vReleaseNetworkBuffer_def Let_def)
    then show ?thesis using that(1) True by simp
  next
    case False
    then have a: "d \<in> set (xActive (pool_at k (nw_rsrc w)))" using d w by (simp add: nb_free_used)
    note o = active_owner[OF W(7,5) a]
    obtain u where u: "vReleaseNetworkBuffer (nd_buffer w d) w = Some (w \<lparr> nw_rsrc := u \<rparr>)" "rsrc_wf u"
      "length (rsrcPools u) = length (rsrcPools (nw_rsrc w))" "pool_at k u = pool_at k (nw_rsrc w)"
      "buf_pool (pool_at j u)"
      "set (xActive (pool_at j u)) = set (xActive (pool_at j (nw_rsrc w))) - set_option (nd_buffer w d)"
      using free_storage[OF w, of d] by metis
    have ku: "k < length (rsrcPools u)" "d \<in> set (xActive (pool_at k u))" using W(5) u(3,4) a by simp_all
    note ou = active_owner[OF u(2) ku]
    obtain v where v: "vRsrcFree (Some d) u = Some v" using free_defined[OF u(2) ou(1)] ou(3) by auto
    define w' where "w' = w \<lparr> nd_buffer := (nd_buffer w)(d := None), nd_length := (nd_length w)(d := 0), nw_rsrc := v,
      xNetworkBufferSemaphore := xNetworkBufferSemaphore w + 1 \<rparr>"
    have rel: "nb_release d w = Some w'"
      using u(1) v by (simp add: nb_release_def w'_def Let_def)
    have len: "length (xActive (pool_at k (nw_rsrc w))) = Suc (length (remove1 d (xActive (pool_at k (nw_rsrc w)))))"
      using a length_pos_if_in_set[OF a] by (simp add: length_remove1)
    have at: "xActive (pool_at k v) = remove1 d (xActive (pool_at k (nw_rsrc w)))"
      "pxFreelist (pool_at k v) = d # pxFreelist (pool_at k (nw_rsrc w))" "pool_at j v = pool_at j u"
      "desc_pool (pool_at k v)"
      using free_at[OF v u(2) ou(1)] u(4) W(4,8) len
      by (auto simp: desc_pool_def)
    have "distinct (xActive (pool_at k (nw_rsrc w)))" using rsrc_wfD(1)[OF W(7,5)] by (auto simp: pool_ok_def)
    then have "nb_owned (xActive (pool_at k v)) (xActive (pool_at j v)) w'"
      using W(11) at u(6) unfolding nb_owned_def w'_def
      by (auto split: if_splits)
    then have wf: "nb_wf k j w'"
      using free_wf[OF v u(2)] W u at by (simp add: nb_wf_def w'_def)
    show ?thesis
      using that(2)[of w'] a rel wf at w
      by (simp add: nb_free_used[OF wf] nb_free_used[OF w]) (simp add: w'_def nb_view_def)
  qed
qed

section \<open>Resizing and initialising\<close>

lemma nb_round_ge: "n \<le> 2 ^ 32 - 4 \<Longrightarrow> n \<le> nb_round n"
proof (cases "n mod 4 = 0")
  case False
  assume n: "n \<le> 2 ^ 32 - 4"
  have "n - n mod 4 + 4 < 2 ^ 32"
    using n False by (cases "n = 2 ^ 32 - 4") simp_all
  then have "(n - n mod 4 + 4) mod 2 ^ 32 = n - n mod 4 + 4" by (rule mod_less)
  moreover have "n mod 4 < 4" "n mod 4 \<le> n" by simp_all
  ultimately show ?thesis unfolding nb_round_def by (simp only: if_True if_False False simp_thms)
qed (simp add: nb_round_def)

lemma nb_round_pos: "0 < n \<Longrightarrow> n \<le> 2 ^ 32 - 4 \<Longrightarrow> 0 < nb_round n"
  using nb_round_ge[of n] by simp

definition resized :: "nat \<Rightarrow> nat \<Rightarrow> u8 list \<Rightarrow> u8 list" where
  "resized m len bs = take (min m len) bs @ replicate (m - min m len) 0"

lemma resize_owned:
  assumes "nb_owned ds bs w" "nd_buffer w d = Some old" "\<And>e. nd_buffer w e \<noteq> Some b"
    and bs': "set bs' = insert b (set bs - {old})"
    and w': "nd_buffer w' = (nd_buffer w)(d \<mapsto> b)" "length (nb_store w' b) = nd_length w' d"
      "\<And>e. e \<noteq> d \<Longrightarrow> nd_length w' e = nd_length w e" "\<And>c. c \<noteq> b \<Longrightarrow> nb_store w' c = nb_store w c"
  shows "nb_owned ds bs' w'"
  unfolding nb_owned_def
proof (intro conjI allI impI ballI)
  note o = assms(1)[unfolded nb_owned_def]
  fix e c assume "nd_buffer w' e = Some c"
  then have c: "e = d \<and> c = b \<or> e \<noteq> d \<and> nd_buffer w e = Some c" using w'(1) by (auto split: if_splits)
  then have "e \<noteq> d \<Longrightarrow> c \<noteq> b \<and> c \<noteq> old" using o assms(2,3) by blast
  with c show "e \<in> set ds" "c \<in> set bs'" "length (nb_store w' c) = nd_length w' e"
    using o assms(2) bs' w'(2-4) by (cases "e = d"; simp)+
  fix e' assume "nd_buffer w' e' = Some c"
  then have "e' = d \<and> c = b \<or> e' \<noteq> d \<and> nd_buffer w e' = Some c" using w'(1) by (auto split: if_splits)
  with c show "e = e'" using o assms(3) by blast
next
  note o = assms(1)[unfolded nb_owned_def]
  fix c assume "c \<in> set bs'"
  then consider "c = b" | "c \<in> set bs" "c \<noteq> old" using bs' by auto
  then show "\<exists>e. nd_buffer w' e = Some c"
  proof cases
    case 2
    then obtain e where e: "nd_buffer w e = Some c" using o by blast
    then have "e \<noteq> d" using 2 assms(2) by auto
    then show ?thesis using e w'(1) by auto
  qed (use w'(1) in auto)
qed

lemma resize_cases:
  assumes w: "nb_wf k j w" and d: "nd_buffer w d = Some old" "n \<le> 2 ^ 32 - 4"
  defines "m \<equiv> nb_round (max n baMINIMAL_BUFFER_SIZE)"
  obtains w' where "pxResizeNetworkBufferWithDescriptorFor True d n w = Some (Some d, w')" "nb_wf k j w'"
    "nb_free w' = nb_free w" "nb_used w' = nb_used w"
    "pucEthernetBuffer (nb_view w' d) = Some (resized m (nd_length w d) (nb_store w old))"
    "nd_length w' d = m" "\<And>e. e \<noteq> d \<Longrightarrow> nb_view w' e = nb_view w e"
proof -
  note W = nb_wfD[OF w]
  have m: "0 < m" unfolding m_def
    by (rule nb_round_pos) (use d(2) in \<open>simp_all add: baMINIMAL_BUFFER_SIZE_def\<close>)
  let ?b = "next_rsrc (nw_rsrc w)"
  obtain u where u: "pxRsrcVarAlloc True j m (nw_rsrc w) = Some (Some ?b, u)"
    "rsrc_wf u" "length (rsrcPools u) = length (rsrcPools (nw_rsrc w))"
    "pool_at k u = pool_at k (nw_rsrc w)" "buf_pool (pool_at j u)"
    "xActive (pool_at j u) = ?b # xActive (pool_at j (nw_rsrc w))"
    using new_buffer[OF w m, of True] by auto
  have o: "old \<in> set (xActive (pool_at j (nw_rsrc w)))" "length (nb_store w old) = nd_length w d"
    using W(11) d(1) by (auto simp: nb_owned_def)
  have b: "?b \<notin> set (xActive (pool_at j (nw_rsrc w)))" "distinct (xActive (pool_at j (nw_rsrc w)))"
    using rsrc_wfD(1)[OF W(7,6)] by (auto simp: pool_ok_def)
  then have ob: "old \<noteq> ?b" "\<And>e. nd_buffer w e \<noteq> Some ?b" using o(1) W(11) by (auto simp: nb_owned_def)
  have ju: "j < length (rsrcPools u)" "old \<in> set (xActive (pool_at j u))" using W(6) u(3,6) o(1) by simp_all
  note ou = active_owner[OF u(2) ju]
  obtain v where v: "vRsrcFree (Some old) u = Some v" using free_defined[OF u(2) ou(1)] ou(3) by auto
  have at: "pool_at k v = pool_at k (nw_rsrc w)" "buf_pool (pool_at j v)"
      "set (xActive (pool_at j v)) = insert ?b (set (xActive (pool_at j (nw_rsrc w))) - {old})"
    using free_at[OF v u(2) ou(1)] u(4,5,6) W(4) ob(1) b by (auto simp: buf_pool_def)
  define w' where "w' = w \<lparr> nw_rsrc := v, nd_length := (nd_length w)(d := m), nd_buffer := (nd_buffer w)(d \<mapsto> ?b),
    nb_store := (nb_store w)(?b := resized m (nd_length w d) (nb_store w old)) \<rparr>"
  have run: "pxResizeNetworkBufferWithDescriptorFor True d n w = Some (Some d, w')"
    using u(1) v d(1) W(2) o(2) ob(1) m
    by (simp add: pxResizeNetworkBufferWithDescriptorFor_def pucGetNetworkBufferFor_def BUFFER_PADDING_def
        vReleaseNetworkBuffer_def m_def[symmetric] Let_def w'_def resized_def)
  have "nb_owned (xActive (pool_at k v)) (xActive (pool_at j v)) w'"
    using resize_owned[OF W(11) d(1) ob(2) at(3), of "w'"] o by (simp add: w'_def at(1) resized_def)
  then have wf: "nb_wf k j w'" using free_wf[OF v u(2)] W u(3) at by (simp add: nb_wf_def w'_def)
  have "nb_view w' e = nb_view w e" if "e \<noteq> d" for e
    using that ob(2)[of e] by (cases "nd_buffer w e") (auto simp: nb_view_def w'_def)
  then show ?thesis
    using that[OF run wf] at w by (simp add: nb_free_used[OF wf] nb_free_used[OF w]) (simp add: w'_def nb_view_def)
qed

lemma initialise_wf:
  assumes i: "xNetworkBuffersInitialise mem 0 (nb_boot \<lparr> nw_rsrc := rs \<rparr>) = Some (ok, w)" and rs: "rsrc_wf rs"
    and p: "xNetworkBufferDescriptorPool w = Some k" "xNetworkBufferPool w = Some j"
  shows "nb_wf k j w" "length (nb_free w) = NUM_NETWORK_BUFFER_DESCRIPTORS" "nb_used w = []"
proof -
  obtain r1 r2 where r: "pxRsrcNewPool mem ''NetBufDesc'' sizeof_NetworkBufferDescriptor_t
        NUM_NETWORK_BUFFER_DESCRIPTORS 0 0 rs = Some (Some k, r1)"
      "pxRsrcNewPool mem ''NetBuf'' 0 0 1 (NUM_NETWORK_BUFFER_DESCRIPTORS + 1) r1 = Some (Some j, r2)"
    and w: "w = nb_boot \<lparr> nw_rsrc := r2, xNetworkBufferDescriptorPool := Some k, xNetworkBufferPool := Some j,
        semInitialized := True, xNetworkBufferSemaphore := NUM_NETWORK_BUFFER_DESCRIPTORS \<rparr>"
    using i p by (auto simp: xNetworkBuffersInitialise_def pxRsrcNewVarPool_def Let_def nb_boot_def split: Option.bind_splits)
  obtain v1 n1 where v1: "k = length (rsrcPools v1)"
      "prviRsrcInitPool mem ''NetBufDesc'' sizeof_NetworkBufferDescriptor_t NUM_NETWORK_BUFFER_DESCRIPTORS 0 0 v1 = Some (n1, r1)"
      "0 < k"
    using new_pool_at[OF r(1)] by metis
  obtain v2 n2 where v2: "j = length (rsrcPools v2)"
      "prviRsrcInitPool mem ''NetBuf'' 0 0 1 (NUM_NETWORK_BUFFER_DESCRIPTORS + 1) v2 = Some (n2, r2)"
      "length (rsrcPools r1) \<le> j" "\<And>i. 0 < i \<Longrightarrow> i < length (rsrcPools r1) \<Longrightarrow> pool_at i v2 = pool_at i r1"
    using new_pool_at[OF r(2)] by metis
  have kr: "k < length (rsrcPools r1)" using init_pool_length[OF v1(2)] v1(1) by simp
  then have ke: "pool_at k r2 = pool_at k r1"
    using init_pool_at(2)[OF v2(2), of k] v2 v1(3) by simp
  have dp: "desc_pool (pool_at k r2)" "length (pxFreelist (pool_at k r2)) = NUM_NETWORK_BUFFER_DESCRIPTORS"
      "xActive (pool_at k r2) = []"
    using init_pool_pool[OF v1(2)] init_pool_at(1)[OF v1(2)] v1(1)
    unfolding ke by (simp_all add: desc_pool_def NUM_NETWORK_BUFFER_DESCRIPTORS_def sizeof_NetworkBufferDescriptor_t_def)
  have bp: "buf_pool (pool_at j r2)" "xActive (pool_at j r2) = []"
    using init_pool_pool[OF v2(2)] init_pool_at(1)[OF v2(2)] v2(1) by (simp_all add: buf_pool_def)
  have wf: "rsrc_wf r2" "j < length (rsrcPools r2)" "k < length (rsrcPools r2)"
    using new_pool_wf[OF r(1) rs] new_pool_wf[OF r(2)] kr by auto
  then show x: "nb_wf k j w"
    using dp bp kr v2(3) by (simp add: nb_wf_def w nb_owned_def nb_boot_def)
  show "length (nb_free w) = NUM_NETWORK_BUFFER_DESCRIPTORS" "nb_used w = []"
    using dp unfolding nb_free_used[OF x] by (simp_all add: w)
qed

section \<open>Histories\<close>

text \<open>The module is initialised once, with memory and a semaphore, and then used.  What is
  released is a descriptor of the pool, what is resized has a buffer.\<close>

inductive nb_reach :: "nb_world \<Rightarrow> bool" where
  boot: "rsrc_reach rs \<Longrightarrow> xNetworkBuffersInitialise mem 0 (nb_boot \<lparr> nw_rsrc := rs \<rparr>) = Some (ok, w) \<Longrightarrow>
    xNetworkBufferDescriptorPool w \<noteq> None \<Longrightarrow> xNetworkBufferPool w \<noteq> None \<Longrightarrow> nb_reach w"
| get: "nb_reach w \<Longrightarrow> pxGetNetworkBufferWithDescriptorFor clk mem n us w = Some (r, w') \<Longrightarrow> nb_reach w'"
| release: "nb_reach w \<Longrightarrow> d \<in> set (nb_free w) \<union> set (nb_used w) \<Longrightarrow> nb_release d w = Some w' \<Longrightarrow> nb_reach w'"
| resize: "nb_reach w \<Longrightarrow> nd_buffer w d \<noteq> None \<Longrightarrow> n \<le> 2 ^ 32 - 4 \<Longrightarrow>
    pxResizeNetworkBufferWithDescriptorFor True d n w = Some (r, w') \<Longrightarrow> nb_reach w'"

lemma nb_taken_view:
  assumes "nb_wf k j w" "nb_free w = d # rest" "e \<in> set (nb_used w)"
  shows "nb_view (nb_taken k d rest w) e = nb_view w e"
  using assms free_no_buffer[OF assms(1), of d] by (auto simp: nb_view_def nb_taken_def)

lemma get_cases:
  assumes "nb_wf k j w"
  obtains "pxGetNetworkBufferWithDescriptorFor clk mem n us w = None" "\<And>t. clk = Some t \<Longrightarrow> \<not> ts_ok t"
  | "pxGetNetworkBufferWithDescriptorFor clk mem n us w = Some (None, w)" "\<And>t. clk = Some t \<Longrightarrow> nb_free w = []"
  | d rest where "nb_free w = d # rest" "pxGetNetworkBufferWithDescriptorFor clk mem n us w
        = nb_attach mem n (w \<lparr> xNetworkBufferSemaphore := xNetworkBufferSemaphore w - 1 \<rparr>)"
proof -
  note g = pxGetNetworkBufferWithDescriptorFor_def
  have si: "semInitialized w" "xNetworkBufferSemaphore w = length (nb_free w)"
    using nb_wfD[OF assms] assms by (simp_all add: nb_free_used)
  consider "us > 0" "rstime_waitusec clk us = None" | "us > 0" "rstime_waitusec clk us = Some None"
    | "\<not> (us > 0 \<and> rstime_waitusec clk us = None)" "\<not> (us > 0 \<and> rstime_waitusec clk us = Some None)"
    by argo
  then show ?thesis
  proof cases
    case 1
    then have "clk = None" by (auto simp: rstime_waitusec_def rstime_waitnsec_def Let_def split: option.splits)
    then show ?thesis using that(2) 1 si by (simp add: g)
  next
    case 2
    then have "\<not> ts_ok t" if "clk = Some t" for t using wait_ok[of t "ucast (us * 1000)"] 2 that by (auto simp: rstime_waitusec_def)
    then show ?thesis using that(1) 2 si by (simp add: g)
  next
    case 3
    then show ?thesis using that(2,3) si by (cases "nb_free w") (simp_all only: g if_True if_False simp_thms list.size, simp_all)
  qed
qed

lemma get_refines:
  assumes w: "nb_wf k j w" and t: "ts_ok t"
  shows "map_option (\<lambda>(r, w'). (map_option (nb_view w') r, nb_free w'))
      (pxGetNetworkBufferWithDescriptorFor (Some t) mem n us w)
    = pxGetNetworkBufferWithDescriptor (\<lambda>m. mem \<and> 0 < m) n (nb_free w)"
proof (rule get_cases[OF w, of "Some t" mem n us])
  fix d rest
  assume f: "nb_free w = d # rest" and e: "pxGetNetworkBufferWithDescriptorFor (Some t) mem n us w
    = nb_attach mem n (w \<lparr> xNetworkBufferSemaphore := xNetworkBufferSemaphore w - 1 \<rparr>)"
  have tv: "nb_view (nb_taken k d rest w) d = \<lparr> nb_id = d, pucEthernetBuffer = None, pucRinaBuffer = None,
      pucDataBuffer = None, xRinaDataLength = 0, xDataLength = 0 \<rparr>"
    by (simp add: nb_view_def nb_taken_def)
  show ?thesis unfolding e
    by (rule nb_attach_cases[OF w f, of n mem])
      (use f tv nb_taken_wf[OF w f] in \<open>auto simp: pxGetNetworkBufferWithDescriptor_def Let_def\<close>)
qed (use t in \<open>auto simp: pxGetNetworkBufferWithDescriptor_def\<close>)

lemma get_wf:
  assumes w: "nb_wf k j w" and g: "pxGetNetworkBufferWithDescriptorFor clk mem n us w = Some (r, w')"
  shows "nb_wf k j w'" "e \<in> set (nb_used w) \<Longrightarrow> nb_view w' e = nb_view w e"
    "nb_used w' = (case r of None \<Rightarrow> [] | Some d \<Rightarrow> [d]) @ nb_used w"
proof -
  have "nb_wf k j w' \<and> (\<forall>e\<in>set (nb_used w). nb_view w' e = nb_view w e)
      \<and> nb_used w' = (case r of None \<Rightarrow> [] | Some d \<Rightarrow> [d]) @ nb_used w"
  proof (rule get_cases[OF w, of clk mem n us])
    fix d rest
    assume f: "nb_free w = d # rest" and e: "pxGetNetworkBufferWithDescriptorFor clk mem n us w
      = nb_attach mem n (w \<lparr> xNetworkBufferSemaphore := xNetworkBufferSemaphore w - 1 \<rparr>)"
    show ?thesis
      by (rule nb_attach_cases[OF w f, of n mem])
        (use g e nb_taken_wf[OF w f] nb_taken_view[OF w f] in auto)
  qed (use w g in auto)
  then show "nb_wf k j w'" "e \<in> set (nb_used w) \<Longrightarrow> nb_view w' e = nb_view w e"
    "nb_used w' = (case r of None \<Rightarrow> [] | Some d \<Rightarrow> [d]) @ nb_used w" by blast+
qed

lemma nb_reach_wf: "nb_reach w \<Longrightarrow> \<exists>k j. nb_wf k j w"
proof (induction rule: nb_reach.induct)
  case (boot rs mem ok w)
  then show ?case using initialise_wf(1)[OF boot(2) reach_wf[OF boot(1)]] by blast
next
  case (get w clk mem n us r w')
  then show ?case using get_wf(1) by blast
next
  case (release w d w')
  then show ?case using release_cases[of _ _ w d] by (metis option.inject option.distinct(1))
next
  case (resize w d n r w')
  then obtain k j old where "nb_wf k j w" "nd_buffer w d = Some old" by auto
  then show ?case using resize_cases[of k j w d old n] resize(3,4) by (metis option.inject prod.inject)
qed

definition ex_buffers :: nb_world where
  "ex_buffers = snd (the (xNetworkBuffersInitialise True 0 nb_boot))"

lemma ex_buffers_facts:
  "nb_reach ex_buffers" "length (nb_free ex_buffers) = NUM_NETWORK_BUFFER_DESCRIPTORS" "nb_used ex_buffers = []"
proof -
  have h: "pools_head rsrc_boot" by (simp add: pools_head_def rsrc_boot_def)
  obtain k r1 where r1: "pxRsrcNewPool True ''NetBufDesc'' sizeof_NetworkBufferDescriptor_t
      NUM_NETWORK_BUFFER_DESCRIPTORS 0 0 rsrc_boot = Some (Some k, r1)" "pools_head r1"
    by (rule new_pool_runs[OF h, of NUM_NETWORK_BUFFER_DESCRIPTORS 0 0 sizeof_NetworkBufferDescriptor_t "''NetBufDesc''"])
      (auto simp: NUM_NETWORK_BUFFER_DESCRIPTORS_def sizeof_NetworkBufferDescriptor_t_def)
  obtain j r2 where r2: "pxRsrcNewPool True ''NetBuf'' 0 0 1 (NUM_NETWORK_BUFFER_DESCRIPTORS + 1) r1 = Some (Some j, r2)"
    by (rule new_pool_runs[OF r1(2), of 0 1 "NUM_NETWORK_BUFFER_DESCRIPTORS + 1" 0 "''NetBuf''"])
      (auto simp: NUM_NETWORK_BUFFER_DESCRIPTORS_def)
  have i: "xNetworkBuffersInitialise True 0 (nb_boot \<lparr> nw_rsrc := rsrc_boot \<rparr>) = Some (True, ex_buffers)"
      "xNetworkBufferDescriptorPool ex_buffers = Some k" "xNetworkBufferPool ex_buffers = Some j"
    using r1 r2 by (simp_all add: ex_buffers_def xNetworkBuffersInitialise_def pxRsrcNewVarPool_def nb_boot_def)
  show "nb_reach ex_buffers" by (rule nb_reach.boot[OF rsrc_reach.boot i(1)]) (simp_all add: i)
  show "length (nb_free ex_buffers) = NUM_NETWORK_BUFFER_DESCRIPTORS" "nb_used ex_buffers = []"
    using initialise_wf[OF i(1) rsrc_wf_boot i(2,3)] by blast+
qed

section \<open>Properties\<close>

text \<open>C24: The list of free descriptors abstracts the pools: getting a buffer and releasing one
  are the operations of the list, failing and aborting in the same cases, and neither
  touches the other descriptors in use.\<close>

theorem buffers_refine:
  assumes "nb_reach w" "ts_ok t"
  shows "map_option (\<lambda>(r, w'). (map_option (nb_view w') r, nb_free w'))
        (pxGetNetworkBufferWithDescriptorFor (Some t) mem n us w)
      = pxGetNetworkBufferWithDescriptor (\<lambda>m. mem \<and> 0 < m) n (nb_free w)
    \<and> (d \<in> set (nb_free w) \<union> set (nb_used w) \<longrightarrow>
        map_option nb_free (nb_release d w) = vReleaseNetworkBufferAndDescriptor (nb_view w d) (nb_free w))
    \<and> (\<forall>r w' e. pxGetNetworkBufferWithDescriptorFor clk mem n us w = Some (r, w') \<longrightarrow> e \<in> set (nb_used w)
        \<longrightarrow> nb_view w' e = nb_view w e)
    \<and> (\<forall>w' e. d \<in> set (nb_free w) \<union> set (nb_used w) \<longrightarrow> nb_release d w = Some w' \<longrightarrow> e \<noteq> d
        \<longrightarrow> nb_view w' e = nb_view w e)"
proof -
  obtain k j where w: "nb_wf k j w" using nb_reach_wf[OF assms(1)] by blast
  have "map_option nb_free (nb_release d w) = vReleaseNetworkBufferAndDescriptor (nb_view w d) (nb_free w)
      \<and> (\<forall>w' e. nb_release d w = Some w' \<longrightarrow> e \<noteq> d \<longrightarrow> nb_view w' e = nb_view w e)"
    if d: "d \<in> set (nb_free w) \<union> set (nb_used w)"
    using release_cases[OF w d] free_no_buffer(2)[OF w, of d]
    by (cases rule: release_cases[OF w d])
      (auto simp: vReleaseNetworkBufferAndDescriptor_def nb_view_def)
  then show ?thesis using get_refines[OF w assms(2)] get_wf(2)[OF w] by blast
qed

theorem buffers_refine_witness:
  "\<exists>i. nb_free ex_buffers \<noteq> [] \<and> map_option (\<lambda>(r, w'). (map_option (nb_view w') r, nb_free w'))
      (pxGetNetworkBufferWithDescriptorFor (Some \<lparr> tv_sec = 1, tv_nsec = 0 \<rparr>) True 0 5 ex_buffers)
    = Some (Some (ex_nb i None None 0 0), tl (nb_free ex_buffers))"
proof -
  obtain i rest where f: "nb_free ex_buffers = i # rest"
    using ex_buffers_facts(2) by (cases "nb_free ex_buffers") (simp_all add: NUM_NETWORK_BUFFER_DESCRIPTORS_def)
  show ?thesis
    using conjunct1[OF buffers_refine[OF ex_buffers_facts(1), of "\<lparr> tv_sec = 1, tv_nsec = 0 \<rparr>" True 0 5]] f
    by (intro exI[of _ i]) (simp only: ts_ok_def pxGetNetworkBufferWithDescriptor_def ex_nb_def, simp)
qed

text \<open>C25: Over any history of the network buffers there are 20 descriptors, each free or in
  use; the semaphore and the count answered are the number of the free ones; the
  buffers of different descriptors are different and as long as said.  With memory a
  request of at most \<open>2 ^ 32 - 8\<close> bytes succeeds whenever a descriptor is free: the
  limit of the pool of buffers is never met.\<close>

theorem buffers_invariant:
  assumes "nb_reach w"
  shows "distinct (nb_free w @ nb_used w) \<and> length (nb_free w @ nb_used w) = 20
    \<and> uxGetNumberOfFreeNetworkBuffers w = Some (length (nb_free w)) \<and> xNetworkBufferSemaphore w = length (nb_free w)
    \<and> (\<forall>d b. nd_buffer w d = Some b \<longrightarrow> d \<in> set (nb_used w) \<and> length (nb_store w b) = nd_length w d)
    \<and> (\<forall>d d' b. nd_buffer w d = Some b \<longrightarrow> nd_buffer w d' = Some b \<longrightarrow> d = d')
    \<and> (\<forall>t n us. ts_ok t \<longrightarrow> n \<le> 2 ^ 32 - 8 \<longrightarrow> nb_free w \<noteq> []
        \<longrightarrow> (\<exists>d w'. pxGetNetworkBufferWithDescriptorFor (Some t) True n us w = Some (Some d, w')))"
proof -
  obtain k j where w: "nb_wf k j w" using nb_reach_wf[OF assms] by blast
  note W = nb_wfD[OF w]
  have l: "length (nb_free w) + length (nb_used w) = 20"
    using W(8) w by (simp add: desc_pool_def nb_free_used NUM_NETWORK_BUFFER_DESCRIPTORS_def)
  have "\<exists>d w'. pxGetNetworkBufferWithDescriptorFor (Some t) True n us w = Some (Some d, w')"
    if t: "ts_ok t" "n \<le> 2 ^ 32 - 8" "nb_free w \<noteq> []" for t n us
  proof (rule get_cases[OF w, of "Some t" True n us])
    fix d rest
    assume f: "nb_free w = d # rest" and e: "pxGetNetworkBufferWithDescriptorFor (Some t) True n us w
      = nb_attach True n (w \<lparr> xNetworkBufferSemaphore := xNetworkBufferSemaphore w - 1 \<rparr>)"
    show ?thesis unfolding e
      by (rule nb_attach_cases[OF w f, of n True]) (use buffer_size_ge[OF t(2)] in auto)
  qed (use t in auto)
  moreover have "uiNumFree (pool_at k (nw_rsrc w)) = word_of_nat (length (nb_free w))"
    using rsrc_wfD(1)[OF W(7,5)] w by (simp add: pool_ok_def nb_free_used)
  then have "uxGetNumberOfFreeNetworkBuffers w = Some (length (nb_free w))"
    using W(1) l by (simp add: uxGetNumberOfFreeNetworkBuffers_def unat_of_nat)
  ultimately show ?thesis
    using W(10,11) l rsrc_wfD(1)[OF W(7,5)] w
    unfolding nb_owned_def by (simp add: nb_free_used pool_ok_def)
qed

theorem buffers_invariant_witness:
  "length (nb_free ex_buffers @ nb_used ex_buffers) = 20"
  using buffers_invariant[OF ex_buffers_facts(1)] by blast

text \<open>Resizing the buffer of a descriptor gives it new storage of at least the size
  asked for that starts with the old bytes, as many as fit, and is cleared after them;
  no other descriptor changes and no buffer is lost.\<close>

theorem buffer_resize:
  assumes "nb_reach w" "nd_buffer w d = Some b" "n \<le> 2 ^ 32 - 4"
  shows "\<exists>w' m. pxResizeNetworkBufferWithDescriptorFor True d n w = Some (Some d, w') \<and> n \<le> m
    \<and> pucEthernetBuffer (nb_view w' d) = Some (resized m (nd_length w d) (nb_store w b)) \<and> nd_length w' d = m
    \<and> nb_free w' = nb_free w \<and> nb_used w' = nb_used w \<and> (\<forall>e. e \<noteq> d \<longrightarrow> nb_view w' e = nb_view w e)"
proof -
  obtain k j where w: "nb_wf k j w" using nb_reach_wf[OF assms(1)] by blast
  have "n \<le> nb_round (max n baMINIMAL_BUFFER_SIZE)"
    by (rule order_trans[OF _ nb_round_ge]) (use assms(3) in \<open>simp_all add: baMINIMAL_BUFFER_SIZE_def\<close>)
  then show ?thesis using resize_cases[OF w assms(2,3)] by metis
qed

definition ex_held :: nb_world where
  "ex_held = snd (the (pxGetNetworkBufferWithDescriptorFor (Some \<lparr> tv_sec = 1, tv_nsec = 0 \<rparr>) True 30 0 ex_buffers))"

theorem buffer_resize_witness:
  "\<exists>w' d. pxResizeNetworkBufferWithDescriptorFor True d 100 ex_held = Some (Some d, w')"
proof -
  obtain k j where w: "nb_wf k j ex_buffers" using nb_reach_wf[OF ex_buffers_facts(1)] by blast
  obtain i rest where f: "nb_free ex_buffers = i # rest"
    using ex_buffers_facts(2) by (cases "nb_free ex_buffers") (simp_all add: NUM_NETWORK_BUFFER_DESCRIPTORS_def)
  obtain r w' where g: "pxGetNetworkBufferWithDescriptorFor (Some \<lparr> tv_sec = 1, tv_nsec = 0 \<rparr>) True 30 0 ex_buffers = Some (r, w')"
      "map_option (nb_view w') r = Some (ex_nb i (Some (fresh_buffer i 32)) None 0 32)"
    using get_refines[OF w, of "\<lparr> tv_sec = 1, tv_nsec = 0 \<rparr>" True 30 0] f
    by (auto simp: ts_ok_def pxGetNetworkBufferWithDescriptor_def ex_nb_def buffer_size_def baMINIMAL_BUFFER_SIZE_def)
  have h: "nb_reach ex_held" "ex_held = w'" using nb_reach.get[OF ex_buffers_facts(1) g(1)] g(1) by (simp_all add: ex_held_def)
  moreover obtain b where "nd_buffer w' i = Some b" using g(2) by (auto simp: nb_view_def ex_nb_def)
  ultimately show ?thesis using buffer_resize[of ex_held i b 100] by auto
qed
end
