(* ===== verification/Ipcp_Manager.thy ===== *)
theory Ipcp_Manager
  imports Num_Manager Net_Buffers
begin

text \<open>
  The IPC manager: \<open>Rina-manager/IPCP_manager.c\<close>.  It numbers ports and IPC processes
  and keeps the table of the instances, of which only the number and the type matter
  here.  The shim is the one of IEEE 802.15.4, as in the configuration of the repository;
  starting the stack task and the shim's enrollment are arguments.
\<close>

datatype ipcpInstanceType_t = eShimWiFi | eNormal | eShim802154

record ipcpInstance_t =
  ii_xId :: u16
  ii_xType :: ipcpInstanceType_t

record InstanceTableRow_t =
  pxIpcpInstance :: "ipcpInstance_t option"
  pxIpcpType :: ipcpInstanceType_t
  xIpcpId :: u16
  ir_xActive :: bool

definition INSTANCES_IPCP_ENTRIES :: nat where "INSTANCES_IPCP_ENTRIES = 5"

text \<open>\<open>(2 << 8) * sizeof(portId_t) - 1\<close> and the same for IPC processes.\<close>

definition MAX_PORT_ID :: u32 where "MAX_PORT_ID = 2047"
definition MAX_IPCP_ID :: u32 where "MAX_IPCP_ID = 1023"

record ipcManager =
  pxPidm :: NumMgr_t
  pxIpcpIdm :: NumMgr_t
  xInstanceTable :: "InstanceTableRow_t list"
  im_buffers :: nb_world

section \<open>The table of instances\<close>

definition inst_row :: "ipcpInstance_t \<Rightarrow> InstanceTableRow_t" where
  "inst_row i = \<lparr> pxIpcpInstance = Some i, pxIpcpType = ii_xType i, xIpcpId = ii_xId i, ir_xActive = True \<rparr>"

definition prvIpcpMngrAddInstanceEntry :: "ipcpInstance_t \<Rightarrow> InstanceTableRow_t list \<Rightarrow> InstanceTableRow_t list" where
  "prvIpcpMngrAddInstanceEntry i tbl =
     (case first_ix (\<lambda>r. \<not> ir_xActive r) tbl of None \<Rightarrow> tbl | Some x \<Rightarrow> tbl[x := inst_row i])"

definition pxIpcManagerFindInstanceById :: "u16 \<Rightarrow> InstanceTableRow_t list \<Rightarrow> ipcpInstance_t option" where
  "pxIpcManagerFindInstanceById n tbl =
     (case first_ix (\<lambda>r. ir_xActive r \<and> xIpcpId r = n) tbl of
        None \<Rightarrow> None | Some x \<Rightarrow> pxIpcpInstance (tbl ! x))"

definition pxIpcManagerFindInstanceByType ::
  "ipcpInstanceType_t \<Rightarrow> InstanceTableRow_t list \<Rightarrow> ipcpInstance_t option" where
  "pxIpcManagerFindInstanceByType ty tbl =
     (case first_ix (\<lambda>r. ir_xActive r \<and> pxIpcpType r = ty) tbl of
        None \<Rightarrow> None | Some x \<Rightarrow> pxIpcpInstance (tbl ! x))"

definition pxIpcManagerActiveNormalInstance :: "InstanceTableRow_t list \<Rightarrow> ipcpInstance_t option" where
  "pxIpcManagerActiveNormalInstance tbl = pxIpcManagerFindInstanceByType eNormal tbl"

definition pxIpcManagerActiveShimInstance :: "InstanceTableRow_t list \<Rightarrow> ipcpInstance_t option" where
  "pxIpcManagerActiveShimInstance tbl = pxIpcManagerFindInstanceByType eShim802154 tbl"

section \<open>Initialising\<close>

definition instance_table_boot :: "InstanceTableRow_t list" where
  "instance_table_boot = replicate INSTANCES_IPCP_ENTRIES
     \<lparr> pxIpcpInstance = None, pxIpcpType = eShimWiFi, xIpcpId = 0, ir_xActive = False \<rparr>"

text \<open>\<open>mem k\<close> says whether the \<open>k\<close>th allocation succeeds; the manager's own is not
  tested.\<close>

definition xIpcMngrInit ::
  "(nat \<Rightarrow> bool) \<Rightarrow> int \<Rightarrow> InstanceTableRow_t list \<Rightarrow> nb_world \<Rightarrow> (bool \<times> ipcManager option) option" where
  "xIpcMngrInit mem sem_ret tbl bufs =
     (if \<not> mem 0 then None
      else case pxNumMgrCreate (mem 1) (mem 2) MAX_PORT_ID of
        None \<Rightarrow> Some (False, None)
      | Some pidm \<Rightarrow> (case pxNumMgrCreate (mem 3) (mem 4) MAX_IPCP_ID of
          None \<Rightarrow> Some (False, None)
        | Some idm \<Rightarrow> do {
            (ok, bufs) \<leftarrow> xNetworkBuffersInitialise (mem 5) sem_ret bufs;
            let im = \<lparr> pxPidm = pidm, pxIpcpIdm = idm, xInstanceTable = tbl, im_buffers = bufs \<rparr>;
            Some (ok, Some im) }))"

definition xIpcMngrAllocatePortId :: "ipcManager \<Rightarrow> (u32 \<times> ipcManager) option" where
  "xIpcMngrAllocatePortId im = do {
     (n, nm) \<leftarrow> ulNumMgrAllocate (pxPidm im);
     Some (n, im \<lparr> pxPidm := nm \<rparr>) }"

text \<open>\<open>ok\<close> says whether the module that creates the instance succeeds.\<close>

definition pxIpcMngrCreateNormal :: "bool \<Rightarrow> ipcManager \<Rightarrow> (ipcpInstance_t option \<times> ipcManager) option" where
  "pxIpcMngrCreateNormal ok im = do {
     (n, nm) \<leftarrow> ulNumMgrAllocate (pxIpcpIdm im);
     Some (if ok then Some \<lparr> ii_xId = ucast n, ii_xType = eNormal \<rparr> else None, im \<lparr> pxIpcpIdm := nm \<rparr>) }"

definition pxIpcMngrCreateShim :: "bool \<Rightarrow> ipcManager \<Rightarrow> (ipcpInstance_t option \<times> ipcManager) option" where
  "pxIpcMngrCreateShim ok im = do {
     (n, nm) \<leftarrow> ulNumMgrAllocate (pxIpcpIdm im);
     Some (if ok then Some \<lparr> ii_xId = ucast n, ii_xType = eShim802154 \<rparr> else None, im \<lparr> pxIpcpIdm := nm \<rparr>) }"

text \<open>An instance that was not created is a NULL pointer that the table follows.  The event
  that the shim has enrolled is sent last, on the state \<open>q\<close> of the task's queue, and the answer of
  \<open>xSendEventStructToIPCPTask\<close> is not looked at.\<close>

definition xIpcMngrInitRinaStack ::
  "bool \<Rightarrow> bool \<Rightarrow> bool \<Rightarrow> bool \<Rightarrow> (ipcpInstance_t \<Rightarrow> 'q \<Rightarrow> (bool \<times> 'q) option) \<Rightarrow> ipcManager \<Rightarrow> 'q
   \<Rightarrow> (bool \<times> ipcManager \<times> 'q) option" where
  "xIpcMngrInitRinaStack normal_ok task_ok shim_ok enrolled send im q = do {
     (n, im) \<leftarrow> pxIpcMngrCreateNormal normal_ok im;
     n \<leftarrow> n;
     let im = im \<lparr> xInstanceTable := prvIpcpMngrAddInstanceEntry n (xInstanceTable im) \<rparr>;
     if \<not> task_ok then Some (False, im, q)
     else do {
       (s, im) \<leftarrow> pxIpcMngrCreateShim shim_ok im;
       s \<leftarrow> s;
       let im = im \<lparr> xInstanceTable := prvIpcpMngrAddInstanceEntry s (xInstanceTable im) \<rparr>;
       if \<not> enrolled then Some (False, im, q)
       else do {
         (_, q) \<leftarrow> send s q;
         Some (True, im, q) } } }"

section \<open>Properties\<close>

definition empty_row :: InstanceTableRow_t where
  "empty_row = \<lparr> pxIpcpInstance = None, pxIpcpType = eShimWiFi, xIpcpId = 0, ir_xActive = False \<rparr>"

lemma table_boot_rows: "instance_table_boot = map inst_row [] @ replicate INSTANCES_IPCP_ENTRIES empty_row"
  by (simp add: instance_table_boot_def empty_row_def)

lemma row_active [simp]: "\<not> ir_xActive empty_row" "ir_xActive (inst_row i)" "pxIpcpInstance (inst_row i) = Some i"
  "xIpcpId (inst_row i) = ii_xId i" "pxIpcpType (inst_row i) = ii_xType i"
  by (simp_all add: empty_row_def inst_row_def)

lemma add_instance: "prvIpcpMngrAddInstanceEntry i (map inst_row xs @ replicate k empty_row)
  = (if k = 0 then map inst_row xs else map inst_row (xs @ [i]) @ replicate (k - 1) empty_row)"
proof -
  have f: "first_ix (\<lambda>r. \<not> ir_xActive r) (map inst_row xs @ ys)
      = map_option ((+) (length xs)) (first_ix (\<lambda>r. \<not> ir_xActive r) ys)" for ys
    by (induction xs) (auto simp: option.map_comp comp_def option.map_ident)
  show ?thesis
    by (cases k) (use f[of "[]"] in \<open>simp_all add: prvIpcpMngrAddInstanceEntry_def f list_update_append\<close>)
qed

lemma alloc_next:
  assumes "\<not> xNumMgrIsAllocated nm (lastAllocated nm + 1)" "lastAllocated nm + 1 \<noteq> numCnt nm"
  shows "ulNumMgrAllocate nm = Some (lastAllocated nm + 1,
    nm \<lparr> ba := vBitArraySetBit (ba nm) (lastAllocated nm + 1), lastAllocated := lastAllocated nm + 1 \<rparr>)"
  using assms by (simp add: ulNumMgrAllocate_def num_alloc_loop.simps xNumMgrIsAllocated_def Let_def)

text \<open>Looking an instance up by its number or by its type answers the first one added
  that matches; from the sixth one on instances are dropped without notice.\<close>

theorem manager_lookup:
  "let tbl = fold prvIpcpMngrAddInstanceEntry insts instance_table_boot in
    pxIpcManagerFindInstanceById n tbl = List.find (\<lambda>i. ii_xId i = n) (take INSTANCES_IPCP_ENTRIES insts)
    \<and> pxIpcManagerFindInstanceByType ty tbl = List.find (\<lambda>i. ii_xType i = ty) (take INSTANCES_IPCP_ENTRIES insts)"
proof -
  let ?e = "empty_row"
  have t: "fold prvIpcpMngrAddInstanceEntry insts (map inst_row xs @ replicate k ?e)
      = map inst_row (xs @ take k insts) @ replicate (k - length insts) ?e" for xs k
  proof (induction insts arbitrary: xs k)
    case (Cons i insts)
    then show ?case
      using Cons.IH[of xs 0] Cons.IH[of "xs @ [i]" "k - 1"] add_instance[of i xs k]
      by (cases k) simp_all
  qed simp
  have a: "(case first_ix (\<lambda>r. ir_xActive r \<and> P r) (map inst_row xs @ replicate k ?e) of
        None \<Rightarrow> None | Some x \<Rightarrow> pxIpcpInstance ((map inst_row xs @ replicate k ?e) ! x))
      = List.find (\<lambda>i. P (inst_row i)) xs" for P xs k
  proof (induction xs)
    case Nil
    have "first_ix (\<lambda>r. ir_xActive r \<and> P r) (replicate k empty_row) = None" by (simp add: first_ix_None)
    then show ?case by simp
  next
    case (Cons x xs)
    then show ?case
      by (cases "first_ix (\<lambda>r. ir_xActive r \<and> P r) (map inst_row xs @ replicate k empty_row)") simp_all
  qed
  show ?thesis
    unfolding Let_def table_boot_rows t pxIpcManagerFindInstanceById_def pxIpcManagerFindInstanceByType_def
    by (simp only: a append_Nil row_active simp_thms)
qed

lemma init_stack_ok:
  assumes "xIpcMngrInit mem sem_ret instance_table_boot bufs = Some (ok, Some im)"
    and "send \<lparr> ii_xId = 2, ii_xType = eShim802154 \<rparr> q = Some (r, q')"
  obtains im' nm where
    "xIpcMngrInitRinaStack True True True True send im q = Some (True, im', q')"
    "pxIpcManagerActiveNormalInstance (xInstanceTable im') = Some \<lparr> ii_xId = 1, ii_xType = eNormal \<rparr>"
    "pxIpcManagerActiveShimInstance (xInstanceTable im') = Some \<lparr> ii_xId = 2, ii_xType = eShim802154 \<rparr>"
    "xIpcMngrAllocatePortId im' = Some (1, im' \<lparr> pxPidm := nm \<rparr>)"
proof -
  obtain m1 m2 m3 m4 where c: "pxNumMgrCreate m1 m2 MAX_PORT_ID = Some (pxPidm im)"
      "pxNumMgrCreate m3 m4 MAX_IPCP_ID = Some (pxIpcpIdm im)" "xInstanceTable im = instance_table_boot"
    using assms(1) by (auto simp: xIpcMngrInit_def Let_def split: if_splits option.splits Option.bind_splits)
  have pw: "nm_wf (pxPidm im)" "numCnt (pxPidm im) = 2048" "lastAllocated (pxPidm im) = 0"
      "\<not> xNumMgrIsAllocated (pxPidm im) k" for k
    using nm_wf_create(1-3)[OF c(1)] nm_wf_create(4)[OF c(1), of k] by (simp_all add: MAX_PORT_ID_def)
  have iw: "nm_wf (pxIpcpIdm im)" "numCnt (pxIpcpIdm im) = 1024" "lastAllocated (pxIpcpIdm im) = 0"
      "\<not> xNumMgrIsAllocated (pxIpcpIdm im) k" for k
    using nm_wf_create(1-3)[OF c(2)] nm_wf_create(4)[OF c(2), of k] by (simp_all add: MAX_IPCP_ID_def)
  define nm where "nm = pxIpcpIdm im \<lparr> ba := vBitArraySetBit (ba (pxIpcpIdm im)) 1, lastAllocated := 1 \<rparr>"
  have a1: "ulNumMgrAllocate (pxIpcpIdm im) = Some (1, nm)"
    using alloc_next[of "pxIpcpIdm im"] iw by (simp add: nm_def)
  have "\<not> xNumMgrIsAllocated nm 2"
    using iw(1,4) by (simp add: nm_def xNumMgrIsAllocated_def get_set_bit nm_wf_def)
  then obtain nm2 where a2: "ulNumMgrAllocate nm = Some (2, nm2)"
    using alloc_next[of nm] iw(2) by (simp add: nm_def)
  obtain nmp where p1: "ulNumMgrAllocate (pxPidm im) = Some (1, nmp)"
    using alloc_next[of "pxPidm im"] pw by simp
  let ?n = "\<lparr> ii_xId = 1, ii_xType = eNormal \<rparr>" and ?s = "\<lparr> ii_xId = 2, ii_xType = eShim802154 \<rparr>"
  have t: "prvIpcpMngrAddInstanceEntry ?s (prvIpcpMngrAddInstanceEntry ?n instance_table_boot)
      = map inst_row [?n, ?s] @ replicate (INSTANCES_IPCP_ENTRIES - 2) empty_row"
    unfolding table_boot_rows add_instance by (simp add: INSTANCES_IPCP_ENTRIES_def add_instance del: list.map)
  have "\<exists>im'. xIpcMngrInitRinaStack True True True True send im q = Some (True, im', q')
    \<and> pxIpcManagerActiveNormalInstance (xInstanceTable im') = Some ?n
    \<and> pxIpcManagerActiveShimInstance (xInstanceTable im') = Some ?s
    \<and> xIpcMngrAllocatePortId im' = Some (1, im' \<lparr> pxPidm := nmp \<rparr>)"
    unfolding xIpcMngrInitRinaStack_def pxIpcMngrCreateNormal_def pxIpcMngrCreateShim_def a1 bind.bind_lunit
      case_prod_conv if_True Let_def
    using a2 p1 assms(2)
    by (simp add: c(3) t xIpcMngrAllocatePortId_def pxIpcManagerActiveNormalInstance_def
        pxIpcManagerActiveShimInstance_def pxIpcManagerFindInstanceByType_def map_option_case)
  then show ?thesis using that by blast
qed

text \<open>C31: When all goes well the manager creates the normal IPC process as number 1 and the
  shim as number 2, finds each by its type, sends the event that the shim has enrolled, whatever the answer, and
  the first port it hands out is 1.\<close>

theorem stack_starts:
  assumes "xIpcMngrInit mem sem_ret instance_table_boot bufs = Some (True, Some im)"
    and "send \<lparr> ii_xId = 2, ii_xType = eShim802154 \<rparr> q = Some (r, q')"
  shows "\<exists>im'. xIpcMngrInitRinaStack True True True True send im q = Some (True, im', q')
    \<and> pxIpcManagerActiveNormalInstance (xInstanceTable im') = Some \<lparr> ii_xId = 1, ii_xType = eNormal \<rparr>
    \<and> pxIpcManagerActiveShimInstance (xInstanceTable im') = Some \<lparr> ii_xId = 2, ii_xType = eShim802154 \<rparr>
    \<and> map_option fst (xIpcMngrAllocatePortId im') = Some 1"
proof -
  obtain im' nm where "xIpcMngrInitRinaStack True True True True send im q = Some (True, im', q')"
    "pxIpcManagerActiveNormalInstance (xInstanceTable im') = Some \<lparr> ii_xId = 1, ii_xType = eNormal \<rparr>"
    "pxIpcManagerActiveShimInstance (xInstanceTable im') = Some \<lparr> ii_xId = 2, ii_xType = eShim802154 \<rparr>"
    "xIpcMngrAllocatePortId im' = Some (1, im' \<lparr> pxPidm := nm \<rparr>)"
    by (rule init_stack_ok[where send = send and q = q, OF assms])
  then show ?thesis by simp
qed

theorem stack_starts_witness:
  "\<exists>im im'. xIpcMngrInit (\<lambda>_. True) (- 1) instance_table_boot nb_boot = Some (True, Some im)
    \<and> xIpcMngrInitRinaStack True True True True (\<lambda>i q. Some (True, q @ [i])) im []
        = Some (True, im', [\<lparr> ii_xId = 2, ii_xType = eShim802154 \<rparr>])"
proof -
  obtain im where "xIpcMngrInit (\<lambda>_. True) (- 1) instance_table_boot nb_boot = Some (True, Some im)"
    by (simp add: xIpcMngrInit_def pxNumMgrCreate_def xNumMgrInit_def pxBitArrayAlloc_def MAX_PORT_ID_def
        MAX_IPCP_ID_def xNetworkBuffersInitialise_def nb_boot_def Let_def)
  with stack_starts[OF this, of "\<lambda>i q. Some (True, q @ [i])" "[]"] show ?thesis by auto
qed

end
