(* ===== verification/Rina_Api.thy ===== *)
theory Rina_Api
  imports Rina_Node Ipcp_Manager
begin

text \<open>
  The interface of applications (\<open>Rina-api/rina_api.c\<close>) and the queue by which it
  reaches the stack task (\<open>posix_rsqueue.c\<close>, \<open>xSendEventStructToIPCPTask\<close> in
  \<open>IPCP_task.c\<close>).

  POSIX message queues are lists with a capacity: messages of one priority come out in
  the order they went in.  The clock is an argument.  An application that waits for an
  event bit leaves the processor to the stack task, which handles the events that are
  queued; if the bit is not set then, the call does not return and its value is \<open>None\<close>,
  like that of a call that aborts or follows a NULL pointer.

  The event bits of a request handle are those of the flow allocator's instance once
  the request has reached it, and \<open>ap_bits\<close>, by port, before.
\<close>

section \<open>Queues\<close>

record 'a RsQueue =
  mq_msgs :: "'a list"
  mq_maxmsg :: nat

definition pxRsQueueCreate :: "bool \<Rightarrow> nat \<Rightarrow> 'a RsQueue option" where
  "pxRsQueueCreate ok n = (if ok then Some \<lparr> mq_msgs = [], mq_maxmsg = n \<rparr> else None)"

text \<open>A send with a time-out waits for room only so long; nothing makes room meanwhile.\<close>

definition xRsQueueSendToBack :: "timespec option \<Rightarrow> 'a \<Rightarrow> u32 \<Rightarrow> 'a RsQueue \<Rightarrow> (bool \<times> 'a RsQueue) option" where
  "xRsQueueSendToBack clk m us q =
     (if us \<noteq> 0 \<and> rstime_waitusec clk us = None then Some (False, q)
      else if us \<noteq> 0 \<and> rstime_waitusec clk us = Some None then None
      else if mq_maxmsg q \<le> length (mq_msgs q) then Some (False, q)
      else Some (True, q \<lparr> mq_msgs := mq_msgs q @ [m] \<rparr>))"

text \<open>The time-out is computed and not used: receiving from an empty queue does not
  return.\<close>

definition xRsQueueReceive :: "timespec option \<Rightarrow> u32 \<Rightarrow> 'a RsQueue \<Rightarrow> ('a option \<times> 'a RsQueue) option" where
  "xRsQueueReceive clk us q =
     (case rstime_waitusec clk us of
        None \<Rightarrow> Some (None, q)
      | Some None \<Rightarrow> None
      | Some (Some _) \<Rightarrow> (case mq_msgs q of
          [] \<Rightarrow> None
        | m # ms \<Rightarrow> Some (Some m, q \<lparr> mq_msgs := ms \<rparr>)))"

section \<open>The stack task and its queue\<close>

datatype api_event = NodeEvent event | eFATimerEvent | eFlowDeallocateEvent u32

record api =
  ap_node :: node
  ap_queue :: "api_event RsQueue"
  ap_ready :: bool
  ap_manager :: ipcManager
  ap_bits :: "u32 \<Rightarrow> u32"

definition xSendEventStructToIPCPTask ::
  "bool \<Rightarrow> timespec option \<Rightarrow> api_event \<Rightarrow> u32 \<Rightarrow> api \<Rightarrow> (bool \<times> api) option" where
  "xSendEventStructToIPCPTask from_task clk e us s =
     (if \<not> ap_ready s then Some (False, s)
      else do {
        (r, q) \<leftarrow> xRsQueueSendToBack clk e (if from_task \<and> us > 0 then 0 else us) (ap_queue s);
        Some (r, s \<lparr> ap_queue := q \<rparr>) })"

definition xSendEventToIPCPTask :: "bool \<Rightarrow> timespec option \<Rightarrow> api_event \<Rightarrow> api \<Rightarrow> (bool \<times> api) option" where
  "xSendEventToIPCPTask from_task clk e s = xSendEventStructToIPCPTask from_task clk e 0 s"

section \<open>Event bits\<close>

definition eFLOW_ACCEPT :: u32 where "eFLOW_ACCEPT = 0x4"

text \<open>The body after the wait; clearing sets every bit that was not asked for.\<close>

definition prvWaitForBit :: "u32 \<Rightarrow> u32 \<Rightarrow> bool \<Rightarrow> u32 option" where
  "prvWaitForBit bits desired xClear =
     (if bits AND desired = 0 then None
      else Some (if xClear then bits OR NOT desired else bits))"

definition vRINA_WakeUpFlowRequest :: "u32 \<Rightarrow> u32 \<Rightarrow> u32 option" where
  "vRINA_WakeUpFlowRequest new bits = (if new = 0 then None else Some (bits OR new))"

text \<open>The event bits of the handle with a port.\<close>

definition flow_table :: "api \<Rightarrow> FlowRequestRow_t list" where
  "flow_table s = xFlowRequestTable (nd_dp (ap_node s))"

definition handle_bits :: "u32 \<Rightarrow> api \<Rightarrow> u32" where
  "handle_bits port s = (case pxFAFindFlowHandle port (flow_table s) of
     Some (Some h) \<Rightarrow> nEventBits h | _ \<Rightarrow> ap_bits s port)"

definition set_bits :: "u32 \<Rightarrow> u32 \<Rightarrow> api \<Rightarrow> api" where
  "set_bits port b s = (case pxFAFindFlowHandle port (flow_table s) of
     Some (Some h) \<Rightarrow> s \<lparr> ap_node := (ap_node s) \<lparr> nd_dp := (nd_dp (ap_node s))
       \<lparr> xFlowRequestTable := fai_update (\<lambda>f. f \<lparr> pxFlowAllocatorHandle := h \<lparr> nEventBits := b \<rparr> \<rparr>) (flow_table s) \<rparr> \<rparr> \<rparr>
   | _ \<Rightarrow> s \<lparr> ap_bits := (ap_bits s)(port := b) \<rparr>)"

text \<open>The stack task handles an event; the handle that an event points to has the bits of
  the moment it is handled.\<close>

definition node_event :: "nenv \<Rightarrow> bool \<Rightarrow> event \<Rightarrow> api \<Rightarrow> api option" where
  "node_event env en e s = do {
     n \<leftarrow> prvIpcpTask_event env en e (ap_node s);
     Some (s \<lparr> ap_node := n \<rparr>) }"

fun task_event :: "nenv \<Rightarrow> bool \<Rightarrow> api_event \<Rightarrow> api \<Rightarrow> api option" where
  "task_event env en (NodeEvent (FlowBind port)) s = do {
     s \<leftarrow> node_event env en (FlowBind port) s;
     b \<leftarrow> vRINA_WakeUpFlowRequest eFLOW_BOUND (handle_bits port s);
     Some (set_bits port b s) }"
| "task_event env en (NodeEvent (StackFlowAllocate rq)) s =
     node_event env en (StackFlowAllocate (rq \<lparr> fq_handle :=
       (fq_handle rq) \<lparr> nEventBits := handle_bits (fq_xPortId rq) s \<rparr> \<rparr>)) s"
| "task_event env en (NodeEvent e) s = node_event env en e s"
| "task_event env en eFATimerEvent s = Some s"
| "task_event env en (eFlowDeallocateEvent port) s = Some s"

text \<open>Waiting for bits of the handle of a port: the task handles what is queued.\<close>

primrec wait_queue :: "nenv \<Rightarrow> bool \<Rightarrow> u32 \<Rightarrow> u32 \<Rightarrow> api_event list \<Rightarrow> api \<Rightarrow> api option" where
  "wait_queue env en port d [] s =
     map_option (\<lambda>b. set_bits port b s) (prvWaitForBit (handle_bits port s) d True)"
| "wait_queue env en port d (e # es) s =
     (case prvWaitForBit (handle_bits port s) d True of
        Some b \<Rightarrow> Some (set_bits port b s)
      | None \<Rightarrow> do {
          s \<leftarrow> task_event env en e (s \<lparr> ap_queue := (ap_queue s) \<lparr> mq_msgs := es \<rparr> \<rparr>);
          wait_queue env en port d es s })"

definition wait_for :: "nenv \<Rightarrow> bool \<Rightarrow> u32 \<Rightarrow> u32 \<Rightarrow> api \<Rightarrow> api option" where
  "wait_for env en port d s = wait_queue env en port d (mq_msgs (ap_queue s)) s"

section \<open>Requests\<close>

record flowSpec_t =
  ulAverageBandwidth :: u32
  ulAverageSduBandwidth :: u32
  ulDelay :: u32
  ulJitter :: u32
  usLoss :: u16
  ulMaxAllowableGap :: u32
  fs_xOrderedDelivery :: bool
  ulUndetectedBitErrorRate :: u32
  fs_xPartialDelivery :: bool
  xMsgBoundaries :: bool

record rinaFlowSpec_t =
  max_sdu_gap :: u64
  avg_bandwidth :: u64
  max_delay :: u32
  max_loss :: u16
  max_jitter :: u32
  in_order_delivery :: u8
  msg_boundaries :: u8

record api_request = flowRequest +
  ar_pxDifName :: name_t
  pxFspec :: flowSpec_t
  xReceiveBlockTime :: u32
  xSendBlockTime :: u32

definition request_fspec :: "rinaFlowSpec_t option \<Rightarrow> flowSpec_t" where
  "request_fspec spec =
     (case spec of
        None \<Rightarrow> \<lparr> ulAverageBandwidth = 0, ulAverageSduBandwidth = 0, ulDelay = 0, ulJitter = 0, usLoss = 10000,
          ulMaxAllowableGap = 10, fs_xOrderedDelivery = False, ulUndetectedBitErrorRate = 0,
          fs_xPartialDelivery = True, xMsgBoundaries = False \<rparr>
      | Some x \<Rightarrow> \<lparr> ulAverageBandwidth = ucast (avg_bandwidth x), ulAverageSduBandwidth = 0, ulDelay = max_delay x,
          ulJitter = max_jitter x, usLoss = max_loss x, ulMaxAllowableGap = ucast (max_sdu_gap x),
          fs_xOrderedDelivery = (in_order_delivery x \<noteq> 0), ulUndetectedBitErrorRate = 0,
          fs_xPartialDelivery = True, xMsgBoundaries = (msg_boundaries x \<noteq> 0) \<rparr>)"

definition FLOW_DEFAULT_BLOCK_TIME :: u32 where "FLOW_DEFAULT_BLOCK_TIME = 100"

text \<open>\<open>mem k\<close> is the outcome of the \<open>k\<close>th allocation or initialisation.  A failure frees
  what was allocated and answers NULL.\<close>

definition prvRINACreateFlowRequest ::
  "(nat \<Rightarrow> bool) \<Rightarrow> string option \<Rightarrow> string option \<Rightarrow> string option \<Rightarrow> rinaFlowSpec_t option \<Rightarrow> api
   \<Rightarrow> (api_request option \<times> api) option" where
  "prvRINACreateFlowRequest mem dif loc rem spec s =
     (if \<not> mem 0 \<or> \<not> mem 1 \<or> \<not> mem 2 \<or> \<not> mem 3 \<or> \<not> mem 4 \<or> \<not> mem 5 \<or> \<not> mem 6 then Some (None, s)
      else do {
        (a, d) \<leftarrow> xRinaNameFromString (mem 7) dif;
        if \<not> a then Some (None, s)
        else if loc = None then Some (None, s)
        else do {
          (b, l) \<leftarrow> xRinaNameFromString (mem 8) loc;
          if \<not> b then Some (None, s)
          else if rem = None then Some (None, s)
          else do {
            (c, r) \<leftarrow> xRinaNameFromString (mem 9) rem;
            if \<not> c then Some (None, s)
            else do {
              (port, im) \<leftarrow> xIpcMngrAllocatePortId (ap_manager s);
              Some (Some \<lparr> fq_xPortId = port, fq_pxLocal = l, fq_pxRemote = r,
                  fq_handle = \<lparr> xListWaitingPackets = [], nEventBits = 0 \<rparr>, ar_pxDifName = d,
                  pxFspec = request_fspec spec, xReceiveBlockTime = FLOW_DEFAULT_BLOCK_TIME,
                  xSendBlockTime = FLOW_DEFAULT_BLOCK_TIME \<rparr>,
                s \<lparr> ap_manager := im, ap_bits := (ap_bits s)(port := 0) \<rparr>) } } } })"

definition RINA_flowStatus :: "u32 \<Rightarrow> api \<Rightarrow> bool" where
  "RINA_flowStatus port s = xNormalIsFlowAllocated port (nd_dp (ap_node s))"

section \<open>Allocating\<close>

definition xRINA_bind ::
  "nenv \<Rightarrow> bool \<Rightarrow> timespec option \<Rightarrow> api_request option \<Rightarrow> api \<Rightarrow> (bool \<times> api) option" where
  "xRINA_bind env en clk rq s =
     (case rq of
        None \<Rightarrow> Some (False, s)
      | Some rq \<Rightarrow> do {
          (sent, s) \<leftarrow> xSendEventStructToIPCPTask False clk (NodeEvent (FlowBind (fq_xPortId rq))) 0 s;
          if \<not> sent then Some (False, s)
          else do {
            s \<leftarrow> wait_for env en (fq_xPortId rq) eFLOW_BOUND s;
            Some (True, s) } })"

text \<open>The answer of the first tests is overwritten.  The timeout that is stored in the
  handle is read nowhere.\<close>

definition prvConnect ::
  "nenv \<Rightarrow> bool \<Rightarrow> timespec option \<Rightarrow> api_request option \<Rightarrow> api \<Rightarrow> (int \<times> api) option" where
  "prvConnect env en clk rq s = do {
     (r, s) \<leftarrow> xRINA_bind env en clk rq s;
     if \<not> r then Some (0, s)
     else do {
       rq \<leftarrow> rq;
       (sent, s) \<leftarrow> xSendEventStructToIPCPTask False clk
         (NodeEvent (StackFlowAllocate (flowRequest.truncate rq))) (- 1) s;
       if \<not> sent then Some (- 1, s)
       else do {
         (sent, s) \<leftarrow> xSendEventToIPCPTask False clk eFATimerEvent s;
         Some (if sent then 1 else 0, s) } } }"

text \<open>The loop entered when the connection failed.  Starting the time-out is taken for an
  error when it succeeds, which changes nothing, and a check of the time-out that
  succeeds ends the loop; \<open>cs\<close> is what the clock answers at each check.\<close>

primrec alloc_wait :: "nenv \<Rightarrow> bool \<Rightarrow> u32 \<Rightarrow> timespec option list \<Rightarrow> api \<Rightarrow> api option" where
  "alloc_wait env en port [] s = None"
| "alloc_wait env en port (c # cs) s =
     (if RINA_flowStatus port s \<or> c \<noteq> None then Some s
      else do {
        s \<leftarrow> wait_for env en port eFLOW_ACCEPT s;
        alloc_wait env en port cs s })"

definition RINA_flow_alloc ::
  "nenv \<Rightarrow> bool \<Rightarrow> (nat \<Rightarrow> bool) \<Rightarrow> timespec option \<Rightarrow> timespec option list \<Rightarrow> string option \<Rightarrow> string option
   \<Rightarrow> string option \<Rightarrow> rinaFlowSpec_t option \<Rightarrow> api \<Rightarrow> (u32 \<times> api) option" where
  "RINA_flow_alloc env en mem clk cs dif loc rem spec s = do {
     (rq, s) \<leftarrow> prvRINACreateFlowRequest mem dif loc rem spec s;
     (r, s) \<leftarrow> prvConnect env en clk rq s;
     rq \<leftarrow> rq;
     s \<leftarrow> (if r = 0 then alloc_wait env en (fq_xPortId rq) cs s else Some s);
     Some (fq_xPortId rq, s) }"

section \<open>Writing\<close>

definition MAX_SDU_SIZE :: nat where "MAX_SDU_SIZE = 1500"

definition ap_free :: "nat list \<Rightarrow> api \<Rightarrow> api" where
  "ap_free free s = s \<lparr> ap_node := (ap_node s) \<lparr> nd_dp := (nd_dp (ap_node s)) \<lparr> free_desc := free \<rparr> \<rparr> \<rparr>"

text \<open>The time is read three times: before, after the copy and for the queue.\<close>

definition RINA_flow_write ::
  "nenv \<Rightarrow> (nat \<Rightarrow> timespec option) \<Rightarrow> u32 \<Rightarrow> u8 list \<Rightarrow> nat \<Rightarrow> api \<Rightarrow> (nat \<times> api) option" where
  "RINA_flow_write env clk port buf n s =
     (if n > MAX_SDU_SIZE then None
      else case xRsTimeSetTimeOut (clk 0) of
        None \<Rightarrow> Some (0, s)
      | Some t \<Rightarrow> do {
          (nb, free) \<leftarrow> pxGetNetworkBufferWithDescriptor (storage (nv_dp env)) n (free_desc (nd_dp (ap_node s)));
          (case nb of
             None \<Rightarrow> Some (0, s)
           | Some nb \<Rightarrow>
               let dst = (case pucEthernetBuffer nb of None \<Rightarrow> [] | Some d \<Rightarrow> d); s = ap_free free s in
               if length buf < n \<or> length dst < n then None
               else (case xRsTimeCheckTimeOut (clk 1) t 250000 of
                   None \<Rightarrow> Some (0, s)
                 | Some (left, _) \<Rightarrow> do {
                     let nb = nb \<lparr> pucEthernetBuffer := map_option (\<lambda>d. take n buf @ drop n d) (pucEthernetBuffer nb),
                                   xDataLength := n \<rparr>;
                     (sent, s) \<leftarrow> xSendEventStructToIPCPTask False (clk 2) (NodeEvent (StackTx port nb)) left s;
                     if sent then Some (n, s)
                     else do {
                       free \<leftarrow> vReleaseNetworkBufferAndDescriptor nb free;
                       Some (0, ap_free free s) } })) })"

definition RINA_close :: "timespec option \<Rightarrow> u32 \<Rightarrow> api \<Rightarrow> (bool \<times> api) option" where
  "RINA_close clk port s =
     (if \<not> is_port_id_ok port then Some (False, s)
      else xSendEventStructToIPCPTask False clk (eFlowDeallocateEvent port) 0 s)"

section \<open>Reading\<close>

text \<open>\<open>pxRsListGetHeadOwner\<close> answers the owner of the head of the list, which is NULL from
  its initialisation on (\<open>head_owner_null\<close>).\<close>

definition waiting_head_owner :: "NetworkBufferDescriptor_t list \<Rightarrow> NetworkBufferDescriptor_t option" where
  "waiting_head_owner xs = None"

text \<open>The bytes are the ones copied to the application; their number is that of the
  packet, whatever the size of the application's buffer.\<close>

definition read_packet :: "flowAllocateHandle_t \<Rightarrow> api \<Rightarrow> (int \<times> u8 list \<times> api) option" where
  "read_packet h s = do {
     nb \<leftarrow> waiting_head_owner (xListWaitingPackets h);
     let s = s \<lparr> ap_node := (ap_node s) \<lparr> nd_dp := (nd_dp (ap_node s)) \<lparr> xFlowRequestTable :=
       fai_update (\<lambda>f. f \<lparr> pxFlowAllocatorHandle := h \<lparr> xListWaitingPackets := remove1 nb (xListWaitingPackets h) \<rparr> \<rparr>)
         (flow_table s) \<rparr> \<rparr> \<rparr>;
     data \<leftarrow> pucDataBuffer nb;
     if length data < xDataLength nb then None
     else do {
       free \<leftarrow> vReleaseNetworkBufferAndDescriptor nb (free_desc (nd_dp (ap_node s)));
       Some (int (xDataLength nb), take (xDataLength nb) data, ap_free free s) } }"

text \<open>The loop while no packet waits; \<open>cs\<close> is what the clock answers at each check of the
  time-out, whose outcome does not end the loop.\<close>

primrec read_wait :: "nenv \<Rightarrow> bool \<Rightarrow> u32 \<Rightarrow> timespec option list \<Rightarrow> api \<Rightarrow> (int \<times> u8 list \<times> api) option" where
  "read_wait env en port [] s = None"
| "read_wait env en port (c # cs) s = do {
     s \<leftarrow> wait_for env en port eFLOW_RECEIVE s;
     h \<leftarrow> pxFAFindFlowHandle port (flow_table s);
     h \<leftarrow> h;
     if xListWaitingPackets h \<noteq> [] then read_packet h s
     else if c = None then Some (0, [], s)
     else read_wait env en port cs s }"

definition RINA_flow_read ::
  "nenv \<Rightarrow> bool \<Rightarrow> timespec option \<Rightarrow> timespec option list \<Rightarrow> u32 \<Rightarrow> api \<Rightarrow> (int \<times> u8 list \<times> api) option" where
  "RINA_flow_read env en clk cs port s =
     (if \<not> RINA_flowStatus port s then Some (0, [], s)
      else do {
        h \<leftarrow> pxFAFindFlowHandle port (flow_table s);
        h \<leftarrow> h;
        if xListWaitingPackets h \<noteq> [] then read_packet h s
        else if xRsTimeSetTimeOut clk = None then Some (- 1, [], s)
        else read_wait env en port cs s })"

end
