(* ===== verification/Api_Props.thy ===== *)
theory Api_Props
  imports Rina_Api
begin

text \<open>
  What the interface of applications does to the stack: the event bits, allocating,
  writing and reading.
\<close>

section \<open>Reading\<close>

lemma head_owner_null:
  "pxRsListGetHeadOwner h (vRsListInit h s) = None"
  "vRsListInsert h i s = Some s' \<Longrightarrow> pxRsListGetHeadOwner h s' = pxRsListGetHeadOwner h s"
  by (auto simp: pxRsListGetHeadOwner_def vRsListInit_owner dest: vRsListInsert_owner)

lemma read_packet_undefined: "read_packet h s = None"
  by (simp add: read_packet_def waiting_head_owner_def)

lemma read_wait_no_data:
  "read_wait env en port cs s = Some (r, bs, s') \<Longrightarrow> r = 0 \<and> bs = []"
  by (induction cs arbitrary: s) (auto simp: read_packet_undefined split: Option.bind_splits if_splits)

text \<open>Reading never gives the application any bytes: in every state it answers 0 or
  - 1 without data, does not return or follows a NULL pointer.\<close>

theorem read_no_data:
  "case RINA_flow_read env en clk cs port s of
     None \<Rightarrow> True | Some (r, bs, s') \<Rightarrow> (r = 0 \<or> r = - 1) \<and> bs = []"
  by (auto simp: RINA_flow_read_def read_packet_undefined dest: read_wait_no_data
      split: option.split Option.bind_split)

section \<open>Event bits\<close>

lemma or_not_bit: "bits AND d \<noteq> 0 \<Longrightarrow> (bits OR NOT d) AND d \<noteq> (0::u32)"
proof
  assume a: "bits AND d \<noteq> 0" and "(bits OR NOT d) AND d = 0"
  moreover have "(bits OR NOT d) AND d = bits AND d"
    by (rule bit_word_eqI) (auto simp: bit_simps)
  ultimately show False by simp
qed

text \<open>Waiting for one event bit with the bit to be cleared leaves all 32 bits set: no
  later wait on the handle blocks, whatever it waits for.\<close>

theorem wait_sets_all:
  assumes "prvWaitForBit bits (2 ^ k) True = Some bits'" "k < 32"
  shows "bits' = - 1 \<and> (d \<noteq> 0 \<longrightarrow> prvWaitForBit bits' d xClear \<noteq> None)"
proof -
  have "bit bits k" and b: "bits' = bits OR NOT (2 ^ k)"
    using assms by (auto simp: prvWaitForBit_def and_exp_eq_0_iff_not_bit split: if_splits)
  then have "bits' = - 1"
    by (intro bit_word_eqI) (auto simp: bit_simps)
  then show ?thesis by (simp add: prvWaitForBit_def)
qed

theorem wait_sets_all_witness: "prvWaitForBit (0x10 OR NOT 0x10) eFLOW_RECEIVE True \<noteq> None"
  using wait_sets_all[of "0x10" 4 "0x10 OR NOT 0x10" eFLOW_RECEIVE True] by (simp add: prvWaitForBit_def eFLOW_RECEIVE_def)

section \<open>An empty flow\<close>

lemma fa_scan_same:
  assumes "fai_xPortId f = fai_xPortId g" "map fr_xValid t' = map fr_xValid t"
  shows "fa_scan port (Some f) t' = fa_scan port (Some g) t"
  using assms(2)
proof (induction t arbitrary: t')
  case (Cons r t)
  then show ?case using assms(1) by (cases t') auto
qed simp

lemma find_after_update:
  assumes "pxFAFindFlowHandle port t = Some (Some h)" "t \<noteq> []"
  shows "pxFAFindFlowHandle port (fai_update (\<lambda>f. f \<lparr> pxFlowAllocatorHandle := h' \<rparr>) t) = Some (Some h')"
proof -
  obtain f where f: "fa_scan port (Some f) t = Some True" "pxFAI (t ! 0) = Some f"
    using assms(1) by (auto simp: pxFAFindFlowHandle_def pxFAFindInstance_def split: Option.bind_splits if_splits)
  let ?t = "t[0 := (t ! 0) \<lparr> pxFAI := Some (f \<lparr> pxFlowAllocatorHandle := h' \<rparr>) \<rparr>]"
  have "map fr_xValid ?t = map fr_xValid t" using assms(2) by (cases t) simp_all
  then have "fa_scan port (Some (f \<lparr> pxFlowAllocatorHandle := h' \<rparr>)) ?t = Some True"
    using fa_scan_same[of "f \<lparr> pxFlowAllocatorHandle := h' \<rparr>" f ?t t] f(1) by simp
  then show ?thesis
    using f(2) assms(2) by (simp add: pxFAFindFlowHandle_def pxFAFindInstance_def fai_update_def)
qed

text \<open>A flow without packets whose bit for received packets is set.\<close>

definition empty_and_set :: "u32 \<Rightarrow> api \<Rightarrow> bool" where
  "empty_and_set port s \<longleftrightarrow> flow_table s \<noteq> [] \<and> (case pxFAFindFlowHandle port (flow_table s) of
     Some (Some h) \<Rightarrow> xListWaitingPackets h = [] \<and> nEventBits h AND eFLOW_RECEIVE \<noteq> 0 | _ \<Rightarrow> False)"

lemma wait_set:
  assumes "handle_bits port s AND d \<noteq> 0"
  shows "wait_for env en port d s = Some (set_bits port (handle_bits port s OR NOT d) s)"
  using assms by (cases "mq_msgs (ap_queue s)") (simp_all add: wait_for_def prvWaitForBit_def)

lemma read_wait_spins:
  "empty_and_set port s \<Longrightarrow> None \<notin> set cs \<Longrightarrow> read_wait env en port cs s = None"
proof (induction cs arbitrary: s)
  case (Cons c cs)
  obtain h where h: "pxFAFindFlowHandle port (flow_table s) = Some (Some h)" "xListWaitingPackets h = []"
      "nEventBits h AND eFLOW_RECEIVE \<noteq> 0" "flow_table s \<noteq> []"
    using Cons.prems(1) by (auto simp: empty_and_set_def split: option.splits)
  define t where "t = set_bits port (nEventBits h OR NOT eFLOW_RECEIVE) s"
  have w: "wait_for env en port eFLOW_RECEIVE s = Some t"
    using wait_set[of port s eFLOW_RECEIVE] h by (simp add: t_def handle_bits_def)
  have f: "pxFAFindFlowHandle port (flow_table t) = Some (Some (h \<lparr> nEventBits := nEventBits h OR NOT eFLOW_RECEIVE \<rparr>))"
      "flow_table t \<noteq> []"
    using find_after_update[OF h(1,4)] h(1,4) by (simp_all add: t_def set_bits_def flow_table_def fai_update_def)
  then have "empty_and_set port t"
    using h(2) or_not_bit[OF h(3)] by (simp add: empty_and_set_def)
  then have "read_wait env en port cs t = None" using Cons by simp
  then show ?case using w f(1) h(2) Cons.prems(2) by (cases c) simp_all
qed simp

text \<open>C35: Reading a flow on which a packet waits follows a NULL pointer; reading one on which
  none waits, with the event bit for received packets set (as every bit is after the
  application has waited once), does not return while the clock works: the time-out
  ends nothing.\<close>

theorem read_hangs:
  assumes "RINA_flowStatus port s" "None \<notin> set cs"
    and "pxFAFindFlowHandle port (flow_table s) = Some (Some h)" "flow_table s \<noteq> []"
    and "xListWaitingPackets h \<noteq> [] \<or> nEventBits h AND eFLOW_RECEIVE \<noteq> 0"
  shows "RINA_flow_read env en (Some t) cs port s = None"
  using assms read_wait_spins[of port s cs env en]
  by (cases "xListWaitingPackets h = []")
    (auto simp: RINA_flow_read_def read_packet_undefined empty_and_set_def xRsTimeSetTimeOut_def)

definition ex_api :: "dplane \<Rightarrow> ipcManager \<Rightarrow> api" where
  "ex_api d im = \<lparr> ap_node = ex_node d, ap_queue = \<lparr> mq_msgs = [], mq_maxmsg = 10 \<rparr>, ap_ready = True, ap_manager = im,
     ap_bits = (\<lambda>_. 0) \<rparr>"

definition ex_manager :: ipcManager where
  "ex_manager = \<lparr> pxPidm = the (pxNumMgrCreate True True MAX_PORT_ID), pxIpcpIdm = the (pxNumMgrCreate True True MAX_IPCP_ID),
     xInstanceTable = instance_table_boot, im_buffers = nb_boot \<rparr>"

definition ex_time :: timespec where "ex_time = \<lparr> tv_sec = 1, tv_nsec = 0 \<rparr>"

definition ex_reading :: api where
  "ex_reading = ex_api (ex_plane \<lparr> xFlowRequestTable := [\<lparr> fr_xValid = True, pxFAI = Some (ex_fai
     \<lparr> pxFlowAllocatorHandle := \<lparr> xListWaitingPackets = [], nEventBits = - 1 \<rparr> \<rparr>) \<rparr>],
     xFlowsList := [\<lparr> nf_xPortId = 33, nf_eState = ePORT_STATE_ALLOCATED, xActive = 1 \<rparr>] \<rparr>) ex_manager"

theorem read_hangs_witness:
  "RINA_flow_read ex_nenv False (Some ex_time) (replicate 1000 (Some ex_time)) 33 ex_reading = None"
proof (rule read_hangs)
  show "RINA_flowStatus 33 ex_reading"
    by (simp add: RINA_flowStatus_def ex_reading_def ex_api_def xNormalIsFlowAllocated_def prvNormalFindFlow_def)
  show "pxFAFindFlowHandle 33 (flow_table ex_reading) = Some (Some \<lparr> xListWaitingPackets = [], nEventBits = - 1 \<rparr>)"
    by (simp add: ex_reading_def ex_api_def flow_table_def pxFAFindFlowHandle_def pxFAFindInstance_def ex_fai_def)
qed (simp_all add: ex_reading_def ex_api_def flow_table_def eFLOW_RECEIVE_def)

section \<open>Allocating\<close>

text \<open>With a ready stack task, room in its queue and names that parse, allocating a flow
  returns the new port when only the flow has been entered, as pending: the request for
  it is still in the queue, and every event bit of its handle is set.\<close>

theorem alloc_returns_early:
  assumes "prvRINACreateFlowRequest mem dif loc rem spec s = Some (Some rq, s1)"
    and "ap_ready s" "mq_msgs (ap_queue s) = []" "2 \<le> mq_maxmsg (ap_queue s)" "clk = Some t" "ts_ok t"
    and "pxFAFindFlowHandle (fq_xPortId rq) (flow_table s) = Some None"
  shows "\<exists>s'. RINA_flow_alloc env en mem clk cs dif loc rem spec s = Some (fq_xPortId rq, s')
    \<and> mq_msgs (ap_queue s') = [NodeEvent (StackFlowAllocate (flowRequest.truncate rq)), eFATimerEvent]
    \<and> nd_dp (ap_node s') = snd (xNormalFlowPrebind (nv_dp env) (fq_xPortId rq) (nd_dp (ap_node s)))
    \<and> handle_bits (fq_xPortId rq) s' = - 1"
proof -
  let ?p = "fq_xPortId rq"
  have s1: "s1 = s \<lparr> ap_manager := ap_manager s1, ap_bits := (ap_bits s)(?p := 0) \<rparr>"
    using assms(1) by (auto simp: prvRINACreateFlowRequest_def split: if_splits Option.bind_splits)
  have fields: "ap_ready s1" "ap_queue s1 = ap_queue s" "ap_node s1 = ap_node s" "ap_bits s1 ?p = 0"
    by (subst s1, use assms(2) in simp)+
  have w: "rstime_waitusec clk (- 1) \<noteq> None" "rstime_waitusec clk (- 1) \<noteq> Some None"
    using wait_works[OF assms(6), of "- 1"] assms(5) by auto
  define s2 where "s2 = s1 \<lparr> ap_queue := ap_queue s \<lparr> mq_msgs := [] \<rparr>, ap_node := (ap_node s)
      \<lparr> nd_dp := snd (xNormalFlowPrebind (nv_dp env) ?p (nd_dp (ap_node s))) \<rparr>, ap_bits := (ap_bits s1)(?p := - 1) \<rparr>"
  have "flow_table (s1 \<lparr> ap_node := (ap_node s) \<lparr> nd_dp := snd (xNormalFlowPrebind (nv_dp env) ?p (nd_dp (ap_node s))) \<rparr> \<rparr>)
      = flow_table s"
    by (simp add: flow_table_def xNormalFlowPrebind_def)
  have b: "xRINA_bind env en clk (Some rq) s1 = Some (True, s2)"
    using fields assms(3,4,7) s1
    by (simp add: xRINA_bind_def xSendEventStructToIPCPTask_def xRsQueueSendToBack_def wait_for_def prvWaitForBit_def
        handle_bits_def set_bits_def flow_table_def node_event_def vRINA_WakeUpFlowRequest_def eFLOW_BOUND_def
        xNormalFlowPrebind_def s2_def)
  define s3 where "s3 = s2 \<lparr> ap_queue := ap_queue s2
      \<lparr> mq_msgs := [NodeEvent (StackFlowAllocate (flowRequest.truncate rq)), eFATimerEvent] \<rparr> \<rparr>"
  have "prvConnect env en clk (Some rq) s1 = Some (1, s3)"
    using fields assms(4) w
    by (simp add: prvConnect_def b xSendEventStructToIPCPTask_def xSendEventToIPCPTask_def xRsQueueSendToBack_def
        s2_def s3_def)
  then have "RINA_flow_alloc env en mem clk cs dif loc rem spec s = Some (?p, s3)"
    using assms(1) by (simp add: RINA_flow_alloc_def)
  moreover have "handle_bits ?p s3 = - 1"
    using assms(7) by (simp add: handle_bits_def s3_def s2_def flow_table_def xNormalFlowPrebind_def)
  ultimately show ?thesis
    by (intro exI[of _ s3]) (simp add: s3_def s2_def)
qed

lemma ex_names: "\<not> Option.is_none (xRinaNameFromString True (Some ''d|1|m|x''))"
  "fst (the (xRinaNameFromString True (Some ''d|1|m|x'')))"
  by code_simp+

theorem alloc_returns_early_witness:
  "\<exists>s'. RINA_flow_alloc ex_nenv False (\<lambda>_. True) (Some ex_time) [] (Some ''d|1|m|x'')
      (Some ''d|1|m|x'') (Some ''d|1|m|x'') None (ex_api ex_plane ex_manager) = Some (1, s') \<and> handle_bits 1 s' = - 1"
proof -
  obtain pidm where p: "pxNumMgrCreate True True MAX_PORT_ID = Some pidm"
    by (simp add: pxNumMgrCreate_def xNumMgrInit_def pxBitArrayAlloc_def MAX_PORT_ID_def)
  have "\<not> xNumMgrIsAllocated pidm 1" "lastAllocated pidm = 0" "numCnt pidm = 2048"
    using nm_wf_create(2,3)[OF p] nm_wf_create(4)[OF p, of 1] by (simp_all add: MAX_PORT_ID_def)
  then obtain pidm' where a: "xIpcMngrAllocatePortId ex_manager = Some (1, ex_manager \<lparr> pxPidm := pidm' \<rparr>)"
    using alloc_next[of pidm] by (simp add: xIpcMngrAllocatePortId_def ex_manager_def p)
  obtain n where n: "xRinaNameFromString True (Some ''d|1|m|x'') = Some (True, n)"
    using ex_names by (cases "xRinaNameFromString True (Some ''d|1|m|x'')") (auto simp: Option.is_none_def)
  have "\<exists>rq s1. prvRINACreateFlowRequest (\<lambda>_. True) (Some ''d|1|m|x'') (Some ''d|1|m|x'') (Some ''d|1|m|x'') None
      (ex_api ex_plane ex_manager) = Some (Some rq, s1) \<and> fq_xPortId rq = 1"
    by (simp add: prvRINACreateFlowRequest_def n a ex_api_def)
  then obtain rq s1 where rq: "prvRINACreateFlowRequest (\<lambda>_. True) (Some ''d|1|m|x'') (Some ''d|1|m|x'')
      (Some ''d|1|m|x'') None (ex_api ex_plane ex_manager) = Some (Some rq, s1)" "fq_xPortId rq = 1" by blast
  have "pxFAFindFlowHandle 1 (flow_table (ex_api ex_plane ex_manager)) = Some None"
    by (simp add: flow_table_def ex_api_def ex_plane_def pxFAFindFlowHandle_def pxFAFindInstance_def ex_fai_def)
  then show ?thesis
    using alloc_returns_early[OF rq(1), of "Some ex_time" ex_time ex_nenv False "[]"] rq(2)
    by (auto simp: ex_api_def ts_ok_def ex_time_def)
qed

section \<open>Writing\<close>



end
