(* ===== verification/Hash_Tab.thy ===== *)
theory Hash_Tab
  imports Rsrc_Pool "HOL-Library.Multiset"
begin

text \<open>
  Hash tables: \<open>Rina-manager/Common/hashtab.c\<close>.  An entry is a number, in the order in
  which the heap gave them out; the chain of a bucket and the list of free entries are
  lists of entries, first one first.  A key is an integer or a string, as the two unions
  of the code have it: comparing a string with an entry that holds an integer follows the
  integer as a pointer, and is undefined (\<open>None\<close>), and so is comparing an integer with a
  pointer.  \<open>sc\<close> says whether plain characters are signed, which is up to the compiler.
  Printing the statistics is not modelled.
\<close>

datatype htkey = KInt u32 | KStr string

record 'v hashtab_t =
  pxBuckets :: "nat list list"
  ht_pxFreelist :: "nat list"
  pcTablename :: string
  ulBucketCount :: u32
  ulMaxEntries :: u32
  ulCurEntries :: u32
  ulAllocSize :: u32
  ht_key :: "nat \<Rightarrow> htkey"
  ht_value :: "nat \<Rightarrow> 'v option"
  next_entry :: nat

definition htMAX_ALLOCSIZE :: u32 where "htMAX_ALLOCSIZE = 0xffff"

text \<open>The size of an entry with its alignment, and of the other objects.\<close>

definition sizeof_hashent_t :: nat where "sizeof_hashent_t = 20"
definition sizeof_hashtab_t :: nat where "sizeof_hashtab_t = 28"
definition sizeof_Link_t :: nat where "sizeof_Link_t = 8"

section \<open>Entries\<close>

primrec push_entries :: "nat \<Rightarrow> 'v hashtab_t \<Rightarrow> 'v hashtab_t" where
  "push_entries 0 t = t"
| "push_entries (Suc n) t =
     push_entries n (t \<lparr> ht_pxFreelist := next_entry t # ht_pxFreelist t, next_entry := next_entry t + 1 \<rparr>)"

text \<open>The heap has no room for more entries than the address space.  A product that does
  not fit gives a block that is too small.\<close>

definition prvMorefree :: "bool \<Rightarrow> u32 \<Rightarrow> 'v hashtab_t \<Rightarrow> (u32 \<times> 'v hashtab_t) option" where
  "prvMorefree mem n t =
     (if ulMaxEntries t \<noteq> 0 \<and> ulCurEntries t + n > ulMaxEntries t then Some (0, t)
      else if sizeof_hashent_t * unat n \<ge> 2 ^ 32 then None
      else if \<not> mem \<or> sizeof_hashent_t * (next_entry t + unat n) \<ge> 2 ^ 32 then Some (0, t)
      else Some (ulAllocSize t, push_entries (unat n) t))"

definition take_entry :: "'v hashtab_t \<Rightarrow> (nat \<times> 'v hashtab_t) option" where
  "take_entry t = (case ht_pxFreelist t of
     [] \<Rightarrow> None
   | e # rest \<Rightarrow> Some (e, t \<lparr> ht_pxFreelist := rest, ulCurEntries := ulCurEntries t + 1 \<rparr>))"

text \<open>When the table may not grow, the links of a NULL entry are initialised.\<close>

definition prvNewhashent :: "bool \<Rightarrow> 'v hashtab_t \<Rightarrow> (nat \<times> 'v hashtab_t) option" where
  "prvNewhashent mem t =
     (if ht_pxFreelist t \<noteq> [] then take_entry t
      else do {
        (r, t) \<leftarrow> prvMorefree mem (ulAllocSize t) t;
        if r \<noteq> 0 then take_entry t else None })"

definition prvFreehashent :: "nat \<Rightarrow> 'v hashtab_t \<Rightarrow> 'v hashtab_t" where
  "prvFreehashent e t = t \<lparr> ht_pxFreelist := e # ht_pxFreelist t, ulCurEntries := ulCurEntries t - 1 \<rparr>"

section \<open>Look-up\<close>

definition char_int :: "bool \<Rightarrow> char \<Rightarrow> u32" where
  "char_int sc c = (if sc then scast (of_char c :: u8) else ucast (of_char c :: u8))"

definition prvHashedName :: "bool \<Rightarrow> string \<Rightarrow> u32" where
  "prvHashedName sc s = foldl (\<lambda>h c. drop_bit 16 h + (xor (push_bit 5 h) (char_int sc c))) 0 s"

definition prvHashedInt :: "u32 \<Rightarrow> u32" where
  "prvHashedInt k = 277 * k + k + 12345"

definition bucketno :: "bool \<Rightarrow> htkey \<Rightarrow> 'v hashtab_t \<Rightarrow> nat" where
  "bucketno sc k t = unat ((case k of KStr s \<Rightarrow> prvHashedName sc s | KInt n \<Rightarrow> prvHashedInt n) mod ulBucketCount t)"

fun is_str :: "htkey \<Rightarrow> bool" where
  "is_str (KStr s) = True"
| "is_str (KInt n) = False"

fun ht_scan :: "(nat \<Rightarrow> htkey) \<Rightarrow> htkey \<Rightarrow> nat list \<Rightarrow> nat option option" where
  "ht_scan kf k [] = Some None"
| "ht_scan kf k (e # es) =
     (if is_str (kf e) \<noteq> is_str k then None
      else if kf e = k then Some (Some e) else ht_scan kf k es)"

text \<open>The answer is the bucket and the entry.\<close>

definition prvHashLookupCom :: "bool \<Rightarrow> htkey \<Rightarrow> 'v hashtab_t \<Rightarrow> (nat \<times> nat option) option" where
  "prvHashLookupCom sc k t = do {
     let b = bucketno sc k t;
     e \<leftarrow> ht_scan (ht_key t) k (pxBuckets t ! b);
     Some (b, e) }"

definition pxHtFindEntry :: "bool \<Rightarrow> htkey \<Rightarrow> 'v hashtab_t \<Rightarrow> nat option option" where
  "pxHtFindEntry sc k t = do { (_, e) \<leftarrow> prvHashLookupCom sc k t; Some e }"

definition pvHtGetVal :: "bool \<Rightarrow> htkey \<Rightarrow> 'v hashtab_t \<Rightarrow> 'v option option" where
  "pvHtGetVal sc k t = do {
     (_, e) \<leftarrow> prvHashLookupCom sc k t;
     Some (case e of Some e \<Rightarrow> ht_value t e | None \<Rightarrow> None) }"

section \<open>Adding and deleting\<close>

definition prvHtISAddVal :: "bool \<Rightarrow> bool \<Rightarrow> bool \<Rightarrow> htkey \<Rightarrow> 'v option \<Rightarrow> 'v hashtab_t \<Rightarrow> (bool \<times> 'v hashtab_t) option" where
  "prvHtISAddVal sc mem overwrite k v t = do {
     (b, e) \<leftarrow> prvHashLookupCom sc k t;
     (case e of
        Some e \<Rightarrow> Some (if overwrite then (True, t \<lparr> ht_value := (ht_value t)(e := v) \<rparr>) else (False, t))
      | None \<Rightarrow> do {
          (e, t) \<leftarrow> prvNewhashent mem t;
          Some (True, t \<lparr> ht_key := (ht_key t)(e := k), ht_value := (ht_value t)(e := v),
                          pxBuckets := (pxBuckets t)[b := e # pxBuckets t ! b] \<rparr>) }) }"

definition iHtAddVal :: "bool \<Rightarrow> bool \<Rightarrow> htkey \<Rightarrow> 'v option \<Rightarrow> 'v hashtab_t \<Rightarrow> (bool \<times> 'v hashtab_t) option" where
  "iHtAddVal sc mem k v t = prvHtISAddVal sc mem False k v t"

definition iHtSetVal :: "bool \<Rightarrow> bool \<Rightarrow> htkey \<Rightarrow> 'v option \<Rightarrow> 'v hashtab_t \<Rightarrow> (bool \<times> 'v hashtab_t) option" where
  "iHtSetVal sc mem k v t = prvHtISAddVal sc mem True k v t"

definition iHtISDelete :: "bool \<Rightarrow> htkey \<Rightarrow> 'v hashtab_t \<Rightarrow> (bool \<times> 'v hashtab_t) option" where
  "iHtISDelete sc k t = do {
     (b, e) \<leftarrow> prvHashLookupCom sc k t;
     Some (case e of
        Some e \<Rightarrow> (True, prvFreehashent e (t \<lparr> pxBuckets := (pxBuckets t)[b := remove1 e (pxBuckets t ! b)] \<rparr>))
      | None \<Rightarrow> (False, t)) }"

text \<open>The entry is unlinked, but neither counted nor put on the free list.\<close>

definition vHtEDelete :: "nat \<Rightarrow> 'v hashtab_t \<Rightarrow> 'v hashtab_t option" where
  "vHtEDelete e t =
     (if e \<in> set (concat (pxBuckets t)) then Some (t \<lparr> pxBuckets := map (remove1 e) (pxBuckets t) \<rparr>) else None)"

section \<open>Iteration\<close>

text \<open>The next entry is an entry, or the head of the bucket before its first entry.\<close>

datatype htnext = AtHead | AtEntry nat | AtNull

record htIterator_t =
  it_pxNext :: htnext
  ulBucket :: nat

fun after :: "nat \<Rightarrow> nat list \<Rightarrow> nat list option" where
  "after e [] = None"
| "after e (x # xs) = (if x = e then Some xs else after e xs)"

text \<open>What follows in the chain: the rest of it after the entry.\<close>

fun chain_rest :: "htnext \<Rightarrow> nat list \<Rightarrow> nat list option" where
  "chain_rest AtHead es = Some es"
| "chain_rest (AtEntry e) es = after e es"
| "chain_rest AtNull es = None"

function next_entry_loop :: "'v hashtab_t \<Rightarrow> htnext \<Rightarrow> nat \<Rightarrow> htIterator_t option" where
  "next_entry_loop t p b =
     (if b < unat (ulBucketCount t)
      then (case chain_rest p (pxBuckets t ! b) of
              None \<Rightarrow> None
            | Some (e # _) \<Rightarrow> Some \<lparr> it_pxNext = AtEntry e, ulBucket = b \<rparr>
            | Some [] \<Rightarrow> next_entry_loop t (if b + 1 < unat (ulBucketCount t) then AtHead else p) (b + 1))
      else Some \<lparr> it_pxNext = AtNull, ulBucket = b \<rparr>)"
  by pat_completeness auto
termination by (relation "measure (\<lambda>(t, p, b). unat (ulBucketCount t) - b)") auto

declare next_entry_loop.simps [simp del]

definition prvNextentry :: "'v hashtab_t \<Rightarrow> htIterator_t \<Rightarrow> htIterator_t option" where
  "prvNextentry t it = next_entry_loop t (it_pxNext it) (ulBucket it)"

definition vHtInitIterator :: "'v hashtab_t \<Rightarrow> htIterator_t option" where
  "vHtInitIterator t = prvNextentry t \<lparr> it_pxNext = AtHead, ulBucket = 0 \<rparr>"

definition pxHtIteratorNext :: "'v hashtab_t \<Rightarrow> htIterator_t \<Rightarrow> (nat option \<times> htIterator_t) option" where
  "pxHtIteratorNext t it = do {
     it' \<leftarrow> prvNextentry t it;
     Some (case it_pxNext it of AtEntry e \<Rightarrow> Some e | _ \<Rightarrow> None, it') }"

section \<open>Creation\<close>

text \<open>The pool of hash tables, made when it is first needed.\<close>

definition initHashtabPool :: "bool \<Rightarrow> nat option \<Rightarrow> rsrc_world \<Rightarrow> (nat \<times> rsrc_world) option" where
  "initHashtabPool mem pool w =
     (case pool of
        Some k \<Rightarrow> Some (k, w)
      | None \<Rightarrow> do {
          (k, w) \<leftarrow> pxRsrcNewDynPool mem ''HashTables'' sizeof_hashtab_t 0 w;
          k \<leftarrow> k;
          Some (k, w) })"

definition pxHtNewHashTable ::
  "bool \<Rightarrow> bool \<Rightarrow> bool \<Rightarrow> bool \<Rightarrow> string \<Rightarrow> u32 \<Rightarrow> u32 \<Rightarrow> u32 \<Rightarrow> u32 \<Rightarrow> nat option \<Rightarrow> rsrc_world
   \<Rightarrow> ((nat \<times> 'v hashtab_t) option \<times> nat \<times> rsrc_world) option" where
  "pxHtNewHashTable mpool mtab mbuckets mentries nam ini mx inc nb pool w = do {
     (k, w) \<leftarrow> initHashtabPool mpool pool w;
     let inc = (if inc > htMAX_ALLOCSIZE then htMAX_ALLOCSIZE else inc);
     (tab, w) \<leftarrow> pxRsrcAlloc mtab k w;
     let nb = or nb 1;
     if sizeof_Link_t * unat nb \<ge> 2 ^ 32 then None
     else (case (tab, mbuckets) of
        (Some r, True) \<Rightarrow> do {
          (_, t) \<leftarrow> prvMorefree mentries ini
             \<lparr> pxBuckets = replicate (unat nb) [], ht_pxFreelist = [], pcTablename = nam, ulBucketCount = nb,
               ulMaxEntries = mx, ulCurEntries = 0, ulAllocSize = inc, ht_key = (\<lambda>_. KInt 0),
               ht_value = (\<lambda>_. None), next_entry = 0 \<rparr>;
          Some (Some (r, t), k, w) }
      | (tab, _) \<Rightarrow> do { w \<leftarrow> vRsrcFree tab w; Some (None, k, w) }) }"


section \<open>The invariant and the map of a table\<close>

definition ht_entries :: "'v hashtab_t \<Rightarrow> nat list" where
  "ht_entries t = concat (pxBuckets t)"

definition ht_map :: "'v hashtab_t \<Rightarrow> htkey \<Rightarrow> 'v option option" where
  "ht_map t k = map_option (ht_value t) (find (\<lambda>e. ht_key t e = k) (ht_entries t))"

text \<open>All keys of a table are of one kind, strings (\<open>s\<close>) or integers.  The entries of the
  heap are in the table or free; \<open>vHtEDelete\<close>, which loses an entry, breaks this.\<close>

definition ht_counts :: "'v hashtab_t \<Rightarrow> bool" where
  "ht_counts t \<longleftrightarrow> unat (ulCurEntries t) + length (ht_pxFreelist t) = next_entry t
     \<and> sizeof_hashent_t * next_entry t < 2 ^ 32
     \<and> (ulMaxEntries t \<noteq> 0 \<longrightarrow> next_entry t \<le> unat (ulMaxEntries t))
     \<and> ulAllocSize t \<le> htMAX_ALLOCSIZE"

definition ht_wf :: "bool \<Rightarrow> bool \<Rightarrow> 'v hashtab_t \<Rightarrow> bool" where
  "ht_wf sc s t \<longleftrightarrow> length (pxBuckets t) = unat (ulBucketCount t) \<and> ulBucketCount t \<noteq> 0
     \<and> (\<forall>b < length (pxBuckets t). \<forall>e \<in> set (pxBuckets t ! b).
          is_str (ht_key t e) = s \<and> bucketno sc (ht_key t e) t = b)
     \<and> distinct (ht_entries t @ ht_pxFreelist t)
     \<and> inj_on (ht_key t) (set (ht_entries t))
     \<and> (\<forall>e \<in> set (ht_entries t @ ht_pxFreelist t). e < next_entry t)
     \<and> length (ht_entries t) = unat (ulCurEntries t)
     \<and> ht_counts t"

lemma bucketno_less:
  assumes "ulBucketCount t \<noteq> 0"
  shows "bucketno sc k t < unat (ulBucketCount t)"
  using assms by (simp add: bucketno_def unat_mod word_neq_0_conv[symmetric] unat_gt_0)

lemma concat_upd_mset:
  assumes "b < length bs"
  shows "mset (concat (bs[b := xs])) + mset (bs ! b) = mset (concat bs) + mset xs"
proof -
  have "mset (concat bs) = mset (concat (take b bs)) + mset (bs ! b) + mset (concat (drop (Suc b) bs))"
    by (subst id_take_nth_drop[OF assms]) (simp add: ac_simps)
  then show ?thesis
    by (simp add: upd_conv_take_nth_drop[OF assms] ac_simps)
qed

lemma concat_push_mset:
  assumes "b < length bs"
  shows "mset (concat (bs[b := e # bs ! b])) = mset (e # concat bs)"
  using concat_upd_mset[OF assms, of "e # bs ! b"] by simp

lemma concat_remove_mset:
  assumes "b < length bs" "e \<in> set (bs ! b)"
  shows "mset (e # concat (bs[b := remove1 e (bs ! b)])) = mset (concat bs)"
proof -
  let ?n = "mset (remove1 e (bs ! b))" and ?x = "mset (concat (bs[b := remove1 e (bs ! b)]))"
  have m: "mset (bs ! b) = add_mset e ?n"
    using assms(2) by simp
  have "add_mset e ?x + ?n = ?x + mset (bs ! b)"
    unfolding m by simp
  also have "\<dots> = mset (concat bs) + ?n"
    using concat_upd_mset[OF assms(1), of "remove1 e (bs ! b)"] .
  finally have "add_mset e ?x = mset (concat bs)"
    by (rule add_right_imp_eq)
  then show ?thesis by simp
qed

lemma in_concat_bucket:
  "e \<in> set (concat bs) \<longleftrightarrow> (\<exists>b < length bs. e \<in> set (bs ! b))"
  by (auto simp: in_set_conv_nth) (metis nth_mem)+

lemma ht_scan_find:
  "\<forall>e \<in> set es. is_str (kf e) = is_str k \<Longrightarrow> ht_scan kf k es = Some (find (\<lambda>e. kf e = k) es)"
  by (induction es) auto

lemma find_unique:
  assumes "e \<in> set es" "P e" "\<And>x. x \<in> set es \<Longrightarrow> P x \<Longrightarrow> x = e"
  shows "find P es = Some e"
proof (cases "find P es")
  case None
  with assms(1,2) show ?thesis by (auto simp: find_None_iff)
next
  case (Some x)
  then have "x \<in> set es" "P x" by (auto simp: find_Some_iff)
  with assms(3) Some show ?thesis by simp
qed

lemma ht_map_Some:
  assumes "ht_wf sc s t" "e \<in> set (ht_entries t)"
  shows "ht_map t (ht_key t e) = Some (ht_value t e)"
proof -
  have "find (\<lambda>x. ht_key t x = ht_key t e) (ht_entries t) = Some e"
    by (rule find_unique) (use assms in \<open>auto simp: ht_wf_def dest: inj_onD\<close>)
  then show ?thesis by (simp add: ht_map_def)
qed

lemma ht_map_None_iff: "ht_map t k = None \<longleftrightarrow> k \<notin> ht_key t ` set (ht_entries t)"
  by (auto simp: ht_map_def find_None_iff)

lemma ht_map_eqI:
  assumes "ht_wf sc s t" "\<And>e. e \<in> set (ht_entries t) \<Longrightarrow> m (ht_key t e) = Some (ht_value t e)"
    "\<And>k. k \<notin> ht_key t ` set (ht_entries t) \<Longrightarrow> m k = None"
  shows "ht_map t = m"
proof
  fix k
  show "ht_map t k = m k"
  proof (cases "k \<in> ht_key t ` set (ht_entries t)")
    case True
    then show ?thesis using ht_map_Some[OF assms(1)] assms(2) by auto
  next
    case False
    then show ?thesis using assms(3) by (simp add: ht_map_None_iff[THEN iffD2])
  qed
qed

text \<open>The two outcomes of a look-up.\<close>

lemma ht_lookup_cases:
  assumes wf: "ht_wf sc s t" and k: "is_str k = s"
  obtains (found) e where "prvHashLookupCom sc k t = Some (bucketno sc k t, Some e)"
      "e \<in> set (pxBuckets t ! bucketno sc k t)" "e \<in> set (ht_entries t)" "ht_key t e = k"
      "ht_map t k = Some (ht_value t e)"
    | (absent) "prvHashLookupCom sc k t = Some (bucketno sc k t, None)" "ht_map t k = None"
proof -
  let ?b = "bucketno sc k t"
  have b: "?b < length (pxBuckets t)"
    using wf bucketno_less[of t sc k] by (simp add: ht_wf_def)
  then have "\<forall>e \<in> set (pxBuckets t ! ?b). is_str (ht_key t e) = is_str k"
    using wf k by (auto simp: ht_wf_def)
  then have l: "prvHashLookupCom sc k t = Some (?b, find (\<lambda>e. ht_key t e = k) (pxBuckets t ! ?b))"
    by (simp add: prvHashLookupCom_def ht_scan_find Let_def)
  show thesis
  proof (cases "find (\<lambda>e. ht_key t e = k) (pxBuckets t ! ?b)")
    case (Some e)
    then have e: "e \<in> set (pxBuckets t ! ?b)" "ht_key t e = k"
      by (auto simp: find_Some_iff)
    then have "e \<in> set (ht_entries t)"
      using b by (auto simp: ht_entries_def in_concat_bucket simp del: set_concat)
    with e show thesis
      using found[of e] l Some ht_map_Some[OF wf, of e] by simp
  next
    case None
    have "k \<notin> ht_key t ` set (ht_entries t)"
    proof
      assume "k \<in> ht_key t ` set (ht_entries t)"
      then obtain e i where "ht_key t e = k" "i < length (pxBuckets t)" "e \<in> set (pxBuckets t ! i)"
        by (auto simp: ht_entries_def in_concat_bucket simp del: set_concat)
      moreover from this wf have "bucketno sc k t = i"
        by (auto simp: ht_wf_def)
      ultimately show False
        using None by (auto simp: find_None_iff)
    qed
    then show thesis
      using absent l None by (simp add: ht_map_None_iff)
  qed
qed


section \<open>What the operations do to the map\<close>

lemma ht_wf_bucket: "ht_wf sc s t \<Longrightarrow> bucketno sc k t < length (pxBuckets t)"
  using bucketno_less[of t sc k] by (simp add: ht_wf_def)

lemma bucketno_cong: "ulBucketCount t' = ulBucketCount t \<Longrightarrow> bucketno sc k t' = bucketno sc k t"
  by (simp add: bucketno_def)

lemma get_val_map:
  assumes "ht_wf sc s t" "is_str k = s"
  shows "pvHtGetVal sc k t = Some (case ht_map t k of Some v \<Rightarrow> v | None \<Rightarrow> None)"
  using ht_lookup_cases[OF assms] by (cases) (simp_all add: pvHtGetVal_def)

lemma find_entry_map:
  assumes "ht_wf sc s t" "is_str k = s"
  shows "\<exists>r. pxHtFindEntry sc k t = Some r \<and> map_option (ht_value t) r = ht_map t k
    \<and> (\<forall>e. r = Some e \<longrightarrow> e \<in> set (ht_entries t) \<and> ht_key t e = k)"
  using ht_lookup_cases[OF assms] by (cases) (auto simp: pxHtFindEntry_def)

lemma set_value_map:
  fixes v :: "'v option"
  assumes wf: "ht_wf sc s t" and e: "e \<in> set (ht_entries t)"
  defines "t' \<equiv> t \<lparr> ht_value := (ht_value t)(e := v) \<rparr>"
  shows "ht_wf sc s t'" "ht_map t' = (ht_map t)(ht_key t e \<mapsto> v)"
proof -
  have s: "ht_entries t' = ht_entries t" "ht_key t' = ht_key t" "\<And>k. bucketno sc k t' = bucketno sc k t"
    by (simp_all add: t'_def ht_entries_def bucketno_def)
  show wf': "ht_wf sc s t'"
    using wf unfolding ht_wf_def s ht_counts_def by (simp add: t'_def)
  show "ht_map t' = (ht_map t)(ht_key t e \<mapsto> v)"
  proof (rule ht_map_eqI[OF wf'])
    fix x assume "x \<in> set (ht_entries t')"
    then have x: "x \<in> set (ht_entries t)" by (simp add: s)
    then have "ht_key t x = ht_key t e \<Longrightarrow> x = e"
      using wf e by (auto simp: ht_wf_def dest: inj_onD)
    then show "((ht_map t)(ht_key t e \<mapsto> v)) (ht_key t' x) = Some (ht_value t' x)"
      using ht_map_Some[OF wf x] by (auto simp: t'_def)
  next
    fix k assume "k \<notin> ht_key t' ` set (ht_entries t')"
    then show "((ht_map t)(ht_key t e \<mapsto> v)) k = None"
      using e by (auto simp: s ht_map_None_iff)
  qed
qed


lemma push_entries_eq:
  "push_entries n t = t \<lparr> ht_pxFreelist := rev [next_entry t..<next_entry t + n] @ ht_pxFreelist t,
                          next_entry := next_entry t + n \<rparr>"
proof (induction n arbitrary: t)
  case (Suc n)
  have "rev [next_entry t..<next_entry t + Suc n] = rev [Suc (next_entry t)..<Suc (next_entry t) + n] @ [next_entry t]"
    by (simp add: upt_conv_Cons)
  then show ?case by (simp add: Suc)
qed simp

lemma morefree_grows:
  assumes wf: "ht_wf sc s t" and run: "prvMorefree mem n t = Some (r, t')" and n: "n \<le> htMAX_ALLOCSIZE \<or> ulCurEntries t = 0"
    and full: "ht_pxFreelist t = []"
  shows "ht_wf sc s t'" "ht_map t' = ht_map t" "pxBuckets t' = pxBuckets t" "ht_key t' = ht_key t"
    "ht_value t' = ht_value t" "ulBucketCount t' = ulBucketCount t" "ulCurEntries t' = ulCurEntries t"
    "r \<noteq> 0 \<longrightarrow> r = ulAllocSize t \<and> length (ht_pxFreelist t') = unat n"
proof -
  have c: "ht_counts t" using wf by (simp add: ht_wf_def)
  have all: "t' = t \<or> (t' = push_entries (unat n) t \<and> r = ulAllocSize t
      \<and> (ulMaxEntries t = 0 \<or> ulCurEntries t + n \<le> ulMaxEntries t)
      \<and> sizeof_hashent_t * (next_entry t + unat n) < 2 ^ 32)"
    using run by (auto simp: prvMorefree_def split: if_splits)
  show eqs: "pxBuckets t' = pxBuckets t" "ht_key t' = ht_key t" "ht_value t' = ht_value t"
    "ulBucketCount t' = ulBucketCount t" "ulCurEntries t' = ulCurEntries t"
    using all by (auto simp: push_entries_eq)
  show "ht_map t' = ht_map t"
    unfolding ht_map_def ht_entries_def eqs ..
  show "r \<noteq> 0 \<longrightarrow> r = ulAllocSize t \<and> length (ht_pxFreelist t') = unat n"
    using run full by (auto simp: prvMorefree_def push_entries_eq split: if_splits)
  show "ht_wf sc s t'"
  proof (cases "t' = t")
    case False
    let ?q = "push_entries (unat n) t"
    have q: "t' = ?q" "ulMaxEntries t = 0 \<or> ulCurEntries t + n \<le> ulMaxEntries t"
        "sizeof_hashent_t * (next_entry t + unat n) < 2 ^ 32"
      using all False by auto
    have cur: "unat (ulCurEntries t) = next_entry t"
      using c full by (simp add: ht_counts_def)
    have "unat (ulCurEntries t + n) = unat (ulCurEntries t) + unat n"
      using q(3) cur by (intro unat_add_lem[THEN iffD1]) (simp add: sizeof_hashent_t_def)
    then have "ulMaxEntries t \<noteq> 0 \<longrightarrow> next_entry t + unat n \<le> unat (ulMaxEntries t)"
      using q(2) cur by (auto simp: word_le_nat_alt)
    then have c': "ht_counts ?q"
      using c q(3) full by (simp add: ht_counts_def push_entries_eq cur)
    have e: "ht_entries ?q = ht_entries t" "\<And>k. bucketno sc k ?q = bucketno sc k t"
        "ht_pxFreelist ?q = rev [next_entry t..<next_entry t + unat n]" "next_entry ?q = next_entry t + unat n"
      by (simp_all add: push_entries_eq ht_entries_def bucketno_def full)
    have lt: "\<And>x. x \<in> set (ht_entries t) \<Longrightarrow> x < next_entry t" and dt: "distinct (ht_entries t)"
      using wf by (simp_all add: ht_wf_def)
    have "distinct (ht_entries ?q @ ht_pxFreelist ?q)"
      unfolding e using dt by (auto dest: lt)
    moreover have "\<forall>x \<in> set (ht_entries ?q @ ht_pxFreelist ?q). x < next_entry ?q"
      unfolding e by (auto dest: lt)
    ultimately show ?thesis
      using wf c' unfolding q(1) by (simp add: ht_wf_def e) (simp add: push_entries_eq)
  qed (use wf in simp)
qed

lemma link_entry:
  fixes v :: "'v option"
  assumes wf: "ht_wf sc s t" and free: "ht_pxFreelist t = e # rest" and k: "is_str k = s" and new: "ht_map t k = None"
  defines "b \<equiv> bucketno sc k t"
  defines "t' \<equiv> t \<lparr> ht_pxFreelist := rest, ulCurEntries := ulCurEntries t + 1, ht_key := (ht_key t)(e := k),
    ht_value := (ht_value t)(e := v), pxBuckets := (pxBuckets t)[b := e # pxBuckets t ! b] \<rparr>"
  shows "ht_wf sc s t'" "ht_map t' = (ht_map t)(k \<mapsto> v)"
proof -
  have b: "b < length (pxBuckets t)"
    using ht_wf_bucket[OF wf] by (simp add: b_def)
  have m: "mset (ht_entries t') = mset (e # ht_entries t)"
    using concat_push_mset[OF b, of e] by (simp add: ht_entries_def t'_def del: mset_concat)
  then have st: "set (ht_entries t') = insert e (set (ht_entries t))"
    by (metis list.simps(15) set_mset_mset)
  have len: "length (ht_entries t') = Suc (length (ht_entries t))"
    using m by (metis length_Cons size_mset)
  have d: "distinct (e # ht_entries t @ rest)"
    using wf free by (auto simp: ht_wf_def)
  then have notin: "e \<notin> set (ht_entries t)" by simp
  have "mset (ht_entries t' @ rest) = mset (e # ht_entries t @ rest)"
    using m by simp
  then have d': "distinct (ht_entries t' @ rest)"
    using d mset_eq_imp_distinct_iff by blast
  have keys: "\<And>x. x \<in> set (ht_entries t) \<Longrightarrow> ht_key t' x = ht_key t x" "ht_key t' e = k"
      "\<And>x. x \<in> set (ht_entries t) \<Longrightarrow> ht_value t' x = ht_value t x" "ht_value t' e = v"
    using notin by (auto simp: t'_def)
  have bn: "\<And>k. bucketno sc k t' = bucketno sc k t"
    by (simp add: t'_def bucketno_def)
  have kn: "k \<notin> ht_key t ` set (ht_entries t)"
    using new by (simp add: ht_map_None_iff)
  have c: "ht_counts t" "next_entry t < 2 ^ 31"
    using wf by (auto simp: ht_wf_def ht_counts_def sizeof_hashent_t_def)
  then have un: "unat (ulCurEntries t + 1) = Suc (unat (ulCurEntries t))"
    using free unat_add_lem[of "ulCurEntries t" 1] by (simp add: ht_counts_def)
  have c': "ht_counts t'"
    using c(1) free un by (simp add: ht_counts_def t'_def)
  have "length (ht_entries t) = unat (ulCurEntries t)"
    using wf by (simp add: ht_wf_def)
  then have c2: "length (ht_entries t') = unat (ulCurEntries t')"
    unfolding len using un by (simp add: t'_def)
  have inj: "inj_on (ht_key t') (set (ht_entries t'))"
  proof -
    have "inj_on (ht_key t) (set (ht_entries t))" using wf by (simp add: ht_wf_def)
    then have "inj_on (ht_key t') (set (ht_entries t))"
      using inj_on_cong[of "set (ht_entries t)" "ht_key t'" "ht_key t"] keys(1) by simp
    moreover have "ht_key t' ` set (ht_entries t) = ht_key t ` set (ht_entries t)"
      using keys(1) by (intro image_cong) simp_all
    ultimately show ?thesis
      unfolding st using kn keys(2) by auto
  qed
  have bk: "is_str (ht_key t' x) = s \<and> bucketno sc (ht_key t' x) t' = i"
    if i: "i < length (pxBuckets t')" and x: "x \<in> set (pxBuckets t' ! i)" for i x
  proof -
    have "x = e \<and> i = b \<or> x \<in> set (pxBuckets t ! i)"
      using i x b by (auto simp: t'_def nth_list_update split: if_splits)
    then show ?thesis
    proof
      assume "x \<in> set (pxBuckets t ! i)"
      moreover from this have "x \<in> set (ht_entries t)"
        using i by (auto simp: ht_entries_def in_concat_bucket t'_def simp del: set_concat)
      moreover have "i < length (pxBuckets t)" using i by (simp add: t'_def)
      ultimately show ?thesis
        using wf keys(1) unfolding bn by (simp add: ht_wf_def)
    qed (use k keys in \<open>auto simp: bn b_def\<close>)
  qed
  show wf': "ht_wf sc s t'"
    unfolding ht_wf_def
  proof (intro conjI)
    show "length (pxBuckets t') = unat (ulBucketCount t')" "ulBucketCount t' \<noteq> 0"
      using wf by (auto simp: t'_def ht_wf_def)
    show "\<forall>i<length (pxBuckets t'). \<forall>x\<in>set (pxBuckets t' ! i). is_str (ht_key t' x) = s \<and> bucketno sc (ht_key t' x) t' = i"
      using bk by blast
    show "distinct (ht_entries t' @ ht_pxFreelist t')"
      using d' by (simp add: t'_def)
    have "\<forall>x\<in>set (ht_entries t @ ht_pxFreelist t). x < next_entry t"
      using wf by (simp add: ht_wf_def)
    then show "\<forall>x\<in>set (ht_entries t' @ ht_pxFreelist t'). x < next_entry t'"
      unfolding set_append st using free by (auto simp: t'_def)
  qed (use inj c' c2 in simp_all)
  show "ht_map t' = (ht_map t)(k \<mapsto> v)"
  proof (rule ht_map_eqI[OF wf'])
    fix x assume x: "x \<in> set (ht_entries t')"
    show "((ht_map t)(k \<mapsto> v)) (ht_key t' x) = Some (ht_value t' x)"
    proof (cases "x = e")
      case False
      then have x: "x \<in> set (ht_entries t)" using x st by simp
      then have "ht_key t x \<noteq> k" using kn by auto
      then show ?thesis using ht_map_Some[OF wf x] keys(1,3)[OF x] by simp
    qed (simp add: keys)
  next
    fix j assume "j \<notin> ht_key t' ` set (ht_entries t')"
    then have "j \<noteq> k" "j \<notin> ht_key t ` set (ht_entries t)"
      using keys(1,2) by (auto simp: st)
    then show "((ht_map t)(k \<mapsto> v)) j = None" by (simp add: ht_map_None_iff)
  qed
qed


lemma unlink_entry:
  assumes wf: "ht_wf sc s t" and e: "e \<in> set (pxBuckets t ! bucketno sc (ht_key t e) t)"
  defines "b \<equiv> bucketno sc (ht_key t e) t"
  defines "t' \<equiv> prvFreehashent e (t \<lparr> pxBuckets := (pxBuckets t)[b := remove1 e (pxBuckets t ! b)] \<rparr>)"
  shows "ht_wf sc s t'" "ht_map t' = (ht_map t)(ht_key t e := None)"
    "mset (ht_entries t) = mset (e # ht_entries t')" "ht_key t' = ht_key t" "ht_pxFreelist t' = e # ht_pxFreelist t"
    "ulCurEntries t' = ulCurEntries t - 1" "next_entry t' = next_entry t"
proof -
  have b: "b < length (pxBuckets t)"
    using ht_wf_bucket[OF wf] by (simp add: b_def)
  have f: "ht_key t' = ht_key t" "ht_value t' = ht_value t" "ht_pxFreelist t' = e # ht_pxFreelist t"
      "ulCurEntries t' = ulCurEntries t - 1" "next_entry t' = next_entry t" "ulMaxEntries t' = ulMaxEntries t"
      "ulAllocSize t' = ulAllocSize t" "ulBucketCount t' = ulBucketCount t"
      "pxBuckets t' = (pxBuckets t)[b := remove1 e (pxBuckets t ! b)]" "\<And>k. bucketno sc k t' = bucketno sc k t"
    by (simp_all add: t'_def prvFreehashent_def bucketno_def)
  show "ht_key t' = ht_key t" "ht_pxFreelist t' = e # ht_pxFreelist t" "ulCurEntries t' = ulCurEntries t - 1"
    "next_entry t' = next_entry t"
    by (rule f)+
  show m: "mset (ht_entries t) = mset (e # ht_entries t')"
    unfolding ht_entries_def f using concat_remove_mset[OF b, of e] e by (simp add: b_def del: mset_concat)
  then have st: "set (ht_entries t) = insert e (set (ht_entries t'))"
    by (metis list.simps(15) set_mset_mset)
  have len: "length (ht_entries t) = Suc (length (ht_entries t'))"
    using m by (metis length_Cons size_mset)
  have d: "distinct (e # ht_entries t' @ ht_pxFreelist t)"
  proof -
    have "mset (e # ht_entries t' @ ht_pxFreelist t) = mset (ht_entries t @ ht_pxFreelist t)"
      using m by simp
    moreover have "distinct (ht_entries t @ ht_pxFreelist t)"
      using wf by (simp add: ht_wf_def)
    ultimately show ?thesis
      using mset_eq_imp_distinct_iff by blast
  qed
  have inj: "inj_on (ht_key t) (set (ht_entries t))" and le: "length (ht_entries t) = unat (ulCurEntries t)"
    and c: "ht_counts t"
    using wf by (simp_all add: ht_wf_def)
  have "ulCurEntries t \<noteq> 0" using le len by auto
  then have un: "unat (ulCurEntries t) = Suc (unat (ulCurEntries t - 1))"
    by (simp add: unat_minus_one) (metis Suc_pred unat_gt_0)
  have bk: "is_str (ht_key t x) = s \<and> bucketno sc (ht_key t x) t = i"
    if i: "i < length (pxBuckets t')" and x: "x \<in> set (pxBuckets t' ! i)" for i x
  proof -
    have "x \<in> set (pxBuckets t ! i)" "i < length (pxBuckets t)"
      using i x by (cases "i = b"; auto simp: f dest: set_remove1_subset[THEN subsetD])+
    then show ?thesis using wf by (simp add: ht_wf_def)
  qed
  show wf': "ht_wf sc s t'"
    unfolding ht_wf_def
  proof (intro conjI)
    show "length (pxBuckets t') = unat (ulBucketCount t')" "ulBucketCount t' \<noteq> 0"
      using wf by (simp_all add: f ht_wf_def)
    show "\<forall>i<length (pxBuckets t'). \<forall>x\<in>set (pxBuckets t' ! i). is_str (ht_key t' x) = s \<and> bucketno sc (ht_key t' x) t' = i"
      using bk by (simp add: f)
    show "distinct (ht_entries t' @ ht_pxFreelist t')"
      using d by (simp add: f)
    show "inj_on (ht_key t') (set (ht_entries t'))"
      using inj unfolding st f by simp
    have "\<forall>x\<in>set (ht_entries t @ ht_pxFreelist t). x < next_entry t"
      using wf by (simp add: ht_wf_def)
    then show "\<forall>x\<in>set (ht_entries t' @ ht_pxFreelist t'). x < next_entry t'"
      unfolding set_append st by (simp add: f)
    show "length (ht_entries t') = unat (ulCurEntries t')"
      using le len un by (simp add: f)
    show "ht_counts t'"
      using c un by (simp add: ht_counts_def f)
  qed
  show "ht_map t' = (ht_map t)(ht_key t e := None)"
  proof (rule ht_map_eqI[OF wf'])
    fix x assume "x \<in> set (ht_entries t')"
    then have "x \<in> set (ht_entries t)" "x \<noteq> e" "e \<in> set (ht_entries t)"
      using d st by auto
    then show "((ht_map t)(ht_key t e := None)) (ht_key t' x) = Some (ht_value t' x)"
      using ht_map_Some[OF wf, of x] inj_onD[OF inj, of x e] by (auto simp: f)
  next
    fix k assume "k \<notin> ht_key t' ` set (ht_entries t')"
    then show "((ht_map t)(ht_key t e := None)) k = None"
      by (auto simp: f st ht_map_None_iff)
  qed
qed

text \<open>Whether there is an entry for a new key: a free one, or room to grow.\<close>

definition ht_room :: "bool \<Rightarrow> 'v hashtab_t \<Rightarrow> bool" where
  "ht_room mem t \<longleftrightarrow> ht_pxFreelist t \<noteq> []
     \<or> mem \<and> ulAllocSize t \<noteq> 0 \<and> sizeof_hashent_t * (next_entry t + unat (ulAllocSize t)) < 2 ^ 32
       \<and> (ulMaxEntries t = 0 \<or> next_entry t + unat (ulAllocSize t) \<le> unat (ulMaxEntries t))"

lemma new_entry_cases:
  assumes wf: "ht_wf sc s t"
  shows "if ht_room mem t
    then \<exists>t0. prvNewhashent mem t = take_entry t0 \<and> ht_wf sc s t0 \<and> ht_map t0 = ht_map t
      \<and> pxBuckets t0 = pxBuckets t \<and> ulBucketCount t0 = ulBucketCount t \<and> ht_pxFreelist t0 \<noteq> []
    else prvNewhashent mem t = None"
proof (cases "ht_pxFreelist t = []")
  case True
  have c: "ht_counts t" and al: "ulAllocSize t \<le> htMAX_ALLOCSIZE"
    using wf by (simp_all add: ht_wf_def ht_counts_def)
  then have nx: "next_entry t = unat (ulCurEntries t)" "sizeof_hashent_t * next_entry t < 2 ^ 32"
    using True by (simp_all add: ht_counts_def)
  have al': "unat (ulAllocSize t) \<le> 65535"
    using al by (simp add: htMAX_ALLOCSIZE_def word_le_nat_alt)
  have sum: "unat (ulCurEntries t + ulAllocSize t) = next_entry t + unat (ulAllocSize t)"
    using nx al' unat_add_lem[of "ulCurEntries t" "ulAllocSize t"] by (simp add: sizeof_hashent_t_def)
  have grow: "prvMorefree mem (ulAllocSize t) t =
      (if ulMaxEntries t \<noteq> 0 \<and> next_entry t + unat (ulAllocSize t) > unat (ulMaxEntries t) then Some (0, t)
       else if \<not> mem \<or> sizeof_hashent_t * (next_entry t + unat (ulAllocSize t)) \<ge> 2 ^ 32 then Some (0, t)
       else Some (ulAllocSize t, push_entries (unat (ulAllocSize t)) t))"
    using al' sum by (simp add: prvMorefree_def word_less_nat_alt sizeof_hashent_t_def)
  show ?thesis
  proof (cases "ht_room mem t")
    case room: True
    let ?t = "push_entries (unat (ulAllocSize t)) t"
    have run: "prvMorefree mem (ulAllocSize t) t = Some (ulAllocSize t, ?t)" and nz: "ulAllocSize t \<noteq> 0"
      using room True unfolding grow by (auto simp: ht_room_def not_less)
    have g: "ht_wf sc s ?t" "ht_map ?t = ht_map t" "pxBuckets ?t = pxBuckets t" "ulBucketCount ?t = ulBucketCount t"
        "length (ht_pxFreelist ?t) = unat (ulAllocSize t)"
      using morefree_grows[OF wf run] al True nz by simp_all
    have "prvNewhashent mem t = take_entry ?t"
      using True run nz by (simp add: prvNewhashent_def)
    moreover have "ht_pxFreelist ?t \<noteq> []"
      using g(5) nz by (auto simp: unat_eq_0)
    ultimately show ?thesis
      using room g by auto
  next
    case False
    then show ?thesis
      using True by (auto simp: prvNewhashent_def grow ht_room_def not_less)
  qed
next
  case False
  then show ?thesis
    using wf by (auto simp: ht_room_def prvNewhashent_def)
qed

lemma add_val_map:
  assumes wf: "ht_wf sc s t" and k: "is_str k = s"
  shows "case ht_map t k of
      Some _ \<Rightarrow> \<exists>t'. prvHtISAddVal sc mem ov k v t = Some (ov, t') \<and> ht_wf sc s t'
        \<and> ht_map t' = (if ov then (ht_map t)(k \<mapsto> v) else ht_map t)
    | None \<Rightarrow> if ht_room mem t
        then \<exists>t'. prvHtISAddVal sc mem ov k v t = Some (True, t') \<and> ht_wf sc s t' \<and> ht_map t' = (ht_map t)(k \<mapsto> v)
        else prvHtISAddVal sc mem ov k v t = None"
  using wf k
proof (cases rule: ht_lookup_cases)
  case (found e)
  then show ?thesis
    using set_value_map[OF wf found(3), of v] wf by (auto simp: prvHtISAddVal_def)
next
  case absent
  show ?thesis
  proof (cases "ht_room mem t")
    case True
    then obtain t0 where t0: "prvNewhashent mem t = take_entry t0" "ht_wf sc s t0" "ht_map t0 = ht_map t"
        "pxBuckets t0 = pxBuckets t" "ulBucketCount t0 = ulBucketCount t" "ht_pxFreelist t0 \<noteq> []"
      using new_entry_cases[OF wf, of mem] by auto
    then obtain e rest where e: "ht_pxFreelist t0 = e # rest" by (cases "ht_pxFreelist t0") auto
    have bn: "bucketno sc k t = bucketno sc k t0"
      using t0(5) by (simp add: bucketno_def)
    note l = link_entry[OF t0(2) e k, of v]
    have "ht_map t0 k = None" using absent t0 by simp
    note l = l[OF this]
    show ?thesis
      using True absent l t0 e bn by (auto simp: prvHtISAddVal_def take_entry_def)
  next
    case False
    then show ?thesis
      using new_entry_cases[OF wf, of mem] absent by (simp add: prvHtISAddVal_def)
  qed
qed

lemma delete_map:
  assumes wf: "ht_wf sc s t" and k: "is_str k = s"
  shows "\<exists>t'. iHtISDelete sc k t = Some (ht_map t k \<noteq> None, t') \<and> ht_wf sc s t' \<and> ht_map t' = (ht_map t)(k := None)"
  using wf k
proof (cases rule: ht_lookup_cases)
  case (found e)
  then show ?thesis
    using unlink_entry[OF wf, of e] by (auto simp: iHtISDelete_def)
next
  case absent
  then show ?thesis
    using wf by (auto simp: iHtISDelete_def fun_upd_idem)
qed


section \<open>Stores of values\<close>

text \<open>What a client may rely on: operations that answer like those of a map, as long as
  they are defined.\<close>

datatype ('k, 'v) map_op = OpAdd bool 'k 'v | OpSet bool 'k 'v | OpDel 'k

fun op_key :: "('k, 'v) map_op \<Rightarrow> 'k" where
  "op_key (OpAdd _ k _) = k"
| "op_key (OpSet _ k _) = k"
| "op_key (OpDel k) = k"

fun map_step :: "('k, 'v) map_op \<Rightarrow> ('k \<rightharpoonup> 'v) \<Rightarrow> bool \<times> ('k \<rightharpoonup> 'v)" where
  "map_step (OpAdd _ k v) m = (if m k = None then (True, m(k \<mapsto> v)) else (False, m))"
| "map_step (OpSet _ k v) m = (True, m(k \<mapsto> v))"
| "map_step (OpDel k) m = (m k \<noteq> None, m(k := None))"

fun map_steps :: "('k, 'v) map_op list \<Rightarrow> ('k \<rightharpoonup> 'v) \<Rightarrow> bool list \<times> ('k \<rightharpoonup> 'v)" where
  "map_steps [] m = ([], m)"
| "map_steps (a # as) m = (case map_step a m of (r, m) \<Rightarrow> case map_steps as m of (rs, m) \<Rightarrow> (r # rs, m))"

fun store_steps ::
  "(('k, 'v) map_op \<Rightarrow> 't \<Rightarrow> (bool \<times> 't) option) \<Rightarrow> ('k, 'v) map_op list \<Rightarrow> 't \<Rightarrow> (bool list \<times> 't) option" where
  "store_steps f [] t = Some ([], t)"
| "store_steps f (a # as) t = do {
     (r, t) \<leftarrow> f a t;
     (rs, t) \<leftarrow> store_steps f as t;
     Some (r # rs, t) }"

locale value_store =
  fixes wf :: "'t \<Rightarrow> bool"
    and ok :: "'k \<Rightarrow> bool"
    and look :: "'t \<Rightarrow> 'k \<Rightarrow> 'v option"
    and step :: "('k, 'v) map_op \<Rightarrow> 't \<Rightarrow> (bool \<times> 't) option"
  assumes step_map: "\<lbrakk>wf t; ok (op_key a); step a t = Some (r, t')\<rbrakk> \<Longrightarrow> wf t' \<and> map_step a (look t) = (r, look t')"
begin

lemma steps_map:
  "\<lbrakk>wf t; \<forall>a \<in> set as. ok (op_key a); store_steps step as t = Some (rs, t')\<rbrakk>
   \<Longrightarrow> wf t' \<and> map_steps as (look t) = (rs, look t')"
proof (induction as arbitrary: t rs)
  case (Cons a as)
  from Cons.prems(3) obtain r t1 rs1 where run: "step a t = Some (r, t1)" "store_steps step as t1 = Some (rs1, t')"
      "rs = r # rs1"
    by (auto simp: bind_eq_Some_conv)
  with step_map[OF Cons.prems(1) _ run(1)] Cons.prems(2) have "wf t1" "map_step a (look t) = (r, look t1)"
    by auto
  with Cons.IH[OF this(1) _ run(2)] Cons.prems(2) run(3) show ?case by simp
qed simp

end

fun ht_step :: "bool \<Rightarrow> (htkey, 'v option) map_op \<Rightarrow> 'v hashtab_t \<Rightarrow> (bool \<times> 'v hashtab_t) option" where
  "ht_step sc (OpAdd mem k v) t = iHtAddVal sc mem k v t"
| "ht_step sc (OpSet mem k v) t = iHtSetVal sc mem k v t"
| "ht_step sc (OpDel k) t = iHtISDelete sc k t"

interpretation ht_store: value_store "ht_wf sc s" "\<lambda>k. is_str k = s" ht_map "ht_step sc" for sc s
proof
  fix t :: "'v hashtab_t" and a r t'
  assume a: "ht_wf sc s t" "is_str (op_key a) = s" "ht_step sc a t = Some (r, t')"
  show "ht_wf sc s t' \<and> map_step a (ht_map t) = (r, ht_map t')"
  proof (cases a)
    case (OpAdd mem k v)
    then show ?thesis
      using a add_val_map[OF a(1), of k mem False v] by (auto simp: iHtAddVal_def split: option.splits if_splits)
  next
    case (OpSet mem k v)
    then show ?thesis
      using a add_val_map[OF a(1), of k mem True v] by (auto simp: iHtSetVal_def split: option.splits if_splits)
  next
    case (OpDel k)
    then show ?thesis
      using a delete_map[OF a(1), of k] by auto
  qed
qed

section \<open>A new table\<close>

lemma or_1_nz: "or (n::u32) 1 \<noteq> 0"
proof
  assume "or n 1 = 0"
  then have "bit (or n 1) 0 = bit (0::u32) 0" by (rule arg_cong)
  then show False by (simp add: bit_or_iff)
qed

lemma new_table_wf:
  fixes t :: "'v hashtab_t"
  assumes "pxHtNewHashTable mp mt mb me nam ini mx inc nb pool w = Some (Some (r, t), k, w')"
  shows "ht_wf sc s t" "ht_map t = Map.empty" "ulMaxEntries t = mx"
    "ulAllocSize t = min inc htMAX_ALLOCSIZE" "ulBucketCount t = or nb 1"
proof -
  let ?t0 = "\<lparr> pxBuckets = replicate (unat (or nb 1)) [], ht_pxFreelist = [], pcTablename = nam, ulBucketCount = or nb 1,
       ulMaxEntries = mx, ulCurEntries = 0, ulAllocSize = if inc > htMAX_ALLOCSIZE then htMAX_ALLOCSIZE else inc,
       ht_key = (\<lambda>_. KInt 0), ht_value = (\<lambda>_. None), next_entry = 0 \<rparr> :: 'v hashtab_t"
  obtain q where run: "prvMorefree me ini ?t0 = Some (q, t)"
    using assms by (auto simp: pxHtNewHashTable_def Let_def bind_eq_Some_conv split: if_splits option.splits bool.splits)
  have wf0: "ht_wf sc s ?t0"
    by (auto simp: ht_wf_def ht_counts_def ht_entries_def or_1_nz htMAX_ALLOCSIZE_def not_less)
  note g = morefree_grows[OF wf0 run]
  show "ht_wf sc s t" "ulBucketCount t = or nb 1" using g by simp_all
  show "ht_map t = Map.empty" using g by (auto simp: ht_map_def ht_entries_def)
  show "ulMaxEntries t = mx" "ulAllocSize t = min inc htMAX_ALLOCSIZE"
    using run by (auto simp: prvMorefree_def push_entries_eq min_def split: if_splits)
qed


section \<open>Iterating\<close>

text \<open>What an iterator still has to visit.\<close>

definition it_ok :: "'v hashtab_t \<Rightarrow> htIterator_t \<Rightarrow> nat list \<Rightarrow> bool" where
  "it_ok t it xs \<longleftrightarrow> (case it_pxNext it of
     AtHead \<Rightarrow> False
   | AtNull \<Rightarrow> xs = [] \<and> ulBucket it = length (pxBuckets t)
   | AtEntry e \<Rightarrow> ulBucket it < length (pxBuckets t) \<and> (\<exists>r. after e (pxBuckets t ! ulBucket it) = Some r
       \<and> xs = e # r @ concat (drop (Suc (ulBucket it)) (pxBuckets t))))"

lemma after_set: "after e xs = Some r \<Longrightarrow> insert e (set r) \<subseteq> set xs"
  by (induction xs) (auto split: if_splits)

lemma after_suffix:
  "\<lbrakk>distinct xs; after e xs = Some (x # r)\<rbrakk> \<Longrightarrow> after x xs = Some r"
  by (induction xs) (auto split: if_splits dest: after_set)

lemma after_remove:
  "\<lbrakk>distinct xs; after e xs = Some r; d \<notin> set (e # r)\<rbrakk> \<Longrightarrow> after e (remove1 d xs) = Some r"
  by (induction xs) (auto split: if_splits simp: remove1_idem)

lemma chain_rest_next:
  "\<lbrakk>distinct xs; chain_rest p xs = Some (x # r)\<rbrakk> \<Longrightarrow> after x xs = Some r"
  by (cases p) (auto intro: after_suffix)

lemma next_entry_runs:
  assumes "length (pxBuckets t) = unat (ulBucketCount t)" "distinct (concat (pxBuckets t))"
    "b < length (pxBuckets t)" "chain_rest p (pxBuckets t ! b) = Some xs"
  shows "\<exists>it. next_entry_loop t p b = Some it \<and> it_ok t it (xs @ concat (drop (Suc b) (pxBuckets t)))"
  using assms(3,4)
proof (induction "length (pxBuckets t) - b" arbitrary: b p xs rule: less_induct)
  case less
  have d: "distinct (pxBuckets t ! b)"
    using assms(2) less.prems(1) by (simp add: distinct_concat_iff)
  show ?case
  proof (cases xs)
    case (Cons x r)
    then show ?thesis
      using less.prems chain_rest_next[OF d, of p x r] assms(1)
      by (subst next_entry_loop.simps) (auto simp: it_ok_def)
  next
    case Nil
    show ?thesis
    proof (cases "b + 1 < length (pxBuckets t)")
      case True
      have "drop (Suc b) (pxBuckets t) = pxBuckets t ! Suc b # drop (Suc (Suc b)) (pxBuckets t)"
        using True by (simp add: Cons_nth_drop_Suc)
      then show ?thesis
        using less.hyps[of "Suc b" AtHead "pxBuckets t ! Suc b"] less.prems True Nil assms(1)
        by (subst next_entry_loop.simps) auto
    next
      case False
      have "next_entry_loop t p (Suc b) = Some \<lparr> it_pxNext = AtNull, ulBucket = Suc b \<rparr>"
        using False assms(1) by (subst next_entry_loop.simps) simp
      then show ?thesis
        using less.prems False Nil assms(1) by (subst next_entry_loop.simps) (auto simp: it_ok_def)
    qed
  qed
qed

lemma iterator_init:
  assumes wf: "ht_wf sc s t"
  shows "\<exists>it. vHtInitIterator t = Some it \<and> it_ok t it (ht_entries t)"
proof -
  have b: "0 < length (pxBuckets t)" "length (pxBuckets t) = unat (ulBucketCount t)" "distinct (concat (pxBuckets t))"
    using wf by (auto simp: ht_wf_def ht_entries_def unat_gt_0)
  have "ht_entries t = pxBuckets t ! 0 @ concat (drop (Suc 0) (pxBuckets t))"
    using b(1) by (cases "pxBuckets t") (simp_all add: ht_entries_def)
  then show ?thesis
    using next_entry_runs[OF b(2,3,1), of AtHead] by (simp add: vHtInitIterator_def prvNextentry_def)
qed

lemma iterator_next:
  assumes wf: "ht_wf sc s t" and it: "it_ok t it xs"
  shows "case xs of
      [] \<Rightarrow> \<exists>it'. pxHtIteratorNext t it = Some (None, it')
    | x # r \<Rightarrow> \<exists>it'. pxHtIteratorNext t it = Some (Some x, it') \<and> it_ok t it' r
        \<and> x \<in> set (ht_entries t)"
proof -
  have b: "length (pxBuckets t) = unat (ulBucketCount t)" "distinct (concat (pxBuckets t))"
    using wf by (auto simp: ht_wf_def ht_entries_def)
  show ?thesis
  proof (cases "it_pxNext it")
    case AtNull
    then show ?thesis
      using it b(1) by (auto simp: it_ok_def pxHtIteratorNext_def prvNextentry_def next_entry_loop.simps)
  next
    case (AtEntry e)
    then obtain r where r: "after e (pxBuckets t ! ulBucket it) = Some r" "ulBucket it < length (pxBuckets t)"
        "xs = e # r @ concat (drop (Suc (ulBucket it)) (pxBuckets t))"
      using it by (auto simp: it_ok_def)
    have "e \<in> set (pxBuckets t ! ulBucket it)"
      using after_set[OF r(1)] by simp
    then have "e \<in> set (ht_entries t)"
      using r(2) by (auto simp: ht_entries_def in_concat_bucket simp del: set_concat)
    moreover have "\<exists>it'. next_entry_loop t (AtEntry e) (ulBucket it) = Some it'
        \<and> it_ok t it' (r @ concat (drop (Suc (ulBucket it)) (pxBuckets t)))"
      by (rule next_entry_runs[OF b r(2)]) (simp add: r(1))
    ultimately show ?thesis
      using AtEntry r(3) by (auto simp: pxHtIteratorNext_def prvNextentry_def)
  qed (use it in \<open>simp add: it_ok_def\<close>)
qed

lemma iterator_after_delete:
  assumes d: "distinct (concat (pxBuckets t))" and b: "b < length (pxBuckets t)" "e \<in> set (pxBuckets t ! b)"
    and it: "it_ok t it xs" and e: "e \<notin> set xs"
    and t': "pxBuckets t' = (pxBuckets t)[b := remove1 e (pxBuckets t ! b)]"
  shows "it_ok t' it xs"
proof (cases "it_pxNext it")
  case (AtEntry x)
  let ?i = "ulBucket it"
  obtain r where r: "after x (pxBuckets t ! ?i) = Some r" "?i < length (pxBuckets t)"
      "xs = x # r @ concat (drop (Suc ?i) (pxBuckets t))"
    using it AtEntry by (auto simp: it_ok_def)
  have "b \<le> ?i"
  proof (rule ccontr)
    assume "\<not> b \<le> ?i"
    then have "drop (Suc ?i) (pxBuckets t) ! (b - Suc ?i) = pxBuckets t ! b" "b - Suc ?i < length (drop (Suc ?i) (pxBuckets t))"
      using b by auto
    then have "e \<in> set (concat (drop (Suc ?i) (pxBuckets t)))"
      using b(2) by (metis in_concat_bucket)
    then show False using e r(3) by simp
  qed
  then have dr: "drop (Suc ?i) (pxBuckets t') = drop (Suc ?i) (pxBuckets t)"
    by (simp add: t')
  have "distinct (pxBuckets t ! ?i)"
    using d r(2) by (simp add: distinct_concat_iff)
  then have "after x (pxBuckets t' ! ?i) = Some r"
    using after_remove[of "pxBuckets t ! ?i" x r e] r e b(1) by (cases "?i = b") (auto simp: t')
  then show ?thesis
    using AtEntry r dr by (simp add: it_ok_def t')
qed (use it in \<open>simp_all add: it_ok_def t'\<close>)

text \<open>The loop \<open>htFOREACH\<close>, with a body that deletes the entry it is at, or leaves it.\<close>

primrec ht_foreach :: "nat \<Rightarrow> bool \<Rightarrow> bool \<Rightarrow> 'v hashtab_t \<Rightarrow> htIterator_t \<Rightarrow> (nat list \<times> 'v hashtab_t) option" where
  "ht_foreach 0 sc del t it = None"
| "ht_foreach (Suc n) sc del t it = do {
     (e, it) \<leftarrow> pxHtIteratorNext t it;
     (case e of
        None \<Rightarrow> Some ([], t)
      | Some e \<Rightarrow> do {
          t \<leftarrow> (if del then do { (_, t) \<leftarrow> iHtISDelete sc (ht_key t e) t; Some t } else Some t);
          (es, t) \<leftarrow> ht_foreach n sc del t it;
          Some (e # es, t) }) }"

lemma foreach_visits:
  "\<lbrakk>ht_wf sc s t; it_ok t it xs; distinct xs; set xs \<subseteq> set (ht_entries t); length xs < n\<rbrakk> \<Longrightarrow>
   \<exists>t'. ht_foreach n sc del t it = Some (xs, t') \<and> ht_wf sc s t' \<and> ht_key t' = ht_key t
     \<and> (if del then ht_map t' = ht_map t |` (- ht_key t ` set xs) \<and> next_entry t' = next_entry t else t' = t)"
proof (induction n arbitrary: t it xs)
  case (Suc n)
  show ?case
  proof (cases xs)
    case Nil
    then show ?thesis
      using iterator_next[OF Suc.prems(1,2)] Suc.prems(1) by auto
  next
    case (Cons x r)
    obtain it' where it': "pxHtIteratorNext t it = Some (Some x, it')" "it_ok t it' r" "x \<in> set (ht_entries t)"
      using iterator_next[OF Suc.prems(1,2)] Cons by auto
    have k: "is_str (ht_key t x) = s"
      using Suc.prems(1) it'(3) by (auto simp: ht_wf_def ht_entries_def in_concat_bucket simp del: set_concat)
    show ?thesis
    proof (cases del)
      case False
      then show ?thesis
        using Suc.IH[OF Suc.prems(1) it'(2)] Suc.prems Cons it'(1) by auto
    next
      case True
      let ?b = "bucketno sc (ht_key t x) t"
      let ?t = "prvFreehashent x (t \<lparr> pxBuckets := (pxBuckets t)[?b := remove1 x (pxBuckets t ! ?b)] \<rparr>)"
      have inj: "inj_on (ht_key t) (set (ht_entries t))" using Suc.prems(1) by (simp add: ht_wf_def)
      obtain i where "i < length (pxBuckets t)" "x \<in> set (pxBuckets t ! i)"
        using it'(3) by (auto simp: ht_entries_def in_concat_bucket simp del: set_concat)
      moreover from this have "?b = i" using Suc.prems(1) by (simp add: ht_wf_def)
      ultimately have xb: "?b < length (pxBuckets t)" "x \<in> set (pxBuckets t ! ?b)" by simp_all
      have "iHtISDelete sc (ht_key t x) t = Some (True, ?t)"
      proof (cases rule: ht_lookup_cases[OF Suc.prems(1) k])
        case (1 e)
        then have "e = x" using inj_onD[OF inj 1(4) 1(3) it'(3)] by simp
        then show ?thesis using 1(1) by (simp add: iHtISDelete_def)
      next
        case 2
        then show ?thesis using ht_map_Some[OF Suc.prems(1) it'(3)] by simp
      qed
      note u = unlink_entry[OF Suc.prems(1) xb(2)]
      have it2: "it_ok ?t it' r"
        by (rule iterator_after_delete[OF _ xb it'(2)])
          (use Suc.prems Cons in \<open>auto simp: ht_wf_def ht_entries_def prvFreehashent_def\<close>)
      have "set r \<subseteq> set (ht_entries ?t)"
      proof
        fix y assume y: "y \<in> set r"
        then have "y \<in> set (ht_entries t)" "y \<noteq> x" using Suc.prems(3,4) Cons by auto
        then show "y \<in> set (ht_entries ?t)"
          using arg_cong[OF u(3), of set_mset] by auto
      qed
      then obtain t' where "ht_foreach n sc del ?t it' = Some (r, t')" "ht_wf sc s t'" "ht_key t' = ht_key ?t"
          "ht_map t' = ht_map ?t |` (- ht_key ?t ` set r)" "next_entry t' = next_entry ?t"
        using Suc.IH[OF u(1) it2] Suc.prems Cons True by auto
      moreover have "((ht_map t)(ht_key t x := None)) |` (- ht_key t ` set r) = ht_map t |` (- ht_key t ` set xs)"
        by (auto simp: Cons restrict_map_def fun_eq_iff)
      ultimately show ?thesis
        using True it'(1) Cons u \<open>iHtISDelete sc (ht_key t x) t = Some (True, ?t)\<close> by auto
    qed
  qed
qed simp


section \<open>Tables over their life\<close>

lemma table_history:
  assumes "pxHtNewHashTable mp mt mb me nam ini mx inc nb pool w = Some (Some (r, t), k, w')"
    and "\<forall>a \<in> set as. is_str (op_key a) = s" and "store_steps (ht_step sc) as t = Some (rs, t')"
  shows "ht_wf sc s t'" "map_steps as Map.empty = (rs, ht_map t')"
  using ht_store.steps_map[OF new_table_wf(1)[OF assms(1), of sc s] assms(2,3)] new_table_wf(2)[OF assms(1)]
  by simp_all

lemma dom_ht_map: "dom (ht_map t) = ht_key t ` set (ht_entries t)"
  using ht_map_None_iff[of t] by (auto simp: dom_def)

lemma card_ht_map:
  assumes "ht_wf sc s t"
  shows "card (dom (ht_map t)) = unat (ulCurEntries t)"
  using assms by (simp add: dom_ht_map ht_wf_def card_image distinct_card)

text \<open>C19: A hash table is a map: whatever operations are done on a new table with keys of
  one kind, as long as they are defined they answer what a map answers, and every look-up
  afterwards gives the value the map holds; the table counts its keys.  Setting a value answers true
  also when it overwrites one; the header of the code documents the number of entries added.\<close>

theorem hashtab_is_map:
  assumes "pxHtNewHashTable mp mt mb me nam ini mx inc nb pool w = Some (Some (r, t), k, w')"
    and "\<forall>a \<in> set as. is_str (op_key a) = s" and "store_steps (ht_step sc) as t = Some (rs, t')"
  shows "rs = fst (map_steps as Map.empty)
    \<and> (\<forall>j. is_str j = s \<longrightarrow> pvHtGetVal sc j t' =
          Some (case snd (map_steps as Map.empty) j of Some v \<Rightarrow> v | None \<Rightarrow> None)
        \<and> (pxHtFindEntry sc j t' = Some None \<longleftrightarrow> snd (map_steps as Map.empty) j = None))
    \<and> unat (ulCurEntries t') = card (dom (snd (map_steps as Map.empty)))"
proof -
  note h = table_history[OF assms]
  have "pxHtFindEntry sc j t' = Some None \<longleftrightarrow> ht_map t' j = None" if "is_str j = s" for j
    using find_entry_map[OF h(1) that] by auto
  then show ?thesis
    using h(2) get_val_map[OF h(1)] card_ht_map[OF h(1)] by simp
qed

text \<open>Adding a new key to a table whose free entries are used up and that may not grow,
  by its limit or for want of memory, is undefined instead of an error: the links of a
  NULL entry are initialised.  In every other case adding is defined.\<close>

theorem hashtab_full:
  assumes "pxHtNewHashTable mp mt mb me nam ini mx inc nb pool w = Some (Some (r, t), k, w')"
    and "\<forall>a \<in> set as. is_str (op_key a) = s" and "store_steps (ht_step sc) as t = Some (rs, t')"
    and "is_str j = s"
  shows "(iHtAddVal sc mem j v t' = None \<longleftrightarrow> snd (map_steps as Map.empty) j = None \<and> \<not> ht_room mem t')
    \<and> (iHtSetVal sc mem j v t' = None \<longleftrightarrow> snd (map_steps as Map.empty) j = None \<and> \<not> ht_room mem t')"
proof -
  note h = table_history[OF assms(1-3)]
  show ?thesis
    using h(2) add_val_map[OF h(1) assms(4), of mem False v] add_val_map[OF h(1) assms(4), of mem True v]
    by (auto simp: iHtAddVal_def iHtSetVal_def split: option.splits if_splits)
qed

text \<open>The loop over a table visits every key once and ends, also when its body
  deletes the entry it is at, which leaves an empty table whose entries are all free.\<close>

theorem hashtab_foreach:
  assumes "pxHtNewHashTable mp mt mb me nam ini mx inc nb pool w = Some (Some (r, t), k, w')"
    and "\<forall>a \<in> set as. is_str (op_key a) = s" and "store_steps (ht_step sc) as t = Some (rs, t')"
    and "card (dom (snd (map_steps as Map.empty))) < n"
  shows "\<exists>it es t''. vHtInitIterator t' = Some it \<and> ht_foreach n sc del t' it = Some (es, t'')
    \<and> distinct (map (ht_key t') es) \<and> set (map (ht_key t') es) = dom (snd (map_steps as Map.empty))
    \<and> (if del then ulCurEntries t'' = 0 \<and> length (ht_pxFreelist t'') = next_entry t' else t'' = t')"
proof -
  note h = table_history[OF assms(1-3)]
  obtain it where it: "vHtInitIterator t' = Some it" "it_ok t' it (ht_entries t')"
    using iterator_init[OF h(1)] by auto
  have d: "distinct (ht_entries t')" "length (ht_entries t') < n" "inj_on (ht_key t') (set (ht_entries t'))"
    using h assms(4) card_ht_map[OF h(1)] by (simp_all add: ht_wf_def)
  obtain t'' where t'': "ht_foreach n sc del t' it = Some (ht_entries t', t'')" "ht_wf sc s t''" "ht_key t'' = ht_key t'"
      "if del then ht_map t'' = ht_map t' |` (- ht_key t' ` set (ht_entries t')) \<and> next_entry t'' = next_entry t'
       else t'' = t'"
    using foreach_visits[OF h(1) it(2) d(1) _ d(2)] by blast
  have "if del then ulCurEntries t'' = 0 \<and> length (ht_pxFreelist t'') = next_entry t' else t'' = t'"
  proof (cases del)
    case True
    then have "dom (ht_map t'') = {}"
      using t''(4) by (auto simp: dom_ht_map[symmetric] restrict_map_def dom_def)
    then have "unat (ulCurEntries t'') = 0"
      using card_ht_map[OF t''(2)] by simp
    then show ?thesis
      using True t''(2,4) by (auto simp: ht_wf_def ht_counts_def unat_eq_0)
  qed (use t''(4) in simp)
  then show ?thesis
    using it(1) t''(1) d h(2) by (auto simp: distinct_map dom_ht_map)
qed

section \<open>A table\<close>

definition ex_ht_world :: rsrc_world where
  "ex_ht_world = \<lparr> rsrcPools = [\<lparr> pxFreelist = [7], xActive = [], pl_pcName = ''HashTables'', ulTotalAllocs = 0,
       uxSizeEach = sizeof_hashtab_t, uiIncrement = 1, uiFreeOnFree = True, uiMaxNumRes = 0, uiNumInUse = 0,
       uiNumFree = 1, uiLowWater = 1, uiHiWater = 0 \<rparr>],
     rs_pool = (\<lambda>_. None), magic = (\<lambda>_. True), next_rsrc = 8 \<rparr>"

definition ex_ops :: "(htkey, nat option) map_op list" where
  "ex_ops = [OpAdd True (KInt 5) (Some 1), OpSet True (KInt 6) (Some 2), OpAdd True (KInt 5) (Some 3), OpDel (KInt 5)]"

definition ex_table :: "nat hashtab_t" where
  "ex_table = \<lparr> pxBuckets = [[], [], []], ht_pxFreelist = [0], pcTablename = ''t'', ulBucketCount = 3, ulMaxEntries = 2,
     ulCurEntries = 0, ulAllocSize = 1, ht_key = (\<lambda>_. KInt 0), ht_value = (\<lambda>_. None), next_entry = 1 \<rparr>"

lemma ex_table_new:
  "\<exists>w'. pxHtNewHashTable True True True True ''t'' 1 2 1 2 (Some 0) ex_ht_world = Some (Some (7, ex_table), 0, w')"
proof -
  have a: "\<exists>w'. pxRsrcAlloc True 0 ex_ht_world = Some (Some 7, w')"
    by (simp add: pxRsrcAlloc_def pxRsrcVarAlloc_def ex_ht_world_def pool_at_def sizeof_hashtab_t_def Let_def)
  have "prvMorefree True 1 \<lparr> pxBuckets = [[], [], []], ht_pxFreelist = [], pcTablename = ''t'', ulBucketCount = 3,
      ulMaxEntries = 2, ulCurEntries = 0, ulAllocSize = 1, ht_key = (\<lambda>_. KInt 0), ht_value = (\<lambda>_. None), next_entry = 0 \<rparr>
    = Some (1, ex_table)"
    by (simp add: prvMorefree_def ex_table_def sizeof_hashent_t_def)
  moreover have "replicate 3 [] = [[], [], [] :: nat list]"
    by (simp add: numeral_3_eq_3)
  ultimately show ?thesis
    using a by (auto simp: pxHtNewHashTable_def initHashtabPool_def htMAX_ALLOCSIZE_def sizeof_Link_t_def)
qed

lemma ex_table_steps:
  "\<exists>t'. store_steps (ht_step True) ex_ops ex_table = Some ([True, True, False, True], t')
     \<and> t' = ex_table \<lparr> pxBuckets := [[1], [], []], ht_pxFreelist := [0], ulCurEntries := 1, next_entry := 2,
         ht_key := ht_key t', ht_value := ht_value t' \<rparr>"
  by (simp add: ex_ops_def ex_table_def iHtAddVal_def iHtSetVal_def prvHtISAddVal_def prvHashLookupCom_def bucketno_def
      prvHashedInt_def prvNewhashent_def take_entry_def prvMorefree_def iHtISDelete_def prvFreehashent_def
      sizeof_hashent_t_def Let_def)


lemma hashtab_is_map_witness:
  "\<exists>w' t'. pxHtNewHashTable True True True True ''t'' 1 2 1 2 (Some 0) ex_ht_world = Some (Some (7, ex_table), 0, w')
    \<and> store_steps (ht_step True) ex_ops ex_table = Some ([True, True, False, True], t')
    \<and> pvHtGetVal True (KInt 6) t' = Some (Some 2) \<and> pvHtGetVal True (KInt 5) t' = Some None
    \<and> unat (ulCurEntries t') = 1"
proof -
  obtain w' where w': "pxHtNewHashTable True True True True ''t'' 1 2 1 2 (Some 0) ex_ht_world = Some (Some (7, ex_table), 0, w')"
    using ex_table_new by auto
  obtain t' where t': "store_steps (ht_step True) ex_ops ex_table = Some ([True, True, False, True], t')"
    using ex_table_steps by auto
  have "\<forall>a \<in> set ex_ops. is_str (op_key a) = False" by (simp add: ex_ops_def)
  from hashtab_is_map[OF w' this t'] show ?thesis
    using w' t' by (auto simp: ex_ops_def)
qed

lemma ex_table_fill:
  "\<exists>t'. store_steps (ht_step True) [OpAdd True (KInt 5) (Some 1), OpAdd True (KInt 6) (Some 2)] ex_table
       = Some ([True, True], t') \<and> ht_pxFreelist t' = [] \<and> ulMaxEntries t' = 2 \<and> ulAllocSize t' = 1 \<and> next_entry t' = 2"
  by (simp add: ex_table_def iHtAddVal_def prvHtISAddVal_def prvHashLookupCom_def bucketno_def
      prvHashedInt_def prvNewhashent_def take_entry_def prvMorefree_def sizeof_hashent_t_def Let_def)

lemma hashtab_full_witness:
  "\<exists>w' t'. pxHtNewHashTable True True True True ''t'' 1 2 1 2 (Some 0) ex_ht_world = Some (Some (7, ex_table), 0, w')
    \<and> store_steps (ht_step True) [OpAdd True (KInt 5) (Some 1), OpAdd True (KInt 6) (Some 2)] ex_table = Some ([True, True], t')
    \<and> iHtAddVal True True (KInt 7) (Some 3) t' = None \<and> iHtSetVal True True (KInt 7) (Some 3) t' = None
    \<and> iHtSetVal True True (KInt 5) (Some 3) t' \<noteq> None"
proof -
  obtain w' where w': "pxHtNewHashTable True True True True ''t'' 1 2 1 2 (Some 0) ex_ht_world = Some (Some (7, ex_table), 0, w')"
    using ex_table_new by auto
  obtain t' where t': "store_steps (ht_step True) [OpAdd True (KInt 5) (Some 1), OpAdd True (KInt 6) (Some 2)] ex_table
       = Some ([True, True], t')" "ht_pxFreelist t' = []" "ulMaxEntries t' = 2" "ulAllocSize t' = 1" "next_entry t' = 2"
    using ex_table_fill by auto
  have "\<not> ht_room True t'"
    using t'(2-5) by (simp add: ht_room_def)
  moreover have k: "\<forall>a \<in> set [OpAdd True (KInt 5) (Some 1), OpAdd True (KInt 6) (Some 2)]. is_str (op_key a) = False"
    by simp
  note hashtab_full[OF w' k t'(1), of "KInt 7" True "Some 3"] hashtab_full[OF w' k t'(1), of "KInt 5" True "Some 3"]
  ultimately show ?thesis
    using w' t'(1) by simp
qed

lemma hashtab_foreach_witness:
  "\<exists>t' it es t''. store_steps (ht_step True) ex_ops ex_table = Some ([True, True, False, True], t')
    \<and> vHtInitIterator t' = Some it \<and> ht_foreach 2 True True t' it = Some (es, t'') \<and> map (ht_key t') es = [KInt 6]
    \<and> ulCurEntries t'' = 0"
proof -
  obtain w' where w': "pxHtNewHashTable True True True True ''t'' 1 2 1 2 (Some 0) ex_ht_world = Some (Some (7, ex_table), 0, w')"
    using ex_table_new by auto
  obtain t' where t': "store_steps (ht_step True) ex_ops ex_table = Some ([True, True, False, True], t')"
    using ex_table_steps by auto
  have m: "snd (map_steps ex_ops Map.empty) = [KInt 6 \<mapsto> Some 2]"
    by (auto simp: ex_ops_def)
  have "\<forall>a \<in> set ex_ops. is_str (op_key a) = False" by (simp add: ex_ops_def)
  from hashtab_foreach[OF w' this t', of 2 True] obtain it es t'' where r: "vHtInitIterator t' = Some it"
      "ht_foreach 2 True True t' it = Some (es, t'')" "distinct (map (ht_key t') es)"
      "set (map (ht_key t') es) = {KInt 6}" "ulCurEntries t'' = 0"
    unfolding m by auto
  have "length (map (ht_key t') es) = card {KInt 6}"
    using distinct_card[OF r(3)] r(4) by simp
  then have "map (ht_key t') es = [KInt 6]"
    using r(4) by (cases es) auto
  then show ?thesis using t' r by auto
qed

end
