(* ===== verification/Shim_Frames.thy ===== *)
theory Shim_Frames
  imports Node_Rx
begin

text \<open>
  Frames of IEEE 802.15.4: the header and the receiver (\<open>ieee802154_IPCP_frame.c\<close>) and the
  network interface (\<open>ieee802154_NetworkInterface.c\<close>) of \<open>Shim/ieee802154\<close>.  The radio
  driver is not part of the repository: its settings are the record \<open>nic\<close>, a frame handed
  to it is a result, a frame it has received an argument.  A frame is a buffer whose
  first byte is the length of what follows.  Reading past the end of a buffer is
  undefined (\<open>None\<close>), so is writing past the end of \<open>association_response\<close>.
\<close>

section \<open>The header\<close>

record mac_fcs_t =
  frameType :: u8
  secure :: bool
  framePending :: bool
  ackReqd :: bool
  panIdCompressed :: bool
  rfu1 :: bool
  sequenceNumberSuppression :: bool
  informationElementsPresent :: bool
  destAddrType :: u8
  frameVer :: u8
  srcAddrType :: u8

definition flag_bit :: "nat \<Rightarrow> bool \<Rightarrow> u8" where
  "flag_bit k b = (if b then push_bit k 1 else 0)"

definition mac_fcs_bytes :: "mac_fcs_t \<Rightarrow> u8 list" where
  "mac_fcs_bytes h =
     [or (and (frameType h) 7) (or (flag_bit 3 (secure h)) (or (flag_bit 4 (framePending h))
        (or (flag_bit 5 (ackReqd h)) (or (flag_bit 6 (panIdCompressed h)) (flag_bit 7 (rfu1 h)))))),
      or (flag_bit 0 (sequenceNumberSuppression h)) (or (flag_bit 1 (informationElementsPresent h))
        (or (push_bit 2 (and (destAddrType h) 3)) (or (push_bit 4 (and (frameVer h) 3)) (push_bit 6 (and (srcAddrType h) 3)))))]"

fun mac_fcs_parse :: "u8 list \<Rightarrow> mac_fcs_t option" where
  "mac_fcs_parse (a # b # _) = Some \<lparr> frameType = and a 7, secure = bit a 3, framePending = bit a 4,
     ackReqd = bit a 5, panIdCompressed = bit a 6, rfu1 = bit a 7, sequenceNumberSuppression = bit b 0,
     informationElementsPresent = bit b 1, destAddrType = and (drop_bit 2 b) 3, frameVer = and (drop_bit 4 b) 3,
     srcAddrType = and (drop_bit 6 b) 3 \<rparr>"
| "mac_fcs_parse _ = None"

definition eFRAME_TYPE_DATA :: u8 where "eFRAME_TYPE_DATA = 1"
definition eFRAME_TYPE_ACK :: u8 where "eFRAME_TYPE_ACK = 2"
definition ADDR_MODE_NONE :: u8 where "ADDR_MODE_NONE = 0"
definition ADDR_MODE_SHORT :: u8 where "ADDR_MODE_SHORT = 2"
definition ADDR_MODE_LONG :: u8 where "ADDR_MODE_LONG = 3"

definition ieee802154_PANID_SOURCE :: u16 where "ieee802154_PANID_SOURCE = 0x4242"
definition ieee802154_SHORT_ADDRESS :: u16 where "ieee802154_SHORT_ADDRESS = 0x0001"
definition ieee802154_SHORT_ADDRESS_DESTINATION :: u16 where "ieee802154_SHORT_ADDRESS_DESTINATION = 0x0002"
definition ieee802154_CHANNEL :: u8 where "ieee802154_CHANNEL = 20"
definition ieee802154_MTU :: nat where "ieee802154_MTU = 127"

text \<open>The short addresses of the two ends; the modes of the addresses are not looked at.\<close>

definition ieee802154_header :: "u16 \<Rightarrow> u16 \<Rightarrow> u16 \<Rightarrow> bool \<Rightarrow> nat \<Rightarrow> u8 list" where
  "ieee802154_header pan src dst ack header_length =
     (if header_length < 9 then []
      else mac_fcs_bytes \<lparr> frameType = eFRAME_TYPE_DATA, secure = False, framePending = False, ackReqd = ack,
             panIdCompressed = True, rfu1 = False, sequenceNumberSuppression = False,
             informationElementsPresent = False, destAddrType = ADDR_MODE_SHORT, frameVer = 0,
             srcAddrType = ADDR_MODE_SHORT \<rparr>
           @ [0] @ le16 pan @ le16 dst @ le16 src)"

lemma header_facts:
  assumes "9 \<le> n"
  shows "length (ieee802154_header pan src dst ack n) = 9"
    "mac_fcs_parse (ieee802154_header pan src dst ack n @ bs) = Some \<lparr> frameType = eFRAME_TYPE_DATA, secure = False,
       framePending = False, ackReqd = ack, panIdCompressed = True, rfu1 = False, sequenceNumberSuppression = False,
       informationElementsPresent = False, destAddrType = ADDR_MODE_SHORT, frameVer = 0, srcAddrType = ADDR_MODE_SHORT \<rparr>"
    "drop 5 (ieee802154_header pan src dst ack n) = le16 dst @ le16 src"
  using assms by (auto simp: ieee802154_header_def mac_fcs_bytes_def le16_def flag_bit_def eFRAME_TYPE_DATA_def
      ADDR_MODE_SHORT_def)


section \<open>The network interface\<close>

definition IEEE802154_MAX_FRAME_SIZE :: nat where "IEEE802154_MAX_FRAME_SIZE = 127"

text \<open>The state of the interface, the settings of the radio, and the frame that waits for
  the receiving task with the count of its notifications.\<close>

record nic =
  xInterfaceState :: bool
  short_address :: u16
  extended_address :: "u8 list"
  panid :: u16
  channel :: u8
  coordinator :: bool
  rx_temp_buffer :: "u8 list"
  rx_temp_len :: nat
  rx_notified :: nat

definition nic_boot :: nic where
  "nic_boot = \<lparr> xInterfaceState = False, short_address = 0xFFFF, extended_address = replicate 8 0, panid = 0xFFFF,
     channel = 0, coordinator = False, rx_temp_buffer = replicate IEEE802154_MAX_FRAME_SIZE 0, rx_temp_len = 0,
     rx_notified = 0 \<rparr>"

text \<open>The hardware address is read into and out of objects of 6 bytes, although addresses
  of this radio have 8: \<open>mac\<close> is what is read, \<open>ext\<close> the address the radio takes over.\<close>

definition xIeee802154NetworkInterfaceInitialise :: "u8 list \<Rightarrow> u8 list \<Rightarrow> nic \<Rightarrow> bool \<times> u8 list \<times> nic" where
  "xIeee802154NetworkInterfaceInitialise mac ext s =
     (True, rev mac, s \<lparr> extended_address := ext, short_address := ieee802154_SHORT_ADDRESS, xInterfaceState := True \<rparr>)"

text \<open>\<open>ieee802154_COORDINATOR\<close> is 0.\<close>

definition xIeee802154NetworkInterfaceConnect :: "nic \<Rightarrow> bool \<times> nic" where
  "xIeee802154NetworkInterfaceConnect s =
     (True, s \<lparr> coordinator := True, channel := ieee802154_CHANNEL, panid := ieee802154_PANID_SOURCE \<rparr>)"

definition esp_ieee802154_receive_done :: "u8 list option \<Rightarrow> nic \<Rightarrow> nic option" where
  "esp_ieee802154_receive_done buf s =
     (case buf of
        None \<Rightarrow> Some s
      | Some [] \<Rightarrow> None
      | Some (n # bs) \<Rightarrow>
          if n = 0 \<or> unat n > IEEE802154_MAX_FRAME_SIZE then Some s
          else if length bs < unat n then None
          else Some (s \<lparr> rx_temp_buffer := take (unat n) bs @ drop (unat n) (rx_temp_buffer s),
                         rx_temp_len := unat n, rx_notified := rx_notified s + 1 \<rparr>))"

text \<open>\<open>queued\<close> says whether the event enters the queue of the stack task; when it does not,
  nothing is released.  The answer is the event: the buffer with the length of the frame.\<close>

definition vIeee802154NetworkInterfaceInput ::
  "(nat \<Rightarrow> bool) \<Rightarrow> bool \<Rightarrow> u8 list \<Rightarrow> nat list \<Rightarrow> ((NetworkBufferDescriptor_t \<times> nat) option \<times> nat list) option" where
  "vIeee802154NetworkInterfaceInput mem queued bs free = do {
     (nb, free) \<leftarrow> pxGetNetworkBufferWithDescriptor mem (length bs) free;
     nb \<leftarrow> nb;
     eth \<leftarrow> pucEthernetBuffer nb;
     if length eth < length bs then None
     else let nb = nb \<lparr> pucEthernetBuffer := Some (bs @ drop (length bs) eth) \<rparr>
          in Some (if queued then Some (nb, length bs) else None, free) }"

text \<open>One round of the receiving task: it waits for a notification and clears them all.\<close>

definition vShimRxTask ::
  "(nat \<Rightarrow> bool) \<Rightarrow> bool \<Rightarrow> nat list \<Rightarrow> nic \<Rightarrow> ((NetworkBufferDescriptor_t \<times> nat) option \<times> nat list \<times> nic) option" where
  "vShimRxTask mem queued free s =
     (if rx_notified s = 0 then Some (None, free, s)
      else do {
        (e, free) \<leftarrow> vIeee802154NetworkInterfaceInput mem queued (take (rx_temp_len s) (rx_temp_buffer s)) free;
        Some (e, free, s \<lparr> rx_notified := 0 \<rparr>) })"

text \<open>The frame handed to the radio, when it is.\<close>

definition vIeee802154FrameSend :: "u8 list option \<Rightarrow> u16 \<Rightarrow> u8 list option" where
  "vIeee802154FrameSend buf n = (if buf = None \<or> n = 0 then None else buf)"

definition xIeee802154NetworkInterfaceOutput ::
  "NetworkBufferDescriptor_t option \<Rightarrow> bool \<Rightarrow> nic \<Rightarrow> nat list \<Rightarrow> (bool \<times> u8 list option \<times> nat list) option" where
  "xIeee802154NetworkInterfaceOutput pnb rel s free =
     (case pnb of
        None \<Rightarrow> Some (False, None, free)
      | Some nb \<Rightarrow>
          if pucEthernetBuffer nb = None \<or> xDataLength nb = 0 then Some (False, None, free)
          else if \<not> xInterfaceState s then Some (False, None, free)
          else do {
            let frame = vIeee802154FrameSend (pucEthernetBuffer nb) (word_of_nat (xDataLength nb));
            free \<leftarrow> (if rel then vReleaseNetworkBufferAndDescriptor nb free else Some free);
            Some (True, frame, free) })"

section \<open>Receiving a frame\<close>

text \<open>Where the header ends and whether the frame is for this node (1), for all (2) or for
  another one (0); \<open>None\<close> for an address mode that is not known.\<close>

definition frame_dest :: "u16 \<Rightarrow> u8 list \<Rightarrow> u8 \<Rightarrow> u8 list \<Rightarrow> (nat \<times> nat) option option" where
  "frame_dest my_short my_long mode packet =
     (if mode = ADDR_MODE_NONE then Some (Some (3, 1))
      else if mode = ADDR_MODE_SHORT
      then if length packet < 7 then None
           else let dst = of_le16 (packet ! 5) (packet ! 6)
                in Some (Some (9, if dst = my_short then 1 else if dst = 0xFFFF then 2 else 0))
      else if mode = ADDR_MODE_LONG
      then if length packet < 13 then None
           else Some (Some (13, if rev (take 8 (drop 5 packet)) = my_long then 1 else 0))
      else Some None)"

definition frame_release :: "bool \<Rightarrow> NetworkBufferDescriptor_t \<Rightarrow> node \<Rightarrow> (bool \<times> node) option" where
  "frame_release r nb s = do {
     free \<leftarrow> vReleaseNetworkBufferAndDescriptor nb (free_desc (nd_dp s));
     Some (r, s \<lparr> nd_dp := (nd_dp s) \<lparr> free_desc := free \<rparr> \<rparr>) }"

text \<open>\<open>mem\<close> says whether there is memory for the unit, \<open>normal\<close> whether there is a normal
  IPC process.  The loops that print the frame and the unit read all their bytes.\<close>

definition xProcessIEEE802154Packet ::
  "nenv \<Rightarrow> bool \<Rightarrow> bool \<Rightarrow> nic \<Rightarrow> NetworkBufferDescriptor_t \<Rightarrow> nat \<Rightarrow> node \<Rightarrow> (bool \<times> node) option" where
  "xProcessIEEE802154Packet env mem normal ifc nb len s = do {
     packet \<leftarrow> pucEthernetBuffer nb;
     fcs \<leftarrow> (if length packet < len then None else mac_fcs_parse packet);
     if rfu1 fcs then frame_release False nb s
     else if frameType fcs \<noteq> eFRAME_TYPE_DATA
     then if frameType fcs = eFRAME_TYPE_ACK then None else frame_release False nb s
     else do {
       d \<leftarrow> frame_dest (short_address ifc) (extended_address ifc) (destAddrType fcs) packet;
       (case d of
          None \<Rightarrow> frame_release False nb s
        | Some (pos, dest) \<Rightarrow>
            if dest = 2 then frame_release True nb s
            else if dest = 0 then frame_release False nb s
            else
              let n = (len + 65536 - pos) mod 65536 in
              if length packet < pos + n then None
              else if \<not> mem \<or> \<not> normal then frame_release False nb s
              else do {
                (r, s) \<leftarrow> xNormalDuEnqueue env 1 \<lparr> pxPci = None, pxNetworkBuffer =
                  nb \<lparr> pucRinaBuffer := Some (drop pos packet), xRinaDataLength := n \<rparr> \<rparr> s;
                if \<not> r then frame_release False nb s else Some (True, s) }) } }"

end
