(* ===== verification/Generic_Addr.thy ===== *)
theory Generic_Addr
  imports Rina_Names
begin

text \<open>
  Generic protocol and hardware addresses: \<open>Rina-manager/Common/rina_gpha.c\<close>, with the
  functions of \<open>Shim/Arp826/Arp826.c\<close> that grow and shrink an address.  A buffer is the
  list of its bytes; the length of an address is a field of its own.  A failed
  allocation of a buffer is undefined where the code clears the buffer before it tests
  the pointer.  The fields that \<open>pxCreateGHA\<close> does not set are left out.
\<close>

record gpa_t =
  pucAddress :: "u8 list option"
  uxLength :: nat

datatype eGHAType_t = MAC_ADDR_802_3 | MAC_ADDR_802_15_4

record gha_t =
  gh_xType :: eGHAType_t
  ucBytes :: "u8 list"

definition MAC_ADDRESS_LENGTH_BYTES :: nat where "MAC_ADDRESS_LENGTH_BYTES = 6"

definition xIsGPAOK :: "gpa_t option \<Rightarrow> bool" where
  "xIsGPAOK p = (case p of None \<Rightarrow> False | Some g \<Rightarrow> pucAddress g \<noteq> None \<and> uxLength g \<noteq> 0)"

definition xIsGHAOK :: "gha_t option \<Rightarrow> bool" where
  "xIsGHAOK p = (case p of None \<Rightarrow> False | Some g \<Rightarrow> gh_xType g = MAC_ADDR_802_3 \<or> gh_xType g = MAC_ADDR_802_15_4)"

text \<open>Reading past the end of the argument is undefined.\<close>

definition pxCreateGPA :: "bool \<Rightarrow> bool \<Rightarrow> u8 list option \<Rightarrow> nat \<Rightarrow> gpa_t option option" where
  "pxCreateGPA mem1 mem2 src n =
     (case src of
        None \<Rightarrow> Some None
      | Some bs \<Rightarrow>
          if n = 0 then Some None
          else if \<not> mem1 then Some None
          else if \<not> mem2 \<or> length bs < n then None
          else Some (Some \<lparr> pucAddress = Some (take n bs @ [0]), uxLength = n \<rparr>))"

definition pxCreateGHA :: "bool \<Rightarrow> eGHAType_t \<Rightarrow> u8 list option \<Rightarrow> gha_t option option" where
  "pxCreateGHA mem ty src =
     (if \<not> mem then Some None
      else do {
        bs \<leftarrow> src;
        if length bs < MAC_ADDRESS_LENGTH_BYTES then None
        else Some (Some \<lparr> gh_xType = ty, ucBytes = take MAC_ADDRESS_LENGTH_BYTES bs \<rparr>) })"

definition gpa_bytes :: "gpa_t \<Rightarrow> u8 list" where
  "gpa_bytes g = take (uxLength g) (case pucAddress g of Some bs \<Rightarrow> bs | None \<Rightarrow> [])"

definition xGPACmp :: "gpa_t option \<Rightarrow> gpa_t option \<Rightarrow> bool" where
  "xGPACmp p q = (case (p, q) of
     (Some a, Some b) \<Rightarrow> xIsGPAOK p \<and> xIsGPAOK q \<and> uxLength a = uxLength b \<and> gpa_bytes a = gpa_bytes b
   | _ \<Rightarrow> False)"

text \<open>The bytes up to the first NUL.\<close>

definition xGPAAddressToString :: "bool \<Rightarrow> gpa_t option \<Rightarrow> u8 list option" where
  "xGPAAddressToString mem p = (case p of
     None \<Rightarrow> None
   | Some g \<Rightarrow> if xIsGPAOK p \<and> mem then Some (takeWhile (\<lambda>b. b \<noteq> 0) (gpa_bytes g)) else None)"

definition char_bytes :: "string \<Rightarrow> u8 list" where
  "char_bytes s = map of_char s"

definition pxNameToGPA :: "bool \<Rightarrow> bool \<Rightarrow> bool \<Rightarrow> name_t option \<Rightarrow> gpa_t option option" where
  "pxNameToGPA mem mem1 mem2 nam = do {
     s \<leftarrow> pcNameToString mem nam;
     (case s of
        None \<Rightarrow> Some None
      | Some s \<Rightarrow> pxCreateGPA mem1 mem2 (Some (char_bytes s)) (length s)) }"

section \<open>Growing and shrinking\<close>

definition xARPAddressGPAGrow :: "bool \<Rightarrow> gpa_t \<Rightarrow> nat \<Rightarrow> u8 \<Rightarrow> bool \<times> gpa_t" where
  "xARPAddressGPAGrow mem g n filler =
     (if \<not> xIsGPAOK (Some g) then (False, g)
      else if n = 0 \<or> n < uxLength g then (False, g)
      else if uxLength g = n then (True, g)
      else if \<not> mem then (False, g)
      else (True, g \<lparr> pucAddress := Some (gpa_bytes g @ replicate (n - uxLength g) filler), uxLength := n \<rparr>))"

fun FreeRTOS_memscan :: "u8 list \<Rightarrow> u8 \<Rightarrow> nat" where
  "FreeRTOS_memscan [] c = 0"
| "FreeRTOS_memscan (b # bs) c = (if b = c then 0 else Suc (FreeRTOS_memscan bs c))"

text \<open>\<open>mem n\<close> says whether \<open>malloc\<close> of \<open>n\<close> bytes gives a pointer; for no bytes this is
  up to the library.\<close>

definition xARPAddressGPAShrink :: "(nat \<Rightarrow> bool) \<Rightarrow> gpa_t \<Rightarrow> u8 \<Rightarrow> bool \<times> gpa_t" where
  "xARPAddressGPAShrink mem g filler =
     (if \<not> xIsGPAOK (Some g) then (False, g)
      else let n = FreeRTOS_memscan (gpa_bytes g) filler in
        if n \<ge> uxLength g then (True, g)
        else if \<not> mem n then (False, g)
        else (True, g \<lparr> pucAddress := Some (take n (gpa_bytes g)), uxLength := n \<rparr>))"

section \<open>Facts\<close>

text \<open>Addresses whose buffer has all their bytes.\<close>

definition gpa_ok :: "gpa_t \<Rightarrow> bool" where
  "gpa_ok g \<longleftrightarrow> uxLength g \<noteq> 0 \<and> (\<exists>bs. pucAddress g = Some bs \<and> uxLength g \<le> length bs)"

lemma gpa_ok_is [simp]: "gpa_ok g \<Longrightarrow> xIsGPAOK (Some g)"
  by (auto simp: gpa_ok_def xIsGPAOK_def)

lemma length_gpa_bytes [simp]: "gpa_ok g \<Longrightarrow> length (gpa_bytes g) = uxLength g"
  by (auto simp: gpa_ok_def gpa_bytes_def)

lemma gpa_cmp_ok: "\<lbrakk>gpa_ok a; gpa_ok b\<rbrakk> \<Longrightarrow> xGPACmp (Some a) (Some b) \<longleftrightarrow> gpa_bytes a = gpa_bytes b"
  by (simp add: xGPACmp_def) (metis length_gpa_bytes)

lemma create_gpa_ok:
  assumes "pxCreateGPA m1 m2 (Some bs) n = Some (Some g)"
  shows "gpa_ok g" "gpa_bytes g = take n bs" "uxLength g = n" "n \<le> length bs" "0 < n"
  using assms by (auto simp: pxCreateGPA_def gpa_ok_def gpa_bytes_def split: if_splits)

lemma memscan_append: "FreeRTOS_memscan (xs @ ys) c = (if c \<in> set xs then FreeRTOS_memscan xs c
    else length xs + FreeRTOS_memscan ys c)"
  by (induction xs) auto

lemma memscan_none: "c \<notin> set xs \<Longrightarrow> FreeRTOS_memscan xs c = length xs"
  by (induction xs) auto

lemma grow_runs:
  assumes "gpa_ok g" "uxLength g \<le> n" "mem"
  shows "xARPAddressGPAGrow mem g n c = (True, snd (xARPAddressGPAGrow mem g n c))"
    "gpa_ok (snd (xARPAddressGPAGrow mem g n c))" "uxLength (snd (xARPAddressGPAGrow mem g n c)) = n"
    "gpa_bytes (snd (xARPAddressGPAGrow mem g n c)) = gpa_bytes g @ replicate (n - uxLength g) c"
proof -
  have n: "n \<noteq> 0" using assms by (auto simp: gpa_ok_def)
  show "xARPAddressGPAGrow mem g n c = (True, snd (xARPAddressGPAGrow mem g n c))"
    "uxLength (snd (xARPAddressGPAGrow mem g n c)) = n"
    using assms n by (auto simp: xARPAddressGPAGrow_def)
  show "gpa_ok (snd (xARPAddressGPAGrow mem g n c))"
    "gpa_bytes (snd (xARPAddressGPAGrow mem g n c)) = gpa_bytes g @ replicate (n - uxLength g) c"
    using assms n by (auto simp: xARPAddressGPAGrow_def gpa_ok_def[of "_ \<lparr> uxLength := _ \<rparr>"] gpa_bytes_def[of "_ \<lparr> uxLength := _ \<rparr>"])
qed

lemma shrink_runs:
  assumes "gpa_ok g" "gpa_bytes g = bs @ replicate k c" "c \<notin> set bs" "bs \<noteq> []" "\<And>n. 0 < n \<Longrightarrow> mem n"
  shows "xARPAddressGPAShrink mem g c = (True, snd (xARPAddressGPAShrink mem g c))"
    "gpa_ok (snd (xARPAddressGPAShrink mem g c))" "gpa_bytes (snd (xARPAddressGPAShrink mem g c)) = bs"
proof -
  have len: "uxLength g = length bs + k"
    using length_gpa_bytes[OF assms(1)] assms(2) by simp
  have sc: "FreeRTOS_memscan (gpa_bytes g) c = length bs"
    using assms(2,3) by (cases k) (simp_all add: memscan_append memscan_none)
  have eq: "xARPAddressGPAShrink mem g c = (True, if k = 0 then g
      else g \<lparr> pucAddress := Some bs, uxLength := length bs \<rparr>)"
    unfolding xARPAddressGPAShrink_def Let_def sc len using assms by simp
  show "xARPAddressGPAShrink mem g c = (True, snd (xARPAddressGPAShrink mem g c))"
    "gpa_ok (snd (xARPAddressGPAShrink mem g c))" "gpa_bytes (snd (xARPAddressGPAShrink mem g c)) = bs"
    unfolding eq using assms(1,2,4) by (auto simp: gpa_ok_def[of "_ \<lparr> uxLength := _ \<rparr>"] gpa_bytes_def[of "_ \<lparr> uxLength := _ \<rparr>"])
qed

end
