(* ===== verification/Shim_Flows.thy ===== *)
theory Shim_Flows
  imports Shim_Frames Generic_Addr Ipcp_Manager
begin

text \<open>
  The shim of IEEE 802.15.4: its flows (\<open>Shim/shim_IPCP_flow.c\<close>) and its operations
  (\<open>Shim/ieee802154/ieee802154_IPCP_ops.c\<close>), and the event of the stack task that
  connects the normal IPC process to it (\<open>IPCP_task.c\<close>).  The flows are the list of the
  module; the hardware address of the peer, which this shim never sets, is left out (the
  WiFi shim adds it).  Memory that is freed while a pointer to it stays is remembered by
  the pointer alone, which is all the code asks for.
\<close>

section \<open>Flows\<close>

datatype ePortidState_t = eNULL | ePENDING | eALLOCATED

record shimFlow_t =
  sf_xPortId :: u32
  ePortIdState :: ePortidState_t
  pxDestPa :: "gpa_t option"
  pxUserIpcp :: "ipcpInstance_t option"
  pxSduQueue :: bool
  sf_freed :: bool

definition vShimFlowListInit :: "'a list" where
  "vShimFlowListInit = []"

definition vShimFlowAdd :: "'a \<Rightarrow> 'a list \<Rightarrow> 'a list" where
  "vShimFlowAdd f fs = insert_second f fs"

text \<open>The search follows the flows up to the one it finds.  A flow is allocated, and lost,
  before.\<close>

definition prvShimFindFlowByPortId :: "bool \<Rightarrow> u32 \<Rightarrow> 'a shimFlow_t_scheme list \<Rightarrow> nat option option" where
  "prvShimFindFlowByPortId mem port fs =
     (if \<not> mem then Some None
      else case first_ix (\<lambda>f. sf_freed f \<or> sf_xPortId f = port) fs of
        None \<Rightarrow> Some None
      | Some x \<Rightarrow> if sf_freed (fs ! x) then None else Some (Some x))"

definition prvShimFindFlow :: "'a list \<Rightarrow> nat option" where
  "prvShimFindFlow fs = first_ix (\<lambda>_. True) fs"

text \<open>The hardware address of the peer is never set: destroying a flow frees whatever the
  field holds.  The caller takes the answer, true, for a failure.\<close>

definition prvShimFlowDestroy :: "bool \<Rightarrow> 'a shimFlow_t_scheme \<Rightarrow> (bool \<times> 'a shimFlow_t_scheme) option" where
  "prvShimFlowDestroy junk f = (if junk then None else Some (True, f \<lparr> sf_freed := True \<rparr>))"

definition prvShimUnbindDestroyFlow :: "bool \<Rightarrow> 'a shimFlow_t_scheme \<Rightarrow> (bool \<times> 'a shimFlow_t_scheme) option" where
  "prvShimUnbindDestroyFlow junk f = do {
     (ok, f) \<leftarrow> prvShimFlowDestroy junk f;
     Some (\<not> ok, f) }"

section \<open>The instance\<close>

record shim_data =
  pxAppName :: "name_t option"
  pxDafName :: "name_t option"
  pxPhyDev :: "u8 list"
  xShimFlowsList :: "shimFlow_t list"
  sh_nic :: nic

text \<open>What the environment decides: whether the allocations of an operation succeed, in their
  order, whether a pointer that is not initialised is non-NULL, whether a queue for units
  can be made, what the radio answers, whether the queue of the stack task has room.\<close>

record shim_env =
  se_mem :: "nat \<Rightarrow> bool"
  se_junk :: bool
  se_fifo :: bool
  se_storage :: "nat \<Rightarrow> bool"
  se_queue :: bool
  se_mac :: "u8 list"
  se_ext :: "u8 list"

definition pxShim802154Create :: "shim_env \<Rightarrow> nic \<Rightarrow> shim_data option" where
  "pxShim802154Create env ifc =
     (if se_mem env 0 \<and> se_mem env 1 \<and> se_mem env 2
      then Some \<lparr> pxAppName = None, pxDafName = None, pxPhyDev = replicate MAC_ADDRESS_LENGTH_BYTES 0,
                 xShimFlowsList = vShimFlowListInit, sh_nic = ifc \<rparr>
      else None)"

definition xShim802154EnrollToDIF :: "shim_env \<Rightarrow> shim_data \<Rightarrow> bool \<times> shim_data" where
  "xShim802154EnrollToDIF env s =
     (let (ok, dev, ifc) = xIeee802154NetworkInterfaceInitialise (se_mac env) (se_ext env) (sh_nic s);
          s = s \<lparr> pxPhyDev := dev, sh_nic := ifc \<rparr>
      in if ok then let (ok, ifc) = xIeee802154NetworkInterfaceConnect ifc in (ok, s \<lparr> sh_nic := ifc \<rparr>)
         else (False, s))"

text \<open>\<open>pxRstrNameDup\<close> answers an empty name; \<open>vRstrNameFini\<close> of it and a freed name leave
  the pointer, so that a second attempt finds it.\<close>

definition xShim802154ApplicationRegister ::
  "shim_env \<Rightarrow> name_t option \<Rightarrow> name_t option \<Rightarrow> shim_data \<Rightarrow> (bool \<times> shim_data) option" where
  "xShim802154ApplicationRegister env app daf s =
     (if app = None \<or> pxAppName s \<noteq> None then Some (False, s)
      else do {
        an \<leftarrow> pxRstrNameDup (se_mem env 0) (se_mem env 1) app;
        let s = s \<lparr> pxAppName := an \<rparr>;
        if an = None then Some (False, s)
        else do {
          pa \<leftarrow> pxNameToGPA (se_mem env 2) (se_mem env 3) (se_mem env 4) app;
          if \<not> xIsGPAOK pa then Some (False, s \<lparr> pxAppName := map_option vRstrNameFini an \<rparr>)
          else do {
            ha \<leftarrow> pxCreateGHA (se_mem env 5) MAC_ADDR_802_15_4 (Some (pxPhyDev s));
            if \<not> xIsGHAOK ha then Some (False, s \<lparr> pxAppName := map_option vRstrNameFini an \<rparr>)
            else do {
              dn \<leftarrow> pxRstrNameDup (se_mem env 6) (se_mem env 7) daf;
              let s = s \<lparr> pxDafName := dn \<rparr>;
              if dn = None then Some (False, s)
              else do {
                pa \<leftarrow> pxNameToGPA (se_mem env 8) (se_mem env 9) (se_mem env 10) daf;
                if \<not> xIsGPAOK pa then Some (False, s) else Some (True, s) } } } } })"

definition xShim802154FlowAllocateRequest ::
  "shim_env \<Rightarrow> ipcpInstance_t option \<Rightarrow> name_t option \<Rightarrow> name_t option \<Rightarrow> u32 \<Rightarrow> shim_data \<Rightarrow> (bool \<times> shim_data) option" where
  "xShim802154FlowAllocateRequest env user src dst port s =
     (if src = None \<or> dst = None \<or> \<not> is_port_id_ok port then Some (False, s)
      else do {
        x \<leftarrow> prvShimFindFlowByPortId (se_mem env 0) port (xShimFlowsList s);
        (case x of
           None \<Rightarrow>
             if \<not> se_mem env 1 then Some (False, s)
             else do {
               pa \<leftarrow> pxNameToGPA (se_mem env 2) (se_mem env 3) (se_mem env 4) dst;
               let f = \<lparr> sf_xPortId = port, ePortIdState = ePENDING, pxDestPa = pa, pxUserIpcp = user,
                         pxSduQueue = se_fifo env, sf_freed = False \<rparr>;
               if \<not> xIsGPAOK pa then do { _ \<leftarrow> prvShimUnbindDestroyFlow (se_junk env) f; Some (False, s) }
               else if se_fifo env
               then Some (True, s \<lparr> xShimFlowsList := vShimFlowAdd f (xShimFlowsList s) \<rparr>)
               else do {
                 (_, f) \<leftarrow> prvShimUnbindDestroyFlow (se_junk env) f;
                 Some (False, s \<lparr> xShimFlowsList := vShimFlowAdd f (xShimFlowsList s) \<rparr>) } }
         | Some x \<Rightarrow> Some (ePortIdState (xShimFlowsList s ! x) = ePENDING, s)) })"

text \<open>The flow is bound in the normal IPC process of the node.\<close>

definition xShimFlowAllocateResponse ::
  "shim_env \<Rightarrow> bool \<Rightarrow> u32 \<Rightarrow> shim_data \<Rightarrow> dplane \<Rightarrow> (bool \<times> shim_data \<times> dplane) option" where
  "xShimFlowAllocateResponse env shim port s d =
     (if \<not> is_port_id_ok port \<or> \<not> shim then Some (False, s, d)
      else do {
        x \<leftarrow> prvShimFindFlowByPortId (se_mem env 0) port (xShimFlowsList s);
        (case x of
           None \<Rightarrow> Some (False, s, d)
         | Some x \<Rightarrow>
             if ePortIdState (xShimFlowsList s ! x) \<noteq> ePENDING then Some (False, s, d)
             else do {
               _ \<leftarrow> pxUserIpcp (xShimFlowsList s ! x);
               let (ok, d) = xNormalFlowBinding port d;
               if \<not> ok then Some (False, s, d)
               else Some (True, s \<lparr> xShimFlowsList := (xShimFlowsList s)[x := (xShimFlowsList s ! x)
                      \<lparr> ePortIdState := eALLOCATED, sf_xPortId := port \<rparr>] \<rparr>, d) }) })"

section \<open>Writing\<close>

text \<open>The answer: whether the unit was taken, the buffer in the event for the stack task and
  the free descriptors.  Only the bytes of the local array that were written are known.\<close>

definition xShimIEEE802154SDUWrite ::
  "shim_env \<Rightarrow> u32 \<Rightarrow> du_t \<Rightarrow> shim_data \<Rightarrow> nat list \<Rightarrow> (bool \<times> NetworkBufferDescriptor_t option \<times> nat list) option" where
  "xShimIEEE802154SDUWrite env port du s free =
     (let n = xDataLength (pxNetworkBuffer du);
          drop_du = (\<lambda>free. do { (_, free) \<leftarrow> xDuDestroy du free; Some (False, None, free) })
      in if n > ieee802154_MTU then drop_du free
         else do {
         x \<leftarrow> prvShimFindFlowByPortId (se_mem env 0) port (xShimFlowsList s);
         (case x of
           None \<Rightarrow> drop_du free
         | Some x \<Rightarrow>
             if ePortIdState (xShimFlowsList s ! x) \<noteq> eALLOCATED then drop_du free
             else do {
               let hdr = ieee802154_header ieee802154_PANID_SOURCE ieee802154_SHORT_ADDRESS
                           ieee802154_SHORT_ADDRESS_DESTINATION False 255;
               (new, free) \<leftarrow> pxGetNetworkBufferWithDescriptor (se_storage env) (length hdr + n) free;
               (case new of
                  None \<Rightarrow> drop_du free
                | Some new \<Rightarrow> do {
                    src \<leftarrow> pucEthernetBuffer (pxNetworkBuffer du);
                    dst \<leftarrow> pucEthernetBuffer new;
                    if length src < n \<or> length dst < length hdr + n then None
                    else do {
                      let buffer = [word_of_nat (length hdr + n)] @ hdr @ take n src;
                      let new = new \<lparr> pucEthernetBuffer := Some (take (length hdr + n) buffer @ drop (length hdr + n) dst),
                                      xDataLength := length hdr + n \<rparr>;
                      (_, free) \<leftarrow> xDuDestroy du free;
                      if se_queue env then Some (True, Some new, free)
                      else do {
                        free \<leftarrow> vReleaseNetworkBufferAndDescriptor new free;
                        Some (False, None, free) } } }) }) })"

section \<open>The stack task\<close>

definition xNormalRegistering :: "shim_env \<Rightarrow> name_t option \<Rightarrow> name_t option \<Rightarrow> shim_data \<Rightarrow> (bool \<times> shim_data) option" where
  "xNormalRegistering env difname nam s = xShim802154ApplicationRegister env nam difname s"

definition destinationInfo :: name_t where
  "destinationInfo = \<lparr> pcProcessName = Some REMOTE_ADDRESS_AP_NAME, pcProcessInstance = Some ''1'',
     pcEntityName = Some '''', pcEntityInstance = Some '''' \<rparr>"

definition prvIpcpFlowRequest :: "shim_env \<Rightarrow> ipcManager \<Rightarrow> u32 \<Rightarrow> name_t option \<Rightarrow> shim_data \<Rightarrow> shim_data option" where
  "prvIpcpFlowRequest env im port nam s = do {
     (_, s) \<leftarrow> xShim802154FlowAllocateRequest env (pxIpcManagerActiveNormalInstance (xInstanceTable im)) nam
       (Some destinationInfo) port s;
     Some s }"

text \<open>The event that the shim has enrolled.  The unit that starts the enrollment of the normal
  IPC process goes to the shim as it is then: \<open>nv\<close> is the environment of the node over a
  shim.  \<open>n1\<close> is the variable \<open>xN1PortId\<close>.\<close>

definition shim_enrolled_event ::
  "shim_env \<Rightarrow> (shim_data \<Rightarrow> nenv) \<Rightarrow> bool \<Rightarrow> name_t option \<Rightarrow> name_t option
   \<Rightarrow> ipcManager \<times> u32 \<times> shim_data \<times> node \<Rightarrow> (ipcManager \<times> u32 \<times> shim_data \<times> node) option" where
  "shim_enrolled_event env nv enrollee nam difname = (\<lambda>(im, n1, s, nd). do {
     (ok, s) \<leftarrow> xNormalRegistering env difname nam s;
     if \<not> ok then Some (im, n1, s, nd)
     else do {
       (port, im) \<leftarrow> xIpcMngrAllocatePortId im;
       s \<leftarrow> prvIpcpFlowRequest env im port nam s;
       (_, s, d) \<leftarrow> xShimFlowAllocateResponse env (pxIpcManagerActiveShimInstance (xInstanceTable im) \<noteq> None) port s (nd_dp nd);
       nd \<leftarrow> vEnrollmentInit (nv s) enrollee port (nd \<lparr> nd_dp := d \<rparr>);
       Some (im, port, s, nd) } })"


section \<open>Examples\<close>

definition ex_senv :: shim_env where
  "ex_senv = \<lparr> se_mem = (\<lambda>_. True), se_junk = False, se_fifo = True, se_storage = (\<lambda>_. True), se_queue = True,
     se_mac = replicate 6 1, se_ext = replicate 8 1 \<rparr>"

definition ex_shim :: "shimFlow_t list \<Rightarrow> shim_data" where
  "ex_shim fs = \<lparr> pxAppName = None, pxDafName = None, pxPhyDev = replicate MAC_ADDRESS_LENGTH_BYTES 0,
     xShimFlowsList = fs, sh_nic = nic_boot \<rparr>"

definition ex_flow :: shimFlow_t where
  "ex_flow = \<lparr> sf_xPortId = 1, ePortIdState = eALLOCATED, pxDestPa = None, pxUserIpcp = None, pxSduQueue = True,
     sf_freed = False \<rparr>"

definition ex_sdu :: "u8 list \<Rightarrow> du_t" where
  "ex_sdu d = \<lparr> pxPci = None, pxNetworkBuffer = \<lparr> nb_id = 7, pucEthernetBuffer = Some d, pucRinaBuffer = None,
     pucDataBuffer = None, xRinaDataLength = 0, xDataLength = length d \<rparr> \<rparr>"

lemma ex_flow_found: "prvShimFindFlowByPortId (se_mem ex_senv 0) 1 (xShimFlowsList (ex_shim [ex_flow])) = Some (Some 0)"
  by (simp add: prvShimFindFlowByPortId_def ex_senv_def ex_shim_def ex_flow_def)

lemma ex_flow_alloc: "ePortIdState (xShimFlowsList (ex_shim [ex_flow]) ! 0) = eALLOCATED"
  "se_queue ex_senv" "\<And>k. se_storage ex_senv k"
  by (simp_all add: ex_senv_def ex_shim_def ex_flow_def)

lemma ex_sdu_bytes: "pucEthernetBuffer (pxNetworkBuffer (ex_sdu d)) = Some (d @ [])"
  "xDataLength (pxNetworkBuffer (ex_sdu d)) = length d" "du_id (ex_sdu d) = 7"
  by (simp_all add: ex_sdu_def du_id_def)

definition ex_up :: nic where "ex_up = nic_boot \<lparr> xInterfaceState := True, short_address := 2 \<rparr>"


section \<open>Enrolling\<close>

lemma name_dup_some: "\<exists>d. pxRstrNameDup True True (Some n) = Some (Some d)"
  by (cases "pcProcessName n") (auto simp: pxRstrNameDup_def pxRStrNameCreate_def xRstrNameCpy_def xRstringDup_def pcRstrDup_def)

lemma name_gpa_some: "\<exists>g. pxNameToGPA True True True (Some n) = Some (Some g) \<and> gpa_ok g"
proof -
  obtain t where t: "pcNameToString True (Some n) = Some (Some t)" "t \<noteq> []"
    by (simp add: pcNameToString_def Let_def)
  then show ?thesis
    by (simp add: pxNameToGPA_def pxCreateGPA_def char_bytes_def gpa_ok_def)
qed

text \<open>A node whose shim has been created and where all goes well.\<close>

definition shim_ready :: "shim_env \<Rightarrow> shim_data \<Rightarrow> bool" where
  "shim_ready env s \<longleftrightarrow> pxAppName s = None \<and> length (pxPhyDev s) = MAC_ADDRESS_LENGTH_BYTES
     \<and> xShimFlowsList s = [] \<and> (\<forall>k. se_mem env k) \<and> se_fifo env"

lemma register_ready:
  assumes "shim_ready env s"
  obtains s' where "xShim802154ApplicationRegister env (Some a) (Some b) s = Some (True, s')"
    "pxAppName s' \<noteq> None" "xShimFlowsList s' = []" "sh_nic s' = sh_nic s"
proof -
  have m: "se_mem env k" for k using assms by (simp add: shim_ready_def)
  obtain an where an: "pxRstrNameDup True True (Some a) = Some (Some an)" using name_dup_some by blast
  obtain bn where bn: "pxRstrNameDup True True (Some b) = Some (Some bn)" using name_dup_some by blast
  obtain ga where ga: "pxNameToGPA True True True (Some a) = Some (Some ga)" "gpa_ok ga" using name_gpa_some by blast
  obtain gb where gb: "pxNameToGPA True True True (Some b) = Some (Some gb)" "gpa_ok gb" using name_gpa_some by blast
  have "xShim802154ApplicationRegister env (Some a) (Some b) s = Some (True, s \<lparr> pxAppName := Some an, pxDafName := Some bn \<rparr>)"
    using assms an bn ga gb m
    by (simp add: xShim802154ApplicationRegister_def shim_ready_def pxCreateGHA_def xIsGHAOK_def)
  then show ?thesis
    using that assms by (simp add: shim_ready_def)
qed

lemma flow_request_ready:
  assumes "\<forall>k. se_mem env k" "se_fifo env" "xShimFlowsList s = []" "is_port_id_ok port"
  obtains g where "xShim802154FlowAllocateRequest env user (Some a) (Some b) port s
    = Some (True, s \<lparr> xShimFlowsList := [\<lparr> sf_xPortId = port, ePortIdState = ePENDING, pxDestPa = Some g,
        pxUserIpcp = user, pxSduQueue = True, sf_freed = False \<rparr>] \<rparr>)"
proof -
  obtain g where g: "pxNameToGPA True True True (Some b) = Some (Some g)" "gpa_ok g" using name_gpa_some by blast
  then show ?thesis
    using assms by (intro that[of g])
      (simp add: xShim802154FlowAllocateRequest_def prvShimFindFlowByPortId_def vShimFlowAdd_def Let_def)
qed

lemma enrolled_ready:
  assumes "shim_ready env s" "pxIpcManagerActiveNormalInstance (xInstanceTable im) = Some norm"
    and "pxIpcManagerActiveShimInstance (xInstanceTable im) = Some sh"
    and "xIpcMngrAllocatePortId im = Some (port, im')" "is_port_id_ok port"
  shows "\<exists>s' f. shim_enrolled_event env nv enrollee (Some a) (Some b) (im, n1, s, nd)
      = map_option (\<lambda>nd'. (im', port, s', nd')) (prvIpcpTask_event (nv s') enrollee (ShimEnrolled True port) nd)
    \<and> xShimFlowsList s' = [f] \<and> sf_xPortId f = port \<and> sh_nic s' = sh_nic s
    \<and> ePortIdState f = (if rmt_pxN1Port (nd_dp nd) = N1Junk False then ePENDING else eALLOCATED)
    \<and> (\<forall>x nd'. shim_enrolled_event env nv enrollee (Some a) (Some b) (x, port, s', nd') = Some (x, port, s', nd'))"
proof -
  obtain s1 where s1: "xShim802154ApplicationRegister env (Some a) (Some b) s = Some (True, s1)"
      "pxAppName s1 \<noteq> None" "xShimFlowsList s1 = []" "sh_nic s1 = sh_nic s"
    using register_ready[OF assms(1)] by metis
  have tbl: "xInstanceTable im' = xInstanceTable im"
    using assms(4) by (auto simp: xIpcMngrAllocatePortId_def split: Option.bind_splits)
  let ?dst = destinationInfo
  obtain g where g: "xShim802154FlowAllocateRequest env (Some norm) (Some a) (Some ?dst) port s1
      = Some (True, s1 \<lparr> xShimFlowsList := [\<lparr> sf_xPortId = port, ePortIdState = ePENDING, pxDestPa = Some g,
          pxUserIpcp = Some norm, pxSduQueue = True, sf_freed = False \<rparr>] \<rparr>)"
    using flow_request_ready[of env s1 port "Some norm" a ?dst] assms(1,5) s1 by (auto simp: shim_ready_def)
  define s2 where "s2 = s1 \<lparr> xShimFlowsList := [\<lparr> sf_xPortId = port, ePortIdState = ePENDING, pxDestPa = Some g,
          pxUserIpcp = Some norm, pxSduQueue = True, sf_freed = False \<rparr>] \<rparr>"
  have bind: "xNormalFlowBinding port (nd_dp nd) = (rmt_pxN1Port (nd_dp nd) \<noteq> N1Junk False,
      snd (xNormalFlowBinding port (nd_dp nd)))"
    using assms(5) by (auto simp: xNormalFlowBinding_def xRmtN1PortBind_def)
  define s3 where "s3 = (if rmt_pxN1Port (nd_dp nd) = N1Junk False then s2
      else s2 \<lparr> xShimFlowsList := [\<lparr> sf_xPortId = port, ePortIdState = eALLOCATED, pxDestPa = Some g,
          pxUserIpcp = Some norm, pxSduQueue = True, sf_freed = False \<rparr>] \<rparr>)"
  have resp: "xShimFlowAllocateResponse env True port s2 (nd_dp nd)
      = Some (rmt_pxN1Port (nd_dp nd) \<noteq> N1Junk False, s3, snd (xNormalFlowBinding port (nd_dp nd)))"
    using assms(1,5) bind
    by (cases "xNormalFlowBinding port (nd_dp nd)")
      (auto simp: xShimFlowAllocateResponse_def prvShimFindFlowByPortId_def s2_def s3_def shim_ready_def
        xNormalFlowBinding_def xRmtN1PortBind_def split: if_splits)
  have "shim_enrolled_event env nv enrollee (Some a) (Some b) (im, n1, s, nd)
      = map_option (\<lambda>nd'. (im', port, s3, nd')) (prvIpcpTask_event (nv s3) enrollee (ShimEnrolled True port) nd)"
    using s1(1) assms(2-4) g resp tbl
    by (simp add: shim_enrolled_event_def xNormalRegistering_def prvIpcpFlowRequest_def s2_def map_conv_bind_option
        bind_map_option comp_def)
  moreover have "pxAppName s3 \<noteq> None" using s1(2) by (simp add: s3_def s2_def)
  then have "\<forall>x nd'. shim_enrolled_event env nv enrollee (Some a) (Some b) (x, port, s3, nd') = Some (x, port, s3, nd')"
    by (simp add: shim_enrolled_event_def xNormalRegistering_def xShim802154ApplicationRegister_def)
  ultimately show ?thesis
    using s1(4) by (intro exI[of _ s3]) (auto simp: s3_def s2_def)
qed

text \<open>C17: When the shim reports that it has enrolled, the normal IPC process registers, asks
  for a flow on the next port number and the shim binds it: the node does what the event
  \<open>ShimEnrolled\<close> of its model says, with that port and over the shim as it is then, and
  the shim's flow is allocated exactly when the RMT bound the port.  The event a second time
  changes nothing.\<close>

theorem shim_enrolls:
  assumes "shim_ready env s" "pxIpcManagerActiveNormalInstance (xInstanceTable im) = Some norm"
    and "pxIpcManagerActiveShimInstance (xInstanceTable im) = Some sh"
    and "xIpcMngrAllocatePortId im = Some (port, im')" "is_port_id_ok port"
  shows "\<exists>s' f. shim_enrolled_event env nv enrollee (Some a) (Some b) (im, n1, s, nd)
      = map_option (\<lambda>nd'. (im', port, s', nd')) (prvIpcpTask_event (nv s') enrollee (ShimEnrolled True port) nd)
    \<and> xShimFlowsList s' = [f] \<and> sf_xPortId f = port
    \<and> ePortIdState f = (if rmt_pxN1Port (nd_dp nd) = N1Junk False then ePENDING else eALLOCATED)
    \<and> (\<forall>x nd'. shim_enrolled_event env nv enrollee (Some a) (Some b) (x, port, s', nd') = Some (x, port, s', nd'))"
  using enrolled_ready[OF assms, of nv enrollee a b n1 nd] by blast

definition ex_instances :: ipcManager where
  "ex_instances = \<lparr> pxPidm = the (pxNumMgrCreate True True MAX_PORT_ID), pxIpcpIdm = the (pxNumMgrCreate True True MAX_IPCP_ID),
     xInstanceTable = map inst_row [\<lparr> ii_xId = 1, ii_xType = eNormal \<rparr>, \<lparr> ii_xId = 2, ii_xType = eShim802154 \<rparr>],
     im_buffers = nb_boot \<rparr>"

lemma ex_enrolls_runs: "\<not> Option.is_none (prvIpcpTask_event ex_nenv False (ShimEnrolled True 1) (node_boot ex_nenv))"
  by code_simp

theorem shim_enrolls_witness:
  "\<exists>im' s' nd' f. shim_enrolled_event ex_senv (\<lambda>_. ex_nenv) False (Some destinationInfo) (Some destinationInfo)
       (ex_instances, 0, ex_shim [], node_boot ex_nenv) = Some (im', 1, s', nd')
    \<and> xShimFlowsList s' = [f] \<and> sf_xPortId f = 1"
proof -
  obtain nd' where nd: "prvIpcpTask_event ex_nenv False (ShimEnrolled True 1) (node_boot ex_nenv) = Some nd'"
    using ex_enrolls_runs by (auto simp: Option.is_none_def)
  obtain pidm where p: "pxNumMgrCreate True True MAX_PORT_ID = Some pidm"
    by (simp add: pxNumMgrCreate_def xNumMgrInit_def pxBitArrayAlloc_def MAX_PORT_ID_def)
  have pw: "\<not> xNumMgrIsAllocated pidm 1" "numCnt pidm = 2048" "lastAllocated pidm = 0"
    using nm_wf_create(2,3)[OF p] nm_wf_create(4)[OF p, of 1] by (simp_all add: MAX_PORT_ID_def)
  then obtain im' where a: "xIpcMngrAllocatePortId ex_instances = Some (1, im')"
    using alloc_next[of pidm] by (simp add: xIpcMngrAllocatePortId_def ex_instances_def p)
  have r: "shim_ready ex_senv (ex_shim [])"
    by (simp add: shim_ready_def ex_senv_def ex_shim_def)
  have i: "pxIpcManagerActiveNormalInstance (xInstanceTable ex_instances) = Some \<lparr> ii_xId = 1, ii_xType = eNormal \<rparr>"
    "pxIpcManagerActiveShimInstance (xInstanceTable ex_instances) = Some \<lparr> ii_xId = 2, ii_xType = eShim802154 \<rparr>"
    by (simp_all add: pxIpcManagerActiveNormalInstance_def pxIpcManagerActiveShimInstance_def
        pxIpcManagerFindInstanceByType_def ex_instances_def)
  have "is_port_id_ok 1" by (simp add: is_port_id_ok_def)
  from shim_enrolls[OF r i a this, of "\<lambda>_. ex_nenv" False destinationInfo destinationInfo 0 "node_boot ex_nenv"] nd
  show ?thesis by fastforce
qed


section \<open>From one shim to the other\<close>

definition data_header :: "u8 list" where
  "data_header = ieee802154_header ieee802154_PANID_SOURCE ieee802154_SHORT_ADDRESS
     ieee802154_SHORT_ADDRESS_DESTINATION False 255"

lemma data_header_bytes: "data_header = [0x41, 0x88, 0, 0x42, 0x42, 2, 0, 1, 0]"
  by (simp add: data_header_def ieee802154_header_def mac_fcs_bytes_def flag_bit_def le16_def eFRAME_TYPE_DATA_def
      ADDR_MODE_SHORT_def ieee802154_PANID_SOURCE_def ieee802154_SHORT_ADDRESS_def
      ieee802154_SHORT_ADDRESS_DESTINATION_def)

text \<open>The length byte comes first and takes a place of the bytes that are copied.\<close>

lemma sdu_write_frame:
  assumes "prvShimFindFlowByPortId (se_mem env 0) port (xShimFlowsList s) = Some (Some x)"
    and "ePortIdState (xShimFlowsList s ! x) = eALLOCATED" "se_queue env" "\<And>k. se_storage env k"
    and "pucEthernetBuffer (pxNetworkBuffer du) = Some (d @ pad)" "xDataLength (pxNetworkBuffer du) = length d"
    and "d \<noteq> []" "length d \<le> ieee802154_MTU" "free = i # rest" "du_id du \<notin> set rest"
  obtains tx z where "xShimIEEE802154SDUWrite env port du s free = Some (True, Some tx, du_id du # rest)"
    "pucEthernetBuffer tx = Some (word_of_nat (length d + 9) # data_header @ butlast d @ 0 # z)"
    "xDataLength tx = length d + 9" "nb_id tx = i"
proof -
  let ?n = "length d + 9"
  let ?z = "replicate (buffer_size ?n - ?n - 1) (0::u8)"
  have n: "length d \<le> 127" "0 < length d" using assms(7,8) by (simp_all add: ieee802154_MTU_def)
  have bs: "?n + 2 \<le> buffer_size ?n" using buffer_size_more[of ?n] n by simp
  have h: "length data_header = 9" by (simp add: data_header_bytes)
  have fb: "drop ?n (fresh_buffer i (buffer_size ?n)) = 0 # ?z"
    using bs by (simp add: drop_fresh_buffer replicate_Suc[symmetric] del: replicate_Suc)
  have tk: "take ?n (word_of_nat ?n # data_header @ d) = word_of_nat ?n # data_header @ butlast d"
    using h n by (simp add: take_Cons' butlast_conv_take Suc_le_eq)
  define tx where "tx = \<lparr> nb_id = i, pucEthernetBuffer = Some (word_of_nat ?n # data_header @ butlast d @ 0 # ?z),
      pucRinaBuffer = None, pucDataBuffer = None, xRinaDataLength = 0, xDataLength = ?n \<rparr>"
  have "xShimIEEE802154SDUWrite env port du s free = Some (True, Some tx, du_id du # rest)"
    using assms h n bs fb tk
    by (simp add: xShimIEEE802154SDUWrite_def ieee802154_MTU_def data_header_def[symmetric] Let_def
        pxGetNetworkBufferWithDescriptor_def tx_def xDuDestroy_def vReleaseNetworkBufferAndDescriptor_def
        du_id_def add.commute)
  then show ?thesis
    by (rule that) (simp_all add: tx_def)
qed


lemma small_u8: "k < 256 \<Longrightarrow> unat (word_of_nat k :: u8) = k \<and> ((word_of_nat k :: u8) = 0 \<longleftrightarrow> k = 0)"
  by (simp add: u32_eq_nat unat_of_nat)

lemma small_u16: "k < 65536 \<Longrightarrow> (word_of_nat k :: u16) = 0 \<longleftrightarrow> k = 0"
  by (simp add: u32_eq_nat unat_of_nat)

text \<open>What is asked of the radio: a frame arrives with its length, and with its bytes but for
  the last two, where the checksum goes.\<close>

definition radio_delivers :: "(u8 list \<Rightarrow> u8 list) \<Rightarrow> bool" where
  "radio_delivers radio \<longleftrightarrow> (\<forall>n bs. unat n \<le> length bs \<longrightarrow>
     (\<exists>cs. radio (n # bs) = n # cs \<and> length cs = unat n \<and> take (unat n - 2) cs = take (unat n - 2) bs))"

text \<open>A radio that replaces the last two bytes by zeros.\<close>

definition ex_radio :: "u8 list \<Rightarrow> u8 list" where
  "ex_radio f = hd f # take (unat (hd f)) (take (unat (hd f) - 2) (tl f) @ [0, 0])"

lemma ex_radio_delivers: "radio_delivers ex_radio"
proof -
  have "length (take (unat n) (take (unat n - 2) bs @ [0, 0])) = unat n
      \<and> take (unat n - 2) (take (unat n) (take (unat n - 2) bs @ [0, 0])) = take (unat n - 2) bs"
    if "unat n \<le> length bs" for n :: u8 and bs :: "u8 list"
    using that by (auto simp: min_def take_Cons')
  then show ?thesis
    by (simp add: radio_delivers_def ex_radio_def del: take_append length_take)
qed

lemma rx_task_input:
  assumes "esp_ieee802154_receive_done (Some (n # bs)) ifc = Some ifc'" "n \<noteq> 0" "unat n \<le> IEEE802154_MAX_FRAME_SIZE"
    and "length bs = unat n" "free = j # rest" "\<And>k. mem k"
  obtains nb where "vShimRxTask mem True free ifc' = Some (Some (nb, unat n), rest, ifc' \<lparr> rx_notified := 0 \<rparr>)"
    "nb_id nb = j" "pucEthernetBuffer nb = Some (bs @ drop (unat n) (fresh_buffer j (buffer_size (unat n))))"
proof -
  have i: "ifc' = ifc \<lparr> rx_temp_buffer := bs @ drop (unat n) (rx_temp_buffer ifc), rx_temp_len := unat n,
      rx_notified := rx_notified ifc + 1 \<rparr>"
    using assms(1-4) by (auto simp: esp_ieee802154_receive_done_def)
  have l: "unat n + 2 \<le> buffer_size (unat n)"
    using buffer_size_more[of "unat n"] assms(3) by (simp add: IEEE802154_MAX_FRAME_SIZE_def)
  have "\<not> length (fresh_buffer j (buffer_size (unat n))) < unat n"
    using l by (simp add: fresh_buffer_def length_le32)
  moreover have "unat n \<noteq> 0" using assms(2) by (simp add: unat_eq_0)
  ultimately show ?thesis
    using l assms(4)
    by (intro that[of "\<lparr> nb_id = j, pucEthernetBuffer = Some (bs @ drop (unat n) (fresh_buffer j (buffer_size (unat n)))),
          pucRinaBuffer = None, pucDataBuffer = None, xRinaDataLength = 0, xDataLength = buffer_size (unat n) \<rparr>"])
      (auto simp: i vShimRxTask_def vIeee802154NetworkInterfaceInput_def pxGetNetworkBufferWithDescriptor_def assms(5,6) Let_def)
qed

text \<open>A frame with the header of \<open>data_header\<close> and a unit of \<open>n\<close> bytes, received by the node
  that it is for.\<close>

lemma process_data_frame:
  assumes "pucEthernetBuffer nb = Some (P @ tl8)" "length P = n + 9" "take 8 P = take 8 data_header"
    and "n < 60000"
  shows "xProcessIEEE802154Packet nv True True ifc nb (n + 9) nd =
    (if short_address ifc = ieee802154_SHORT_ADDRESS_DESTINATION
     then do { (r, nd) \<leftarrow> xNormalDuEnqueue nv 1 \<lparr> pxPci = None, pxNetworkBuffer =
                 nb \<lparr> pucRinaBuffer := Some (drop 9 P @ tl8), xRinaDataLength := n \<rparr> \<rparr> nd;
               if \<not> r then frame_release False nb nd else Some (True, nd) }
     else frame_release False nb nd)"
proof -
  define Q where "Q = drop 8 P"
  have "P = take 8 P @ drop 8 P" by simp
  then have P: "P = [0x41, 0x88, 0, 0x42, 0x42, 2, 0, 1] @ Q"
    using assms(3) by (simp add: Q_def data_header_bytes)
  have Q: "length Q = n + 1" using assms(2) P by simp
  have d9: "drop 9 (P @ tl8) = drop 9 P @ tl8" using assms(2) by simp
  have f: "mac_fcs_parse (P @ tl8) = Some \<lparr> frameType = eFRAME_TYPE_DATA, secure = False,
       framePending = False, ackReqd = False, panIdCompressed = True, rfu1 = False, sequenceNumberSuppression = False,
       informationElementsPresent = False, destAddrType = ADDR_MODE_SHORT, frameVer = 0, srcAddrType = ADDR_MODE_SHORT \<rparr>"
    by (simp add: P eFRAME_TYPE_DATA_def ADDR_MODE_SHORT_def)
  have "of_le16 ((P @ tl8) ! 5) ((P @ tl8) ! 6) = ieee802154_SHORT_ADDRESS_DESTINATION"
    by (simp add: P of_le16_def ieee802154_SHORT_ADDRESS_DESTINATION_def)
  then have d: "frame_dest a l ADDR_MODE_SHORT (P @ tl8)
      = Some (Some (9, if a = ieee802154_SHORT_ADDRESS_DESTINATION then 1 else 0))" for a l
    using Q by (auto simp: frame_dest_def P ADDR_MODE_SHORT_def ADDR_MODE_NONE_def ieee802154_SHORT_ADDRESS_DESTINATION_def)
  have n: "n mod 65536 = n" "\<not> length P + length tl8 < n + 9"
    using assms(2,4) by simp_all
  show ?thesis
    using n(2) unfolding xProcessIEEE802154Packet_def assms(1)
    by (simp add: f d n(1) Let_def d9 assms(2) del: drop_append)
qed


text \<open>A frame that is handed to the radio, and one that comes from it.\<close>

lemma frame_output:
  assumes "pucEthernetBuffer tx = Some f" "xDataLength tx = n" "0 < n" "n < 65536" "nb_id tx \<notin> set free" "xInterfaceState ifc"
  shows "xIeee802154NetworkInterfaceOutput (Some tx) True ifc free = Some (True, Some f, nb_id tx # free)"
  using assms small_u16[of n]
  by (simp add: xIeee802154NetworkInterfaceOutput_def vIeee802154FrameSend_def vReleaseNetworkBufferAndDescriptor_def Let_def)

lemma frame_input:
  assumes radio: "radio_delivers radio" and d: "d \<noteq> []" "length d \<le> 118"
    and rcv: "free2 = j # rest2" "\<And>k. mem2 k"
  obtains bs ifc3 nb where
    "esp_ieee802154_receive_done (Some (radio (word_of_nat (length d + 9) # data_header @ butlast d @ 0 # z))) ifc2 = Some ifc3"
    "vShimRxTask mem2 True free2 ifc3 = Some (Some (nb, length d + 9), rest2, ifc3 \<lparr> rx_notified := 0 \<rparr>)"
    "nb_id nb = j" "take (length d - 2) bs = take (length d - 2) d" "length d \<le> length bs"
    "short_address ifc3 = short_address ifc2"
    "\<forall>nv ifc nd. xProcessIEEE802154Packet nv True True ifc nb (length d + 9) nd =
        (if short_address ifc = ieee802154_SHORT_ADDRESS_DESTINATION
         then do { (r, nd) \<leftarrow> xNormalDuEnqueue nv 1 \<lparr> pxPci = None, pxNetworkBuffer =
                     nb \<lparr> pucRinaBuffer := Some bs, xRinaDataLength := length d \<rparr> \<rparr> nd;
                   if \<not> r then frame_release False nb nd else Some (True, nd) }
         else frame_release False nb nd)"
proof -
  let ?n = "length d + 9" and ?w = "word_of_nat (length d + 9) :: u8"
  have n: "unat ?w = ?n" "?w \<noteq> 0" "?n \<le> 127" "?n mod 65536 = ?n"
    using d(2) small_u8[of ?n] by (simp_all del: of_nat_add)
  let ?b = "data_header @ butlast d @ 0 # z"
  have bl: "length data_header = 9" "?n \<le> length ?b"
    using d(1) by (simp_all add: data_header_bytes)
  obtain P where P: "radio (?w # ?b) = ?w # P" "length P = ?n" "take (?n - 2) P = take (?n - 2) ?b"
    using radio n(1) bl(2) unfolding radio_delivers_def by metis
  define ifc3 where "ifc3 = ifc2 \<lparr> rx_temp_buffer := P @ drop ?n (rx_temp_buffer ifc2), rx_temp_len := ?n,
      rx_notified := rx_notified ifc2 + 1 \<rparr>"
  have rd: "esp_ieee802154_receive_done (Some (?w # P)) ifc2 = Some ifc3"
    using n P(2) by (simp add: esp_ieee802154_receive_done_def IEEE802154_MAX_FRAME_SIZE_def ifc3_def)
  have m: "unat ?w \<le> IEEE802154_MAX_FRAME_SIZE" "length P = unat ?w"
    using n P(2) by (simp_all add: IEEE802154_MAX_FRAME_SIZE_def)
  obtain nb where nb: "vShimRxTask mem2 True free2 ifc3 = Some (Some (nb, unat ?w), rest2, ifc3 \<lparr> rx_notified := 0 \<rparr>)"
      "nb_id nb = j" "pucEthernetBuffer nb = Some (P @ drop (unat ?w) (fresh_buffer j (buffer_size (unat ?w))))"
    by (rule rx_task_input[OF rd n(2) m rcv])
  let ?bs = "drop 9 P @ drop (unat ?w) (fresh_buffer j (buffer_size (unat ?w)))"
  have "min 8 (?n - 2) = 8" using d(1) by (cases d) auto
  then have "take 8 P = take 8 ?b"
    using arg_cong[OF P(3), of "take 8"] unfolding take_take by simp
  then have t8: "take 8 P = take 8 data_header" by (simp add: data_header_bytes)
  have "?n - 2 - 9 = length d - 2" "drop 9 ?b = butlast d @ 0 # z" by (simp_all add: bl(1))
  then have "take (length d - 2) (drop 9 P) = take (length d - 2) (butlast d @ 0 # z)"
    using arg_cong[OF P(3), of "drop 9"] unfolding drop_take by (simp only:)
  also have "\<dots> = take (length d - 2) d"
    by (simp add: butlast_conv_take min_def) arith
  finally have bs: "take (length d - 2) ?bs = take (length d - 2) d" "length d \<le> length ?bs"
    using P(2) by simp_all
  have "length d < 60000" using d(2) by simp
  note proc = allI[OF allI[OF allI[OF process_data_frame[OF nb(3) P(2) t8 this]]]]
  show ?thesis
  proof (rule that[of ifc3 nb ?bs])
    show "esp_ieee802154_receive_done (Some (radio (?w # ?b))) ifc2 = Some ifc3" using rd P(1) by simp
    show "vShimRxTask mem2 True free2 ifc3 = Some (Some (nb, ?n), rest2, ifc3 \<lparr> rx_notified := 0 \<rparr>)"
      using nb(1) unfolding n(1) .
    show "short_address ifc3 = short_address ifc2" by (simp add: ifc3_def)
  qed (fact nb(2) bs proc)+
qed


text \<open>C13: A unit of up to 118 bytes crosses the link between two nodes, if the radio delivers
  frames but for their last two bytes: what the shim of the sender queues is transmitted
  as one frame, with the header and all bytes of the unit but the last, which the length
  byte has pushed out and for which 0 is sent; the receiver, when its short address is the
  destination in the settings, hands its normal IPC process a unit of the same length whose
  bytes are those of the sender but for the last two, and otherwise, as a node with the
  same settings, drops it.  The sender's descriptors are all free again.\<close>

theorem unit_crosses_link:
  assumes flow: "prvShimFindFlowByPortId (se_mem env 0) port (xShimFlowsList s) = Some (Some x)"
      "ePortIdState (xShimFlowsList s ! x) = eALLOCATED"
    and env: "se_queue env" "\<And>k. se_storage env k"
    and du: "pucEthernetBuffer (pxNetworkBuffer du) = Some (d @ pad)" "xDataLength (pxNetworkBuffer du) = length d"
      "d \<noteq> []" "length d \<le> 118"
    and free: "free = i # rest" "distinct (du_id du # i # rest)" and up: "xInterfaceState ifc"
    and radio: "radio_delivers radio"
    and rcv: "free2 = j # rest2" "\<And>k. mem2 k"
  shows "\<exists>tx z bs ifc3 nb. xShimIEEE802154SDUWrite env port du s free = Some (True, Some tx, du_id du # rest)
    \<and> xIeee802154NetworkInterfaceOutput (Some tx) True ifc (du_id du # rest)
        = Some (True, Some (word_of_nat (length d + 9) # data_header @ butlast d @ 0 # z), i # du_id du # rest)
    \<and> esp_ieee802154_receive_done (Some (radio (word_of_nat (length d + 9) # data_header @ butlast d @ 0 # z))) ifc2 = Some ifc3
    \<and> vShimRxTask mem2 True free2 ifc3 = Some (Some (nb, length d + 9), rest2, ifc3 \<lparr> rx_notified := 0 \<rparr>)
    \<and> take (length d - 2) bs = take (length d - 2) d \<and> length d \<le> length bs
    \<and> xProcessIEEE802154Packet nv True True ifc3 nb (length d + 9) nd =
        (if short_address ifc2 = ieee802154_SHORT_ADDRESS_DESTINATION
         then do { (r, nd) \<leftarrow> xNormalDuEnqueue nv 1 \<lparr> pxPci = None, pxNetworkBuffer =
                     nb \<lparr> pucRinaBuffer := Some bs, xRinaDataLength := length d \<rparr> \<rparr> nd;
                   if \<not> r then frame_release False nb nd else Some (True, nd) }
         else frame_release False nb nd)"
proof -
  let ?n = "length d + 9" and ?w = "word_of_nat (length d + 9) :: u8"
  have dl: "length d \<le> ieee802154_MTU" using du(4) by (simp add: ieee802154_MTU_def)
  have "du_id du \<notin> set rest" using free(2) by simp
  from sdu_write_frame[OF flow env du(1,2,3) dl free(1) this] obtain tx z where
    tx: "xShimIEEE802154SDUWrite env port du s free = Some (True, Some tx, du_id du # rest)"
      "pucEthernetBuffer tx = Some (?w # data_header @ butlast d @ 0 # z)" "xDataLength tx = ?n" "nb_id tx = i"
    by blast
  have "nb_id tx \<notin> set (du_id du # rest)" "?n < 65536" using free(2) tx(4) du(4) by auto
  with frame_output[OF tx(2,3) _ _ _ up] have
    out: "xIeee802154NetworkInterfaceOutput (Some tx) True ifc (du_id du # rest)
      = Some (True, Some (?w # data_header @ butlast d @ 0 # z), i # du_id du # rest)"
    by (simp add: tx(4))
  obtain bs ifc3 nb where
    i: "esp_ieee802154_receive_done (Some (radio (?w # data_header @ butlast d @ 0 # z))) ifc2 = Some ifc3"
      "vShimRxTask mem2 True free2 ifc3 = Some (Some (nb, ?n), rest2, ifc3 \<lparr> rx_notified := 0 \<rparr>)"
    and "nb_id nb = j"
    and j: "take (length d - 2) bs = take (length d - 2) d" "length d \<le> length bs" and sh: "short_address ifc3 = short_address ifc2"
    and proc: "\<forall>nv ifc nd. xProcessIEEE802154Packet nv True True ifc nb ?n nd =
        (if short_address ifc = ieee802154_SHORT_ADDRESS_DESTINATION
         then do { (r, nd) \<leftarrow> xNormalDuEnqueue nv 1 \<lparr> pxPci = None, pxNetworkBuffer =
                     nb \<lparr> pucRinaBuffer := Some bs, xRinaDataLength := length d \<rparr> \<rparr> nd;
                   if \<not> r then frame_release False nb nd else Some (True, nd) }
         else frame_release False nb nd)"
    by (rule frame_input[OF radio du(3,4) rcv, where z = z and ?ifc2.0 = ifc2])
  show ?thesis
    by (rule exI[of _ tx], rule exI[of _ z], rule exI[of _ bs], rule exI[of _ ifc3], rule exI[of _ nb], intro conjI)
      (fact tx(1) out i j proc[THEN spec[of _ nv], THEN spec[of _ ifc3], THEN spec[of _ nd], unfolded sh])+
qed

theorem unit_crosses_link_witness:
  "\<exists>tx z. xShimIEEE802154SDUWrite ex_senv 1 (ex_sdu [10, 11, 12]) (ex_shim [ex_flow]) [0, 1] = Some (True, Some tx, [7, 1])
    \<and> xIeee802154NetworkInterfaceOutput (Some tx) True ex_up [7, 1]
        = Some (True, Some (12 # data_header @ [10, 11, 0] @ z), [0, 7, 1])"
proof -
  have "distinct [7, 0, 1 :: nat]" "[0, 1] = 0 # [1 :: nat]" "xInterfaceState ex_up" "[3] = 3 # ([] :: nat list)"
    by (simp_all add: ex_up_def)
  with unit_crosses_link[where env = ex_senv and port = 1 and s = "ex_shim [ex_flow]" and x = 0
      and du = "ex_sdu [10, 11, 12]" and d = "[10, 11, 12]" and pad = "[]" and free = "[0, 1]" and i = 0 and rest = "[1]"
      and ifc = ex_up and radio = ex_radio and ?free2.0 = "[3]" and j = 3 and ?rest2.0 = "[]" and ?ifc2.0 = ex_up
      and ?mem2.0 = "\<lambda>_. True" and nv = ex_nenv and nd = "ex_node ex_plane"]
    ex_flow_found ex_flow_alloc ex_sdu_bytes[of "[10, 11, 12]"] ex_radio_delivers
  show ?thesis by auto
qed


text \<open>The shim takes units of up to 127 bytes and destroys longer ones, but the header
  and the length are not counted: a unit of 119 to 127 bytes is taken and transmitted in a
  frame that every receiver drops as too large.\<close>

theorem shim_size_limits:
  assumes flow: "prvShimFindFlowByPortId (se_mem env 0) port (xShimFlowsList s) = Some (Some x)"
      "ePortIdState (xShimFlowsList s ! x) = eALLOCATED"
    and env: "se_queue env" "\<And>k. se_storage env k"
    and du: "pucEthernetBuffer (pxNetworkBuffer du) = Some (d @ pad)" "xDataLength (pxNetworkBuffer du) = length d"
      "118 < length d"
    and free: "free = i # rest" "distinct (du_id du # i # rest)" and up: "xInterfaceState ifc"
  shows "if length d \<le> 127
    then \<exists>tx f. xShimIEEE802154SDUWrite env port du s free = Some (True, Some tx, du_id du # rest)
      \<and> xIeee802154NetworkInterfaceOutput (Some tx) True ifc (du_id du # rest) = Some (True, Some f, i # du_id du # rest)
      \<and> (\<forall>n bs ifc2. hd f = n \<longrightarrow> esp_ieee802154_receive_done (Some (n # bs)) ifc2 = Some ifc2)
    else xShimIEEE802154SDUWrite env port du s free = Some (False, None, du_id du # free)"
proof (cases "length d \<le> 127")
  case True
  let ?n = "length d + 9" and ?w = "word_of_nat (length d + 9) :: u8"
  have "d \<noteq> []" "length d \<le> ieee802154_MTU" "du_id du \<notin> set rest"
    using du(3) True free(2) by (auto simp: ieee802154_MTU_def)
  from sdu_write_frame[OF flow env du(1,2) this(1,2) free(1) this(3)] obtain tx z where
    tx: "xShimIEEE802154SDUWrite env port du s free = Some (True, Some tx, du_id du # rest)"
      "pucEthernetBuffer tx = Some (?w # data_header @ butlast d @ 0 # z)" "xDataLength tx = ?n" "nb_id tx = i"
    by blast
  have nz: "(word_of_nat ?n :: u16) \<noteq> 0" and w: "unat ?w = ?n"
    using True small_u16[of ?n] small_u8[of ?n] by (simp_all del: of_nat_add)
  have "xIeee802154NetworkInterfaceOutput (Some tx) True ifc (du_id du # rest)
      = Some (True, Some (?w # data_header @ butlast d @ 0 # z), i # du_id du # rest)"
    using up tx free(2) nz
    by (simp add: xIeee802154NetworkInterfaceOutput_def vIeee802154FrameSend_def vReleaseNetworkBufferAndDescriptor_def
        Let_def del: of_nat_add)
  moreover have "esp_ieee802154_receive_done (Some (?w # bs)) ifc2 = Some ifc2" for bs ifc2
    using w du(3) by (simp add: esp_ieee802154_receive_done_def IEEE802154_MAX_FRAME_SIZE_def del: of_nat_add)
  ultimately have "xShimIEEE802154SDUWrite env port du s free = Some (True, Some tx, du_id du # rest)
      \<and> xIeee802154NetworkInterfaceOutput (Some tx) True ifc (du_id du # rest)
        = Some (True, Some (?w # data_header @ butlast d @ 0 # z), i # du_id du # rest)
      \<and> (\<forall>n bs ifc2. hd (?w # data_header @ butlast d @ 0 # z) = n
        \<longrightarrow> esp_ieee802154_receive_done (Some (n # bs)) ifc2 = Some ifc2)"
    using tx(1) by simp
  then show ?thesis
    using True by (simp only: if_True) blast
next
  case False
  have "du_id du \<notin> set free" using free by simp
  then show ?thesis
    using False du(2) by (simp add: xShimIEEE802154SDUWrite_def ieee802154_MTU_def xDuDestroy_def
        vReleaseNetworkBufferAndDescriptor_def du_id_def Let_def)
qed

theorem shim_size_limits_witness:
  "\<exists>tx f. xShimIEEE802154SDUWrite ex_senv 1 (ex_sdu (replicate 120 5)) (ex_shim [ex_flow]) [0, 1] = Some (True, Some tx, [7, 1])
      \<and> xIeee802154NetworkInterfaceOutput (Some tx) True ex_up [7, 1] = Some (True, Some f, [0, 7, 1])"
proof -
  have "distinct [7, 0, 1 :: nat]" "[0, 1] = 0 # [1 :: nat]" "xInterfaceState ex_up" "118 < length (replicate 120 (5 :: u8))"
    by (simp_all add: ex_up_def)
  with shim_size_limits[where env = ex_senv and port = 1 and s = "ex_shim [ex_flow]" and x = 0
      and du = "ex_sdu (replicate 120 5)" and d = "replicate 120 5" and pad = "[]" and free = "[0, 1]" and i = 0
      and rest = "[1]" and ifc = ex_up]
    ex_flow_found ex_flow_alloc ex_sdu_bytes[of "replicate 120 5"]
  show ?thesis by auto
qed

text \<open>A frame for this node that is cut off within the source address, after 7 or 8 bytes,
  is not refused: the length of its unit wraps to more than 65000 bytes, and reading them is
  undefined.\<close>

theorem runt_frame_undefined:
  assumes "L = 7 \<or> L = 8" "short_address ifc = ieee802154_SHORT_ADDRESS_DESTINATION"
    and "free = j # rest" "\<And>k. mem2 k"
  shows "\<exists>ifc' nb. esp_ieee802154_receive_done (Some (word_of_nat L # take L data_header)) ifc = Some ifc'
    \<and> vShimRxTask mem2 True free ifc' = Some (Some (nb, L), rest, ifc' \<lparr> rx_notified := 0 \<rparr>)
    \<and> xProcessIEEE802154Packet nv mem normal ifc' nb L nd = None"
proof -
  let ?P = "take L data_header"
  have l: "length ?P = L" "unat (word_of_nat L :: u8) = L" "(word_of_nat L :: u8) \<noteq> 0" "L \<le> IEEE802154_MAX_FRAME_SIZE"
    using assms(1) by (auto simp: data_header_bytes IEEE802154_MAX_FRAME_SIZE_def)
  define ifc' where "ifc' = ifc \<lparr> rx_temp_buffer := ?P @ drop L (rx_temp_buffer ifc), rx_temp_len := L,
      rx_notified := rx_notified ifc + 1 \<rparr>"
  have rd: "esp_ieee802154_receive_done (Some (word_of_nat L # ?P)) ifc = Some ifc'"
    using l by (simp add: esp_ieee802154_receive_done_def ifc'_def)
  have m: "unat (word_of_nat L :: u8) \<le> IEEE802154_MAX_FRAME_SIZE" "length ?P = unat (word_of_nat L :: u8)"
    using l by simp_all
  obtain nb where nb: "vShimRxTask mem2 True free ifc' = Some (Some (nb, unat (word_of_nat L :: u8)), rest, ifc' \<lparr> rx_notified := 0 \<rparr>)"
      "pucEthernetBuffer nb = Some (?P @ drop (unat (word_of_nat L :: u8)) (fresh_buffer j (buffer_size (unat (word_of_nat L :: u8)))))"
    by (rule rx_task_input[OF rd l(3) m assms(3,4)])
  have b: "buffer_size L = 24"
    using assms(1) by (auto simp: buffer_size_def baMINIMAL_BUFFER_SIZE_def)
  define tl7 where "tl7 = drop L (fresh_buffer j 24)"
  have e: "pucEthernetBuffer nb = Some (?P @ tl7)" "length tl7 = 24 - L"
    using nb(2) l(2) b by (simp_all add: tl7_def)
  have P: "?P = [0x41, 0x88, 0, 0x42, 0x42, 2, 0] @ (if L = 8 then [1] else [])"
    using assms(1) by (auto simp: data_header_bytes)
  have "mac_fcs_parse (?P @ tl7) = Some \<lparr> frameType = eFRAME_TYPE_DATA, secure = False,
       framePending = False, ackReqd = False, panIdCompressed = True, rfu1 = False, sequenceNumberSuppression = False,
       informationElementsPresent = False, destAddrType = ADDR_MODE_SHORT, frameVer = 0, srcAddrType = ADDR_MODE_SHORT \<rparr>"
    unfolding P by (simp add: eFRAME_TYPE_DATA_def ADDR_MODE_SHORT_def)
  moreover have "of_le16 ((?P @ tl7) ! 5) ((?P @ tl7) ! 6) = ieee802154_SHORT_ADDRESS_DESTINATION"
    unfolding P by (simp add: of_le16_def ieee802154_SHORT_ADDRESS_DESTINATION_def)
  then have "frame_dest ieee802154_SHORT_ADDRESS_DESTINATION l ADDR_MODE_SHORT (?P @ tl7) = Some (Some (9, 1))" for l
    using l(1) e(2) assms(1) by (auto simp: frame_dest_def ADDR_MODE_SHORT_def ADDR_MODE_NONE_def)
  moreover have "(L + 65536 - 9) mod 65536 = 65527 + L" "length (?P @ tl7) = 24"
    using assms(1) l(1) e(2) by auto
  ultimately have "xProcessIEEE802154Packet nv mem normal ifc' nb L nd = None"
    using assms(2) e(1) l(1) by (simp add: xProcessIEEE802154Packet_def ifc'_def Let_def)
  then show ?thesis
    using rd nb(1) unfolding l(2) by blast
qed

theorem runt_frame_undefined_witness:
  "\<exists>ifc nb. esp_ieee802154_receive_done (Some [7, 0x41, 0x88, 0, 0x42, 0x42, 2, 0]) ex_up = Some ifc
    \<and> xProcessIEEE802154Packet ex_nenv True True ifc nb 7 (ex_node ex_plane) = None"
proof -
  have "7 = 7 \<or> 7 = (8::nat)" "short_address ex_up = ieee802154_SHORT_ADDRESS_DESTINATION" "[3] = 3 # ([] :: nat list)"
    by (simp_all add: ex_up_def ieee802154_SHORT_ADDRESS_DESTINATION_def)
  from runt_frame_undefined[OF this, of "\<lambda>_. True" ex_nenv True True "ex_node ex_plane"] show ?thesis
    by (auto simp: data_header_bytes)
qed

end
