(* ===== verification/Arp_Cache.thy ===== *)
theory Arp_Cache
  imports Generic_Addr Du_Pci
begin

text \<open>
  Resolution of addresses: the cache and the packets of \<open>Shim/Arp826/Arp826.c\<close>.  The rows
  of the cache share protocol and hardware addresses with each other and with the handles
  of their users, so these are objects behind pointers; objects that nothing else refers to
  are values, and memory that is lost is not represented.  A NULL pointer is \<open>None\<close>;
  following it, or a failed assertion (assertions and debug output are compiled in), is
  undefined.  \<open>mem k\<close> says whether the \<open>k\<close>th allocation of an operation succeeds.
\<close>

section \<open>State\<close>

record ARPCacheRow_t =
  pxProtocolAddress :: "nat option"
  pxMACAddress :: "nat option"
  ucAge :: u8
  ucValid :: u8

record rinarpHandle_t =
  pxPa :: "nat option"
  pxHa :: "nat option"

datatype eARPLookupResult_t = eARPCacheMiss | eARPCacheHit | eCantSendPacket

datatype eFrameProcessingResult_t = eReleaseBuffer | eProcessBuffer | eReturnEthernetFrame | eFrameConsumed

record arp =
  gpas :: "nat \<Rightarrow> gpa_t option"
  ghas :: "nat \<Rightarrow> gha_t option"
  arp_next :: nat
  xARPCache :: "ARPCacheRow_t list"

definition ARP_CACHE_ENTRIES :: nat where "ARP_CACHE_ENTRIES = 4"
definition MAX_ARP_AGE :: u8 where "MAX_ARP_AGE = 5"
definition MAX_ARP_RETRANSMISSIONS :: u8 where "MAX_ARP_RETRANSMISSIONS = 5"
definition ARP_REQUEST :: u16 where "ARP_REQUEST = 0x0100"
definition ARP_REPLY :: u16 where "ARP_REPLY = 0x0200"
definition ETH_P_RINA :: u16 where "ETH_P_RINA = 0xD1F0"
definition ETH_P_RINA_ARP :: u16 where "ETH_P_RINA_ARP = 0x4305"

definition null_row :: ARPCacheRow_t where
  "null_row = \<lparr> pxProtocolAddress = None, pxMACAddress = None, ucAge = 0, ucValid = 0 \<rparr>"

definition arp_boot :: arp where
  "arp_boot = \<lparr> gpas = (\<lambda>_. None), ghas = (\<lambda>_. None), arp_next = 0, xARPCache = replicate ARP_CACHE_ENTRIES null_row \<rparr>"

definition new_gpa :: "gpa_t option \<Rightarrow> arp \<Rightarrow> nat option \<times> arp" where
  "new_gpa g s = (case g of None \<Rightarrow> (None, s)
     | Some g \<Rightarrow> (Some (arp_next s), s \<lparr> gpas := (gpas s)(arp_next s \<mapsto> g), arp_next := Suc (arp_next s) \<rparr>))"

definition new_gha :: "gha_t option \<Rightarrow> arp \<Rightarrow> nat option \<times> arp" where
  "new_gha h s = (case h of None \<Rightarrow> (None, s)
     | Some h \<Rightarrow> (Some (arp_next s), s \<lparr> ghas := (ghas s)(arp_next s \<mapsto> h), arp_next := Suc (arp_next s) \<rparr>))"

text \<open>What a pointer that may be NULL points to.\<close>

definition gpa_deref :: "nat option \<Rightarrow> arp \<Rightarrow> gpa_t option option" where
  "gpa_deref p s = (case p of None \<Rightarrow> Some None | Some a \<Rightarrow> map_option Some (gpas s a))"

definition gha_deref :: "nat option \<Rightarrow> arp \<Rightarrow> gha_t option option" where
  "gha_deref p s = (case p of None \<Rightarrow> Some None | Some a \<Rightarrow> map_option Some (ghas s a))"

section \<open>The cache\<close>

definition pxARPCreateGHAUnknown :: "bool \<Rightarrow> eGHAType_t \<Rightarrow> gha_t option" where
  "pxARPCreateGHAUnknown mem ty =
     (if ty = MAC_ADDR_802_3 \<and> mem then Some \<lparr> gh_xType = ty, ucBytes = replicate 6 0xFF \<rparr> else None)"

text \<open>The address of a free row is made of five bytes, of which the literal has two: \<open>junk\<close>
  is what follows it in memory.  All rows share both objects.\<close>

definition vARPInitCache :: "(nat \<Rightarrow> bool) \<Rightarrow> u8 list \<Rightarrow> arp \<Rightarrow> arp option" where
  "vARPInitCache mem junk s = do {
     let (ha, s) = new_gha (pxARPCreateGHAUnknown (mem 0) MAC_ADDR_802_3) s;
     g \<leftarrow> pxCreateGPA (mem 1) (mem 2) (Some ([0, 0] @ junk)) 5;
     let (pa, s) = new_gpa g s;
     Some (s \<lparr> xARPCache := replicate ARP_CACHE_ENTRIES
       \<lparr> pxProtocolAddress = pa, pxMACAddress = ha, ucAge = 0, ucValid = 0 \<rparr> \<rparr>) }"

definition vARPRemoveAll :: "arp \<Rightarrow> arp" where
  "vARPRemoveAll s = s \<lparr> xARPCache := replicate ARP_CACHE_ENTRIES null_row \<rparr>"

definition vARPUpdateMACAddress :: "u8 list \<Rightarrow> u8 list \<Rightarrow> u8 list" where
  "vARPUpdateMACAddress mac dev = take MAC_ADDRESS_LENGTH_BYTES mac @ drop MAC_ADDRESS_LENGTH_BYTES dev"

text \<open>Each row in use is turned into a string first, for the log.\<close>

fun lookup_rows :: "(nat \<Rightarrow> bool) \<Rightarrow> gpa_t option \<Rightarrow> arp \<Rightarrow> nat \<Rightarrow> ARPCacheRow_t list \<Rightarrow> eARPLookupResult_t option" where
  "lookup_rows mem g s k [] = Some eARPCacheMiss"
| "lookup_rows mem g s k (r # rs) =
     (if ucAge r = 0 then lookup_rows mem g s (Suc k) rs
      else do {
        q \<leftarrow> gpa_deref (pxProtocolAddress r) s;
        _ \<leftarrow> xGPAAddressToString (mem k) q;
        if xGPACmp q g then Some (if ucValid r = 0 then eCantSendPacket else eARPCacheHit)
        else lookup_rows mem g s (Suc k) rs })"

definition eARPLookupGPA :: "(nat \<Rightarrow> bool) \<Rightarrow> gpa_t option \<Rightarrow> arp \<Rightarrow> eARPLookupResult_t option" where
  "eARPLookupGPA mem g s = lookup_rows mem g s 0 (xARPCache s)"

text \<open>The address to look up is an argument that the code does not use.\<close>

definition pxARPLookupGHA :: "bool \<Rightarrow> gpa_t option \<Rightarrow> arp \<Rightarrow> gha_t option option" where
  "pxARPLookupGHA mem g s =
     (case first_ix (\<lambda>r. ucAge r = 3) (xARPCache s) of
        None \<Rightarrow> Some None
      | Some x \<Rightarrow> if \<not> mem then None
          else map_option Some (Option.bind (pxMACAddress (xARPCache s ! x)) (ghas s)))"

text \<open>The new row is printed.\<close>

definition vARPAddCacheEntry :: "bool \<Rightarrow> bool \<Rightarrow> gpa_t \<Rightarrow> nat option \<Rightarrow> u8 \<Rightarrow> arp \<Rightarrow> arp option" where
  "vARPAddCacheEntry mem1 mem2 pa ha age s =
     (case first_ix (\<lambda>r. ucValid r = 0) (xARPCache s) of
        None \<Rightarrow> Some s
      | Some x \<Rightarrow> do {
          g \<leftarrow> pxCreateGPA mem1 mem2 (pucAddress pa) (uxLength pa);
          let (p, s) = new_gpa g s;
          _ \<leftarrow> p;
          _ \<leftarrow> Option.bind ha (ghas s);
          Some (s \<lparr> xARPCache := (xARPCache s)[x := \<lparr> pxProtocolAddress = p, pxMACAddress = ha,
                 ucAge = age, ucValid = 1 \<rparr>] \<rparr>) })"

definition pxARPAdd :: "(nat \<Rightarrow> bool) \<Rightarrow> nat option \<Rightarrow> nat option \<Rightarrow> arp \<Rightarrow> (rinarpHandle_t option \<times> arp) option" where
  "pxARPAdd mem pa ha s = do {
     g \<leftarrow> gpa_deref pa s;
     if \<not> xIsGPAOK g then Some (None, s)
     else do {
       h \<leftarrow> gha_deref ha s;
       if \<not> xIsGHAOK h then Some (None, s)
       else if \<not> mem 0 then None
       else do {
         g \<leftarrow> g;
         s \<leftarrow> vARPAddCacheEntry (mem 1) (mem 2) g ha 1 s;
         Some (Some \<lparr> pxPa = pa, pxHa = ha \<rparr>, s) } } }"

fun find_gpa :: "gpa_t option \<Rightarrow> arp \<Rightarrow> ARPCacheRow_t list \<Rightarrow> nat option option" where
  "find_gpa g s [] = Some None"
| "find_gpa g s (r # rs) = do {
     q \<leftarrow> gpa_deref (pxProtocolAddress r) s;
     if xGPACmp q g then Some (Some 0)
     else do { x \<leftarrow> find_gpa g s rs; Some (map_option Suc x) } }"

definition vARPRemoveCacheEntry :: "(nat \<Rightarrow> bool) \<Rightarrow> gpa_t option \<Rightarrow> gha_t option \<Rightarrow> arp \<Rightarrow> arp option" where
  "vARPRemoveCacheEntry mem g h s = do {
     let (ha, s) = new_gha (pxARPCreateGHAUnknown (mem 0) MAC_ADDR_802_3) s;
     n \<leftarrow> pxCreateGPA (mem 1) (mem 2) (Some (char_bytes ''NULL'')) 4;
     let (pa, s) = new_gpa n s;
     if h = None \<or> g = None then Some s
     else do {
       x \<leftarrow> find_gpa g s (xARPCache s);
       Some (case x of None \<Rightarrow> s
         | Some x \<Rightarrow> s \<lparr> xARPCache := (xARPCache s)[x := \<lparr> pxProtocolAddress = pa, pxMACAddress = ha,
             ucAge = 0, ucValid = 0 \<rparr>] \<rparr>) } }"

definition xARPRemove :: "(nat \<Rightarrow> bool) \<Rightarrow> nat option \<Rightarrow> nat option \<Rightarrow> arp \<Rightarrow> (bool \<times> arp) option" where
  "xARPRemove mem pa ha s = do {
     g \<leftarrow> gpa_deref pa s;
     if \<not> xIsGPAOK g then Some (False, s)
     else do {
       h \<leftarrow> gha_deref ha s;
       if \<not> xIsGHAOK h then Some (False, s)
       else do {
         r \<leftarrow> eARPLookupGPA (\<lambda>k. mem (3 + k)) g s;
         if r = eARPCacheMiss then Some (False, s)
         else do { s \<leftarrow> vARPRemoveCacheEntry mem g h s; Some (True, s) } } } }"

section \<open>Refreshing\<close>

text \<open>The loop over the rows: it ends early at a row with both addresses, or at the row of
  the protocol address when no hardware address is given.  Otherwise it remembers the last
  row of the protocol address, the last one of the hardware address and the oldest one.
  Protocol addresses are compared as pointers.\<close>

datatype scan = ScanHit nat | ScanEnd "nat option" "nat option" nat

fun refresh_scan ::
  "arp \<Rightarrow> nat option \<Rightarrow> gha_t option \<Rightarrow> nat \<Rightarrow> ARPCacheRow_t list \<Rightarrow> nat option \<Rightarrow> nat option \<Rightarrow> nat \<Rightarrow> u8 \<Rightarrow> scan option" where
  "refresh_scan s p h x [] ip mac use m = Some (ScanEnd ip mac use)"
| "refresh_scan s p h x (r # rs) ip mac use m = do {
     eq \<leftarrow> (case h of None \<Rightarrow> Some False | Some h \<Rightarrow> do {
        q \<leftarrow> Option.bind (pxMACAddress r) (ghas s);
        Some (ucBytes q = ucBytes h) });
     if pxProtocolAddress r = p
     then if h = None then Some (ScanEnd (Some x) mac use)
          else if eq then Some (ScanHit x)
          else refresh_scan s p h (Suc x) rs (Some x) mac use m
     else if eq then refresh_scan s p h (Suc x) rs ip (Some x) use m
     else if ucAge r < m then refresh_scan s p h (Suc x) rs ip mac x (ucAge r)
     else refresh_scan s p h (Suc x) rs ip mac use m }"

definition upd_row :: "nat \<Rightarrow> (ARPCacheRow_t \<Rightarrow> ARPCacheRow_t) \<Rightarrow> arp \<Rightarrow> arp" where
  "upd_row x f s = s \<lparr> xARPCache := (xARPCache s)[x := f (xARPCache s ! x)] \<rparr>"

text \<open>The hardware address is written through the pointer of the row.\<close>

definition vARPRefreshCacheEntry :: "nat option \<Rightarrow> gha_t option \<Rightarrow> arp \<Rightarrow> arp option" where
  "vARPRefreshCacheEntry p h s = do {
     r \<leftarrow> refresh_scan s p h 0 (xARPCache s) None None 0 255;
     (case r of
        ScanHit x \<Rightarrow> Some (upd_row x (\<lambda>r. r \<lparr> ucAge := MAX_ARP_AGE, ucValid := 1 \<rparr>) s)
      | ScanEnd ip mac use \<Rightarrow>
          let use = (case mac of Some m \<Rightarrow> m | None \<Rightarrow> (case ip of Some i \<Rightarrow> i | None \<Rightarrow> use));
              s = (case (mac, ip) of (Some _, Some i) \<Rightarrow> upd_row i (\<lambda>_. null_row) s | _ \<Rightarrow> s);
              s = upd_row use (\<lambda>r. r \<lparr> pxProtocolAddress := p \<rparr>) s
          in (case h of
                Some h \<Rightarrow> do {
                  a \<leftarrow> pxMACAddress (xARPCache s ! use);
                  q \<leftarrow> ghas s a;
                  Some (upd_row use (\<lambda>r. r \<lparr> ucAge := MAX_ARP_AGE, ucValid := 1 \<rparr>)
                    (s \<lparr> ghas := (ghas s)(a \<mapsto> q \<lparr> ucBytes := ucBytes h \<rparr>) \<rparr>)) }
              | None \<Rightarrow> Some (if ip = None
                  then upd_row use (\<lambda>r. r \<lparr> ucAge := MAX_ARP_RETRANSMISSIONS, ucValid := 0 \<rparr>) s else s))) }"

section \<open>Packets\<close>

definition be16 :: "u16 \<Rightarrow> u8 list" where
  "be16 w = [ucast (drop_bit 8 w), ucast w]"

text \<open>An Ethernet header of 14 bytes, an ARP header of 8 and the four addresses.  The
  operation is stored as it is, the other fields in network order.\<close>

definition arp_frame :: "u8 list \<Rightarrow> u8 list \<Rightarrow> u8 list \<Rightarrow> nat \<Rightarrow> u8 list \<Rightarrow> u16 \<Rightarrow> u8 list" where
  "arp_frame tha sha spa n tpa op =
     tha @ sha @ be16 ETH_P_RINA_ARP @ be16 1 @ be16 ETH_P_RINA @ [6, word_of_nat n] @ le16 op
     @ sha @ spa @ tha @ tpa"

definition gpa_read :: "gpa_t \<Rightarrow> u8 list option" where
  "gpa_read g = (case pucAddress g of None \<Rightarrow> None
     | Some bs \<Rightarrow> if length bs < uxLength g then None else Some (take (uxLength g) bs))"

definition prvARPGeneratePacket ::
  "bool \<Rightarrow> NetworkBufferDescriptor_t \<Rightarrow> gha_t \<Rightarrow> gpa_t \<Rightarrow> gpa_t \<Rightarrow> u16 \<Rightarrow> NetworkBufferDescriptor_t option" where
  "prvARPGeneratePacket mem nb sha spa tpa op = do {
     tha \<leftarrow> pxARPCreateGHAUnknown mem MAC_ADDR_802_3;
     let n = 22 + (uxLength spa + MAC_ADDRESS_LENGTH_BYTES) * 2;
     if xDataLength nb < n then None
     else do {
       eth \<leftarrow> pucEthernetBuffer nb;
       spb \<leftarrow> gpa_read spa;
       tpb \<leftarrow> gpa_read tpa;
       let bytes = arp_frame (ucBytes tha) (ucBytes sha) spb (uxLength spa) tpb op;
       if length eth < length bytes then None
       else Some (nb \<lparr> pucEthernetBuffer := Some (bytes @ drop (length bytes) eth), xDataLength := n \<rparr>) } }"

text \<open>The answer, and the buffer that goes to the network interface: at once when called from
  the stack task (\<open>direct\<close>), otherwise through its queue, which may refuse it.\<close>

definition vARPSendRequest ::
  "(nat \<Rightarrow> bool) \<Rightarrow> (nat \<Rightarrow> bool) \<Rightarrow> bool \<Rightarrow> bool \<Rightarrow> nat option \<Rightarrow> nat option \<Rightarrow> nat option \<Rightarrow> nat list \<Rightarrow> arp
   \<Rightarrow> (bool \<times> NetworkBufferDescriptor_t option \<times> nat list \<times> arp) option" where
  "vARPSendRequest mem storage direct queued tpa spa sha free s = do {
     a \<leftarrow> spa;
     b \<leftarrow> tpa;
     ga \<leftarrow> gpas s a;
     gb \<leftarrow> gpas s b;
     let n = max (uxLength ga) (uxLength gb);
     let (ok, ga) = xARPAddressGPAGrow (mem 0) ga n 0;
     let s = s \<lparr> gpas := (gpas s)(a \<mapsto> ga) \<rparr>;
     if \<not> ok then Some (False, None, free, s)
     else do {
       gb \<leftarrow> gpas s b;
       let (ok, gb) = xARPAddressGPAGrow (mem 1) gb n 0;
       let s = s \<lparr> gpas := (gpas s)(b \<mapsto> gb) \<rparr>;
       if \<not> ok then Some (False, None, free, s)
       else do {
         (nb, free) \<leftarrow> pxGetNetworkBufferWithDescriptor storage (22 + (n + MAC_ADDRESS_LENGTH_BYTES) * 2) free;
         (case nb of
            None \<Rightarrow> Some (False, None, free, s)
          | Some nb \<Rightarrow> do {
              h \<leftarrow> Option.bind sha (ghas s);
              ga \<leftarrow> gpas s a;
              gb \<leftarrow> gpas s b;
              nb \<leftarrow> prvARPGeneratePacket (mem 2) nb h ga gb ARP_REQUEST;
              if direct \<or> queued then Some (True, Some nb, free, s)
              else do { free \<leftarrow> vReleaseNetworkBufferAndDescriptor nb free; Some (False, None, free, s) } }) } } }"

definition xARPResolveGPA ::
  "(nat \<Rightarrow> bool) \<Rightarrow> (nat \<Rightarrow> bool) \<Rightarrow> bool \<Rightarrow> bool \<Rightarrow> nat option \<Rightarrow> nat option \<Rightarrow> nat option \<Rightarrow> nat list \<Rightarrow> arp
   \<Rightarrow> (bool \<times> NetworkBufferDescriptor_t option \<times> nat list \<times> arp) option" where
  "xARPResolveGPA mem storage direct queued tpa spa sha free s = do {
     t \<leftarrow> gpa_deref tpa s;
     h \<leftarrow> gha_deref sha s;
     g \<leftarrow> gpa_deref spa s;
     if \<not> xIsGPAOK t \<or> \<not> xIsGHAOK h \<or> \<not> xIsGPAOK g then Some (False, None, free, s)
     else vARPSendRequest mem storage direct queued tpa spa sha free s }"

text \<open>A received frame; how long it is is not asked, reading past its buffer is undefined.
  \<open>zero\<close> says whether \<open>malloc\<close> of no bytes gives a pointer.\<close>

definition eARPProcessPacket ::
  "(nat \<Rightarrow> bool) \<Rightarrow> bool \<Rightarrow> u8 list \<Rightarrow> arp \<Rightarrow> (eFrameProcessingResult_t \<times> u8 list \<times> arp) option" where
  "eARPProcessPacket mem zero frame s =
     (if length frame < 22 then None
      else let release = Some (eReleaseBuffer, frame, s); op = of_le16 (frame ! 20) (frame ! 21); n = unat (frame ! 19)
      in if frame ! 14 \<noteq> 0 \<or> frame ! 15 \<noteq> 1 then release
      else if frame ! 18 \<noteq> 6 then release
      else if op \<noteq> ARP_REPLY \<and> op \<noteq> ARP_REQUEST then release
      else do {
        spa \<leftarrow> pxCreateGPA (mem 0) (mem 1) (Some (drop 28 frame)) n;
        sha \<leftarrow> pxCreateGHA (mem 2) MAC_ADDR_802_3 (Some (drop 22 frame));
        tpa \<leftarrow> pxCreateGPA (mem 3) (mem 4) (Some (drop (34 + n) frame)) n;
        tha \<leftarrow> pxCreateGHA (mem 5) MAC_ADDR_802_3 (Some (drop (28 + n) frame));
        (case (spa, tpa) of
           (Some spa, Some tpa) \<Rightarrow>
             let (ok, spa) = xARPAddressGPAShrink (\<lambda>k. if k = 0 then zero else mem 6) spa 0;
                 (ok2, _) = xARPAddressGPAShrink (\<lambda>k. if k = 0 then zero else mem 7) tpa 0
             in if \<not> ok \<or> \<not> ok2 then release
             else if op = ARP_REQUEST
             then do {
               r \<leftarrow> eARPLookupGPA (\<lambda>k. mem (8 + k)) (Some spa) s;
               if r = eARPCacheMiss then do { _ \<leftarrow> xGPAAddressToString (mem 12) (Some spa); release }
               else do {
                 let (p, s) = new_gpa (Some spa) s;
                 s \<leftarrow> vARPRefreshCacheEntry p sha s;
                 Some (eReturnEthernetFrame, frame[20 := 0, 21 := 2], s) } }
             else if \<not> mem 8 then None
             else do {
               let (h, s) = new_gha sha s;
               s \<leftarrow> vARPAddCacheEntry (mem 9) (mem 10) spa h 3 s;
               Some (eProcessBuffer, frame, s) }
         | _ \<Rightarrow> release) })"

section \<open>Well-formed caches\<close>

definition row_ok :: "arp \<Rightarrow> ARPCacheRow_t \<Rightarrow> bool" where
  "row_ok s r \<longleftrightarrow> (\<exists>a g. pxProtocolAddress r = Some a \<and> gpas s a = Some g \<and> gpa_ok g)
     \<and> (\<exists>b h. pxMACAddress r = Some b \<and> ghas s b = Some h \<and> length (ucBytes h) = 6)
     \<and> (ucAge r, ucValid r) \<in> {(0, 0), (1, 1), (3, 1), (5, 1)}"

definition heap_ok :: "arp \<Rightarrow> bool" where
  "heap_ok s \<longleftrightarrow> (\<forall>a \<ge> arp_next s. gpas s a = None \<and> ghas s a = None) \<and> (\<forall>b h. ghas s b = Some h \<longrightarrow> length (ucBytes h) = 6)"

definition arp_wf :: "arp \<Rightarrow> bool" where
  "arp_wf s \<longleftrightarrow> length (xARPCache s) = ARP_CACHE_ENTRIES \<and> (\<forall>r \<in> set (xARPCache s). row_ok s r) \<and> heap_ok s"

text \<open>Objects stay what the rows need.\<close>

definition keeps :: "arp \<Rightarrow> arp \<Rightarrow> bool" where
  "keeps s s' \<longleftrightarrow> (\<forall>a g. gpas s a = Some g \<and> gpa_ok g \<longrightarrow> (\<exists>g'. gpas s' a = Some g' \<and> gpa_ok g'))
     \<and> (\<forall>b h. ghas s b = Some h \<and> length (ucBytes h) = 6 \<longrightarrow> (\<exists>h'. ghas s' b = Some h' \<and> length (ucBytes h') = 6))"

lemma row_ok_keeps: "row_ok s r \<Longrightarrow> keeps s s' \<Longrightarrow> row_ok s' r"
  unfolding row_ok_def keeps_def by blast

lemma wf_keeps:
  assumes "arp_wf s" "keeps s s'" "heap_ok s'" "xARPCache s' = xARPCache s"
  shows "arp_wf s'"
  using assms row_ok_keeps unfolding arp_wf_def by auto

lemma wf_row_upd:
  assumes "arp_wf s" "row_ok s r"
  shows "arp_wf (s \<lparr> xARPCache := (xARPCache s)[x := r] \<rparr>)"
  using assms set_update_subset_insert[of "xARPCache s" x r]
  by (auto simp: arp_wf_def heap_ok_def row_ok_def)

lemma new_gpa_facts:
  assumes "heap_ok s" "new_gpa (Some g) s = (p, s')"
  shows "p = Some (arp_next s)" "keeps s s'" "heap_ok s'" "xARPCache s' = xARPCache s" "gpas s' (arp_next s) = Some g"
    "ghas s' = ghas s" "\<And>a. a \<noteq> arp_next s \<Longrightarrow> gpas s' a = gpas s a"
  using assms by (auto simp: new_gpa_def keeps_def heap_ok_def split: if_splits)

lemma new_gha_facts:
  assumes "heap_ok s" "new_gha (Some h) s = (p, s')" "length (ucBytes h) = 6"
  shows "p = Some (arp_next s)" "keeps s s'" "heap_ok s'" "xARPCache s' = xARPCache s" "ghas s' (arp_next s) = Some h"
    "gpas s' = gpas s" "\<And>a. a \<noteq> arp_next s \<Longrightarrow> ghas s' a = ghas s a"
  using assms by (auto simp: new_gha_def keeps_def heap_ok_def split: if_splits)

lemma keeps_trans: "keeps a b \<Longrightarrow> keeps b c \<Longrightarrow> keeps a c"
  unfolding keeps_def by blast

lemma wf_new_gpa:
  assumes "arp_wf s" "new_gpa (Some g) s = (p, s')"
  shows "arp_wf s'"
proof -
  have "heap_ok s" using assms(1) by (simp add: arp_wf_def)
  from new_gpa_facts(2,3,4)[OF this assms(2)] show ?thesis by (rule wf_keeps[OF assms(1)])
qed

lemma wf_new_gha:
  assumes "arp_wf s" "new_gha (Some h) s = (p, s')" "length (ucBytes h) = 6"
  shows "arp_wf s'"
proof -
  have "heap_ok s" using assms(1) by (simp add: arp_wf_def)
  from new_gha_facts(2,3,4)[OF this assms(2,3)] show ?thesis by (rule wf_keeps[OF assms(1)])
qed

lemma grow_ok: "gpa_ok g \<Longrightarrow> gpa_ok (snd (xARPAddressGPAGrow mem g n c))"
  by (auto simp: xARPAddressGPAGrow_def gpa_ok_def gpa_bytes_def)

lemma create_gpa_some:
  "n \<le> length bs \<Longrightarrow> 0 < n \<Longrightarrow> pxCreateGPA True True (Some bs) n = Some (Some \<lparr> pucAddress = Some (take n bs @ [0]), uxLength = n \<rparr>)"
  by (simp add: pxCreateGPA_def)

lemma init_wf:
  assumes "vARPInitCache (\<lambda>_. True) junk arp_boot = Some s"
  shows "arp_wf s"
  using assms
  by (auto simp: vARPInitCache_def new_gha_def new_gpa_def pxARPCreateGHAUnknown_def pxCreateGPA_def arp_boot_def
      arp_wf_def row_ok_def heap_ok_def gpa_ok_def split: if_splits)

lemma add_entry_wf:
  assumes "arp_wf s" "vARPAddCacheEntry m1 m2 pa ha age s = Some s'" "age = 1 \<or> age = 3"
  shows "arp_wf s'"
proof (cases "first_ix (\<lambda>r. ucValid r = 0) (xARPCache s)")
  case (Some x)
  then obtain g p s1 h where g: "pxCreateGPA m1 m2 (pucAddress pa) (uxLength pa) = Some g" "new_gpa g s = (p, s1)"
      "p \<noteq> None" "Option.bind ha (ghas s1) = Some h"
      "s' = s1 \<lparr> xARPCache := (xARPCache s1)[x := \<lparr> pxProtocolAddress = p, pxMACAddress = ha, ucAge = age, ucValid = 1 \<rparr>] \<rparr>"
    using assms(2) by (auto simp: vARPAddCacheEntry_def Let_def split: Option.bind_splits prod.splits)
  then obtain g' where g': "g = Some g'" by (cases g) (auto simp: new_gpa_def)
  have hs: "heap_ok s" using assms(1) by (simp add: arp_wf_def)
  note n = new_gpa_facts[OF hs g(2)[unfolded g']]
  have ok: "gpa_ok g'"
    using g(1) unfolding g' by (cases "pucAddress pa") (auto simp: pxCreateGPA_def[of _ _ None] dest: create_gpa_ok)
  have w: "arp_wf s1" using wf_keeps[OF assms(1) n(2,3,4)] .
  have "row_ok s1 \<lparr> pxProtocolAddress = p, pxMACAddress = ha, ucAge = age, ucValid = 1 \<rparr>"
    using ok n g(4) assms(3) n(3) by (cases ha) (auto simp: row_ok_def heap_ok_def)
  then show ?thesis
    unfolding g(5) by (rule wf_row_upd[OF w])
qed (use assms in \<open>simp add: vARPAddCacheEntry_def\<close>)

lemma remove_entry_wf:
  assumes "arp_wf s" "vARPRemoveCacheEntry (\<lambda>_. True) g h s = Some s'"
  shows "arp_wf s'"
proof -
  let ?h = "\<lparr> gh_xType = MAC_ADDR_802_3, ucBytes = replicate 6 0xFF \<rparr>"
  let ?g = "\<lparr> pucAddress = Some (take 4 (char_bytes ''NULL'') @ [0]), uxLength = 4 \<rparr>"
  have hs: "heap_ok s" using assms(1) by (simp add: arp_wf_def)
  obtain ha s1 where s1: "new_gha (Some ?h) s = (ha, s1)" by (cases "new_gha (Some ?h) s") auto
  obtain pa s2 where s2: "new_gpa (Some ?g) s1 = (pa, s2)" by (cases "new_gpa (Some ?g) s1") auto
  have "length (ucBytes ?h) = 6" by simp
  note n1 = new_gha_facts[OF hs s1 this]
  note n2 = new_gpa_facts[OF n1(3) s2]
  have w1: "arp_wf s1" using wf_keeps[OF assms(1) n1(2,3,4)] .
  have w2: "arp_wf s2" using wf_keeps[OF w1 n2(2,3,4)] .
  have "row_ok s2 \<lparr> pxProtocolAddress = pa, pxMACAddress = ha, ucAge = 0, ucValid = 0 \<rparr>"
    using n1 n2 by (simp add: row_ok_def gpa_ok_def char_bytes_def)
  then have "arp_wf (s2 \<lparr> xARPCache := (xARPCache s2)[x := \<lparr> pxProtocolAddress = pa, pxMACAddress = ha, ucAge = 0, ucValid = 0 \<rparr>] \<rparr>)" for x
    by (rule wf_row_upd[OF w2])
  moreover have "pxARPCreateGHAUnknown True MAC_ADDR_802_3 = Some ?h"
    "pxCreateGPA True True (Some (char_bytes ''NULL'')) 4 = Some (Some ?g)"
    by (simp_all add: pxARPCreateGHAUnknown_def pxCreateGPA_def char_bytes_def)
  ultimately show ?thesis
    using assms(2) w2 s1 s2 by (auto simp: vARPRemoveCacheEntry_def split: if_splits Option.bind_splits option.splits)
qed

lemma scan_bounds:
  "refresh_scan s p h x rs ip mac use m = Some r \<Longrightarrow> use < k \<Longrightarrow> set_option ip \<union> set_option mac \<subseteq> {..<k}
   \<Longrightarrow> x + length rs \<le> k \<Longrightarrow>
   (case r of ScanHit i \<Rightarrow> i < k | ScanEnd ip mac use \<Rightarrow> use < k \<and> set_option ip \<union> set_option mac \<subseteq> {..<k})"
proof (induction rs arbitrary: x ip mac use m)
  case (Cons a rs)
  from Cons.prems(1) obtain eq where e: "(case h of None \<Rightarrow> Some False | Some h \<Rightarrow> do {
        q \<leftarrow> Option.bind (pxMACAddress a) (ghas s); Some (ucBytes q = ucBytes h) }) = Some eq"
    by (auto split: Option.bind_splits)
  have k: "x < k" "Suc x + length rs \<le> k" using Cons.prems(4) by simp_all
  note p = Cons.prems(1)[unfolded refresh_scan.simps e bind.bind_lunit]
  show ?case
    using p Cons.prems(2,3) k Cons.IH[OF _ _ _ k(2)] by (simp split: if_splits) auto
qed auto

text \<open>A row that is given a protocol address that exists, and bytes of a hardware address.\<close>

lemma refresh_wf:
  assumes "arp_wf s" "gpas s a = Some g" "gpa_ok g" "length (ucBytes h) = 6"
    and "vARPRefreshCacheEntry (Some a) (Some h) s = Some s'"
    and "\<forall>r \<in> set (xARPCache s). pxProtocolAddress r \<noteq> Some a"
  shows "arp_wf s'"
proof -
  obtain r where r: "refresh_scan s (Some a) (Some h) 0 (xARPCache s) None None 0 255 = Some r"
    using assms(5) by (auto simp: vARPRefreshCacheEntry_def split: Option.bind_splits)
  have len: "length (xARPCache s) = 4" using assms(1) by (simp add: arp_wf_def ARP_CACHE_ENTRIES_def)
  have "case r of ScanHit i \<Rightarrow> False | ScanEnd ip mac use \<Rightarrow> ip = None"
    using r assms(6)
  proof -
    have "refresh_scan s (Some a) (Some h) x rs None mac use m = Some r \<Longrightarrow> \<forall>r \<in> set rs. pxProtocolAddress r \<noteq> Some a
      \<Longrightarrow> (case r of ScanHit i \<Rightarrow> False | ScanEnd ip mac use \<Rightarrow> ip = None)" for x rs mac use m
      by (induction rs arbitrary: x mac use m) (auto split: Option.bind_splits if_splits)
    then show ?thesis using r assms(6) by blast
  qed
  then obtain mac use where e: "r = ScanEnd None mac use" by (cases r) auto
  have "use < 4" "set_option mac \<subseteq> {..<4}"
    using scan_bounds[OF r, of 4] len unfolding e by simp_all
  then obtain y where y: "y = (case mac of Some m \<Rightarrow> m | None \<Rightarrow> use)" "y < 4" by (cases mac) auto
  define r1 where "r1 = (xARPCache s ! y) \<lparr> pxProtocolAddress := Some a \<rparr>"
  obtain b q where b: "pxMACAddress (xARPCache s ! y) = Some b" "ghas s b = Some q" "length (ucBytes q) = 6"
    using assms(1) y(2) len nth_mem[of y "xARPCache s"] unfolding arp_wf_def row_ok_def by metis
  define s1 where "s1 = s \<lparr> ghas := (ghas s)(b \<mapsto> q \<lparr> ucBytes := ucBytes h \<rparr>) \<rparr>"
  have s': "s' = s1 \<lparr> xARPCache := (xARPCache s1)[y := r1 \<lparr> ucAge := MAX_ARP_AGE, ucValid := 1 \<rparr>] \<rparr>"
    using assms(5) y b len unfolding vARPRefreshCacheEntry_def r bind.bind_lunit e
    by (cases mac) (auto simp: Let_def upd_row_def s1_def r1_def)
  have hs: "heap_ok s" using assms(1) by (simp add: arp_wf_def)
  have "keeps s s1" "heap_ok s1" "xARPCache s1 = xARPCache s"
    using hs b assms(4) by (auto simp: keeps_def heap_ok_def s1_def)
  then have w: "arp_wf s1" by (rule wf_keeps[OF assms(1)])
  have "row_ok s1 (r1 \<lparr> ucAge := MAX_ARP_AGE, ucValid := 1 \<rparr>)"
    using assms(2,3,4) b by (simp add: row_ok_def r1_def s1_def MAX_ARP_AGE_def)
  then show ?thesis unfolding s' by (rule wf_row_upd[OF w])
qed

text \<open>In a well-formed cache a look-up answers whether a row in use has the address; an entry
  that waits for an answer is never seen.\<close>

definition row_addr :: "arp \<Rightarrow> ARPCacheRow_t \<Rightarrow> u8 list" where
  "row_addr s r = (case gpa_deref (pxProtocolAddress r) s of Some (Some g) \<Rightarrow> gpa_bytes g | _ \<Rightarrow> [])"

definition row_mac :: "arp \<Rightarrow> ARPCacheRow_t \<Rightarrow> u8 list" where
  "row_mac s r = (case gha_deref (pxMACAddress r) s of Some (Some h) \<Rightarrow> ucBytes h | _ \<Rightarrow> [])"

definition arp_known :: "arp \<Rightarrow> u8 list \<Rightarrow> bool" where
  "arp_known s bs \<longleftrightarrow> (\<exists>r \<in> set (xARPCache s). ucAge r \<noteq> 0 \<and> row_addr s r = bs)"

lemma row_ok_gpa:
  assumes "row_ok s r"
  obtains g where "gpa_deref (pxProtocolAddress r) s = Some (Some g)" "gpa_ok g" "row_addr s r = gpa_bytes g"
  using assms by (auto simp: row_ok_def gpa_deref_def row_addr_def)

lemma lookup_rows_wf:
  assumes "\<forall>r \<in> set rs. row_ok s r" "\<And>k. mem k" "gpa_ok g \<or> \<not> xIsGPAOK (Some g)"
  shows "lookup_rows mem (Some g) s k rs = Some (if gpa_ok g \<and> (\<exists>r \<in> set rs. ucAge r \<noteq> 0 \<and> row_addr s r = gpa_bytes g)
           then eARPCacheHit else eARPCacheMiss)"
  using assms(1)
proof (induction rs arbitrary: k)
  case (Cons r rs)
  have ok: "row_ok s r" "\<forall>r \<in> set rs. row_ok s r" using Cons.prems by auto
  from ok(1) obtain q where q: "gpa_deref (pxProtocolAddress r) s = Some (Some q)" "gpa_ok q" "row_addr s r = gpa_bytes q"
    by (rule row_ok_gpa)
  have str: "xGPAAddressToString (mem k) (Some q) = Some (takeWhile (\<lambda>b. b \<noteq> 0) (gpa_bytes q))"
    using q(2) assms(2) by (simp add: xGPAAddressToString_def)
  have v: "ucAge r \<noteq> 0 \<Longrightarrow> ucValid r \<noteq> 0" using ok(1) by (auto simp: row_ok_def)
  have c: "xGPACmp (Some q) (Some g) \<longleftrightarrow> gpa_ok g \<and> gpa_bytes q = gpa_bytes g"
    using assms(3) q(2) by (auto simp: gpa_cmp_ok) (simp_all add: xGPACmp_def)
  show ?case
    using Cons.IH[OF ok(2)] v q c by (auto simp: str)
qed simp

lemma lookup_wf:
  assumes "arp_wf s" "\<And>k. mem k"
  shows "gpa_ok g \<Longrightarrow> eARPLookupGPA mem (Some g) s = Some (if arp_known s (gpa_bytes g) then eARPCacheHit else eARPCacheMiss)"
    and "\<not> xIsGPAOK (Some g) \<Longrightarrow> eARPLookupGPA mem (Some g) s = Some eARPCacheMiss"
  using lookup_rows_wf[of "xARPCache s" s mem g 0] assms gpa_ok_is[of g]
  by (auto simp: eARPLookupGPA_def arp_wf_def arp_known_def simp del: gpa_ok_is)

lemma shrink_ok: "gpa_ok g \<Longrightarrow> gpa_ok (snd (xARPAddressGPAShrink mem g c)) \<or> \<not> xIsGPAOK (Some (snd (xARPAddressGPAShrink mem g c)))"
  by (auto simp: xARPAddressGPAShrink_def Let_def gpa_ok_def xIsGPAOK_def gpa_bytes_def)

lemma create_gha_len: "pxCreateGHA m ty bs = Some (Some h) \<Longrightarrow> length (ucBytes h) = 6"
  by (auto simp: pxCreateGHA_def MAC_ADDRESS_LENGTH_BYTES_def split: if_splits Option.bind_splits)

lemma wf_fresh: "arp_wf s \<Longrightarrow> \<forall>r \<in> set (xARPCache s). pxProtocolAddress r \<noteq> Some (arp_next s)"
  unfolding arp_wf_def row_ok_def heap_ok_def by fastforce

lemma refresh_new_wf:
  assumes "arp_wf s" "new_gpa (Some g) s = (p, s1)" "gpa_ok g" "length (ucBytes h) = 6"
    and "vARPRefreshCacheEntry p (Some h) s1 = Some s'"
  shows "arp_wf s'"
proof -
  have "heap_ok s" using assms(1) by (simp add: arp_wf_def)
  note n = new_gpa_facts[OF this assms(2)]
  show ?thesis
    using refresh_wf[OF wf_new_gpa[OF assms(1,2)] n(5) assms(3,4)] assms(5) wf_fresh[OF assms(1)] n(1,4) by simp
qed

lemma process_wf:
  assumes "arp_wf s" "eARPProcessPacket (\<lambda>_. True) zero frame s = Some (r, f, s')"
  shows "arp_wf s'"
proof (cases "s' = s")
  case False
  let ?n = "unat (frame ! 19)"
  from assms(2) False obtain spa h tpa where c: "pxCreateGPA True True (Some (drop 28 frame)) ?n = Some (Some spa)"
      "pxCreateGHA True MAC_ADDR_802_3 (Some (drop 22 frame)) = Some (Some h)"
      "pxCreateGPA True True (Some (drop (34 + ?n) frame)) ?n = Some (Some tpa)"
    by (auto simp: eARPProcessPacket_def Let_def pxCreateGHA_def split: if_splits Option.bind_splits option.splits)
  obtain ok g where g: "xARPAddressGPAShrink (\<lambda>k. if k = 0 then zero else True) spa 0 = (ok, g)"
    by (cases "xARPAddressGPAShrink (\<lambda>k. if k = 0 then zero else True) spa 0")
  have go: "gpa_ok g \<or> \<not> xIsGPAOK (Some g)"
    using shrink_ok[OF create_gpa_ok(1)[OF c(1)], of "\<lambda>k. if k = 0 then zero else True" 0] g by simp
  have h: "length (ucBytes h) = 6" by (rule create_gha_len[OF c(2)])
  show ?thesis
  proof (cases "of_le16 (frame ! 20) (frame ! 21) = ARP_REQUEST")
    case True
    then have k: "gpa_ok g"
      using assms False c g go lookup_wf(2)[of s "\<lambda>_. True" g]
      by (auto simp: eARPProcessPacket_def Let_def split: if_splits Option.bind_splits prod.splits)
    obtain p s1 where s1: "new_gpa (Some g) s = (p, s1)" by (cases "new_gpa (Some g) s")
    have "vARPRefreshCacheEntry p (Some h) s1 = Some s'"
      using assms(2) False True c g s1
      by (auto simp: eARPProcessPacket_def Let_def split: if_splits Option.bind_splits prod.splits)
    then show ?thesis by (rule refresh_new_wf[OF assms(1) s1 k h])
  next
    case op: False
    obtain p s1 where s1: "new_gha (Some h) s = (p, s1)" by (cases "new_gha (Some h) s")
    have "vARPAddCacheEntry True True g p 3 s1 = Some s'"
      using assms(2) False op c g s1
      by (auto simp: eARPProcessPacket_def Let_def split: if_splits Option.bind_splits prod.splits)
    then show ?thesis using add_entry_wf[OF wf_new_gha[OF assms(1) s1 h]] by simp
  qed
qed (use assms in simp)

section \<open>Reachable caches\<close>

text \<open>What a node does with its cache: objects made for its own addresses, adding, removing,
  resolving, received frames.  The allocations succeed, and \<open>vARPRemoveAll\<close>, which has no caller, is not
  among the operations: either would put NULL pointers in the rows.\<close>

inductive arp_reach :: "arp \<Rightarrow> bool" where
  init: "vARPInitCache (\<lambda>_. True) junk arp_boot = Some s \<Longrightarrow> arp_reach s"
| gpa: "arp_reach s \<Longrightarrow> new_gpa (Some g) s = (p, s') \<Longrightarrow> arp_reach s'"
| gha: "arp_reach s \<Longrightarrow> length (ucBytes h) = 6 \<Longrightarrow> new_gha (Some h) s = (p, s') \<Longrightarrow> arp_reach s'"
| add: "arp_reach s \<Longrightarrow> pxARPAdd (\<lambda>_. True) pa ha s = Some (hnd, s') \<Longrightarrow> arp_reach s'"
| remove: "arp_reach s \<Longrightarrow> xARPRemove (\<lambda>_. True) pa ha s = Some (ok, s') \<Longrightarrow> arp_reach s'"
| resolve: "arp_reach s \<Longrightarrow> xARPResolveGPA mem storage direct queued tpa spa sha free s = Some (ok, nb, free', s')
    \<Longrightarrow> arp_reach s'"
| process: "arp_reach s \<Longrightarrow> eARPProcessPacket (\<lambda>_. True) zero frame s = Some (r, f, s') \<Longrightarrow> arp_reach s'"

lemma remove_all_null: "vARPRemoveAll s = s' \<Longrightarrow> \<forall>r \<in> set (xARPCache s'). \<not> row_ok s' r"
  by (auto simp: vARPRemoveAll_def row_ok_def null_row_def)

lemma wf_grow:
  assumes "arp_wf s" "gpas s a = Some g"
  shows "arp_wf (s \<lparr> gpas := (gpas s)(a \<mapsto> snd (xARPAddressGPAGrow mem g n c)) \<rparr>)"
proof (rule wf_keeps[OF assms(1)])
  show "keeps s (s \<lparr> gpas := (gpas s)(a \<mapsto> snd (xARPAddressGPAGrow mem g n c)) \<rparr>)"
    using assms(2) grow_ok[of g] by (auto simp: keeps_def)
  show "heap_ok (s \<lparr> gpas := (gpas s)(a \<mapsto> snd (xARPAddressGPAGrow mem g n c)) \<rparr>)"
    using assms by (fastforce simp: arp_wf_def heap_ok_def)
qed simp

lemma resolve_wf:
  assumes "arp_wf s" "xARPResolveGPA mem storage direct queued tpa spa sha free s = Some (ok, nb, free', s')"
  shows "arp_wf s'"
proof (cases "s' = s")
  case False
  then have v: "vARPSendRequest mem storage direct queued tpa spa sha free s = Some (ok, nb, free', s')"
    using assms(2) by (auto simp: xARPResolveGPA_def split: if_splits Option.bind_splits)
  then obtain a b ga gb where p: "spa = Some a" "tpa = Some b" "gpas s a = Some ga" "gpas s b = Some gb"
    by (auto simp: vARPSendRequest_def split: Option.bind_splits)
  define n where "n = max (uxLength ga) (uxLength gb)"
  define s1 where "s1 = s \<lparr> gpas := (gpas s)(a \<mapsto> snd (xARPAddressGPAGrow (mem 0) ga n 0)) \<rparr>"
  have w1: "arp_wf s1" unfolding s1_def by (rule wf_grow[OF assms(1) p(3)])
  obtain gb1 where gb1: "gpas s1 b = Some gb1" using p(4) by (cases "b = a") (auto simp: s1_def)
  define s2 where "s2 = s1 \<lparr> gpas := (gpas s1)(b \<mapsto> snd (xARPAddressGPAGrow (mem 1) gb1 n 0)) \<rparr>"
  have w2: "arp_wf s2" unfolding s2_def by (rule wf_grow[OF w1 gb1])
  have "s' = s1 \<or> s' = s2"
    using v[unfolded vARPSendRequest_def p bind.bind_lunit, unfolded Let_def, folded n_def] gb1
    by (auto simp: s1_def s2_def split: if_splits Option.bind_splits prod.splits option.splits)
  then show ?thesis using w1 w2 by auto
qed (use assms in simp)

section \<open>Packets received\<close>

lemma frame_fields:
  fixes spa tpa pad :: "u8 list" and op :: u16
  assumes "length tha = 6" "length sha = 6" "n < 256"
  defines "f \<equiv> arp_frame tha sha spa n tpa op @ pad"
  shows "22 \<le> length f" "f ! 14 = 0" "f ! 15 = 1" "f ! 18 = 6" "unat (f ! 19) = n" "of_le16 (f ! 20) (f ! 21) = op"
    "drop 22 f = sha @ spa @ tha @ tpa @ pad" "f[20 := 0, 21 := 2] = arp_frame tha sha spa n tpa ARP_REPLY @ pad"
proof -
  define h where "h = tha @ sha"
  have l: "length h = 12" using assms(1,2) by (simp add: h_def)
  have f: "arp_frame tha sha spa n tpa op' @ pad = h @ [0x43, 0x05, 0, 1, 0xD1, 0xF0, 6, word_of_nat n] @ le16 op'
      @ sha @ spa @ tha @ tpa @ pad" for op'
    by (simp add: arp_frame_def h_def be16_def ETH_P_RINA_def ETH_P_RINA_ARP_def)
  have r: "le16 ARP_REPLY = [0, 2]" by (simp add: le16_def ARP_REPLY_def)
  show "22 \<le> length f" "f ! 14 = 0" "f ! 15 = 1" "f ! 18 = 6" "unat (f ! 19) = n" "of_le16 (f ! 20) (f ! 21) = op"
    "drop 22 f = sha @ spa @ tha @ tpa @ pad" "f[20 := 0, 21 := 2] = arp_frame tha sha spa n tpa ARP_REPLY @ pad"
    using assms(3) unfolding f_def f r
    by (simp_all add: l nth_append le16_def of_le16_le16 list_update_append unat_of_nat)
qed

text \<open>An address, padded with NUL bytes.\<close>

definition padded :: "nat \<Rightarrow> u8 list \<Rightarrow> u8 list" where
  "padded n a = a @ replicate (n - length a) 0"

lemma length_padded [simp]: "length a \<le> n \<Longrightarrow> length (padded n a) = n"
  by (simp add: padded_def)

lemma create_padded:
  assumes "0 \<notin> set a" "a \<noteq> []" "length a \<le> n"
  obtains g0 g where "pxCreateGPA True True (Some (padded n a @ rest)) n = Some (Some g0)"
    "xARPAddressGPAShrink (\<lambda>k. if k = 0 then zero else True) g0 0 = (True, g)" "gpa_ok g" "gpa_bytes g = a"
proof -
  have "0 < n" using assms(2,3) by (cases a) auto
  then obtain g0 where g0: "pxCreateGPA True True (Some (padded n a @ rest)) n = Some (Some g0)"
    using create_gpa_some[of n "padded n a @ rest"] assms(3) by simp
  have "gpa_bytes g0 = a @ replicate (n - length a) 0"
    using create_gpa_ok(2)[OF g0] assms(3) by (simp add: padded_def)
  from shrink_runs[OF create_gpa_ok(1)[OF g0] this assms(1,2), of "\<lambda>k. if k = 0 then zero else True"]
  show ?thesis using that[OF g0] by simp
qed

lemma process_frame:
  fixes pad :: "u8 list"
  assumes "length tha = 6" "length sha = 6" "n < 256" "0 \<notin> set a" "a \<noteq> []" "length a \<le> n" "0 \<notin> set b" "b \<noteq> []" "length b \<le> n"
    and "op = ARP_REQUEST \<or> op = ARP_REPLY"
  defines "f \<equiv> arp_frame tha sha (padded n a) n (padded n b) op @ pad"
  obtains g h where "gpa_ok g" "gpa_bytes g = a" "gh_xType h = MAC_ADDR_802_3" "ucBytes h = sha"
    "eARPProcessPacket (\<lambda>_. True) zero f s =
      (if op = ARP_REQUEST then do {
         r \<leftarrow> eARPLookupGPA (\<lambda>_. True) (Some g) s;
         if r = eARPCacheMiss then Some (eReleaseBuffer, f, s)
         else do {
           let (p, s) = new_gpa (Some g) s;
           s \<leftarrow> vARPRefreshCacheEntry p (Some h) s;
           Some (eReturnEthernetFrame, arp_frame tha sha (padded n a) n (padded n b) ARP_REPLY @ pad, s) } }
       else do {
         let (p, s) = new_gha (Some h) s;
         s \<leftarrow> vARPAddCacheEntry True True g p 3 s;
         Some (eProcessBuffer, f, s) })"
proof -
  note ff = frame_fields[OF assms(1-3), of "padded n a" "padded n b" op pad, folded f_def]
  have d: "drop 28 f = padded n a @ tha @ padded n b @ pad" "drop (28 + n) f = tha @ padded n b @ pad"
    "drop (34 + n) f = padded n b @ pad"
    using arg_cong[OF ff(7), of "drop 6"] arg_cong[OF ff(7), of "drop (6 + n)"] arg_cong[OF ff(7), of "drop (12 + n)"]
      assms(1,2,6,9) by simp_all
  obtain g0 g where g: "pxCreateGPA True True (Some (padded n a @ tha @ padded n b @ pad)) n = Some (Some g0)"
    "xARPAddressGPAShrink (\<lambda>k. if k = 0 then zero else True) g0 0 = (True, g)" "gpa_ok g" "gpa_bytes g = a"
    using create_padded[OF assms(4-6)] by blast
  obtain t0 t where t: "pxCreateGPA True True (Some (padded n b @ pad)) n = Some (Some t0)"
    "xARPAddressGPAShrink (\<lambda>k. if k = 0 then zero else True) t0 0 = (True, t)"
    using create_padded[OF assms(7-9)] by blast
  let ?h = "\<lparr> gh_xType = MAC_ADDR_802_3, ucBytes = sha \<rparr>"
  have h: "pxCreateGHA True MAC_ADDR_802_3 (Some (sha @ r)) = Some (Some \<lparr> gh_xType = MAC_ADDR_802_3, ucBytes = sha \<rparr>)"
    "\<exists>q. pxCreateGHA True MAC_ADDR_802_3 (Some (tha @ r)) = Some (Some q)" for r
    using assms(1,2) by (simp_all add: pxCreateGHA_def MAC_ADDRESS_LENGTH_BYTES_def)
  obtain q where q: "pxCreateGHA True MAC_ADDR_802_3 (Some (tha @ padded n b @ pad)) = Some (Some q)" using h(2) by blast
  have str: "\<exists>x. xGPAAddressToString True (Some g) = Some x"
    using g(3) by (simp add: xGPAAddressToString_def)
  have ne: "ARP_REQUEST \<noteq> ARP_REPLY" by (simp add: ARP_REQUEST_def ARP_REPLY_def)
  have l: "\<not> length f < 22" using ff(1) by simp
  show ?thesis
    by (rule that[OF g(3,4), of ?h])
      (use str assms(10) ne in \<open>auto simp: eARPProcessPacket_def l ff(2-8) d g(1,2) t h(1) q Let_def
         split: option.split Option.bind_split\<close>)
qed

text \<open>Both addresses are padded to the longer one, where they are, and sent in one frame to
  all nodes.\<close>

lemma resolve_sends:
  assumes "gpas s pa = Some ga" "gpa_ok ga" "gpas s ta = Some gb" "gpa_ok gb" "pa \<noteq> ta"
    and "ghas s ha = Some h" "length (ucBytes h) = 6" "\<And>k. mem k" "\<And>k. storage k" "direct \<or> queued" "free = i # rest"
  defines "n \<equiv> max (uxLength ga) (uxLength gb)"
  assumes "n < 256"
  obtains nb z ga' gb' where
    "xARPResolveGPA mem storage direct queued (Some ta) (Some pa) (Some ha) free s
      = Some (True, Some nb, rest, s \<lparr> gpas := (gpas s)(pa \<mapsto> ga', ta \<mapsto> gb') \<rparr>)"
    "pucEthernetBuffer nb = Some (arp_frame (replicate 6 0xFF) (ucBytes h) (padded n (gpa_bytes ga)) n (padded n (gpa_bytes gb)) ARP_REQUEST @ z)"
    "gpa_ok ga'" "gpa_bytes ga' = padded n (gpa_bytes ga)" "uxLength ga' = n"
    "gpa_ok gb'" "gpa_bytes gb' = padded n (gpa_bytes gb)" "uxLength gb' = n"
    "nb_id nb = i" "xDataLength nb = 22 + (n + 6) * 2"
proof -
  define ga' where "ga' = snd (xARPAddressGPAGrow True ga n 0)"
  define gb' where "gb' = snd (xARPAddressGPAGrow True gb n 0)"
  have le: "uxLength ga \<le> n" "uxLength gb \<le> n" by (simp_all add: n_def)
  note ra = grow_runs[OF assms(2) le(1), of True 0, simplified, folded ga'_def]
  note rb = grow_runs[OF assms(4) le(2), of True 0, simplified, folded gb'_def]
  have pa: "gpa_bytes ga' = padded n (gpa_bytes ga)" "gpa_bytes gb' = padded n (gpa_bytes gb)"
    using ra(4) rb(4) assms(2,4) by (simp_all add: padded_def)
  have rd: "gpa_read ga' = Some (gpa_bytes ga')" "gpa_read gb' = Some (gpa_bytes gb')"
    using ra(2) rb(2) by (auto simp: gpa_read_def gpa_ok_def gpa_bytes_def)
  define sz where "sz = 22 + (n + MAC_ADDRESS_LENGTH_BYTES) * 2"
  have sz: "22 + (n + MAC_ADDRESS_LENGTH_BYTES) * 2 = sz" "22 + (n * 2 + MAC_ADDRESS_LENGTH_BYTES * 2) = sz"
    by (simp_all add: sz_def)
  let ?f = "arp_frame (replicate 6 0xFF) (ucBytes h) (gpa_bytes ga') n (gpa_bytes gb') ARP_REQUEST"
  have bs: "sz + 2 \<le> buffer_size sz"
    by (rule buffer_size_more) (use assms(13) in \<open>simp add: sz_def MAC_ADDRESS_LENGTH_BYTES_def\<close>)
  have len: "length ?f = sz"
    using ra(2,3) rb(2,3) assms(7) by (simp add: arp_frame_def be16_def le16_def sz_def MAC_ADDRESS_LENGTH_BYTES_def)
  define nb where "nb = \<lparr> nb_id = i, pucEthernetBuffer = Some (?f @ drop sz (fresh_buffer i (buffer_size sz))),
      pucRinaBuffer = None, pucDataBuffer = None, xRinaDataLength = 0, xDataLength = sz \<rparr>"
  have fb: "length (fresh_buffer i (buffer_size sz)) = buffer_size sz"
    using bs by (simp add: fresh_buffer_def length_le32 sz_def)
  have gen: "prvARPGeneratePacket True \<lparr> nb_id = i, pucEthernetBuffer = Some (fresh_buffer i (buffer_size sz)),
      pucRinaBuffer = None, pucDataBuffer = None, xRinaDataLength = 0, xDataLength = buffer_size sz \<rparr> h ga' gb' ARP_REQUEST = Some nb"
    using bs fb len by (simp add: prvARPGeneratePacket_def pxARPCreateGHAUnknown_def rd ra(3) sz Let_def nb_def)
  have buf: "pxGetNetworkBufferWithDescriptor storage sz free = Some (Some \<lparr> nb_id = i, pucEthernetBuffer = Some (fresh_buffer i (buffer_size sz)),
      pucRinaBuffer = None, pucDataBuffer = None, xRinaDataLength = 0, xDataLength = buffer_size sz \<rparr>, rest)"
    using assms(9,11) by (simp add: pxGetNetworkBufferWithDescriptor_def Let_def sz_def)
  have ok: "xIsGHAOK (Some h)" by (cases "gh_xType h") (auto simp: xIsGHAOK_def)
  have "xARPResolveGPA mem storage direct queued (Some ta) (Some pa) (Some ha) free s
      = Some (True, Some nb, rest, s \<lparr> gpas := (gpas s)(pa \<mapsto> ga', ta \<mapsto> gb') \<rparr>)"
    using assms(1-7,10) ok ra(1) rb(1)
    by (simp add: xARPResolveGPA_def gpa_deref_def gha_deref_def vARPSendRequest_def n_def[symmetric] assms(8) sz buf gen Let_def del: max.bounded_iff)
  then show ?thesis
    by (rule that) (use pa ra rb in \<open>simp_all add: nb_def sz_def MAC_ADDRESS_LENGTH_BYTES_def\<close>)
qed

text \<open>A refresh in a well-formed cache takes a row for the new address.\<close>

lemma refresh_total:
  assumes "arp_wf s" "new_gpa (Some g) s = (p, s1)" "gpa_ok g" "length (ucBytes h) = 6"
  obtains s' y where "vARPRefreshCacheEntry p (Some h) s1 = Some s'" "y < ARP_CACHE_ENTRIES"
    "row_addr s' (xARPCache s' ! y) = gpa_bytes g" "row_mac s' (xARPCache s' ! y) = ucBytes h"
    "ucAge (xARPCache s' ! y) = MAX_ARP_AGE" "ucValid (xARPCache s' ! y) = 1"
    "\<And>x. x \<noteq> y \<Longrightarrow> xARPCache s' ! x = xARPCache s ! x" "gpas s' = gpas s1"
proof -
  have hs: "heap_ok s" using assms(1) by (simp add: arp_wf_def)
  note n = new_gpa_facts[OF hs assms(2)]
  have w1: "arp_wf s1" by (rule wf_new_gpa[OF assms(1,2)])
  have len: "length (xARPCache s1) = 4" using w1 by (simp add: arp_wf_def ARP_CACHE_ENTRIES_def)
  have ex: "\<forall>r \<in> set rs. row_ok s1 r \<and> pxProtocolAddress r \<noteq> p \<Longrightarrow>
      \<exists>mac' use'. refresh_scan s1 p (Some h) x rs None mac use m = Some (ScanEnd None mac' use')" for rs x mac use m
  proof (induction rs arbitrary: x mac use m)
    case (Cons r rs)
    then obtain b q where "pxMACAddress r = Some b" "ghas s1 b = Some q" by (auto simp: row_ok_def)
    then show ?case using Cons by auto
  qed simp
  have "\<forall>r \<in> set (xARPCache s1). row_ok s1 r \<and> pxProtocolAddress r \<noteq> p"
    using w1 wf_fresh[OF assms(1)] n(1,4) by (auto simp: arp_wf_def)
  from ex[OF this] obtain mac use where e: "refresh_scan s1 p (Some h) 0 (xARPCache s1) None None 0 255 = Some (ScanEnd None mac use)"
    by blast
  have "use < 4" "set_option mac \<subseteq> {..<4}"
    using scan_bounds[OF e, of 4] len by simp_all
  then obtain y where y: "y = (case mac of Some m \<Rightarrow> m | None \<Rightarrow> use)" "y < 4" by (cases mac) auto
  obtain b q where b: "pxMACAddress (xARPCache s1 ! y) = Some b" "ghas s1 b = Some q"
    using w1 y(2) len nth_mem[of y "xARPCache s1"] unfolding arp_wf_def row_ok_def by metis
  define s' where "s' = upd_row y (\<lambda>r. r \<lparr> ucAge := MAX_ARP_AGE, ucValid := 1 \<rparr>)
     (upd_row y (\<lambda>r. r \<lparr> pxProtocolAddress := p \<rparr>) s1 \<lparr> ghas := (ghas s1)(b \<mapsto> q \<lparr> ucBytes := ucBytes h \<rparr>) \<rparr>)"
  have "vARPRefreshCacheEntry p (Some h) s1 = Some s'"
    using y b len unfolding vARPRefreshCacheEntry_def e bind.bind_lunit s'_def
    by (cases mac) (auto simp: Let_def upd_row_def)
  then show ?thesis
    by (rule that[of s' y])
      (use y(2) b len n in \<open>simp_all add: s'_def upd_row_def ARP_CACHE_ENTRIES_def row_addr_def row_mac_def gpa_deref_def gha_deref_def\<close>)
qed

lemma add_entry_total:
  assumes "gpa_ok g" "ghas s b = Some h" "heap_ok s"
  obtains s' where "vARPAddCacheEntry True True g (Some b) age s = Some s'" "ghas s' = ghas s"
    "\<forall>a. a \<noteq> arp_next s \<longrightarrow> gpas s' a = gpas s a"
    "case first_ix (\<lambda>r. ucValid r = 0) (xARPCache s) of None \<Rightarrow> s' = s
     | Some x \<Rightarrow> \<exists>p g'. xARPCache s' = (xARPCache s)[x :=
        \<lparr> pxProtocolAddress = Some p, pxMACAddress = Some b, ucAge = age, ucValid = 1 \<rparr>]
        \<and> gpas s' p = Some g' \<and> gpa_bytes g' = gpa_bytes g"
proof (cases "first_ix (\<lambda>r. ucValid r = 0) (xARPCache s)")
  case None
  then show ?thesis using that[of s] by (simp add: vARPAddCacheEntry_def)
next
  case (Some x)
  obtain bs where bs: "pucAddress g = Some bs" "uxLength g \<le> length bs" "0 < uxLength g"
    using assms(1) by (auto simp: gpa_ok_def)
  define g' where "g' = \<lparr> pucAddress = Some (take (uxLength g) bs @ [0]), uxLength = uxLength g \<rparr>"
  obtain p s1 where s1: "new_gpa (Some g') s = (p, s1)" by (cases "new_gpa (Some g') s")
  note n = new_gpa_facts[OF assms(3) s1]
  have "gpa_bytes g' = gpa_bytes g" using bs by (simp add: gpa_bytes_def g'_def)
  moreover have "vARPAddCacheEntry True True g (Some b) age s = Some (s1 \<lparr> xARPCache := (xARPCache s1)[x :=
      \<lparr> pxProtocolAddress = p, pxMACAddress = Some b, ucAge = age, ucValid = 1 \<rparr>] \<rparr>)"
    using Some assms(2) n(1,6) s1 create_gpa_some[OF bs(2,3)] bs(1)
    by (simp add: vARPAddCacheEntry_def g'_def[symmetric])
  ultimately show ?thesis
    using n Some by (intro that[of "s1 \<lparr> xARPCache := (xARPCache s1)[x :=
      \<lparr> pxProtocolAddress = p, pxMACAddress = Some b, ucAge = age, ucValid = 1 \<rparr>] \<rparr>"]) auto
qed

text \<open>What a received answer leaves in the cache.\<close>

lemma reply_adds:
  assumes "arp_wf s" "gpa_ok g" "length (ucBytes h) = 6" "new_gha (Some h) s = (p, s1)"
  obtains s' where "vARPAddCacheEntry True True g p 3 s1 = Some s'"
    "\<And>c. arp_known s' c \<Longrightarrow> arp_known s c \<or> c = gpa_bytes g"
    "\<And>x. first_ix (\<lambda>r. ucValid r = 0) (xARPCache s) = Some x \<Longrightarrow>
       xARPCache s' = (xARPCache s)[x := xARPCache s' ! x] \<and> ucAge (xARPCache s' ! x) = 3
       \<and> row_addr s' (xARPCache s' ! x) = gpa_bytes g
       \<and> pxMACAddress (xARPCache s' ! x) = Some (arp_next s) \<and> ghas s' (arp_next s) = Some h"
    "\<And>b. b \<noteq> arp_next s \<Longrightarrow> ghas s' b = ghas s b"
proof -
  have hs: "heap_ok s" using assms(1) by (simp add: arp_wf_def)
  note n = new_gha_facts[OF hs assms(4,3)]
  have w1: "arp_wf s1" by (rule wf_new_gha[OF assms(1,4,3)])
  obtain s' where s': "vARPAddCacheEntry True True g (Some (arp_next s)) 3 s1 = Some s'" "ghas s' = ghas s1"
    "\<forall>a. a \<noteq> arp_next s1 \<longrightarrow> gpas s' a = gpas s1 a"
    "case first_ix (\<lambda>r. ucValid r = 0) (xARPCache s1) of None \<Rightarrow> s' = s1
     | Some x \<Rightarrow> \<exists>p g'. xARPCache s' = (xARPCache s1)[x :=
        \<lparr> pxProtocolAddress = Some p, pxMACAddress = Some (arp_next s), ucAge = 3, ucValid = 1 \<rparr>]
        \<and> gpas s' p = Some g' \<and> gpa_bytes g' = gpa_bytes g"
    by (rule add_entry_total[OF assms(2) n(5,3)])
  have same: "row_addr s' r = row_addr s r" if "r \<in> set (xARPCache s)" for r
    using that s'(3) n(6) wf_fresh[OF w1] n(4) by (auto simp: row_addr_def gpa_deref_def split: option.splits)
  show ?thesis
  proof (rule that)
    show "vARPAddCacheEntry True True g p 3 s1 = Some s'" using s'(1) n(1) by simp
    show "arp_known s c \<or> c = gpa_bytes g" if "arp_known s' c" for c
    proof (cases "first_ix (\<lambda>r. ucValid r = 0) (xARPCache s)")
      case None
      then show ?thesis using that s'(4) n(4) same by (auto simp: arp_known_def)
    next
      case (Some x)
      from s'(4)[unfolded n(4) Some option.case] obtain q g' where q: "xARPCache s' = (xARPCache s)[x :=
          \<lparr> pxProtocolAddress = Some q, pxMACAddress = Some (arp_next s), ucAge = 3, ucValid = 1 \<rparr>]"
          "gpas s' q = Some g'" "gpa_bytes g' = gpa_bytes g" by blast
      obtain r where "r \<in> set (xARPCache s')" "ucAge r \<noteq> 0" "row_addr s' r = c"
        using \<open>arp_known s' c\<close> by (auto simp: arp_known_def)
      moreover have "row_addr s' \<lparr> pxProtocolAddress = Some q, pxMACAddress = Some (arp_next s), ucAge = 3, ucValid = 1 \<rparr> = gpa_bytes g"
        using q by (simp add: row_addr_def gpa_deref_def)
      ultimately show ?thesis
        using q(1) same set_update_subset_insert[of "xARPCache s" x] unfolding arp_known_def
        by (metis (no_types, lifting) insertE subsetD)
    qed
    show "ghas s' b = ghas s b" if "b \<noteq> arp_next s" for b using s'(2) n(7)[OF that] by simp
  next
    fix x assume x: "first_ix (\<lambda>r. ucValid r = 0) (xARPCache s) = Some x"
    from s'(4)[unfolded n(4) x option.case] obtain q g' where q: "xARPCache s' = (xARPCache s)[x :=
        \<lparr> pxProtocolAddress = Some q, pxMACAddress = Some (arp_next s), ucAge = 3, ucValid = 1 \<rparr>]"
        "gpas s' q = Some g'" "gpa_bytes g' = gpa_bytes g" by blast
    then show "xARPCache s' = (xARPCache s)[x := xARPCache s' ! x] \<and> ucAge (xARPCache s' ! x) = 3
       \<and> row_addr s' (xARPCache s' ! x) = gpa_bytes g
       \<and> pxMACAddress (xARPCache s' ! x) = Some (arp_next s) \<and> ghas s' (arp_next s) = Some h"
      using first_ix_less[OF x] s'(2) n(5) by (simp add: row_addr_def gpa_deref_def)
  qed
qed

section \<open>Properties\<close>

lemma known_intro: "y < length (xARPCache s) \<Longrightarrow> ucAge (xARPCache s ! y) \<noteq> 0 \<Longrightarrow> row_addr s (xARPCache s ! y) = c \<Longrightarrow> arp_known s c"
  by (auto simp: arp_known_def)

text \<open>C32: While its allocations succeed and \<open>vARPRemoveAll\<close> is not called, whatever frames
  a node receives and whatever it adds, removes and resolves, every row of its cache points to a protocol address and a hardware address that exist and is
  either free or in use: age and validity go together, nothing ages, and a look-up answers
  whether a row in use has the address, never that an answer is still awaited.\<close>

theorem arp_invariant:
  assumes "arp_reach s"
  shows "length (xARPCache s) = ARP_CACHE_ENTRIES \<and> (\<forall>r \<in> set (xARPCache s). row_ok s r)
    \<and> (gpa_ok g \<longrightarrow> eARPLookupGPA (\<lambda>_. True) (Some g) s
        = Some (if arp_known s (gpa_bytes g) then eARPCacheHit else eARPCacheMiss))"
proof -
  have w: "arp_wf s"
    using assms
  proof (induction rule: arp_reach.induct)
    case (add s pa ha hnd s')
    then have "s' = s \<or> (\<exists>g. vARPAddCacheEntry True True g ha 1 s = Some s')"
      by (auto simp: pxARPAdd_def split: if_splits Option.bind_splits)
    then show ?case using add.IH add_entry_wf[of s True True _ ha 1 s'] by auto
  next
    case (remove s pa ha ok s')
    then have "s' = s \<or> (\<exists>g h. vARPRemoveCacheEntry (\<lambda>_. True) g h s = Some s')"
      by (auto simp: xARPRemove_def split: if_splits Option.bind_splits)
    then show ?case using remove.IH remove_entry_wf[of s _ _ s'] by auto
  next
    case (init junk s)
    then show ?case by (rule init_wf)
  next
    case (gpa s g p s')
    then show ?case by (metis wf_new_gpa)
  next
    case (gha s h p s')
    then show ?case by (metis wf_new_gha)
  next
    case (resolve s mem storage direct queued tpa spa sha free ok nb free' s')
    then show ?case by (metis resolve_wf)
  next
    case (process s zero frame r f s')
    then show ?case by (metis process_wf)
  qed
  then show ?thesis using lookup_wf(1)[OF w, of "\<lambda>_. True" g] by (simp add: arp_wf_def)
qed


lemma first_ix_set:
  "x < length xs \<Longrightarrow> P r \<Longrightarrow> first_ix P (xs[x := r]) = Some (case first_ix P (take x xs) of None \<Rightarrow> x | Some y \<Rightarrow> y)"
proof (induction xs arbitrary: x)
  case (Cons a xs)
  then show ?case by (cases x) (auto split: option.splits)
qed simp

lemma take_ix_less: "first_ix P (take x xs) = Some y \<Longrightarrow> y < x \<and> y < length xs"
  using first_ix_less by fastforce

text \<open>An answer puts the sender's addresses into the first free row, where a look-up of the
  protocol address finds them.  But the look-up of a hardware address ignores the
  address it is given: for every one it answers what the first row that holds an answer has,
  so that with two peers the hardware address of the first is used for both.\<close>

theorem arp_reply_learned:
  assumes "arp_wf s" "first_ix (\<lambda>r. ucValid r = 0) (xARPCache s) = Some x"
    and "length tha = 6" "length sha = 6" "n < 256" "0 \<notin> set a" "a \<noteq> []" "length a \<le> n" "0 \<notin> set b" "b \<noteq> []" "length b \<le> n"
  shows "\<exists>s'. eARPProcessPacket (\<lambda>_. True) zero (arp_frame tha sha (padded n a) n (padded n b) ARP_REPLY @ pad) s
      = Some (eProcessBuffer, arp_frame tha sha (padded n a) n (padded n b) ARP_REPLY @ pad, s')
    \<and> row_addr s' (xARPCache s' ! x) = a \<and> row_mac s' (xARPCache s' ! x) = sha
    \<and> arp_known s' a
    \<and> (\<forall>q. map_option (map_option ucBytes) (pxARPLookupGHA True q s') = Some (Some
         (case first_ix (\<lambda>r. ucAge r = 3) (take x (xARPCache s)) of None \<Rightarrow> sha | Some y \<Rightarrow> row_mac s (xARPCache s ! y))))"
proof -
  let ?f = "arp_frame tha sha (padded n a) n (padded n b) ARP_REPLY @ pad"
  have op: "ARP_REPLY = ARP_REQUEST \<or> ARP_REPLY = ARP_REPLY" "ARP_REPLY \<noteq> ARP_REQUEST"
    by (simp_all add: ARP_REQUEST_def ARP_REPLY_def)
  obtain g h where g: "gpa_ok g" "gpa_bytes g = a" "ucBytes h = sha"
    "eARPProcessPacket (\<lambda>_. True) zero ?f s = (do {
         let (p, s) = new_gha (Some h) s; s \<leftarrow> vARPAddCacheEntry True True g p 3 s; Some (eProcessBuffer, ?f, s) })"
    by (rule process_frame[OF assms(3-11) op(1), of zero pad s]) (simp_all add: op(2))
  obtain p s1 where s1: "new_gha (Some h) s = (p, s1)" by (cases "new_gha (Some h) s")
  have h6: "length (ucBytes h) = 6" using g(3) assms(4) by simp
  obtain s' where s': "vARPAddCacheEntry True True g p 3 s1 = Some s'"
    "xARPCache s' = (xARPCache s)[x := xARPCache s' ! x]" "ucAge (xARPCache s' ! x) = 3"
    "row_addr s' (xARPCache s' ! x) = gpa_bytes g"
    "pxMACAddress (xARPCache s' ! x) = Some (arp_next s)" "ghas s' (arp_next s) = Some h"
    "\<And>b. b \<noteq> arp_next s \<Longrightarrow> ghas s' b = ghas s b"
    using reply_adds[OF assms(1) g(1) h6 s1] assms(2) by metis
  define r where "r = xARPCache s' ! x"
  have x: "x < length (xARPCache s)" by (rule first_ix_less[OF assms(2)])
  then have x': "x < length (xARPCache s')" using arg_cong[OF s'(2), of length] by simp
  have mac: "row_mac s' r = sha" using s'(5,6) g(3) by (simp add: row_mac_def gha_deref_def r_def)
  have "arp_known s' a" by (rule known_intro[OF x']) (use s'(3,4) g(2) in simp_all)
  moreover have "map_option (map_option ucBytes) (pxARPLookupGHA True q s') = Some (Some
         (case first_ix (\<lambda>r. ucAge r = 3) (take x (xARPCache s)) of None \<Rightarrow> sha | Some y \<Rightarrow> row_mac s (xARPCache s ! y)))" for q
  proof -
    have f: "first_ix (\<lambda>r. ucAge r = 3) (xARPCache s') = Some (case first_ix (\<lambda>r. ucAge r = 3) (take x (xARPCache s)) of None \<Rightarrow> x | Some y \<Rightarrow> y)"
      using first_ix_set[OF x, of "\<lambda>r. ucAge r = 3" r] s'(2,3) x by (simp add: r_def[symmetric])
    show ?thesis
    proof (cases "first_ix (\<lambda>r. ucAge r = 3) (take x (xARPCache s))")
      case None
      then show ?thesis using f s'(5,6) g(3) by (simp add: pxARPLookupGHA_def)
    next
      case (Some y)
      then have y: "y < x" "y < length (xARPCache s)" using take_ix_less by blast+
      then have cy: "xARPCache s' ! y = xARPCache s ! y" by (subst s'(2)) simp
      obtain b h' where b: "pxMACAddress (xARPCache s ! y) = Some b" "ghas s b = Some h'"
        using assms(1) y(2) nth_mem[of y "xARPCache s"] unfolding arp_wf_def row_ok_def by metis
      have "b \<noteq> arp_next s" using b(2) assms(1) by (auto simp: arp_wf_def heap_ok_def)
      then have "ghas s' b = Some h'" using s'(7) b(2) by simp
      then show ?thesis using f Some cy b by (simp add: pxARPLookupGHA_def row_mac_def gha_deref_def)
    qed
  qed
  ultimately show ?thesis
    using g(4) s1 s'(1,4) g(2) mac unfolding r_def by (intro exI[of _ s']) simp
qed

text \<open>A frame whose sender has an address that begins with a NUL byte stops the node, if
  \<open>malloc\<close> of no bytes gives a pointer: a request always, an answer if a row of the
  cache is free; otherwise the frame is released.\<close>

theorem arp_nul_sender:
  assumes "arp_wf s" "length tha = 6" "length sha = 6" "n < 256" "length spa = n" "0 < n" "hd spa = 0"
    and "0 \<notin> set b" "b \<noteq> []" "length b \<le> n" "op = ARP_REQUEST \<or> op = ARP_REPLY \<and> (\<exists>r \<in> set (xARPCache s). ucValid r = 0)"
  shows "eARPProcessPacket (\<lambda>_. True) zero (arp_frame tha sha spa n (padded n b) op @ pad) s
    = (if zero then None else Some (eReleaseBuffer, arp_frame tha sha spa n (padded n b) op @ pad, s))"
proof -
  define f where "f = arp_frame tha sha spa n (padded n b) op @ pad"
  note ff = frame_fields[OF assms(2-4), of spa "padded n b" op pad, folded f_def]
  have d: "drop 28 f = spa @ tha @ padded n b @ pad" "drop (28 + n) f = tha @ padded n b @ pad"
    "drop (34 + n) f = padded n b @ pad"
    using arg_cong[OF ff(7), of "drop 6"] arg_cong[OF ff(7), of "drop (6 + n)"] arg_cong[OF ff(7), of "drop (12 + n)"]
      assms(2,3,5,10) by simp_all
  let ?m = "\<lambda>k. if k = (0::nat) then zero else True"
  let ?g0 = "\<lparr> pucAddress = Some (spa @ [0]), uxLength = n \<rparr>"
  have g: "pxCreateGPA True True (Some (spa @ tha @ padded n b @ pad)) n = Some (Some ?g0)"
    using create_gpa_some[of n "spa @ tha @ padded n b @ pad"] assms(5,6) by simp
  have "gpa_bytes ?g0 = spa" using assms(5) by (simp add: gpa_bytes_def)
  then have sh: "xARPAddressGPAShrink ?m ?g0 0 = (if zero then (True, \<lparr> pucAddress = Some [], uxLength = 0 \<rparr>) else (False, ?g0))"
    using assms(5-7) by (cases spa) (simp_all add: xARPAddressGPAShrink_def xIsGPAOK_def)
  obtain t0 t where t: "pxCreateGPA True True (Some (padded n b @ pad)) n = Some (Some t0)"
    "xARPAddressGPAShrink ?m t0 0 = (True, t)"
    using create_padded[OF assms(8-10)] by blast
  obtain q q2 where q: "pxCreateGHA True MAC_ADDR_802_3 (Some (tha @ padded n b @ pad)) = Some (Some q)"
    "pxCreateGHA True MAC_ADDR_802_3 (Some (sha @ spa @ tha @ padded n b @ pad)) = Some (Some q2)"
    using assms(2,3) by (simp add: pxCreateGHA_def MAC_ADDRESS_LENGTH_BYTES_def)
  have bad: "\<not> xIsGPAOK (Some \<lparr> pucAddress = Some [], uxLength = 0 \<rparr>)" by (simp add: xIsGPAOK_def)
  have lk: "eARPLookupGPA (\<lambda>_. True) (Some \<lparr> pucAddress = Some [], uxLength = 0 \<rparr>) s = Some eARPCacheMiss"
    by (rule lookup_wf(2)[OF assms(1) _ bad]) simp
  have str: "xGPAAddressToString True (Some \<lparr> pucAddress = Some [], uxLength = 0 \<rparr>) = None"
    using bad by (simp add: xGPAAddressToString_def)
  have add: "vARPAddCacheEntry True True \<lparr> pucAddress = Some [], uxLength = 0 \<rparr> p 3 s1 = None"
    if e: "new_gha (Some q2) s = (p, s1)" and v: "\<exists>r \<in> set (xARPCache s). ucValid r = 0" for p s1
  proof -
    have "xARPCache s1 = xARPCache s" using e by (auto simp: new_gha_def)
    then obtain x where "first_ix (\<lambda>r. ucValid r = 0) (xARPCache s1) = Some x"
      using v first_ix_ex[of "\<lambda>r. ucValid r = 0" "xARPCache s1"] by auto
    then show ?thesis by (simp add: vARPAddCacheEntry_def pxCreateGPA_def new_gpa_def)
  qed
  have ne: "ARP_REQUEST \<noteq> ARP_REPLY" by (simp add: ARP_REQUEST_def ARP_REPLY_def)
  have l: "\<not> length f < 22" using ff(1) by simp
  obtain p s1 where s1: "new_gha (Some q2) s = (p, s1)" by (cases "new_gha (Some q2) s")
  have "eARPProcessPacket (\<lambda>_. True) zero f s = (if \<not> zero then Some (eReleaseBuffer, f, s)
    else if op = ARP_REQUEST then None else do {
      s \<leftarrow> vARPAddCacheEntry True True \<lparr> pucAddress = Some [], uxLength = 0 \<rparr> p 3 s1; Some (eProcessBuffer, f, s) })"
    using assms(11) ne by (auto simp: eARPProcessPacket_def l ff(2-7) d g sh t q lk str s1 Let_def)
  then have "eARPProcessPacket (\<lambda>_. True) zero f s = (if zero then None else Some (eReleaseBuffer, f, s))"
    using assms(11) add[OF s1] by (cases "op = ARP_REQUEST") simp_all
  then show ?thesis unfolding f_def .
qed

section \<open>Examples\<close>

definition ex_arp :: arp where
  "ex_arp = the (vARPInitCache (\<lambda>_. True) [1, 2, 3] arp_boot)"

definition ex_gpa :: "u8 list \<Rightarrow> gpa_t" where
  "ex_gpa bs = \<lparr> pucAddress = Some (bs @ [0]), uxLength = length bs \<rparr>"

definition ex_gha :: gha_t where
  "ex_gha = \<lparr> gh_xType = MAC_ADDR_802_3, ucBytes = [2, 0, 0, 0, 0, 1] \<rparr>"

lemma ex_arp_init: "vARPInitCache (\<lambda>_. True) [1, 2, 3] arp_boot = Some ex_arp"
  "arp_wf ex_arp"
proof -
  show i: "vARPInitCache (\<lambda>_. True) [1, 2, 3] arp_boot = Some ex_arp"
    by (simp add: ex_arp_def vARPInitCache_def new_gha_def new_gpa_def pxARPCreateGHAUnknown_def pxCreateGPA_def)
  show "arp_wf ex_arp" by (rule init_wf[OF i])
qed

lemma ex_arp_eq: "ex_arp = \<lparr> gpas = [1 \<mapsto> \<lparr> pucAddress = Some [0, 0, 1, 2, 3, 0], uxLength = 5 \<rparr>],
     ghas = [0 \<mapsto> \<lparr> gh_xType = MAC_ADDR_802_3, ucBytes = replicate 6 0xFF \<rparr>], arp_next = 2,
     xARPCache = replicate 4 \<lparr> pxProtocolAddress = Some 1, pxMACAddress = Some 0, ucAge = 0, ucValid = 0 \<rparr> \<rparr>"
  by (simp add: ex_arp_def vARPInitCache_def new_gha_def new_gpa_def pxARPCreateGHAUnknown_def pxCreateGPA_def arp_boot_def
      ARP_CACHE_ENTRIES_def)

lemma ex_arp_rows: "arp_next ex_arp = 2" "\<forall>r \<in> set (xARPCache ex_arp). ucAge r = 0 \<and> ucValid r = 0 \<and> pxProtocolAddress r = Some 1"
  "length (xARPCache ex_arp) = 4"
  by (simp_all add: ex_arp_eq)

lemma ex_arp_unknown: "\<not> arp_known ex_arp c"
  using ex_arp_rows(2) by (auto simp: arp_known_def)

lemma ex_gpa_ok: "bs \<noteq> [] \<Longrightarrow> gpa_ok (ex_gpa bs)" "gpa_bytes (ex_gpa bs) = bs" "uxLength (ex_gpa bs) = length bs"
  by (simp_all add: gpa_ok_def ex_gpa_def gpa_bytes_def)

text \<open>The cache with two protocol addresses and a hardware address of its owner.\<close>

definition ex_arp2 :: arp where
  "ex_arp2 = snd (new_gha (Some ex_gha) (snd (new_gpa (Some (ex_gpa [66, 67])) (snd (new_gpa (Some (ex_gpa [65])) ex_arp)))))"

lemma ex_arp2_wf: "arp_wf ex_arp2"
proof -
  have "arp_wf (snd (new_gpa (Some (ex_gpa [65])) ex_arp))"
    by (rule wf_new_gpa[OF ex_arp_init(2)]) (rule prod.collapse[symmetric])
  then have "arp_wf (snd (new_gpa (Some (ex_gpa [66, 67])) (snd (new_gpa (Some (ex_gpa [65])) ex_arp))))"
    by (rule wf_new_gpa) (rule prod.collapse[symmetric])
  then show ?thesis
    unfolding ex_arp2_def by (rule wf_new_gha) (rule prod.collapse[symmetric], simp add: ex_gha_def)
qed

lemma ex_arp2_objects: "gpas ex_arp2 2 = Some (ex_gpa [65])" "gpas ex_arp2 3 = Some (ex_gpa [66, 67])" "ghas ex_arp2 4 = Some ex_gha"
  "xARPCache ex_arp2 = xARPCache ex_arp"
  by (simp_all add: ex_arp2_def new_gpa_def new_gha_def ex_arp_rows(1))

theorem arp_invariant_witness:
  "eARPLookupGPA (\<lambda>_. True) (Some (ex_gpa [65])) ex_arp = Some eARPCacheMiss"
  using arp_invariant[OF arp_reach.init[OF ex_arp_init(1)], of "ex_gpa [65]"] ex_gpa_ok(1)[of "[65]"] ex_arp_unknown
  by simp


lemma ex_arp_free: "first_ix (\<lambda>r. ucValid r = 0) (xARPCache ex_arp) = Some 0" "\<exists>r \<in> set (xARPCache ex_arp). ucValid r = 0"
  using ex_arp_rows(2,3) by (cases "xARPCache ex_arp"; simp)+

theorem arp_reply_learned_witness:
  "\<exists>s. eARPProcessPacket (\<lambda>_. True) True (arp_frame (replicate 6 1) (replicate 6 2) (padded 2 [65]) 2 (padded 2 [66]) ARP_REPLY @ []) ex_arp
      = Some (eProcessBuffer, arp_frame (replicate 6 1) (replicate 6 2) (padded 2 [65]) 2 (padded 2 [66]) ARP_REPLY @ [], s)
    \<and> arp_known s [65] \<and> map_option (map_option ucBytes) (pxARPLookupGHA True (Some (ex_gpa [70])) s) = Some (Some (replicate 6 2))"
proof -
  have "length (replicate 6 (1::u8)) = 6" "length (replicate 6 (2::u8)) = 6" "2 < (256::nat)" "0 \<notin> set [65::u8]" "[65::u8] \<noteq> []"
    "length [65::u8] \<le> 2" "0 \<notin> set [66::u8]" "[66::u8] \<noteq> []" "length [66::u8] \<le> 2" by simp_all
  from arp_reply_learned[OF ex_arp_init(2) ex_arp_free(1) this, of True "[]"] show ?thesis by auto
qed

theorem arp_nul_sender_witness:
  "eARPProcessPacket (\<lambda>_. True) True (arp_frame (replicate 6 1) (replicate 6 2) [0] 1 (padded 1 [66]) ARP_REQUEST @ []) ex_arp = None"
proof -
  have "length (replicate 6 (1::u8)) = 6" "length (replicate 6 (2::u8)) = 6" "1 < (256::nat)" "length [0::u8] = 1" "0 < (1::nat)"
    "hd [0::u8] = 0" "0 \<notin> set [66::u8]" "[66::u8] \<noteq> []" "length [66::u8] \<le> 1"
    "ARP_REQUEST = ARP_REQUEST \<or> ARP_REQUEST = ARP_REPLY \<and> (\<exists>r \<in> set (xARPCache ex_arp). ucValid r = 0)" by simp_all
  from arp_nul_sender[OF ex_arp_init(2) this, of True "[]"] show ?thesis by simp
qed

end
