(* ===== verification/N1_Flow.thy ===== *)
theory N1_Flow
  imports Ipcp_Normal "HOL-Library.Multiset"
begin

text \<open>
  The interface between the RMT and the flow below it (the function pointer \<open>duWrite\<close> of
  \<open>rmt.c\<close>), as a locale: a shim that takes over a unit gives its descriptor back or
  queues one buffer for the network in its place, if the queue has room.  From that follows, for the whole sending
  path of the normal IPC process, that no descriptor is lost or held twice.
\<close>

section \<open>Descriptors\<close>

text \<open>The descriptors that the pool and the buffers queued for the network account for.\<close>

definition held :: "NetworkBufferDescriptor_t list \<Rightarrow> nat list \<Rightarrow> nat multiset" where
  "held tx free = mset (map nb_id tx) + mset free"

abbreviation dp_held :: "dplane \<Rightarrow> nat multiset" where
  "dp_held s \<equiv> held (net_tx s) (free_desc s)"

lemma held_simps [simp]: "held tx (i # free) = add_mset i (held tx free)"
  "held (tx @ [nb]) free = add_mset (nb_id nb) (held tx free)"
  by (simp_all add: held_def)

lemma destroy_held:
  "destroy du s = Some s' \<Longrightarrow> s' = s \<lparr> free_desc := du_id du # free_desc s \<rparr>"
  by (auto simp: destroy_def xDuDestroy_def vReleaseNetworkBufferAndDescriptor_def du_id_def
      split: Option.bind_splits if_splits)

lemma get_buffer_held:
  "pxGetNetworkBufferWithDescriptor mem n free = Some (new, free') \<Longrightarrow>
    (case new of None \<Rightarrow> free = [] \<and> free' = [] | Some nb \<Rightarrow> free = nb_id nb # free' \<and> pucRinaBuffer nb = None)"
  by (auto simp: pxGetNetworkBufferWithDescriptor_def Let_def split: list.splits if_splits)

lemma encap_held:
  assumes "xDuEncap mem du free = Some (ok, du', free')"
  shows "add_mset (du_id du') (mset free') = add_mset (du_id du) (mset free)"
    "ok \<Longrightarrow> pucRinaBuffer (pxNetworkBuffer du') = None"
  using assms
  by (auto simp: xDuEncap_def Let_def vReleaseNetworkBufferAndDescriptor_def du_id_def
      split: Option.bind_splits option.splits if_splits dest!: get_buffer_held)

lemma pci_write_id [simp]: "du_id (pci_write p du) = du_id du"
  "pucRinaBuffer (pxNetworkBuffer (pci_write p du)) = pucRinaBuffer (pxNetworkBuffer du)"
  by (simp_all add: pci_write_def du_id_def)

lemma efcp_put_held [simp]: "dp_held (efcp_put x e s) = dp_held s"
  "net_tx (efcp_put x e s) = net_tx s" "free_desc (efcp_put x e s) = free_desc s"
  by (simp_all add: efcp_put_def)

section \<open>What the shims share\<close>

text \<open>A shim that writes answers whether it has taken the unit and the buffer for the queue.\<close>

lemma destroy_du: "xDuDestroy du free = Some (b, free') \<Longrightarrow> free' = du_id du # free"
  by (auto simp: xDuDestroy_def vReleaseNetworkBufferAndDescriptor_def du_id_def split: Option.bind_splits if_splits)

definition takes :: "nat \<Rightarrow> bool \<Rightarrow> bool \<Rightarrow> NetworkBufferDescriptor_t option \<Rightarrow> nat list \<Rightarrow> nat list \<Rightarrow> bool" where
  "takes i q r nb free free' \<longleftrightarrow> (case nb of
     None \<Rightarrow> \<not> r \<and> mset free' = add_mset i (mset free)
   | Some nb \<Rightarrow> r \<and> q \<and> add_mset (nb_id nb) (mset free') = add_mset i (mset free))"

lemma dropped_takes:
  "do { (_, f) \<leftarrow> xDuDestroy du free; Some (False, None, f) } = Some (r, nb, free') \<Longrightarrow> takes (du_id du) q r nb free free'"
  by (auto simp: takes_def split: Option.bind_splits dest!: destroy_du)

text \<open>The end of a write: the unit is destroyed, the new buffer queued or released.\<close>

lemma queued_takes:
  assumes "do { (_, free) \<leftarrow> xDuDestroy du f1;
      if q then Some (True, Some new, free)
      else do { free \<leftarrow> vReleaseNetworkBufferAndDescriptor new free; Some (False, None, free) } } = Some (r, nb, free')"
    and "free = nb_id new # f1"
  shows "takes (du_id du) q r nb free free'"
  using assms
  by (auto simp: takes_def vReleaseNetworkBufferAndDescriptor_def split: Option.bind_splits if_splits dest!: destroy_du)

lemma takes_held:
  assumes "takes i (length tx < room) r nb free free'"
  shows "held (tx @ (case nb of None \<Rightarrow> [] | Some nb \<Rightarrow> [nb])) free' = add_mset i (held tx free)"
    "if r then length tx < room \<and> (\<exists>b. tx @ (case nb of None \<Rightarrow> [] | Some nb \<Rightarrow> [nb]) = tx @ [b])
     else tx @ (case nb of None \<Rightarrow> [] | Some nb \<Rightarrow> [nb]) = tx"
  using assms by (auto simp: takes_def held_def split: option.splits simp flip: union_mset_add_mset_right)

section \<open>The interface\<close>

locale n1_flow =
  fixes n1_write :: "u32 \<Rightarrow> du_t \<Rightarrow> NetworkBufferDescriptor_t list \<Rightarrow> nat list
    \<Rightarrow> (bool \<times> NetworkBufferDescriptor_t list \<times> nat list) option"
    and n1_room :: nat
  assumes takes_over: "n1_write port du tx free = Some (r, tx', free') \<Longrightarrow>
      held tx' free' = add_mset (du_id du) (held tx free)"
    and queues: "n1_write port du tx free = Some (r, tx', free') \<Longrightarrow>
      if r then length tx < n1_room \<and> (\<exists>nb. tx' = tx @ [nb]) else tx' = tx"
begin

text \<open>What a step that is handed the descriptor \<open>i\<close> does with descriptors and the network:
  it accounts for all, and queues at most one buffer, for which there is room.\<close>

definition hands_on :: "nat \<Rightarrow> dplane \<Rightarrow> dplane \<Rightarrow> bool" where
  "hands_on i s s' \<longleftrightarrow> dp_held s' = add_mset i (dp_held s)
     \<and> (net_tx s' = net_tx s \<or> length (net_tx s) < n1_room \<and> (\<exists>nb. net_tx s' = net_tx s @ [nb]))"

lemma destroy_hands_on: "destroy_and r du s = Some (q, s') \<Longrightarrow> hands_on (du_id du) s s'"
  by (auto simp: destroy_and_def hands_on_def split: Option.bind_splits dest!: destroy_held)

lemma write_hands_on:
  assumes "duWrite env = n1_write" "xRmtN1PortWriteDu env p du s = Some (r, s')"
  shows "hands_on (du_id du) s s'"
proof -
  obtain ret tx free where w: "n1_write (n1_xPortId p) du (net_tx s) (free_desc s) = Some (ret, tx, free)"
    using assms by (auto simp: xRmtN1PortWriteDu_def split: Option.bind_splits)
  then have "s' = s \<lparr> free_desc := free, net_tx := tx \<rparr>"
    using assms by (simp add: xRmtN1PortWriteDu_def Let_def split: if_splits)
  then show ?thesis
    using takes_over[OF w] queues[OF w] by (cases ret) (simp_all add: hands_on_def)
qed

lemma hands_on_port: "hands_on i (port_put p s) s' \<Longrightarrow> hands_on i s (port_put q s')"
  "hands_on i s s' \<Longrightarrow> hands_on i s (port_put q s')"
  by (simp_all add: hands_on_def port_put_def)

lemma send_port_hands_on:
  assumes "duWrite env = n1_write" "xRmtSendPortId env port du s = Some (r, s')"
  shows "hands_on (du_id du) s s'"
  using assms(2)
  by (auto simp: xRmtSendPortId_def destroy_and_def
      split: option.splits if_splits Option.bind_splits
      dest!: write_hands_on[OF assms(1)] destroy_held intro: hands_on_port destroy_hands_on)
    (auto simp: hands_on_def port_put_def)

lemma send_hands_on:
  assumes "duWrite env = n1_write" "xRmtSend env du s = Some (r, s')"
  shows "hands_on (du_id du) s s'"
  using assms(2)
  by (auto simp: xRmtSend_def split: if_splits Option.bind_splits
      dest: destroy_hands_on send_port_hands_on[OF assms(1)])

lemma hands_on_from:
  assumes "hands_on j t s'" "net_tx t = net_tx s"
    "add_mset j (mset (free_desc t)) = add_mset i (mset (free_desc s))"
  shows "hands_on i s s'"
proof -
  have "add_mset j (dp_held t) = add_mset i (dp_held s)"
    using assms(2,3) by (simp add: held_def flip: union_mset_add_mset_right)
  then show ?thesis using assms(1,2) by (simp add: hands_on_def)
qed

text \<open>A unit for the local system is not defined after the encapsulation.\<close>

lemma dtp_write_hands_on:
  assumes "duWrite env = n1_write" "xDtpWrite env x du s = Some (r, s')"
  shows "hands_on (du_id du) s s'"
proof -
  obtain ok v free where enc: "xDuEncap (storage env) du (free_desc s) = Some (ok, v, free)"
    using assms(2) by (auto simp: xDtpWrite_def split: Option.bind_splits)
  note h = encap_held(1)[OF enc]
  show ?thesis
  proof (cases ok)
    case False
    then have "destroy_and False v (s \<lparr> free_desc := free \<rparr>) = Some (r, s')"
      using assms(2) enc by (simp add: xDtpWrite_def)
    from hands_on_from[OF destroy_hands_on[OF this]] h show ?thesis by simp
  next
    case True
    then obtain e where e: "efcp_at x (s \<lparr> free_desc := free \<rparr>) = Some e"
      using assms(2) enc by (auto simp: xDtpWrite_def Let_def split: Option.bind_splits)
    define w where "w = pci_write (dt_header (pxConnection (sv_update next_seq e))
      (pxDtpStateVector (sv_update next_seq e)) (xDataLength (pxNetworkBuffer v))) v"
    define t where "t = efcp_put x (sv_update next_seq e) (s \<lparr> free_desc := free \<rparr>)"
    have w: "du_id w = du_id v" "pucRinaBuffer (pxNetworkBuffer w) = None"
      using encap_held(2)[OF enc True] by (simp_all add: w_def)
    have "destroy_and False w t = Some (r, s') \<or> xDtpPduSend env w t = Some (r, s')"
      using assms(2) enc True e
      by (auto simp: xDtpWrite_def Let_def w_def t_def split: if_splits Option.bind_splits)
    then have "hands_on (du_id w) t s'"
      using w(2) send_hands_on[OF assms(1)]
      by (auto simp: xDtpPduSend_def xDuDecap_def Let_def split: if_splits Option.bind_splits dest: destroy_hands_on)
    then show ?thesis
      by (rule hands_on_from) (simp_all add: t_def w(1) h)
  qed
qed

lemma normal_write_hands_on:
  assumes "duWrite env = n1_write" "xNormalDuWrite env port nb s = Some (r, s')"
  shows "hands_on (nb_id nb) s s'"
proof -
  let ?du = "\<lparr> pxPci = None, pxNetworkBuffer = nb \<rparr>"
  have i: "du_id ?du = nb_id nb" by (simp add: du_id_def)
  have c: "hands_on (nb_id nb) s s'" if "xEfcpContainerWrite env cep ?du s = Some (q, s')" for cep q
  proof (cases "is_cep_id_ok cep")
    case True
    obtain px t where t: "imap_find cep s = (px, t)" by fastforce
    have tt: "net_tx t = net_tx s" "free_desc t = free_desc s"
      using t by (auto simp: imap_find_def split: prod.splits)
    have "destroy_and False ?du t = Some (q, s') \<or> (\<exists>x. xDtpWrite env x ?du t = Some (q, s'))"
      using that True t
      by (auto simp: xEfcpContainerWrite_def xEfcpWrite_def split: option.splits if_splits Option.bind_splits)
    then have "hands_on (du_id ?du) t s'"
      using destroy_hands_on dtp_write_hands_on[OF assms(1)] by blast
    then show ?thesis using hands_on_from[of "du_id ?du" t s' s] tt i by simp
  next
    case False
    then have "destroy_and False ?du s = Some (q, s')" using that by (simp add: xEfcpContainerWrite_def)
    from destroy_hands_on[OF this] i show ?thesis by simp
  qed
  show ?thesis
    using assms(2) i
    by (auto simp: xNormalDuWrite_def Let_def split: option.splits if_splits Option.bind_splits
        dest: destroy_hands_on c)
qed

lemma mgmt_write_hands_on:
  assumes "duWrite env = n1_write" "xNormalMgmtDuWrite env port du s = Some (r, s')"
  shows "hands_on (du_id du) s s'"
proof -
  obtain ok v free where enc: "xDuEncap (storage env) du (free_desc s) = Some (ok, v, free)"
    using assms(2) by (auto simp: xNormalMgmtDuWrite_def split: Option.bind_splits)
  let ?t = "s \<lparr> free_desc := free \<rparr>"
  obtain w where w: "du_id w = du_id v"
      "destroy_and False w ?t = Some (r, s') \<or> xRmtSendPortId env port w ?t = Some (r, s')"
    using assms(2) enc
    by (auto simp: xNormalMgmtDuWrite_def Let_def split: if_splits Option.bind_splits)
      (metis pci_write_id(1))+
  then have "hands_on (du_id v) ?t s'"
    using destroy_hands_on send_port_hands_on[OF assms(1)] by metis
  then show ?thesis
    by (rule hands_on_from) (simp_all add: encap_held(1)[OF enc])
qed

end

end
