(* ===== verification/Stack_Task.thy ===== *)
theory Stack_Task
  imports N1_Flow Shim_Flows Rina_Api
begin

text \<open>
  The stack task as a whole (\<open>prvIpcpTask\<close> in \<open>IPCP_task.c\<close>): the node and its interface
  for applications, the shim of IEEE 802.15.4 below it, the queue between them and the
  frames on the air.  The function pointer \<open>duWrite\<close> of the RMT is the shim's write here;
  what it queues for the network, and what the radio has received, are events of the same
  queue as the requests of applications.  An event is handled without interruption; the
  receiving task and the applications run between events.  Each step has its own outcomes
  of allocations and of the radio (\<open>stack_env\<close>).
\<close>

section \<open>The state\<close>

datatype RINAStackEvent_t =
    eNetworkRxEvent NetworkBufferDescriptor_t nat
  | eNetworkTxEvent NetworkBufferDescriptor_t
  | eShimEnrolledEvent
  | ApiEvent api_event

record stack =
  st_api :: api
  st_shim :: shim_data
  st_queue :: "RINAStackEvent_t RsQueue"
  st_air :: "u8 list list"
  xN1PortId :: u32

record stack_env =
  sk_nv :: nenv
  sk_sh :: shim_env
  sk_enrollee :: bool
  sk_name :: "name_t option"
  sk_dif :: "name_t option"
  sk_mem :: "nat \<Rightarrow> bool"
  sk_clk :: "timespec option"
  sk_started :: bool

abbreviation st_node :: "stack \<Rightarrow> node" where
  "st_node s \<equiv> ap_node (st_api s)"

abbreviation st_dp :: "stack \<Rightarrow> dplane" where
  "st_dp s \<equiv> nd_dp (ap_node (st_api s))"

definition put_node :: "node \<Rightarrow> stack \<Rightarrow> stack" where
  "put_node n s = s \<lparr> st_api := (st_api s) \<lparr> ap_node := n \<rparr> \<rparr>"

definition put_free :: "nat list \<Rightarrow> stack \<Rightarrow> stack" where
  "put_free free s = put_node ((st_node s) \<lparr> nd_dp := (st_dp s) \<lparr> free_desc := free \<rparr> \<rparr>) s"

text \<open>The queue is created for 10 events, fewer than the 20 buffers; the \<open>EVENT_QUEUE_LENGTH\<close> of 26
  that the configuration defines for it is commented out at the call.\<close>

definition IPCP_QUEUE :: nat where "IPCP_QUEUE = 10"

section \<open>The shim below the RMT\<close>

text \<open>The shim's write sends the event for the network itself; \<open>room\<close> is what the queue of
  the task can still take when the event that is handled began.\<close>

definition stack_duWrite :: "shim_env \<Rightarrow> nat \<Rightarrow> shim_data \<Rightarrow> u32 \<Rightarrow> du_t \<Rightarrow> NetworkBufferDescriptor_t list
    \<Rightarrow> nat list \<Rightarrow> (bool \<times> NetworkBufferDescriptor_t list \<times> nat list) option" where
  "stack_duWrite env room sh port du tx free = do {
     (ok, nb, free) \<leftarrow> xShimIEEE802154SDUWrite (env \<lparr> se_queue := length tx < room \<rparr>) port du sh free;
     Some (ok, tx @ (case nb of None \<Rightarrow> [] | Some nb \<Rightarrow> [nb]), free) }"

definition queue_room :: "stack \<Rightarrow> nat" where
  "queue_room s = mq_maxmsg (st_queue s) - length (mq_msgs (st_queue s))"

definition stack_nenv :: "stack_env \<Rightarrow> nat \<Rightarrow> shim_data \<Rightarrow> nenv" where
  "stack_nenv env room sh = (sk_nv env) \<lparr> nv_dp := (nv_dp (sk_nv env))
     \<lparr> duWrite := stack_duWrite (sk_sh env) room sh \<rparr>, buf_ok := True \<rparr>"

section \<open>Events\<close>

definition st_instances :: "stack \<Rightarrow> InstanceTableRow_t list" where
  "st_instances s = xInstanceTable (ap_manager (st_api s))"

fun stack_event :: "stack_env \<Rightarrow> RINAStackEvent_t \<Rightarrow> stack \<Rightarrow> stack option" where
  "stack_event env (eNetworkRxEvent nb n) s = do {
     (_, nd) \<leftarrow> xProcessIEEE802154Packet (stack_nenv env (queue_room s) (st_shim s)) (sk_mem env 0)
       (pxIpcManagerActiveNormalInstance (st_instances s) \<noteq> None) (sh_nic (st_shim s)) nb n (st_node s);
     Some (put_node nd s) }"
| "stack_event env (eNetworkTxEvent nb) s = do {
     (_, frame, free) \<leftarrow> xIeee802154NetworkInterfaceOutput (Some nb) True (sh_nic (st_shim s)) (free_desc (st_dp s));
     Some (put_free free (s \<lparr> st_air := st_air s @ (case frame of None \<Rightarrow> [] | Some f \<Rightarrow> [f]) \<rparr>)) }"
| "stack_event env eShimEnrolledEvent s = do {
     (im, port, sh, nd) \<leftarrow> shim_enrolled_event (sk_sh env) (stack_nenv env (queue_room s)) (sk_enrollee env)
       (sk_name env) (sk_dif env) (ap_manager (st_api s), xN1PortId s, st_shim s, st_node s);
     Some (s \<lparr> st_api := (st_api s) \<lparr> ap_manager := im, ap_node := nd \<rparr>, st_shim := sh, xN1PortId := port \<rparr>) }"
| "stack_event env (ApiEvent e) s = do {
     a \<leftarrow> task_event (stack_nenv env (queue_room s) (st_shim s)) (sk_enrollee env)
       (case e of NodeEvent (ShimFlowAllocated _) \<Rightarrow> NodeEvent (ShimFlowAllocated (xN1PortId s)) | _ \<Rightarrow> e) (st_api s);
     Some (s \<lparr> st_api := a \<rparr>) }"

text \<open>The messages of the management plane, which every handler sends last: each is copied
  into a buffer, used without a test, and written to the flow below.\<close>

definition stack_send :: "denv \<Rightarrow> u32 \<times> u8 list \<Rightarrow> dplane \<Rightarrow> dplane option" where
  "stack_send env = (\<lambda>(port, bytes) d. do {
     (nb, free) \<leftarrow> pxGetNetworkBufferWithDescriptor (storage env) (length bytes) (free_desc d);
     nb \<leftarrow> nb;
     let nb = nb \<lparr> pucEthernetBuffer := map_option (\<lambda>eth. bytes @ drop (length bytes) eth) (pucEthernetBuffer nb),
                   xDataLength := length bytes \<rparr>;
     (_, d) \<leftarrow> xNormalMgmtDuWrite env port \<lparr> pxPci = None, pxNetworkBuffer = nb \<rparr> (d \<lparr> free_desc := free \<rparr>);
     Some d })"

primrec stack_send_all :: "denv \<Rightarrow> (u32 \<times> u8 list) list \<Rightarrow> dplane \<Rightarrow> dplane option" where
  "stack_send_all env [] d = Some d"
| "stack_send_all env (m # ms) d = do { d \<leftarrow> stack_send env m d; stack_send_all env ms d }"

definition stack_drain :: "stack_env \<Rightarrow> stack \<Rightarrow> stack option" where
  "stack_drain env s = do {
     d \<leftarrow> stack_send_all (nv_dp (stack_nenv env (queue_room s) (st_shim s))) (sent (st_node s)) (st_dp s);
     Some (put_node ((st_node s) \<lparr> nd_dp := d, sent := [] \<rparr>) s) }"

text \<open>What the shim has sent to the queue.\<close>

definition stack_flush :: "stack \<Rightarrow> stack" where
  "stack_flush s = put_node ((st_node s) \<lparr> nd_dp := (st_dp s) \<lparr> net_tx := [] \<rparr> \<rparr>)
     (s \<lparr> st_queue := (st_queue s) \<lparr> mq_msgs := mq_msgs (st_queue s) @ map eNetworkTxEvent (net_tx (st_dp s)) \<rparr> \<rparr>)"

text \<open>One round of the task: without an event it waits.\<close>

definition prvIpcpTask :: "stack_env \<Rightarrow> stack \<Rightarrow> stack option" where
  "prvIpcpTask env s =
     (case mq_msgs (st_queue s) of
        [] \<Rightarrow> Some s
      | e # es \<Rightarrow> do {
          s \<leftarrow> stack_event env e (s \<lparr> st_queue := (st_queue s) \<lparr> mq_msgs := es \<rparr> \<rparr>);
          s \<leftarrow> stack_drain env s;
          Some (stack_flush s) })"

section \<open>The other tasks\<close>

text \<open>The interrupt of the radio and the receiving task.\<close>

definition stack_radio :: "u8 list option \<Rightarrow> stack \<Rightarrow> stack option" where
  "stack_radio f s = do {
     ifc \<leftarrow> esp_ieee802154_receive_done f (sh_nic (st_shim s));
     Some (s \<lparr> st_shim := (st_shim s) \<lparr> sh_nic := ifc \<rparr> \<rparr>) }"

definition stack_rx_task :: "stack_env \<Rightarrow> stack \<Rightarrow> stack option" where
  "stack_rx_task env s = do {
     (e, free, ifc) \<leftarrow> vShimRxTask (sk_mem env) (ap_ready (st_api s) \<and> 0 < queue_room s) (free_desc (st_dp s)) (sh_nic (st_shim s));
     Some (put_free free (s \<lparr> st_shim := (st_shim s) \<lparr> sh_nic := ifc \<rparr>,
       st_queue := (st_queue s) \<lparr> mq_msgs := mq_msgs (st_queue s)
         @ (case e of None \<Rightarrow> [] | Some (nb, n) \<Rightarrow> [eNetworkRxEvent nb n]) \<rparr> \<rparr>)) }"

text \<open>Sending an event to the task: it is refused until the thread of the task runs.\<close>

definition stack_send_event ::
  "bool \<Rightarrow> timespec option \<Rightarrow> RINAStackEvent_t \<Rightarrow> u32 \<Rightarrow> stack \<Rightarrow> (bool \<times> stack) option" where
  "stack_send_event from_task clk e us s =
     (if \<not> ap_ready (st_api s) then Some (False, s)
      else do {
        (r, q) \<leftarrow> xRsQueueSendToBack clk e (if from_task \<and> us > 0 then 0 else us) (st_queue s);
        Some (r, s \<lparr> st_queue := q \<rparr>) })"

definition stack_task_starts :: "stack \<Rightarrow> stack" where
  "stack_task_starts s = s \<lparr> st_api := (st_api s) \<lparr> ap_ready := True \<rparr> \<rparr>"

section \<open>Calls of applications\<close>

text \<open>A call, or the part of it between two waits, runs on the state of the interface with an empty
  queue of the room there is; the events it sends are appended to those of the task.\<close>

definition app_enter :: "stack \<Rightarrow> api" where
  "app_enter s = (st_api s) \<lparr> ap_queue := \<lparr> mq_msgs = [], mq_maxmsg = queue_room s \<rparr> \<rparr>"

definition app_leave :: "api \<Rightarrow> stack \<Rightarrow> stack" where
  "app_leave a s = s \<lparr> st_api := a \<lparr> ap_queue := ap_queue (st_api s) \<rparr>,
     st_queue := (st_queue s) \<lparr> mq_msgs := mq_msgs (st_queue s) @ map ApiEvent (mq_msgs (ap_queue a)) \<rparr> \<rparr>"

text \<open>An application is woken when a bit it waits for is set.\<close>

definition app_wake :: "u32 \<Rightarrow> u32 \<Rightarrow> api \<Rightarrow> (unit \<times> api) option" where
  "app_wake port d a = map_option (\<lambda>b. ((), set_bits port b a)) (prvWaitForBit (handle_bits port a) d True)"

fun app_event :: "api_event \<Rightarrow> bool" where
  "app_event (NodeEvent (ShimEnrolled _ _)) = False"
| "app_event _ = True"

text \<open>The parts of the calls of the interface between their waits: a request with its port, the
  events of binding, allocating and closing, a write with its buffer, a wake-up.  \<open>RINA_flow_read\<close> changes
  nothing but by its wake-ups: on a flow with a packet it follows a NULL pointer.\<close>

inductive app_step :: "api \<Rightarrow> api \<Rightarrow> bool" where
  request: "prvRINACreateFlowRequest mem dif loc rem spec a = Some (rq, a') \<Longrightarrow> app_step a a'"
| send: "app_event e \<Longrightarrow> xSendEventStructToIPCPTask False clk e us a = Some (r, a') \<Longrightarrow> app_step a a'"
| writes: "RINA_flow_write env clks port buf n a = Some (k, a') \<Longrightarrow> app_step a a'"
| close: "RINA_close clk port a = Some (r, a') \<Longrightarrow> app_step a a'"
| wake: "app_wake port d a = Some (u, a') \<Longrightarrow> app_step a a'"

section \<open>Starting\<close>

text \<open>\<open>RINA_init\<close>: the answer of the manager's initialisation is only printed.  Whether the thread
  of the task already runs when the manager sends the event that the shim has enrolled is
  \<open>sk_started\<close>; if it does not, the event is lost.\<close>

definition stack_boot :: "stack_env \<Rightarrow> stack option" where
  "stack_boot env = do {
     (_, im) \<leftarrow> xIpcMngrInit (sk_mem env) (- 1) instance_table_boot nb_boot;
     im \<leftarrow> im;
     q \<leftarrow> pxRsQueueCreate True IPCP_QUEUE;
     sh \<leftarrow> pxShim802154Create (sk_sh env) nic_boot;
     let (en, sh) = xShim802154EnrollToDIF (sk_sh env) sh;
     (ok, im, s) \<leftarrow> xIpcMngrInitRinaStack True True True en
       (\<lambda>i. stack_send_event False (sk_clk env) eShimEnrolledEvent 50000) im
       \<lparr> st_api = \<lparr> ap_node = node_boot (sk_nv env), ap_queue = \<lparr> mq_msgs = [], mq_maxmsg = 0 \<rparr>,
            ap_ready = sk_started env, ap_manager = im, ap_bits = (\<lambda>_. 0) \<rparr>,
          st_shim = sh, st_queue = q, st_air = [], xN1PortId = 0 \<rparr>;
     Some (s \<lparr> st_api := (st_api s) \<lparr> ap_manager := im \<rparr> \<rparr>) }"

inductive stack_reach :: "stack \<Rightarrow> bool" where
  boot: "stack_boot env = Some s \<Longrightarrow> stack_reach s"
| start: "stack_reach s \<Longrightarrow> stack_reach (stack_task_starts s)"
| task: "stack_reach s \<Longrightarrow> ap_ready (st_api s) \<Longrightarrow> prvIpcpTask env s = Some s' \<Longrightarrow> stack_reach s'"
| radio: "stack_reach s \<Longrightarrow> stack_radio f s = Some s' \<Longrightarrow> stack_reach s'"
| receive: "stack_reach s \<Longrightarrow> stack_rx_task env s = Some s' \<Longrightarrow> stack_reach s'"
| application: "stack_reach s \<Longrightarrow> app_step (app_enter s) a \<Longrightarrow> stack_reach (app_leave a s)"

section \<open>The shim keeps the interface\<close>

lemma shim_write_held:
  assumes "xShimIEEE802154SDUWrite env port du sh free = Some (r, nb, free')"
  shows "takes (du_id du) (se_queue env) r nb free free'"
proof -
  let ?n = "xDataLength (pxNetworkBuffer du)"
  show ?thesis
  proof (cases "\<exists>x. \<not> ?n > ieee802154_MTU \<and> prvShimFindFlowByPortId (se_mem env 0) port (xShimFlowsList sh) = Some (Some x)
      \<and> ePortIdState (xShimFlowsList sh ! x) = eALLOCATED")
    case False
    then have "do { (_, f) \<leftarrow> xDuDestroy du free; Some (False, None, f) } = Some (r, nb, free')"
      using assms by (auto simp: xShimIEEE802154SDUWrite_def Let_def split: Option.bind_splits option.splits if_splits)
    then show ?thesis by (rule dropped_takes)
  next
    case True
    then obtain x where x: "\<not> ?n > ieee802154_MTU"
        "prvShimFindFlowByPortId (se_mem env 0) port (xShimFlowsList sh) = Some (Some x)"
        "ePortIdState (xShimFlowsList sh ! x) = eALLOCATED" by blast
    let ?m = "length data_header + ?n"
    obtain new f1 where g: "pxGetNetworkBufferWithDescriptor (se_storage env) ?m free = Some (new, f1)"
      using assms x by (auto simp: xShimIEEE802154SDUWrite_def Let_def data_header_def[symmetric] split: Option.bind_splits)
    show ?thesis
    proof (cases new)
      case None
      then show ?thesis
        using assms x g get_buffer_held[OF g] dropped_takes[of du free]
        by (simp add: xShimIEEE802154SDUWrite_def Let_def data_header_def[symmetric])
    next
      case (Some b)
      obtain src dst where sd: "pucEthernetBuffer (pxNetworkBuffer du) = Some src" "pucEthernetBuffer b = Some dst"
          "\<not> (length src < ?n \<or> length dst < ?m)"
        using assms x g Some
        by (auto simp: xShimIEEE802154SDUWrite_def Let_def data_header_def[symmetric] split: Option.bind_splits if_splits)
      define w where "w = b \<lparr> pucEthernetBuffer := Some (take ?m ([word_of_nat ?m] @ data_header @ take ?n src) @ drop ?m dst),
          xDataLength := ?m \<rparr>"
      have w: "nb_id w = nb_id b" "do { (_, free) \<leftarrow> xDuDestroy du f1;
          if se_queue env then Some (True, Some w, free)
          else do { free \<leftarrow> vReleaseNetworkBufferAndDescriptor w free; Some (False, None, free) } } = Some (r, nb, free')"
        using assms x g sd Some
        unfolding w_def xShimIEEE802154SDUWrite_def Let_def data_header_def[symmetric] by simp_all
      show ?thesis by (rule queued_takes[OF w(2)]) (use get_buffer_held[OF g] Some w(1) in simp)
    qed
  qed
qed

lemma stack_duWrite_held:
  assumes "stack_duWrite env room sh port du tx free = Some (r, tx', free')"
  shows "held tx' free' = add_mset (du_id du) (held tx free)" "if r then length tx < room \<and> (\<exists>nb. tx' = tx @ [nb]) else tx' = tx"
proof -
  obtain nb where w: "xShimIEEE802154SDUWrite (env \<lparr> se_queue := length tx < room \<rparr>) port du sh free = Some (r, nb, free')"
      "tx' = tx @ (case nb of None \<Rightarrow> [] | Some nb \<Rightarrow> [nb])"
    using assms by (auto simp: stack_duWrite_def split: Option.bind_splits)
  have "takes (du_id du) (length tx < room) r nb free free'" using shim_write_held[OF w(1)] by simp
  from takes_held[OF this] show "held tx' free' = add_mset (du_id du) (held tx free)"
    "if r then length tx < room \<and> (\<exists>nb. tx' = tx @ [nb]) else tx' = tx" unfolding w(2) .
qed

interpretation shim802154: n1_flow "stack_duWrite env room sh" room for env room sh
  by unfold_locales (fact stack_duWrite_held)+

end
