(* ===== verification/Node_Port.thy ===== *)
theory Node_Port
  imports Node_Inv
begin

text \<open>
  What lies below the RMT: only binding gives the port table and the field \<open>pxN1Port\<close>
  another port, and only writing a unit queues a buffer for the network.  Every other event
  leaves both alone.
\<close>

section \<open>The data plane\<close>

definition port_of :: "dplane \<Rightarrow> u32 option \<times> n1ptr" where
  "port_of d = (map_option n1_xPortId (xPortIdTable0 d), rmt_pxN1Port d)"

definition below :: "dplane \<Rightarrow> (u32 option \<times> n1ptr) \<times> NetworkBufferDescriptor_t list" where
  "below d = (port_of d, net_tx d)"

named_theorems port_kept

lemma port_of_simps [simp]:
  "port_of (d \<lparr> free_desc := f \<rparr>) = port_of d" "port_of (d \<lparr> xFlowRequestTable := t \<rparr>) = port_of d"
  "port_of (d \<lparr> xEfcpImapTable := m \<rparr>) = port_of d" "port_of (efcp_put x e d) = port_of d"
  "port_of (d \<lparr> net_tx := q \<rparr>) = port_of d"
  by (simp_all add: port_of_def efcp_put_def)

lemma below_simps [simp]:
  "below (d \<lparr> free_desc := f \<rparr>) = below d" "below (d \<lparr> xFlowRequestTable := t \<rparr>) = below d"
  "below (d \<lparr> xEfcpImapTable := m \<rparr>) = below d" "below (efcp_put x e d) = below d"
  by (simp_all add: below_def) (simp add: efcp_put_def)

lemma belowD: "below d' = below d \<Longrightarrow> port_of d' = port_of d \<and> net_tx d' = net_tx d"
  by (simp add: below_def)

lemma destroy_port [port_kept]: "destroy du s = Some s' \<Longrightarrow> below s' = below s"
  by (auto simp: destroy_def split: Option.bind_splits)

lemma destroy_and_port [port_kept]: "destroy_and b du s = Some (r, s') \<Longrightarrow> below s' = below s"
  by (auto simp: destroy_and_def split: Option.bind_splits dest: destroy_port)

lemma imap_find_port [port_kept]: "imap_find cep s = (px, s') \<Longrightarrow> below s' = below s"
  by (auto simp: imap_find_def split: prod.splits)

lemma post_port [port_kept]: "xFlowAllocatorDuPost port du s = Some (r, s') \<Longrightarrow> below s' = below s"
  by (auto simp: xFlowAllocatorDuPost_def split: if_splits Option.bind_splits option.splits dest: port_kept)

lemma dtp_receive_port [port_kept]: "xDtpReceive x du s = Some (r, s') \<Longrightarrow> below s' = below s"
  by (auto simp: xDtpReceive_def Let_def xDtpPduPost_def xEfcpEnqueue_def
      dest!: port_kept split: if_splits Option.bind_splits)

lemma container_receive_port [port_kept]:
  "xEfcpContainerReceive env cep du s = Some (r, s') \<Longrightarrow> below s' = below s"
  by (auto simp: xEfcpContainerReceive_def xEfcpReceive_def Let_def
      dest!: port_kept split: if_splits Option.bind_splits option.splits prod.splits)

lemma write_du_port [port_kept]: "xRmtN1PortWriteDu env p du s = Some (r, s') \<Longrightarrow> port_of s' = port_of s"
  by (auto simp: xRmtN1PortWriteDu_def Let_def split: Option.bind_splits if_splits)

lemma port_of_put: "xPortIdTable0 s = Some p \<Longrightarrow> n1_xPortId q = n1_xPortId p \<Longrightarrow> port_of t = port_of s
    \<Longrightarrow> port_of (port_put q t) = port_of s"
  by (auto simp: port_of_def port_put_def)

lemma below_put: "xPortIdTable0 s = Some p \<Longrightarrow> n1_xPortId q = n1_xPortId p \<Longrightarrow> below t = below s
    \<Longrightarrow> below (port_put q t) = below s"
  by (auto simp: below_def port_of_def port_put_def)

lemma n1_stats_port [simp]: "n1_xPortId (n1_stats f p) = n1_xPortId p" "n1_xPortId (rx_stats n p) = n1_xPortId p"
  by (simp_all add: n1_stats_def rx_stats_def)

lemma send_port_port [port_kept]:
  assumes "xRmtSendPortId env port du s = Some (r, s')"
  shows "port_of s' = port_of s"
proof (cases "xPortIdTable0 s")
  case None
  then show ?thesis using assms by (auto simp: xRmtSendPortId_def dest!: port_kept belowD)
next
  case (Some p)
  have "port_of (port_put (p \<lparr> uxBusy := True \<rparr>) s) = port_of s" by (rule port_of_put[OF Some]) simp_all
  then show ?thesis
    using assms Some
    by (auto simp: xRmtSendPortId_def split: if_splits Option.bind_splits dest!: port_kept belowD
        intro!: port_of_put[OF Some])
qed

lemma rmt_send_port [port_kept]: "xRmtSend env du s = Some (r, s') \<Longrightarrow> port_of s' = port_of s"
  by (auto simp: xRmtSend_def split: if_splits Option.bind_splits dest!: port_kept belowD)

lemma dtp_write_port [port_kept]: "xDtpWrite env x du s = Some (r, s') \<Longrightarrow> port_of s' = port_of s"
  by (auto simp: xDtpWrite_def xDtpPduSend_def Let_def split: if_splits Option.bind_splits dest!: port_kept belowD)

lemma container_write_port [port_kept]:
  "xEfcpContainerWrite env cep du s = Some (r, s') \<Longrightarrow> port_of s' = port_of s"
  by (auto simp: xEfcpContainerWrite_def xEfcpWrite_def Let_def
      dest!: port_kept belowD split: if_splits Option.bind_splits option.splits prod.splits)

lemma normal_write_port [port_kept]: "xNormalDuWrite env port nb s = Some (r, s') \<Longrightarrow> port_of s' = port_of s"
  by (auto simp: xNormalDuWrite_def Let_def split: option.splits if_splits Option.bind_splits dest!: port_kept belowD)

lemma mgmt_write_port [port_kept]: "xNormalMgmtDuWrite env port du s = Some (r, s') \<Longrightarrow> port_of s' = port_of s"
  by (auto simp: xNormalMgmtDuWrite_def Let_def split: if_splits Option.bind_splits dest!: port_kept belowD)

lemma conn_create_port [port_kept]:
  "xEfcpConnectionCreate env src dst port qos c1 c2 s = Some (c, s') \<Longrightarrow> below s' = below s"
  by (auto simp: xEfcpConnectionCreate_def Let_def xEfcpDestroy_def split: if_splits)

lemma efcp_destroy_port [port_kept]: "xEfcpDestroy env px s = Some (r, s') \<Longrightarrow> below s' = below s"
  by (auto simp: xEfcpDestroy_def split: if_splits option.splits Option.bind_splits)

lemma conn_modify_port [port_kept]:
  "xEfcpConnectionModify env cep src dst s = Some (r, s') \<Longrightarrow> below s' = below s"
  by (auto simp: xEfcpConnectionModify_def split: prod.splits option.splits Option.bind_splits if_splits dest!: port_kept)

lemma flow_status_port [port_kept]:
  "xNormalUpdateFlowStatus port st s = (r, s') \<Longrightarrow> below s' = below s"
  "xNormalUpdateCepIdFlow port cep s = (r, s') \<Longrightarrow> below s' = below s"
  by (auto simp: xNormalUpdateFlowStatus_def xNormalUpdateCepIdFlow_def flow_put_def below_def port_of_def split: option.splits)

lemma conn_update_port [port_kept]:
  "xNormalConnectionUpdate env port a b s = Some (r, s') \<Longrightarrow> below s' = below s"
  by (auto simp: xNormalConnectionUpdate_def xEfcpConnectionUpdate_def
      split: prod.splits option.splits Option.bind_splits if_splits dest!: port_kept)

section \<open>The node\<close>

abbreviation node_below :: "node \<Rightarrow> (u32 option \<times> n1ptr) \<times> NetworkBufferDescriptor_t list" where
  "node_below s \<equiv> below (nd_dp s)"

lemma lift_dp_port:
  "lift_dp f s = Some (r, s') \<Longrightarrow> (\<And>d. f (nd_dp s) = Some (r, d) \<Longrightarrow> below d = node_below s) \<Longrightarrow> node_below s' = node_below s"
  by (auto simp: lift_dp_def split: Option.bind_splits)

lemma destroy_node_port: "lift_dp (destroy_and b du) s = Some (r, s') \<Longrightarrow> node_below s' = node_below s"
  by (erule lift_dp_port) (auto dest: port_kept)

lemma more_port: "mgmt.more s' = mgmt.more s \<Longrightarrow> node_below s' = node_below (s::node)"
  by (drule more_dp) simp

lemma call_start_port:
  assumes "node_inv s" "call_start env ob val rn iid port s = Some (r, s')"
  shows "node_below s' = node_below s"
proof -
  have w: "mgmt_wf s" using assms(1) by (simp add: node_inv_def)
  show ?thesis
    using assms(2)
    by (auto simp: call_start_def split: option.splits rib_fn.splits
        dest!: enroller_wf[OF w] operational_wf[OF w] intro!: more_port)
qed

lemma call_stop_port:
  assumes "node_inv s" "call_stop env ob val rn iid port s = Some (r, s')"
  shows "node_below s' = node_below s"
proof -
  have w: "mgmt_wf s" using assms(1) by (simp add: node_inv_def)
  show ?thesis
    using assms(2)
    by (auto simp: call_stop_def split: option.splits rib_fn.splits dest!: stop_wf[OF w] intro!: more_port)
qed

lemma create_r_port:
  assumes "xFlowAllocatorHandleCreateR env val res s = Some (r, s')"
  shows "node_below s' = node_below s"
  using assms
  by (cases rule: create_r_cases) (auto simp: xNormalConnectionModify_def dest!: port_kept)

lemma call_create_port: "call_create_response env iid val res s = Some (r, s') \<Longrightarrow> node_below s' = node_below s"
  by (auto simp: call_create_response_def split: Option.bind_splits dest: create_r_port)

lemma adata_port: "prvRibdHandledAData env bytes s = Some s' \<Longrightarrow> node_below s' = node_below s"
  by (auto simp: prvRibdHandledAData_def split: Option.bind_splits if_splits dest: call_create_port)

lemma connectR_port:
  assumes "xEnrollmentHandleConnectR env rn port s = Some (r, s')"
  shows "node_below s' = node_below s"
proof -
  obtain t v where "xRibdSendRequest env (Some ''Enrollment'') (Some ''/difm/enr'') (-1) M_START port v
      (s \<lparr> xNeighborsTable := t \<rparr>) = Some (r, s')"
    using assms by (auto simp: xEnrollmentHandleConnectR_def Let_def split: Option.bind_splits)
  from send_request_same[OF this] have "mgmt.more s' = mgmt.more s" by (simp add: same_but_sent_def)
  then show ?thesis by (rule more_port)
qed

lemma handle_message_port:
  assumes "node_inv s" "vRibHandleMessage env m port s = Some (r, s')"
  shows "node_below s' = node_below s"
  using assms(2)
  by (auto simp: vRibHandleMessage_def Let_def peer_name_def
        split: if_splits Option.bind_splits option.splits
        dest: call_stop_port[OF assms(1)] call_start_port[OF assms(1)] call_create_port adata_port connectR_port)

lemma mgmt_post_port:
  assumes "node_inv s" "xNormalMgmtDuPost env port du s = Some (r, s')"
  shows "node_below s' = node_below s"
  using assms
  by (auto simp: xNormalMgmtDuPost_def xRibdProcessLayerManagementPDU_def
      split: if_splits Option.bind_splits
      dest: destroy_node_port dest!: handle_message_port[OF destroy_node_inv[OF assms(1)], rotated])
    (auto dest: destroy_node_port)

lemma dt_pdu_port: "xRmtProcessDtPdu env port du d = Some (r, d') \<Longrightarrow> below d' = below d"
  by (auto simp: xRmtProcessDtPdu_def split: if_splits Option.bind_splits dest: port_kept)

lemma rmt_receive_port:
  assumes "node_inv s" "xRmtReceive env du port s = Some (r, s')"
  shows "node_below s' = node_below s"
proof (cases "xPortIdTable0 (nd_dp s)")
  case None
  then show ?thesis
    using assms by (auto simp: xRmtReceive_def split: if_splits dest: destroy_node_port)
next
  case (Some n1)
  let ?t = "\<lambda>k f. s \<lparr> nd_dp := (port_put (rx_stats k n1) (nd_dp s)) \<lparr> free_desc := f \<rparr> \<rparr>"
  have t: "node_below (?t k f) = node_below s" for k f
    using below_put[OF Some] by simp
  have des: "node_below t = node_below s" if "lift_dp (destroy_and b v) (?t k f) = Some (q, t)" for b v k f q t
    using destroy_node_port[OF that] unfolding t .
  have post: "node_below t = node_below s" if "xNormalMgmtDuPost env port v (?t k f) = Some (q, t)" for v k f q t
    using mgmt_post_port[OF rx_port_inv[OF assms(1) Some] that] unfolding t .
  have dt: "node_below t = node_below s" if "lift_dp (xRmtProcessDtPdu (nv_dp env) port v) (?t k f) = Some (q, t)" for v k f q t
    using lift_dp_port[OF that dt_pdu_port] unfolding t .
  show ?thesis
    using assms Some t
    by (auto simp: xRmtReceive_def Let_def xRmtProcessMgmtPdu_def
        split: if_splits Option.bind_splits dest!: des post dt dest: destroy_node_port)
qed

lemma connect_port:
  "connect_ipcp env op src dst port auth s = Some (r, s') \<Longrightarrow> node_below s' = node_below s"
  by (auto simp: connect_ipcp_def same_but_sent_def split: Option.bind_splits dest!: encode_and_send_same
      intro!: more_port)

lemma init_port: "vEnrollmentInit env enrollee port s = Some s' \<Longrightarrow> node_below s' = node_below s"
  by (auto simp: vEnrollmentInit_def xRibdConnectToIpcp_def split: Option.bind_splits if_splits
      dest!: connect_port)

lemma request_port:
  assumes "vFlowAllocatorFlowRequest env rq s = Some s'"
  shows "node_below s' = node_below s"
proof -
  have sr: "node_below t' = below d"
    if "xRibdSendRequest env c n i op p v (s \<lparr> nd_dp := d, xRibObjectTable := t \<rparr>) = Some (r, t')" for c n i op p v d t r t'
    using send_request_same[OF that] more_port[of t' "s \<lparr> nd_dp := d, xRibObjectTable := t \<rparr>"]
    by (simp add: same_but_sent_def)
  have up: "below (snd (xNormalUpdateCepIdFlow port cep d)) = below d" for port cep d
    using flow_status_port(2) by (cases "xNormalUpdateCepIdFlow port cep d") auto
  show ?thesis
    using assms up
    by (auto simp: vFlowAllocatorFlowRequest_def Let_def xNormalConnectionCreateRequest_def
        split: Option.bind_splits option.splits dest!: sr port_kept)
qed

text \<open>Every event but the one that binds and the one that writes.\<close>

lemma event_below:
  assumes "node_inv s" "prvIpcpTask_event env enrollee e s = Some s'" "\<And>b p. e \<noteq> ShimEnrolled b p"
    and "\<And>p nb. e \<noteq> StackTx p nb"
  shows "node_below s' = node_below s"
proof (cases e)
  case (ShimFlowAllocated port)
  then show ?thesis using assms by (auto split: n1ptr.splits option.splits if_splits dest: init_port)
next
  case (StackFlowAllocate rq)
  then show ?thesis using assms request_port by simp
next
  case (FlowBind port)
  then show ?thesis using assms by (auto simp: xNormalFlowPrebind_def below_def port_of_def)
next
  case (StackRx du)
  then show ?thesis
    using assms(2)
    by (auto simp: xNormalDuEnqueue_def split: Option.bind_splits if_splits
        dest!: rmt_receive_port[OF assms(1)] destroy_node_port)
qed (use assms(3,4) in auto)

end
