(* ===== verification/Stack_Inv.thy ===== *)
theory Stack_Inv
  imports Stack_Task Node_Port
begin

text \<open>
  The invariant of the running stack: what holds of the node, of the queue and of the shim
  after every step, and that the flow of the shim and the port of the RMT belong together.
\<close>

section \<open>The node's part of an event\<close>

lemma frame_release_inv:
  assumes "node_inv nd" "frame_release r nb nd = Some (q, nd')"
  shows "node_inv nd' \<and> node_below nd' = node_below nd"
  using assms by (auto simp: frame_release_def node_inv_def dp_inv_def split: Option.bind_splits)

lemma process_packet_inv:
  assumes "node_inv nd" "xProcessIEEE802154Packet env mem normal ifc nb n nd = Some (r, nd')"
  shows "node_inv nd' \<and> node_below nd' = node_below nd"
proof -
  have rcv: "node_inv t \<and> node_below t = node_below nd" if "xRmtReceive env du port nd = Some (c, t)" for du port c t
    using rmt_receive_inv[OF assms(1) that] rmt_receive_port[OF assms(1) that] by simp
  show ?thesis
    using assms
    by (auto simp: xProcessIEEE802154Packet_def xNormalDuEnqueue_def Let_def
        split: Option.bind_splits if_splits option.splits
        dest!: rcv frame_release_inv[rotated])
qed

lemma set_bits_inv:
  assumes "node_inv (ap_node s)"
  shows "node_inv (ap_node (set_bits port b s)) \<and> node_below (ap_node (set_bits port b s)) = node_below (ap_node s)"
  using assms
  by (auto simp: set_bits_def flow_table_def node_inv_def dp_inv_def fai_update_wf split: option.splits)

lemma task_event_ready: "task_event env en e a = Some a' \<Longrightarrow> ap_ready a' = ap_ready a"
  by (cases "(env, en, e, a)" rule: task_event.cases)
    (auto simp: node_event_def set_bits_def split: Option.bind_splits option.splits)

lemma node_event_inv:
  assumes "node_inv (ap_node a)" "node_event env en e a = Some a'" "duWrite (nv_dp env) = stack_duWrite senv room sh"
    and "\<And>b p. e \<noteq> ShimEnrolled b p"
  shows "node_inv (ap_node a') \<and> port_of (nd_dp (ap_node a')) = port_of (nd_dp (ap_node a))
    \<and> (length (net_tx (nd_dp (ap_node a))) \<le> room \<longrightarrow> length (net_tx (nd_dp (ap_node a'))) \<le> room)"
proof -
  obtain n where n: "prvIpcpTask_event env en e (ap_node a) = Some n" "a' = a \<lparr> ap_node := n \<rparr>"
    using assms(2) by (auto simp: node_event_def split: Option.bind_splits)
  show ?thesis
  proof (cases "\<exists>p nb. e = StackTx p nb")
    case False
    then show ?thesis
      using event_inv[OF assms(1) n(1)] event_below[OF assms(1) n(1) assms(4)] n(2) by (auto simp: below_def)
  next
    case True
    then obtain p nb q d where w: "xNormalDuWrite (nv_dp env) p nb (nd_dp (ap_node a)) = Some (q, d)"
        "n = ap_node a \<lparr> nd_dp := d \<rparr>"
      using n(1) by (auto simp: lift_dp_def split: Option.bind_splits)
    have "length (net_tx d) \<le> room" if "length (net_tx (nd_dp (ap_node a))) \<le> room"
      using shim802154.normal_write_hands_on[OF assms(3) w(1)] that by (auto simp: shim802154.hands_on_def)
    then show ?thesis
      using event_inv[OF assms(1) n(1)] normal_write_port[OF w(1)] n(2) w(2) by simp
  qed
qed

lemma task_event_inv:
  assumes "node_inv (ap_node a)" "task_event env en e a = Some a'" "duWrite (nv_dp env) = stack_duWrite senv room sh"
    and "app_event e"
  shows "node_inv (ap_node a') \<and> port_of (nd_dp (ap_node a')) = port_of (nd_dp (ap_node a))
    \<and> (length (net_tx (nd_dp (ap_node a))) \<le> room \<longrightarrow> length (net_tx (nd_dp (ap_node a'))) \<le> room)"
proof (cases e)
  case (NodeEvent ev)
  note ne = node_event_inv[OF assms(1) _ assms(3)]
  show ?thesis
  proof (cases ev)
    case (FlowBind port)
    obtain a1 b where a1: "node_event env en (FlowBind port) a = Some a1" "a' = set_bits port b a1"
      using assms(2) NodeEvent FlowBind by (auto split: Option.bind_splits)
    then show ?thesis
      using ne[OF a1(1)] set_bits_inv[of a1 port b] by (auto simp: below_def)
  qed (use assms NodeEvent ne in \<open>auto\<close>)
qed (use assms in auto)

section \<open>The shim's part\<close>

text \<open>The shim has a flow only when the normal IPC process has registered; it has one at
  most, and an allocated one exactly when the RMT has bound the port of that number.\<close>

definition flow_bound :: "shim_data \<Rightarrow> dplane \<Rightarrow> bool" where
  "flow_bound sh d \<longleftrightarrow> (pxAppName sh = None \<longrightarrow> xShimFlowsList sh = []) \<and> length (xShimFlowsList sh) \<le> 1
     \<and> (case xPortIdTable0 d of
          None \<Rightarrow> (\<forall>f\<in>set (xShimFlowsList sh). ePortIdState f \<noteq> eALLOCATED)
        | Some p \<Rightarrow> (\<exists>f. xShimFlowsList sh = [f] \<and> ePortIdState f = eALLOCATED \<and> sf_xPortId f = n1_xPortId p \<and> \<not> sf_freed f))"

lemma flow_bound_cong:
  assumes "port_of d' = port_of d"
  shows "flow_bound sh d' = flow_bound sh d"
  using assms by (cases "xPortIdTable0 d"; cases "xPortIdTable0 d'") (auto simp: flow_bound_def port_of_def)

lemma flow_bound_nic [simp]: "flow_bound (sh \<lparr> sh_nic := ifc \<rparr>) d = flow_bound sh d"
  by (cases "xPortIdTable0 d") (simp_all add: flow_bound_def)

lemma flow_bound_same:
  assumes "flow_bound sh d" "xShimFlowsList sh' = xShimFlowsList sh" "pxAppName sh' = None \<Longrightarrow> pxAppName sh = None"
  shows "flow_bound sh' d"
  using assms by (cases "xPortIdTable0 d") (auto simp: flow_bound_def)

lemma register_flows:
  assumes "xNormalRegistering env difname nam s = Some (ok, s')"
  shows "xShimFlowsList s' = xShimFlowsList s"
    "ok \<Longrightarrow> pxAppName s = None \<and> pxAppName s' \<noteq> None"
    "\<not> ok \<Longrightarrow> pxAppName s' = None \<Longrightarrow> pxAppName s = None"
  using assms
  by (auto simp: xNormalRegistering_def xShim802154ApplicationRegister_def Let_def split: if_splits Option.bind_splits)

text \<open>A request for a first flow: none, one that is pending, or one already destroyed.\<close>

lemma flow_request_first:
  assumes "xShim802154FlowAllocateRequest env user src dst port s = Some (r, s')" "xShimFlowsList s = []"
  shows "pxAppName s' = pxAppName s \<and> (xShimFlowsList s' = []
    \<or> (\<exists>f. xShimFlowsList s' = [f] \<and> ePortIdState f = ePENDING \<and> sf_xPortId f = port))"
  using assms
  by (auto simp: xShim802154FlowAllocateRequest_def Let_def prvShimUnbindDestroyFlow_def prvShimFlowDestroy_def
      vShimFlowAdd_def prvShimFindFlowByPortId_def split: if_splits Option.bind_splits option.splits)

lemma flow_response_bound:
  assumes "xShimFlowAllocateResponse env sp port s d = Some (r, s', d')" "xPortIdTable0 d = None"
    and "xShimFlowsList s = [] \<or> (\<exists>f. xShimFlowsList s = [f] \<and> ePortIdState f = ePENDING \<and> sf_xPortId f = port)"
    and "pxAppName s \<noteq> None" "dp_inv d"
  shows "flow_bound s' d' \<and> dp_inv d' \<and> net_tx d' = net_tx d"
proof (cases "xShimFlowsList s = [] \<or> \<not> se_mem env 0 \<or> \<not> is_port_id_ok port \<or> \<not> sp")
  case True
  then have "s' = s \<and> d' = d"
    using assms(1) by (auto simp: xShimFlowAllocateResponse_def prvShimFindFlowByPortId_def split: if_splits)
  then show ?thesis using assms(2-5) by (auto simp: flow_bound_def)
next
  case False
  then obtain f where f: "xShimFlowsList s = [f]" "ePortIdState f = ePENDING" "sf_xPortId f = port"
    using assms(3) by auto
  obtain ok e where e: "xRmtN1PortBind port d = (ok, e)" by fastforce
  have nf: "\<not> sf_freed f" using assms(1) False f by (auto simp: xShimFlowAllocateResponse_def prvShimFindFlowByPortId_def)
  have "(s', d') = (if ok then (s \<lparr> xShimFlowsList := [f \<lparr> ePortIdState := eALLOCATED, sf_xPortId := port \<rparr>] \<rparr>, e) else (s, e))"
    using assms(1) False f e nf
    by (auto simp: xShimFlowAllocateResponse_def prvShimFindFlowByPortId_def xNormalFlowBinding_def
        split: if_splits Option.bind_splits)
  moreover have "dp_inv e \<and> net_tx e = net_tx d \<and> (case xPortIdTable0 e of None \<Rightarrow> \<not> ok | Some p \<Rightarrow> ok \<and> n1_xPortId p = port)"
    using e bind_inv[OF assms(5) e] assms(2) False
    by (auto simp: xRmtN1PortBind_def pxRmtN1PortCreate_def split: if_splits)
  ultimately show ?thesis
    using assms(4) f nf by (auto simp: flow_bound_def split: if_splits option.splits)
qed

lemma enrolled_event_inv:
  assumes "shim_enrolled_event env nv en nam dif (im, n1, s, nd) = Some (im', n1', s', nd')"
    and "node_inv nd" "flow_bound s (nd_dp nd)"
  shows "node_inv nd' \<and> flow_bound s' (nd_dp nd') \<and> net_tx (nd_dp nd') = net_tx (nd_dp nd)"
proof -
  obtain ok s1 where r: "xNormalRegistering env dif nam s = Some (ok, s1)"
    using assms(1) by (auto simp: shim_enrolled_event_def split: Option.bind_splits)
  note rf = register_flows[OF r]
  show ?thesis
  proof (cases ok)
    case False
    then have "s' = s1 \<and> nd' = nd" using assms(1) r by (simp add: shim_enrolled_event_def)
    then show ?thesis using assms(2) flow_bound_same[OF assms(3) rf(1)] rf(3) False by simp
  next
    case True
    obtain port im1 s2 q s3 d where
      s2: "prvIpcpFlowRequest env im1 port nam s1 = Some s2"
      and s3: "xShimFlowAllocateResponse env (pxIpcManagerActiveShimInstance (xInstanceTable im1) \<noteq> None) port s2 (nd_dp nd)
        = Some (q, s3, d)"
      and i: "vEnrollmentInit (nv s3) en port (nd \<lparr> nd_dp := d \<rparr>) = Some nd'" and s': "s' = s3"
      using assms(1) r True by (auto simp: shim_enrolled_event_def split: Option.bind_splits)
    have fl: "xShimFlowsList s1 = []" "xPortIdTable0 (nd_dp nd) = None"
      using assms(3) rf(1) rf(2)[OF True] by (auto simp: flow_bound_def split: option.splits)
    have "pxAppName s2 = pxAppName s1 \<and> (xShimFlowsList s2 = []
        \<or> (\<exists>f. xShimFlowsList s2 = [f] \<and> ePortIdState f = ePENDING \<and> sf_xPortId f = port))"
      using s2 by (auto simp: prvIpcpFlowRequest_def split: Option.bind_splits dest!: flow_request_first[OF _ fl(1)])
    then have fb: "flow_bound s3 d" "dp_inv d" "net_tx d = net_tx (nd_dp nd)"
      using flow_response_bound[OF s3 fl(2)] rf(2)[OF True] assms(2) by (auto simp: node_inv_def)
    have ni: "node_inv (nd \<lparr> nd_dp := d \<rparr>)" by (rule node_inv_dp[OF assms(2) fb(2)])
    show ?thesis
      using init_inv[OF ni i] init_port[OF i] fb(1,3) s' flow_bound_cong[of "nd_dp nd'" d s3] by (simp add: below_def)
  qed
qed

section \<open>The steps\<close>

fun ev_ok :: "RINAStackEvent_t \<Rightarrow> bool" where
  "ev_ok (ApiEvent e) = app_event e"
| "ev_ok _ = True"

definition queue_ok :: "RINAStackEvent_t RsQueue \<Rightarrow> bool" where
  "queue_ok q \<longleftrightarrow> mq_maxmsg q = IPCP_QUEUE \<and> length (mq_msgs q) \<le> IPCP_QUEUE \<and> (\<forall>e\<in>set (mq_msgs q). ev_ok e)"

text \<open>Within an event, and between events.\<close>

definition stack_mid :: "stack \<Rightarrow> bool" where
  "stack_mid s \<longleftrightarrow> node_inv (st_node s) \<and> flow_bound (st_shim s) (st_dp s)
     \<and> length (net_tx (st_dp s)) \<le> queue_room s \<and> queue_ok (st_queue s) \<and> ap_ready (st_api s)"

definition stack_inv :: "stack \<Rightarrow> bool" where
  "stack_inv s \<longleftrightarrow> node_inv (st_node s) \<and> flow_bound (st_shim s) (st_dp s)
     \<and> net_tx (st_dp s) = [] \<and> sent (st_node s) = [] \<and> queue_ok (st_queue s)
     \<and> (xPortIdTable0 (st_dp s) = None \<or> ap_ready (st_api s))"

lemma put_node_simps [simp]:
  "st_node (put_node n s) = n" "st_shim (put_node n s) = st_shim s" "st_queue (put_node n s) = st_queue s"
  "st_node (put_free f s) = (st_node s) \<lparr> nd_dp := (st_dp s) \<lparr> free_desc := f \<rparr> \<rparr>"
  "st_shim (put_free f s) = st_shim s" "st_queue (put_free f s) = st_queue s"
  "ap_ready (st_api (put_node n s)) = ap_ready (st_api s)" "ap_ready (st_api (put_free f s)) = ap_ready (st_api s)"
  by (simp_all add: put_node_def put_free_def)

lemma queue_room_cong [simp]: "queue_room (put_node n s) = queue_room s" "queue_room (put_free f s) = queue_room s"
  by (simp_all add: queue_room_def)

lemma duWrite_stack [simp]:
  "duWrite (nv_dp (stack_nenv env room sh)) = stack_duWrite (sk_sh env) room sh"
  by (simp add: stack_nenv_def)

lemma node_inv_free: "node_inv s \<Longrightarrow> node_inv (s \<lparr> nd_dp := (nd_dp s) \<lparr> free_desc := f \<rparr> \<rparr>)"
  by (simp add: node_inv_def dp_inv_def)

lemma stack_event_mid:
  assumes "stack_mid s" "stack_event env e s = Some s'" "ev_ok e"
  shows "stack_mid s' \<and> st_queue s' = st_queue s"
proof (cases e)
  case (eNetworkRxEvent nb n)
  obtain r nd where p: "xProcessIEEE802154Packet (stack_nenv env (queue_room s) (st_shim s)) (sk_mem env 0)
       (pxIpcManagerActiveNormalInstance (st_instances s) \<noteq> None) (sh_nic (st_shim s)) nb n (st_node s) = Some (r, nd)"
      "s' = put_node nd s"
    using assms(2) eNetworkRxEvent by (auto split: Option.bind_splits)
  show ?thesis
    using process_packet_inv[OF _ p(1)] assms(1) p(2) flow_bound_cong[of "nd_dp nd" "st_dp s" "st_shim s"]
    by (simp add: stack_mid_def below_def)
next
  case (eNetworkTxEvent nb)
  obtain r f free where "s' = put_free free (s \<lparr> st_air := st_air s @ f \<rparr>)"
    using assms(2) eNetworkTxEvent by (auto split: Option.bind_splits)
  then show ?thesis
    using assms(1) node_inv_free flow_bound_cong[of "st_dp s \<lparr> free_desc := free \<rparr>" "st_dp s" "st_shim s"]
    by (simp add: stack_mid_def queue_room_def)
next
  case eShimEnrolledEvent
  obtain im port sh nd where p: "shim_enrolled_event (sk_sh env) (stack_nenv env (queue_room s)) (sk_enrollee env)
       (sk_name env) (sk_dif env) (ap_manager (st_api s), xN1PortId s, st_shim s, st_node s) = Some (im, port, sh, nd)"
      "s' = s \<lparr> st_api := (st_api s) \<lparr> ap_manager := im, ap_node := nd \<rparr>, st_shim := sh, xN1PortId := port \<rparr>"
    using assms(2) eShimEnrolledEvent by (auto split: Option.bind_splits)
  show ?thesis
    using enrolled_event_inv[OF p(1)] assms(1) p(2) by (simp add: stack_mid_def queue_room_def)
next
  case (ApiEvent a)
  let ?a = "case a of NodeEvent (ShimFlowAllocated _) \<Rightarrow> NodeEvent (ShimFlowAllocated (xN1PortId s)) | _ \<Rightarrow> a"
  have ok: "app_event ?a" using assms(3) ApiEvent by (auto split: api_event.splits event.splits)
  obtain a' where p: "task_event (stack_nenv env (queue_room s) (st_shim s)) (sk_enrollee env) ?a (st_api s) = Some a'"
      "s' = s \<lparr> st_api := a' \<rparr>"
    using assms(2) ApiEvent by (auto split: Option.bind_splits)
  show ?thesis
    using task_event_inv[OF _ p(1) duWrite_stack ok] task_event_ready[OF p(1)] assms(1) p(2)
      flow_bound_cong[of "nd_dp (ap_node a')" "st_dp s" "st_shim s"]
    by (simp add: stack_mid_def queue_room_def)
qed

lemma stack_send_inv:
  assumes "stack_send (env \<lparr> duWrite := stack_duWrite senv room sh \<rparr>) m d = Some d'" "dp_inv d" "length (net_tx d) \<le> room"
  shows "dp_inv d' \<and> port_of d' = port_of d \<and> length (net_tx d') \<le> room"
proof -
  obtain port bytes where m: "m = (port, bytes)" by fastforce
  obtain nb free q where w: "xNormalMgmtDuWrite (env \<lparr> duWrite := stack_duWrite senv room sh \<rparr>) port
      \<lparr> pxPci = None, pxNetworkBuffer = nb \<rparr> (d \<lparr> free_desc := free \<rparr>) = Some (q, d')"
    using assms(1) unfolding m stack_send_def by (auto simp: Let_def split: Option.bind_splits)
  have i: "dp_inv (d \<lparr> free_desc := free \<rparr>)" using assms(2) by (simp add: dp_inv_def)
  have du: "duWrite (env \<lparr> duWrite := stack_duWrite senv room sh \<rparr>) = stack_duWrite senv room sh" by simp
  show ?thesis
    using mgmt_write_inv[OF i w] mgmt_write_port[OF w] shim802154.mgmt_write_hands_on[OF du w] assms(3)
    by (auto simp: shim802154.hands_on_def)
qed

lemma stack_send_all_inv:
  assumes "stack_send_all (env \<lparr> duWrite := stack_duWrite senv room sh \<rparr>) ms d = Some d'" "dp_inv d" "length (net_tx d) \<le> room"
  shows "dp_inv d' \<and> port_of d' = port_of d \<and> length (net_tx d') \<le> room"
  using assms
proof (induction ms arbitrary: d)
  case (Cons m ms)
  then obtain d1 where d1: "stack_send (env \<lparr> duWrite := stack_duWrite senv room sh \<rparr>) m d = Some d1"
      "stack_send_all (env \<lparr> duWrite := stack_duWrite senv room sh \<rparr>) ms d1 = Some d'"
    by (auto split: Option.bind_splits)
  show ?case using Cons.IH[OF d1(2)] stack_send_inv[OF d1(1) Cons.prems(2,3)] by simp
qed simp

lemma stack_drain_mid:
  assumes "stack_mid s" "stack_drain env s = Some s'"
  shows "stack_mid s' \<and> st_queue s' = st_queue s \<and> sent (st_node s') = []"
proof -
  obtain d where d: "stack_send_all ((nv_dp (sk_nv env)) \<lparr> duWrite := stack_duWrite (sk_sh env) (queue_room s) (st_shim s) \<rparr>)
      (sent (st_node s)) (st_dp s) = Some d" "s' = put_node ((st_node s) \<lparr> nd_dp := d, sent := [] \<rparr>) s"
    using assms(2) by (auto simp: stack_drain_def stack_nenv_def split: Option.bind_splits)
  have "mgmt_wf (st_node s \<lparr> nd_dp := d, sent := [] \<rparr>) = mgmt_wf (st_node s)"
    by (simp add: mgmt_wf_def)
  then show ?thesis
    using stack_send_all_inv[OF d(1)] assms(1) d(2) flow_bound_cong[of d "st_dp s" "st_shim s"]
    by (simp add: stack_mid_def node_inv_def)
qed

lemma stack_flush_inv:
  assumes "stack_mid s" "sent (st_node s) = []"
  shows "stack_inv (stack_flush s)"
proof -
  have "flow_bound (st_shim s) (st_dp s \<lparr> net_tx := [] \<rparr>)"
    using assms flow_bound_cong[of "st_dp s \<lparr> net_tx := [] \<rparr>" "st_dp s" "st_shim s"] by (simp add: stack_mid_def)
  moreover have "node_inv (st_node s \<lparr> nd_dp := st_dp s \<lparr> net_tx := [] \<rparr> \<rparr>)"
    using assms by (simp add: stack_mid_def node_inv_def dp_inv_def)
  ultimately show ?thesis
    using assms by (auto simp: stack_inv_def stack_mid_def stack_flush_def queue_ok_def queue_room_def)
qed

lemma task_step_inv:
  assumes "stack_inv s" "ap_ready (st_api s)" "prvIpcpTask env s = Some s'"
  shows "stack_inv s'"
proof (cases "mq_msgs (st_queue s)")
  case Nil
  then show ?thesis using assms by (simp add: prvIpcpTask_def)
next
  case (Cons e es)
  let ?s = "s \<lparr> st_queue := (st_queue s) \<lparr> mq_msgs := es \<rparr> \<rparr>"
  have m: "stack_mid ?s" "ev_ok e"
    using assms(1,2) Cons by (simp_all add: stack_inv_def stack_mid_def queue_ok_def)
  obtain s1 s2 where s: "stack_event env e ?s = Some s1" "stack_drain env s1 = Some s2" "s' = stack_flush s2"
    using assms(3) Cons by (auto simp: prvIpcpTask_def split: Option.bind_splits)
  show ?thesis
    using stack_flush_inv stack_drain_mid[OF _ s(2)] stack_event_mid[OF m(1) s(1) m(2)] s(3) by blast
qed

section \<open>Calls of applications\<close>

text \<open>What a part of a call may change: the manager, the bits of handles, the free descriptors,
  and at the end of the queue, as far as there is room, events of applications.\<close>

definition app_kept :: "api \<Rightarrow> api \<Rightarrow> bool" where
  "app_kept a a' \<longleftrightarrow> (node_inv (ap_node a) \<longrightarrow> node_inv (ap_node a')) \<and> node_below (ap_node a') = node_below (ap_node a)
     \<and> sent (ap_node a') = sent (ap_node a) \<and> ap_ready a' = ap_ready a
     \<and> (\<exists>es. ap_queue a' = (ap_queue a) \<lparr> mq_msgs := mq_msgs (ap_queue a) @ es \<rparr> \<and> (\<forall>e\<in>set es. app_event e)
          \<and> (es \<noteq> [] \<longrightarrow> length (mq_msgs (ap_queue a')) \<le> mq_maxmsg (ap_queue a)))"

lemma app_kept_refl: "app_kept a a"
  by (auto simp: app_kept_def intro!: exI[of _ "[]"])

lemma app_kept_free: "app_kept a (ap_free free a)"
  using node_inv_free by (auto simp: app_kept_def ap_free_def below_def intro!: exI[of _ "[]"])

lemma app_kept_free_cong: "app_kept a a' \<Longrightarrow> app_kept a (ap_free free a')"
  using node_inv_free by (auto simp: app_kept_def ap_free_def below_def)

lemma ap_free_fields [simp]:
  "ap_queue (ap_free free a) = ap_queue a" "ap_ready (ap_free free a) = ap_ready a"
  by (simp_all add: ap_free_def)

lemma app_kept_manager: "app_kept a (a \<lparr> ap_manager := im, ap_bits := bits \<rparr>)"
  by (auto simp: app_kept_def intro!: exI[of _ "[]"])

lemma app_kept_send:
  assumes "xSendEventStructToIPCPTask t clk e us a = Some (r, a')" "app_event e"
  shows "app_kept a a'"
proof -
  let ?q = "ap_queue a"
  have "a' = a \<or> length (mq_msgs ?q) < mq_maxmsg ?q \<and> a' = a \<lparr> ap_queue := ?q \<lparr> mq_msgs := mq_msgs ?q @ [e] \<rparr> \<rparr>"
    using assms(1)
    by (auto simp: xSendEventStructToIPCPTask_def xRsQueueSendToBack_def split: Option.bind_splits if_splits)
  then show ?thesis
  proof
    assume "a' = a"
    then show ?thesis by (simp add: app_kept_refl)
  next
    assume *: "length (mq_msgs ?q) < mq_maxmsg ?q \<and> a' = a \<lparr> ap_queue := ?q \<lparr> mq_msgs := mq_msgs ?q @ [e] \<rparr> \<rparr>"
    then show ?thesis using assms(2) unfolding app_kept_def by (intro conjI exI[of _ "[e]"]) simp_all
  qed
qed

lemma app_kept_free_send:
  assumes "xSendEventStructToIPCPTask t clk e us (ap_free free a) = Some (r, a')" "app_event e"
  shows "app_kept a a'"
  using app_kept_send[OF assms] app_kept_free[of a free]
  by (auto simp: app_kept_def)

lemma set_bits_fields [simp]:
  "sent (ap_node (set_bits port b a)) = sent (ap_node a)" "ap_ready (set_bits port b a) = ap_ready a"
  "ap_queue (set_bits port b a) = ap_queue a"
  by (simp_all add: set_bits_def split: option.split)

lemma app_kept_bits: "app_kept a (set_bits port b a)"
proof -
  have "node_below (ap_node (set_bits port b a)) = node_below (ap_node a)"
    by (simp add: set_bits_def below_def split: option.split)
  then show ?thesis
    using set_bits_inv[of a port b] by (auto simp: app_kept_def intro!: exI[of _ "[]"])
qed

lemma app_step_kept: "app_step a a' \<Longrightarrow> app_kept a a'"
proof (induction rule: app_step.induct)
  case (request mem dif loc rem spec a rq a')
  then show ?case
    by (auto simp: prvRINACreateFlowRequest_def app_kept_refl app_kept_manager split: if_splits Option.bind_splits)
next
  case (send e clk us a r a')
  then show ?case using app_kept_send by blast
next
  case (writes env clks port buf n a k a')
  then show ?case
    by (auto simp: RINA_flow_write_def Let_def app_kept_refl app_kept_free app_kept_free_send
        split: if_splits Option.bind_splits option.splits
        intro!: app_kept_free_cong dest!: app_kept_free_send)
next
  case (close clk port a r a')
  then show ?case
    by (auto simp: RINA_close_def app_kept_refl split: if_splits dest!: app_kept_send)
next
  case (wake port d a u a')
  then show ?case by (auto simp: app_wake_def app_kept_bits)
qed

lemma app_leave_inv:
  assumes "stack_inv s" "app_kept (app_enter s) a"
  shows "stack_inv (app_leave a s)"
proof -
  have q: "queue_ok (st_queue s)" "mq_maxmsg (st_queue s) = IPCP_QUEUE" using assms(1) by (simp_all add: stack_inv_def queue_ok_def)
  have d: "port_of (nd_dp (ap_node a)) = port_of (st_dp s)" "net_tx (nd_dp (ap_node a)) = net_tx (st_dp s)"
    using assms(2) by (simp_all add: app_kept_def app_enter_def below_def)
  then have "xPortIdTable0 (nd_dp (ap_node a)) = None \<longleftrightarrow> xPortIdTable0 (st_dp s) = None"
    by (auto simp: port_of_def)
  moreover have "queue_ok (st_queue (app_leave a s))"
    using assms(2) q by (auto simp: app_kept_def app_enter_def app_leave_def queue_ok_def queue_room_def)
  ultimately show ?thesis
    using assms d flow_bound_cong[OF d(1), of "st_shim s"]
    by (auto simp: stack_inv_def app_leave_def app_kept_def app_enter_def)
qed

section \<open>Reachable states\<close>

text \<open>Booting leaves the queue empty, or with the event that the shim has enrolled.\<close>

lemma stack_boot_cases:
  assumes "stack_boot env = Some s"
  obtains sh0 en sh im q where "pxShim802154Create (sk_sh env) nic_boot = Some sh0"
    "xShim802154EnrollToDIF (sk_sh env) sh0 = (en, sh)"
    "s = \<lparr> st_api = \<lparr> ap_node = node_boot (sk_nv env), ap_queue = \<lparr> mq_msgs = [], mq_maxmsg = 0 \<rparr>,
            ap_ready = sk_started env, ap_manager = im, ap_bits = (\<lambda>_. 0) \<rparr>,
          st_shim = sh, st_queue = \<lparr> mq_msgs = q, mq_maxmsg = IPCP_QUEUE \<rparr>, st_air = [], xN1PortId = 0 \<rparr>"
    "q = [] \<or> sk_started env \<and> q = [eShimEnrolledEvent]"
  using assms
  by (auto simp: stack_boot_def pxRsQueueCreate_def xIpcMngrInitRinaStack_def stack_send_event_def xRsQueueSendToBack_def Let_def
      split: Option.bind_splits option.splits prod.splits if_splits)

lemma stack_boot_inv:
  assumes "stack_boot env = Some s"
  shows "stack_inv s"
proof -
  obtain sh0 en sh im q where b: "pxShim802154Create (sk_sh env) nic_boot = Some sh0"
    "xShim802154EnrollToDIF (sk_sh env) sh0 = (en, sh)"
    "s = \<lparr> st_api = \<lparr> ap_node = node_boot (sk_nv env), ap_queue = \<lparr> mq_msgs = [], mq_maxmsg = 0 \<rparr>,
            ap_ready = sk_started env, ap_manager = im, ap_bits = (\<lambda>_. 0) \<rparr>,
          st_shim = sh, st_queue = \<lparr> mq_msgs = q, mq_maxmsg = IPCP_QUEUE \<rparr>, st_air = [], xN1PortId = 0 \<rparr>"
    "q = [] \<or> sk_started env \<and> q = [eShimEnrolledEvent]"
    by (rule stack_boot_cases[OF assms])
  have "xShimFlowsList sh = []" using b(1,2)
    by (auto simp: pxShim802154Create_def vShimFlowListInit_def xShim802154EnrollToDIF_def Let_def
        split: if_splits prod.splits)
  moreover have "xPortIdTable0 (nd_dp (node_boot (sk_nv env))) = None" "net_tx (nd_dp (node_boot (sk_nv env))) = []"
    "sent (node_boot (sk_nv env)) = []"
    by (simp_all add: node_boot_def mgmt.defs pxIpcpCreate_def mgmt_boot_def)
  ultimately show ?thesis
    using boot_inv[of "sk_nv env"] b(3,4)
    by (auto simp: stack_inv_def flow_bound_def queue_ok_def IPCP_QUEUE_def)
qed

lemma reach_stack_inv: "stack_reach s \<Longrightarrow> stack_inv s"
proof (induction rule: stack_reach.induct)
  case (boot env s)
  then show ?case by (rule stack_boot_inv)
next
  case (start s)
  then show ?case by (simp add: stack_task_starts_def stack_inv_def)
next
  case (task s env s')
  then show ?case using task_step_inv by blast
next
  case (radio s f s')
  then show ?case
    by (auto simp: stack_radio_def stack_inv_def split: Option.bind_splits)
next
  case (receive s env s')
  then obtain e free ifc where r: "vShimRxTask (sk_mem env) (ap_ready (st_api s) \<and> 0 < queue_room s) (free_desc (st_dp s))
        (sh_nic (st_shim s)) = Some (e, free, ifc)"
    and s': "s' = put_free free (s \<lparr> st_shim := (st_shim s) \<lparr> sh_nic := ifc \<rparr>,
       st_queue := (st_queue s) \<lparr> mq_msgs := mq_msgs (st_queue s)
         @ (case e of None \<Rightarrow> [] | Some (nb, n) \<Rightarrow> [eNetworkRxEvent nb n]) \<rparr> \<rparr>)"
    by (auto simp: stack_rx_task_def split: Option.bind_splits)
  have "e = None \<or> 0 < queue_room s"
    using r by (auto simp: vShimRxTask_def vIeee802154NetworkInterfaceInput_def Let_def
        split: Option.bind_splits if_splits)
  moreover have "ap_ready (st_api s') = ap_ready (st_api s)" by (simp add: s' put_free_def put_node_def)
  ultimately show ?case
    using receive.IH node_inv_free flow_bound_cong[of "st_dp s \<lparr> free_desc := free \<rparr>" "st_dp s" "st_shim s"]
    by (auto simp: s' stack_inv_def queue_ok_def queue_room_def split: option.splits)
next
  case (application s a)
  then show ?case using app_leave_inv app_step_kept by blast
qed

end
