(* ===== verification/Wifi_Net.thy ===== *)
theory Wifi_Net
  imports Arp_Cache
begin

text \<open>
  The network interface of the WiFi shim on the ESP32
  (\<open>Shim/NetworkInterface/esp32/NetworkInterface.c\<close>) and the test of a received frame
  (\<open>eConsiderFrameForProcessing\<close> of \<open>Shim/WiFi/wifi_IPCP_ethernet.c\<close>).  The driver is not
  part of the repository: the events that it delivers while the interface waits for its
  connection are a list, the answers of its calls arguments, a frame that it sends a result.
  Calls whose answer the code checks with \<open>ESP_ERROR_CHECK\<close> stop the node when they fail.
\<close>

section \<open>Connecting\<close>

text \<open>The state of the interface with the two bits of the event group; \<open>wn_connects\<close> counts the
  calls by which the driver is asked to connect.\<close>

record wifi_nic =
  wn_up :: bool
  s_retry_num :: nat
  event_loop_inited :: bool
  wn_connected :: bool
  wn_fail :: bool
  wn_connects :: nat

definition wifi_nic_boot :: wifi_nic where
  "wifi_nic_boot = \<lparr> wn_up = False, s_retry_num = 0, event_loop_inited = False, wn_connected = False,
     wn_fail = False, wn_connects = 0 \<rparr>"

definition ESP_MAXIMUM_RETRY :: nat where "ESP_MAXIMUM_RETRY = 5"

datatype wifi_event = STA_START | STA_DISCONNECTED | OtherEvent

definition event_handler :: "wifi_event \<Rightarrow> wifi_nic \<Rightarrow> wifi_nic" where
  "event_handler e s = (case e of
     STA_START \<Rightarrow> s \<lparr> wn_connects := wn_connects s + 1 \<rparr>
   | STA_DISCONNECTED \<Rightarrow>
       if s_retry_num s < ESP_MAXIMUM_RETRY
       then s \<lparr> wn_connects := wn_connects s + 1, s_retry_num := s_retry_num s + 1 \<rparr>
       else s \<lparr> wn_fail := True \<rparr>
   | OtherEvent \<Rightarrow> s \<lparr> s_retry_num := 0, wn_connected := True \<rparr>)"

text \<open>The wait for one of the bits, without a time limit: \<open>None\<close> when no event sets one.\<close>

primrec wait_bits :: "wifi_event list \<Rightarrow> wifi_nic \<Rightarrow> wifi_nic option" where
  "wait_bits [] s = (if wn_connected s \<or> wn_fail s then Some s else None)"
| "wait_bits (e # es) s = (if wn_connected s \<or> wn_fail s then Some s else wait_bits es (event_handler e s))"

definition xNetworkInterfaceInitialise :: "u8 list \<Rightarrow> u8 list \<Rightarrow> bool \<times> u8 list" where
  "xNetworkInterfaceInitialise mac dev = (True, vARPUpdateMACAddress mac dev)"

text \<open>\<open>drv k\<close> is the answer of the k-th checked call.\<close>

definition xNetworkInterfaceConnect :: "(nat \<Rightarrow> bool) \<Rightarrow> wifi_event list \<Rightarrow> wifi_nic \<Rightarrow> (bool \<times> wifi_nic) option" where
  "xNetworkInterfaceConnect drv es s = do {
     let s = (if event_loop_inited s then s \<lparr> s_retry_num := 0 \<rparr> else s) \<lparr> wn_connected := False, wn_fail := False \<rparr>;
     if \<not> event_loop_inited s \<and> \<not> drv 0 then None
     else do {
       let s = s \<lparr> event_loop_inited := True \<rparr>;
       if \<not> (drv 1 \<and> drv 2 \<and> drv 3 \<and> drv 4 \<and> drv 5) then None
       else do {
         s \<leftarrow> wait_bits es s;
         let s = (if wn_connected s then s \<lparr> wn_up := True \<rparr> else if wn_fail s then s \<lparr> wn_up := False \<rparr> else s);
         if \<not> (drv 6 \<and> drv 7) then None else Some (wn_up s, s) } } }"

definition xNetworkInterfaceDisconnect :: "bool \<Rightarrow> bool" where
  "xNetworkInterfaceDisconnect drv = drv"

text \<open>The answer says whether the event that the network is down has been sent.\<close>

definition vNetworkNotifyIFDown :: "wifi_nic \<Rightarrow> bool \<times> wifi_nic" where
  "vNetworkNotifyIFDown s = (wn_up s, s \<lparr> wn_up := False \<rparr>)"

definition vNetworkNotifyIFUp :: "wifi_nic \<Rightarrow> wifi_nic" where
  "vNetworkNotifyIFUp s = s \<lparr> wn_up := True \<rparr>"

section \<open>Frames\<close>

text \<open>The driver reads as many bytes as the descriptor says; \<open>tx\<close> is its answer.\<close>

definition xNetworkInterfaceOutput ::
  "NetworkBufferDescriptor_t option \<Rightarrow> bool \<Rightarrow> bool \<Rightarrow> wifi_nic \<Rightarrow> nat list \<Rightarrow> (bool \<times> u8 list option \<times> nat list) option" where
  "xNetworkInterfaceOutput pnb rel tx s free =
     (case pnb of
        None \<Rightarrow> Some (False, None, free)
      | Some nb \<Rightarrow>
          (case pucEthernetBuffer nb of
             None \<Rightarrow> Some (False, None, free)
           | Some eth \<Rightarrow>
               if xDataLength nb = 0 then Some (False, None, free)
               else if wn_up s \<and> length eth < xDataLength nb then None
               else do {
                 free \<leftarrow> (if rel then vReleaseNetworkBufferAndDescriptor nb free else Some free);
                 let sent = wn_up s \<and> tx;
                 Some (sent, if sent then Some (take (xDataLength nb) eth) else None, free) }))"

text \<open>The type of a frame, in network order behind the two addresses.\<close>

definition ethertype :: "u8 list \<Rightarrow> u16" where
  "ethertype bs = of_le16 (bs ! 13) (bs ! 12)"

definition eConsiderFrameForProcessing :: "u8 list \<Rightarrow> eFrameProcessingResult_t option" where
  "eConsiderFrameForProcessing bs =
     (if length bs < 14 then None
      else Some (if ethertype bs = ETH_P_RINA_ARP \<or> ethertype bs = ETH_P_RINA then eProcessBuffer else eReleaseBuffer))"

text \<open>A frame from the driver.  The answer is the event for the stack task, a buffer with the
  length of the frame; \<open>clock\<close> says whether the clock can be read, \<open>queued\<close> whether the queue
  takes the event.  When no descriptor is free the NULL pointer is released.\<close>

definition xNetworkInterfaceInput ::
  "bool \<Rightarrow> (nat \<Rightarrow> bool) \<Rightarrow> bool \<Rightarrow> u8 list \<Rightarrow> nat list
   \<Rightarrow> (bool \<times> (NetworkBufferDescriptor_t \<times> nat) option \<times> nat list) option" where
  "xNetworkInterfaceInput clock mem queued buf free = do {
     r \<leftarrow> eConsiderFrameForProcessing buf;
     if r \<noteq> eProcessBuffer then Some (True, None, free)
     else if \<not> clock then Some (False, None, free)
     else do {
       (nb, free) \<leftarrow> pxGetNetworkBufferWithDescriptor mem (length buf) free;
       nb \<leftarrow> nb;
       eth \<leftarrow> pucEthernetBuffer nb;
       if length eth < length buf then None
       else do {
         let nb = nb \<lparr> pucEthernetBuffer := Some (buf @ drop (length buf) eth) \<rparr>;
         if queued then Some (True, Some (nb, length buf), free)
         else do { free \<leftarrow> vReleaseNetworkBufferAndDescriptor nb free; Some (False, None, free) } } } }"

section \<open>How connecting ends\<close>

text \<open>Until the first other event, the events in which the driver only starts or loses the
  connection are counted.\<close>

definition lost :: "wifi_event list \<Rightarrow> nat" where
  "lost es = length (filter (\<lambda>e. e = STA_DISCONNECTED) es)"

lemma lost_simps [simp]: "lost [] = 0" "lost (e # es) = (if e = STA_DISCONNECTED then Suc (lost es) else lost es)"
  "lost (es @ fs) = lost es + lost fs"
  by (simp_all add: lost_def)

lemma wait_quiet:
  assumes "OtherEvent \<notin> set es" "\<not> wn_connected s" "\<not> wn_fail s" "s_retry_num s + lost es \<le> ESP_MAXIMUM_RETRY"
  shows "wait_bits (es @ fs) s = wait_bits fs (s \<lparr> s_retry_num := s_retry_num s + lost es,
     wn_connects := wn_connects s + length es \<rparr>)"
  using assms
proof (induction es arbitrary: s)
  case (Cons e es)
  then show ?case by (cases e) (auto simp: event_handler_def)
qed simp

lemma wait_fail:
  assumes "\<not> wn_connected s" "\<not> wn_fail s" "s_retry_num s = ESP_MAXIMUM_RETRY"
  shows "wait_bits (STA_DISCONNECTED # es) s = Some (s \<lparr> wn_fail := True \<rparr>)"
  using assms by (cases es) (simp_all add: event_handler_def)

lemma wait_connected:
  assumes "\<not> wn_connected s" "\<not> wn_fail s"
  shows "wait_bits (OtherEvent # es) s = Some (s \<lparr> s_retry_num := 0, wn_connected := True \<rparr>)"
  using assms by (cases es) (simp_all add: event_handler_def)

text \<open>Connecting gives up after the sixth loss of the connection: five losses are answered by
  another attempt.  Any other event of the driver, not only that the station is connected,
  ends the wait with success; without either the task waits for ever.  \<open>es\<close> are the starts
  and losses before the event that decides.\<close>

theorem wifi_connect_outcome:
  assumes "OtherEvent \<notin> set es" "lost es \<le> ESP_MAXIMUM_RETRY" "\<And>k. drv k"
    and "s_retry_num s = 0 \<or> event_loop_inited s"
  shows "xNetworkInterfaceConnect drv es s = None
    \<and> (\<exists>s'. xNetworkInterfaceConnect drv (es @ OtherEvent # fs) s = Some (True, s') \<and> wn_up s'
        \<and> wn_connects s' = wn_connects s + length es)
    \<and> (lost es = ESP_MAXIMUM_RETRY \<longrightarrow>
       (\<exists>s'. xNetworkInterfaceConnect drv (es @ STA_DISCONNECTED # fs) s = Some (False, s') \<and> \<not> wn_up s'
          \<and> wn_connects s' = wn_connects s + length es))"
proof -
  define t where "t = s \<lparr> s_retry_num := 0, wn_connected := False, wn_fail := False, event_loop_inited := True \<rparr>"
  define u where "u = t \<lparr> s_retry_num := lost es, wn_connects := wn_connects s + length es \<rparr>"
  have c: "xNetworkInterfaceConnect drv fs s = do { s \<leftarrow> wait_bits fs t;
       let s = (if wn_connected s then s \<lparr> wn_up := True \<rparr> else if wn_fail s then s \<lparr> wn_up := False \<rparr> else s);
       Some (wn_up s, s) }" for fs
    using assms(3,4) by (cases s) (auto simp: xNetworkInterfaceConnect_def t_def Let_def)
  have w: "wait_bits (es @ fs) t = wait_bits fs u" for fs
    using wait_quiet[of es t fs] assms(1,2) by (simp add: t_def u_def)
  have u: "\<not> wn_connected u" "\<not> wn_fail u" "wn_connects u = wn_connects s + length es" "s_retry_num u = lost es"
    by (simp_all add: u_def t_def)
  show ?thesis
    using u w[of "[]"] by (auto simp: c w wait_connected wait_fail Let_def simp del: wait_bits.simps(2))
qed

theorem wifi_connect_outcome_witness:
  "\<exists>s'. xNetworkInterfaceConnect (\<lambda>_. True) (STA_START # replicate 5 STA_DISCONNECTED @ STA_DISCONNECTED # [OtherEvent]) wifi_nic_boot
      = Some (False, s') \<and> wn_connects s' = 6"
  using wifi_connect_outcome[of "STA_START # replicate 5 STA_DISCONNECTED" "\<lambda>_. True" wifi_nic_boot "[OtherEvent]"]
  by (auto simp: ESP_MAXIMUM_RETRY_def wifi_nic_boot_def lost_def)

end
