(* ===== verification/Wifi_Shim.thy ===== *)
theory Wifi_Shim
  imports Shim_Flows Wifi_Net N1_Flow
begin

text \<open>
  The WiFi shim: its operations (\<open>Shim/WiFi/wifi_IPCP_ops.c\<close>) over the list of flows of
  \<open>Shim/shim_IPCP_flow.c\<close> and the cache of \<open>Shim/Arp826\<close>, and the frames it receives
  (\<open>Shim/WiFi/wifi_IPCP_ethernet.c\<close>).  A pointer to a name may lead to a name that has been
  freed; the two handles of the cache are not initialised when the shim is created.  The
  protocol address of a flow is an object of the cache's store while it is resolved, and a
  value otherwise.
\<close>

section \<open>The instance\<close>

record wifiFlow_t = shimFlow_t +
  pxDestHa :: "gha_t option"

datatype name_ptr = NoName | Name name_t | FreedName

datatype handle = Unset | NoHandle | Handle rinarpHandle_t

record wifi_shim =
  ws_pxAppName :: name_ptr
  ws_pxDafName :: name_ptr
  ws_pxPhyDev :: "u8 list"
  ws_flows :: "wifiFlow_t list"
  pxAppHandle :: handle
  pxDafHandle :: handle
  ws_arp :: arp
  ws_nic :: wifi_nic

definition MTU :: nat where "MTU = 1500"

definition pxShimWiFiCreate :: "shim_env \<Rightarrow> arp \<Rightarrow> wifi_nic \<Rightarrow> wifi_shim option option" where
  "pxShimWiFiCreate env a ifc =
     (if \<not> (se_mem env 0 \<and> se_mem env 1 \<and> se_mem env 2) then Some None
      else if \<not> (se_mem env 3 \<and> se_mem env 4) then None
      else Some (Some \<lparr> ws_pxAppName = NoName, ws_pxDafName = NoName,
             ws_pxPhyDev = replicate MAC_ADDRESS_LENGTH_BYTES 0, ws_flows = vShimFlowListInit,
             pxAppHandle = Unset, pxDafHandle = Unset, ws_arp = a, ws_nic = ifc \<rparr>))"

definition xShimEnrollToDIF ::
  "shim_env \<Rightarrow> (nat \<Rightarrow> bool) \<Rightarrow> u8 list \<Rightarrow> wifi_event list \<Rightarrow> wifi_shim \<Rightarrow> (bool \<times> wifi_shim) option" where
  "xShimEnrollToDIF env drv junk es s = do {
     let (ok, dev) = xNetworkInterfaceInitialise (se_mac env) (ws_pxPhyDev s);
     let s = s \<lparr> ws_pxPhyDev := dev \<rparr>;
     if \<not> ok then Some (False, s)
     else do {
       a \<leftarrow> vARPInitCache (se_mem env) junk (ws_arp s);
       (ok, ifc) \<leftarrow> xNetworkInterfaceConnect drv es (ws_nic s);
       Some (ok, s \<lparr> ws_arp := a, ws_nic := ifc \<rparr>) } }"

section \<open>Registering\<close>

definition vGPADestroy :: "nat option \<Rightarrow> arp \<Rightarrow> arp" where
  "vGPADestroy p a = (case p of None \<Rightarrow> a
     | Some i \<Rightarrow> if xIsGPAOK (gpas a i) then a \<lparr> gpas := (gpas a)(i := None) \<rparr> else a)"

definition vGHADestroy :: "nat option \<Rightarrow> arp \<Rightarrow> arp" where
  "vGHADestroy p a = (case p of None \<Rightarrow> a
     | Some i \<Rightarrow> if xIsGHAOK (ghas a i) then a \<lparr> ghas := (ghas a)(i := None) \<rparr> else a)"

text \<open>The two names are registered one after the other: the name is copied, turned into an
  address and entered in the cache with the hardware address of the interface.\<close>

text \<open>What is undone when the second name cannot be registered.\<close>

definition undo_app :: "(nat \<Rightarrow> bool) \<Rightarrow> rinarpHandle_t \<Rightarrow> name_ptr \<Rightarrow> nat option \<Rightarrow> wifi_shim \<Rightarrow> (bool \<times> wifi_shim) option" where
  "undo_app mem h1 daf ha s = do {
     (_, a) \<leftarrow> xARPRemove mem (pxPa h1) (pxHa h1) (ws_arp s);
     Some (False, s \<lparr> pxAppHandle := NoHandle, ws_pxAppName := FreedName, ws_pxDafName := daf,
                      ws_arp := vGHADestroy ha a \<rparr>) }"

definition register_daf ::
  "(nat \<Rightarrow> bool) \<Rightarrow> name_t option \<Rightarrow> rinarpHandle_t \<Rightarrow> nat option \<Rightarrow> wifi_shim \<Rightarrow> (bool \<times> wifi_shim) option" where
  "register_daf mem daf h1 ha s = do {
     dn \<leftarrow> pxRstrNameDup (mem 0) (mem 1) daf;
     (case dn of
        None \<Rightarrow> undo_app (\<lambda>k. mem (8 + k)) h1 NoName ha s
      | Some dn \<Rightarrow> do {
          g \<leftarrow> pxNameToGPA (mem 2) (mem 3) (mem 4) daf;
          if \<not> xIsGPAOK g then undo_app (\<lambda>k. mem (8 + k)) h1 FreedName ha s
          else do {
            let (pa, a) = new_gpa g (ws_arp s);
            (h2, a) \<leftarrow> pxARPAdd (\<lambda>k. mem (5 + k)) pa ha a;
            (case h2 of
               None \<Rightarrow> do {
                 (r, s) \<leftarrow> undo_app (\<lambda>k. mem (8 + k)) h1 FreedName ha (s \<lparr> ws_arp := a \<rparr>);
                 Some (r, s \<lparr> ws_arp := vGPADestroy pa (ws_arp s), pxDafHandle := NoHandle \<rparr>) }
             | Some h2 \<Rightarrow> Some (True, s \<lparr> ws_arp := a, ws_pxDafName := Name dn, pxDafHandle := Handle h2 \<rparr>)) } }) }"

definition xShimApplicationRegister ::
  "shim_env \<Rightarrow> name_t option \<Rightarrow> name_t option \<Rightarrow> wifi_shim \<Rightarrow> (bool \<times> wifi_shim) option" where
  "xShimApplicationRegister env app daf s =
     (let mem = se_mem env in
      if app = None \<or> ws_pxAppName s \<noteq> NoName then Some (False, s)
      else do {
        an \<leftarrow> pxRstrNameDup (mem 0) (mem 1) app;
        (case an of
           None \<Rightarrow> Some (False, s)
         | Some an \<Rightarrow> do {
             g \<leftarrow> pxNameToGPA (mem 2) (mem 3) (mem 4) app;
             let fini = s \<lparr> ws_pxAppName := Name (vRstrNameFini an) \<rparr>;
             if \<not> xIsGPAOK g then Some (False, fini)
             else do {
               h \<leftarrow> pxCreateGHA (mem 5) MAC_ADDR_802_3 (Some (ws_pxPhyDev s));
               if \<not> xIsGHAOK h then Some (False, fini)
               else do {
                 let (pa, a) = new_gpa g (ws_arp s);
                 let (ha, a) = new_gha h a;
                 (h1, a) \<leftarrow> pxARPAdd (\<lambda>k. mem (6 + k)) pa ha a;
                 (case h1 of
                    None \<Rightarrow> Some (False, fini \<lparr> ws_arp := vGHADestroy ha (vGPADestroy pa a), pxAppHandle := NoHandle \<rparr>)
                  | Some h1 \<Rightarrow> register_daf (\<lambda>k. mem (9 + k)) daf h1 ha
                      (s \<lparr> ws_pxAppName := Name an, ws_arp := a, pxAppHandle := Handle h1 \<rparr>)) } } }) })"

text \<open>Removing one of the addresses: \<open>xARPRemove\<close> answers true when it has removed it.
  A handle that was never set is whatever the memory held.\<close>

definition drop_handle :: "(nat \<Rightarrow> bool) \<Rightarrow> bool \<Rightarrow> handle \<Rightarrow> arp \<Rightarrow> (bool \<times> handle \<times> arp) option" where
  "drop_handle mem junk h a =
     (case h of
        Unset \<Rightarrow> if junk then None else Some (True, Unset, a)
      | NoHandle \<Rightarrow> Some (True, NoHandle, a)
      | Handle h1 \<Rightarrow> do {
          (r, a) \<leftarrow> xARPRemove mem (pxPa h1) (pxHa h1) a;
          Some (if r then (False, Handle h1, a) else (True, NoHandle, a)) })"

definition xShimApplicationUnregister :: "shim_env \<Rightarrow> name_t option \<Rightarrow> wifi_shim \<Rightarrow> (bool \<times> wifi_shim) option" where
  "xShimApplicationUnregister env nam s =
     (if nam = None \<or> ws_pxAppName s = NoName then Some (False, s)
      else do {
        (go, h, a) \<leftarrow> drop_handle (se_mem env) (se_junk env) (pxAppHandle s) (ws_arp s);
        let s = s \<lparr> pxAppHandle := h, ws_arp := a \<rparr>;
        if \<not> go then Some (False, s)
        else do {
          (go, h, a) \<leftarrow> drop_handle (\<lambda>k. se_mem env (8 + k)) (se_junk env) (pxDafHandle s) (ws_arp s);
          let s = s \<lparr> pxDafHandle := h, ws_arp := a \<rparr>;
          if \<not> go then Some (False, s)
          else if ws_pxAppName s = FreedName \<or> ws_pxDafName s = FreedName then None
          else Some (True, s \<lparr> ws_pxAppName := NoName, ws_pxDafName := NoName \<rparr>) } })"

section \<open>Flows\<close>

text \<open>The request is made by the stack task, which hands the frame of the cache to the interface
  itself: \<open>tx\<close> is the answer of the driver, the frame on the air is part of the answer.\<close>

definition xShimFlowAllocateRequest ::
  "shim_env \<Rightarrow> bool \<Rightarrow> ipcpInstance_t option \<Rightarrow> name_t option \<Rightarrow> name_t option \<Rightarrow> u32 \<Rightarrow> wifi_shim \<Rightarrow> nat list
   \<Rightarrow> (bool \<times> u8 list option \<times> wifi_shim \<times> nat list) option" where
  "xShimFlowAllocateRequest env tx user src dst port s free =
     (let mem = se_mem env in
      if src = None \<or> dst = None \<or> \<not> is_port_id_ok port then Some (False, None, s, free)
      else do {
        x \<leftarrow> prvShimFindFlowByPortId (mem 0) port (ws_flows s);
        (case x of
           Some x \<Rightarrow> Some (ePortIdState (ws_flows s ! x) = ePENDING, None, s, free)
         | None \<Rightarrow>
             if \<not> mem 1 then Some (False, None, s, free)
             else do {
               pa \<leftarrow> pxNameToGPA (mem 2) (mem 3) (mem 4) dst;
               let f = \<lparr> sf_xPortId = port, ePortIdState = ePENDING, pxDestPa = pa, pxUserIpcp = user,
                         pxSduQueue = se_fifo env, sf_freed = False, pxDestHa = None \<rparr>;
               if \<not> xIsGPAOK pa then do { _ \<leftarrow> prvShimUnbindDestroyFlow (se_junk env) f; Some (False, None, s, free) }
               else if \<not> se_fifo env
               then do {
                 (_, f) \<leftarrow> prvShimUnbindDestroyFlow (se_junk env) f;
                 Some (False, None, s \<lparr> ws_flows := vShimFlowAdd f (ws_flows s) \<rparr>, free) }
               else (case pxAppHandle s of
                 Handle h1 \<Rightarrow> do {
                   let (ta, a) = new_gpa pa (ws_arp s);
                   (ok, nb, free, a) \<leftarrow> xARPResolveGPA (\<lambda>k. mem (5 + k)) (se_storage env) True True ta (pxPa h1) (pxHa h1) free a;
                   (_, frame, free) \<leftarrow> xNetworkInterfaceOutput nb True tx (ws_nic s) free;
                   pa \<leftarrow> gpa_deref ta a;
                   let f = f \<lparr> pxDestPa := pa \<rparr>;
                   if ok then Some (True, frame, s \<lparr> ws_arp := a, ws_flows := vShimFlowAdd f (ws_flows s) \<rparr>, free)
                   else do {
                     (_, f) \<leftarrow> prvShimUnbindDestroyFlow (se_junk env) f;
                     Some (False, None, s \<lparr> ws_arp := a, ws_flows := vShimFlowAdd f (ws_flows s) \<rparr>, free) } }
               | _ \<Rightarrow> None) }) })"

text \<open>The flow is bound in the normal IPC process of the node, and gets the hardware address
  that the cache answers.\<close>

definition xShimWiFiFlowAllocateResponse ::
  "shim_env \<Rightarrow> bool \<Rightarrow> u32 \<Rightarrow> wifi_shim \<Rightarrow> dplane \<Rightarrow> (bool \<times> wifi_shim \<times> dplane) option" where
  "xShimWiFiFlowAllocateResponse env shim port s d =
     (if \<not> is_port_id_ok port \<or> \<not> shim then Some (False, s, d)
      else do {
        x \<leftarrow> prvShimFindFlowByPortId (se_mem env 0) port (ws_flows s);
        (case x of
           None \<Rightarrow> Some (False, s, d)
         | Some x \<Rightarrow>
             if ePortIdState (ws_flows s ! x) \<noteq> ePENDING then Some (False, s, d)
             else do {
               _ \<leftarrow> pxUserIpcp (ws_flows s ! x);
               let (ok, d) = xNormalFlowBinding port d;
               if \<not> ok then Some (False, s, d)
               else do {
                 h \<leftarrow> pxARPLookupGHA (se_mem env 1) (pxDestPa (ws_flows s ! x)) (ws_arp s);
                 Some (True, s \<lparr> ws_flows := (ws_flows s)[x := (ws_flows s ! x)
                        \<lparr> ePortIdState := eALLOCATED, sf_xPortId := port, pxDestHa := h \<rparr>] \<rparr>, d) } }) })"

section \<open>Writing\<close>

text \<open>The answer: whether the unit was taken, the buffer in the event for the stack task and
  the free descriptors.  The hardware address made for every unit is lost.\<close>

definition xShimSDUWrite ::
  "shim_env \<Rightarrow> u32 \<Rightarrow> du_t \<Rightarrow> wifi_shim \<Rightarrow> nat list \<Rightarrow> (bool \<times> NetworkBufferDescriptor_t option \<times> nat list) option" where
  "xShimSDUWrite env port du s free =
     (let n = xDataLength (pxNetworkBuffer du);
          drop_du = (\<lambda>free. do { (_, free) \<leftarrow> xDuDestroy du free; Some (False, None, free) })
      in if n > MTU then drop_du free
         else do {
         x \<leftarrow> prvShimFindFlowByPortId (se_mem env 0) port (ws_flows s);
         (case x of
           None \<Rightarrow> drop_du free
         | Some x \<Rightarrow>
             if ePortIdState (ws_flows s ! x) \<noteq> eALLOCATED then drop_du free
             else do {
               h \<leftarrow> pxCreateGHA (se_mem env 1) MAC_ADDR_802_3 (Some (ws_pxPhyDev s));
               (case (h, pxDestHa (ws_flows s ! x)) of
                  (Some sh, Some dh) \<Rightarrow> do {
                    (new, free) \<leftarrow> pxGetNetworkBufferWithDescriptor (se_storage env) (14 + n) free;
                    (case new of
                       None \<Rightarrow> drop_du free
                     | Some new \<Rightarrow> do {
                         src \<leftarrow> pucEthernetBuffer (pxNetworkBuffer du);
                         dst \<leftarrow> pucEthernetBuffer new;
                         if length src < n \<or> length dst < 14 + n then None
                         else do {
                           let new = new \<lparr> pucEthernetBuffer := Some (ucBytes dh @ ucBytes sh @ be16 ETH_P_RINA
                                               @ take n src @ drop (14 + n) dst), xDataLength := 14 + n \<rparr>;
                           (_, free) \<leftarrow> xDuDestroy du free;
                           if se_queue env then Some (True, Some new, free)
                           else do {
                             free \<leftarrow> vReleaseNetworkBufferAndDescriptor new free;
                             Some (False, None, free) } } }) }
                | _ \<Rightarrow> drop_du free) }) })"

section \<open>Frames received\<close>

datatype eth_event = EthStackRx du_t | EthShimFlowAllocated

text \<open>The answer to the request of the flow, on port 1, is not looked at.\<close>

definition prxHandleAllocateResponse :: "shim_env \<Rightarrow> bool \<Rightarrow> wifi_shim \<Rightarrow> dplane \<Rightarrow> (bool \<times> wifi_shim \<times> dplane) option" where
  "prxHandleAllocateResponse env shim s d =
     (if \<not> shim then None
      else do {
        (_, s, d) \<leftarrow> xShimWiFiFlowAllocateResponse env True 1 s d;
        Some (True, s, d) })"

definition eth_release :: "NetworkBufferDescriptor_t \<Rightarrow> dplane \<Rightarrow> dplane option" where
  "eth_release nb d = do {
     free \<leftarrow> vReleaseNetworkBufferAndDescriptor nb (free_desc d);
     Some (d \<lparr> free_desc := free \<rparr>) }"

text \<open>The event goes to the queue of the stack task, which may refuse it.  A frame too short for
  its header, one that is to be sent back and a unit for which there is no memory are kept
  by nobody.  \<open>zero\<close> is as for the cache, \<open>shim\<close> whether there is a shim.\<close>

definition prvProcessEthernetPacket ::
  "shim_env \<Rightarrow> bool \<Rightarrow> bool \<Rightarrow> NetworkBufferDescriptor_t \<Rightarrow> nat \<Rightarrow> wifi_shim \<Rightarrow> dplane
   \<Rightarrow> (eth_event option \<times> wifi_shim \<times> dplane) option" where
  "prvProcessEthernetPacket env zero shim nb n s d =
     (let release = do { d \<leftarrow> eth_release nb d; Some (None, s, d) };
          send = (\<lambda>e. if se_queue env then Some e else None)
      in if n < 14 then Some (None, s, d)
         else do {
           eth \<leftarrow> pucEthernetBuffer nb;
           if length eth < 14 then None
           else if ethertype eth = ETH_P_RINA_ARP
           then if n < 22 then release
             else do {
               (r, eth, a) \<leftarrow> eARPProcessPacket (se_mem env) zero eth (ws_arp s);
               let s = s \<lparr> ws_arp := a \<rparr>;
               (case r of
                  eReturnEthernetFrame \<Rightarrow> Some (None, s, d)
                | eFrameConsumed \<Rightarrow> Some (None, s, d)
                | eReleaseBuffer \<Rightarrow> do { d \<leftarrow> eth_release nb d; Some (None, s, d) }
                | eProcessBuffer \<Rightarrow> do {
                    (ok, s, d) \<leftarrow> prxHandleAllocateResponse (env \<lparr> se_mem := \<lambda>k. se_mem env (13 + k) \<rparr>) shim s d;
                    d \<leftarrow> eth_release nb d;
                    Some (if ok then send EthShimFlowAllocated else None, s, d) }) }
           else if ethertype eth = ETH_P_RINA
           then Some (if se_mem env 0 then send (EthStackRx \<lparr> pxPci = None, pxNetworkBuffer =
                  nb \<lparr> pucRinaBuffer := Some (drop 14 eth), xRinaDataLength := n - 14 \<rparr> \<rparr>) else None, s, d)
           else release })"

text \<open>Received messages are not linked.\<close>

definition prvHandleEthernetPacket ::
  "shim_env \<Rightarrow> bool \<Rightarrow> bool \<Rightarrow> NetworkBufferDescriptor_t \<Rightarrow> nat \<Rightarrow> wifi_shim \<Rightarrow> dplane
   \<Rightarrow> (eth_event option \<times> wifi_shim \<times> dplane) option" where
  "prvHandleEthernetPacket env zero shim nb n s d = prvProcessEthernetPacket env zero shim nb n s d"

section \<open>The shim keeps the interface of the RMT\<close>

lemma wifi_write_held:
  assumes "xShimSDUWrite env port du s free = Some (r, nb, free')"
  shows "takes (du_id du) (se_queue env) r nb free free'"
proof -
  let ?n = "xDataLength (pxNetworkBuffer du)"
  show ?thesis
  proof (cases "\<exists>x src dst. \<not> ?n > MTU \<and> prvShimFindFlowByPortId (se_mem env 0) port (ws_flows s) = Some (Some x)
      \<and> ePortIdState (ws_flows s ! x) = eALLOCATED \<and> pxDestHa (ws_flows s ! x) = Some dst
      \<and> pxCreateGHA (se_mem env 1) MAC_ADDR_802_3 (Some (ws_pxPhyDev s)) = Some (Some src)")
    case False
    then have "do { (_, f) \<leftarrow> xDuDestroy du free; Some (False, None, f) } = Some (r, nb, free')"
      using assms by (auto simp: xShimSDUWrite_def Let_def split: Option.bind_splits option.splits if_splits)
    then show ?thesis by (rule dropped_takes)
  next
    case True
    then obtain x sh dh where x: "\<not> ?n > MTU" "prvShimFindFlowByPortId (se_mem env 0) port (ws_flows s) = Some (Some x)"
        "ePortIdState (ws_flows s ! x) = eALLOCATED" "pxDestHa (ws_flows s ! x) = Some dh"
        "pxCreateGHA (se_mem env 1) MAC_ADDR_802_3 (Some (ws_pxPhyDev s)) = Some (Some sh)" by blast
    obtain new f1 where g: "pxGetNetworkBufferWithDescriptor (se_storage env) (14 + ?n) free = Some (new, f1)"
      using assms x by (auto simp: xShimSDUWrite_def Let_def split: Option.bind_splits)
    show ?thesis
    proof (cases new)
      case None
      then show ?thesis using assms x g get_buffer_held[OF g] dropped_takes[of du free] by (simp add: xShimSDUWrite_def Let_def)
    next
      case (Some b)
      obtain src dst where sd: "pucEthernetBuffer (pxNetworkBuffer du) = Some src" "pucEthernetBuffer b = Some dst"
          "\<not> (length src < ?n \<or> length dst < 14 + ?n)"
        using assms x g Some by (auto simp: xShimSDUWrite_def Let_def split: Option.bind_splits if_splits)
      define w where "w = b \<lparr> pucEthernetBuffer := Some (ucBytes dh @ ucBytes sh @ be16 ETH_P_RINA
          @ take ?n src @ drop (14 + ?n) dst), xDataLength := 14 + ?n \<rparr>"
      have w: "nb_id w = nb_id b" "do { (_, free) \<leftarrow> xDuDestroy du f1;
          if se_queue env then Some (True, Some w, free)
          else do { free \<leftarrow> vReleaseNetworkBufferAndDescriptor w free; Some (False, None, free) } } = Some (r, nb, free')"
        using assms x g sd Some unfolding w_def by (simp_all add: xShimSDUWrite_def Let_def)
      show ?thesis by (rule queued_takes[OF w(2)]) (use get_buffer_held[OF g] Some w(1) in simp)
    qed
  qed
qed

text \<open>The write as the function that the RMT calls.\<close>

definition wifi_duWrite :: "shim_env \<Rightarrow> nat \<Rightarrow> wifi_shim \<Rightarrow> u32 \<Rightarrow> du_t \<Rightarrow> NetworkBufferDescriptor_t list
    \<Rightarrow> nat list \<Rightarrow> (bool \<times> NetworkBufferDescriptor_t list \<times> nat list) option" where
  "wifi_duWrite env room sh port du tx free = do {
     (ok, nb, free) \<leftarrow> xShimSDUWrite (env \<lparr> se_queue := length tx < room \<rparr>) port du sh free;
     Some (ok, tx @ (case nb of None \<Rightarrow> [] | Some nb \<Rightarrow> [nb]), free) }"

lemma wifi_duWrite_held:
  assumes "wifi_duWrite env room sh port du tx free = Some (r, tx', free')"
  shows "held tx' free' = add_mset (du_id du) (held tx free)" "if r then length tx < room \<and> (\<exists>nb. tx' = tx @ [nb]) else tx' = tx"
proof -
  obtain nb where w: "xShimSDUWrite (env \<lparr> se_queue := length tx < room \<rparr>) port du sh free = Some (r, nb, free')"
      "tx' = tx @ (case nb of None \<Rightarrow> [] | Some nb \<Rightarrow> [nb])"
    using assms by (auto simp: wifi_duWrite_def split: Option.bind_splits)
  have "takes (du_id du) (length tx < room) r nb free free'" using wifi_write_held[OF w(1)] by simp
  from takes_held[OF this] show "held tx' free' = add_mset (du_id du) (held tx free)"
    "if r then length tx < room \<and> (\<exists>nb. tx' = tx @ [nb]) else tx' = tx" unfolding w(2) .
qed

interpretation wifi: n1_flow "wifi_duWrite env room sh" room for env room sh
  by unfold_locales (fact wifi_duWrite_held)+

end
