(* ===== verification/Stack_Props.thy ===== *)
theory Stack_Props
  imports Stack_Inv Wifi_Shim
begin

text \<open>
  Properties of the running stack: its invariant, how it comes up, what the sending path does
  with descriptors, and a unit written by an application of one node that reaches the
  application of another.
\<close>

section \<open>A unit from node to node\<close>

text \<open>A flow of the normal IPC process that can be written: it is allocated and leads to a
  connection with a remote peer over a bound port.\<close>

definition can_write :: "u32 \<Rightarrow> nat \<Rightarrow> efcp_t \<Rightarrow> dplane \<Rightarrow> bool" where
  "can_write port x e d \<longleftrightarrow> (\<exists>k. prvNormalFindFlow port d = Some k
       \<and> nf_eState (xFlowsList d ! k) = ePORT_STATE_ALLOCATED \<and> is_cep_id_ok (normalFlow_t.xActive (xFlowsList d ! k))
       \<and> pxEfcpImapFind (normalFlow_t.xActive (xFlowsList d ! k)) (xEfcpImapTable d) = (Some x, xEfcpImapTable d))
     \<and> efcp_at x d = Some e \<and> x < length (xEfcpImapTable d) \<and> efcp_xState e = eEfcpAllocated
     \<and> conn_remote (pxConnection e) \<and> rmt_pxN1Port d = N1Table \<and> xPortIdTable0 d \<noteq> None"

definition env_well :: "stack_env \<Rightarrow> bool" where
  "env_well env \<longleftrightarrow> (\<forall>k. storage (nv_dp (sk_nv env)) k \<and> se_mem (sk_sh env) k \<and> se_storage (sk_sh env) k \<and> sk_mem env k)"

text \<open>The header of the next unit of a connection.\<close>

definition next_header :: "efcp_t \<Rightarrow> nat \<Rightarrow> pci_t" where
  "next_header e n = dt_header (pxConnection e) (next_seq (pxDtpStateVector e)) (n + 14)"

lemma flow_of_port:
  assumes "flow_bound sh d" "xPortIdTable0 d = Some p"
  shows "prvShimFindFlowByPortId True (n1_xPortId p) (xShimFlowsList sh) = Some (Some 0)"
    "ePortIdState (xShimFlowsList sh ! 0) = eALLOCATED"
  using assms by (auto simp: flow_bound_def prvShimFindFlowByPortId_def)

text \<open>The sender: the event of the application, then that of the network.\<close>

lemma normal_write_frame:
  assumes "can_write port x e d" "flow_bound sh d" "dp_inv d" "net_tx d = []" "0 < room"
    and w: "\<And>k. se_mem senv k" "\<And>k. se_storage senv k" "\<And>k. storage env k"
    and du: "pucEthernetBuffer nb = Some bs" "xDataLength nb = length bs" "length bs \<le> 104"
    and pool: "free_desc d = i # rest" "distinct (nb_id nb # i # rest)"
  obtains d' tx z where
    "xNormalDuWrite (env \<lparr> duWrite := stack_duWrite senv room sh \<rparr>) port nb d = Some (True, d')"
    "net_tx d' = [tx]" "free_desc d' = i # rest" "efcp_at x d' = Some (sv_update next_seq e)" "nb_id tx = nb_id nb"
    "pucEthernetBuffer tx = Some (word_of_nat (length bs + 23) # data_header
       @ butlast (pci_bytes (next_header e (length bs)) @ bs) @ 0 # z)"
    "xDataLength tx = length bs + 23"
proof -
  let ?env = "env \<lparr> duWrite := stack_duWrite senv room sh \<rparr>"
  let ?du = "\<lparr> pxPci = None, pxNetworkBuffer = nb \<rparr>"
  let ?h = "pci_bytes (next_header e (length bs))"
  obtain k where k: "prvNormalFindFlow port d = Some k" "nf_eState (xFlowsList d ! k) = ePORT_STATE_ALLOCATED"
      "pxEfcpImapFind (normalFlow_t.xActive (xFlowsList d ! k)) (xEfcpImapTable d) = (Some x, xEfcpImapTable d)"
      "is_cep_id_ok (normalFlow_t.xActive (xFlowsList d ! k))"
    and e: "efcp_at x d = Some e" "x < length (xEfcpImapTable d)" "efcp_xState e = eEfcpAllocated"
      "conn_remote (pxConnection e)" and n1: "rmt_pxN1Port d = N1Table"
    using assms(1) by (auto simp: can_write_def)
  obtain p where p: "xPortIdTable0 d = Some p" using assms(1) by (auto simp: can_write_def)
  have idle: "port_idle p" using assms(3) p by (simp add: dp_inv_def port_wf_def)
  have b: "pucEthernetBuffer (pxNetworkBuffer ?du) = Some bs" "xDataLength (pxNetworkBuffer ?du) = length bs"
    "length bs < 2 ^ 32 - 64" "du_id ?du \<notin> set rest" "du_id ?du = nb_id nb" "storage ?env m" for m
    using du pool(2) w(3) by (simp_all add: du_id_def)
  obtain u t pad where u: "pxPci u = Some (dt_header (pxConnection e) (next_seq (pxDtpStateVector e)) (length bs + 14))"
      "pucEthernetBuffer (pxNetworkBuffer u) = Some
        (pci_bytes (dt_header (pxConnection e) (next_seq (pxDtpStateVector e)) (length bs + 14)) @ bs @ pad)"
      "xDataLength (pxNetworkBuffer u) = length bs + 14" "du_id u = i"
    and t: "efcp_at x t = Some (sv_update next_seq e)"
    and "t = d \<lparr> xEfcpImapTable := xEfcpImapTable t, free_desc := du_id ?du # rest \<rparr>"
    and wr: "xEfcpContainerWrite ?env (normalFlow_t.xActive (xFlowsList d ! k)) ?du d = do {
       (ret, tx, free) \<leftarrow> duWrite ?env (n1_xPortId p) u (net_tx d) (du_id ?du # rest);
       Some (True, t \<lparr> free_desc := free, net_tx := tx, xPortIdTable0 := Some (port_sent ret p) \<rparr>) }"
    by (rule efcp_write_unit[OF k(3,4) e b(1-3) pool(1) b(6) b(4) n1 p idle])
  let ?senv = "senv \<lparr> se_queue := True \<rparr>"
  have f: "prvShimFindFlowByPortId (se_mem ?senv 0) (n1_xPortId p) (xShimFlowsList sh) = Some (Some 0)"
    "ePortIdState (xShimFlowsList sh ! 0) = eALLOCATED" "se_queue ?senv" "se_storage ?senv m" for m
    using flow_of_port[OF assms(2) p] w by simp_all
  have ub: "pucEthernetBuffer (pxNetworkBuffer u) = Some ((?h @ bs) @ pad)"
    "xDataLength (pxNetworkBuffer u) = length (?h @ bs)" "?h @ bs \<noteq> []" "length (?h @ bs) \<le> ieee802154_MTU"
    using u(2,3) du(3) arg_cong[of "?h @ bs" "[]" length] by (auto simp: next_header_def ieee802154_MTU_def)
  have "du_id u \<notin> set rest" using u(4) pool(2) by simp
  from sdu_write_frame[OF f(1,2,3) f(4) ub refl this] obtain tx z where
    tx: "xShimIEEE802154SDUWrite ?senv (n1_xPortId p) u sh (nb_id nb # rest) = Some (True, Some tx, i # rest)"
      "pucEthernetBuffer tx = Some (word_of_nat (length (?h @ bs) + 9) # data_header @ butlast (?h @ bs) @ 0 # z)"
      "xDataLength tx = length (?h @ bs) + 9" "nb_id tx = nb_id nb"
    unfolding u(4) by blast
  have l: "length (?h @ bs) + 9 = length bs + 23" by simp
  let ?d = "t \<lparr> free_desc := i # rest, net_tx := [tx], xPortIdTable0 := Some (port_sent True p) \<rparr>"
  have "xEfcpContainerWrite ?env (normalFlow_t.xActive (xFlowsList d ! k)) ?du d = Some (True, ?d)"
    using wr tx(1) assms(4,5) by (simp add: stack_duWrite_def b(5))
  then have "xNormalDuWrite ?env port nb d = Some (True, ?d)"
    using k(1,2) by (simp add: xNormalDuWrite_def)
  moreover have "efcp_at x ?d = Some (sv_update next_seq e)" using t by (simp add: efcp_at_def)
  ultimately show ?thesis
    using that[of ?d tx z] tx(2-4) unfolding l by simp
qed

lemma prvIpcpTask_step:
  assumes "mq_msgs (st_queue s) = e # es"
    and "stack_event env e (s \<lparr> st_queue := (st_queue s) \<lparr> mq_msgs := es \<rparr> \<rparr>) = Some s1" "stack_drain env s1 = Some s2"
  shows "prvIpcpTask env s = Some (stack_flush s2)"
  using assms by (simp add: prvIpcpTask_def)

lemma stack_sends:
  assumes inv: "stack_inv a" and q: "mq_msgs (st_queue a) = [ApiEvent (NodeEvent (StackTx port nb))]"
    and c: "can_write port x e (st_dp a)" and env: "env_well env"
    and du: "pucEthernetBuffer nb = Some bs" "xDataLength nb = length bs" "length bs \<le> 104"
    and pool: "free_desc (st_dp a) = i # rest" "distinct (nb_id nb # i # rest)"
    and up: "xInterfaceState (sh_nic (st_shim a))"
  obtains a1 a2 z where "prvIpcpTask env a = Some a1" "prvIpcpTask env a1 = Some a2"
    "st_air a2 = st_air a @ [word_of_nat (length bs + 23) # data_header
       @ butlast (pci_bytes (next_header e (length bs)) @ bs) @ 0 # z]"
    "free_desc (st_dp a2) = nb_id nb # i # rest" "efcp_at x (st_dp a2) = Some (sv_update next_seq e)"
    "mq_msgs (st_queue a2) = []"
proof -
  have i: "flow_bound (st_shim a) (st_dp a)" "dp_inv (st_dp a)" "net_tx (st_dp a) = []" "sent (st_node a) = []"
    "mq_maxmsg (st_queue a) = 10"
    using inv by (simp_all add: stack_inv_def node_inv_def queue_ok_def IPCP_QUEUE_def)
  have w: "se_mem (sk_sh env) k" "se_storage (sk_sh env) k" "storage (nv_dp (sk_nv env)) k" for k
    using env by (simp_all add: env_well_def)
  obtain d' tx z where d': "xNormalDuWrite ((nv_dp (sk_nv env)) \<lparr> duWrite := stack_duWrite (sk_sh env) 10 (st_shim a) \<rparr>)
        port nb (st_dp a) = Some (True, d')"
    "net_tx d' = [tx]" "free_desc d' = i # rest" "efcp_at x d' = Some (sv_update next_seq e)" "nb_id tx = nb_id nb"
    "pucEthernetBuffer tx = Some (word_of_nat (length bs + 23) # data_header
       @ butlast (pci_bytes (next_header e (length bs)) @ bs) @ 0 # z)"
    "xDataLength tx = length bs + 23"
    by (rule normal_write_frame[OF c i(1-3) _ w du pool, of 10]) simp
  let ?f = "word_of_nat (length bs + 23) # data_header @ butlast (pci_bytes (next_header e (length bs)) @ bs) @ 0 # z"
  define a1 where "a1 = stack_flush (put_node ((st_node a) \<lparr> nd_dp := d', sent := [] \<rparr>)
    (a \<lparr> st_queue := (st_queue a) \<lparr> mq_msgs := [] \<rparr> \<rparr>))"
  define a2 where "a2 = put_free (nb_id nb # i # rest) (a1 \<lparr> st_queue := (st_queue a1) \<lparr> mq_msgs := [] \<rparr>,
    st_air := st_air a @ [?f] \<rparr>)"
  have d1: "st_dp a1 = d' \<lparr> net_tx := [] \<rparr>" "mq_msgs (st_queue a1) = [eNetworkTxEvent tx]" "st_shim a1 = st_shim a"
    "st_air a1 = st_air a" "sent (st_node a1) = []"
    using d'(2) i(4) by (simp_all add: a1_def stack_flush_def put_node_def)
  have n: "nv_dp (stack_nenv env 10 (st_shim a)) = (nv_dp (sk_nv env)) \<lparr> duWrite := stack_duWrite (sk_sh env) 10 (st_shim a) \<rparr>"
    by (simp add: stack_nenv_def)
  have "prvIpcpTask env a = Some a1"
    using d'(1) i(4,5) q
    by (simp add: prvIpcpTask_def node_event_def lift_dp_def queue_room_def n stack_drain_def a1_def put_node_def)
  moreover have "xIeee802154NetworkInterfaceOutput (Some tx) True (sh_nic (st_shim a)) (i # rest)
      = Some (True, Some ?f, nb_id nb # i # rest)"
    using frame_output[OF d'(6,7) _ _ _ up] pool(2) d'(5) du(3) by simp
  then have "prvIpcpTask env a1 = Some a2"
    using d1 d'(3)
    by (simp add: prvIpcpTask_def stack_drain_def a2_def stack_flush_def put_free_def put_node_def)
  moreover have "efcp_at x (st_dp a2) = Some (sv_update next_seq e)"
    using d'(4) d1(1) by (simp add: a2_def put_free_def put_node_def efcp_at_def)
  ultimately show ?thesis
    by (intro that[of a1 a2 z]) (simp_all add: a2_def put_free_def put_node_def)
qed

text \<open>The receiver: the interrupt, the receiving task and the event.\<close>

lemma stack_receives:
  assumes inv: "stack_inv b" and q: "mq_msgs (st_queue b) = []" and env: "env_well env" and radio: "radio_delivers radio"
    and d: "u = pci_bytes h @ bs" "2 \<le> length bs" "length bs \<le> 104"
    and rcv: "free_desc (st_dp b) = j # k # rest" "j \<notin> set (k # rest)"
      "short_address (sh_nic (st_shim b)) = ieee802154_SHORT_ADDRESS_DESTINATION"
      "pxIpcManagerActiveNormalInstance (st_instances b) \<noteq> None" "xPortIdTable0 (st_dp b) \<noteq> None"
    and up: "dt_for_us h" "efcp_for h (st_dp b) = Some x" "efcp_at x (st_dp b) = Some e" "efcp_xState e = eEfcpAllocated"
      "flow_ready (cn_xPortId (pxConnection e)) (st_dp b)" "fst (dtp_accept (pxDtpStateVector e) h)"
  obtains b1 b2 b3 m cs where
    "stack_radio (Some (radio (word_of_nat (length bs + 23) # data_header @ butlast u @ 0 # z))) b = Some b1"
    "stack_rx_task env b1 = Some b2" "prvIpcpTask env b2 = Some b3"
    "waiting (st_dp b3) = insert_second m (waiting (st_dp b))" "pucDataBuffer m = Some cs" "xDataLength m = length bs"
    "take (length bs - 2) cs = take (length bs - 2) bs" "length bs \<le> length cs" "free_desc (st_dp b3) = rest"
proof -
  have i: "net_tx (st_dp b) = []" "sent (st_node b) = []" "mq_maxmsg (st_queue b) = 10"
    using inv by (simp_all add: stack_inv_def queue_ok_def IPCP_QUEUE_def)
  have lu: "length u = length bs + 14" "u \<noteq> []" "length u \<le> 118" "length u + 9 = length bs + 23"
    using d arg_cong[of u "[]" length] by auto
  have mem: "sk_mem env n" "storage (nv_dp (sk_nv env)) n" for n using env by (simp_all add: env_well_def)
  obtain us ifc3 nb where
    r: "esp_ieee802154_receive_done (Some (radio (word_of_nat (length u + 9) # data_header @ butlast u @ 0 # z)))
         (sh_nic (st_shim b)) = Some ifc3"
      "vShimRxTask (sk_mem env) True (j # k # rest) ifc3 = Some (Some (nb, length u + 9), k # rest, ifc3 \<lparr> rx_notified := 0 \<rparr>)"
    and id: "nb_id nb = j"
    and us: "take (length u - 2) us = take (length u - 2) u" "length u \<le> length us"
    and sh: "short_address ifc3 = short_address (sh_nic (st_shim b))"
    and proc: "\<forall>nv ifc nd. xProcessIEEE802154Packet nv True True ifc nb (length u + 9) nd =
        (if short_address ifc = ieee802154_SHORT_ADDRESS_DESTINATION
         then do { (r, nd) \<leftarrow> xNormalDuEnqueue nv 1 \<lparr> pxPci = None, pxNetworkBuffer =
                     nb \<lparr> pucRinaBuffer := Some us, xRinaDataLength := length u \<rparr> \<rparr> nd;
                   if \<not> r then frame_release False nb nd else Some (True, nd) }
         else frame_release False nb nd)"
    by (rule frame_input[OF radio lu(2,3) refl mem(1), where z = z and ?ifc2.0 = "sh_nic (st_shim b)"])
  define cs where "cs = drop 14 us"
  have "14 \<le> length u - 2" using lu(1) d(2) by simp
  then have h: "us = pci_bytes h @ cs"
    using arg_cong[OF us(1), of "take 14"] us(2) lu(1) d(1)
    by (metis append_take_drop_id append_eq_conv_conj cs_def length_pci_bytes take_take min_absorb1)
  have "length u - 2 - 14 = length bs - 2" using lu(1) by simp
  moreover have "drop 14 us = cs" "drop 14 u = bs" by (simp_all add: cs_def d(1))
  ultimately have cs: "take (length bs - 2) cs = take (length bs - 2) bs"
    using arg_cong[OF us(1), of "drop 14"] unfolding drop_take by simp
  have lc: "length bs \<le> length cs" using us(2) lu(1) by (simp add: cs_def)
  define b1 where "b1 = b \<lparr> st_shim := (st_shim b) \<lparr> sh_nic := ifc3 \<rparr> \<rparr>"
  define b2 where "b2 = put_free (k # rest) (b1 \<lparr> st_shim := (st_shim b1) \<lparr> sh_nic := ifc3 \<lparr> rx_notified := 0 \<rparr> \<rparr>,
       st_queue := (st_queue b) \<lparr> mq_msgs := [eNetworkRxEvent nb (length u + 9)] \<rparr> \<rparr>)"
  have b1: "stack_radio (Some (radio (word_of_nat (length bs + 23) # data_header @ butlast u @ 0 # z))) b = Some b1"
    using r(1) lu(4) by (simp add: stack_radio_def b1_def)
  have "queue_room b1 = 10" using q i(3) by (simp add: queue_room_def b1_def)
  moreover have "ap_ready (st_api b)" using inv rcv(5) by (auto simp: stack_inv_def)
  ultimately have b2: "stack_rx_task env b1 = Some b2"
    using r(2) rcv(1) q by (simp add: stack_rx_task_def b2_def b1_def)
  let ?du = "\<lparr> pxPci = None, pxNetworkBuffer = nb \<lparr> pucRinaBuffer := Some us, xRinaDataLength := length u \<rparr> \<rparr>"
  let ?s = "b2 \<lparr> st_queue := (st_queue b2) \<lparr> mq_msgs := [] \<rparr> \<rparr>"
  let ?nv = "stack_nenv env (queue_room ?s) (st_shim ?s)"
  have nd: "st_node b2 = (st_node b) \<lparr> nd_dp := (st_dp b) \<lparr> free_desc := k # rest \<rparr> \<rparr>"
    by (simp add: b2_def b1_def put_free_def put_node_def)
  have "dt_arrives ?nv ?du h cs (nd_dp (st_node ?s))"
    using h up(1) rcv(5) mem(2) by (simp add: dt_arrives_def nd stack_nenv_def)
  moreover have "efcp_for h (nd_dp (st_node ?s)) = Some x" "efcp_at x (nd_dp (st_node ?s)) = Some e"
    "flow_ready (cn_xPortId (pxConnection e)) (nd_dp (st_node ?s))" "du_id ?du \<notin> set (free_desc (nd_dp (st_node ?s)))"
    using up(2,3,5) rcv(2) flow_ready_cong[of "st_dp b \<lparr> free_desc := k # rest \<rparr>" "st_dp b"]
    by (simp_all add: nd efcp_for_def efcp_at_def du_id_def id)
  ultimately obtain dd where dd: "xNormalDuEnqueue ?nv 1 ?du (st_node ?s) = Some (True, (st_node ?s) \<lparr> nd_dp := dd \<rparr>)"
    "waiting dd = insert_second (pxNetworkBuffer (rx_unit ?du h cs)) (waiting (nd_dp (st_node ?s)))"
    "free_desc dd = tl (free_desc (nd_dp (st_node ?s)))"
    using rx_posted[of ?nv ?du h cs "st_node ?s" x e] up(4,6) by metis
  have "xProcessIEEE802154Packet ?nv True True (sh_nic (st_shim ?s)) nb (length u + 9) (st_node ?s)
      = Some (True, (st_node ?s) \<lparr> nd_dp := dd \<rparr>)"
    using proc dd(1) sh rcv(3) by (simp add: b2_def b1_def)
  then have pr: "xProcessIEEE802154Packet ?nv (sk_mem env 0) (pxIpcManagerActiveNormalInstance (st_instances ?s) \<noteq> None)
      (sh_nic (st_shim ?s)) nb (length u + 9) (st_node ?s) = Some (True, (st_node ?s) \<lparr> nd_dp := dd \<rparr>)"
    using mem(1) rcv(4) by (simp add: st_instances_def b2_def b1_def put_free_def put_node_def)
  note nt = process_packet_inv[OF _ pr]
  have "node_inv (st_node ?s)" using inv nd node_inv_free by (simp add: stack_inv_def)
  from nt[OF this] have nt: "net_tx dd = []" using i(1) by (simp add: below_def nd)
  have ms: "mq_msgs (st_queue b2) = [eNetworkRxEvent nb (length u + 9)]" by (simp add: b2_def)
  define b3 where "b3 = stack_flush (put_node ((st_node ?s) \<lparr> nd_dp := dd \<rparr>) ?s)"
  have "sent (st_node b) = []" by (rule i(2))
  then have "stack_drain env (put_node ((st_node ?s) \<lparr> nd_dp := dd \<rparr>) ?s) = Some (put_node ((st_node ?s) \<lparr> nd_dp := dd \<rparr>) ?s)"
    by (simp add: stack_drain_def nd put_node_def)
  moreover have "stack_event env (eNetworkRxEvent nb (length u + 9)) ?s = Some (put_node ((st_node ?s) \<lparr> nd_dp := dd \<rparr>) ?s)"
    unfolding stack_event.simps pr by simp
  ultimately have b3: "prvIpcpTask env b2 = Some b3"
    unfolding b3_def by (intro prvIpcpTask_step[OF ms])
  show ?thesis
  proof (rule that[OF b1 b2 b3])
    show "waiting (st_dp b3) = insert_second (pxNetworkBuffer (rx_unit ?du h cs)) (waiting (st_dp b))"
      using dd(2) nd by (simp add: b3_def stack_flush_def put_node_def waiting_def)
    show "pucDataBuffer (pxNetworkBuffer (rx_unit ?du h cs)) = Some cs"
      "xDataLength (pxNetworkBuffer (rx_unit ?du h cs)) = length bs"
      using lu(1) d(3) by (simp_all add: rx_unit_def)
    show "free_desc (st_dp b3) = rest"
      using dd(3) nd by (simp add: b3_def stack_flush_def put_node_def)
  qed (fact cs lc)+
qed

text \<open>C1: What an application of one node writes reaches an application of another, over the
  whole stack, if the radio delivers frames but for their last two bytes.  On the writing
  node the event of the application and the event of the network that follows put one frame
  on the air, the connection's sequence number has advanced by one and all descriptors are
  free again.  On the reading node the interrupt, the receiving task and the event of the
  frame add one packet to those that wait for the flow: as long as what was written, with
  the same bytes but for the last two, of which the shim loses one and the checksum takes
  the other.  Two descriptors are gone, one of which nobody holds.\<close>

theorem data_crosses:
  assumes a: "stack_inv a" "mq_msgs (st_queue a) = [ApiEvent (NodeEvent (StackTx port nb))]" "can_write port x e (st_dp a)"
      "free_desc (st_dp a) = i # resta" "distinct (nb_id nb # i # resta)" "xInterfaceState (sh_nic (st_shim a))"
    and nb: "pucEthernetBuffer nb = Some bs" "xDataLength nb = length bs" "2 \<le> length bs" "length bs \<le> 104"
    and env: "env_well enva" "env_well envb" "radio_delivers radio"
    and b: "stack_inv b" "mq_msgs (st_queue b) = []" "free_desc (st_dp b) = j # k # restb" "j \<notin> set (k # restb)"
      "short_address (sh_nic (st_shim b)) = ieee802154_SHORT_ADDRESS_DESTINATION"
      "pxIpcManagerActiveNormalInstance (st_instances b) \<noteq> None" "xPortIdTable0 (st_dp b) \<noteq> None"
    and up: "dt_for_us (next_header e (length bs))" "efcp_for (next_header e (length bs)) (st_dp b) = Some y"
      "efcp_at y (st_dp b) = Some e'" "efcp_xState e' = eEfcpAllocated"
      "flow_ready (cn_xPortId (pxConnection e')) (st_dp b)"
      "fst (dtp_accept (pxDtpStateVector e') (next_header e (length bs)))"
  shows "\<exists>a1 a2 f b1 b2 b3 m cs. prvIpcpTask enva a = Some a1 \<and> prvIpcpTask enva a1 = Some a2
    \<and> st_air a2 = st_air a @ [f] \<and> free_desc (st_dp a2) = nb_id nb # i # resta
    \<and> efcp_at x (st_dp a2) = Some (sv_update next_seq e)
    \<and> stack_radio (Some (radio f)) b = Some b1 \<and> stack_rx_task envb b1 = Some b2 \<and> prvIpcpTask envb b2 = Some b3
    \<and> waiting (st_dp b3) = insert_second m (waiting (st_dp b)) \<and> free_desc (st_dp b3) = restb
    \<and> pucDataBuffer m = Some cs \<and> xDataLength m = length bs \<and> length bs \<le> length cs
    \<and> take (length bs - 2) cs = take (length bs - 2) bs"
proof -
  obtain a1 a2 z where A: "prvIpcpTask enva a = Some a1" "prvIpcpTask enva a1 = Some a2"
    "st_air a2 = st_air a @ [word_of_nat (length bs + 23) # data_header
       @ butlast (pci_bytes (next_header e (length bs)) @ bs) @ 0 # z]"
    "free_desc (st_dp a2) = nb_id nb # i # resta" "efcp_at x (st_dp a2) = Some (sv_update next_seq e)"
    "mq_msgs (st_queue a2) = []"
    by (rule stack_sends[OF a(1-3) env(1) nb(1,2,4) a(4-6)])
  obtain b1 b2 b3 m cs where B:
    "stack_radio (Some (radio (word_of_nat (length bs + 23) # data_header
       @ butlast (pci_bytes (next_header e (length bs)) @ bs) @ 0 # z))) b = Some b1"
    "stack_rx_task envb b1 = Some b2" "prvIpcpTask envb b2 = Some b3"
    "waiting (st_dp b3) = insert_second m (waiting (st_dp b))" "pucDataBuffer m = Some cs" "xDataLength m = length bs"
    "take (length bs - 2) cs = take (length bs - 2) bs" "length bs \<le> length cs" "free_desc (st_dp b3) = restb"
    by (rule stack_receives[OF b(1,2) env(2,3) refl nb(3,4) b(3-7) up])
  show ?thesis
    by (rule exI[of _ a1], rule exI[of _ a2], rule exI, rule exI[of _ b1], rule exI[of _ b2], rule exI[of _ b3],
        rule exI[of _ m], rule exI[of _ cs], intro conjI) (fact A(1,2,3,4,5) B(1,2,3,4,9,5,6,8,7))+
qed

section \<open>Examples\<close>

definition ex_stack_dp :: "u8 \<Rightarrow> u8 \<Rightarrow> nat list \<Rightarrow> dplane" where
  "ex_stack_dp src dst free = \<lparr> free_desc = free, xEfcpImapTable = snd (xEfcpImapAdd 1
       (ex_efcp \<lparr> pxConnection := (pxConnection ex_efcp) \<lparr> xSourceAddress := src, xDestinationAddress := dst \<rparr> \<rparr>) xEfcpImapCreate),
     xFlowRequestTable = \<lparr> fr_xValid = True, pxFAI = Some ex_fai \<rparr> # replicate 4 \<lparr> fr_xValid = False, pxFAI = None \<rparr>,
     xPortIdTable0 = Some (pxRmtN1PortCreate 1), rmt_pxN1Port = N1Table, xAddresses = [],
     xFlowsList = [\<lparr> nf_xPortId = 33, nf_eState = ePORT_STATE_ALLOCATED, xActive = 1 \<rparr>], net_tx = [] \<rparr>"

definition ex_stack :: "dplane \<Rightarrow> RINAStackEvent_t list \<Rightarrow> stack" where
  "ex_stack d q = \<lparr> st_api = \<lparr> ap_node = ex_node d, ap_queue = \<lparr> mq_msgs = [], mq_maxmsg = 0 \<rparr>, ap_ready = True,
       ap_manager = ex_instances, ap_bits = (\<lambda>_. 0) \<rparr>,
     st_shim = (ex_shim [ex_flow]) \<lparr> pxAppName := Some destinationInfo, sh_nic := ex_up \<rparr>,
     st_queue = \<lparr> mq_msgs = q, mq_maxmsg = 10 \<rparr>, st_air = [], xN1PortId = 1 \<rparr>"

definition ex_senv_stack :: stack_env where
  "ex_senv_stack = \<lparr> sk_nv = ex_nenv, sk_sh = ex_senv, sk_enrollee = False, sk_name = Some destinationInfo,
     sk_dif = Some destinationInfo, sk_mem = (\<lambda>_. True),
     sk_clk = Some \<lparr> tv_sec = 1, tv_nsec = 0 \<rparr>, sk_started = True \<rparr>"

lemma ex_stack_dp_inv: "dp_inv (ex_stack_dp src dst free)"
  by (auto simp: dp_inv_def ex_stack_dp_def imap_wf_def xEfcpImapAdd_def xEfcpImapCreate_def EFCP_IMAP_ENTRIES_def
      numeral_3_eq_3 efcp_ok_def ex_efcp_def flows_wf_def FLOWS_REQUEST_def port_wf_def port_idle_def
      pxRmtN1PortCreate_def nth_Cons' less_Suc_eq)

lemma ex_stack_inv:
  assumes "length q \<le> 10" "\<forall>e\<in>set q. ev_ok e"
  shows "stack_inv (ex_stack (ex_stack_dp src dst free) q)"
proof -
  have "node_inv (ex_node (ex_stack_dp src dst free))"
    using boot_inv[of ex_nenv] ex_stack_dp_inv[of src dst free] node_inv_dp[of "node_boot ex_nenv" "ex_stack_dp src dst free"]
    by (simp add: node_boot_def ex_node_def mgmt.defs)
  moreover have "sent (ex_node (ex_stack_dp src dst free)) = []" by (simp add: ex_node_def mgmt.defs mgmt_boot_def)
  moreover have "flow_bound ((ex_shim [ex_flow]) \<lparr> pxAppName := Some destinationInfo, sh_nic := ex_up \<rparr>) (ex_stack_dp src dst free)"
    by (simp add: flow_bound_def ex_shim_def ex_flow_def ex_stack_dp_def pxRmtN1PortCreate_def)
  ultimately show ?thesis
    using assms by (simp add: stack_inv_def ex_stack_def queue_ok_def IPCP_QUEUE_def ex_stack_dp_def)
qed

lemma ex_stack_endpoint:
  defines "e \<equiv> ex_efcp \<lparr> pxConnection := (pxConnection ex_efcp) \<lparr> xSourceAddress := 3, xDestinationAddress := 1 \<rparr> \<rparr>"
  shows "can_write 33 0 e (ex_stack_dp 3 1 free)" "dt_for_us (next_header e n)"
    "efcp_for (next_header e n) (ex_stack_dp 3 1 free) = Some 0" "efcp_at 0 (ex_stack_dp 3 1 free) = Some e"
    "efcp_xState e = eEfcpAllocated" "flow_ready (cn_xPortId (pxConnection e)) (ex_stack_dp 3 1 free)"
    "fst (dtp_accept (pxDtpStateVector e) (next_header e n))"
proof -
  have t: "xEfcpImapTable (ex_stack_dp 3 1 free) = [\<lparr> xCepIdKey = 1, xEfcpValue = Some e, ucValid = 1 \<rparr>,
      \<lparr> xCepIdKey = 0, xEfcpValue = None, ucValid = 0 \<rparr>, \<lparr> xCepIdKey = 0, xEfcpValue = None, ucValid = 0 \<rparr>]"
    by (simp add: ex_stack_dp_def e_def xEfcpImapAdd_def xEfcpImapCreate_def EFCP_IMAP_ENTRIES_def numeral_3_eq_3)
  have e: "pxConnection e = \<lparr> cn_xPortId = 33, xSourceAddress = 3, xDestinationAddress = 1, xSourceCepId = 1,
      xDestinationCepId = 1, cn_xQosId = 1 \<rparr>" "pxDtpStateVector e = pxDtpStateVectorInit" "\<not> efcp_freed e"
    by (simp_all add: e_def ex_efcp_def)
  show s: "efcp_xState e = eEfcpAllocated" by (simp add: e_def ex_efcp_def)
  show at: "efcp_at 0 (ex_stack_dp 3 1 free) = Some e" using e(3) by (simp add: efcp_at_value t)
  have f: "xFlowsList (ex_stack_dp 3 1 free) = [\<lparr> nf_xPortId = 33, nf_eState = ePORT_STATE_ALLOCATED, xActive = 1 \<rparr>]"
    "rmt_pxN1Port (ex_stack_dp 3 1 free) = N1Table" "xPortIdTable0 (ex_stack_dp 3 1 free) = Some (pxRmtN1PortCreate 1)"
    by (simp_all add: ex_stack_dp_def)
  show "can_write 33 0 e (ex_stack_dp 3 1 free)"
    using at s by (simp add: can_write_def f t prvNormalFindFlow_def is_cep_id_ok_def pxEfcpImapFind_def conn_remote_def e(1))
  show "dt_for_us (next_header e n)" "efcp_for (next_header e n) (ex_stack_dp 3 1 free) = Some 0"
    by (simp_all add: dt_for_us_def next_header_def dt_header_def e(1) LOCAL_ADDRESS_8_def is_qos_id_ok_def
        is_cep_id_ok_def efcp_for_def t)
  show "flow_ready (cn_xPortId (pxConnection e)) (ex_stack_dp 3 1 free)"
    by (simp add: flow_ready_def ex_stack_dp_def ex_fai_def is_port_id_ok_def e(1))
  show "fst (dtp_accept (pxDtpStateVector e) (next_header e n))"
    by (simp add: dtp_accept_def next_header_def dt_header_def e(2) pxDtpStateVectorInit_def next_seq_def
        PDU_FLAGS_DATA_RUN_def)
qed

theorem data_crosses_witness:
  "\<exists>a1 a2 f b1 b2 b3 m cs.
     prvIpcpTask ex_senv_stack (ex_stack (ex_stack_dp 3 1 [0])
       [ApiEvent (NodeEvent (StackTx 33 (ex_nb 4 (Some [10, 11, 12]) None 0 3)))]) = Some a1
    \<and> prvIpcpTask ex_senv_stack a1 = Some a2 \<and> st_air a2 = [f]
    \<and> stack_radio (Some (ex_radio f)) (ex_stack (ex_stack_dp 3 1 [0, 1]) []) = Some b1
    \<and> stack_rx_task ex_senv_stack b1 = Some b2 \<and> prvIpcpTask ex_senv_stack b2 = Some b3
    \<and> waiting (st_dp b3) = [m] \<and> pucDataBuffer m = Some cs \<and> take 1 cs = [10]"
proof -
  let ?nb = "ex_nb 4 (Some [10, 11, 12]) None 0 3"
  let ?q = "[ApiEvent (NodeEvent (StackTx 33 ?nb))]"
  let ?e = "ex_efcp \<lparr> pxConnection := (pxConnection ex_efcp) \<lparr> xSourceAddress := 3, xDestinationAddress := 1 \<rparr> \<rparr>"
  have st: "st_dp (ex_stack d q) = d" "mq_msgs (st_queue (ex_stack d q)) = q" "sh_nic (st_shim (ex_stack d q)) = ex_up"
    "st_instances (ex_stack d q) = xInstanceTable ex_instances" "st_air (ex_stack d q) = []" for d q
    by (simp_all add: ex_stack_def st_instances_def)
  have env: "env_well ex_senv_stack"
    by (simp add: env_well_def ex_senv_stack_def ex_senv_def ex_nenv_def ex_env_def)
  have n: "pxIpcManagerActiveNormalInstance (xInstanceTable ex_instances) \<noteq> None"
    by (simp add: pxIpcManagerActiveNormalInstance_def pxIpcManagerFindInstanceByType_def ex_instances_def)
  have u: "xInterfaceState ex_up" "short_address ex_up = ieee802154_SHORT_ADDRESS_DESTINATION"
    by (simp_all add: ex_up_def ieee802154_SHORT_ADDRESS_DESTINATION_def)
  have inv: "stack_inv (ex_stack (ex_stack_dp 3 1 free) q)" if "q = ?q \<or> q = []" for free q
    using that by (intro ex_stack_inv) auto
  have d: "free_desc (ex_stack_dp 3 1 free) = free" "xPortIdTable0 (ex_stack_dp 3 1 free) \<noteq> None"
    "waiting (ex_stack_dp 3 1 free) = []" for free
    by (simp_all add: ex_stack_dp_def waiting_def ex_fai_def)
  have nb: "pucEthernetBuffer ?nb = Some [10, 11, 12]" "xDataLength ?nb = length [10::u8, 11, 12]" "nb_id ?nb = 4"
    by (simp_all add: ex_nb_def)
  note ep = ex_stack_endpoint
  have 1: "can_write 33 0 ?e (st_dp (ex_stack (ex_stack_dp 3 1 [0]) ?q))"
    "free_desc (st_dp (ex_stack (ex_stack_dp 3 1 [0]) ?q)) = 0 # []" "distinct (nb_id ?nb # 0 # [])"
    "xInterfaceState (sh_nic (st_shim (ex_stack (ex_stack_dp 3 1 [0]) ?q)))"
    using ep(1) d(1) u(1) by (simp_all only: st) (simp_all add: nb(3))
  have 2: "free_desc (st_dp (ex_stack (ex_stack_dp 3 1 [0, 1]) [])) = 0 # 1 # []" "0 \<notin> set [1::nat]"
    "short_address (sh_nic (st_shim (ex_stack (ex_stack_dp 3 1 [0, 1]) []))) = ieee802154_SHORT_ADDRESS_DESTINATION"
    "pxIpcManagerActiveNormalInstance (st_instances (ex_stack (ex_stack_dp 3 1 [0, 1]) [])) \<noteq> None"
    "xPortIdTable0 (st_dp (ex_stack (ex_stack_dp 3 1 [0, 1]) [])) \<noteq> None"
    using d u(2) n by (simp_all only: st) simp_all
  have l: "2 \<le> length [10::u8, 11, 12]" "length [10::u8, 11, 12] \<le> 104" by simp_all
  have up: "dt_for_us (next_header ?e (length [10::u8, 11, 12]))"
    "efcp_for (next_header ?e (length [10::u8, 11, 12])) (st_dp (ex_stack (ex_stack_dp 3 1 [0, 1]) [])) = Some 0"
    "efcp_at 0 (st_dp (ex_stack (ex_stack_dp 3 1 [0, 1]) [])) = Some ?e" "efcp_xState ?e = eEfcpAllocated"
    "flow_ready (cn_xPortId (pxConnection ?e)) (st_dp (ex_stack (ex_stack_dp 3 1 [0, 1]) []))"
    "fst (dtp_accept (pxDtpStateVector ?e) (next_header ?e (length [10::u8, 11, 12])))"
    unfolding st by (rule ep)+
  show ?thesis
    using data_crosses[OF inv[OF disjI1[OF refl]] st(2) 1 nb(1,2) l env env ex_radio_delivers
      inv[OF disjI2[OF refl]] st(2) 2 up]
    by (simp add: st d) blast
qed

section \<open>Coming up\<close>

lemma enrollment_init_quiet: "\<exists>t. vEnrollmentInit env False port s = Some (s \<lparr> xRibObjectTable := t \<rparr>)"
  by (simp add: vEnrollmentInit_def pxRibCreateObject_def Let_def) blast

definition env_starts :: "stack_env \<Rightarrow> bool" where
  "env_starts env \<longleftrightarrow> env_well env \<and> se_fifo (sk_sh env) \<and> length (se_mac (sk_sh env)) = MAC_ADDRESS_LENGTH_BYTES
     \<and> \<not> sk_enrollee env \<and> sk_name env \<noteq> None \<and> sk_dif env \<noteq> None
     \<and> (\<exists>t. sk_clk env = Some t \<and> ts_ok t)"

text \<open>The event that the shim has enrolled is in the queue when the thread of the task ran in time.\<close>

definition boot_event :: "stack_env \<Rightarrow> RINAStackEvent_t list" where
  "boot_event env = (if sk_started env then [eShimEnrolledEvent] else [])"

lemma boot_ready:
  assumes "env_starts env"
  obtains s im nm where "stack_boot env = Some s" "shim_ready (sk_sh env) (st_shim s)" "ap_manager (st_api s) = im"
    "pxIpcManagerActiveNormalInstance (xInstanceTable im) = Some \<lparr> ii_xId = 1, ii_xType = eNormal \<rparr>"
    "pxIpcManagerActiveShimInstance (xInstanceTable im) = Some \<lparr> ii_xId = 2, ii_xType = eShim802154 \<rparr>"
    "xIpcMngrAllocatePortId im = Some (1, im \<lparr> pxPidm := nm \<rparr>)"
    "st_node s = node_boot (sk_nv env)" "st_queue s = \<lparr> mq_msgs = boot_event env, mq_maxmsg = IPCP_QUEUE \<rparr>"
    "xInterfaceState (sh_nic (st_shim s))" "xN1PortId s = 0"
proof -
  have m: "sk_mem env k" "se_mem (sk_sh env) k" for k using assms by (simp_all add: env_starts_def env_well_def)
  obtain im0 where "xIpcMngrInit (sk_mem env) (- 1) instance_table_boot nb_boot = Some (True, Some im0)"
    by (simp add: xIpcMngrInit_def pxNumMgrCreate_def xNumMgrInit_def pxBitArrayAlloc_def MAX_PORT_ID_def
        MAX_IPCP_ID_def xNetworkBuffersInitialise_def nb_boot_def Let_def m)
  note i = this
  define sh where "sh = snd (xShim802154EnrollToDIF (sk_sh env) \<lparr> pxAppName = None, pxDafName = None,
     pxPhyDev = replicate MAC_ADDRESS_LENGTH_BYTES 0, xShimFlowsList = [], sh_nic = nic_boot \<rparr>)"
  have sh: "xShim802154EnrollToDIF (sk_sh env) \<lparr> pxAppName = None, pxDafName = None,
     pxPhyDev = replicate MAC_ADDRESS_LENGTH_BYTES 0, xShimFlowsList = [], sh_nic = nic_boot \<rparr> = (True, sh)"
    and r: "shim_ready (sk_sh env) sh" "xInterfaceState (sh_nic sh)"
    using assms m by (simp_all add: sh_def xShim802154EnrollToDIF_def xIeee802154NetworkInterfaceInitialise_def
        xIeee802154NetworkInterfaceConnect_def shim_ready_def env_starts_def)
  define s0 where "s0 = \<lparr> st_api = \<lparr> ap_node = node_boot (sk_nv env), ap_queue = \<lparr> mq_msgs = [], mq_maxmsg = 0 \<rparr>,
        ap_ready = sk_started env, ap_manager = im0, ap_bits = (\<lambda>_. 0) \<rparr>, st_shim = sh,
      st_queue = \<lparr> mq_msgs = [], mq_maxmsg = IPCP_QUEUE \<rparr>, st_air = [], xN1PortId = 0 \<rparr>"
  let ?q = "\<lparr> mq_msgs = boot_event env, mq_maxmsg = IPCP_QUEUE \<rparr>"
  obtain t where t: "sk_clk env = Some t" "ts_ok t" using assms by (auto simp: env_starts_def)
  obtain u where "rstime_waitusec (Some t) 50000 = Some (Some u)" using wait_works[OF t(2)] by blast
  then have send: "stack_send_event False (sk_clk env) eShimEnrolledEvent 50000 s0 = Some (sk_started env, s0 \<lparr> st_queue := ?q \<rparr>)"
    by (simp add: stack_send_event_def xRsQueueSendToBack_def s0_def t boot_event_def IPCP_QUEUE_def)
  let ?send = "\<lambda>i :: ipcpInstance_t. stack_send_event False (sk_clk env) eShimEnrolledEvent 50000"
  obtain im nm where im:
    "xIpcMngrInitRinaStack True True True True ?send im0 s0 = Some (True, im, s0 \<lparr> st_queue := ?q \<rparr>)"
    "pxIpcManagerActiveNormalInstance (xInstanceTable im) = Some \<lparr> ii_xId = 1, ii_xType = eNormal \<rparr>"
    "pxIpcManagerActiveShimInstance (xInstanceTable im) = Some \<lparr> ii_xId = 2, ii_xType = eShim802154 \<rparr>"
    "xIpcMngrAllocatePortId im = Some (1, im \<lparr> pxPidm := nm \<rparr>)"
    by (rule init_stack_ok[where send = ?send and q = s0, OF i send])
  have "stack_boot env = Some (s0 \<lparr> st_queue := ?q, st_api := (st_api s0) \<lparr> ap_manager := im \<rparr> \<rparr>)"
    using i im(1) sh by (simp add: stack_boot_def pxRsQueueCreate_def pxShim802154Create_def m vShimFlowListInit_def
        flip: s0_def)
  then show ?thesis
    by (rule that) (use r im in \<open>simp_all add: s0_def\<close>)
qed

text \<open>C8: A node that is not the one to enrol, started with enough memory.  If the thread of the
  stack task runs by the time the manager sends the event that the shim has enrolled, the node
  comes up: the manager has port 1 handed out, the interface is up and the shim has one flow, on
  port 1.  But whether the RMT has bound the port, and the flow is allocated, hangs on memory that
  was never written: it must be non-NULL, because the guard of the binding is inverted.  With NULL
  the flow stays pending, and nothing can ever be sent.  If the thread does not run yet, the event
  is refused, which the manager does not notice: the task finds an empty queue and waits, and the
  shim has no flow.\<close>

theorem stack_comes_up:
  assumes "env_starts env"
  shows "\<exists>s. stack_boot env = Some s \<and> xInterfaceState (sh_nic (st_shim s))
    \<and> (if sk_started env
       then \<exists>s' f. prvIpcpTask env s = Some s' \<and> mq_msgs (st_queue s') = []
         \<and> xN1PortId s' = 1 \<and> xInterfaceState (sh_nic (st_shim s'))
         \<and> xShimFlowsList (st_shim s') = [f] \<and> sf_xPortId f = 1
         \<and> ePortIdState f = (if junk_ptr (nv_dp (sk_nv env)) then eALLOCATED else ePENDING)
         \<and> map_option n1_xPortId (xPortIdTable0 (st_dp s')) = (if junk_ptr (nv_dp (sk_nv env)) then Some 1 else None)
       else prvIpcpTask env' (stack_task_starts s) = Some (stack_task_starts s)
         \<and> xN1PortId s = 0 \<and> xShimFlowsList (st_shim s) = [])"
proof (cases "sk_started env")
  case False
  obtain s im nm where s: "stack_boot env = Some s" "shim_ready (sk_sh env) (st_shim s)"
    "st_queue s = \<lparr> mq_msgs = boot_event env, mq_maxmsg = IPCP_QUEUE \<rparr>" "xInterfaceState (sh_nic (st_shim s))" "xN1PortId s = 0"
    by (rule boot_ready[OF assms])
  show ?thesis
    using False s by (intro exI[of _ s]) (simp add: prvIpcpTask_def stack_task_starts_def boot_event_def shim_ready_def)
next
  case True
  obtain s im nm where s: "stack_boot env = Some s" "shim_ready (sk_sh env) (st_shim s)" "ap_manager (st_api s) = im"
    and im: "pxIpcManagerActiveNormalInstance (xInstanceTable im) = Some \<lparr> ii_xId = 1, ii_xType = eNormal \<rparr>"
    "pxIpcManagerActiveShimInstance (xInstanceTable im) = Some \<lparr> ii_xId = 2, ii_xType = eShim802154 \<rparr>"
    "xIpcMngrAllocatePortId im = Some (1, im \<lparr> pxPidm := nm \<rparr>)"
    and n: "st_node s = node_boot (sk_nv env)" and bq: "st_queue s = \<lparr> mq_msgs = boot_event env, mq_maxmsg = IPCP_QUEUE \<rparr>"
    and up: "xInterfaceState (sh_nic (st_shim s))"
    by (rule boot_ready[OF assms])
  have q: "st_queue s = \<lparr> mq_msgs = [eShimEnrolledEvent], mq_maxmsg = IPCP_QUEUE \<rparr>"
    using bq True by (simp add: boot_event_def)
  obtain a b where ab: "sk_name env = Some a" "sk_dif env = Some b" "\<not> sk_enrollee env"
    using assms by (auto simp: env_starts_def)
  let ?s = "s \<lparr> st_queue := (st_queue s) \<lparr> mq_msgs := [] \<rparr> \<rparr>"
  let ?nv = "stack_nenv env (queue_room ?s)"
  have ok: "is_port_id_ok 1" by (simp add: is_port_id_ok_def)
  obtain sh f where sh: "shim_enrolled_event (sk_sh env) ?nv False (Some a) (Some b) (im, xN1PortId s, st_shim s, node_boot (sk_nv env))
      = map_option (\<lambda>nd'. (im \<lparr> pxPidm := nm \<rparr>, 1, sh, nd')) (prvIpcpTask_event (?nv sh) False (ShimEnrolled True 1) (node_boot (sk_nv env)))"
    and f: "xShimFlowsList sh = [f]" "sf_xPortId f = 1" "sh_nic sh = sh_nic (st_shim s)"
      "ePortIdState f = (if rmt_pxN1Port (nd_dp (node_boot (sk_nv env))) = N1Junk False then ePENDING else eALLOCATED)"
    using enrolled_ready[OF s(2) im ok, of ?nv False a b "xN1PortId s" "node_boot (sk_nv env)"] by blast
  have bt: "rmt_pxN1Port (nd_dp (node_boot (sk_nv env))) = N1Junk (junk_ptr (nv_dp (sk_nv env)))"
    "xPortIdTable0 (nd_dp (node_boot (sk_nv env))) = None" "net_tx (nd_dp (node_boot (sk_nv env))) = []"
    "sent (node_boot (sk_nv env)) = []"
    by (simp_all add: node_boot_def mgmt.defs pxIpcpCreate_def pxRmtCreate_def mgmt_boot_def)
  define d where "d = snd (xNormalFlowBinding 1 (nd_dp (node_boot (sk_nv env))))"
  obtain t where t: "vEnrollmentInit (?nv sh) False 1 ((node_boot (sk_nv env)) \<lparr> nd_dp := d \<rparr>)
      = Some ((node_boot (sk_nv env)) \<lparr> nd_dp := d, xRibObjectTable := t \<rparr>)"
    using enrollment_init_quiet by metis
  define nd where "nd = (node_boot (sk_nv env)) \<lparr> nd_dp := d, xRibObjectTable := t \<rparr>"
  have d: "map_option n1_xPortId (xPortIdTable0 d) = (if junk_ptr (nv_dp (sk_nv env)) then Some 1 else None)" "net_tx d = []"
    using bt ok by (simp_all add: d_def xNormalFlowBinding_def xRmtN1PortBind_def pxRmtN1PortCreate_def)
  define s1 where "s1 = ?s \<lparr> st_api := (st_api s) \<lparr> ap_manager := im \<lparr> pxPidm := nm \<rparr>, ap_node := nd \<rparr>, st_shim := sh, xN1PortId := 1 \<rparr>"
  have "stack_event env eShimEnrolledEvent ?s = Some s1"
    using sh t s(3) n ab by (simp add: s1_def nd_def d_def)
  moreover have "stack_drain env s1 = Some (put_node (nd \<lparr> sent := [] \<rparr>) s1)"
    using bt(4) by (simp add: stack_drain_def s1_def nd_def put_node_def)
  moreover have "mq_msgs (st_queue s) = [eShimEnrolledEvent]" by (simp add: q)
  ultimately have p: "prvIpcpTask env s = Some (stack_flush (put_node (nd \<lparr> sent := [] \<rparr>) s1))"
    using prvIpcpTask_step by metis
  have "mq_msgs (st_queue (stack_flush (put_node (nd \<lparr> sent := [] \<rparr>) s1))) = []"
    "xN1PortId (stack_flush (put_node (nd \<lparr> sent := [] \<rparr>) s1)) = 1"
    "st_shim (stack_flush (put_node (nd \<lparr> sent := [] \<rparr>) s1)) = sh"
    "xPortIdTable0 (st_dp (stack_flush (put_node (nd \<lparr> sent := [] \<rparr>) s1))) = xPortIdTable0 d"
    using d(2) by (simp_all add: stack_flush_def put_node_def s1_def nd_def)
  then show ?thesis
    using True s(1) p f up d(1) bt(1)
    by (auto intro!: exI[of _ s] exI[of _ "stack_flush (put_node (nd \<lparr> sent := [] \<rparr>) s1)"] exI[of _ f])
qed

theorem stack_comes_up_witness:
  "(\<exists>s s'. stack_boot ex_senv_stack = Some s \<and> prvIpcpTask ex_senv_stack s = Some s' \<and> xN1PortId s' = 1
      \<and> xPortIdTable0 (st_dp s') = None)
   \<and> (\<exists>s. stack_boot (ex_senv_stack \<lparr> sk_started := False \<rparr>) = Some s \<and> xShimFlowsList (st_shim s) = [])"
proof -
  have t: "ts_ok \<lparr> tv_sec = 1, tv_nsec = 0 \<rparr>" by (simp add: ts_ok_def)
  have st: "env_starts (ex_senv_stack \<lparr> sk_started := b \<rparr>)" for b
    using t by (simp add: env_starts_def env_well_def ex_senv_stack_def ex_senv_def ex_nenv_def ex_env_def
        MAC_ADDRESS_LENGTH_BYTES_def)
  have eq: "ex_senv_stack \<lparr> sk_started := True \<rparr> = ex_senv_stack" by (simp add: ex_senv_stack_def)
  have "junk_ptr (nv_dp (sk_nv ex_senv_stack)) = False" "sk_started ex_senv_stack"
    by (simp_all add: ex_senv_stack_def ex_nenv_def ex_env_def)
  then show ?thesis
    using stack_comes_up[OF st[of True, unfolded eq]] stack_comes_up[OF st[of False]] by auto
qed

section \<open>The invariant\<close>

text \<open>C2: In every state of the stack that the start, its tasks, the radio and the calls of
  applications lead to, with what these do to the pool, the ports, the handles and the queue, and
  whatever memory, the clock and the radio do: the management plane and the data plane are well formed
  and the bound port is idle, the queue holds at most the 10 events it is created for (the
  \<open>EVENT_QUEUE_LENGTH\<close> of \<open>configSensor.h\<close>, 26, is not used) and no unit waits in between,
  and the shim has at most one flow, which is allocated exactly when the RMT has bound the
  port of its number, so that every unit the RMT writes finds its flow.\<close>

theorem stack_invariant:
  assumes "stack_reach s"
  shows "stack_inv s \<and> mgmt_wf (st_node s) \<and> imap_wf (xEfcpImapTable (st_dp s)) \<and> flows_wf (xFlowRequestTable (st_dp s))
    \<and> port_wf (xPortIdTable0 (st_dp s)) (rmt_pxN1Port (st_dp s))
    \<and> length (mq_msgs (st_queue s)) \<le> 10 \<and> net_tx (st_dp s) = [] \<and> length (xShimFlowsList (st_shim s)) \<le> 1
    \<and> (case xPortIdTable0 (st_dp s) of
         None \<Rightarrow> \<forall>f\<in>set (xShimFlowsList (st_shim s)). ePortIdState f \<noteq> eALLOCATED
       | Some p \<Rightarrow> prvShimFindFlowByPortId True (n1_xPortId p) (xShimFlowsList (st_shim s)) = Some (Some 0)
           \<and> ePortIdState (xShimFlowsList (st_shim s) ! 0) = eALLOCATED)"
proof -
  have i: "stack_inv s" by (rule reach_stack_inv[OF assms])
  then have "flow_bound (st_shim s) (st_dp s)" by (simp add: stack_inv_def)
  then have "case xPortIdTable0 (st_dp s) of
         None \<Rightarrow> \<forall>f\<in>set (xShimFlowsList (st_shim s)). ePortIdState f \<noteq> eALLOCATED
       | Some p \<Rightarrow> prvShimFindFlowByPortId True (n1_xPortId p) (xShimFlowsList (st_shim s)) = Some (Some 0)
           \<and> ePortIdState (xShimFlowsList (st_shim s) ! 0) = eALLOCATED"
    using flow_of_port by (cases "xPortIdTable0 (st_dp s)") (auto simp: flow_bound_def)
  moreover have "length (xShimFlowsList (st_shim s)) \<le> 1" using i by (simp add: stack_inv_def flow_bound_def)
  ultimately show ?thesis
    using i by (simp add: stack_inv_def node_inv_def dp_inv_def queue_ok_def IPCP_QUEUE_def)
qed

theorem stack_invariant_witness:
  "\<exists>s a. stack_boot ex_senv_stack = Some s \<and> xSendEventStructToIPCPTask False None eFATimerEvent 0 (app_enter s) = Some (True, a)
    \<and> mq_msgs (st_queue (app_leave a s)) = [eShimEnrolledEvent, ApiEvent eFATimerEvent]
    \<and> length (mq_msgs (st_queue (app_leave a s))) \<le> 10"
proof -
  have "env_starts ex_senv_stack" "sk_started ex_senv_stack"
    by (simp_all add: env_starts_def env_well_def ex_senv_stack_def ex_senv_def ex_nenv_def ex_env_def
        MAC_ADDRESS_LENGTH_BYTES_def ts_ok_def)
  then obtain s where s: "stack_boot ex_senv_stack = Some s"
    "st_queue s = \<lparr> mq_msgs = [eShimEnrolledEvent], mq_maxmsg = IPCP_QUEUE \<rparr>"
    using boot_ready by (metis boot_event_def)
  have "ap_ready (st_api s)"
    using stack_boot_cases[OF s(1)] \<open>sk_started ex_senv_stack\<close> by fastforce
  then obtain a where a: "xSendEventStructToIPCPTask False None eFATimerEvent 0 (app_enter s) = Some (True, a)"
    "mq_msgs (ap_queue a) = [eFATimerEvent]"
    using s(2) by (auto simp: xSendEventStructToIPCPTask_def xRsQueueSendToBack_def app_enter_def queue_room_def IPCP_QUEUE_def)
  have "app_step (app_enter s) a" by (rule app_step.send[OF _ a(1)]) simp
  then have "stack_reach (app_leave a s)" using stack_reach.application[OF stack_reach.boot[OF s(1)]] by blast
  from stack_invariant[OF this] show ?thesis using s a by (auto simp: app_leave_def)
qed

section \<open>Descriptors\<close>

text \<open>C7: Sending loses no descriptor and holds none twice, over the shim of IEEE 802.15.4 and over
  that of WiFi alike: whatever a write of data or of a management unit meets on its way
  through EFCP, DTP, the RMT and the shim, whenever it returns, the free descriptors and
  those of the buffers queued for the network are those from before and the one of the unit;
  and at most one buffer has been queued, for which the queue had room.\<close>

theorem sending_keeps_descriptors:
  assumes "duWrite env = stack_duWrite senv room sh \<or> duWrite env = wifi_duWrite senv room wsh"
    and "xNormalDuWrite env port nb s = Some (r, s') \<or>
      xNormalMgmtDuWrite env port \<lparr> pxPci = None, pxNetworkBuffer = nb \<rparr> s = Some (r, s')"
  shows "mset (map nb_id (net_tx s') @ free_desc s') = add_mset (nb_id nb) (mset (map nb_id (net_tx s) @ free_desc s))
    \<and> (net_tx s' = net_tx s \<or> length (net_tx s) < room \<and> (\<exists>tx. net_tx s' = net_tx s @ [tx]))"
  using assms(1)
proof
  assume d: "duWrite env = stack_duWrite senv room sh"
  have "shim802154.hands_on room (nb_id nb) s s'"
    using assms(2)
    by (auto dest!: shim802154.normal_write_hands_on[OF d] shim802154.mgmt_write_hands_on[OF d] simp: du_id_def)
  then show ?thesis by (auto simp: shim802154.hands_on_def held_def)
next
  assume d: "duWrite env = wifi_duWrite senv room wsh"
  have "wifi.hands_on room (nb_id nb) s s'"
    using assms(2)
    by (auto dest!: wifi.normal_write_hands_on[OF d] wifi.mgmt_write_hands_on[OF d] simp: du_id_def)
  then show ?thesis by (auto simp: wifi.hands_on_def held_def)
qed

theorem sending_keeps_descriptors_witness:
  "\<exists>d tx. xNormalDuWrite (ex_env \<lparr> duWrite := stack_duWrite ex_senv 10 (ex_shim [ex_flow] \<lparr> pxAppName := Some destinationInfo \<rparr>) \<rparr>)
       33 (ex_nb 4 (Some [10, 11, 12]) None 0 3) (ex_stack_dp 3 1 [0]) = Some (True, d)
    \<and> net_tx d = [tx] \<and> mset (map nb_id (net_tx d) @ free_desc d) = {#4, 0#}"
proof -
  let ?sh = "ex_shim [ex_flow] \<lparr> pxAppName := Some destinationInfo \<rparr>"
  let ?nb = "ex_nb 4 (Some [10, 11, 12]) None 0 3"
  have f: "flow_bound ?sh (ex_stack_dp 3 1 [0])"
    by (simp add: flow_bound_def ex_shim_def ex_flow_def ex_stack_dp_def pxRmtN1PortCreate_def)
  have m: "se_mem ex_senv k" "se_storage ex_senv k" "storage ex_env k" for k
    by (simp_all add: ex_senv_def ex_env_def)
  have n: "net_tx (ex_stack_dp 3 1 [0]) = []" "free_desc (ex_stack_dp 3 1 [0]) = 0 # []"
    "pucEthernetBuffer ?nb = Some [10, 11, 12]" "xDataLength ?nb = length [10::u8, 11, 12]"
    "length [10::u8, 11, 12] \<le> 104" "distinct (nb_id ?nb # 0 # [])" "0 < (10::nat)"
    by (simp_all add: ex_stack_dp_def ex_nb_def)
  obtain d tx z where w: "xNormalDuWrite (ex_env \<lparr> duWrite := stack_duWrite ex_senv 10 ?sh \<rparr>) 33 ?nb (ex_stack_dp 3 1 [0])
      = Some (True, d)" "net_tx d = [tx]"
    by (rule normal_write_frame[OF ex_stack_endpoint(1) f ex_stack_dp_inv n(1,7) m n(3-5,2,6)])
  have d0: "duWrite (ex_env \<lparr> duWrite := stack_duWrite ex_senv 10 ?sh \<rparr>) = stack_duWrite ex_senv 10 ?sh" by simp
  show ?thesis
    using sending_keeps_descriptors[OF disjI1[OF d0] disjI1[OF w(1)]] w
    by (intro exI[of _ d] exI[of _ tx]) (simp add: ex_nb_def n(1,2))
qed

end
