(* ===== verification/Wifi_Props.thy ===== *)
theory Wifi_Props
  imports Wifi_Shim
begin

text \<open>
  Properties of the WiFi shim: a unit from one shim to the other, the allocation of its flow
  over the cache of addresses, and how an application is unregistered.
\<close>

section \<open>A unit over Ethernet\<close>

lemma get_frame_buffer:
  assumes "\<And>k. mem k" "0 < n" "n \<le> 2 ^ 31"
  obtains nb eth where "pxGetNetworkBufferWithDescriptor mem n (i # rest) = Some (Some nb, rest)" "nb_id nb = i"
    "pucEthernetBuffer nb = Some eth" "n \<le> length eth"
proof -
  let ?nb = "\<lparr> nb_id = i, pucEthernetBuffer = Some (fresh_buffer i (buffer_size n)), pucRinaBuffer = None,
    pucDataBuffer = None, xRinaDataLength = 0, xDataLength = buffer_size n \<rparr>"
  have "n + 2 \<le> buffer_size n" by (rule buffer_size_more[OF assms(3)])
  then have "n \<le> length (fresh_buffer i (buffer_size n))" by (simp add: fresh_buffer_def length_le32)
  moreover have "pxGetNetworkBufferWithDescriptor mem n (i # rest) = Some (Some ?nb, rest)"
    using assms(1,2) by (simp add: pxGetNetworkBufferWithDescriptor_def Let_def)
  ultimately show ?thesis by (intro that[of ?nb]) simp_all
qed

lemma wifi_write_frame:
  assumes flow: "prvShimFindFlowByPortId (se_mem env 0) port (ws_flows s) = Some (Some x)"
      "ePortIdState (ws_flows s ! x) = eALLOCATED" "pxDestHa (ws_flows s ! x) = Some dh" "length (ucBytes dh) = 6"
      "length (ws_pxPhyDev s) = 6"
    and env: "se_mem env 1" "se_queue env" "\<And>k. se_storage env k"
    and du: "pucEthernetBuffer (pxNetworkBuffer du) = Some (bs @ pad)" "xDataLength (pxNetworkBuffer du) = length bs"
      "length bs \<le> MTU" "du_id du \<notin> set rest"
  obtains tx z where "xShimSDUWrite env port du s (i # rest) = Some (True, Some tx, du_id du # rest)" "nb_id tx = i"
    "pucEthernetBuffer tx = Some (ucBytes dh @ ws_pxPhyDev s @ be16 ETH_P_RINA @ bs @ z)" "xDataLength tx = 14 + length bs"
proof -
  let ?n = "14 + length bs"
  have n: "0 < ?n" "?n \<le> 2 ^ 31" using du(3) by (simp_all add: MTU_def)
  obtain nb b where nb: "pxGetNetworkBufferWithDescriptor (se_storage env) ?n (i # rest) = Some (Some nb, rest)"
      "nb_id nb = i" "pucEthernetBuffer nb = Some b" "?n \<le> length b"
    by (rule get_frame_buffer[OF env(3) n])
  have h: "pxCreateGHA True MAC_ADDR_802_3 (Some (ws_pxPhyDev s)) = Some (Some \<lparr> gh_xType = MAC_ADDR_802_3, ucBytes = ws_pxPhyDev s \<rparr>)"
    using flow(5) by (simp add: pxCreateGHA_def MAC_ADDRESS_LENGTH_BYTES_def)
  have d: "xDuDestroy du rest = Some (True, du_id du # rest)"
    using du(4) by (simp add: xDuDestroy_def vReleaseNetworkBufferAndDescriptor_def du_id_def)
  define tx where "tx = nb \<lparr> pucEthernetBuffer := Some (ucBytes dh @ ws_pxPhyDev s @ be16 ETH_P_RINA @ bs @ drop ?n b),
      xDataLength := ?n \<rparr>"
  have "xShimSDUWrite env port du s (i # rest) = Some (True, Some tx, du_id du # rest)"
    using flow(1-3) env(1,2) du(1-3) nb(1,3,4) h d unfolding tx_def xShimSDUWrite_def Let_def by simp
  then show ?thesis
    using nb(2) by (intro that[of tx "drop ?n b"]) (simp_all add: tx_def)
qed

lemma ethertype_frame:
  fixes dst src :: "u8 list"
  assumes "length dst = 6" "length src = 6"
  shows "ethertype (dst @ src @ be16 w @ bs) = w" "14 \<le> length (dst @ src @ be16 w @ bs)"
    "drop 14 (dst @ src @ be16 w @ bs) = bs"
proof -
  have "of_le16 (ucast w) (ucast (drop_bit 8 w)) = w" using of_le16_le16[of w] by (simp add: le16_def)
  then show "ethertype (dst @ src @ be16 w @ bs) = w"
    using assms by (simp add: ethertype_def be16_def nth_append)
  show "14 \<le> length (dst @ src @ be16 w @ bs)" "drop 14 (dst @ src @ be16 w @ bs) = bs"
    using assms by (simp_all add: be16_def)
qed

text \<open>The formats of the functions fit together.  The write puts a unit of up to 1500 bytes behind the
  hardware address of the peer, that of the interface and the type of RINA and gives the
  unit's descriptor back; the interface would send exactly that and give the other one back; and from
  such a frame the handler makes an event with a unit that has all the bytes and their number.  The
  stack task of this configuration calls neither this interface nor this handler, so that the program
  never goes this way.\<close>

theorem wifi_unit_crosses:
  assumes "prvShimFindFlowByPortId (se_mem enva 0) port (ws_flows s) = Some (Some x)"
      "ePortIdState (ws_flows s ! x) = eALLOCATED" "pxDestHa (ws_flows s ! x) = Some dh" "length (ucBytes dh) = 6"
      "length (ws_pxPhyDev s) = 6" "se_mem enva 1" "se_queue enva" "\<And>k. se_storage enva k" "wn_up (ws_nic s)"
    and "pucEthernetBuffer (pxNetworkBuffer du) = Some (bs @ pad)" "xDataLength (pxNetworkBuffer du) = length bs"
      "length bs \<le> MTU" "distinct (du_id du # i # rest)"
    and "se_mem envb 0" "se_queue envb" "\<And>k. mem k"
  shows "\<exists>tx f nb m z. xShimSDUWrite enva port du s (i # rest) = Some (True, Some tx, du_id du # rest)
    \<and> xNetworkInterfaceOutput (Some tx) True True (ws_nic s) (du_id du # rest) = Some (True, Some f, i # du_id du # rest)
    \<and> f = ucBytes dh @ ws_pxPhyDev s @ [0xD1, 0xF0] @ bs
    \<and> xNetworkInterfaceInput True mem True f (j # restb) = Some (True, Some (nb, length f), restb)
    \<and> prvHandleEthernetPacket envb zero shim nb (length f) sb db
        = Some (Some (EthStackRx \<lparr> pxPci = None, pxNetworkBuffer = m \<rparr>), sb, db)
    \<and> nb_id m = j \<and> pucRinaBuffer m = Some (bs @ z) \<and> xRinaDataLength m = length bs"
proof -
  let ?h = "ucBytes dh @ ws_pxPhyDev s @ be16 ETH_P_RINA"
  have d: "du_id du \<notin> set rest" "i \<notin> set (du_id du # rest)" using assms(13) by auto
  obtain tx y where tx: "xShimSDUWrite enva port du s (i # rest) = Some (True, Some tx, du_id du # rest)" "nb_id tx = i"
    "pucEthernetBuffer tx = Some (ucBytes dh @ ws_pxPhyDev s @ be16 ETH_P_RINA @ bs @ y)" "xDataLength tx = 14 + length bs"
    by (rule wifi_write_frame[OF assms(1-8) assms(10-12) d(1)])
  define f where "f = ucBytes dh @ ws_pxPhyDev s @ be16 ETH_P_RINA @ bs"
  have e: "be16 ETH_P_RINA = [0xD1, 0xF0]" by (simp add: be16_def ETH_P_RINA_def)
  have lf: "length f = 14 + length bs" using assms(4,5) by (simp add: f_def e)
  have out: "xNetworkInterfaceOutput (Some tx) True True (ws_nic s) (du_id du # rest) = Some (True, Some f, i # du_id du # rest)"
    using assms(4,5,9) tx(2-4) d(2)
    by (simp add: xNetworkInterfaceOutput_def vReleaseNetworkBufferAndDescriptor_def f_def e)
  note et = ethertype_frame[OF assms(4,5), of ETH_P_RINA]
  have "eConsiderFrameForProcessing f = Some eProcessBuffer"
    using et(1,2)[of bs] by (simp add: eConsiderFrameForProcessing_def f_def)
  moreover have n: "0 < length f" "length f \<le> 2 ^ 31" using assms(12) by (simp_all add: lf MTU_def)
  obtain nb b where "pxGetNetworkBufferWithDescriptor mem (length f) (j # restb) = Some (Some nb, restb)" "nb_id nb = j"
      "pucEthernetBuffer nb = Some b" "length f \<le> length b"
    by (rule get_frame_buffer[OF assms(16) n])
  ultimately obtain nb z where nb: "xNetworkInterfaceInput True mem True f (j # restb) = Some (True, Some (nb, length f), restb)"
      "nb_id nb = j" "pucEthernetBuffer nb = Some (f @ z)"
    by (simp add: xNetworkInterfaceInput_def)
  have "ETH_P_RINA \<noteq> ETH_P_RINA_ARP" by (simp add: ETH_P_RINA_def ETH_P_RINA_ARP_def)
  then have h: "prvHandleEthernetPacket envb zero shim nb (length f) sb db = Some (Some (EthStackRx \<lparr> pxPci = None,
      pxNetworkBuffer = nb \<lparr> pucRinaBuffer := Some (bs @ z), xRinaDataLength := length bs \<rparr> \<rparr>), sb, db)"
    using et[of "bs @ z"] assms(14,15) nb(3) lf
    by (simp add: prvHandleEthernetPacket_def prvProcessEthernetPacket_def f_def)
  have fe: "f = ucBytes dh @ ws_pxPhyDev s @ [0xD1, 0xF0] @ bs" by (simp add: f_def e)
  show ?thesis
    by (rule exI[of _ tx], rule exI[of _ f], rule exI[of _ nb],
        rule exI[of _ "nb \<lparr> pucRinaBuffer := Some (bs @ z), xRinaDataLength := length bs \<rparr>"], rule exI[of _ z], intro conjI)
      ((fact tx(1) out fe nb(1) h)+, simp_all add: nb(2))
qed

text \<open>A shim with one flow.\<close>

definition ex_wifi_flow :: "gha_t option \<Rightarrow> ePortidState_t \<Rightarrow> wifiFlow_t" where
  "ex_wifi_flow h st = \<lparr> sf_xPortId = 1, ePortIdState = st, pxDestPa = None, pxUserIpcp = Some \<lparr> ii_xId = 1, ii_xType = eNormal \<rparr>,
     pxSduQueue = True, sf_freed = False, pxDestHa = h \<rparr>"

definition ex_wifi :: "wifiFlow_t list \<Rightarrow> handle \<Rightarrow> handle \<Rightarrow> arp \<Rightarrow> wifi_shim" where
  "ex_wifi fs h1 h2 a = \<lparr> ws_pxAppName = Name empty_name, ws_pxDafName = Name empty_name, ws_pxPhyDev = [1, 2, 3, 4, 5, 6],
     ws_flows = fs, pxAppHandle = h1, pxDafHandle = h2, ws_arp = a, ws_nic = wifi_nic_boot \<lparr> wn_up := True \<rparr> \<rparr>"

theorem wifi_unit_crosses_witness:
  "\<exists>tx nb m z. xShimSDUWrite ex_senv 1 (ex_sdu [7, 8, 9])
      (ex_wifi [ex_wifi_flow (Some ex_gha) eALLOCATED] Unset Unset arp_boot) [0] = Some (True, Some tx, [7])
    \<and> xNetworkInterfaceInput True (\<lambda>_. True) True (ucBytes ex_gha @ [1, 2, 3, 4, 5, 6, 0xD1, 0xF0, 7, 8, 9]) [3] = Some (True, Some (nb, 17), [])
    \<and> prvHandleEthernetPacket ex_senv True True nb 17 (ex_wifi [] Unset Unset arp_boot) (nd_dp (node_boot ex_nenv))
        = Some (Some (EthStackRx \<lparr> pxPci = None, pxNetworkBuffer = m \<rparr>), ex_wifi [] Unset Unset arp_boot, nd_dp (node_boot ex_nenv))
    \<and> pucRinaBuffer m = Some ([7, 8, 9] @ z) \<and> xRinaDataLength m = 3"
proof -
  let ?s = "ex_wifi [ex_wifi_flow (Some ex_gha) eALLOCATED] Unset Unset arp_boot"
  have f: "prvShimFindFlowByPortId (se_mem ex_senv 0) 1 (ws_flows ?s) = Some (Some 0)"
    "ePortIdState (ws_flows ?s ! 0) = eALLOCATED" "pxDestHa (ws_flows ?s ! 0) = Some ex_gha" "length (ucBytes ex_gha) = 6"
    "length (ws_pxPhyDev ?s) = 6" "se_mem ex_senv 1" "se_queue ex_senv" "se_storage ex_senv k" "wn_up (ws_nic ?s)" for k
    by (simp_all add: prvShimFindFlowByPortId_def ex_senv_def ex_wifi_def ex_wifi_flow_def ex_gha_def)
  have d: "length [7, 8, 9::u8] \<le> MTU" "distinct [du_id (ex_sdu [7, 8, 9]), 0]" "se_mem ex_senv 0"
    by (simp_all add: MTU_def ex_sdu_bytes(3) ex_senv_def)
  have l: "length (ucBytes ex_gha @ [1, 2, 3, 4, 5, 6, 0xD1, 0xF0, 7, 8, 9]) = 17" "ws_pxPhyDev ?s = [1, 2, 3, 4, 5, 6]"
    by (simp_all add: ex_gha_def ex_wifi_def)
  show ?thesis
    using wifi_unit_crosses[OF f ex_sdu_bytes(1,2) d(1,2,3) f(7), where mem = "\<lambda>_. True" and j = 3 and restb = "[]"
        and zero = True and shim = True and sb = "ex_wifi [] Unset Unset arp_boot" and db = "nd_dp (node_boot ex_nenv)"]
    by (auto simp: l ex_sdu_bytes f(4) numeral_3_eq_3)
qed

section \<open>The hardware address of the peer\<close>

lemma first_ix_update:
  assumes "x < length xs" "P r"
  shows "first_ix P (xs[x := r]) = Some (case first_ix P xs of None \<Rightarrow> x | Some y \<Rightarrow> min x y)"
  using assms
proof (induction xs arbitrary: x)
  case (Cons a xs)
  show ?case
  proof (cases x)
    case (Suc k)
    then show ?thesis using Cons.IH[of k] Cons.prems by (auto split: option.splits)
  qed (use Cons.prems in \<open>auto split: option.splits\<close>)
qed simp

text \<open>What the look-up answers after a reply: it takes the first row that a reply has filled,
  which need not be the one of this reply.\<close>

definition peer_mac :: "arp \<Rightarrow> u8 list \<Rightarrow> u8 list option" where
  "peer_mac a sha =
     (case (first_ix (\<lambda>r. ARPCacheRow_t.ucValid r = 0) (xARPCache a), first_ix (\<lambda>r. ucAge r = 3) (xARPCache a)) of
        (None, None) \<Rightarrow> None
      | (Some x, None) \<Rightarrow> Some sha
      | (None, Some y) \<Rightarrow> Some (row_mac a (xARPCache a ! y))
      | (Some x, Some y) \<Rightarrow> Some (if x < y then sha else row_mac a (xARPCache a ! y)))"

lemma lookup_after_reply:
  assumes "arp_wf a" "gpa_ok g" "length (ucBytes h) = 6" "new_gha (Some h) a = (p, a1)"
    and "vARPAddCacheEntry True True g p 3 a1 = Some a2"
  shows "\<exists>q. pxARPLookupGHA True t a2 = Some q \<and> map_option ucBytes q = peer_mac a (ucBytes h)"
proof -
  let ?c = "xARPCache a"
  have hs: "heap_ok a" and rows: "\<forall>r \<in> set ?c. row_ok a r" using assms(1) by (simp_all add: arp_wf_def)
  note n = new_gha_facts[OF hs assms(4,3)]
  obtain a2' where "vARPAddCacheEntry True True g p 3 a1 = Some a2'"
    and ad: "\<forall>x. first_ix (\<lambda>r. ARPCacheRow_t.ucValid r = 0) ?c = Some x \<longrightarrow> xARPCache a2' = ?c[x := xARPCache a2' ! x]
        \<and> ucAge (xARPCache a2' ! x) = 3 \<and> pxMACAddress (xARPCache a2' ! x) = Some (arp_next a) \<and> ghas a2' (arp_next a) = Some h"
      "\<forall>b. b \<noteq> arp_next a \<longrightarrow> ghas a2' b = ghas a b"
    by (rule reply_adds[OF assms(1-4)]) blast
  then have [simp]: "a2' = a2" using assms(5) by simp
  have old: "\<exists>q. Option.bind (pxMACAddress (?c ! y)) (ghas a2) = Some q \<and> ucBytes q = row_mac a (?c ! y)"
    if "first_ix (\<lambda>r. ucAge r = 3) ?c = Some y" for y
  proof -
    have "row_ok a (?c ! y)" using rows first_ix_less[OF that] by simp
    then obtain b q where b: "pxMACAddress (?c ! y) = Some b" "ghas a b = Some q" by (auto simp: row_ok_def)
    then have "b \<noteq> arp_next a" using hs by (auto simp: heap_ok_def)
    then show ?thesis using b ad(2) by (simp add: row_mac_def gha_deref_def)
  qed
  show ?thesis
  proof (cases "first_ix (\<lambda>r. ARPCacheRow_t.ucValid r = 0) ?c")
    case None
    then have "xARPCache a2 = ?c" using assms(5) n(4) by (simp add: vARPAddCacheEntry_def)
    then show ?thesis
      using None old by (cases "first_ix (\<lambda>r. ucAge r = 3) ?c") (auto simp: pxARPLookupGHA_def peer_mac_def)
  next
    case (Some x)
    have x: "x < length ?c" by (rule first_ix_less[OF Some])
    have c: "xARPCache a2 = ?c[x := xARPCache a2 ! x]" "ucAge (xARPCache a2 ! x) = 3"
      "pxMACAddress (xARPCache a2 ! x) = Some (arp_next a)" "ghas a2 (arp_next a) = Some h"
      using ad(1) Some by simp_all
    have f: "first_ix (\<lambda>r. ucAge r = 3) (xARPCache a2)
        = Some (case first_ix (\<lambda>r. ucAge r = 3) ?c of None \<Rightarrow> x | Some y \<Rightarrow> min x y)"
      using first_ix_update[OF x, of "\<lambda>r. ucAge r = 3"] c(2) by (subst c(1)) simp
    show ?thesis
    proof (cases "first_ix (\<lambda>r. ucAge r = 3) ?c")
      case None
      then show ?thesis using f c(3,4) \<open>first_ix (\<lambda>r. ARPCacheRow_t.ucValid r = 0) ?c = Some x\<close>
        by (simp add: pxARPLookupGHA_def peer_mac_def)
    next
      case (Some y)
      have "ARPCacheRow_t.ucValid (?c ! x) = 0" "ucAge (?c ! y) = 3"
        using first_ix_holds[OF \<open>first_ix (\<lambda>r. ARPCacheRow_t.ucValid r = 0) ?c = Some x\<close>] first_ix_holds[OF Some] by simp_all
      moreover have "row_ok a (?c ! y)" using rows first_ix_less[OF Some] by simp
      ultimately have "x \<noteq> y" by (auto simp: row_ok_def)
      then have "xARPCache a2 ! min x y = (if x < y then xARPCache a2 ! x else ?c ! y)"
        by (subst c(1)) (auto simp: min_def nth_list_update x)
      then show ?thesis
        using f c(3,4) \<open>x \<noteq> y\<close> old[OF Some] \<open>first_ix (\<lambda>r. ARPCacheRow_t.ucValid r = 0) ?c = Some x\<close> Some
        by (auto simp: pxARPLookupGHA_def peer_mac_def)
    qed
  qed
qed

section \<open>Allocating the flow\<close>

text \<open>A shim that is registered and has no flow yet, its node the normal IPC process \<open>u\<close>.\<close>

definition wifi_ready :: "shim_env \<Rightarrow> gpa_t \<Rightarrow> gha_t \<Rightarrow> wifi_shim \<Rightarrow> bool" where
  "wifi_ready env g h s \<longleftrightarrow> arp_wf (ws_arp s) \<and> ws_flows s = [] \<and> wn_up (ws_nic s)
     \<and> (\<exists>pa ha. pxAppHandle s = Handle \<lparr> pxPa = Some pa, pxHa = Some ha \<rparr> \<and> gpas (ws_arp s) pa = Some g
          \<and> ghas (ws_arp s) ha = Some h)
     \<and> gpa_ok g \<and> (\<forall>k. se_mem env k \<and> se_storage env k) \<and> se_fifo env"

definition pending_flow :: "u32 \<Rightarrow> gpa_t \<Rightarrow> ipcpInstance_t \<Rightarrow> wifiFlow_t" where
  "pending_flow port g u = \<lparr> sf_xPortId = port, ePortIdState = ePENDING, pxDestPa = Some g, pxUserIpcp = Some u,
     pxSduQueue = True, sf_freed = False, pxDestHa = None \<rparr>"

lemma wifi_request:
  assumes "wifi_ready env ga h s" "is_port_id_ok port" "pxNameToGPA True True True (Some d) = Some (Some gb)" "gpa_ok gb"
    and "max (uxLength ga) (uxLength gb) < 256" "i \<notin> set rest"
  defines "n \<equiv> max (uxLength ga) (uxLength gb)"
  obtains f a g where
    "xShimFlowAllocateRequest env True (Some u) (Some src) (Some d) port s (i # rest)
      = Some (True, Some f, s \<lparr> ws_arp := a, ws_flows := [pending_flow port g u] \<rparr>, i # rest)"
    "f = arp_frame (replicate 6 0xFF) (ucBytes h) (padded n (gpa_bytes ga)) n (padded n (gpa_bytes gb)) ARP_REQUEST"
    "arp_wf a" "xARPCache a = xARPCache (ws_arp s)" "ghas a = ghas (ws_arp s)" "gpa_bytes g = padded n (gpa_bytes gb)"
proof -
  let ?a = "ws_arp s"
  obtain pa ha where r: "arp_wf ?a" "ws_flows s = []" "wn_up (ws_nic s)" "gpas ?a pa = Some ga" "ghas ?a ha = Some h"
      "pxAppHandle s = Handle \<lparr> pxPa = Some pa, pxHa = Some ha \<rparr>" "gpa_ok ga" "\<And>k. se_mem env k" "\<And>k. se_storage env k"
      "se_fifo env"
    using assms(1) by (auto simp: wifi_ready_def)
  have hs: "heap_ok ?a" using r(1) by (simp add: arp_wf_def)
  obtain p a1 where a1: "new_gpa (Some gb) ?a = (p, a1)" by fastforce
  note n1 = new_gpa_facts[OF hs a1]
  have pa: "pa \<noteq> arp_next ?a" using hs r(4) by (auto simp: heap_ok_def)
  have h6: "length (ucBytes h) = 6" using hs r(5) by (simp add: heap_ok_def)
  have g1: "gpas a1 pa = Some ga" "ghas a1 ha = Some h" using n1(6,7) pa r(4,5) by simp_all
  have m: "se_mem env (5 + k)" for k by (rule r(8))
  obtain nb z ga' gb' where
    rs: "xARPResolveGPA (\<lambda>k. se_mem env (5 + k)) (se_storage env) True True (Some (arp_next ?a)) (Some pa) (Some ha) (i # rest) a1
      = Some (True, Some nb, rest, a1 \<lparr> gpas := (gpas a1)(pa \<mapsto> ga', arp_next ?a \<mapsto> gb') \<rparr>)"
    and nb: "pucEthernetBuffer nb = Some (arp_frame (replicate 6 0xFF) (ucBytes h) (padded n (gpa_bytes ga)) n (padded n (gpa_bytes gb)) ARP_REQUEST @ z)"
    and g': "gpa_ok ga'" "gpa_bytes ga' = padded n (gpa_bytes ga)" "uxLength ga' = n"
      "gpa_ok gb'" "gpa_bytes gb' = padded n (gpa_bytes gb)" "uxLength gb' = n"
    and id: "nb_id nb = i" "xDataLength nb = 22 + (n + 6) * 2"
    by (rule resolve_sends[OF g1(1) r(7) n1(5) assms(4) pa g1(2) h6 m r(9) disjI1[OF TrueI] refl assms(5), folded n_def])
  define a where "a = a1 \<lparr> gpas := (gpas a1)(pa \<mapsto> ga', arp_next ?a \<mapsto> gb') \<rparr>"
  define f where "f = arp_frame (replicate 6 0xFF) (ucBytes h) (padded n (gpa_bytes ga)) n (padded n (gpa_bytes gb)) ARP_REQUEST"
  have w: "arp_wf a" by (rule resolve_wf[OF wf_new_gpa[OF r(1) a1] rs, folded a_def])
  have le: "length (gpa_bytes ga) \<le> n" "length (gpa_bytes gb) \<le> n" using r(7) assms(4) by (simp_all add: n_def)
  have fl: "length f = xDataLength nb" using h6 le id(2) by (simp add: f_def arp_frame_def be16_def le16_def)
  have out: "xNetworkInterfaceOutput (Some nb) True True (ws_nic s) rest = Some (True, Some f, i # rest)"
    using nb id fl r(3) assms(6)
    by (simp add: xNetworkInterfaceOutput_def vReleaseNetworkBufferAndDescriptor_def f_def[symmetric])
  have "gpa_deref (Some (arp_next ?a)) a = Some (Some gb')" by (simp add: gpa_deref_def a_def)
  then have "xShimFlowAllocateRequest env True (Some u) (Some src) (Some d) port s (i # rest)
      = Some (True, Some f, s \<lparr> ws_arp := a, ws_flows := [pending_flow port gb' u] \<rparr>, i # rest)"
    using assms(2,3,4) r(2,6,8,10) a1 n1(1) rs[folded a_def] out
    by (simp add: xShimFlowAllocateRequest_def prvShimFindFlowByPortId_def vShimFlowAdd_def pending_flow_def Let_def)
  then show ?thesis
    by (rule that) (use w n1(4,6) g'(5) in \<open>simp_all add: f_def a_def\<close>)
qed

lemma peer_mac_cong:
  assumes "xARPCache a = xARPCache b" "ghas a = ghas b"
  shows "peer_mac a sha = peer_mac b sha"
  unfolding peer_mac_def row_mac_def gha_deref_def assms by (rule refl)

lemma wifi_reply:
  fixes sha tha a b pad :: "u8 list"
  assumes "arp_wf (ws_arp s)" "ws_flows s = [pending_flow 1 g u]" "\<And>k. se_mem env k" "se_queue env"
    and "length tha = 6" "length sha = 6" "m < 256" "0 \<notin> set a" "a \<noteq> []" "length a \<le> m" "0 \<notin> set b" "b \<noteq> []" "length b \<le> m"
    and "pucEthernetBuffer nb = Some (arp_frame tha sha (padded m a) m (padded m b) ARP_REPLY @ pad)" "22 \<le> len"
    and "fst (xNormalFlowBinding 1 dp)" "nb_id nb \<notin> set (free_desc dp)"
  obtains s' h where
    "prvHandleEthernetPacket env zero True nb len s dp = Some (Some EthShimFlowAllocated, s',
      (snd (xNormalFlowBinding 1 dp)) \<lparr> free_desc := nb_id nb # free_desc dp \<rparr>)"
    "ws_flows s' = [(pending_flow 1 g u) \<lparr> ePortIdState := eALLOCATED, pxDestHa := h \<rparr>]"
    "map_option ucBytes h = peer_mac (ws_arp s) sha"
proof -
  let ?f = "arp_frame tha sha (padded m a) m (padded m b) ARP_REPLY @ pad"
  have mem: "se_mem env = (\<lambda>_. True)" using assms(3) by auto
  obtain q hh where q: "gpa_ok q" "gpa_bytes q = a" "gh_xType hh = MAC_ADDR_802_3" "ucBytes hh = sha"
    and ep: "eARPProcessPacket (\<lambda>_. True) zero ?f (ws_arp s) =
      (if ARP_REPLY = ARP_REQUEST then do {
         r \<leftarrow> eARPLookupGPA (\<lambda>_. True) (Some q) (ws_arp s);
         if r = eARPCacheMiss then Some (eReleaseBuffer, ?f, ws_arp s)
         else do {
           let (p, s) = new_gpa (Some q) (ws_arp s);
           s \<leftarrow> vARPRefreshCacheEntry p (Some hh) s;
           Some (eReturnEthernetFrame, arp_frame tha sha (padded m a) m (padded m b) ARP_REPLY @ pad, s) } }
       else do {
         let (p, s) = new_gha (Some hh) (ws_arp s);
         s \<leftarrow> vARPAddCacheEntry True True q p 3 s;
         Some (eProcessBuffer, ?f, s) })"
    by (rule process_frame[OF assms(5-13), of ARP_REPLY]) simp
  obtain p a1 where a1: "new_gha (Some hh) (ws_arp s) = (p, a1)" by fastforce
  have h6: "length (ucBytes hh) = 6" using q(4) assms(6) by simp
  obtain a2 where a2: "vARPAddCacheEntry True True q p 3 a1 = Some a2"
    by (rule reply_adds[OF assms(1) q(1) h6 a1])
  obtain h where h: "pxARPLookupGHA True (Some g) a2 = Some h" "map_option ucBytes h = peer_mac (ws_arp s) sha"
    using lookup_after_reply[OF assms(1) q(1) h6 a1 a2, of "Some g"] q(4) by auto
  have "ARP_REPLY \<noteq> ARP_REQUEST" by (simp add: ARP_REQUEST_def ARP_REPLY_def)
  then have pr: "eARPProcessPacket (\<lambda>_. True) zero ?f (ws_arp s) = Some (eProcessBuffer, ?f, a2)"
    using ep a1 a2 by simp
  have e: "ethertype ?f = ETH_P_RINA_ARP" "14 \<le> length ?f"
    using ethertype_frame(1)[OF assms(5,6), of ETH_P_RINA_ARP] assms(5,6)
    by (simp_all add: arp_frame_def)
  obtain d2 where d2: "xNormalFlowBinding 1 dp = (True, d2)" using assms(16) by (cases "xNormalFlowBinding 1 dp") auto
  have fr: "free_desc d2 = free_desc dp"
    using d2 by (auto simp: xNormalFlowBinding_def xRmtN1PortBind_def Let_def split: if_splits)
  define s' where "s' = s \<lparr> ws_arp := a2, ws_flows := [(pending_flow 1 g u) \<lparr> ePortIdState := eALLOCATED, pxDestHa := h \<rparr>] \<rparr>"
  have "xShimWiFiFlowAllocateResponse (env \<lparr> se_mem := \<lambda>k. True \<rparr>) True 1 (s \<lparr> ws_arp := a2 \<rparr>) dp = Some (True, s', d2)"
    using assms(2) d2 h(1)
    by (simp add: xShimWiFiFlowAllocateResponse_def is_port_id_ok_def prvShimFindFlowByPortId_def pending_flow_def s'_def)
  then have "prvHandleEthernetPacket env zero True nb len s dp = Some (Some EthShimFlowAllocated, s', d2 \<lparr> free_desc := nb_id nb # free_desc dp \<rparr>)"
    using assms(4,14,15,17) e pr fr
    by (simp add: prvHandleEthernetPacket_def prvProcessEthernetPacket_def mem prxHandleAllocateResponse_def eth_release_def
        vReleaseNetworkBufferAndDescriptor_def)
  then show ?thesis by (rule that[of s' h, unfolded d2 snd_conv]) (simp_all add: s'_def h(2))
qed

text \<open>C15: The flow of the WiFi shim.  The request puts a frame on the air that asks for the peer's
  address; the flow is pending.  Any reply of the cache's protocol that arrives then,
  whichever addresses it carries, binds the flow in the normal IPC process, makes it
  allocated, releases its buffer and tells the stack task.  The flow gets the hardware
  address of the first row in the cache that a reply has filled: that of this reply only if
  no earlier one is before the free row, and none at all when the cache is full.\<close>

theorem wifi_flow_allocated:
  fixes sha tha a b pad :: "u8 list"
  assumes "wifi_ready env ga h s" "se_queue env" "pxNameToGPA True True True (Some d) = Some (Some gb)" "gpa_ok gb"
      "max (uxLength ga) (uxLength gb) < 256" "i \<notin> set rest"
    and "length tha = 6" "length sha = 6" "m < 256" "0 \<notin> set a" "a \<noteq> []" "length a \<le> m" "0 \<notin> set b" "b \<noteq> []" "length b \<le> m"
    and "pucEthernetBuffer nb = Some (arp_frame tha sha (padded m a) m (padded m b) ARP_REPLY @ pad)" "22 \<le> len"
    and "fst (xNormalFlowBinding 1 dp)" "nb_id nb \<notin> set (free_desc dp)"
  shows "\<exists>f s1 s2 fl. xShimFlowAllocateRequest env True (Some u) (Some src) (Some d) 1 s (i # rest) = Some (True, Some f, s1, i # rest)
    \<and> map ePortIdState (ws_flows s1) = [ePENDING]
    \<and> f = arp_frame (replicate 6 0xFF) (ucBytes h) (padded (max (uxLength ga) (uxLength gb)) (gpa_bytes ga))
            (max (uxLength ga) (uxLength gb)) (padded (max (uxLength ga) (uxLength gb)) (gpa_bytes gb)) ARP_REQUEST
    \<and> prvHandleEthernetPacket env zero True nb len s1 dp = Some (Some EthShimFlowAllocated, s2,
        (snd (xNormalFlowBinding 1 dp)) \<lparr> free_desc := nb_id nb # free_desc dp \<rparr>)
    \<and> ws_flows s2 = [fl] \<and> sf_xPortId fl = 1 \<and> ePortIdState fl = eALLOCATED \<and> pxUserIpcp fl = Some u
    \<and> map_option ucBytes (pxDestHa fl) = peer_mac (ws_arp s) sha"
proof -
  have p: "is_port_id_ok (1 :: u32)" by (simp add: is_port_id_ok_def)
  obtain f a' g where rq: "xShimFlowAllocateRequest env True (Some u) (Some src) (Some d) 1 s (i # rest)
      = Some (True, Some f, s \<lparr> ws_arp := a', ws_flows := [pending_flow 1 g u] \<rparr>, i # rest)"
    "f = arp_frame (replicate 6 0xFF) (ucBytes h) (padded (max (uxLength ga) (uxLength gb)) (gpa_bytes ga))
            (max (uxLength ga) (uxLength gb)) (padded (max (uxLength ga) (uxLength gb)) (gpa_bytes gb)) ARP_REQUEST"
    "arp_wf a'" "xARPCache a' = xARPCache (ws_arp s)" "ghas a' = ghas (ws_arp s)"
    "gpa_bytes g = padded (max (uxLength ga) (uxLength gb)) (gpa_bytes gb)"
    by (rule wifi_request[OF assms(1) p assms(3-6)])
  let ?s = "s \<lparr> ws_arp := a', ws_flows := [pending_flow 1 g u] \<rparr>"
  have m: "se_mem env k" for k using assms(1) by (simp add: wifi_ready_def)
  have w: "arp_wf (ws_arp ?s)" "ws_flows ?s = [pending_flow 1 g u]" using rq(3) by simp_all
  have pm: "peer_mac (ws_arp ?s) sha = peer_mac (ws_arp s) sha"
    by (rule peer_mac_cong) (simp_all add: rq(4,5))
  obtain s' q where rp: "prvHandleEthernetPacket env zero True nb len ?s dp = Some (Some EthShimFlowAllocated, s',
      (snd (xNormalFlowBinding 1 dp)) \<lparr> free_desc := nb_id nb # free_desc dp \<rparr>)"
    "ws_flows s' = [(pending_flow 1 g u) \<lparr> ePortIdState := eALLOCATED, pxDestHa := q \<rparr>]"
    "map_option ucBytes q = peer_mac (ws_arp ?s) sha"
    by (rule wifi_reply[OF w m assms(2) assms(7-19)])
  show ?thesis
    by (rule exI[of _ f], rule exI[of _ ?s], rule exI[of _ s'],
        rule exI[of _ "(pending_flow 1 g u) \<lparr> ePortIdState := eALLOCATED, pxDestHa := q \<rparr>"])
      (use rq(1,2) rp pm in \<open>simp add: pending_flow_def\<close>)
qed

lemma ex_destination:
  obtains g where "pxNameToGPA True True True (Some destinationInfo) = Some (Some g)" "gpa_ok g" "uxLength g < 256"
proof -
  obtain g where g: "pxNameToGPA True True True (Some destinationInfo) = Some (Some g)" "gpa_ok g"
    using name_gpa_some by blast
  then have "uxLength g < 256"
    by (auto simp: pxNameToGPA_def pcNameToString_def destinationInfo_def REMOTE_ADDRESS_AP_NAME_def str_of_def Let_def
        dest!: create_gpa_ok(3) split: Option.bind_splits option.splits)
  with g show ?thesis by (rule that)
qed

definition ex_reply :: NetworkBufferDescriptor_t where
  "ex_reply = ex_nb 7 (Some (arp_frame (replicate 6 0xFF) [9, 9, 9, 9, 9, 9] (padded 1 [65]) 1 (padded 1 [66]) ARP_REPLY @ [])) None 0 0"

definition ex_wifi_dp :: dplane where
  "ex_wifi_dp = (nd_dp (node_boot ex_nenv)) \<lparr> rmt_pxN1Port := N1Table, free_desc := [] \<rparr>"

theorem wifi_flow_allocated_witness:
  "\<exists>f s1 s2 fl. xShimFlowAllocateRequest ex_senv True (Some \<lparr> ii_xId = 1, ii_xType = eNormal \<rparr>) (Some destinationInfo) (Some destinationInfo) 1
       (ex_wifi [] (Handle \<lparr> pxPa = Some 2, pxHa = Some 4 \<rparr>) Unset ex_arp2) [0] = Some (True, Some f, s1, [0])
    \<and> prvHandleEthernetPacket ex_senv True True ex_reply 28 s1 ex_wifi_dp
        = Some (Some EthShimFlowAllocated, s2, (snd (xNormalFlowBinding 1 ex_wifi_dp)) \<lparr> free_desc := nb_id ex_reply # free_desc ex_wifi_dp \<rparr>)
    \<and> ws_flows s2 = [fl] \<and> ePortIdState fl = eALLOCATED"
proof -
  let ?s = "ex_wifi [] (Handle \<lparr> pxPa = Some 2, pxHa = Some 4 \<rparr>) Unset ex_arp2"
  obtain g where g: "pxNameToGPA True True True (Some destinationInfo) = Some (Some g)" "gpa_ok g" "uxLength g < 256"
    by (rule ex_destination)
  have r: "wifi_ready ex_senv (ex_gpa [65]) ex_gha ?s" "se_queue ex_senv"
    using ex_arp2_wf ex_arp2_objects ex_gpa_ok(1)[of "[65]"] by (simp_all add: wifi_ready_def ex_wifi_def ex_senv_def)
  have m: "max (uxLength (ex_gpa [65])) (uxLength g) < 256" "0 \<notin> set ([] :: nat list)"
    using g(3) ex_gpa_ok(3)[of "[65]"] by simp_all
  have l: "length (replicate 6 0xFF :: u8 list) = 6" "length [9, 9, 9, 9, 9, 9 :: u8] = 6" "(1::nat) < 256"
    "(0 :: u8) \<notin> set [65]" "[65 :: u8] \<noteq> []" "length [65 :: u8] \<le> 1" "(0 :: u8) \<notin> set [66]" "[66 :: u8] \<noteq> []" "length [66 :: u8] \<le> 1"
    by simp_all
  have nb: "pucEthernetBuffer ex_reply = Some (arp_frame (replicate 6 0xFF) [9, 9, 9, 9, 9, 9] (padded 1 [65]) 1 (padded 1 [66]) ARP_REPLY @ [])"
    "22 \<le> (28::nat)" by (simp_all add: ex_nb_def ex_reply_def)
  have b: "fst (xNormalFlowBinding 1 ex_wifi_dp)" "nb_id ex_reply \<notin> set (free_desc ex_wifi_dp)"
    by (simp_all add: xNormalFlowBinding_def xRmtN1PortBind_def is_port_id_ok_def ex_wifi_dp_def)
  show ?thesis
    using wifi_flow_allocated[OF r g(1,2) m l nb b, of "\<lparr> ii_xId = 1, ii_xType = eNormal \<rparr>" destinationInfo True]
    by (elim exE conjE) (intro exI conjI)
qed

section \<open>Unregistering\<close>

definition rows_used :: "arp \<Rightarrow> nat" where
  "rows_used a = length (filter (\<lambda>r. ucAge r \<noteq> 0) (xARPCache a))"

lemma filter_update:
  "x < length xs \<Longrightarrow> P (xs ! x) \<Longrightarrow> \<not> P r \<Longrightarrow> Suc (length (filter P (xs[x := r]))) = length (filter P xs)"
proof (induction xs arbitrary: x)
  case (Cons a xs)
  then show ?case by (cases x) auto
qed simp

lemma find_gpa_ok:
  assumes "gpa_ok g" "\<forall>r \<in> set rs. row_ok s r"
  shows "find_gpa (Some g) s rs = Some (first_ix (\<lambda>r. row_addr s r = gpa_bytes g) rs)"
  using assms(2)
proof (induction rs)
  case (Cons r rs)
  then have "row_ok s r" by simp
  then obtain q where "gpa_deref (pxProtocolAddress r) s = Some (Some q)" "gpa_ok q" "row_addr s r = gpa_bytes q"
    by (rule row_ok_gpa)
  with Cons assms(1) show ?case by (simp add: gpa_cmp_ok)
qed simp

text \<open>No free row holds the address.\<close>

definition only_used :: "arp \<Rightarrow> u8 list \<Rightarrow> bool" where
  "only_used a c \<longleftrightarrow> (\<forall>r \<in> set (xARPCache a). row_addr a r = c \<longrightarrow> ucAge r \<noteq> 0)"

lemma remove_counts:
  assumes "arp_wf a" "gpas a i = Some g" "gpa_ok g" "ghas a j = Some h" "only_used a (gpa_bytes g)" "\<And>k. mem k"
  obtains a' where "xARPRemove mem (Some i) (Some j) a = Some (arp_known a (gpa_bytes g), a')"
    "rows_used a' + (if arp_known a (gpa_bytes g) then 1 else 0) = rows_used a" "\<not> arp_known a (gpa_bytes g) \<longrightarrow> a' = a"
proof -
  let ?c = "gpa_bytes g"
  have d: "gpa_deref (Some i) a = Some (Some g)" "gha_deref (Some j) a = Some (Some h)" "xIsGPAOK (Some g)" "xIsGHAOK (Some h)"
    using assms(2-4) by (auto simp: gpa_deref_def gha_deref_def xIsGHAOK_def) (metis eGHAType_t.exhaust)
  have mem: "(\<lambda>k. mem (3 + k)) = (\<lambda>_. True)" "mem = (\<lambda>_. True)" using assms(6) by auto
  have lk: "eARPLookupGPA (\<lambda>k. mem (3 + k)) (Some g) a = Some (if arp_known a ?c then eARPCacheHit else eARPCacheMiss)"
    using lookup_wf(1)[OF assms(1) _ assms(3), of "\<lambda>_. True"] by (simp add: mem)
  show ?thesis
  proof (cases "arp_known a ?c")
    case False
    then show ?thesis using lk d by (intro that[of a]) (simp_all add: xARPRemove_def)
  next
    case True
    have hs: "heap_ok a" and rows: "\<forall>r \<in> set (xARPCache a). row_ok a r" using assms(1) by (simp_all add: arp_wf_def)
    define hn where "hn = \<lparr> gh_xType = MAC_ADDR_802_3, ucBytes = replicate 6 0xFF :: u8 list \<rparr>"
    define gn where "gn = \<lparr> pucAddress = Some (take 4 (char_bytes ''NULL'') @ [0]), uxLength = 4 \<rparr>"
    obtain ha a1 where a1: "new_gha (Some hn) a = (ha, a1)" by fastforce
    obtain pa a2 where a2: "new_gpa (Some gn) a1 = (pa, a2)" by fastforce
    have "length (ucBytes hn) = 6" by (simp add: hn_def)
    note n1 = new_gha_facts[OF hs a1 this]
    note n2 = new_gpa_facts[OF n1(3) a2]
    have c2: "xARPCache a2 = xARPCache a" using n1(4) n2(4) by simp
    have same: "row_addr a2 r = row_addr a r" if r: "r \<in> set (xARPCache a)" for r
    proof -
      obtain b q where b: "pxProtocolAddress r = Some b" "gpas a b = Some q" using rows r by (auto simp: row_ok_def)
      then have "b \<noteq> arp_next a1" using n1(3,6) by (auto simp: heap_ok_def)
      then show ?thesis using b n2(7) n1(6) by (simp add: row_addr_def gpa_deref_def)
    qed
    have "\<forall>r \<in> set (xARPCache a2). row_ok a2 r"
      using rows row_ok_keeps[OF _ keeps_trans[OF n1(2) n2(2)]] c2 by simp
    then have f: "find_gpa (Some g) a2 (xARPCache a2) = Some (first_ix (\<lambda>r. row_addr a2 r = ?c) (xARPCache a))"
      using find_gpa_ok[OF assms(3)] c2 by simp
    have "\<not> (\<forall>r \<in> set (xARPCache a). \<not> row_addr a2 r = ?c)" using True same by (auto simp: arp_known_def)
    then have "first_ix (\<lambda>r. row_addr a2 r = ?c) (xARPCache a) \<noteq> None" unfolding first_ix_None .
    then obtain x where x: "first_ix (\<lambda>r. row_addr a2 r = ?c) (xARPCache a) = Some x" unfolding not_None_eq by (elim exE)
    have u: "x < length (xARPCache a)" "ucAge (xARPCache a ! x) \<noteq> 0"
      using first_ix_less[OF x] first_ix_holds[OF x] same assms(5) by (auto simp: only_used_def)
    let ?r = "\<lparr> pxProtocolAddress = pa, pxMACAddress = ha, ucAge = 0, ucValid = 0 \<rparr> :: ARPCacheRow_t"
    let ?a = "a2 \<lparr> xARPCache := (xARPCache a)[x := ?r] \<rparr>"
    have cr: "pxARPCreateGHAUnknown True MAC_ADDR_802_3 = Some hn"
      "pxCreateGPA True True (Some (char_bytes ''NULL'')) 4 = Some (Some gn)"
      by (simp_all add: pxARPCreateGHAUnknown_def pxCreateGPA_def char_bytes_def hn_def gn_def)
    have "vARPRemoveCacheEntry mem (Some g) (Some h) a = Some ?a"
      unfolding vARPRemoveCacheEntry_def mem(2) cr a1 Let_def prod.case bind.bind_lunit a2 c2 f[unfolded c2] x option.case by simp
    then have "xARPRemove mem (Some i) (Some j) a = Some (True, ?a)" using lk d True by (simp add: xARPRemove_def)
    moreover have "Suc (rows_used ?a) = rows_used a"
      using filter_update[OF u(1), of "\<lambda>r. ucAge r \<noteq> 0" ?r] u(2) by (simp add: rows_used_def)
    ultimately show ?thesis using True by (intro that[of ?a]) simp_all
  qed
qed

definition handle_at :: "handle \<Rightarrow> arp \<Rightarrow> u8 list \<Rightarrow> bool" where
  "handle_at h a c \<longleftrightarrow> (\<exists>i j g k. h = Handle \<lparr> pxPa = Some i, pxHa = Some j \<rparr> \<and> gpas a i = Some g \<and> gpa_ok g
     \<and> ghas a j = Some k \<and> gpa_bytes g = c)"

lemma drop_handle_counts:
  assumes "arp_wf a" "handle_at h a c" "only_used a c" "\<And>k. mem k"
  obtains a' where "drop_handle mem junk h a = Some (if arp_known a c then (False, h, a') else (True, NoHandle, a))"
    "arp_known a c \<longrightarrow> Suc (rows_used a') = rows_used a"
proof -
  obtain i j g k where h: "h = Handle \<lparr> pxPa = Some i, pxHa = Some j \<rparr>" "gpas a i = Some g" "gpa_ok g" "ghas a j = Some k"
      "gpa_bytes g = c"
    using assms(2) by (auto simp: handle_at_def)
  obtain a' where "xARPRemove mem (Some i) (Some j) a = Some (arp_known a (gpa_bytes g), a')"
    "rows_used a' + (if arp_known a (gpa_bytes g) then 1 else 0) = rows_used a" "\<not> arp_known a (gpa_bytes g) \<longrightarrow> a' = a"
    by (rule remove_counts[OF assms(1) h(2-4) assms(3)[folded h(5)] assms(4)])
  then show ?thesis by (intro that[of a']) (auto simp: drop_handle_def h(1,5))
qed

text \<open>Unregistering reports the opposite of what it does.  While one of the two names of the
  application is in the cache, a call removes one row and answers failure, leaving the
  application registered; only a call that finds neither removes nothing, answers success
  and forgets the names and handles.\<close>

theorem wifi_unregister_inverted:
  assumes "arp_wf (ws_arp s)" "handle_at (pxAppHandle s) (ws_arp s) c1" "handle_at (pxDafHandle s) (ws_arp s) c2"
    and "only_used (ws_arp s) c1" "only_used (ws_arp s) c2" "\<And>k. se_mem env k"
    and "ws_pxAppName s = Name n1" "ws_pxDafName s = Name n2"
  shows "\<exists>s'. xShimApplicationUnregister env (Some nam) s
      = Some (\<not> (arp_known (ws_arp s) c1 \<or> arp_known (ws_arp s) c2), s')
    \<and> (if arp_known (ws_arp s) c1 \<or> arp_known (ws_arp s) c2
       then Suc (rows_used (ws_arp s')) = rows_used (ws_arp s) \<and> ws_pxAppName s' = Name n1
       else ws_arp s' = ws_arp s \<and> ws_pxAppName s' = NoName \<and> ws_pxDafName s' = NoName
         \<and> pxAppHandle s' = NoHandle \<and> pxDafHandle s' = NoHandle)"
proof -
  obtain a1 where a1: "drop_handle (se_mem env) (se_junk env) (pxAppHandle s) (ws_arp s)
      = Some (if arp_known (ws_arp s) c1 then (False, pxAppHandle s, a1) else (True, NoHandle, ws_arp s))"
    "arp_known (ws_arp s) c1 \<longrightarrow> Suc (rows_used a1) = rows_used (ws_arp s)"
    by (rule drop_handle_counts[OF assms(1,2,4,6)])
  obtain a2 where a2: "drop_handle (\<lambda>k. se_mem env (8 + k)) (se_junk env) (pxDafHandle s) (ws_arp s)
      = Some (if arp_known (ws_arp s) c2 then (False, pxDafHandle s, a2) else (True, NoHandle, ws_arp s))"
    "arp_known (ws_arp s) c2 \<longrightarrow> Suc (rows_used a2) = rows_used (ws_arp s)"
    by (rule drop_handle_counts[OF assms(1,3,5) assms(6)])
  show ?thesis
    using a1 a2 assms(7,8)
    by (cases "arp_known (ws_arp s) c1"; cases "arp_known (ws_arp s) c2") (simp_all add: xShimApplicationUnregister_def)
qed

text \<open>The cache with one address of the application in it.\<close>

definition ex_arp3 :: arp where
  "ex_arp3 = the (vARPAddCacheEntry True True (ex_gpa [65]) (Some 4) 1 ex_arp2)"

theorem wifi_unregister_inverted_witness:
  "\<exists>s'. xShimApplicationUnregister ex_senv (Some destinationInfo)
      (ex_wifi [] (Handle \<lparr> pxPa = Some 2, pxHa = Some 4 \<rparr>) (Handle \<lparr> pxPa = Some 3, pxHa = Some 4 \<rparr>) ex_arp3) = Some (False, s')
    \<and> rows_used (ws_arp s') = 0"
proof -
  let ?s = "ex_wifi [] (Handle \<lparr> pxPa = Some 2, pxHa = Some 4 \<rparr>) (Handle \<lparr> pxPa = Some 3, pxHa = Some 4 \<rparr>) ex_arp3"
  obtain a where a: "vARPAddCacheEntry True True (ex_gpa [65]) (Some 4) 1 ex_arp2 = Some a" "ghas a = ghas ex_arp2"
      "\<forall>x. x \<noteq> arp_next ex_arp2 \<longrightarrow> gpas a x = gpas ex_arp2 x"
      "\<exists>p g'. xARPCache a = (xARPCache ex_arp)[0 := \<lparr> pxProtocolAddress = Some p, pxMACAddress = Some 4, ucAge = 1, ucValid = 1 \<rparr>]
        \<and> gpas a p = Some g' \<and> gpa_bytes g' = [65]"
    using add_entry_total[of "ex_gpa [65]" ex_arp2 4 ex_gha 1 thesis] ex_arp2_wf ex_arp2_objects ex_arp_free(1)
    by (simp add: ex_gpa_ok arp_wf_def)
  have e: "ex_arp3 = a" using a(1) by (simp add: ex_arp3_def)
  have w: "arp_wf ex_arp3" using add_entry_wf[OF ex_arp2_wf a(1)] e by simp
  have n: "arp_next ex_arp2 = 5" by (simp add: ex_arp2_def new_gpa_def new_gha_def ex_arp_rows(1))
  obtain p g' where c: "xARPCache ex_arp3 = \<lparr> pxProtocolAddress = Some p, pxMACAddress = Some 4, ucAge = 1, ucValid = 1 \<rparr>
        # replicate 3 \<lparr> pxProtocolAddress = Some 1, pxMACAddress = Some 0, ucAge = 0, ucValid = 0 \<rparr>"
      "gpas ex_arp3 p = Some g'" "gpa_bytes g' = [65]"
    using a(4) by (auto simp: e ex_arp_eq numeral_eq_Suc)
  have g: "gpas ex_arp3 1 = gpas ex_arp2 1" "gpas ex_arp3 2 = Some (ex_gpa [65])" "gpas ex_arp3 3 = Some (ex_gpa [66, 67])"
    "ghas ex_arp3 4 = Some ex_gha"
    using a(2,3) n ex_arp2_objects by (simp_all add: e)
  have r1: "gpas ex_arp2 1 = Some \<lparr> pucAddress = Some [0, 0, 1, 2, 3, 0], uxLength = 5 \<rparr>"
    by (simp add: ex_arp2_def new_gpa_def new_gha_def ex_arp_eq)
  have h: "handle_at (pxAppHandle ?s) (ws_arp ?s) [65]" "handle_at (pxDafHandle ?s) (ws_arp ?s) [66, 67]"
    using g by (auto simp: handle_at_def ex_wifi_def ex_gpa_ok)
  have row: "row_addr ex_arp3 \<lparr> pxProtocolAddress = Some p, pxMACAddress = Some 4, ucAge = 1, ucValid = 1 \<rparr> = [65]"
    "row_addr ex_arp3 \<lparr> pxProtocolAddress = Some 1, pxMACAddress = Some 0, ucAge = 0, ucValid = 0 \<rparr> = [0, 0, 1, 2, 3]"
    using c(2,3) g(1) r1 by (simp_all add: row_addr_def gpa_deref_def gpa_bytes_def)
  have o: "only_used (ws_arp ?s) [65]" "only_used (ws_arp ?s) [66, 67]"
    using row by (auto simp: only_used_def ex_wifi_def c(1))
  have k: "arp_known (ws_arp ?s) [65]" "rows_used (ws_arp ?s) = 1"
    using row by (simp_all add: arp_known_def rows_used_def ex_wifi_def c(1) numeral_3_eq_3)
  have f: "arp_wf (ws_arp ?s)" "ws_pxAppName ?s = Name empty_name" "ws_pxDafName ?s = Name empty_name" "se_mem ex_senv x" for x
    using w by (simp_all add: ex_wifi_def ex_senv_def)
  show ?thesis
    using wifi_unregister_inverted[OF f(1) h o f(4) f(2,3), of destinationInfo] k by auto
qed

end
