(* ===== verification/Pb_Wire.thy ===== *)
theory Pb_Wire
  imports Rina_Prelude
begin

text \<open>
  The wire format of nanopb (\<open>CdapProto/pb_encode.c\<close>, \<open>pb_decode.c\<close>): the streams over a buffer,
  variable-length integers, tags, lengths, and skipping of unknown fields.

  A function of the library returns \<open>true\<close> or \<open>false\<close>: \<open>Ret\<close> and \<open>Fail\<close> here.  \<open>Undef\<close> is a read or
  write outside the buffer behind a stream, or a loop that would not end; that it never happens is a
  theorem.  The text of an error is only logged and is left out.  A stream is a pointer into a
  buffer and a count that limits it; the model keeps the memory from the pointer on (input) or the
  bytes written so far and the room left (output), apart from the count that the code tests.
  Counts are \<open>nat\<close>: they count bytes of memory and do not wrap.
\<close>

datatype 'a pb = Ret 'a | Fail | Undef

fun pb_bind :: "'a pb \<Rightarrow> ('a \<Rightarrow> 'b pb) \<Rightarrow> 'b pb" where
  "pb_bind (Ret x) f = f x"
| "pb_bind Fail f = Fail"
| "pb_bind Undef f = Undef"

lemma pb_bind_cong [fundef_cong]:
  "\<lbrakk>m = m'; \<And>x. m' = Ret x \<Longrightarrow> f x = f' x\<rbrakk> \<Longrightarrow> pb_bind m f = pb_bind m' f'"
  by (cases m') auto

lemma pb_bind_assoc: "pb_bind (pb_bind m f) g = pb_bind m (\<lambda>x. pb_bind (f x) g)"
  by (cases m) auto

lemma pb_bind_Ret: "pb_bind m f = Ret y \<longleftrightarrow> (\<exists>x. m = Ret x \<and> f x = Ret y)"
  by (cases m) auto

lemma pb_bind_defined: "pb_bind m f \<noteq> Undef \<longleftrightarrow> m \<noteq> Undef \<and> (\<forall>x. m = Ret x \<longrightarrow> f x \<noteq> Undef)"
  by (cases m) auto

text \<open>Bits of words as numbers.\<close>

lemma unat_drop_bit: "unat (drop_bit n (w::'a::len word)) = unat w div 2 ^ n"
  by (subst unat_drop_bit_eq) (rule drop_bit_eq_div)

lemma drop_bit_smaller: "w \<noteq> 0 \<Longrightarrow> 0 < n \<Longrightarrow> unat (drop_bit n (w::'a::len word)) < unat w"
  unfolding unat_drop_bit
  using one_less_power[of "2::nat" n] by (intro div_less_dividend) (simp_all add: unat_gt_0)

section \<open>Output streams\<close>

text \<open>A stream without a callback only counts (\<open>PB_OSTREAM_SIZING\<close>).\<close>

record pb_ostream_t =
  os_callback :: bool
  os_state :: "u8 list"
  os_room :: nat
  max_size :: nat
  bytes_written :: nat

definition pb_ostream_from_buffer :: "nat \<Rightarrow> nat \<Rightarrow> pb_ostream_t" where
  "pb_ostream_from_buffer room bufsize =
     \<lparr> os_callback = True, os_state = [], os_room = room, max_size = bufsize, bytes_written = 0 \<rparr>"

definition PB_OSTREAM_SIZING :: pb_ostream_t where
  "PB_OSTREAM_SIZING =
     \<lparr> os_callback = False, os_state = [], os_room = 0, max_size = 0, bytes_written = 0 \<rparr>"

definition out_buf_write :: "pb_ostream_t \<Rightarrow> u8 list \<Rightarrow> pb_ostream_t pb" where
  "out_buf_write s buf =
     (if os_room s < length buf then Undef
      else Ret (s \<lparr> os_state := os_state s @ buf, os_room := os_room s - length buf \<rparr>))"

definition pb_write :: "pb_ostream_t \<Rightarrow> u8 list \<Rightarrow> pb_ostream_t pb" where
  "pb_write s buf =
     pb_bind
       (if 0 < length buf \<and> os_callback s then
          if max_size s < bytes_written s + length buf then Fail else out_buf_write s buf
        else Ret s)
       (\<lambda>s. Ret (s \<lparr> bytes_written := bytes_written s + length buf \<rparr>))"

section \<open>Integers, tags and strings written\<close>

text \<open>\<open>pb_encode_varint_32\<close> works on the two halves of the value to avoid 64-bit shifts: the first
  loop takes seven bits at a time from the low half while \<open>i < 4\<close>, the second from the high half.\<close>

fun varint_low :: "nat \<Rightarrow> u32 \<Rightarrow> u32 \<Rightarrow> u8 \<Rightarrow> u8 list \<Rightarrow> u8 list \<times> u8" where
  "varint_low 0 low high byte buffer = (buffer, byte)"
| "varint_low (Suc n) low high byte buffer =
     (if low \<noteq> 0 \<or> high \<noteq> 0
      then varint_low n (drop_bit 7 low) high (ucast (and low 0x7F)) (buffer @ [or byte 0x80])
      else (buffer, byte))"

function varint_high :: "u32 \<Rightarrow> u8 \<Rightarrow> u8 list \<Rightarrow> u8 list \<times> u8" where
  "varint_high high byte buffer =
     (if high \<noteq> 0
      then varint_high (drop_bit 7 high) (ucast (and high 0x7F)) (buffer @ [or byte 0x80])
      else (buffer, byte))"
  by pat_completeness auto
termination
proof (relation "measure (\<lambda>(h, _, _). unat h)", simp)
  fix high :: u32 and byte :: u8 and buffer :: "u8 list"
  assume "high \<noteq> 0"
  then show "((drop_bit 7 high, ucast (and high 0x7F), buffer @ [or byte 0x80]), high, byte, buffer)
      \<in> measure (\<lambda>(h, _, _). unat h)"
    using drop_bit_smaller[of high 7] by simp
qed

declare varint_high.simps [simp del]

definition pb_encode_varint_32 :: "pb_ostream_t \<Rightarrow> u32 \<Rightarrow> u32 \<Rightarrow> pb_ostream_t pb" where
  "pb_encode_varint_32 s low high =
     (let byte = ucast (and low 0x7F);
          low = drop_bit 7 low;
          (buffer, byte) = varint_low 4 low high byte [];
          (buffer, byte) =
            (if high \<noteq> 0
             then varint_high (drop_bit 3 high) (ucast (or (ucast byte) (push_bit 4 (and high 7)))) buffer
             else (buffer, byte))
      in pb_write s (buffer @ [byte]))"

definition pb_encode_varint :: "pb_ostream_t \<Rightarrow> u64 \<Rightarrow> pb_ostream_t pb" where
  "pb_encode_varint s v =
     (if v \<le> 0x7F then pb_write s [ucast v]
      else pb_encode_varint_32 s (ucast v) (ucast (drop_bit 32 v)))"

text \<open>The zigzag of signed integers.\<close>

definition zigzag :: "int \<Rightarrow> u64" where
  "zigzag v = (if v < 0 then not (push_bit 1 (word_of_int v)) else push_bit 1 (word_of_int v))"

definition pb_encode_svarint :: "pb_ostream_t \<Rightarrow> int \<Rightarrow> pb_ostream_t pb" where
  "pb_encode_svarint s v = pb_encode_varint s (zigzag v)"

text \<open>The target is little endian: the four or eight bytes in memory order.\<close>

fun le_bytes :: "nat \<Rightarrow> int \<Rightarrow> u8 list" where
  "le_bytes 0 v = []"
| "le_bytes (Suc n) v = word_of_int v # le_bytes n (v div 256)"

definition pb_encode_fixed32 :: "pb_ostream_t \<Rightarrow> int \<Rightarrow> pb_ostream_t pb" where
  "pb_encode_fixed32 s v = pb_write s (le_bytes 4 v)"

definition pb_encode_fixed64 :: "pb_ostream_t \<Rightarrow> int \<Rightarrow> pb_ostream_t pb" where
  "pb_encode_fixed64 s v = pb_write s (le_bytes 8 v)"

text \<open>The wire types.\<close>

abbreviation (input) PB_WT_VARINT :: nat where "PB_WT_VARINT \<equiv> 0"
abbreviation (input) PB_WT_64BIT :: nat where "PB_WT_64BIT \<equiv> 1"
abbreviation (input) PB_WT_STRING :: nat where "PB_WT_STRING \<equiv> 2"
abbreviation (input) PB_WT_32BIT :: nat where "PB_WT_32BIT \<equiv> 5"
abbreviation (input) PB_WT_PACKED :: nat where "PB_WT_PACKED \<equiv> 255"

definition pb_encode_tag :: "pb_ostream_t \<Rightarrow> nat \<Rightarrow> nat \<Rightarrow> pb_ostream_t pb" where
  "pb_encode_tag s wiretype field_number =
     pb_encode_varint s (or (push_bit 3 (of_nat field_number)) (of_nat wiretype))"

definition pb_encode_string :: "pb_ostream_t \<Rightarrow> u8 list \<Rightarrow> pb_ostream_t pb" where
  "pb_encode_string s buffer =
     pb_bind (pb_encode_varint s (of_nat (length buffer))) (\<lambda>s. pb_write s buffer)"

section \<open>Input streams\<close>

record pb_istream_t =
  is_state :: "u8 list"
  bytes_left :: nat

definition pb_istream_from_buffer :: "u8 list \<Rightarrow> nat \<Rightarrow> pb_istream_t" where
  "pb_istream_from_buffer buf msglen = \<lparr> is_state = buf, bytes_left = msglen \<rparr>"

definition in_buf_read :: "pb_istream_t \<Rightarrow> nat \<Rightarrow> (u8 list \<times> pb_istream_t) pb" where
  "in_buf_read s count =
     (if length (is_state s) < count then Undef
      else Ret (take count (is_state s), s \<lparr> is_state := drop count (is_state s) \<rparr>))"

definition pb_read :: "pb_istream_t \<Rightarrow> nat \<Rightarrow> (u8 list \<times> pb_istream_t) pb" where
  "pb_read s count =
     (if count = 0 then Ret ([], s)
      else if bytes_left s < count then Fail
      else pb_bind (in_buf_read s count)
             (\<lambda>(buf, s). Ret (buf, s \<lparr> bytes_left := bytes_left s - count \<rparr>)))"

definition pb_readbyte :: "pb_istream_t \<Rightarrow> (u8 \<times> pb_istream_t) pb" where
  "pb_readbyte s =
     (if bytes_left s = 0 then Fail
      else pb_bind (in_buf_read s 1)
             (\<lambda>(buf, s). Ret (hd buf, s \<lparr> bytes_left := bytes_left s - 1 \<rparr>)))"

text \<open>\<open>pb_decode_varint32_eof\<close>: the loop from the second byte on, then the whole.  \<open>None\<close> in the result
  is \<open>false\<close> with \<open>eof\<close> set.\<close>

function varint32_loop :: "nat \<Rightarrow> u32 \<Rightarrow> pb_istream_t \<Rightarrow> (nat \<times> u8 \<times> u32 \<times> pb_istream_t) pb" where
  "varint32_loop bitpos result s =
     pb_bind (pb_readbyte s) (\<lambda>(byte, s).
       let valid_extension = (and byte 0x7F = 0 \<or>
             drop_bit 31 result \<noteq> 0 \<and> byte = (if bitpos < 63 then 0xFF else 0x01))
       in if 32 \<le> bitpos \<and> (64 \<le> bitpos \<or> \<not> valid_extension) then Fail
          else
            let result = (if 32 \<le> bitpos then result
                          else or result (push_bit bitpos (ucast (and byte 0x7F))))
            in if and byte 0x80 \<noteq> 0 then varint32_loop (bitpos + 7) result s
               else Ret (bitpos + 7, byte, result, s))"
  by pat_completeness auto
termination by (relation "measure (\<lambda>(b, _, _). 64 - b)") auto

declare varint32_loop.simps [simp del]

definition pb_decode_varint32_eof :: "pb_istream_t \<Rightarrow> (u32 option \<times> pb_istream_t) pb" where
  "pb_decode_varint32_eof s =
     (if bytes_left s = 0 then Ret (None, s)
      else pb_bind (pb_readbyte s) (\<lambda>(byte, s).
        if and byte 0x80 = 0 then Ret (Some (ucast byte), s)
        else pb_bind (varint32_loop 7 (ucast (and byte 0x7F)) s) (\<lambda>(bitpos, byte, result, s).
          if bitpos = 35 \<and> and byte 0x70 \<noteq> 0 then Fail else Ret (Some result, s))))"

definition pb_decode_varint32 :: "pb_istream_t \<Rightarrow> (u32 \<times> pb_istream_t) pb" where
  "pb_decode_varint32 s =
     pb_bind (pb_decode_varint32_eof s) (\<lambda>(r, s).
       case r of None \<Rightarrow> Fail | Some v \<Rightarrow> Ret (v, s))"

function varint_loop :: "nat \<Rightarrow> u64 \<Rightarrow> pb_istream_t \<Rightarrow> (u64 \<times> pb_istream_t) pb" where
  "varint_loop bitpos result s =
     (if 64 \<le> bitpos then Fail
      else pb_bind (pb_readbyte s) (\<lambda>(byte, s).
        let result = or result (push_bit bitpos (ucast (and byte 0x7F)))
        in if and byte 0x80 \<noteq> 0 then varint_loop (bitpos + 7) result s else Ret (result, s)))"
  by pat_completeness auto
termination by (relation "measure (\<lambda>(b, _, _). 64 - b)") auto

declare varint_loop.simps [simp del]

definition pb_decode_varint :: "pb_istream_t \<Rightarrow> (u64 \<times> pb_istream_t) pb" where
  "pb_decode_varint s = varint_loop 0 0 s"

definition unzigzag :: "u64 \<Rightarrow> int" where
  "unzigzag v = sint (if and v 1 \<noteq> 0 then not (drop_bit 1 v) else drop_bit 1 v)"

definition pb_decode_svarint :: "pb_istream_t \<Rightarrow> (int \<times> pb_istream_t) pb" where
  "pb_decode_svarint s =
     pb_bind (pb_decode_varint s) (\<lambda>(v, s). Ret (unzigzag v, s))"

definition pb_decode_bool :: "pb_istream_t \<Rightarrow> (bool \<times> pb_istream_t) pb" where
  "pb_decode_bool s = pb_bind (pb_decode_varint32 s) (\<lambda>(v, s). Ret (v \<noteq> 0, s))"

fun le_value :: "u8 list \<Rightarrow> int" where
  "le_value [] = 0"
| "le_value (b # bs) = uint b + 256 * le_value bs"

definition pb_decode_fixed32 :: "pb_istream_t \<Rightarrow> (int \<times> pb_istream_t) pb" where
  "pb_decode_fixed32 s = pb_bind (pb_read s 4) (\<lambda>(b, s). Ret (le_value b, s))"

definition pb_decode_fixed64 :: "pb_istream_t \<Rightarrow> (int \<times> pb_istream_t) pb" where
  "pb_decode_fixed64 s = pb_bind (pb_read s 8) (\<lambda>(b, s). Ret (le_value b, s))"

text \<open>A tag, \<open>None\<close> at the end of the stream: the wire type and the number of the field.\<close>

definition pb_decode_tag :: "pb_istream_t \<Rightarrow> ((nat \<times> nat) option \<times> pb_istream_t) pb" where
  "pb_decode_tag s =
     pb_bind (pb_decode_varint32_eof s) (\<lambda>(r, s).
       Ret (map_option (\<lambda>temp. (unat (and temp 7), unat (drop_bit 3 temp))) r, s))"

function pb_skip_varint :: "pb_istream_t \<Rightarrow> pb_istream_t pb" where
  "pb_skip_varint s =
     pb_bind (pb_read s 1) (\<lambda>(b, s').
       if and (hd b) 0x80 \<noteq> 0 then pb_skip_varint s' else Ret s')"
  by pat_completeness auto
termination
  by (relation "measure bytes_left")
    (auto simp: pb_read_def in_buf_read_def pb_bind_Ret split: if_splits)

declare pb_skip_varint.simps [simp del]

definition pb_skip_string :: "pb_istream_t \<Rightarrow> pb_istream_t pb" where
  "pb_skip_string s =
     pb_bind (pb_decode_varint32 s) (\<lambda>(len, s). pb_bind (pb_read s (unat len)) (\<lambda>(_, s). Ret s))"

definition pb_skip_field :: "pb_istream_t \<Rightarrow> nat \<Rightarrow> pb_istream_t pb" where
  "pb_skip_field s wire_type =
     (if wire_type = PB_WT_VARINT then pb_skip_varint s
      else if wire_type = PB_WT_64BIT then pb_bind (pb_read s 8) (\<lambda>(_, s). Ret s)
      else if wire_type = PB_WT_STRING then pb_skip_string s
      else if wire_type = PB_WT_32BIT then pb_bind (pb_read s 4) (\<lambda>(_, s). Ret s)
      else Fail)"

text \<open>\<open>read_raw_value\<close> copies a scalar into a buffer of ten bytes; \<open>n\<close> counts them.\<close>

function raw_varint :: "nat \<Rightarrow> pb_istream_t \<Rightarrow> pb_istream_t pb" where
  "raw_varint n s =
     (if 10 < n + 1 then Fail
      else pb_bind (pb_read s 1) (\<lambda>(b, s').
        if and (hd b) 0x80 \<noteq> 0 then raw_varint (n + 1) s' else Ret s'))"
  by pat_completeness auto
termination by (relation "measure (\<lambda>(n, _). 10 - n)") auto

declare raw_varint.simps [simp del]

definition read_raw_value :: "pb_istream_t \<Rightarrow> nat \<Rightarrow> pb_istream_t pb" where
  "read_raw_value s wire_type =
     (if wire_type = PB_WT_VARINT then raw_varint 0 s
      else if wire_type = PB_WT_64BIT then pb_bind (pb_read s 8) (\<lambda>(_, s). Ret s)
      else if wire_type = PB_WT_32BIT then pb_bind (pb_read s 4) (\<lambda>(_, s). Ret s)
      else Fail)"

text \<open>A substream starts where the stream stands; closing it skips what is left of it and moves the
  stream behind it.\<close>

definition pb_make_string_substream :: "pb_istream_t \<Rightarrow> (pb_istream_t \<times> pb_istream_t) pb" where
  "pb_make_string_substream s =
     pb_bind (pb_decode_varint32 s) (\<lambda>(n, s).
       if bytes_left s < unat n then Fail
       else Ret (s \<lparr> bytes_left := bytes_left s - unat n \<rparr>, s \<lparr> bytes_left := unat n \<rparr>))"

definition pb_close_string_substream :: "pb_istream_t \<Rightarrow> pb_istream_t \<Rightarrow> pb_istream_t pb" where
  "pb_close_string_substream s sub =
     pb_bind (if bytes_left sub \<noteq> 0 then pb_read sub (bytes_left sub) else Ret ([], sub))
       (\<lambda>(_, sub). Ret (s \<lparr> is_state := is_state sub \<rparr>))"

section \<open>What is written\<close>

fun varint :: "nat \<Rightarrow> u8 list" where
  "varint n = (if n < 128 then [of_nat n] else of_nat (n mod 128 + 128) # varint (n div 128))"

declare varint.simps [simp del]

lemma varint_small: "n < 128 \<Longrightarrow> varint n = [of_nat n]"
  by (simp add: varint.simps)

lemma varint_big: "128 \<le> n \<Longrightarrow> varint n = of_nat (n mod 128 + 128) # varint (n div 128)"
  by (subst varint.simps) simp

lemma varint_step:
  "b < 128 \<Longrightarrow> 0 < m \<Longrightarrow> varint (b + 128 * m) = of_nat (b + 128) # varint m"
  by (subst varint_big) auto

lemma varint_not_Nil [simp]: "varint n \<noteq> []"
  by (simp add: varint.simps)

lemma take_bit_self: "unat (b::'a::len word) < 2 ^ n \<Longrightarrow> take_bit n b = b"
  unfolding word_unat_eq_iff unsigned_take_bit_eq by (rule take_bit_nat_eq_self)

lemma and_push_bit:
  fixes b c :: "'a::len word"
  assumes "unat b < 2 ^ n"
  shows "and b (push_bit n c) = 0"
proof -
  have "i < n" if "bit b i" for i
    using that by (subst (asm) take_bit_self[OF assms, symmetric]) (simp add: bit_take_bit_iff)
  then show ?thesis
    by (intro bit_eqI) (auto simp: bit_and_iff bit_push_bit_iff not_less[symmetric])
qed

lemma unat_or_push:
  fixes b c :: "'a::len word"
  assumes "unat b < 2 ^ n" "unat b + 2 ^ n * unat c < 2 ^ LENGTH('a)"
  shows "unat (or b (push_bit n c)) = unat b + 2 ^ n * unat c"
proof -
  have "or b (push_bit n c) = b + push_bit n c"
    using and_push_bit[OF assms(1)] by (simp add: disjunctive_add_eq_or)
  moreover have "unat (push_bit n c) = take_bit LENGTH('a) (2 ^ n * unat c)"
    by (subst unsigned_push_bit_eq) (simp only: push_bit_eq_mult mult.commute)
  then have "unat (push_bit n c) = 2 ^ n * unat c"
    using assms(2) by (simp only: take_bit_nat_eq_self)
  ultimately show ?thesis
    using assms(2) by (simp only: unat_word_ariths mod_less)
qed

lemma unat_take_bit: "unat (take_bit n (w::'a::len word)) = unat w mod 2 ^ n"
  by (subst unsigned_take_bit_eq) (rule take_bit_eq_mod)

lemma and_mask7: "and (w::'a::len word) 0x7F = take_bit 7 w"
  by (simp add: take_bit_eq_mask mask_numeral)

lemma low7:
  "unat (ucast (and (w::u32) 0x7F) :: u8) = unat w mod 128"
  "unat (ucast (and (v::u64) 0x7F) :: u8) = unat v mod 128"
  "unat (and (b::u8) 0x7F) = unat b mod 128"
  by (simp_all add: and_mask7 unat_ucast_mod unat_take_bit mod_mod_cancel)

lemma high_bit:
  assumes "unat (b::u8) < 128"
  shows "or b 0x80 = of_nat (unat b + 128)"
proof -
  have "(0x80::u8) = push_bit 7 1" by simp
  then have "unat (or b 0x80) = unat b + 128"
    using unat_or_push[of b 7 1] assms by simp
  then show ?thesis
    by (metis word_nat_cases word_of_nat_eq_iff unat_of_nat take_bit_nat_def word_unat_eq_iff unsigned_less mod_less unsigned_of_nat)
qed

lemma varint_high_bytes:
  assumes "varint_high high byte buffer = (buffer', byte')" "unat byte < 128"
  shows "buffer' @ [byte'] = buffer @ varint (unat byte + 128 * unat high)"
  using assms
proof (induction high byte buffer rule: varint_high.induct)
  case (1 high byte buffer)
  show ?case
  proof (cases "high = 0")
    case True
    with 1(2,3) show ?thesis by (auto simp: varint_high.simps[of 0] varint_small)
  next
    case False
    then have h: "0 < unat high" by (simp add: unat_gt_0)
    have "buffer' @ [byte'] = buffer @ [or byte 0x80] @
        varint (unat (ucast (and high 0x7F) :: u8) + 128 * unat (drop_bit 7 high))"
      using 1(1)[OF False] 1(2) False by (simp add: varint_high.simps[of high] low7)
    then show ?thesis
      using h 1(3) by (simp add: low7 unat_drop_bit varint_step high_bit)
  qed
qed

lemma u64_bound: "unat (v::u64) < 18446744073709551616"
  using unsigned_less[of v, where 'a = nat] by simp

lemma varint_low_bytes:
  assumes "varint_low n low high byte buffer = (buffer', byte')"
    "unat byte < 128" "unat byte + 128 * unat low < 2 ^ (7 * n + 4)"
  shows "high = 0 \<Longrightarrow> buffer' @ [byte'] = buffer @ varint (unat byte + 128 * unat low)"
    "high \<noteq> 0 \<Longrightarrow> unat byte' < 16 \<and>
       buffer' @ varint (unat byte' + 16 * unat high)
         = buffer @ varint (unat byte + 128 * unat low + 2 ^ (7 * n + 4) * unat high)"
proof -
  have "(high = 0 \<longrightarrow> buffer' @ [byte'] = buffer @ varint (unat byte + 128 * unat low)) \<and>
    (high \<noteq> 0 \<longrightarrow> unat byte' < 16 \<and>
       buffer' @ varint (unat byte' + 16 * unat high)
         = buffer @ varint (unat byte + 128 * unat low + 2 ^ (7 * n + 4) * unat high))"
    using assms
  proof (induction n low high byte buffer rule: varint_low.induct)
    case (1 low high byte buffer)
    then have "unat low = 0" by simp
    with 1 show ?case by (auto simp: varint_small)
  next
    case (2 n low high byte buffer)
    let ?b = "ucast (and low 0x7F) :: u8" and ?l = "drop_bit 7 low"
    have l: "unat ?b + 128 * unat ?l = unat low"
      by (simp add: low7 unat_drop_bit)
    show ?case
    proof (cases "low \<noteq> 0 \<or> high \<noteq> 0")
      case True
      have "unat ?b < 128" by (simp add: low7)
      moreover have "unat low < 2 ^ (7 * n + 4)"
        using 2(4) by (simp add: power_add)
      ultimately have IH: "(high = 0 \<longrightarrow> buffer' @ [byte'] = (buffer @ [or byte 0x80]) @ varint (unat low)) \<and>
        (high \<noteq> 0 \<longrightarrow> unat byte' < 16 \<and> buffer' @ varint (unat byte' + 16 * unat high)
          = (buffer @ [or byte 0x80]) @ varint (unat low + 2 ^ (7 * n + 4) * unat high))"
        using 2(1)[OF True] 2(2) True l by simp
      have e: "unat byte + 128 * unat low + 2 ^ (7 * Suc n + 4) * unat high
          = unat byte + 128 * (unat low + 2 ^ (7 * n + 4) * unat high)"
        by (simp add: power_add algebra_simps)
      have "0 < unat low + 2 ^ (7 * n + 4) * unat high"
        using True by (auto simp: unat_gt_0)
      note st = varint_step[OF 2(3) this] high_bit[OF 2(3)]
      show ?thesis
      proof (cases "high = 0")
        case True
        with IH st show ?thesis by simp
      next
        case False
        with IH show ?thesis unfolding e st by simp
      qed
    next
      case False
      with 2(2,3) show ?thesis by (auto simp: varint_small)
    qed
  qed
  then show "high = 0 \<Longrightarrow> buffer' @ [byte'] = buffer @ varint (unat byte + 128 * unat low)"
    "high \<noteq> 0 \<Longrightarrow> unat byte' < 16 \<and>
       buffer' @ varint (unat byte' + 16 * unat high)
         = buffer @ varint (unat byte + 128 * unat low + 2 ^ (7 * n + 4) * unat high)"
    by blast+
qed

lemma split_eight: "16 * (a mod 8) + 128 * (a div 8) = 16 * (a::nat)"
proof -
  have "16 * (a mod 8) + 128 * (a div 8) = 16 * (8 * (a div 8) + a mod 8)"
    by (simp only: distrib_left mult.assoc[symmetric])
  then show ?thesis by (simp only: mult_div_mod_eq)
qed

lemma varint_32_bytes:
  "pb_encode_varint_32 s low high = pb_write s (varint (unat low + 2 ^ 32 * unat high))"
proof -
  let ?b = "ucast (and low 0x7F) :: u8"
  have l: "unat ?b + 128 * unat (drop_bit 7 low) = unat low"
    by (simp add: low7 unat_drop_bit)
  obtain buffer byte where lo: "varint_low 4 (drop_bit 7 low) high ?b [] = (buffer, byte)"
    by (cases "varint_low 4 (drop_bit 7 low) high ?b []")
  have r: "unat ?b < 128" "unat ?b + 128 * unat (drop_bit 7 low) < 2 ^ (7 * 4 + 4)"
    using l u32_bound[of low] by (auto simp: low7)
  note L = varint_low_bytes[OF lo r, simplified l]
  show ?thesis
  proof (cases "high = 0")
    case True
    then show ?thesis using L(1) lo by (simp add: pb_encode_varint_32_def)
  next
    case False
    let ?b' = "ucast (or (ucast byte) (push_bit 4 (and high 7))) :: u8"
    have m: "unat (and high 7) = unat high mod 8"
      using unat_take_bit[of 3 high] by (simp add: take_bit_eq_mask mask_numeral)
    have bb: "unat byte < 16" using L(2)[OF False] by simp
    then have "unat (ucast byte :: u32) = unat byte"
      by (simp add: unat_ucast_mod)
    then have "unat (or (ucast byte :: u32) (push_bit 4 (and high 7))) = unat byte + 16 * (unat high mod 8)"
      using unat_or_push[of "ucast byte :: u32" 4 "and high 7"] bb m \<open>unat (ucast byte :: u32) = unat byte\<close> by simp
    then have b': "unat ?b' = unat byte + 16 * (unat high mod 8)"
      using bb by (simp add: unat_ucast_mod)
    obtain buffer' byte' where hi: "varint_high (drop_bit 3 high) ?b' buffer = (buffer', byte')"
      by (cases "varint_high (drop_bit 3 high) ?b' buffer")
    have "unat ?b' < 128" using bb b' by simp
    have e: "unat byte + 16 * (unat high mod 8) + 128 * (unat high div 2 ^ 3) = unat byte + 16 * unat high"
      by (simp add: split_eight)
    from varint_high_bytes[OF hi \<open>unat ?b' < 128\<close>]
    have "buffer' @ [byte'] = buffer @ varint (unat byte + 16 * unat high)"
      unfolding b' unat_drop_bit by (simp only: e)
    then show ?thesis
      using L(2)[OF False] lo hi False by (simp add: pb_encode_varint_32_def)
  qed
qed

lemma pb_encode_varint_bytes: "pb_encode_varint s v = pb_write s (varint (unat v))"
proof (cases "v \<le> 0x7F")
  case True
  then have "unat v < 128" by (simp add: word_le_nat_alt)
  then show ?thesis
    using True by (simp add: pb_encode_varint_def varint_small of_nat_unat)
next
  case False
  have "unat (ucast v :: u32) + 2 ^ 32 * unat (ucast (drop_bit 32 v) :: u32) = unat v"
    using u64_bound[of v] by (simp add: unat_ucast_mod unat_drop_bit)
  then show ?thesis
    using False by (simp only: pb_encode_varint_def varint_32_bytes if_False)
qed

section \<open>What is read\<close>

lemma pb_read_append:
  "n = length b \<Longrightarrow> n \<le> l \<Longrightarrow>
   pb_read \<lparr> is_state = b @ m, bytes_left = l \<rparr> n = Ret (b, \<lparr> is_state = m, bytes_left = l - n \<rparr>)"
  by (auto simp: pb_read_def in_buf_read_def)

lemma pb_readbyte_Cons:
  "0 < l \<Longrightarrow> pb_readbyte \<lparr> is_state = b # m, bytes_left = l \<rparr> = Ret (b, \<lparr> is_state = m, bytes_left = l - 1 \<rparr>)"
  by (simp add: pb_readbyte_def in_buf_read_def)

lemma top_bit: "and (b::u8) 0x80 \<noteq> 0 \<longleftrightarrow> 128 \<le> unat b"
proof -
  have "and b 0x80 \<noteq> 0 \<longleftrightarrow> bit b 7"
    using and_exp_eq_0_iff_not_bit[of b 7] by simp
  also have "\<dots> \<longleftrightarrow> bit (unat b) 7" by (simp add: bit_unsigned_iff)
  also have "\<dots> \<longleftrightarrow> odd (unat b div 128)" using bit_iff_odd[of "unat b" 7] by simp
  also have "\<dots> \<longleftrightarrow> 128 \<le> unat b"
  proof -
    have "unat b div 128 < 2" using unsigned_less[of b, where 'a = nat] by (simp add: div_less_iff_less_mult)
    then have "odd (unat b div 128) \<longleftrightarrow> unat b div 128 \<noteq> 0"
      by (auto simp: less_Suc_eq numeral_2_eq_2)
    also have "\<dots> \<longleftrightarrow> 128 \<le> unat b" by (simp add: div_eq_0_iff not_less)
    finally show ?thesis .
  qed
  finally show ?thesis .
qed

lemma unat_u8: "n < 256 \<Longrightarrow> unat (of_nat n :: u8) = n"
  by (simp add: unat_of_nat)

lemma shift_seven: "2 ^ n * (r + 128 * q) = 2 ^ n * r + 2 ^ (n + 7) * (q::nat)"
  by (simp add: power_add algebra_simps)

lemma seven_more:
  assumes "x < 2 ^ n" "r < 128"
  shows "x + 2 ^ n * r < (2::nat) ^ (n + 7)"
proof -
  have "2 ^ n * r \<le> (2::nat) ^ n * 127" using assms(2) by (intro mult_le_mono2) simp
  moreover have "(2::nat) ^ (n + 7) = 2 ^ n * 128" by (simp add: power_add)
  ultimately show ?thesis using assms(1) by linarith
qed

lemma varint_loop_reads:
  assumes "unat result < 2 ^ bitpos" "unat result + 2 ^ bitpos * k < 2 ^ 64" "bitpos < 64"
    "length (varint k) \<le> l"
  shows "varint_loop bitpos result \<lparr> is_state = varint k @ m, bytes_left = l \<rparr>
    = Ret (of_nat (unat result + 2 ^ bitpos * k), \<lparr> is_state = m, bytes_left = l - length (varint k) \<rparr>)"
  using assms
proof (induction k arbitrary: bitpos result l rule: varint.induct)
  case (1 k)
  have step: "unat (or result (push_bit bitpos (ucast (and (of_nat b :: u8) 0x7F)))) = unat result + 2 ^ bitpos * (b mod 128)"
    if "b < 256" "unat result + 2 ^ bitpos * (b mod 128) < 2 ^ 64" for b
  proof -
    have "unat (ucast (and (of_nat b :: u8) 0x7F) :: u64) = b mod 128"
      using that(1) by (simp add: unat_ucast_mod low7 unat_u8)
    then show ?thesis
      using unat_or_push[of result bitpos "ucast (and (of_nat b :: u8) 0x7F)"] 1(2) that(2) by simp
  qed
  show ?case
  proof (cases "k < 128")
    case True
    have v: "varint k = [of_nat k]" using True by (rule varint_small)
    have "unat result + 2 ^ bitpos * (k mod 128) < 2 ^ 64" using 1(3) True by simp
    from step[OF _ this] True
    have "unat (or result (push_bit bitpos (ucast (and (of_nat k :: u8) 0x7F)))) = unat result + 2 ^ bitpos * k"
      by simp
    from arg_cong[OF this, of "of_nat :: nat \<Rightarrow> u64"]
    have "or result (push_bit bitpos (ucast (and (of_nat k :: u8) 0x7F))) = of_nat (unat result + 2 ^ bitpos * k)"
      by (simp only: of_nat_unat ucast_id)
    then show ?thesis
      using 1(4,5) True v by (simp add: varint_loop.simps[of bitpos] pb_readbyte_Cons top_bit unat_u8 not_le)
  next
    case False
    let ?b = "k mod 128 + 128"
    let ?r = "or result (push_bit bitpos (ucast (and (of_nat ?b :: u8) 0x7F)))"
    have v: "varint k = of_nat ?b # varint (k div 128)" using False by (intro varint_big) simp
    have k: "2 ^ bitpos * k = 2 ^ bitpos * (k mod 128) + 2 ^ (bitpos + 7) * (k div 128)"
      using shift_seven[of bitpos "k mod 128" "k div 128"] by simp
    have r: "unat ?r = unat result + 2 ^ bitpos * (k mod 128)"
      using step[of ?b] 1(3) k by simp
    have lt: "unat ?r < 2 ^ (bitpos + 7)"
      using r seven_more[OF 1(2), of "k mod 128"] by simp
    have "0 < k div 128" using False by (simp add: div_greater_zero_iff)
    then have "2 ^ (bitpos + 7) \<le> 2 ^ (bitpos + 7) * (k div 128)" by simp
    then have "(2::nat) ^ (bitpos + 7) < 2 ^ 64" using 1(3) k by linarith
    then have b: "bitpos + 7 < 64" by (simp only: power_strict_increasing_iff)
    have sum: "unat ?r + 2 ^ (bitpos + 7) * (k div 128) = unat result + 2 ^ bitpos * k"
      using r k by simp
    have "varint_loop (bitpos + 7) ?r \<lparr> is_state = varint (k div 128) @ m, bytes_left = l - 1 \<rparr>
      = Ret (of_nat (unat result + 2 ^ bitpos * k),
             \<lparr> is_state = m, bytes_left = l - 1 - length (varint (k div 128)) \<rparr>)"
      using 1(1)[OF False lt _ b, of "l - 1"] 1(3,5) v unfolding sum by simp
    then show ?thesis
      using 1(4,5) v
      by (simp add: varint_loop.simps[of bitpos] pb_readbyte_Cons top_bit unat_u8 Let_def del: of_nat_add)
  qed
qed

lemma pb_decode_varint_reads:
  assumes "k < 2 ^ 64" "length (varint k) \<le> l"
  shows "pb_decode_varint \<lparr> is_state = varint k @ m, bytes_left = l \<rparr>
    = Ret (of_nat k, \<lparr> is_state = m, bytes_left = l - length (varint k) \<rparr>)"
  using varint_loop_reads[of 0 0 k l m] assms by (simp add: pb_decode_varint_def)

lemma varint32_loop_reads:
  assumes "unat result < 2 ^ bitpos" "unat result + 2 ^ bitpos * k < 2 ^ 32" "bitpos < 32"
    "length (varint k) \<le> l"
  shows "\<exists>bp byte. varint32_loop bitpos result \<lparr> is_state = varint k @ m, bytes_left = l \<rparr>
      = Ret (bp, byte, of_nat (unat result + 2 ^ bitpos * k),
          \<lparr> is_state = m, bytes_left = l - length (varint k) \<rparr>) \<and> (bp = 35 \<longrightarrow> unat byte < 16)"
  using assms
proof (induction k arbitrary: bitpos result l rule: varint.induct)
  case (1 k)
  have step: "unat (or result (push_bit bitpos (ucast (and (of_nat b :: u8) 0x7F)))) = unat result + 2 ^ bitpos * (b mod 128)"
    if "b < 256" "unat result + 2 ^ bitpos * (b mod 128) < 2 ^ 32" for b
  proof -
    have "unat (ucast (and (of_nat b :: u8) 0x7F) :: u32) = b mod 128"
      using that(1) by (simp add: unat_ucast_mod low7 unat_u8)
    then show ?thesis
      using unat_or_push[of result bitpos "ucast (and (of_nat b :: u8) 0x7F)"] 1(2) that(2) by simp
  qed
  show ?case
  proof (cases "k < 128")
    case True
    have v: "varint k = [of_nat k]" using True by (rule varint_small)
    have "unat result + 2 ^ bitpos * (k mod 128) < 2 ^ 32" using 1(3) True by simp
    from step[OF _ this] True
    have "unat (or result (push_bit bitpos (ucast (and (of_nat k :: u8) 0x7F)))) = unat result + 2 ^ bitpos * k"
      by simp
    from arg_cong[OF this, of "of_nat :: nat \<Rightarrow> u32"]
    have w: "or result (push_bit bitpos (ucast (and (of_nat k :: u8) 0x7F))) = of_nat (unat result + 2 ^ bitpos * k)"
      by (simp only: of_nat_unat ucast_id)
    have "k < 16" if "bitpos = 28" using 1(3) that by simp
    with True have "bitpos + 7 = 35 \<longrightarrow> unat (of_nat k :: u8) < 16"
      by (auto simp: unat_u8)
    then show ?thesis
      using 1(4,5) True v w by (simp add: varint32_loop.simps[of bitpos] pb_readbyte_Cons top_bit unat_u8 not_le)
  next
    case False
    let ?b = "k mod 128 + 128"
    let ?r = "or result (push_bit bitpos (ucast (and (of_nat ?b :: u8) 0x7F)))"
    have v: "varint k = of_nat ?b # varint (k div 128)" using False by (intro varint_big) simp
    have k: "2 ^ bitpos * k = 2 ^ bitpos * (k mod 128) + 2 ^ (bitpos + 7) * (k div 128)"
      using shift_seven[of bitpos "k mod 128" "k div 128"] by simp
    have r: "unat ?r = unat result + 2 ^ bitpos * (k mod 128)"
      using step[of ?b] 1(3) k by simp
    have lt: "unat ?r < 2 ^ (bitpos + 7)"
      using r seven_more[OF 1(2), of "k mod 128"] by simp
    have "0 < k div 128" using False by (simp add: div_greater_zero_iff)
    then have "2 ^ (bitpos + 7) \<le> 2 ^ (bitpos + 7) * (k div 128)" by simp
    then have "(2::nat) ^ (bitpos + 7) < 2 ^ 32" using 1(3) k by linarith
    then have b: "bitpos + 7 < 32" by (simp only: power_strict_increasing_iff)
    have sum: "unat ?r + 2 ^ (bitpos + 7) * (k div 128) = unat result + 2 ^ bitpos * k"
      using r k by simp
    have "\<exists>bp byte. varint32_loop (bitpos + 7) ?r \<lparr> is_state = varint (k div 128) @ m, bytes_left = l - 1 \<rparr>
      = Ret (bp, byte, of_nat (unat result + 2 ^ bitpos * k),
             \<lparr> is_state = m, bytes_left = l - 1 - length (varint (k div 128)) \<rparr>) \<and> (bp = 35 \<longrightarrow> unat byte < 16)"
      using 1(1)[OF False lt _ b, of "l - 1"] 1(3,5) v unfolding sum by simp
    then show ?thesis
      using 1(4,5) v
      by (simp add: varint32_loop.simps[of bitpos] pb_readbyte_Cons top_bit unat_u8 Let_def del: of_nat_add)
  qed
qed

lemma mask_0x70: "unat (b::u8) < 16 \<Longrightarrow> and b 0x70 = 0"
  using and_push_bit[of b 4 7] by simp

lemma pb_decode_varint32_eof_reads:
  assumes "k < 2 ^ 32" "length (varint k) \<le> l"
  shows "pb_decode_varint32_eof \<lparr> is_state = varint k @ m, bytes_left = l \<rparr>
    = Ret (Some (of_nat k), \<lparr> is_state = m, bytes_left = l - length (varint k) \<rparr>)"
proof (cases "k < 128")
  case True
  have "ucast (of_nat k :: u8) = (of_nat k :: u32)"
    using True by (simp add: word_unat_eq_iff unat_ucast_mod unat_of_nat)
  then show ?thesis
    using True assms(2) by (simp add: pb_decode_varint32_eof_def varint_small pb_readbyte_Cons top_bit unat_u8 not_le)
next
  case False
  let ?b = "of_nat (k mod 128 + 128) :: u8"
  have v: "varint k = ?b # varint (k div 128)" using False by (intro varint_big) simp
  have r: "unat (ucast (and ?b 0x7F) :: u32) = k mod 128"
    by (subst unat_ucast_mod) (simp add: low7 unat_u8 del: of_nat_add)
  have s: "k mod 128 + 2 ^ 7 * (k div 128) = k" by simp
  have "length (varint (k div 128)) \<le> l - 1" using assms(2) v by simp
  from varint32_loop_reads[of "ucast (and ?b 0x7F)" 7 "k div 128", OF _ _ _ this, of m, unfolded r s] assms(1)
  obtain bp byte where "varint32_loop 7 (ucast (and ?b 0x7F)) \<lparr> is_state = varint (k div 128) @ m, bytes_left = l - 1 \<rparr>
      = Ret (bp, byte, of_nat k, \<lparr> is_state = m, bytes_left = l - 1 - length (varint (k div 128)) \<rparr>)"
    "bp = 35 \<longrightarrow> unat byte < 16"
    by auto
  then show ?thesis
    using assms(2) v mask_0x70[of byte]
    by (auto simp: pb_decode_varint32_eof_def pb_readbyte_Cons top_bit unat_u8 Let_def simp del: of_nat_add)
qed

lemma pb_decode_varint32_reads:
  "\<lbrakk>k < 2 ^ 32; length (varint k) \<le> l\<rbrakk> \<Longrightarrow>
   pb_decode_varint32 \<lparr> is_state = varint k @ m, bytes_left = l \<rparr>
     = Ret (of_nat k, \<lparr> is_state = m, bytes_left = l - length (varint k) \<rparr>)"
  by (simp add: pb_decode_varint32_def pb_decode_varint32_eof_reads)

lemma and_push_low: "\<lbrakk>w < 8; n < 2 ^ 29\<rbrakk> \<Longrightarrow>
   unat (or (push_bit 3 (of_nat n)) (of_nat w) :: u64) = 8 * n + w"
  using unat_or_push[of "of_nat w :: u64" 3 "of_nat n"]
  by (simp add: unat_of_nat or.commute[of "push_bit 3 _"] del: push_bit_eq_mult)

lemma pb_encode_tag_bytes:
  "\<lbrakk>w < 8; n < 2 ^ 29\<rbrakk> \<Longrightarrow> pb_encode_tag s w n = pb_write s (varint (8 * n + w))"
  by (simp only: pb_encode_tag_def pb_encode_varint_bytes and_push_low)

lemma pb_decode_tag_reads:
  assumes "w < 8" "n < 2 ^ 29" "length (varint (8 * n + w)) \<le> l"
  shows "pb_decode_tag \<lparr> is_state = varint (8 * n + w) @ m, bytes_left = l \<rparr>
    = Ret (Some (w, n), \<lparr> is_state = m, bytes_left = l - length (varint (8 * n + w)) \<rparr>)"
proof -
  have k: "8 * n + w < 2 ^ 32" using assms(1,2) by simp
  then have u: "unat (of_nat (8 * n + w) :: u32) = 8 * n + w"
    by (simp add: unat_of_nat del: of_nat_add of_nat_mult)
  have "unat (and (of_nat (8 * n + w)) 7 :: u32) = w"
    using unat_take_bit[of 3 "of_nat (8 * n + w) :: u32"] assms(1)
    unfolding u by (simp add: take_bit_eq_mask mask_numeral del: of_nat_add of_nat_mult)
  moreover have "unat (drop_bit 3 (of_nat (8 * n + w)) :: u32) = n"
    using assms(1) unfolding unat_drop_bit u by simp
  ultimately show ?thesis
    using pb_decode_varint32_eof_reads[OF k assms(3), of m] by (simp add: pb_decode_tag_def)
qed

lemma low_bit: "and (w::'a::len word) 1 \<noteq> 0 \<longleftrightarrow> odd (unat w)"
proof -
  have "and w 1 \<noteq> 0 \<longleftrightarrow> bit w 0"
    using and_exp_eq_0_iff_not_bit[of w 0] by simp
  also have "\<dots> \<longleftrightarrow> bit (unat w) 0" by (simp add: bit_unsigned_iff)
  also have "\<dots> \<longleftrightarrow> odd (unat w)" by (simp only: bit_0)
  finally show ?thesis .
qed

lemma half_word: "n < 2 ^ 64 \<Longrightarrow> drop_bit 1 (of_nat n :: u64) = of_nat (n div 2)"
proof (subst word_unat_eq_iff)
  assume n: "n < 2 ^ 64"
  then have "n div 2 < 2 ^ 64" by simp
  with n show "unat (drop_bit 1 (of_nat n :: u64)) = unat (of_nat (n div 2) :: u64)"
    unfolding unat_drop_bit by (simp add: unat_of_nat)
qed

lemma zigzag_nat:
  "zigzag v = of_nat (if v < 0 then nat (- 2 * v - 1) else nat (2 * v))"
proof (cases "v < 0")
  case True
  have "not (push_bit 1 (word_of_int v :: u64)) = word_of_int (- 2 * v - 1)"
    by (simp add: not_eq_complement)
  also have "\<dots> = of_nat (nat (- 2 * v - 1))"
    using True by (simp only: of_nat_nat)
  finally show ?thesis using True by (simp add: zigzag_def)
next
  case False
  then have "word_of_int (2 * v) = (of_nat (nat (2 * v)) :: u64)"
    by (simp only: of_nat_nat)
  with False show ?thesis by (simp add: zigzag_def)
qed

lemma unzigzag_of_nat:
  assumes "n < 2 ^ 64"
  shows "unzigzag (of_nat n) = (if odd n then sint (not (of_nat (n div 2) :: u64)) else sint (of_nat (n div 2) :: u64))"
proof -
  have "unat (of_nat n :: u64) = n" using assms by (simp add: unat_of_nat)
  then show ?thesis
    unfolding unzigzag_def low_bit half_word[OF assms] by simp
qed

lemma unzigzag_zigzag:
  assumes "- (2 ^ 63) \<le> v" "v < 2 ^ 63"
  shows "unzigzag (zigzag v) = v"
proof -
  have s: "sint (word_of_int v :: u64) = v"
    using assms by (simp add: signed_of_int signed_take_bit_int_eq_self)
  show ?thesis
  proof (cases "v < 0")
    case True
    let ?n = "nat (- 2 * v - 1)"
    have n: "?n < 2 ^ 64" "odd ?n" "?n div 2 = nat (- v - 1)" using True assms by (auto simp: even_nat_iff)
    have "not (of_nat (nat (- v - 1))) = (word_of_int v :: u64)"
      using True by (simp add: of_nat_nat not_eq_complement)
    then show ?thesis
      unfolding zigzag_nat using True n s unzigzag_of_nat[OF n(1)] by (simp only: if_True not_False_eq_True)
  next
    case False
    let ?n = "nat (2 * v)"
    have n: "?n < 2 ^ 64" "\<not> odd ?n" "?n div 2 = nat v" using False assms by (auto simp: even_nat_iff)
    have "of_nat (nat v) = (word_of_int v :: u64)" using False by simp
    then show ?thesis
      unfolding zigzag_nat using False n s unzigzag_of_nat[OF n(1)] by (simp only: if_False not_True_eq_False)
  qed
qed

lemma le_value_bytes: "0 \<le> v \<Longrightarrow> v < 256 ^ n \<Longrightarrow> le_value (le_bytes n v) = v"
proof (induction n arbitrary: v)
  case (Suc n)
  then have "v div 256 < 256 ^ n" by (simp add: div_less_iff_less_mult mult.commute)
  with Suc have "le_value (le_bytes n (v div 256)) = v div 256" by (simp add: pos_imp_zdiv_nonneg_iff)
  then show ?case by (simp add: uint_word_of_int)
qed simp

lemma length_le_bytes [simp]: "length (le_bytes n v) = n"
  by (induction n arbitrary: v) auto

section \<open>Writing one thing after another\<close>

text \<open>A stream whose limit lies inside its buffer.  On such a stream a sequence of writes is one write of
  everything, and none leaves the buffer.\<close>

definition os_ok :: "pb_ostream_t \<Rightarrow> bool" where
  "os_ok s \<longleftrightarrow> (os_callback s \<longrightarrow>
     bytes_written s \<le> max_size s \<and> max_size s \<le> bytes_written s + os_room s)"

lemma pb_write_explicit:
  "os_ok s \<Longrightarrow> pb_write s b =
     (if os_callback s \<and> b \<noteq> [] then
        if max_size s < bytes_written s + length b then Fail
        else Ret (s \<lparr> os_state := os_state s @ b, os_room := os_room s - length b,
                     bytes_written := bytes_written s + length b \<rparr>)
      else Ret (s \<lparr> bytes_written := bytes_written s + length b \<rparr>))"
  by (auto simp: pb_write_def out_buf_write_def os_ok_def)

lemma pb_write_ok: "os_ok s \<Longrightarrow> pb_write s b = Ret s' \<Longrightarrow> os_ok s'"
  by (auto simp: pb_write_explicit split: if_splits) (auto simp: os_ok_def)

lemma pb_write_Nil: "pb_write s [] = Ret s"
  by (simp add: pb_write_def)

lemma write_then:
  assumes "os_ok s" "\<And>s'. os_ok s' \<Longrightarrow> f s' = pb_write s' b"
  shows "pb_bind (pb_write s a) f = pb_write s (a @ b)"
proof (cases "pb_write s a")
  case (Ret s')
  with assms have "f s' = pb_write s' b" "os_ok s'" using pb_write_ok by blast+
  with Ret assms(1) show ?thesis
    by (auto simp: pb_write_explicit split: if_splits)
next
  case Fail
  with assms(1) show ?thesis by (auto simp: pb_write_explicit split: if_splits)
next
  case Undef
  with assms(1) show ?thesis by (auto simp: pb_write_explicit split: if_splits)
qed

lemma pb_encode_string_bytes:
  assumes "os_ok s" "length b < 2 ^ 64"
  shows "pb_encode_string s b = pb_write s (varint (length b) @ b)"
  unfolding pb_encode_string_def pb_encode_varint_bytes
  using write_then[OF assms(1), of "\<lambda>s. pb_write s b" b] assms(2) by (simp add: unat_of_nat)

section \<open>Readers stay inside the buffer\<close>

text \<open>What reading does to a stream: it moves on, by as many bytes of memory as it takes off the count.  A
  reader that starts on a stream whose count lies inside its memory never leaves it.\<close>

definition moved :: "pb_istream_t \<Rightarrow> pb_istream_t \<Rightarrow> bool" where
  "moved s s' \<longleftrightarrow> bytes_left s' \<le> bytes_left s
     \<and> length (is_state s') + bytes_left s = length (is_state s) + bytes_left s'"

definition is_ok :: "pb_istream_t \<Rightarrow> bool" where
  "is_ok s \<longleftrightarrow> bytes_left s \<le> length (is_state s)"

definition reads :: "('a \<Rightarrow> pb_istream_t) \<Rightarrow> pb_istream_t \<Rightarrow> 'a pb \<Rightarrow> bool" where
  "reads g s m \<longleftrightarrow> (is_ok s \<longrightarrow> m \<noteq> Undef) \<and> (\<forall>x. m = Ret x \<longrightarrow> moved s (g x))"

lemma moved_refl [simp]: "moved s s"
  by (simp add: moved_def)

lemma moved_trans: "moved s t \<Longrightarrow> moved t u \<Longrightarrow> moved s u"
  by (auto simp: moved_def)

lemma moved_ok: "moved s t \<Longrightarrow> is_ok s \<Longrightarrow> is_ok t"
  by (auto simp: moved_def is_ok_def)

lemma reads_Ret [simp]: "reads g s (Ret x) \<longleftrightarrow> moved s (g x)"
  by (auto simp: reads_def)

lemma reads_Fail [simp]: "reads g s Fail"
  by (simp add: reads_def)

lemma reads_bind:
  assumes "reads g s m" "\<And>x. moved s (g x) \<Longrightarrow> m = Ret x \<Longrightarrow> reads h (g x) (f x)"
  shows "reads h s (pb_bind m f)"
proof (cases m)
  case (Ret x)
  with assms have "moved s (g x)" "reads h (g x) (f x)" by (auto simp: reads_def)
  with Ret show ?thesis
    by (auto simp: reads_def intro: moved_trans moved_ok)
next
  case Undef
  with assms(1) show ?thesis by (auto simp: reads_def)
qed simp

lemma reads_pb_read: "reads snd s (pb_read s n)"
  by (auto simp: pb_read_def in_buf_read_def reads_def moved_def is_ok_def split: if_splits)

lemma reads_pb_readbyte: "reads snd s (pb_readbyte s)"
  by (cases "is_state s")
    (auto simp: pb_readbyte_def in_buf_read_def reads_def moved_def is_ok_def split: if_splits)

lemma reads_varint32_loop: "reads (\<lambda>(_, _, _, s). s) s (varint32_loop bitpos result s)"
proof (induction bitpos result s rule: varint32_loop.induct)
  case (1 bitpos result s)
  show ?case
    unfolding varint32_loop.simps[of bitpos result s]
    by (rule reads_bind[OF reads_pb_readbyte]) (use 1 in \<open>auto simp: Let_def\<close>)
qed

lemma reads_varint32_eof: "reads snd s (pb_decode_varint32_eof s)"
  unfolding pb_decode_varint32_eof_def
  by (auto intro!: reads_bind[OF reads_pb_readbyte] reads_bind[OF reads_varint32_loop]
      dest: moved_trans split: prod.splits)

lemma reads_varint32: "reads snd s (pb_decode_varint32 s)"
  unfolding pb_decode_varint32_def
  by (auto intro!: reads_bind[OF reads_varint32_eof] split: option.splits)

lemma reads_tag: "reads snd s (pb_decode_tag s)"
  unfolding pb_decode_tag_def by (auto intro!: reads_bind[OF reads_varint32_eof])

lemma reads_varint_loop: "reads snd s (varint_loop bitpos result s)"
proof (induction bitpos result s rule: varint_loop.induct)
  case (1 bitpos result s)
  show ?case
    unfolding varint_loop.simps[of bitpos result s]
    by (cases "64 \<le> bitpos") (use 1 in \<open>auto simp: Let_def intro!: reads_bind[OF reads_pb_readbyte]\<close>)
qed

lemma reads_varint: "reads snd s (pb_decode_varint s)"
  by (simp add: pb_decode_varint_def reads_varint_loop)

lemma reads_skip_varint: "reads (\<lambda>s. s) s (pb_skip_varint s)"
proof (induction s rule: pb_skip_varint.induct)
  case (1 s)
  show ?case
    unfolding pb_skip_varint.simps[of s]
    by (rule reads_bind[OF reads_pb_read]) (use 1 in auto)
qed

lemma reads_skip_field: "reads (\<lambda>s. s) s (pb_skip_field s wt)"
  unfolding pb_skip_field_def pb_skip_string_def
  by (auto intro!: reads_skip_varint reads_bind[OF reads_pb_read] reads_bind[OF reads_varint32])

lemma reads_raw_varint: "reads (\<lambda>s. s) s (raw_varint n s)"
proof (induction n s rule: raw_varint.induct)
  case (1 n s)
  show ?case
    unfolding raw_varint.simps[of n s]
    by (cases "10 < n + 1") (use 1 in \<open>auto intro!: reads_bind[OF reads_pb_read]\<close>)
qed

lemma reads_raw_value: "reads (\<lambda>s. s) s (read_raw_value s wt)"
  unfolding read_raw_value_def
  by (auto intro!: reads_raw_varint reads_bind[OF reads_pb_read])

lemma reads_scalars:
  "reads snd s (pb_decode_bool s)" "reads snd s (pb_decode_svarint s)"
  "reads snd s (pb_decode_fixed32 s)" "reads snd s (pb_decode_fixed64 s)"
  unfolding pb_decode_bool_def pb_decode_svarint_def pb_decode_fixed32_def pb_decode_fixed64_def
  by (auto intro!: reads_bind[OF reads_pb_read] reads_bind[OF reads_varint32] reads_bind[OF reads_varint])

text \<open>The work on a substream, between making and closing it.\<close>

lemma reads_substream:
  assumes "\<And>t. reads h t (f t)" "\<And>x s. g (k x s) = s"
  shows "reads g s (pb_bind (pb_make_string_substream s) (\<lambda>(s, sub).
           pb_bind (f sub) (\<lambda>x. pb_bind (pb_close_string_substream s (h x)) (\<lambda>s. Ret (k x s)))))"
  unfolding pb_make_string_substream_def pb_bind_assoc
proof (rule reads_bind[OF reads_varint32])
  fix x :: "u32 \<times> pb_istream_t" assume "moved s (snd x)"
  obtain n t where x: "x = (n, t)" by (cases x)
  let ?sub = "t \<lparr> bytes_left := unat n \<rparr>" and ?t = "t \<lparr> bytes_left := bytes_left t - unat n \<rparr>"
  have "reads g t (pb_bind (f ?sub) (\<lambda>x. pb_bind (pb_close_string_substream ?t (h x)) (\<lambda>s. Ret (k x s))))"
    if "unat n \<le> bytes_left t"
    using assms(1)[of ?sub] assms(2) that
    by (cases "f ?sub")
      (auto simp: reads_def pb_close_string_substream_def pb_read_def in_buf_read_def moved_def is_ok_def)
  then show "reads g (snd x) (pb_bind (case x of (n, s) \<Rightarrow>
      if bytes_left s < unat n then Fail
      else Ret (s\<lparr>bytes_left := bytes_left s - unat n\<rparr>, s\<lparr>bytes_left := unat n\<rparr>))
      (\<lambda>(s, sub). pb_bind (f sub) (\<lambda>x. pb_bind (pb_close_string_substream s (h x)) (\<lambda>s. Ret (k x s)))))"
    unfolding x by simp
qed

end
