(* ===== verification/Pb_Message.thy ===== *)
theory Pb_Message
  imports Pb_Wire
begin

text \<open>
  Messages of nanopb (\<open>CdapProto/pb_encode.c\<close>, \<open>pb_decode.c\<close>, \<open>pb_common.c\<close>, the types in \<open>pb.h\<close>): the
  descriptors the generated files define, the structures they describe, the encoder and the decoder.

  A descriptor lists the fields of a structure in the order of their tags.  The structure is the list
  of the stores of its fields: a datum, a datum with its \<open>has\<close> flag, or the elements of an array
  with its count.  The generated files of the repository have fields that are static or callbacks;
  no function is ever installed in a callback, so that such a field is never written and skipped
  when it is read.  Pointer fields, unions, extensions and arrays of fixed count do not occur in them,
  and what \<open>pb_encode.c\<close> and \<open>pb_decode.c\<close> do for those is left out.
\<close>

section \<open>Descriptors and structures\<close>

datatype pb_htype = PB_HTYPE_REQUIRED | PB_HTYPE_OPTIONAL | PB_HTYPE_REPEATED

datatype pb_atype = PB_ATYPE_STATIC | PB_ATYPE_CALLBACK

datatype pb_ltype = PB_LTYPE_BOOL | PB_LTYPE_VARINT | PB_LTYPE_UVARINT | PB_LTYPE_SVARINT
  | PB_LTYPE_FIXED32 | PB_LTYPE_FIXED64 | PB_LTYPE_BYTES | PB_LTYPE_STRING
  | PB_LTYPE_SUBMESSAGE pb_msgdesc_t
and pb_field_t =
  Pb_Field (f_atype: pb_atype) (f_htype: pb_htype) (f_ltype: pb_ltype)
    (f_tag: nat) (f_data_size: nat) (f_array_size: nat)
and pb_msgdesc_t = Pb_Msg (field_info: "pb_field_t list") (default_value: "u8 list option")

text \<open>An integer of any width is an \<open>int\<close>; a string is the content of its array before the first NUL
  or all that was copied into it; bytes are the array up to its size.\<close>

datatype pb_data = Pb_Bool bool | Pb_Int int | Pb_Bytes "u8 list" | Pb_String "u8 list"
  | Pb_Struct "pb_store list"
and pb_store = Pb_Required pb_data | Pb_Optional bool pb_data | Pb_Repeated "pb_data list"
  | Pb_Callback

definition PB_SIZE_MAX :: nat where
  "PB_SIZE_MAX = 65535"

fun packable :: "pb_ltype \<Rightarrow> bool" where
  "packable PB_LTYPE_BYTES = False"
| "packable PB_LTYPE_STRING = False"
| "packable (PB_LTYPE_SUBMESSAGE d) = False"
| "packable _ = True"

section \<open>Encoding\<close>

fun wire_type_of :: "pb_ltype \<Rightarrow> nat" where
  "wire_type_of PB_LTYPE_BOOL = PB_WT_VARINT"
| "wire_type_of PB_LTYPE_VARINT = PB_WT_VARINT"
| "wire_type_of PB_LTYPE_UVARINT = PB_WT_VARINT"
| "wire_type_of PB_LTYPE_SVARINT = PB_WT_VARINT"
| "wire_type_of PB_LTYPE_FIXED32 = PB_WT_32BIT"
| "wire_type_of PB_LTYPE_FIXED64 = PB_WT_64BIT"
| "wire_type_of PB_LTYPE_BYTES = PB_WT_STRING"
| "wire_type_of PB_LTYPE_STRING = PB_WT_STRING"
| "wire_type_of (PB_LTYPE_SUBMESSAGE d) = PB_WT_STRING"

definition pb_encode_tag_for_field :: "pb_ostream_t \<Rightarrow> pb_field_t \<Rightarrow> pb_ostream_t pb" where
  "pb_encode_tag_for_field s f = pb_encode_tag s (wire_type_of (f_ltype f)) (f_tag f)"

definition pb_enc_bool :: "pb_ostream_t \<Rightarrow> pb_data \<Rightarrow> pb_ostream_t pb" where
  "pb_enc_bool s d =
     (case d of Pb_Bool b \<Rightarrow> pb_encode_varint s (if b then 1 else 0) | _ \<Rightarrow> Undef)"

text \<open>Reading the field at its width and extending it to 64 bits.\<close>

definition signed_at :: "nat \<Rightarrow> int \<Rightarrow> int" where
  "signed_at size_of v = signed_take_bit (8 * size_of - 1) v"

definition unsigned_at :: "nat \<Rightarrow> int \<Rightarrow> int" where
  "unsigned_at size_of v = v mod 2 ^ (8 * size_of)"

fun data_int :: "pb_data \<Rightarrow> int option" where
  "data_int (Pb_Int v) = Some v"
| "data_int (Pb_Bool b) = Some (if b then 1 else 0)"
| "data_int _ = None"

definition pb_enc_varint :: "pb_ostream_t \<Rightarrow> pb_field_t \<Rightarrow> pb_data \<Rightarrow> pb_ostream_t pb" where
  "pb_enc_varint s f d =
     (case data_int d of
        Some v \<Rightarrow>
          if f_data_size f \<notin> {1, 2, 4, 8} then Fail
          else if f_ltype f = PB_LTYPE_UVARINT
            then pb_encode_varint s (word_of_int (unsigned_at (f_data_size f) v))
          else if f_ltype f = PB_LTYPE_SVARINT
            then pb_encode_svarint s (signed_at (f_data_size f) v)
          else pb_encode_varint s (word_of_int (signed_at (f_data_size f) v))
      | None \<Rightarrow> Undef)"

definition pb_enc_fixed :: "pb_ostream_t \<Rightarrow> pb_field_t \<Rightarrow> pb_data \<Rightarrow> pb_ostream_t pb" where
  "pb_enc_fixed s f d =
     (case d of
        Pb_Int v \<Rightarrow>
          if f_data_size f = 4 then pb_encode_fixed32 s v
          else if f_data_size f = 8 then pb_encode_fixed64 s v
          else Fail
      | _ \<Rightarrow> Undef)"

text \<open>The offset of the bytes in their array is that of a \<open>pb_size_t\<close>, two.\<close>

definition pb_enc_bytes :: "pb_ostream_t \<Rightarrow> pb_field_t \<Rightarrow> pb_data \<Rightarrow> pb_ostream_t pb" where
  "pb_enc_bytes s f d =
     (case d of
        Pb_Bytes b \<Rightarrow> if f_data_size f - 2 < length b then Fail else pb_encode_string s b
      | _ \<Rightarrow> Undef)"

text \<open>The loop of \<open>pb_enc_string\<close> counts to the first NUL, at most to the last byte of the array.\<close>

definition pb_enc_string :: "pb_ostream_t \<Rightarrow> pb_field_t \<Rightarrow> pb_data \<Rightarrow> pb_ostream_t pb" where
  "pb_enc_string s f d =
     (case d of
        Pb_String b \<Rightarrow>
          if f_data_size f = 0 then Fail
          else
            let str = takeWhile (\<lambda>c. c \<noteq> 0) b
            in if f_data_size f - 1 < length str then Fail else pb_encode_string s str
      | _ \<Rightarrow> Undef)"

text \<open>A submessage is encoded twice: into a stream that only counts, for its length, and then into a
  stream of exactly that length.  \<open>sub\<close> is \<open>pb_encode\<close> for its descriptor.\<close>

definition pb_encode_submessage ::
  "(pb_ostream_t \<Rightarrow> pb_store list \<Rightarrow> pb_ostream_t pb) \<Rightarrow> pb_ostream_t \<Rightarrow> pb_store list \<Rightarrow> pb_ostream_t pb"
where
  "pb_encode_submessage sub s src =
     pb_bind (sub PB_OSTREAM_SIZING src) (\<lambda>substream.
       let n = bytes_written substream in
       pb_bind (pb_encode_varint s (of_nat n)) (\<lambda>s.
         if \<not> os_callback s then pb_write s (replicate n 0)
         else if max_size s < bytes_written s + n then Fail
         else pb_bind (sub (s \<lparr> max_size := n, bytes_written := 0 \<rparr>) src) (\<lambda>substream.
           if bytes_written substream \<noteq> n then Fail
           else Ret (s \<lparr> bytes_written := bytes_written s + bytes_written substream,
                        os_state := os_state substream, os_room := os_room substream \<rparr>))))"

definition pb_enc_submessage ::
  "(pb_ostream_t \<Rightarrow> pb_store list \<Rightarrow> pb_ostream_t pb) \<Rightarrow> pb_ostream_t \<Rightarrow> pb_data \<Rightarrow> pb_ostream_t pb" where
  "pb_enc_submessage sub s d =
     (case d of Pb_Struct src \<Rightarrow> pb_encode_submessage sub s src | _ \<Rightarrow> Undef)"

definition encode_basic_field ::
  "(pb_ostream_t \<Rightarrow> pb_store list \<Rightarrow> pb_ostream_t pb) \<Rightarrow> pb_field_t \<Rightarrow> pb_ostream_t \<Rightarrow> pb_data \<Rightarrow> pb_ostream_t pb"
where
  "encode_basic_field sub f s d =
     pb_bind (pb_encode_tag_for_field s f) (\<lambda>s.
       case f_ltype f of
         PB_LTYPE_BOOL \<Rightarrow> pb_enc_bool s d
       | PB_LTYPE_VARINT \<Rightarrow> pb_enc_varint s f d
       | PB_LTYPE_UVARINT \<Rightarrow> pb_enc_varint s f d
       | PB_LTYPE_SVARINT \<Rightarrow> pb_enc_varint s f d
       | PB_LTYPE_FIXED32 \<Rightarrow> pb_enc_fixed s f d
       | PB_LTYPE_FIXED64 \<Rightarrow> pb_enc_fixed s f d
       | PB_LTYPE_BYTES \<Rightarrow> pb_enc_bytes s f d
       | PB_LTYPE_STRING \<Rightarrow> pb_enc_string s f d
       | PB_LTYPE_SUBMESSAGE m \<Rightarrow> pb_enc_submessage sub s d)"

fun encode_all :: "(pb_ostream_t \<Rightarrow> 'a \<Rightarrow> pb_ostream_t pb) \<Rightarrow> pb_ostream_t \<Rightarrow> 'a list \<Rightarrow> pb_ostream_t pb" where
  "encode_all enc s [] = Ret s"
| "encode_all enc s (d # ds) = pb_bind (enc s d) (\<lambda>s. encode_all enc s ds)"

text \<open>Arrays of numbers are packed behind one tag; \<open>pb_enc_varint\<close> measures and writes the elements of an
  array of Booleans too.\<close>

definition encode_array ::
  "(pb_ostream_t \<Rightarrow> pb_store list \<Rightarrow> pb_ostream_t pb) \<Rightarrow> pb_field_t \<Rightarrow> pb_ostream_t \<Rightarrow> pb_data list \<Rightarrow> pb_ostream_t pb"
where
  "encode_array sub f s ds =
     (if ds = [] then Ret s
      else if f_array_size f < length ds then Fail
      else if packable (f_ltype f) then
        pb_bind (pb_encode_tag s PB_WT_STRING (f_tag f)) (\<lambda>s.
          pb_bind
            (if f_ltype f = PB_LTYPE_FIXED32 then Ret (4 * length ds)
             else if f_ltype f = PB_LTYPE_FIXED64 then Ret (8 * length ds)
             else pb_bind (encode_all (\<lambda>s d. pb_enc_varint s f d) PB_OSTREAM_SIZING ds)
                    (\<lambda>sizestream. Ret (bytes_written sizestream)))
            (\<lambda>n. pb_bind (pb_encode_varint s (of_nat n)) (\<lambda>s.
               if \<not> os_callback s then pb_write s (replicate n 0)
               else if f_ltype f = PB_LTYPE_FIXED32 \<or> f_ltype f = PB_LTYPE_FIXED64
                 then encode_all (\<lambda>s d. pb_enc_fixed s f d) s ds
               else encode_all (\<lambda>s d. pb_enc_varint s f d) s ds)))
      else encode_all (encode_basic_field sub f) s ds)"

text \<open>A callback field: \<open>pb_default_field_callback\<close> finds no function and writes nothing.\<close>

definition encode_callback_field :: "pb_ostream_t \<Rightarrow> pb_ostream_t pb" where
  "encode_callback_field s = Ret s"

definition encode_field ::
  "(pb_ostream_t \<Rightarrow> pb_store list \<Rightarrow> pb_ostream_t pb) \<Rightarrow> pb_field_t \<Rightarrow> pb_ostream_t \<Rightarrow> pb_store \<Rightarrow> pb_ostream_t pb"
where
  "encode_field sub f s st =
     (if f_atype f = PB_ATYPE_CALLBACK then encode_callback_field s
      else case (f_htype f, st) of
        (PB_HTYPE_OPTIONAL, Pb_Optional has d) \<Rightarrow>
          if \<not> has then Ret s else encode_basic_field sub f s d
      | (PB_HTYPE_REPEATED, Pb_Repeated ds) \<Rightarrow> encode_array sub f s ds
      | (PB_HTYPE_REQUIRED, Pb_Required d) \<Rightarrow> encode_basic_field sub f s d
      | _ \<Rightarrow> Undef)"

text \<open>The walk over the fields (\<open>pb_field_iter_begin\<close>, \<open>pb_field_iter_next\<close>).\<close>

fun encode_fields ::
  "(pb_field_t \<times> (pb_ostream_t \<Rightarrow> pb_store list \<Rightarrow> pb_ostream_t pb)) list \<Rightarrow> pb_ostream_t \<Rightarrow> pb_store list \<Rightarrow> pb_ostream_t pb"
where
  "encode_fields [] s [] = Ret s"
| "encode_fields ((f, sub) # fs) s (st # sts) =
     pb_bind (encode_field sub f s st) (\<lambda>s. encode_fields fs s sts)"
| "encode_fields _ s _ = Undef"

function pb_encode :: "pb_msgdesc_t \<Rightarrow> pb_ostream_t \<Rightarrow> pb_store list \<Rightarrow> pb_ostream_t pb" where
  "pb_encode (Pb_Msg fs dv) =
     encode_fields
       (map (\<lambda>f. (f, case f_ltype f of PB_LTYPE_SUBMESSAGE m \<Rightarrow> pb_encode m | _ \<Rightarrow> (\<lambda>s st. Undef))) fs)"
  by pat_completeness auto

lemma size_submessage:
  "f \<in> set fs \<Longrightarrow> f_ltype f = PB_LTYPE_SUBMESSAGE m \<Longrightarrow> size m < size (Pb_Msg fs dv)"
proof (induction fs)
  case (Cons g fs)
  then show ?case by (cases g) auto
qed simp

termination pb_encode
  by (relation "measure size") (auto dest: size_submessage)

text \<open>With a flag: behind its length, or before a zero.  The length alone is counted by a stream without a
  callback.\<close>

definition pb_encode_ex :: "pb_ostream_t \<Rightarrow> pb_msgdesc_t \<Rightarrow> pb_store list \<Rightarrow> bool \<Rightarrow> bool \<Rightarrow> pb_ostream_t pb" where
  "pb_encode_ex s m src delimited nullterminated =
     (if delimited then pb_encode_submessage (pb_encode m) s src
      else if nullterminated then pb_bind (pb_encode m s src) (\<lambda>s. pb_write s [0])
      else pb_encode m s src)"

definition pb_get_encoded_size :: "pb_msgdesc_t \<Rightarrow> pb_store list \<Rightarrow> nat pb" where
  "pb_get_encoded_size m src =
     pb_bind (pb_encode m PB_OSTREAM_SIZING src) (\<lambda>s. Ret (bytes_written s))"

section \<open>Decoding\<close>

definition pb_dec_bool :: "pb_istream_t \<Rightarrow> (pb_data \<times> pb_istream_t) pb" where
  "pb_dec_bool s = pb_bind (pb_decode_bool s) (\<lambda>(b, s). Ret (Pb_Bool b, s))"

definition pb_dec_varint :: "pb_istream_t \<Rightarrow> pb_field_t \<Rightarrow> (pb_data \<times> pb_istream_t) pb" where
  "pb_dec_varint s f =
     (let n = f_data_size f in
      if f_ltype f = PB_LTYPE_UVARINT then
        pb_bind (pb_decode_varint s) (\<lambda>(value, s).
          if n \<notin> {1, 2, 4, 8} then Fail
          else let clamped = unsigned_at n (uint value)
               in if clamped \<noteq> uint value then Fail else Ret (Pb_Int clamped, s))
      else
        pb_bind
          (if f_ltype f = PB_LTYPE_SVARINT then pb_decode_svarint s
           else pb_bind (pb_decode_varint s) (\<lambda>(value, s).
             Ret (if n = 8 then sint value else sint (ucast value :: u32), s)))
          (\<lambda>(svalue, s).
             if n \<notin> {1, 2, 4, 8} then Fail
             else let clamped = signed_at n svalue
                  in if clamped \<noteq> svalue then Fail else Ret (Pb_Int clamped, s)))"

definition pb_dec_bytes :: "pb_istream_t \<Rightarrow> pb_field_t \<Rightarrow> (pb_data \<times> pb_istream_t) pb" where
  "pb_dec_bytes s f =
     pb_bind (pb_decode_varint32 s) (\<lambda>(n, s).
       if PB_SIZE_MAX < unat n then Fail
       else if f_data_size f < unat n + 2 then Fail
       else pb_bind (pb_read s (unat n)) (\<lambda>(b, s). Ret (Pb_Bytes b, s)))"

definition pb_dec_string :: "pb_istream_t \<Rightarrow> pb_field_t \<Rightarrow> (pb_data \<times> pb_istream_t) pb" where
  "pb_dec_string s f =
     pb_bind (pb_decode_varint32 s) (\<lambda>(n, s).
       if n = - 1 then Fail
       else if f_data_size f < unat n + 1 then Fail
       else pb_bind (pb_read s (unat n)) (\<lambda>(b, s). Ret (Pb_String b, s)))"

text \<open>\<open>sub\<close> is \<open>pb_decode_inner\<close> for the descriptor of the submessage; its first argument is the flag
  \<open>PB_DECODE_NOINIT\<close>.\<close>

type_synonym pb_sub = "bool \<Rightarrow> pb_istream_t \<Rightarrow> pb_store list \<Rightarrow> (pb_store list \<times> pb_istream_t) pb"

definition pb_dec_submessage ::
  "pb_sub \<Rightarrow> pb_istream_t \<Rightarrow> pb_field_t \<Rightarrow> pb_data \<Rightarrow> (pb_data \<times> pb_istream_t) pb" where
  "pb_dec_submessage sub s f d =
     (case d of
        Pb_Struct dest \<Rightarrow>
          pb_bind (pb_make_string_substream s) (\<lambda>(s, substream).
            pb_bind (sub (f_htype f \<noteq> PB_HTYPE_REPEATED) substream dest) (\<lambda>x.
              pb_bind (pb_close_string_substream s (snd x)) (\<lambda>s. Ret (Pb_Struct (fst x), s))))
      | _ \<Rightarrow> Undef)"

definition wire_fits :: "pb_ltype \<Rightarrow> nat \<Rightarrow> bool" where
  "wire_fits t wt \<longleftrightarrow> wt = wire_type_of t \<or> packable t \<and> wt = PB_WT_PACKED"

definition decode_basic_field ::
  "pb_sub \<Rightarrow> pb_istream_t \<Rightarrow> nat \<Rightarrow> pb_field_t \<Rightarrow> pb_data \<Rightarrow> (pb_data \<times> pb_istream_t) pb" where
  "decode_basic_field sub s wt f d =
     (if \<not> wire_fits (f_ltype f) wt then Fail
      else case f_ltype f of
        PB_LTYPE_BOOL \<Rightarrow> pb_dec_bool s
      | PB_LTYPE_VARINT \<Rightarrow> pb_dec_varint s f
      | PB_LTYPE_UVARINT \<Rightarrow> pb_dec_varint s f
      | PB_LTYPE_SVARINT \<Rightarrow> pb_dec_varint s f
      | PB_LTYPE_FIXED32 \<Rightarrow> pb_bind (pb_decode_fixed32 s) (\<lambda>(v, s). Ret (Pb_Int v, s))
      | PB_LTYPE_FIXED64 \<Rightarrow> pb_bind (pb_decode_fixed64 s) (\<lambda>(v, s). Ret (Pb_Int v, s))
      | PB_LTYPE_BYTES \<Rightarrow> pb_dec_bytes s f
      | PB_LTYPE_STRING \<Rightarrow> pb_dec_string s f
      | PB_LTYPE_SUBMESSAGE m \<Rightarrow> pb_dec_submessage sub s f d)"

text \<open>What \<open>memset\<close> to zero makes of a field that is not a submessage.\<close>

fun zero_data :: "pb_ltype \<Rightarrow> pb_data" where
  "zero_data PB_LTYPE_BOOL = Pb_Bool False"
| "zero_data PB_LTYPE_BYTES = Pb_Bytes []"
| "zero_data PB_LTYPE_STRING = Pb_String []"
| "zero_data (PB_LTYPE_SUBMESSAGE m) = Pb_Struct []"
| "zero_data _ = Pb_Int 0"

text \<open>The loop over a packed array fills the elements that are left.\<close>

function decode_packed ::
  "pb_sub \<Rightarrow> pb_field_t \<Rightarrow> pb_istream_t \<Rightarrow> pb_data list \<Rightarrow> (pb_data list \<times> pb_istream_t) pb" where
  "decode_packed sub f s ds =
     (if 0 < bytes_left s \<and> length ds < f_array_size f
      then pb_bind (decode_basic_field sub s PB_WT_PACKED f (zero_data (f_ltype f))) (\<lambda>(d, s).
             decode_packed sub f s (ds @ [d]))
      else if bytes_left s \<noteq> 0 then Fail else Ret (ds, s))"
  by pat_completeness auto
termination by (relation "measure (\<lambda>(sub, f, s, ds). f_array_size f - length ds)") auto

declare decode_packed.simps [simp del]

definition decode_static_field ::
  "pb_sub \<Rightarrow> pb_istream_t \<Rightarrow> nat \<Rightarrow> pb_field_t \<Rightarrow> pb_store \<Rightarrow> (pb_store \<times> pb_istream_t) pb" where
  "decode_static_field sub s wt f st =
     (case (f_htype f, st) of
        (PB_HTYPE_REQUIRED, Pb_Required d) \<Rightarrow>
          pb_bind (decode_basic_field sub s wt f d) (\<lambda>(d, s). Ret (Pb_Required d, s))
      | (PB_HTYPE_OPTIONAL, Pb_Optional has d) \<Rightarrow>
          pb_bind (decode_basic_field sub s wt f d) (\<lambda>(d, s). Ret (Pb_Optional True d, s))
      | (PB_HTYPE_REPEATED, Pb_Repeated ds) \<Rightarrow>
          if wt = PB_WT_STRING \<and> packable (f_ltype f) then
            pb_bind (pb_make_string_substream s) (\<lambda>(s, substream).
              pb_bind (decode_packed sub f substream ds) (\<lambda>x.
                pb_bind (pb_close_string_substream s (snd x)) (\<lambda>s. Ret (Pb_Repeated (fst x), s))))
          else if f_array_size f \<le> length ds then Fail
          else pb_bind (decode_basic_field sub s wt f (zero_data (f_ltype f)))
                 (\<lambda>(d, s). Ret (Pb_Repeated (ds @ [d]), s))
      | _ \<Rightarrow> Undef)"

text \<open>A callback field without a function: the callback succeeds without reading, so the loop over the
  substream ends after one call and closing it skips the field.\<close>

definition decode_callback_field :: "pb_istream_t \<Rightarrow> nat \<Rightarrow> pb_istream_t pb" where
  "decode_callback_field s wt =
     (if wt = PB_WT_STRING then
        pb_bind (pb_make_string_substream s) (\<lambda>(s, substream).
          pb_bind (Ret substream) (\<lambda>x.
            pb_bind (pb_close_string_substream s x) (\<lambda>s. Ret s)))
      else read_raw_value s wt)"

definition decode_field ::
  "pb_sub \<Rightarrow> pb_istream_t \<Rightarrow> nat \<Rightarrow> pb_field_t \<Rightarrow> pb_store \<Rightarrow> (pb_store \<times> pb_istream_t) pb" where
  "decode_field sub s wt f st =
     (if f_atype f = PB_ATYPE_CALLBACK
      then pb_bind (decode_callback_field s wt) (\<lambda>s. Ret (st, s))
      else decode_static_field sub s wt f st)"

section \<open>Finding a field, defaults, the loop of the decoder\<close>

text \<open>\<open>pb_field_iter_find\<close> goes round the fields from where the iterator stands: \<open>advance_iterator\<close>
  wraps to the first field, and the search ends where it began.  The number of steps is at most
  that of the fields.\<close>

fun iter_search :: "nat \<Rightarrow> pb_field_t list \<Rightarrow> nat \<Rightarrow> nat \<Rightarrow> nat \<Rightarrow> nat option" where
  "iter_search 0 fs tag start i = None"
| "iter_search (Suc k) fs tag start i =
     (let i = (if length fs \<le> Suc i then 0 else Suc i)
      in if f_tag (fs ! i) = tag then Some i
         else if i = start then None
         else iter_search k fs tag start i)"

definition pb_field_iter_find :: "pb_field_t list \<Rightarrow> nat \<Rightarrow> nat \<Rightarrow> nat option" where
  "pb_field_iter_find fs index tag =
     (if fs = [] then None
      else if f_tag (fs ! index) = tag then Some index
      else if f_tag (last fs) < tag then None
      else iter_search (length fs) fs tag index
             (if tag < f_tag (fs ! index) then length fs else index))"

text \<open>The default of a field; \<open>dflt\<close> are the defaults of its submessage.\<close>

definition pb_field_set_to_default :: "pb_field_t \<Rightarrow> pb_store list pb \<Rightarrow> pb_store pb" where
  "pb_field_set_to_default f dflt =
     (if f_atype f = PB_ATYPE_CALLBACK then Ret Pb_Callback
      else case f_htype f of
        PB_HTYPE_REPEATED \<Rightarrow> Ret (Pb_Repeated [])
      | h \<Rightarrow>
          pb_bind (case f_ltype f of
                     PB_LTYPE_SUBMESSAGE m \<Rightarrow> pb_bind dflt (\<lambda>sts. Ret (Pb_Struct sts))
                   | t \<Rightarrow> Ret (zero_data t))
            (\<lambda>d. Ret (if h = PB_HTYPE_OPTIONAL then Pb_Optional False d else Pb_Required d)))"

fun not_present :: "pb_store \<Rightarrow> pb_store" where
  "not_present (Pb_Optional has d) = Pb_Optional False d"
| "not_present (Pb_Repeated ds) = Pb_Repeated []"
| "not_present st = st"

text \<open>The defaults of a message: every field is cleared, and one whose tag comes next in the encoded
  defaults of the descriptor is read from there.  \<open>tag\<close> is 0 without such a field.\<close>

fun set_defaults ::
  "(pb_field_t \<times> pb_sub \<times> pb_store list pb) list \<Rightarrow> nat \<Rightarrow> nat \<Rightarrow> pb_istream_t \<Rightarrow> pb_store list pb" where
  "set_defaults [] wt tag defstream = Ret []"
| "set_defaults ((f, sub, dflt) # fs) wt tag defstream =
     pb_bind (pb_field_set_to_default f dflt) (\<lambda>st.
       pb_bind
         (if tag \<noteq> 0 \<and> f_tag f = tag then
            pb_bind (decode_field sub defstream wt f st) (\<lambda>(st, defstream).
              pb_bind (pb_decode_tag defstream) (\<lambda>(t, defstream).
                case t of None \<Rightarrow> Fail
                | Some (wt, tag) \<Rightarrow> Ret (not_present st, wt, tag, defstream)))
          else Ret (st, wt, tag, defstream))
         (\<lambda>(st, wt, tag, defstream).
            pb_bind (set_defaults fs wt tag defstream) (\<lambda>sts. Ret (st # sts))))"

definition message_defaults ::
  "(pb_field_t \<times> pb_sub \<times> pb_store list pb) list \<Rightarrow> u8 list option \<Rightarrow> pb_store list pb" where
  "message_defaults fs dv =
     (case dv of
        None \<Rightarrow> set_defaults fs PB_WT_VARINT 0 (pb_istream_from_buffer [] 0)
      | Some bytes \<Rightarrow>
          pb_bind (pb_decode_tag (pb_istream_from_buffer bytes (2 ^ 32 - 1))) (\<lambda>(t, defstream).
            case t of None \<Rightarrow> Fail
            | Some (wt, tag) \<Rightarrow> set_defaults fs wt tag defstream))"

text \<open>The required fields are numbered in order; \<open>seen\<close> is the bit field of those read, which holds more
  of them than any descriptor has.\<close>

definition required_index :: "pb_field_t list \<Rightarrow> nat \<Rightarrow> nat" where
  "required_index fs i = length (filter (\<lambda>f. f_htype f = PB_HTYPE_REQUIRED) (take i fs))"

definition all_required :: "pb_field_t list \<Rightarrow> nat list \<Rightarrow> bool" where
  "all_required fs seen \<longleftrightarrow> list_all (\<lambda>i. i \<in> set seen) [0..<required_index fs (length fs)]"

text \<open>The loop of \<open>pb_decode_inner\<close>, over the position of the iterator, the required fields seen, the
  stream and the structure.  An iteration that takes nothing off the stream would be
  repeated forever.\<close>

function decode_loop ::
  "(pb_field_t \<times> pb_sub) list \<Rightarrow> nat \<Rightarrow> nat list \<Rightarrow> pb_istream_t \<Rightarrow> pb_store list \<Rightarrow> (pb_store list \<times> pb_istream_t) pb"
where
  "decode_loop fs index seen s st =
     (if bytes_left s = 0 then if all_required (map fst fs) seen then Ret (st, s) else Fail
      else pb_bind (pb_decode_tag s) (\<lambda>(t, s').
        case t of
          None \<Rightarrow> if all_required (map fst fs) seen then Ret (st, s') else Fail
        | Some (wt, tag) \<Rightarrow>
            if tag = 0 then Fail
            else case pb_field_iter_find (map fst fs) index tag of
              None \<Rightarrow>
                pb_bind (pb_skip_field s' wt) (\<lambda>s''.
                  if bytes_left s \<le> bytes_left s'' then Undef
                  else decode_loop fs index seen s'' st)
            | Some i \<Rightarrow>
                pb_bind (decode_field (snd (fs ! i)) s' wt (fst (fs ! i)) (st ! i)) (\<lambda>(d, s'').
                  if bytes_left s \<le> bytes_left s'' then Undef
                  else decode_loop fs i
                    (if f_htype (fst (fs ! i)) = PB_HTYPE_REQUIRED
                     then required_index (map fst fs) i # seen else seen)
                    s'' (st[i := d]))))"
  by pat_completeness auto
termination by (relation "measure (\<lambda>(fs, index, seen, s, st). bytes_left s)") auto

declare decode_loop.simps [simp del]

function pb_message_set_to_defaults :: "pb_msgdesc_t \<Rightarrow> pb_store list pb"
  and pb_decode_inner :: "pb_msgdesc_t \<Rightarrow> pb_sub" where
  "pb_message_set_to_defaults (Pb_Msg fs dv) =
     message_defaults
       (map (\<lambda>f. (f,
          case f_ltype f of PB_LTYPE_SUBMESSAGE m \<Rightarrow> pb_decode_inner m | _ \<Rightarrow> (\<lambda>_ _ _. Undef),
          case f_ltype f of PB_LTYPE_SUBMESSAGE m \<Rightarrow> pb_message_set_to_defaults m | _ \<Rightarrow> Undef)) fs) dv"
| "pb_decode_inner (Pb_Msg fs dv) = (\<lambda>noinit s st.
     pb_bind (if noinit then Ret st else pb_message_set_to_defaults (Pb_Msg fs dv))
       (decode_loop
          (map (\<lambda>f. (f,
             case f_ltype f of PB_LTYPE_SUBMESSAGE m \<Rightarrow> pb_decode_inner m | _ \<Rightarrow> (\<lambda>_ _ _. Undef))) fs)
          0 [] s))"
  by pat_completeness auto
termination
  by (relation "measure (case_sum (\<lambda>m. 2 * size m) (\<lambda>m. 2 * size m + 1))")
    (auto dest!: size_submessage)

definition pb_decode :: "pb_istream_t \<Rightarrow> pb_msgdesc_t \<Rightarrow> pb_store list \<Rightarrow> (pb_store list \<times> pb_istream_t) pb" where
  "pb_decode s m st = pb_decode_inner m False s st"

text \<open>With the flags \<open>PB_DECODE_NOINIT\<close> and \<open>PB_DECODE_DELIMITED\<close>; messages that end with a zero are not
  modelled.\<close>

definition pb_decode_ex ::
  "pb_istream_t \<Rightarrow> pb_msgdesc_t \<Rightarrow> pb_store list \<Rightarrow> bool \<Rightarrow> bool \<Rightarrow> (pb_store list \<times> pb_istream_t) pb" where
  "pb_decode_ex s m st noinit delimited =
     (if \<not> delimited then pb_decode_inner m noinit s st
      else pb_bind (pb_make_string_substream s) (\<lambda>(s, substream).
        pb_bind (pb_decode_inner m noinit substream st) (\<lambda>x.
          pb_bind (pb_close_string_substream s (snd x)) (\<lambda>s. Ret (fst x, s)))))"

end
