(* ===== verification/Pb_Codec.thy ===== *)
theory Pb_Codec
  imports Pb_Message
begin

text \<open>
  What the encoder and the decoder of nanopb do: the bytes of a message (\<open>wire\<close>), the encoder
  refined to writing them, the decoder reading them back, and the decoder on any bytes at all.
\<close>

section \<open>The bytes of a message\<close>

definition payload :: "(pb_store list \<Rightarrow> u8 list) \<Rightarrow> pb_field_t \<Rightarrow> pb_data \<Rightarrow> u8 list" where
  "payload sub f d =
     (case (f_ltype f, d) of
        (PB_LTYPE_BOOL, Pb_Bool b) \<Rightarrow> varint (if b then 1 else 0)
      | (PB_LTYPE_VARINT, Pb_Int v) \<Rightarrow> varint (unat (word_of_int v :: u64))
      | (PB_LTYPE_UVARINT, Pb_Int v) \<Rightarrow> varint (unat (word_of_int v :: u64))
      | (PB_LTYPE_SVARINT, Pb_Int v) \<Rightarrow> varint (unat (zigzag v))
      | (PB_LTYPE_FIXED32, Pb_Int v) \<Rightarrow> le_bytes 4 v
      | (PB_LTYPE_FIXED64, Pb_Int v) \<Rightarrow> le_bytes 8 v
      | (PB_LTYPE_BYTES, Pb_Bytes b) \<Rightarrow> varint (length b) @ b
      | (PB_LTYPE_STRING, Pb_String b) \<Rightarrow> varint (length b) @ b
      | (PB_LTYPE_SUBMESSAGE m, Pb_Struct src) \<Rightarrow> varint (length (sub src)) @ sub src
      | _ \<Rightarrow> [])"

definition tag_bytes :: "pb_field_t \<Rightarrow> u8 list" where
  "tag_bytes f = varint (8 * f_tag f + wire_type_of (f_ltype f))"

definition wire_basic :: "(pb_store list \<Rightarrow> u8 list) \<Rightarrow> pb_field_t \<Rightarrow> pb_data \<Rightarrow> u8 list" where
  "wire_basic sub f d = tag_bytes f @ payload sub f d"

fun wire_field :: "(pb_store list \<Rightarrow> u8 list) \<Rightarrow> pb_field_t \<Rightarrow> pb_store \<Rightarrow> u8 list" where
  "wire_field sub f (Pb_Required d) = wire_basic sub f d"
| "wire_field sub f (Pb_Optional has d) = (if has then wire_basic sub f d else [])"
| "wire_field sub f (Pb_Repeated ds) = concat (map (wire_basic sub f) ds)"
| "wire_field sub f Pb_Callback = []"

fun wire_fields :: "(pb_field_t \<times> (pb_store list \<Rightarrow> u8 list)) list \<Rightarrow> pb_store list \<Rightarrow> u8 list" where
  "wire_fields ((f, sub) # fs) (st # sts) = wire_field sub f st @ wire_fields fs sts"
| "wire_fields _ _ = []"

function wire :: "pb_msgdesc_t \<Rightarrow> pb_store list \<Rightarrow> u8 list" where
  "wire (Pb_Msg fs dv) = wire_fields
     (map (\<lambda>f. (f, case f_ltype f of PB_LTYPE_SUBMESSAGE m \<Rightarrow> wire m | _ \<Rightarrow> (\<lambda>_. []))) fs)"
  by pat_completeness auto
termination by (relation "measure size") (auto dest: size_submessage)

section \<open>Descriptors and structures that fit together\<close>

text \<open>The structure cleared, as \<open>_init_zero\<close> and the defaults without encoded values make it.\<close>

fun zero_store :: "(pb_field_t \<times> pb_store list) \<Rightarrow> pb_store" where
  "zero_store (f, z) =
     (if f_atype f = PB_ATYPE_CALLBACK then Pb_Callback
      else let d = (case f_ltype f of PB_LTYPE_SUBMESSAGE m \<Rightarrow> Pb_Struct z | t \<Rightarrow> zero_data t)
           in case f_htype f of
             PB_HTYPE_REQUIRED \<Rightarrow> Pb_Required d
           | PB_HTYPE_OPTIONAL \<Rightarrow> Pb_Optional False d
           | PB_HTYPE_REPEATED \<Rightarrow> Pb_Repeated [])"

function pb_zero :: "pb_msgdesc_t \<Rightarrow> pb_store list" where
  "pb_zero (Pb_Msg fs dv) =
     map zero_store (map (\<lambda>f. (f, case f_ltype f of PB_LTYPE_SUBMESSAGE m \<Rightarrow> pb_zero m | _ \<Rightarrow> [])) fs)"
  by pat_completeness auto
termination by (relation "measure size") (auto dest: size_submessage)

definition field_ok :: "pb_field_t \<Rightarrow> bool" where
  "field_ok f \<longleftrightarrow> 0 < f_tag f \<and> f_tag f < 2 ^ 29
     \<and> (f_htype f = PB_HTYPE_REPEATED \<longrightarrow> \<not> packable (f_ltype f))
     \<and> (f_atype f = PB_ATYPE_CALLBACK \<longrightarrow> f_htype f \<noteq> PB_HTYPE_REQUIRED)
     \<and> (case f_ltype f of
          PB_LTYPE_VARINT \<Rightarrow> f_data_size f \<in> {4, 8}
        | PB_LTYPE_UVARINT \<Rightarrow> f_data_size f \<in> {4, 8}
        | PB_LTYPE_SVARINT \<Rightarrow> f_data_size f \<in> {4, 8}
        | PB_LTYPE_FIXED32 \<Rightarrow> f_data_size f = 4
        | PB_LTYPE_FIXED64 \<Rightarrow> f_data_size f = 8
        | PB_LTYPE_BYTES \<Rightarrow> 2 \<le> f_data_size f \<and> f_data_size f < 2 ^ 16
        | PB_LTYPE_STRING \<Rightarrow> 0 < f_data_size f \<and> f_data_size f < 2 ^ 16
        | _ \<Rightarrow> True)"

function desc_ok :: "pb_msgdesc_t \<Rightarrow> bool" where
  "desc_ok (Pb_Msg fs dv) \<longleftrightarrow>
     fs \<noteq> [] \<and> sorted_wrt (<) (map f_tag fs) \<and> list_all field_ok fs
     \<and> list_all (\<lambda>f. case f_ltype f of PB_LTYPE_SUBMESSAGE m \<Rightarrow> desc_ok m | _ \<Rightarrow> True) fs
     \<and> pb_message_set_to_defaults (Pb_Msg fs dv) = Ret (pb_zero (Pb_Msg fs dv))"
  by pat_completeness auto
termination by (relation "measure size") (auto dest: size_submessage)

text \<open>A datum of the type of its field: \<open>sub\<close> says so of a submessage.  Integers in the range of their
  width, strings without NUL that leave room for one, bytes within their array.\<close>

definition signed_range :: "nat \<Rightarrow> int \<Rightarrow> bool" where
  "signed_range n v \<longleftrightarrow> - (2 ^ (8 * n - 1)) \<le> v \<and> v < 2 ^ (8 * n - 1)"

definition unsigned_range :: "nat \<Rightarrow> int \<Rightarrow> bool" where
  "unsigned_range n v \<longleftrightarrow> 0 \<le> v \<and> v < 2 ^ (8 * n)"

definition data_ok :: "(pb_store list \<Rightarrow> bool) \<Rightarrow> pb_field_t \<Rightarrow> pb_data \<Rightarrow> bool" where
  "data_ok sub f d =
     (case (f_ltype f, d) of
        (PB_LTYPE_BOOL, Pb_Bool b) \<Rightarrow> True
      | (PB_LTYPE_VARINT, Pb_Int v) \<Rightarrow> signed_range (f_data_size f) v
      | (PB_LTYPE_UVARINT, Pb_Int v) \<Rightarrow> unsigned_range (f_data_size f) v
      | (PB_LTYPE_SVARINT, Pb_Int v) \<Rightarrow> signed_range (f_data_size f) v
      | (PB_LTYPE_FIXED32, Pb_Int v) \<Rightarrow> unsigned_range 4 v
      | (PB_LTYPE_FIXED64, Pb_Int v) \<Rightarrow> unsigned_range 8 v
      | (PB_LTYPE_BYTES, Pb_Bytes b) \<Rightarrow> length b + 2 \<le> f_data_size f
      | (PB_LTYPE_STRING, Pb_String b) \<Rightarrow> length b < f_data_size f
      | (PB_LTYPE_SUBMESSAGE m, Pb_Struct src) \<Rightarrow> sub src
      | _ \<Rightarrow> False)"

text \<open>The type of a structure: the stores match the fields.\<close>

fun store_ok :: "(pb_store list \<Rightarrow> bool) \<Rightarrow> pb_field_t \<Rightarrow> pb_store \<Rightarrow> bool" where
  "store_ok sub f (Pb_Required d) \<longleftrightarrow>
     f_atype f = PB_ATYPE_STATIC \<and> f_htype f = PB_HTYPE_REQUIRED \<and> data_ok sub f d"
| "store_ok sub f (Pb_Optional has d) \<longleftrightarrow>
     f_atype f = PB_ATYPE_STATIC \<and> f_htype f = PB_HTYPE_OPTIONAL \<and> data_ok sub f d"
| "store_ok sub f (Pb_Repeated ds) \<longleftrightarrow>
     f_atype f = PB_ATYPE_STATIC \<and> f_htype f = PB_HTYPE_REPEATED
     \<and> length ds \<le> f_array_size f \<and> list_all (data_ok sub f) ds"
| "store_ok sub f Pb_Callback \<longleftrightarrow> f_atype f = PB_ATYPE_CALLBACK"

fun stores_ok :: "(pb_field_t \<times> (pb_store list \<Rightarrow> bool)) list \<Rightarrow> pb_store list \<Rightarrow> bool" where
  "stores_ok [] [] \<longleftrightarrow> True"
| "stores_ok ((f, sub) # fs) (st # sts) \<longleftrightarrow> store_ok sub f st \<and> stores_ok fs sts"
| "stores_ok _ _ \<longleftrightarrow> False"

function struct_ok :: "pb_msgdesc_t \<Rightarrow> pb_store list \<Rightarrow> bool" where
  "struct_ok (Pb_Msg fs dv) = stores_ok
     (map (\<lambda>f. (f, case f_ltype f of PB_LTYPE_SUBMESSAGE m \<Rightarrow> struct_ok m | _ \<Rightarrow> (\<lambda>_. False))) fs)"
  by pat_completeness auto
termination by (relation "measure size") (auto dest: size_submessage)

text \<open>A structure that can be told from its bytes: what is absent is clear, no string holds a NUL, and
  every submessage is short enough for its length to be read.\<close>

fun clean_data :: "(pb_store list \<Rightarrow> bool) \<Rightarrow> (pb_store list \<Rightarrow> u8 list) \<Rightarrow> pb_data \<Rightarrow> bool" where
  "clean_data cl w (Pb_String b) \<longleftrightarrow> 0 \<notin> set b"
| "clean_data cl w (Pb_Struct src) \<longleftrightarrow> cl src \<and> length (w src) < 2 ^ 32"
| "clean_data cl w _ \<longleftrightarrow> True"

fun clean_store ::
  "(pb_store list \<Rightarrow> bool) \<Rightarrow> (pb_store list \<Rightarrow> u8 list) \<Rightarrow> pb_store \<Rightarrow> pb_store \<Rightarrow> bool" where
  "clean_store cl w z (Pb_Required d) \<longleftrightarrow> clean_data cl w d"
| "clean_store cl w z (Pb_Optional has d) \<longleftrightarrow>
     (if has then clean_data cl w d else Pb_Optional has d = z)"
| "clean_store cl w z (Pb_Repeated ds) \<longleftrightarrow> list_all (clean_data cl w) ds"
| "clean_store cl w z Pb_Callback \<longleftrightarrow> True"

fun clean_stores ::
  "((pb_store list \<Rightarrow> bool) \<times> (pb_store list \<Rightarrow> u8 list) \<times> pb_store) list \<Rightarrow> pb_store list \<Rightarrow> bool" where
  "clean_stores ((cl, w, z) # fs) (st # sts) \<longleftrightarrow> clean_store cl w z st \<and> clean_stores fs sts"
| "clean_stores _ _ \<longleftrightarrow> True"

function clean :: "pb_msgdesc_t \<Rightarrow> pb_store list \<Rightarrow> bool" where
  "clean (Pb_Msg fs dv) = clean_stores
     (map (\<lambda>f. case f_ltype f of
         PB_LTYPE_SUBMESSAGE m \<Rightarrow> (clean m, wire m, zero_store (f, pb_zero m))
       | _ \<Rightarrow> ((\<lambda>_. True), (\<lambda>_. []), zero_store (f, []))) fs)"
  by pat_completeness auto
termination by (relation "measure size") (auto dest: size_submessage)

section \<open>The encoder writes the bytes\<close>

lemma signed_at_self: "signed_range n v \<Longrightarrow> signed_at n v = v"
  unfolding signed_range_def signed_at_def by (rule signed_take_bit_int_eq_self) auto

lemma unsigned_at_self: "unsigned_range n v \<Longrightarrow> unsigned_at n v = v"
  by (simp add: unsigned_range_def unsigned_at_def)

lemma field_tag_bytes:
  "field_ok f \<Longrightarrow> pb_encode_tag_for_field s f = pb_write s (tag_bytes f)"
  unfolding pb_encode_tag_for_field_def tag_bytes_def field_ok_def
  by (subst pb_encode_tag_bytes) (cases "f_ltype f"; simp)+

lemma encode_submessage_writes:
  assumes "\<And>s. os_ok s \<Longrightarrow> sub s src = pb_write s w" "length w < 2 ^ 64" "os_ok s"
  shows "pb_encode_submessage sub s src = pb_write s (varint (length w) @ w)"
proof -
  have size: "sub PB_OSTREAM_SIZING src = Ret (PB_OSTREAM_SIZING \<lparr> bytes_written := length w \<rparr>)"
    using assms(1)[of PB_OSTREAM_SIZING]
    by (simp add: os_ok_def PB_OSTREAM_SIZING_def pb_write_def)
  have n: "unat (of_nat (length w) :: u64) = length w"
    using assms(2) by (simp add: unat_of_nat)
  have bw: "bytes_written (PB_OSTREAM_SIZING \<lparr> bytes_written := length w \<rparr>) = length w" by simp
  let ?rest = "\<lambda>s. if \<not> os_callback s then pb_write s (replicate (length w) 0)
         else if max_size s < bytes_written s + length w then Fail
         else pb_bind (sub (s \<lparr> max_size := length w, bytes_written := 0 \<rparr>) src) (\<lambda>substream.
           if bytes_written substream \<noteq> length w then Fail
           else Ret (s \<lparr> bytes_written := bytes_written s + bytes_written substream,
                        os_state := os_state substream, os_room := os_room substream \<rparr>))"
  have "?rest s' = pb_write s' w" if s': "os_ok s'" for s'
  proof (cases "os_callback s' \<and> \<not> max_size s' < bytes_written s' + length w")
    case True
    then have ok: "os_ok (s' \<lparr> max_size := length w, bytes_written := 0 \<rparr>)"
      using s' by (auto simp: os_ok_def)
    show ?thesis
      using True s' ok assms(1)[OF ok] by (simp add: pb_write_explicit)
  next
    case False
    moreover have "w \<noteq> []" if "max_size s' < bytes_written s' + length w" "os_callback s'"
      using that s' by (auto simp: os_ok_def)
    ultimately show ?thesis
      using s' by (auto simp: pb_write_explicit)
  qed
  from write_then[OF assms(3), of ?rest w, OF this]
  show ?thesis
    unfolding pb_encode_submessage_def size pb_bind.simps Let_def bw pb_encode_varint_bytes n .
qed

text \<open>What is asked of the encoder of a submessage.\<close>

definition encodes ::
  "(pb_store list \<Rightarrow> bool) \<Rightarrow> (pb_store list \<Rightarrow> u8 list) \<Rightarrow>
   (pb_ostream_t \<Rightarrow> pb_store list \<Rightarrow> pb_ostream_t pb) \<Rightarrow> bool" where
  "encodes ok w sub \<longleftrightarrow> (\<forall>src s. ok src \<longrightarrow> os_ok s \<longrightarrow> sub s src = pb_write s (w src))"

lemma encode_basic_writes:
  assumes "field_ok f" "data_ok ok f d" "clean_data cl w d"
    "encodes (\<lambda>src. ok src \<and> cl src) w sub" "os_ok s"
  shows "encode_basic_field sub f s d = pb_write s (wire_basic w f d)"
  unfolding encode_basic_field_def field_tag_bytes[OF assms(1)] wire_basic_def
proof (rule write_then[OF assms(5)])
  fix s' assume s': "os_ok s'"
  show "(case f_ltype f of
         PB_LTYPE_BOOL \<Rightarrow> pb_enc_bool s' d
       | PB_LTYPE_VARINT \<Rightarrow> pb_enc_varint s' f d
       | PB_LTYPE_UVARINT \<Rightarrow> pb_enc_varint s' f d
       | PB_LTYPE_SVARINT \<Rightarrow> pb_enc_varint s' f d
       | PB_LTYPE_FIXED32 \<Rightarrow> pb_enc_fixed s' f d
       | PB_LTYPE_FIXED64 \<Rightarrow> pb_enc_fixed s' f d
       | PB_LTYPE_BYTES \<Rightarrow> pb_enc_bytes s' f d
       | PB_LTYPE_STRING \<Rightarrow> pb_enc_string s' f d
       | PB_LTYPE_SUBMESSAGE m \<Rightarrow> pb_enc_submessage sub s' d) = pb_write s' (payload w f d)"
  proof (cases "f_ltype f")
    case PB_LTYPE_STRING
    then obtain b where b: "d = Pb_String b" "length b < f_data_size f"
      using assms(2) by (cases d) (auto simp: data_ok_def)
    then have tw: "takeWhile (\<lambda>c. c \<noteq> 0) b = b" using assms(3) by (auto simp: takeWhile_eq_all_conv)
    have "length b < 2 ^ 64" using b(2) assms(1) PB_LTYPE_STRING by (simp add: field_ok_def)
    moreover have "\<not> f_data_size f - 1 < length b" using b(2) by simp
    ultimately show ?thesis
      using b(2) s'
      by (simp add: pb_enc_string_def payload_def Let_def pb_encode_string_bytes tw b(1) PB_LTYPE_STRING)
  next
    case PB_LTYPE_BYTES
    then obtain b where b: "d = Pb_Bytes b" "length b + 2 \<le> f_data_size f"
      using assms(2) by (cases d) (auto simp: data_ok_def)
    moreover have "length b < 2 ^ 64" using b(2) assms(1) PB_LTYPE_BYTES by (simp add: field_ok_def)
    ultimately show ?thesis
      using PB_LTYPE_BYTES s' by (auto simp: pb_enc_bytes_def payload_def pb_encode_string_bytes)
  next
    case (PB_LTYPE_SUBMESSAGE m)
    then obtain src where src: "d = Pb_Struct src" "ok src"
      using assms(2) by (cases d) (auto simp: data_ok_def)
    then have "cl src" "length (w src) < 2 ^ 64" using assms(3) by auto
    then show ?thesis
      using src PB_LTYPE_SUBMESSAGE s' assms(4) encode_submessage_writes[of sub src "w src" s']
      by (simp add: pb_enc_submessage_def payload_def encodes_def)
  next
    case PB_LTYPE_BOOL
    then show ?thesis
      using assms(2) by (cases d) (auto simp: data_ok_def pb_enc_bool_def payload_def pb_encode_varint_bytes)
  next
    case PB_LTYPE_VARINT
    then show ?thesis
      using assms(1,2) by (cases d)
        (auto simp: data_ok_def pb_enc_varint_def payload_def pb_encode_varint_bytes field_ok_def signed_at_self)
  next
    case PB_LTYPE_UVARINT
    then show ?thesis
      using assms(1,2) by (cases d)
        (auto simp: data_ok_def pb_enc_varint_def payload_def pb_encode_varint_bytes field_ok_def unsigned_at_self)
  next
    case PB_LTYPE_SVARINT
    then show ?thesis
      using assms(1,2) by (cases d)
        (auto simp: data_ok_def pb_enc_varint_def payload_def pb_encode_svarint_def pb_encode_varint_bytes
          field_ok_def signed_at_self)
  next
    case PB_LTYPE_FIXED32
    then show ?thesis
      using assms(1,2) by (cases d)
        (auto simp: data_ok_def pb_enc_fixed_def payload_def pb_encode_fixed32_def field_ok_def)
  next
    case PB_LTYPE_FIXED64
    then show ?thesis
      using assms(1,2) by (cases d)
        (auto simp: data_ok_def pb_enc_fixed_def payload_def pb_encode_fixed64_def field_ok_def)
  qed
qed

lemma encode_all_writes:
  assumes "\<And>s d. os_ok s \<Longrightarrow> d \<in> set ds \<Longrightarrow> enc s d = pb_write s (w d)" "os_ok s"
  shows "encode_all enc s ds = pb_write s (concat (map w ds))"
  using assms
proof (induction ds arbitrary: s)
  case (Cons d ds)
  have "pb_bind (pb_write s (w d)) (\<lambda>s. encode_all enc s ds) = pb_write s (w d @ concat (map w ds))"
    by (rule write_then[OF Cons(3)]) (use Cons in auto)
  then show ?case using Cons by simp
qed (simp add: pb_write_Nil)

lemma encode_field_writes:
  assumes "field_ok f" "store_ok ok f st" "clean_store cl w z st"
    "encodes (\<lambda>src. ok src \<and> cl src) w sub" "os_ok s"
  shows "encode_field sub f s st = pb_write s (wire_field w f st)"
proof (cases st)
  case (Pb_Repeated ds)
  note st = this
  show ?thesis
  proof (cases "ds = []")
    case False
    have "encode_all (encode_basic_field sub f) s ds = pb_write s (concat (map (wire_basic w f) ds))"
      by (rule encode_all_writes[OF _ assms(5)])
        (use assms st in \<open>auto simp: list_all_iff intro: encode_basic_writes\<close>)
    then show ?thesis
      using st False assms by (simp add: encode_field_def encode_array_def field_ok_def)
  qed (use st assms in \<open>simp add: encode_field_def encode_array_def pb_write_Nil\<close>)
qed (use assms encode_basic_writes in \<open>auto simp: encode_field_def encode_callback_field_def pb_write_Nil\<close>)

lemma encode_fields_writes:
  assumes "\<And>f. f \<in> set fs \<Longrightarrow> field_ok f"
    "\<And>f. f \<in> set fs \<Longrightarrow> encodes (\<lambda>src. ok f src \<and> cl f src) (w f) (sub f)"
    "stores_ok (map (\<lambda>f. (f, ok f)) fs) sts" "clean_stores (map (\<lambda>f. (cl f, w f, z f)) fs) sts" "os_ok s"
  shows "encode_fields (map (\<lambda>f. (f, sub f)) fs) s sts = pb_write s (wire_fields (map (\<lambda>f. (f, w f)) fs) sts)"
  using assms
proof (induction fs arbitrary: s sts)
  case Nil
  then show ?case by (cases sts) (auto simp: pb_write_Nil)
next
  case (Cons f fs)
  then obtain st sts' where sts: "sts = st # sts'" by (cases sts) auto
  have e: "encode_field (sub f) f s st = pb_write s (wire_field (w f) f st)"
    using Cons.prems sts by (intro encode_field_writes[where ok = "ok f" and cl = "cl f" and z = "z f"]) auto
  have "pb_bind (pb_write s (wire_field (w f) f st)) (\<lambda>s. encode_fields (map (\<lambda>f. (f, sub f)) fs) s sts')
      = pb_write s (wire_field (w f) f st @ wire_fields (map (\<lambda>f. (f, w f)) fs) sts')"
    by (rule write_then[OF Cons.prems(5)]) (use Cons sts in auto)
  then show ?case using sts e by simp
qed

text \<open>The functions of a descriptor, field by field.\<close>

definition sub_encode :: "pb_field_t \<Rightarrow> pb_ostream_t \<Rightarrow> pb_store list \<Rightarrow> pb_ostream_t pb" where
  "sub_encode f = (case f_ltype f of PB_LTYPE_SUBMESSAGE m \<Rightarrow> pb_encode m | _ \<Rightarrow> (\<lambda>s st. Undef))"

definition sub_wire :: "pb_field_t \<Rightarrow> pb_store list \<Rightarrow> u8 list" where
  "sub_wire f = (case f_ltype f of PB_LTYPE_SUBMESSAGE m \<Rightarrow> wire m | _ \<Rightarrow> (\<lambda>_. []))"

definition sub_ok :: "pb_field_t \<Rightarrow> pb_store list \<Rightarrow> bool" where
  "sub_ok f = (case f_ltype f of PB_LTYPE_SUBMESSAGE m \<Rightarrow> struct_ok m | _ \<Rightarrow> (\<lambda>_. False))"

definition sub_clean :: "pb_field_t \<Rightarrow> pb_store list \<Rightarrow> bool" where
  "sub_clean f = (case f_ltype f of PB_LTYPE_SUBMESSAGE m \<Rightarrow> clean m | _ \<Rightarrow> (\<lambda>_. True))"

definition sub_zero :: "pb_field_t \<Rightarrow> pb_store list" where
  "sub_zero f = (case f_ltype f of PB_LTYPE_SUBMESSAGE m \<Rightarrow> pb_zero m | _ \<Rightarrow> [])"

lemma clean_fields:
  "clean (Pb_Msg fs dv) = clean_stores
     (map (\<lambda>f. (sub_clean f, sub_wire f, zero_store (f, sub_zero f))) fs)"
proof -
  have "(case f_ltype f of
         PB_LTYPE_SUBMESSAGE m \<Rightarrow> (clean m, wire m, zero_store (f, pb_zero m))
       | _ \<Rightarrow> ((\<lambda>_. True), (\<lambda>_. []), zero_store (f, [])))
     = (sub_clean f, sub_wire f, zero_store (f, sub_zero f))" for f
    by (simp add: sub_clean_def sub_wire_def sub_zero_def split: pb_ltype.split)
  then show ?thesis by simp
qed

lemma by_fields:
  "pb_encode (Pb_Msg fs dv) = encode_fields (map (\<lambda>f. (f, sub_encode f)) fs)"
  "wire (Pb_Msg fs dv) = wire_fields (map (\<lambda>f. (f, sub_wire f)) fs)"
  "struct_ok (Pb_Msg fs dv) = stores_ok (map (\<lambda>f. (f, sub_ok f)) fs)"
  "pb_zero (Pb_Msg fs dv) = map (\<lambda>f. zero_store (f, sub_zero f)) fs"
  by (simp_all add: sub_encode_def sub_wire_def sub_ok_def sub_zero_def)

lemma pb_encode_writes:
  "\<lbrakk>desc_ok m; struct_ok m sts; clean m sts; os_ok s\<rbrakk> \<Longrightarrow> pb_encode m s sts = pb_write s (wire m sts)"
proof (induction m arbitrary: sts s rule: pb_encode.induct)
  case (1 fs dv)
  have ok: "field_ok f" if "f \<in> set fs" for f
    using that 1(2) by (simp add: list_all_iff)
  have sub: "encodes (\<lambda>src. sub_ok f src \<and> sub_clean f src) (sub_wire f) (sub_encode f)" if "f \<in> set fs" for f
  proof (cases "f_ltype f")
    case (PB_LTYPE_SUBMESSAGE m)
    moreover from this that 1(2) have "desc_ok m" by (fastforce simp: list_all_iff)
    ultimately show ?thesis
      using 1(1)[OF that] by (auto simp: encodes_def sub_ok_def sub_clean_def sub_wire_def sub_encode_def)
  qed (simp_all add: encodes_def sub_ok_def)
  show ?case
    unfolding by_fields
    by (rule encode_fields_writes[where ok = sub_ok and cl = sub_clean
          and z = "\<lambda>f. zero_store (f, sub_zero f)", OF ok sub])
      (use 1(3-5) in \<open>simp_all only: by_fields clean_fields\<close>)
qed

section \<open>The decoder reads the bytes back\<close>

lemma sint_of_int_64: "signed_range 8 v \<Longrightarrow> sint (word_of_int v :: u64) = v"
  by (simp add: signed_range_def signed_of_int signed_take_bit_int_eq_self)

lemma sint_of_int_32: "signed_range 4 v \<Longrightarrow> sint (ucast (word_of_int v :: u64) :: u32) = v"
  by (simp add: signed_range_def signed_of_int signed_take_bit_int_eq_self unsigned_of_int
      signed_take_bit_take_bit min_def flip: take_bit_eq_mod)

lemma uint_of_int_64: "unsigned_range n v \<Longrightarrow> n \<le> 8 \<Longrightarrow> uint (word_of_int v :: u64) = v"
proof -
  assume "unsigned_range n v" "n \<le> 8"
  moreover from this(2) have "(2::int) ^ (8 * n) \<le> 2 ^ 64" by (intro power_increasing) auto
  ultimately show ?thesis
    by (simp add: unsigned_range_def uint_word_of_int)
qed

lemma substream_reads:
  assumes "length b < 2 ^ 32" "length (varint (length b) @ b) \<le> l"
  shows "pb_make_string_substream \<lparr> is_state = varint (length b) @ b @ m, bytes_left = l \<rparr>
    = Ret (\<lparr> is_state = b @ m, bytes_left = l - length (varint (length b)) - length b \<rparr>,
           \<lparr> is_state = b @ m, bytes_left = length b \<rparr>)"
  using pb_decode_varint32_reads[OF assms(1), of l "b @ m"] assms
  by (simp add: pb_make_string_substream_def unat_of_nat)

lemma close_end:
  "pb_close_string_substream s \<lparr> is_state = m, bytes_left = 0 \<rparr> = Ret (s \<lparr> is_state := m \<rparr>)"
  by (simp add: pb_close_string_substream_def)

text \<open>What is asked of the decoder of a submessage, from a structure \<open>z\<close>.\<close>

definition decodes ::
  "(pb_store list \<Rightarrow> bool) \<Rightarrow> (pb_store list \<Rightarrow> u8 list) \<Rightarrow> pb_sub \<Rightarrow> bool \<Rightarrow> pb_store list \<Rightarrow> bool" where
  "decodes ok w sub noinit z \<longleftrightarrow> (\<forall>src m. ok src \<longrightarrow>
     sub noinit \<lparr> is_state = w src @ m, bytes_left = length (w src) \<rparr> z
       = Ret (src, \<lparr> is_state = m, bytes_left = 0 \<rparr>))"

lemma decode_basic_reads:
  assumes "field_ok f" "data_ok ok f d" "clean_data cl w d"
    "decodes (\<lambda>src. ok src \<and> cl src) w sub (f_htype f \<noteq> PB_HTYPE_REPEATED) z"
    "\<And>m. f_ltype f = PB_LTYPE_SUBMESSAGE m \<Longrightarrow> d0 = Pb_Struct z"
    "length (payload w f d) \<le> l"
  shows "decode_basic_field sub \<lparr> is_state = payload w f d @ m, bytes_left = l \<rparr> (wire_type_of (f_ltype f)) f d0
    = Ret (d, \<lparr> is_state = m, bytes_left = l - length (payload w f d) \<rparr>)"
proof (cases "f_ltype f")
  case PB_LTYPE_BOOL
  then obtain b where b: "d = Pb_Bool b" using assms(2) by (cases d) (auto simp: data_ok_def)
  have "pb_decode_varint32 \<lparr> is_state = varint (if b then 1 else 0) @ m, bytes_left = l \<rparr>
     = Ret (of_nat (if b then 1 else 0), \<lparr> is_state = m, bytes_left = l - length (varint (if b then 1 else 0)) \<rparr>)"
    by (rule pb_decode_varint32_reads) (use assms(6) b PB_LTYPE_BOOL in \<open>auto simp: payload_def\<close>)
  then show ?thesis
    using b PB_LTYPE_BOOL
    by (auto simp: decode_basic_field_def wire_fits_def pb_dec_bool_def pb_decode_bool_def payload_def)
next
  case PB_LTYPE_VARINT
  then obtain v where v: "d = Pb_Int v" "signed_range (f_data_size f) v"
    using assms(2) by (cases d) (auto simp: data_ok_def)
  have "pb_decode_varint \<lparr> is_state = payload w f d @ m, bytes_left = l \<rparr>
     = Ret (word_of_int v, \<lparr> is_state = m, bytes_left = l - length (payload w f d) \<rparr>)"
    using pb_decode_varint_reads[of "unat (word_of_int v :: u64)" l m] assms(6) v(1) PB_LTYPE_VARINT u64_bound
    by (simp add: payload_def)
  moreover have "f_data_size f \<in> {4, 8}" using assms(1) PB_LTYPE_VARINT by (simp add: field_ok_def)
  ultimately show ?thesis
    using v PB_LTYPE_VARINT
    by (auto simp: decode_basic_field_def wire_fits_def pb_dec_varint_def Let_def sint_of_int_64 sint_of_int_32
        signed_at_self)
next
  case PB_LTYPE_UVARINT
  then obtain v where v: "d = Pb_Int v" "unsigned_range (f_data_size f) v"
    using assms(2) by (cases d) (auto simp: data_ok_def)
  have "pb_decode_varint \<lparr> is_state = payload w f d @ m, bytes_left = l \<rparr>
     = Ret (word_of_int v, \<lparr> is_state = m, bytes_left = l - length (payload w f d) \<rparr>)"
    using pb_decode_varint_reads[of "unat (word_of_int v :: u64)" l m] assms(6) v(1) PB_LTYPE_UVARINT u64_bound
    by (simp add: payload_def)
  moreover have "f_data_size f \<in> {4, 8}" using assms(1) PB_LTYPE_UVARINT by (simp add: field_ok_def)
  ultimately show ?thesis
    using v PB_LTYPE_UVARINT uint_of_int_64[OF v(2)]
    by (auto simp: decode_basic_field_def wire_fits_def pb_dec_varint_def Let_def unsigned_at_self)
next
  case PB_LTYPE_SVARINT
  then obtain v where v: "d = Pb_Int v" "signed_range (f_data_size f) v"
    using assms(2) by (cases d) (auto simp: data_ok_def)
  have "pb_decode_varint \<lparr> is_state = payload w f d @ m, bytes_left = l \<rparr>
     = Ret (zigzag v, \<lparr> is_state = m, bytes_left = l - length (payload w f d) \<rparr>)"
    using pb_decode_varint_reads[of "unat (zigzag v)" l m] assms(6) v(1) PB_LTYPE_SVARINT u64_bound
    by (simp add: payload_def)
  moreover have n: "f_data_size f \<in> {4, 8}" using assms(1) PB_LTYPE_SVARINT by (simp add: field_ok_def)
  moreover have "unzigzag (zigzag v) = v"
    by (rule unzigzag_zigzag) (use v n in \<open>auto simp: signed_range_def\<close>)
  ultimately show ?thesis
    using v PB_LTYPE_SVARINT
    by (auto simp: decode_basic_field_def wire_fits_def pb_dec_varint_def pb_decode_svarint_def Let_def
        signed_at_self)
next
  case PB_LTYPE_FIXED32
  then obtain v where v: "d = Pb_Int v" "unsigned_range 4 v"
    using assms(2) by (cases d) (auto simp: data_ok_def)
  then have "le_value (le_bytes 4 v) = v" by (intro le_value_bytes) (simp_all add: unsigned_range_def)
  then show ?thesis
    using v PB_LTYPE_FIXED32 assms(6) pb_read_append[of 4 "le_bytes 4 v" l m]
    by (simp add: decode_basic_field_def wire_fits_def pb_decode_fixed32_def payload_def del: le_bytes.simps)
next
  case PB_LTYPE_FIXED64
  then obtain v where v: "d = Pb_Int v" "unsigned_range 8 v"
    using assms(2) by (cases d) (auto simp: data_ok_def)
  then have "le_value (le_bytes 8 v) = v" by (intro le_value_bytes) (simp_all add: unsigned_range_def)
  then show ?thesis
    using v PB_LTYPE_FIXED64 assms(6) pb_read_append[of 8 "le_bytes 8 v" l m]
    by (simp add: decode_basic_field_def wire_fits_def pb_decode_fixed64_def payload_def del: le_bytes.simps)
next
  case PB_LTYPE_BYTES
  then obtain b where b: "d = Pb_Bytes b" "length b + 2 \<le> f_data_size f"
    using assms(2) by (cases d) (auto simp: data_ok_def)
  have n: "length b < 65536" using b(2) assms(1) PB_LTYPE_BYTES by (simp add: field_ok_def)
  then have r: "pb_decode_varint32 \<lparr> is_state = varint (length b) @ b @ m, bytes_left = l \<rparr>
     = Ret (of_nat (length b), \<lparr> is_state = b @ m, bytes_left = l - length (varint (length b)) \<rparr>)"
    using assms(6) b(1) PB_LTYPE_BYTES by (intro pb_decode_varint32_reads) (simp_all add: payload_def)
  have "unat (of_nat (length b) :: u32) = length b" using n by (simp add: unat_of_nat)
  then show ?thesis
    using r b PB_LTYPE_BYTES assms(6) n
    by (simp add: decode_basic_field_def wire_fits_def pb_dec_bytes_def payload_def PB_SIZE_MAX_def pb_read_append)
next
  case PB_LTYPE_STRING
  then obtain b where b: "d = Pb_String b" "length b < f_data_size f"
    using assms(2) by (cases d) (auto simp: data_ok_def)
  have n: "length b < 65536" using b(2) assms(1) PB_LTYPE_STRING by (simp add: field_ok_def)
  then have r: "pb_decode_varint32 \<lparr> is_state = varint (length b) @ b @ m, bytes_left = l \<rparr>
     = Ret (of_nat (length b), \<lparr> is_state = b @ m, bytes_left = l - length (varint (length b)) \<rparr>)"
    using assms(6) b(1) PB_LTYPE_STRING by (intro pb_decode_varint32_reads) (simp_all add: payload_def)
  have u: "unat (of_nat (length b) :: u32) = length b" using n by (simp add: unat_of_nat)
  moreover have "of_nat (length b) \<noteq> (- 1 :: u32)"
  proof
    assume "of_nat (length b) = (- 1 :: u32)"
    then have "of_nat (Suc (length b)) = (0 :: u32)" by simp
    moreover have "unat (of_nat (Suc (length b)) :: u32) = Suc (length b)"
      using n by (simp add: unat_of_nat del: of_nat_Suc)
    ultimately show False by simp
  qed
  ultimately show ?thesis
    using r b PB_LTYPE_STRING assms(6)
    by (simp add: decode_basic_field_def wire_fits_def pb_dec_string_def payload_def pb_read_append)
next
  case (PB_LTYPE_SUBMESSAGE dm)
  then obtain src where src: "d = Pb_Struct src" "ok src" "cl src" "length (w src) < 2 ^ 32"
    using assms(2,3) by (cases d) (auto simp: data_ok_def)
  have p: "payload w f (Pb_Struct src) = varint (length (w src)) @ w src" using PB_LTYPE_SUBMESSAGE by (simp add: payload_def)
  show ?thesis
    using substream_reads[OF src(4), of l m] assms(4,6) src(2,3) assms(5)[OF PB_LTYPE_SUBMESSAGE]
      PB_LTYPE_SUBMESSAGE src(1)
    by (simp add: decode_basic_field_def wire_fits_def pb_dec_submessage_def p decodes_def close_end)
qed

text \<open>The search for a field.\<close>

lemma iter_search_hits:
  "\<lbrakk>j < i; i < length fs; i - j \<le> k; \<forall>t. j < t \<and> t < i \<longrightarrow> f_tag (fs ! t) \<noteq> tag \<and> t \<noteq> start;
    f_tag (fs ! i) = tag\<rbrakk> \<Longrightarrow> iter_search k fs tag start j = Some i"
proof (induction k arbitrary: j)
  case (Suc k)
  show ?case
  proof (cases "Suc j = i")
    case False
    with Suc.prems have "Suc j < i" "Suc j < length fs" by auto
    then show ?thesis using Suc by (auto simp: Let_def)
  qed (use Suc.prems in auto)
qed simp

lemma iter_search_Some:
  "iter_search k fs tag start j = Some i \<Longrightarrow> fs \<noteq> [] \<Longrightarrow> i < length fs \<and> f_tag (fs ! i) = tag"
  by (induction k fs tag start j rule: iter_search.induct) (auto simp: Let_def split: if_splits)

lemma find_field:
  assumes "sorted_wrt (<) (map f_tag fs)" "index < length fs" "i < length fs"
  shows "pb_field_iter_find fs index (f_tag (fs ! i)) = Some i"
proof -
  have less: "f_tag (fs ! a) < f_tag (fs ! b)" if "a < b" "b < length fs" for a b
    using sorted_wrt_nth_less[OF assms(1), of a b] that by simp
  have "fs \<noteq> []" using assms(3) by auto
  then have "last fs = fs ! (length fs - 1)" by (rule last_conv_nth)
  then have le: "f_tag (fs ! i) \<le> f_tag (last fs)"
    using assms(3) less[of i "length fs - 1"]
    by (cases "i = length fs - 1") (simp, force)
  consider "i = index" | "index < i" | "i < index" by linarith
  then show ?thesis
  proof cases
    case 1
    then show ?thesis using assms(2) by (auto simp: pb_field_iter_find_def)
  next
    case 2
    then have "iter_search (length fs) fs (f_tag (fs ! i)) index index = Some i"
      using assms(3) less by (intro iter_search_hits) (auto dest: less)
    then show ?thesis
      using 2 assms le less[of index i] by (auto simp: pb_field_iter_find_def)
  next
    case 3
    obtain k where k: "length fs = Suc k" using assms(2) by (cases "length fs") auto
    have "iter_search (length fs) fs (f_tag (fs ! i)) index (length fs) = Some i"
    proof (cases "i = 0")
      case False
      then have "iter_search k fs (f_tag (fs ! i)) index 0 = Some i"
        using assms 3 k less by (intro iter_search_hits) (auto dest: less)
      moreover have "f_tag (fs ! 0) \<noteq> f_tag (fs ! i)" using less[of 0 i] False assms(3) by auto
      ultimately show ?thesis using 3 unfolding k by (simp add: k Let_def)
    qed (simp add: k)
    then show ?thesis
      using 3 assms le less[of i index] by (auto simp: pb_field_iter_find_def)
  qed
qed

lemma find_Some:
  "pb_field_iter_find fs index tag = Some i \<Longrightarrow> index < length fs \<Longrightarrow> i < length fs \<and> f_tag (fs ! i) = tag"
  using iter_search_Some by (auto simp: pb_field_iter_find_def split: if_splits)

text \<open>Every required field has been seen when each position of one has.\<close>

lemma required_index_Suc:
  "i < length fs \<Longrightarrow> required_index fs (Suc i) =
     required_index fs i + (if f_htype (fs ! i) = PB_HTYPE_REQUIRED then 1 else 0)"
  by (simp add: required_index_def take_Suc_conv_app_nth)

lemma required_indices:
  "n \<le> length fs \<Longrightarrow> j < required_index fs n \<Longrightarrow>
   \<exists>i<n. f_htype (fs ! i) = PB_HTYPE_REQUIRED \<and> required_index fs i = j"
proof (induction n)
  case (Suc n)
  then show ?case
    by (cases "j < required_index fs n") (auto simp: required_index_Suc less_Suc_eq split: if_splits)
qed (simp add: required_index_def)

lemma all_requiredI:
  assumes "\<And>i. i < length fs \<Longrightarrow> f_htype (fs ! i) = PB_HTYPE_REQUIRED \<Longrightarrow> required_index fs i \<in> set seen"
  shows "all_required fs seen"
  unfolding all_required_def list_all_iff
  using required_indices[of "length fs" fs] assms by fastforce

text \<open>One turn of the loop for a field that is there.\<close>

lemma loop_turn:
  assumes "sorted_wrt (<) (map f_tag fs)" "index < length fs" "i < length fs" "field_ok (fs ! i)"
    "decode_field (sub (fs ! i)) \<lparr> is_state = r, bytes_left = l \<rparr> (wire_type_of (f_ltype (fs ! i))) (fs ! i) (st ! i)
       = Ret (st', \<lparr> is_state = m, bytes_left = l' \<rparr>)" "l' \<le> l"
  shows "decode_loop (map (\<lambda>f. (f, sub f)) fs) index seen
      \<lparr> is_state = tag_bytes (fs ! i) @ r, bytes_left = length (tag_bytes (fs ! i)) + l \<rparr> st
    = decode_loop (map (\<lambda>f. (f, sub f)) fs) i
        (if f_htype (fs ! i) = PB_HTYPE_REQUIRED then required_index fs i # seen else seen)
        \<lparr> is_state = m, bytes_left = l' \<rparr> (st[i := st'])"
proof -
  have wt: "wire_type_of (f_ltype (fs ! i)) < 8" by (cases "f_ltype (fs ! i)") auto
  have t: "0 < f_tag (fs ! i)" "f_tag (fs ! i) < 2 ^ 29" using assms(4) by (auto simp: field_ok_def)
  have "pb_decode_tag \<lparr> is_state = tag_bytes (fs ! i) @ r, bytes_left = length (tag_bytes (fs ! i)) + l \<rparr>
     = Ret (Some (wire_type_of (f_ltype (fs ! i)), f_tag (fs ! i)), \<lparr> is_state = r, bytes_left = l \<rparr>)"
    using pb_decode_tag_reads[OF wt t(2), of "length (tag_bytes (fs ! i)) + l" r] by (simp add: tag_bytes_def)
  moreover have "map fst (map (\<lambda>f. (f, sub f)) fs) = fs" by (simp add: comp_def)
  moreover have "\<not> length (tag_bytes (fs ! i)) + l \<le> l'" "tag_bytes (fs ! i) \<noteq> []"
    using assms(6) by (auto simp: tag_bytes_def not_le intro: add_pos_nonneg le_less_trans)
  ultimately show ?thesis
    using find_field[OF assms(1-3)] assms(3,5,6) t(1)
    by (subst decode_loop.simps) (simp add: comp_def)
qed

text \<open>What is asked of the decoder of a field's submessages: for an element of an array it starts from
  nothing and sets the defaults itself, otherwise it finds the defaults there.\<close>

definition sub_decodes ::
  "(pb_store list \<Rightarrow> bool) \<Rightarrow> (pb_store list \<Rightarrow> bool) \<Rightarrow> (pb_store list \<Rightarrow> u8 list) \<Rightarrow> pb_sub \<Rightarrow> pb_field_t
   \<Rightarrow> pb_store list \<Rightarrow> bool" where
  "sub_decodes ok cl w sub f z \<longleftrightarrow>
     decodes (\<lambda>src. ok src \<and> cl src) w sub (f_htype f \<noteq> PB_HTYPE_REPEATED)
       (if f_htype f = PB_HTYPE_REPEATED then [] else z)"

lemma decode_single_reads:
  assumes "field_ok f" "store_ok ok f st" "clean_store cl w z0 st" "sub_decodes ok cl w sub f z"
    "st = Pb_Required d \<or> st = Pb_Optional True d" "length (payload w f d) \<le> l"
  shows "decode_field sub \<lparr> is_state = payload w f d @ m, bytes_left = l \<rparr> (wire_type_of (f_ltype f)) f
      (zero_store (f, z)) = Ret (st, \<lparr> is_state = m, bytes_left = l - length (payload w f d) \<rparr>)"
proof -
  have f: "f_atype f = PB_ATYPE_STATIC" "f_htype f \<noteq> PB_HTYPE_REPEATED" "data_ok ok f d" "clean_data cl w d"
    using assms(2,3,5) by auto
  note read = decode_basic_reads[OF assms(1) f(3,4) assms(4)[unfolded sub_decodes_def] _ assms(6)]
  show ?thesis
    using assms(2,5) f(1,2) read
    by (auto simp: decode_field_def decode_static_field_def Let_def split: pb_ltype.split)
qed

lemma loop_repeated:
  assumes "sorted_wrt (<) (map f_tag fs)" "n < length fs" "field_ok (fs ! n)"
    "f_atype (fs ! n) = PB_ATYPE_STATIC" "f_htype (fs ! n) = PB_HTYPE_REPEATED"
    "list_all (data_ok ok (fs ! n)) ds" "list_all (clean_data cl w) ds"
    "sub_decodes ok cl w (sub (fs ! n)) (fs ! n) z" "index < length fs"
    "n < length st" "st ! n = Pb_Repeated done" "length done + length ds \<le> f_array_size (fs ! n)"
  shows "\<exists>index'<length fs. decode_loop (map (\<lambda>f. (f, sub f)) fs) index seen
      \<lparr> is_state = concat (map (wire_basic w (fs ! n)) ds) @ m,
        bytes_left = length (concat (map (wire_basic w (fs ! n)) ds)) + l \<rparr> st
    = decode_loop (map (\<lambda>f. (f, sub f)) fs) index' seen \<lparr> is_state = m, bytes_left = l \<rparr>
        (st[n := Pb_Repeated (done @ ds)])"
  using assms(6,7,9-12)
proof (induction ds arbitrary: index st "done")
  case Nil
  then have "st[n := Pb_Repeated (done @ [])] = st" by (metis append_Nil2 list_update_id)
  with Nil show ?case by auto
next
  case (Cons d ds)
  let ?f = "fs ! n" and ?rest = "concat (map (wire_basic w (fs ! n)) ds)"
  let ?l = "length (payload w ?f d) + (length ?rest + l)"
  have np: "\<not> packable (f_ltype ?f)" using assms(3,5) by (simp add: field_ok_def)
  have "decode_basic_field (sub ?f) \<lparr> is_state = payload w ?f d @ ?rest @ m, bytes_left = ?l \<rparr>
      (wire_type_of (f_ltype ?f)) ?f (zero_data (f_ltype ?f))
    = Ret (d, \<lparr> is_state = ?rest @ m, bytes_left = ?l - length (payload w ?f d) \<rparr>)"
    using Cons.prems(1,2) assms(5) assms(8)[unfolded sub_decodes_def]
    by (intro decode_basic_reads[OF assms(3)]) auto
  then have "decode_field (sub ?f) \<lparr> is_state = payload w ?f d @ ?rest @ m, bytes_left = ?l \<rparr>
      (wire_type_of (f_ltype ?f)) ?f (st ! n)
    = Ret (Pb_Repeated (done @ [d]), \<lparr> is_state = ?rest @ m, bytes_left = length ?rest + l \<rparr>)"
    using Cons.prems np assms(4,5) by (simp add: decode_field_def decode_static_field_def)
  from loop_turn[where sub = sub and fs = fs and i = n, OF assms(1) Cons.prems(3) assms(2,3) this, of seen]
  have "decode_loop (map (\<lambda>f. (f, sub f)) fs) index seen
      \<lparr> is_state = concat (map (wire_basic w ?f) (d # ds)) @ m,
        bytes_left = length (concat (map (wire_basic w ?f) (d # ds))) + l \<rparr> st
    = decode_loop (map (\<lambda>f. (f, sub f)) fs) n seen \<lparr> is_state = ?rest @ m, bytes_left = length ?rest + l \<rparr>
        (st[n := Pb_Repeated (done @ [d])])"
    using assms(5) by (simp add: wire_basic_def add.assoc)
  moreover have "\<exists>index'<length fs. decode_loop (map (\<lambda>f. (f, sub f)) fs) n seen
      \<lparr> is_state = ?rest @ m, bytes_left = length ?rest + l \<rparr> (st[n := Pb_Repeated (done @ [d])])
    = decode_loop (map (\<lambda>f. (f, sub f)) fs) index' seen \<lparr> is_state = m, bytes_left = l \<rparr>
        (st[n := Pb_Repeated (done @ [d]), n := Pb_Repeated ((done @ [d]) @ ds)])"
    by (rule Cons.IH) (use Cons.prems assms(2) in auto)
  ultimately show ?case by simp
qed

text \<open>The whole loop: the fields before the \<open>n\<close>th are read, those from it on are still clear.\<close>

lemma loop_reads:
  fixes ok cl w sub z
  assumes "fs \<noteq> []" "sorted_wrt (<) (map f_tag fs)"
    "\<And>f. f \<in> set fs \<Longrightarrow> field_ok f \<and> sub_decodes (ok f) (cl f) (w f) (sub f) f (z f)"
    "length vs = length fs"
    "\<And>i. i < length fs \<Longrightarrow> store_ok (ok (fs ! i)) (fs ! i) (vs ! i)"
    "\<And>i. i < length fs \<Longrightarrow> clean_store (cl (fs ! i)) (w (fs ! i)) (zero_store (fs ! i, z (fs ! i))) (vs ! i)"
    "n \<le> length fs" "index < length fs"
    "\<forall>i<n. f_htype (fs ! i) = PB_HTYPE_REQUIRED \<longrightarrow> required_index fs i \<in> set seen"
  defines "W \<equiv> \<lambda>n. wire_fields (map (\<lambda>f. (f, w f)) (drop n fs)) (drop n vs)"
    and "Z \<equiv> map (\<lambda>f. zero_store (f, z f)) fs"
  shows "decode_loop (map (\<lambda>f. (f, sub f)) fs) index seen
      \<lparr> is_state = W n @ m, bytes_left = length (W n) \<rparr> (take n vs @ drop n Z)
    = Ret (vs, \<lparr> is_state = m, bytes_left = 0 \<rparr>)"
  using assms(7-9)
proof (induction "length fs - n" arbitrary: n index seen)
  case 0
  then have n: "n = length fs" by simp
  then have "W n = []" "take n vs @ drop n Z = vs" using assms(4) by (simp_all add: W_def Z_def)
  moreover have "all_required fs seen" using 0 n by (intro all_requiredI) auto
  ultimately show ?case by (subst decode_loop.simps) (simp add: comp_def)
next
  case (Suc k)
  then have n: "n < length fs" by simp
  let ?f = "fs ! n" and ?v = "vs ! n" and ?st = "take n vs @ drop n Z"
  have W: "W n = wire_field (w ?f) ?f ?v @ W (Suc n)"
    using n assms(4) by (simp add: W_def Cons_nth_drop_Suc[symmetric])
  have st: "n < length ?st" "?st ! n = zero_store (?f, z ?f)" "?st[n := ?v] = take (Suc n) vs @ drop (Suc n) Z"
    using n assms(4) by (simp_all add: Z_def nth_append list_update_append take_Suc_conv_app_nth
        Cons_nth_drop_Suc[symmetric])
  have f: "field_ok ?f" "sub_decodes (ok ?f) (cl ?f) (w ?f) (sub ?f) ?f (z ?f)"
    "store_ok (ok ?f) ?f ?v" "clean_store (cl ?f) (w ?f) (zero_store (?f, z ?f)) ?v"
    using assms(3,5,6) n nth_mem by blast+
  have onward: "decode_loop (map (\<lambda>f. (f, sub f)) fs) index' seen'
      \<lparr> is_state = W (Suc n) @ m, bytes_left = length (W (Suc n)) \<rparr> (?st[n := ?v])
    = Ret (vs, \<lparr> is_state = m, bytes_left = 0 \<rparr>)"
    if "index' < length fs" "\<forall>i<Suc n. f_htype (fs ! i) = PB_HTYPE_REQUIRED \<longrightarrow> required_index fs i \<in> set seen'"
    for index' seen'
    unfolding st(3) using Suc(1)[of "Suc n" index' seen'] Suc(2) n that by simp
  have absent: ?case if "wire_field (w ?f) ?f ?v = []" "?v = zero_store (?f, z ?f)" "f_htype ?f \<noteq> PB_HTYPE_REQUIRED"
  proof -
    have "?st[n := ?v] = ?st" using st(2) that(2) by (metis list_update_id)
    with onward[of index seen] Suc(4,5) that show ?thesis by (auto simp: W less_Suc_eq)
  qed
  have single: ?case if "?v = Pb_Required d \<or> ?v = Pb_Optional True d" for d
  proof -
    let ?l = "length (payload (w ?f) ?f d) + length (W (Suc n))"
    have w: "wire_field (w ?f) ?f ?v = tag_bytes ?f @ payload (w ?f) ?f d"
      using that by (auto simp: wire_basic_def)
    have "decode_field (sub ?f) \<lparr> is_state = payload (w ?f) ?f d @ W (Suc n) @ m, bytes_left = ?l \<rparr>
        (wire_type_of (f_ltype ?f)) ?f (?st ! n)
      = Ret (?v, \<lparr> is_state = W (Suc n) @ m, bytes_left = ?l - length (payload (w ?f) ?f d) \<rparr>)"
      unfolding st(2) by (rule decode_single_reads[OF f(1,3,4,2) that]) simp
    from loop_turn[where sub = sub and fs = fs and i = n, OF assms(2) Suc(4) n f(1) this, of seen]
    show ?thesis
      using onward[of n "if f_htype ?f = PB_HTYPE_REQUIRED then required_index fs n # seen else seen"] n Suc(5)
      by (simp add: W w less_Suc_eq add.assoc)
  qed
  show ?case
  proof (cases ?v)
    case (Pb_Repeated ds)
    have h: "f_htype ?f = PB_HTYPE_REPEATED" "f_atype ?f = PB_ATYPE_STATIC" "length ds \<le> f_array_size ?f"
      "list_all (data_ok (ok ?f) ?f) ds" "list_all (clean_data (cl ?f) (w ?f)) ds"
      using f(3,4) Pb_Repeated by auto
    obtain index' where "index' < length fs" "decode_loop (map (\<lambda>f. (f, sub f)) fs) index seen
        \<lparr> is_state = wire_field (w ?f) ?f ?v @ W (Suc n) @ m,
          bytes_left = length (wire_field (w ?f) ?f ?v) + length (W (Suc n)) \<rparr> ?st
      = decode_loop (map (\<lambda>f. (f, sub f)) fs) index' seen
          \<lparr> is_state = W (Suc n) @ m, bytes_left = length (W (Suc n)) \<rparr> (?st[n := ?v])"
      using loop_repeated[where sub = sub and fs = fs and n = n, OF assms(2) n f(1) h(2,1,4,5) f(2) Suc(4) st(1), of "[]" seen "W (Suc n) @ m" "length (W (Suc n))"]
        st(2) h(1,2,3) Pb_Repeated by auto
    then show ?thesis using onward[of index' seen] Suc(5) h(1) by (auto simp: W less_Suc_eq)
  qed (use absent single f(1,3,4) in \<open>auto simp: field_ok_def split: if_splits\<close>)
qed

lemma stores_ok_nth:
  "stores_ok (map (\<lambda>f. (f, ok f)) fs) sts \<longleftrightarrow>
     length sts = length fs \<and> (\<forall>i<length fs. store_ok (ok (fs ! i)) (fs ! i) (sts ! i))"
proof (induction fs arbitrary: sts)
  case Nil
  then show ?case by (cases sts) auto
next
  case (Cons f fs)
  then show ?case by (cases sts) (auto simp: less_Suc_eq_0_disj)
qed

lemma clean_stores_nth:
  "length sts = length fs \<Longrightarrow> clean_stores (map (\<lambda>f. (cl f, w f, z f)) fs) sts \<longleftrightarrow>
     (\<forall>i<length fs. clean_store (cl (fs ! i)) (w (fs ! i)) (z (fs ! i)) (sts ! i))"
proof (induction fs arbitrary: sts)
  case (Cons f fs)
  then show ?case by (cases sts) (auto simp: less_Suc_eq_0_disj)
qed simp

definition sub_decode :: "pb_field_t \<Rightarrow> pb_sub" where
  "sub_decode f = (case f_ltype f of PB_LTYPE_SUBMESSAGE m \<Rightarrow> pb_decode_inner m | _ \<Rightarrow> (\<lambda>_ _ _. Undef))"

lemma decode_by_fields:
  "pb_decode_inner (Pb_Msg fs dv) noinit s st =
     pb_bind (if noinit then Ret st else pb_message_set_to_defaults (Pb_Msg fs dv))
       (decode_loop (map (\<lambda>f. (f, sub_decode f)) fs) 0 [] s)"
  by (simp add: sub_decode_def)

lemma pb_decode_inner_reads:
  "\<lbrakk>desc_ok m; struct_ok m vs; clean m vs; noinit \<longrightarrow> st = pb_zero m\<rbrakk> \<Longrightarrow>
   pb_decode_inner m noinit \<lparr> is_state = wire m vs @ r, bytes_left = length (wire m vs) \<rparr> st
     = Ret (vs, \<lparr> is_state = r, bytes_left = 0 \<rparr>)"
proof (induction m arbitrary: vs noinit r st rule: pb_encode.induct)
  case (1 fs dv)
  have ok: "field_ok f \<and> sub_decodes (sub_ok f) (sub_clean f) (sub_wire f) (sub_decode f) f (sub_zero f)"
    if "f \<in> set fs" for f
  proof
    show "field_ok f" using that 1(2) by (simp add: list_all_iff)
    show "sub_decodes (sub_ok f) (sub_clean f) (sub_wire f) (sub_decode f) f (sub_zero f)"
    proof (cases "f_ltype f")
      case (PB_LTYPE_SUBMESSAGE m)
      moreover from this that 1(2) have "desc_ok m" by (fastforce simp: list_all_iff)
      ultimately show ?thesis
        using 1(1)[OF that PB_LTYPE_SUBMESSAGE]
        by (auto simp: sub_decodes_def decodes_def sub_ok_def sub_clean_def sub_wire_def sub_decode_def sub_zero_def)
    qed (simp_all add: sub_decodes_def decodes_def sub_ok_def)
  qed
  have fs: "fs \<noteq> []" "sorted_wrt (<) (map f_tag fs)" using 1(2) by auto
  have vs: "length vs = length fs" "\<And>i. i < length fs \<Longrightarrow> store_ok (sub_ok (fs ! i)) (fs ! i) (vs ! i)"
    using 1(3) unfolding by_fields stores_ok_nth by auto
  have cl: "\<And>i. i < length fs \<Longrightarrow> clean_store (sub_clean (fs ! i)) (sub_wire (fs ! i))
      (zero_store (fs ! i, sub_zero (fs ! i))) (vs ! i)"
    using 1(4) unfolding clean_fields clean_stores_nth[OF vs(1)] by auto
  have start: "pb_bind (if noinit then Ret st else pb_message_set_to_defaults (Pb_Msg fs dv)) g = g (pb_zero (Pb_Msg fs dv))" for g
    using 1(2,5) by (auto simp del: pb_message_set_to_defaults.simps pb_zero.simps)
  show ?case
    unfolding decode_by_fields start
    using loop_reads[where fs = fs and ok = sub_ok and cl = sub_clean and w = sub_wire and sub = sub_decode
        and z = sub_zero and n = 0 and index = 0 and seen = "[]" and m = r, OF fs ok vs cl] fs(1)
    by (simp add: by_fields del: pb_zero.simps wire.simps)
qed

lemma pb_decode_reads:
  assumes "desc_ok m" "struct_ok m vs" "clean m vs"
  shows "pb_decode (pb_istream_from_buffer (wire m vs) (length (wire m vs))) m st
    = Ret (vs, \<lparr> is_state = [], bytes_left = 0 \<rparr>)"
  using pb_decode_inner_reads[OF assms, of False st "[]"]
  by (simp add: pb_decode_def pb_istream_from_buffer_def)

text \<open>The defaults of a message without encoded defaults are the cleared structure.\<close>

lemma default_zero:
  "(\<And>m. f_ltype f = PB_LTYPE_SUBMESSAGE m \<Longrightarrow> dflt = Ret z) \<Longrightarrow>
   pb_field_set_to_default f dflt = Ret (zero_store (f, z))"
  by (auto simp: pb_field_set_to_default_def Let_def split: pb_ltype.split pb_htype.split)

lemma set_defaults_zero:
  "(\<And>f. f \<in> set fs \<Longrightarrow> \<forall>m. f_ltype f = PB_LTYPE_SUBMESSAGE m \<longrightarrow> dflt f = Ret (sub_zero f)) \<Longrightarrow>
   set_defaults (map (\<lambda>f. (f, sub f, dflt f)) fs) wt 0 s = Ret (map (\<lambda>f. zero_store (f, sub_zero f)) fs)"
proof (induction fs)
  case (Cons f fs)
  have "pb_field_set_to_default f (dflt f) = Ret (zero_store (f, sub_zero f))"
    by (rule default_zero) (use Cons.prems[of f] in auto)
  then show ?case using Cons by simp
qed simp

lemma defaults_zero:
  assumes "\<And>f m. f \<in> set fs \<Longrightarrow> f_ltype f = PB_LTYPE_SUBMESSAGE m \<Longrightarrow>
     pb_message_set_to_defaults m = Ret (pb_zero m)"
  shows "pb_message_set_to_defaults (Pb_Msg fs None) = Ret (pb_zero (Pb_Msg fs None))"
  unfolding pb_message_set_to_defaults.simps message_defaults_def by_fields option.case
  by (rule set_defaults_zero) (auto simp: sub_zero_def dest: assms)

lemma desc_okI:
  assumes "fs \<noteq> []" "sorted_wrt (<) (map f_tag fs)" "list_all field_ok fs"
    "list_all (\<lambda>f. case f_ltype f of PB_LTYPE_SUBMESSAGE m \<Rightarrow> desc_ok m | _ \<Rightarrow> True) fs"
  shows "desc_ok (Pb_Msg fs None)"
proof -
  have "pb_message_set_to_defaults m = Ret (pb_zero m)"
    if "f \<in> set fs" "f_ltype f = PB_LTYPE_SUBMESSAGE m" for f m
  proof -
    from that assms(4) have "desc_ok m" by (fastforce simp: list_all_iff)
    then show ?thesis by (cases m) simp
  qed
  from defaults_zero[OF this] assms show ?thesis
    by (simp del: pb_message_set_to_defaults.simps pb_zero.simps)
qed

section \<open>The decoder on any bytes\<close>

text \<open>A reader that stays in its stream and whose result has a property.\<close>

definition yields :: "('a \<Rightarrow> pb_istream_t) \<Rightarrow> ('a \<Rightarrow> bool) \<Rightarrow> pb_istream_t \<Rightarrow> 'a pb \<Rightarrow> bool" where
  "yields g P s m \<longleftrightarrow> reads g s m \<and> (\<forall>x. m = Ret x \<longrightarrow> P x)"

lemma yields_reads: "reads g s m \<Longrightarrow> yields g (\<lambda>_. True) s m"
  by (simp add: yields_def)

lemma yields_Ret [simp]: "yields g P s (Ret x) \<longleftrightarrow> moved s (g x) \<and> P x"
  by (auto simp: yields_def)

lemma yields_Fail [simp]: "yields g P s Fail"
  by (simp add: yields_def)

lemma yields_bind:
  assumes "yields g P s m" "\<And>x. moved s (g x) \<Longrightarrow> P x \<Longrightarrow> m = Ret x \<Longrightarrow> yields h Q (g x) (f x)"
  shows "yields h Q s (pb_bind m f)"
  unfolding yields_def
proof
  show "reads h s (pb_bind m f)"
    by (rule reads_bind[of g]) (use assms in \<open>auto simp: yields_def\<close>)
  show "\<forall>x. pb_bind m f = Ret x \<longrightarrow> Q x"
    using assms by (cases m) (auto simp: yields_def reads_def)
qed

lemma yields_pb_read: "yields snd (\<lambda>x. length (fst x) = n) s (pb_read s n)"
  unfolding yields_def using reads_pb_read
  by (auto simp: pb_read_def in_buf_read_def split: if_splits)

lemma le_value_range: "0 \<le> le_value b \<and> le_value b < 256 ^ length b"
proof (induction b)
  case (Cons x b)
  have "uint x < 256" using uint_bounded[of x] by simp
  with Cons show ?case by auto
qed simp

lemma signed_at_range: "n \<in> {4, 8} \<Longrightarrow> signed_range n (signed_at n v)"
  using signed_take_bit_int_greater_eq_minus_exp[of "8 * n - 1" v] signed_take_bit_int_less_exp[of "8 * n - 1" v]
  by (auto simp: signed_range_def signed_at_def)

lemma signed_at_fix:
  "signed_at 4 v = v \<Longrightarrow> signed_range 4 v" "signed_at 8 v = v \<Longrightarrow> signed_range 8 v"
  using signed_at_range[of 4 v] signed_at_range[of 8 v] by simp_all

lemma unsigned_at_range: "unsigned_range n (unsigned_at n v)"
  by (simp add: unsigned_range_def unsigned_at_def)

lemma unsigned_at_fix: "unsigned_at n v = v \<Longrightarrow> unsigned_range n v"
  using unsigned_at_range[of n v] by simp

lemma yields_substream:
  assumes "\<And>t. yields h P t (f t)" "\<And>x s. g (k x s) = s" "\<And>x s. P x \<Longrightarrow> Q (k x s)"
  shows "yields g Q s (pb_bind (pb_make_string_substream s) (\<lambda>(s, sub).
           pb_bind (f sub) (\<lambda>x. pb_bind (pb_close_string_substream s (h x)) (\<lambda>s. Ret (k x s)))))"
  unfolding yields_def
proof
  show "reads g s (pb_bind (pb_make_string_substream s) (\<lambda>(s, sub).
           pb_bind (f sub) (\<lambda>x. pb_bind (pb_close_string_substream s (h x)) (\<lambda>s. Ret (k x s)))))"
    by (rule reads_substream) (use assms in \<open>auto simp: yields_def\<close>)
  show "\<forall>x. pb_bind (pb_make_string_substream s) (\<lambda>(s, sub).
           pb_bind (f sub) (\<lambda>x. pb_bind (pb_close_string_substream s (h x)) (\<lambda>s. Ret (k x s)))) = Ret x \<longrightarrow> Q x"
    using assms(1,3) by (auto simp: pb_bind_Ret yields_def)
qed

definition sub_yields :: "(pb_store list \<Rightarrow> bool) \<Rightarrow> pb_sub \<Rightarrow> bool" where
  "sub_yields ok sub \<longleftrightarrow> (\<forall>noinit s st. (noinit \<longrightarrow> ok st) \<longrightarrow>
     yields snd (\<lambda>x. ok (fst x)) s (sub noinit s st))"

lemma decode_basic_yields:
  assumes "field_ok f" "\<And>m. f_ltype f = PB_LTYPE_SUBMESSAGE m \<Longrightarrow> sub_yields ok sub"
    "f_htype f = PB_HTYPE_REPEATED \<and> d0 = zero_data (f_ltype f) \<or> data_ok ok f d0"
  shows "yields snd (\<lambda>x. data_ok ok f (fst x)) s (decode_basic_field sub s wt f d0)"
proof (cases "wire_fits (f_ltype f) wt")
  case True
  show ?thesis
  proof (cases "f_ltype f")
    case PB_LTYPE_BOOL
    then show ?thesis
      unfolding decode_basic_field_def pb_dec_bool_def
      by (auto intro!: yields_bind[OF yields_reads[OF reads_scalars(1)]] simp: data_ok_def)
  next
    case PB_LTYPE_VARINT
    then show ?thesis
      using assms(1) unfolding decode_basic_field_def pb_dec_varint_def Let_def
      by (auto intro!: yields_bind[where g = snd and P = "\<lambda>_. True"] yields_bind[OF yields_reads[OF reads_varint]]
          simp: data_ok_def field_ok_def dest: signed_at_fix)
  next
    case PB_LTYPE_UVARINT
    then show ?thesis
      unfolding decode_basic_field_def pb_dec_varint_def Let_def
      by (auto intro!: yields_bind[OF yields_reads[OF reads_varint]] simp: data_ok_def dest: unsigned_at_fix)
  next
    case PB_LTYPE_SVARINT
    then show ?thesis
      using assms(1) unfolding decode_basic_field_def pb_dec_varint_def Let_def
      by (auto intro!: yields_bind[OF yields_reads[OF reads_scalars(2)]]
          simp: data_ok_def field_ok_def dest: signed_at_fix)
  next
    case PB_LTYPE_FIXED32
    have "unsigned_range 4 (le_value b)" if "length b = 4" for b
      using le_value_range[of b] that by (simp add: unsigned_range_def)
    then show ?thesis
      using PB_LTYPE_FIXED32 unfolding decode_basic_field_def pb_decode_fixed32_def pb_bind_assoc
      by (auto intro!: yields_bind[OF yields_pb_read] simp: data_ok_def)
  next
    case PB_LTYPE_FIXED64
    have "unsigned_range 8 (le_value b)" if "length b = 8" for b
      using le_value_range[of b] that by (simp add: unsigned_range_def)
    then show ?thesis
      using PB_LTYPE_FIXED64 unfolding decode_basic_field_def pb_decode_fixed64_def pb_bind_assoc
      by (auto intro!: yields_bind[OF yields_pb_read] simp: data_ok_def)
  next
    case PB_LTYPE_BYTES
    then show ?thesis
      unfolding decode_basic_field_def pb_dec_bytes_def
      by (auto intro!: yields_bind[OF yields_reads[OF reads_varint32]] yields_bind[OF yields_pb_read]
          simp: data_ok_def)
  next
    case PB_LTYPE_STRING
    then show ?thesis
      unfolding decode_basic_field_def pb_dec_string_def
      by (auto intro!: yields_bind[OF yields_reads[OF reads_varint32]] yields_bind[OF yields_pb_read]
          simp: data_ok_def)
  next
    case (PB_LTYPE_SUBMESSAGE m)
    then obtain dest where dest: "d0 = Pb_Struct dest" "f_htype f \<noteq> PB_HTYPE_REPEATED \<longrightarrow> ok dest"
      using assms(3) by (cases d0) (auto simp: data_ok_def)
    have "yields snd (\<lambda>x. data_ok ok f (fst x)) s (pb_bind (pb_make_string_substream s) (\<lambda>(s, substream).
            pb_bind (sub (f_htype f \<noteq> PB_HTYPE_REPEATED) substream dest) (\<lambda>x.
              pb_bind (pb_close_string_substream s (snd x)) (\<lambda>s. Ret (Pb_Struct (fst x), s)))))"
      by (rule yields_substream[where P = "\<lambda>x. ok (fst x)"])
        (use assms(2) dest(2) PB_LTYPE_SUBMESSAGE in \<open>auto simp: sub_yields_def data_ok_def\<close>)
    then show ?thesis
      using PB_LTYPE_SUBMESSAGE True dest(1) by (simp add: decode_basic_field_def pb_dec_submessage_def)
  qed
qed (simp add: decode_basic_field_def)

lemma field_yields:
  assumes "field_ok f" "\<And>m. f_ltype f = PB_LTYPE_SUBMESSAGE m \<Longrightarrow> sub_yields ok sub" "store_ok ok f st"
  shows "yields snd (\<lambda>x. store_ok ok f (fst x)) s (decode_field sub s wt f st)"
proof (cases "f_atype f = PB_ATYPE_CALLBACK")
  case True
  then have "st = Pb_Callback" using assms(3) by (cases st) auto
  moreover have "yields (\<lambda>s. s) (\<lambda>_. True) s (decode_callback_field s wt)"
  proof (cases "wt = PB_WT_STRING")
    case True
    show ?thesis
      unfolding decode_callback_field_def if_P[OF True]
      by (rule yields_substream[where h = "\<lambda>x. x" and k = "\<lambda>x s. s" and P = "\<lambda>_. True"]) simp_all
  qed (simp add: decode_callback_field_def yields_reads reads_raw_value)
  ultimately show ?thesis
    using True unfolding decode_field_def by (auto intro!: yields_bind)
next
  case False
  have basic: "yields snd (\<lambda>x. data_ok ok f (fst x)) s (decode_basic_field sub s wt f d)"
    if "f_htype f = PB_HTYPE_REPEATED \<and> d = zero_data (f_ltype f) \<or> data_ok ok f d" for d
    by (rule decode_basic_yields[OF assms(1,2) that])
  show ?thesis
    using False assms(1,3) unfolding decode_field_def decode_static_field_def
    by (cases st)
      (auto simp: field_ok_def intro!: yields_bind[OF basic])
qed

text \<open>A tag that is there takes a byte off the stream, so that every turn of the loop does.\<close>

lemma varint32_eof_Some:
  "pb_decode_varint32_eof s = Ret (Some v, s') \<Longrightarrow> bytes_left s' < bytes_left s"
  using reads_varint32_loop
  by (fastforce simp: pb_decode_varint32_eof_def pb_readbyte_def in_buf_read_def pb_bind_Ret reads_def moved_def
      split: if_splits)

lemma tag_Some: "pb_decode_tag s = Ret (Some t, s') \<Longrightarrow> bytes_left s' < bytes_left s"
  by (auto simp: pb_decode_tag_def pb_bind_Ret dest: varint32_eof_Some)

lemma loop_yields:
  assumes "\<And>f. f \<in> set fs \<Longrightarrow> field_ok f"
    "\<And>f m. f \<in> set fs \<Longrightarrow> f_ltype f = PB_LTYPE_SUBMESSAGE m \<Longrightarrow> sub_yields (ok f) (sub f)"
  shows "\<lbrakk>index < length fs; stores_ok (map (\<lambda>f. (f, ok f)) fs) st\<rbrakk> \<Longrightarrow>
    yields snd (\<lambda>x. stores_ok (map (\<lambda>f. (f, ok f)) fs) (fst x)) s
      (decode_loop (map (\<lambda>f. (f, sub f)) fs) index seen s st)"
proof (induction "bytes_left s" arbitrary: s index seen st rule: less_induct)
  case less
  let ?loop = "decode_loop (map (\<lambda>f. (f, sub f)) fs)"
  let ?Y = "yields snd (\<lambda>x. stores_ok (map (\<lambda>f. (f, ok f)) fs) (fst x))"
  let ?skip = "\<lambda>s' wt. pb_bind (pb_skip_field s' wt) (\<lambda>s''.
      if bytes_left s \<le> bytes_left s'' then Undef else ?loop index seen s'' st)"
  let ?field = "\<lambda>s' wt i. pb_bind (decode_field (sub (fs ! i)) s' wt (fs ! i) (st ! i)) (\<lambda>(d, s'').
      if bytes_left s \<le> bytes_left s'' then Undef
      else ?loop i (if f_htype (fs ! i) = PB_HTYPE_REQUIRED then required_index fs i # seen else seen)
             s'' (st[i := d]))"
  let ?turn = "\<lambda>(t, s'). case t of
      None \<Rightarrow> if all_required fs seen then Ret (st, s') else Fail
    | Some (wt, tag) \<Rightarrow>
        if tag = 0 then Fail
        else case pb_field_iter_find fs index tag of None \<Rightarrow> ?skip s' wt | Some i \<Rightarrow> ?field s' wt i"
  have fst: "map fst (map (\<lambda>f. (f, sub f)) fs) = fs" by (simp add: comp_def)
  have skip: "?Y s' (?skip s' wt)" if lt: "bytes_left s' < bytes_left s" for s' wt
    by (rule yields_bind[OF yields_reads[OF reads_skip_field]])
      (use lt less in \<open>auto simp: moved_def\<close>)
  have field: "?Y s' (?field s' wt i)" if lt: "bytes_left s' < bytes_left s" and i: "i < length fs" for s' i wt
  proof (rule yields_bind)
    show "yields snd (\<lambda>x. store_ok (ok (fs ! i)) (fs ! i) (fst x)) s'
        (decode_field (sub (fs ! i)) s' wt (fs ! i) (st ! i))"
      by (rule field_yields) (use assms i less.prems(2) in \<open>auto simp: stores_ok_nth\<close>)
    fix x assume x: "moved s' (snd x)" "store_ok (ok (fs ! i)) (fs ! i) (fst x)"
    have "stores_ok (map (\<lambda>f. (f, ok f)) fs) (st[i := fst x])"
      using less.prems(2) x(2) i by (auto simp: stores_ok_nth nth_list_update)
    with less.hyps[of "snd x" i "st[i := fst x]"] i lt x(1)
    show "?Y (snd x) (case x of (d, s'') \<Rightarrow>
        if bytes_left s \<le> bytes_left s'' then Undef
        else ?loop i (if f_htype (fs ! i) = PB_HTYPE_REQUIRED then required_index fs i # seen else seen)
               s'' (st[i := d]))"
      by (cases x) (auto simp: moved_def)
  qed
  have turn: "?Y s' (?turn (t, s'))" if t: "pb_decode_tag s = Ret (t, s')" for t s'
  proof (cases t)
    case (Some a)
    obtain wt tag where a: "a = (wt, tag)" by (cases a)
    have lt: "bytes_left s' < bytes_left s" using t Some by (auto dest: tag_Some)
    show ?thesis
    proof (cases "pb_field_iter_find fs index tag")
      case None
      then show ?thesis using skip[OF lt] by (simp add: Some a)
    next
      case i: (Some i)
      then show ?thesis using field[OF lt] find_Some[OF i less.prems(1)] by (simp add: Some a)
    qed
  qed (use less.prems(2) in simp)
  show ?case
  proof (cases "bytes_left s = 0")
    case True
    then show ?thesis
      using less.prems(2) unfolding decode_loop.simps[of _ index seen s st] by simp
  next
    case False
    have "?loop index seen s st = pb_bind (pb_decode_tag s) ?turn"
      unfolding decode_loop.simps[of _ index seen s st] fst
      using False less.prems(1)
      by (auto intro!: arg_cong2[where f = pb_bind] ext dest!: find_Some split: option.split)
    moreover have "?Y s (pb_bind (pb_decode_tag s) ?turn)"
      by (rule yields_bind[OF yields_reads[OF reads_tag]]) (use turn in force)
    ultimately show ?thesis by simp
  qed
qed

lemma zero_data_ok:
  "field_ok f \<Longrightarrow> \<not> (\<exists>m. f_ltype f = PB_LTYPE_SUBMESSAGE m) \<Longrightarrow> data_ok ok f (zero_data (f_ltype f))"
  by (cases "f_ltype f") (auto simp: field_ok_def data_ok_def signed_range_def unsigned_range_def)

lemma zero_store_ok:
  assumes "field_ok f" "\<And>m. f_ltype f = PB_LTYPE_SUBMESSAGE m \<Longrightarrow> ok z"
  shows "store_ok ok f (zero_store (f, z))"
proof -
  have "data_ok ok f (case f_ltype f of PB_LTYPE_SUBMESSAGE m \<Rightarrow> Pb_Struct z | t \<Rightarrow> zero_data t)"
    using assms(2) zero_data_ok[OF assms(1), of ok]
    by (cases "f_ltype f") (simp_all add: data_ok_def)
  then show ?thesis by (cases "f_atype f"; cases "f_htype f") (simp_all add: Let_def)
qed

lemma pb_zero_ok: "desc_ok m \<Longrightarrow> struct_ok m (pb_zero m)"
proof (induction m rule: pb_encode.induct)
  case (1 fs dv)
  have "store_ok (sub_ok f) f (zero_store (f, sub_zero f))" if "f \<in> set fs" for f
  proof (rule zero_store_ok)
    show "field_ok f" using that 1(2) by (simp add: list_all_iff)
    fix m assume m: "f_ltype f = PB_LTYPE_SUBMESSAGE m"
    with that 1(2) have "desc_ok m" by (fastforce simp: list_all_iff)
    then show "sub_ok f (sub_zero f)" using 1(1)[OF that m] m by (simp add: sub_ok_def sub_zero_def)
  qed
  then show ?case unfolding by_fields stores_ok_nth by simp
qed

lemma pb_decode_inner_yields:
  "desc_ok m \<Longrightarrow> sub_yields (struct_ok m) (pb_decode_inner m)"
proof (induction m rule: pb_encode.induct)
  case (1 fs dv)
  have fs: "fs \<noteq> []" "\<And>f. f \<in> set fs \<Longrightarrow> field_ok f" using 1(2) by (auto simp: list_all_iff)
  have sub: "sub_yields (sub_ok f) (sub_decode f)" if "f \<in> set fs" "f_ltype f = PB_LTYPE_SUBMESSAGE m" for f m
  proof -
    from that 1(2) have "desc_ok m" by (fastforce simp: list_all_iff)
    then show ?thesis using 1(1)[OF that] that(2) by (simp add: sub_ok_def sub_decode_def)
  qed
  have d: "pb_message_set_to_defaults (Pb_Msg fs dv) = Ret (pb_zero (Pb_Msg fs dv))"
    using 1(2) by (simp del: pb_message_set_to_defaults.simps pb_zero.simps)
  show ?case
    unfolding sub_yields_def decode_by_fields
  proof (intro allI impI)
    fix noinit s st assume st: "noinit \<longrightarrow> struct_ok (Pb_Msg fs dv) st"
    let ?st = "if noinit then st else pb_zero (Pb_Msg fs dv)"
    have "struct_ok (Pb_Msg fs dv) ?st" using st pb_zero_ok[OF 1(2)] by (cases noinit) simp_all
    then have "yields snd (\<lambda>x. struct_ok (Pb_Msg fs dv) (fst x)) s
        (decode_loop (map (\<lambda>f. (f, sub_decode f)) fs) 0 [] s ?st)"
      using fs(1) unfolding by_fields(3) by (intro loop_yields[OF fs(2) sub]) simp_all
    then show "yields snd (\<lambda>x. struct_ok (Pb_Msg fs dv) (fst x)) s
        (pb_bind (if noinit then Ret st else pb_message_set_to_defaults (Pb_Msg fs dv))
          (decode_loop (map (\<lambda>f. (f, sub_decode f)) fs) 0 [] s))"
      unfolding d by (cases noinit) simp_all
  qed
qed

text \<open>On a buffer that holds the bytes it is told to, the decoder returns a structure of the descriptor's
  type or fails: it reads no byte outside the buffer, writes no element outside an array and ends.\<close>

lemma pb_decode_yields:
  assumes "desc_ok m" "n \<le> length buf"
  shows "pb_decode (pb_istream_from_buffer buf n) m st \<noteq> Undef"
    "pb_decode (pb_istream_from_buffer buf n) m st = Ret (vs, s) \<Longrightarrow> struct_ok m vs"
proof -
  have ok: "is_ok (pb_istream_from_buffer buf n)"
    using assms(2) by (simp add: is_ok_def pb_istream_from_buffer_def)
  have y: "yields snd (\<lambda>x. struct_ok m (fst x)) (pb_istream_from_buffer buf n)
      (pb_decode (pb_istream_from_buffer buf n) m st)"
    unfolding pb_decode_def
    by (rule pb_decode_inner_yields[OF assms(1), unfolded sub_yields_def, rule_format]) simp
  from y ok show "pb_decode (pb_istream_from_buffer buf n) m st \<noteq> Undef"
    by (simp add: yields_def reads_def)
  show "pb_decode (pb_istream_from_buffer buf n) m st = Ret (vs, s) \<Longrightarrow> struct_ok m vs"
    using y by (simp add: yields_def)
qed

section \<open>Sizes and delimited messages\<close>

lemma encoded_size:
  assumes "desc_ok m" "struct_ok m vs" "clean m vs"
  shows "pb_get_encoded_size m vs = Ret (length (wire m vs))"
proof -
  have "os_ok PB_OSTREAM_SIZING" by (simp add: os_ok_def PB_OSTREAM_SIZING_def)
  from pb_encode_writes[OF assms this] show ?thesis
    by (simp add: pb_get_encoded_size_def pb_write_def PB_OSTREAM_SIZING_def)
qed

lemma delimited_writes:
  assumes "desc_ok m" "struct_ok m vs" "clean m vs" "length (wire m vs) < 2 ^ 64" "os_ok s"
  shows "pb_encode_ex s m vs True nullterminated = pb_write s (varint (length (wire m vs)) @ wire m vs)"
  using encode_submessage_writes[of "pb_encode m" vs "wire m vs" s] pb_encode_writes[OF assms(1-3)] assms(4,5)
  by (simp add: pb_encode_ex_def)

lemma delimited_reads:
  assumes "desc_ok m" "struct_ok m vs" "clean m vs" "length (wire m vs) < 2 ^ 32"
    "length (varint (length (wire m vs)) @ wire m vs) \<le> l"
  shows "pb_decode_ex \<lparr> is_state = varint (length (wire m vs)) @ wire m vs @ r, bytes_left = l \<rparr> m st False True
    = Ret (vs, \<lparr> is_state = r, bytes_left = l - length (varint (length (wire m vs)) @ wire m vs) \<rparr>)"
  using substream_reads[OF assms(4), of l r] pb_decode_inner_reads[OF assms(1-3), of False st r] assms(5)
  by (simp add: pb_decode_ex_def close_end)

end
