(* ===== verification/Pb_Desc.thy ===== *)
theory Pb_Desc
  imports Pb_Codec
begin

text \<open>
  The descriptors of the messages (\<open>CdapProto/*.pb.h\<close>, bound by \<open>PB_BIND\<close> in \<open>*.pb.c\<close>).  A line
  \<open>X(a, STATIC, OPTIONAL, INT32, absSyntax, 1)\<close> of a \<open>FIELDLIST\<close> is \<open>static_field OPTIONAL INT32 1\<close>; the
  types that have one carry the size of their array in the structure.  Every descriptor is well formed, so that
  the theorems of \<open>Pb_Codec\<close> hold for each.
\<close>

text \<open>The types of \<open>PB_LTYPE_MAP\<close>, with the size of the member of the structure.\<close>

datatype pb_type = BOOL | BYTES nat | DOUBLE | FIXED32 | FIXED64 | INT32 | INT64 | MESSAGE pb_msgdesc_t
  | SINT32 | SINT64 | STRING nat | UENUM | UINT32 | UINT64

fun PB_LTYPE_MAP :: "pb_type \<Rightarrow> pb_ltype" where
  "PB_LTYPE_MAP BOOL = PB_LTYPE_BOOL"
| "PB_LTYPE_MAP (BYTES n) = PB_LTYPE_BYTES"
| "PB_LTYPE_MAP DOUBLE = PB_LTYPE_FIXED64"
| "PB_LTYPE_MAP FIXED32 = PB_LTYPE_FIXED32"
| "PB_LTYPE_MAP FIXED64 = PB_LTYPE_FIXED64"
| "PB_LTYPE_MAP INT32 = PB_LTYPE_VARINT"
| "PB_LTYPE_MAP INT64 = PB_LTYPE_VARINT"
| "PB_LTYPE_MAP (MESSAGE m) = PB_LTYPE_SUBMESSAGE m"
| "PB_LTYPE_MAP SINT32 = PB_LTYPE_SVARINT"
| "PB_LTYPE_MAP SINT64 = PB_LTYPE_SVARINT"
| "PB_LTYPE_MAP (STRING n) = PB_LTYPE_STRING"
| "PB_LTYPE_MAP UENUM = PB_LTYPE_UVARINT"
| "PB_LTYPE_MAP UINT32 = PB_LTYPE_UVARINT"
| "PB_LTYPE_MAP UINT64 = PB_LTYPE_UVARINT"

text \<open>\<open>PB_DATA_SIZE_STATIC\<close> is \<open>pb_membersize\<close>: the array of bytes stands behind its 16-bit size.  The size of
  a submessage is not used.\<close>

fun PB_DATA_SIZE :: "pb_type \<Rightarrow> nat" where
  "PB_DATA_SIZE BOOL = 1"
| "PB_DATA_SIZE (BYTES n) = n + 2"
| "PB_DATA_SIZE DOUBLE = 8"
| "PB_DATA_SIZE FIXED32 = 4"
| "PB_DATA_SIZE FIXED64 = 8"
| "PB_DATA_SIZE INT32 = 4"
| "PB_DATA_SIZE INT64 = 8"
| "PB_DATA_SIZE (MESSAGE m) = 0"
| "PB_DATA_SIZE SINT32 = 4"
| "PB_DATA_SIZE SINT64 = 8"
| "PB_DATA_SIZE (STRING n) = n"
| "PB_DATA_SIZE UENUM = 4"
| "PB_DATA_SIZE UINT32 = 4"
| "PB_DATA_SIZE UINT64 = 8"

abbreviation (input) "REQUIRED \<equiv> PB_HTYPE_REQUIRED"
abbreviation (input) "OPTIONAL \<equiv> PB_HTYPE_OPTIONAL"
abbreviation (input) "REPEATED \<equiv> PB_HTYPE_REPEATED"

text \<open>The arrays of the messages have one element; a callback field is a \<open>pb_callback_t\<close> of two pointers.\<close>

definition static_field :: "pb_htype \<Rightarrow> pb_type \<Rightarrow> nat \<Rightarrow> pb_field_t" where
  "static_field h t tag = Pb_Field PB_ATYPE_STATIC h (PB_LTYPE_MAP t) tag (PB_DATA_SIZE t) 1"

definition callback_field :: "pb_htype \<Rightarrow> pb_type \<Rightarrow> nat \<Rightarrow> pb_field_t" where
  "callback_field h t tag = Pb_Field PB_ATYPE_CALLBACK h (PB_LTYPE_MAP t) tag 8 1"

lemmas field_defs = static_field_def callback_field_def

section \<open>CDAP (\<open>CDAP.pb.h\<close>)\<close>

definition rina_messages_objVal_t_msg :: pb_msgdesc_t where
  "rina_messages_objVal_t_msg = Pb_Msg
     [static_field OPTIONAL INT32 1,
      static_field OPTIONAL SINT32 2,
      static_field OPTIONAL INT64 3,
      static_field OPTIONAL SINT64 4,
      static_field OPTIONAL (STRING 20) 5,
      static_field OPTIONAL (BYTES 1024) 6,
      static_field OPTIONAL FIXED32 7,
      static_field OPTIONAL FIXED64 8,
      static_field OPTIONAL BOOL 9] None"

definition rina_messages_authPolicy_t_msg :: pb_msgdesc_t where
  "rina_messages_authPolicy_t_msg = Pb_Msg
     [static_field OPTIONAL (STRING 40) 1,
      static_field REPEATED (STRING 40) 2,
      callback_field OPTIONAL (BYTES 0) 3] None"

text \<open>The default value is a string literal, with its NUL: field 9, the result, is 0 by default.\<close>

definition rina_messages_CDAPMessage_msg :: pb_msgdesc_t where
  "rina_messages_CDAPMessage_msg = Pb_Msg
     [static_field OPTIONAL INT32 1,
      static_field REQUIRED UENUM 2,
      static_field OPTIONAL INT32 3,
      static_field OPTIONAL UENUM 4,
      static_field OPTIONAL (STRING 40) 5,
      static_field OPTIONAL (STRING 40) 6,
      static_field OPTIONAL INT64 7,
      static_field OPTIONAL (MESSAGE rina_messages_objVal_t_msg) 8,
      static_field OPTIONAL INT32 9,
      static_field OPTIONAL INT32 10,
      callback_field OPTIONAL (BYTES 0) 11,
      static_field OPTIONAL (MESSAGE rina_messages_authPolicy_t_msg) 18,
      static_field OPTIONAL (STRING 20) 19,
      static_field OPTIONAL (STRING 20) 20,
      static_field OPTIONAL (STRING 20) 21,
      static_field OPTIONAL (STRING 20) 22,
      static_field OPTIONAL (STRING 20) 23,
      static_field OPTIONAL (STRING 20) 24,
      static_field OPTIONAL (STRING 20) 25,
      static_field OPTIONAL (STRING 20) 26,
      static_field OPTIONAL (STRING 20) 27,
      static_field OPTIONAL INT64 28] (Some [0x48, 0x00, 0x00, 0x00])"

section \<open>Object values\<close>

definition rina_messages_enrollmentInformation_t_msg :: pb_msgdesc_t where
  "rina_messages_enrollmentInformation_t_msg = Pb_Msg
     [static_field OPTIONAL UINT64 1,
      static_field REPEATED (STRING 20) 2,
      static_field OPTIONAL BOOL 3,
      static_field OPTIONAL (STRING 20) 4] None"

definition rina_messages_neighbor_t_msg :: pb_msgdesc_t where
  "rina_messages_neighbor_t_msg = Pb_Msg
     [static_field OPTIONAL (STRING 20) 1,
      static_field OPTIONAL (STRING 20) 2,
      static_field OPTIONAL (STRING 20) 3,
      static_field OPTIONAL (STRING 20) 4,
      static_field OPTIONAL UINT64 5,
      static_field REPEATED (STRING 20) 6] None"

definition rina_messages_a_data_t_msg :: pb_msgdesc_t where
  "rina_messages_a_data_t_msg = Pb_Msg
     [static_field OPTIONAL INT32 1,
      static_field OPTIONAL INT32 2,
      static_field OPTIONAL (BYTES 512) 3] None"

lemma objVal_ok: "desc_ok rina_messages_objVal_t_msg"
  unfolding rina_messages_objVal_t_msg_def by (rule desc_okI) (simp_all add: field_defs field_ok_def)

lemma authPolicy_ok: "desc_ok rina_messages_authPolicy_t_msg"
  unfolding rina_messages_authPolicy_t_msg_def by (rule desc_okI) (simp_all add: field_defs field_ok_def)

lemma enrollmentInformation_ok: "desc_ok rina_messages_enrollmentInformation_t_msg"
  unfolding rina_messages_enrollmentInformation_t_msg_def
  by (rule desc_okI) (simp_all add: field_defs field_ok_def)

lemma neighbor_ok: "desc_ok rina_messages_neighbor_t_msg"
  unfolding rina_messages_neighbor_t_msg_def by (rule desc_okI) (simp_all add: field_defs field_ok_def)

lemma a_data_ok: "desc_ok rina_messages_a_data_t_msg"
  unfolding rina_messages_a_data_t_msg_def by (rule desc_okI) (simp_all add: field_defs field_ok_def)

text \<open>Defaults with one encoded field, at place \<open>f\<close>, that is cleared again.\<close>

lemma set_defaults_one:
  assumes "\<And>g. g \<in> set (fs1 @ f # fs2) \<Longrightarrow> \<forall>m. f_ltype g = PB_LTYPE_SUBMESSAGE m \<longrightarrow> dflt g = Ret (sub_zero g)"
    "\<And>g. g \<in> set fs1 \<Longrightarrow> f_tag g \<noteq> f_tag f" "f_tag f \<noteq> 0"
    "decode_field (sub f) s wt f (zero_store (f, sub_zero f)) = Ret (st, s1)"
    "pb_decode_tag s1 = Ret (Some (wt', 0), s2)" "not_present st = zero_store (f, sub_zero f)"
  shows "set_defaults (map (\<lambda>f. (f, sub f, dflt f)) (fs1 @ f # fs2)) wt (f_tag f) s
    = Ret (map (\<lambda>f. zero_store (f, sub_zero f)) (fs1 @ f # fs2))"
  using assms(1,2)
proof (induction fs1)
  case Nil
  have "set_defaults (map (\<lambda>f. (f, sub f, dflt f)) fs2) wt' 0 s2 = Ret (map (\<lambda>f. zero_store (f, sub_zero f)) fs2)"
    by (rule set_defaults_zero) (use Nil in auto)
  moreover have "pb_field_set_to_default f (dflt f) = Ret (zero_store (f, sub_zero f))"
    by (rule default_zero) (use Nil in auto)
  ultimately show ?case using assms(3-6) by simp
next
  case (Cons g fs1)
  have "pb_field_set_to_default g (dflt g) = Ret (zero_store (g, sub_zero g))"
    by (rule default_zero) (use Cons.prems in auto)
  moreover have "f_tag g \<noteq> f_tag f" using Cons.prems by simp
  ultimately show ?case using Cons by simp
qed

text \<open>The encoded default of the result.\<close>

lemma default_bytes:
  "pb_decode_tag \<lparr> is_state = [0x48, 0, 0, 0], bytes_left = 4294967295 \<rparr>
     = Ret (Some (0, 9), \<lparr> is_state = [0, 0, 0], bytes_left = 4294967294 \<rparr>)"
  "pb_decode_varint \<lparr> is_state = [0, 0, 0], bytes_left = 4294967294 \<rparr>
     = Ret (0, \<lparr> is_state = [0, 0], bytes_left = 4294967293 \<rparr>)"
  "pb_decode_tag \<lparr> is_state = [0, 0], bytes_left = 4294967293 \<rparr>
     = Ret (Some (0, 0), \<lparr> is_state = [0], bytes_left = 4294967292 \<rparr>)"
  using pb_decode_tag_reads[of 0 9 4294967295 "[0, 0, 0]"] pb_decode_varint_reads[of 0 4294967294 "[0, 0]"]
    pb_decode_tag_reads[of 0 0 4294967293 "[0]"]
  by (simp_all add: varint_small)

lemma result_default:
  "decode_field sub \<lparr> is_state = [0, 0, 0], bytes_left = 4294967294 \<rparr> 0 (static_field OPTIONAL INT32 9)
     (zero_store (static_field OPTIONAL INT32 9, z))
   = Ret (Pb_Optional True (Pb_Int 0), \<lparr> is_state = [0, 0], bytes_left = 4294967293 \<rparr>)"
  by (simp add: decode_field_def decode_static_field_def decode_basic_field_def wire_fits_def field_defs
      pb_dec_varint_def default_bytes signed_at_def)

lemma CDAP_fields:
  "rina_messages_CDAPMessage_msg = Pb_Msg
     (take 8 (field_info rina_messages_CDAPMessage_msg) @ static_field OPTIONAL INT32 9
        # drop 9 (field_info rina_messages_CDAPMessage_msg)) (Some [0x48, 0, 0, 0])"
  by (simp add: rina_messages_CDAPMessage_msg_def)

lemma CDAP_submessages:
  "\<forall>f \<in> set (field_info rina_messages_CDAPMessage_msg).
     (\<forall>m. f_ltype f = PB_LTYPE_SUBMESSAGE m \<longrightarrow> desc_ok m)"
  by (simp add: rina_messages_CDAPMessage_msg_def field_defs objVal_ok authPolicy_ok)

lemma CDAP_tags:
  "\<forall>f \<in> set (take 8 (field_info rina_messages_CDAPMessage_msg)). f_tag f \<noteq> 9"
  by (simp add: rina_messages_CDAPMessage_msg_def field_defs)

lemma defaults_of_ok: "desc_ok m \<Longrightarrow> pb_message_set_to_defaults m = Ret (pb_zero m)"
  by (cases m) simp

lemma CDAP_defaults:
  "pb_message_set_to_defaults rina_messages_CDAPMessage_msg = Ret (pb_zero rina_messages_CDAPMessage_msg)"
proof -
  define fs1 where "fs1 = take 8 (field_info rina_messages_CDAPMessage_msg)"
  define fs2 where "fs2 = drop 9 (field_info rina_messages_CDAPMessage_msg)"
  let ?f = "static_field OPTIONAL INT32 9"
  let ?sub = "\<lambda>f. case f_ltype f of PB_LTYPE_SUBMESSAGE m \<Rightarrow> pb_decode_inner m | _ \<Rightarrow> (\<lambda>_ _ _. Undef)"
  let ?dflt = "\<lambda>f. case f_ltype f of PB_LTYPE_SUBMESSAGE m \<Rightarrow> pb_message_set_to_defaults m | _ \<Rightarrow> Undef"
  have msg: "rina_messages_CDAPMessage_msg = Pb_Msg (fs1 @ ?f # fs2) (Some [0x48, 0, 0, 0])"
    unfolding fs1_def fs2_def by (rule CDAP_fields)
  have f: "f_tag ?f = 9" by (simp add: field_defs)
  have dflt: "\<forall>m. f_ltype f = PB_LTYPE_SUBMESSAGE m \<longrightarrow> ?dflt f = Ret (sub_zero f)"
    if "f \<in> set (fs1 @ ?f # fs2)" for f
    using CDAP_submessages that unfolding msg by (auto simp: sub_zero_def intro!: defaults_of_ok)
  have tags: "f_tag g \<noteq> f_tag ?f" if "g \<in> set fs1" for g
    using CDAP_tags that unfolding f fs1_def by blast
  have "set_defaults (map (\<lambda>f. (f, ?sub f, ?dflt f)) (fs1 @ ?f # fs2)) 0 (f_tag ?f)
      \<lparr> is_state = [0, 0, 0], bytes_left = 4294967294 \<rparr>
    = Ret (map (\<lambda>f. zero_store (f, sub_zero f)) (fs1 @ ?f # fs2))"
  proof (rule set_defaults_one[where sub = ?sub and dflt = ?dflt, OF _ _ _ result_default default_bytes(3)])
    show "f_tag ?f \<noteq> 0" by (simp add: f)
    show "not_present (Pb_Optional True (Pb_Int 0)) = zero_store (?f, sub_zero ?f)"
      by (simp add: field_defs)
  qed (use dflt tags in auto)
  then show ?thesis
    unfolding msg pb_message_set_to_defaults.simps message_defaults_def option.case by_fields
    by (simp add: f pb_istream_from_buffer_def default_bytes del: zero_store.simps list.map map_append)
qed

lemma CDAPMessage_ok: "desc_ok rina_messages_CDAPMessage_msg"
  using CDAP_defaults objVal_ok authPolicy_ok
  unfolding rina_messages_CDAPMessage_msg_def desc_ok.simps
  by (simp add: field_defs field_ok_def del: pb_message_set_to_defaults.simps pb_zero.simps)

section \<open>\<open>CommonMessages.pb.h\<close>\<close>

definition rina_messages_objectValue_t_msg :: pb_msgdesc_t where
  "rina_messages_objectValue_t_msg = Pb_Msg
     [static_field OPTIONAL INT32 1,
      static_field OPTIONAL SINT32 2,
      static_field OPTIONAL INT64 3,
      static_field OPTIONAL SINT64 4,
      static_field OPTIONAL (STRING 10) 5,
      static_field OPTIONAL (BYTES 512) 6,
      static_field OPTIONAL FIXED32 7,
      static_field OPTIONAL FIXED64 8] None"

lemma objectValue_ok: "desc_ok rina_messages_objectValue_t_msg"
  unfolding rina_messages_objectValue_t_msg_def
  by (rule desc_okI) (simp_all add: field_defs field_ok_def)

definition rina_messages_nameValuePair_t_msg :: pb_msgdesc_t where
  "rina_messages_nameValuePair_t_msg = Pb_Msg
     [static_field OPTIONAL (STRING 40) 1,
      static_field OPTIONAL (MESSAGE rina_messages_objectValue_t_msg) 2] None"

lemma nameValuePair_ok: "desc_ok rina_messages_nameValuePair_t_msg"
  unfolding rina_messages_nameValuePair_t_msg_def
  by (rule desc_okI) (simp_all add: field_defs field_ok_def objectValue_ok)

definition rina_messages_property_t_msg :: pb_msgdesc_t where
  "rina_messages_property_t_msg = Pb_Msg
     [static_field REQUIRED (STRING 40) 1,
      static_field REQUIRED (STRING 40) 2] None"

lemma property_ok: "desc_ok rina_messages_property_t_msg"
  unfolding rina_messages_property_t_msg_def
  by (rule desc_okI) (simp_all add: field_defs field_ok_def)

section \<open>\<open>ApplicationProcessNamingInfoMessage.pb.h\<close>\<close>

definition rina_messages_applicationProcessNamingInfo_t_msg :: pb_msgdesc_t where
  "rina_messages_applicationProcessNamingInfo_t_msg = Pb_Msg
     [static_field REQUIRED (STRING 20) 1,
      static_field OPTIONAL (STRING 20) 2,
      static_field OPTIONAL (STRING 20) 3,
      static_field OPTIONAL (STRING 20) 4] None"

lemma applicationProcessNamingInfo_ok: "desc_ok rina_messages_applicationProcessNamingInfo_t_msg"
  unfolding rina_messages_applicationProcessNamingInfo_t_msg_def
  by (rule desc_okI) (simp_all add: field_defs field_ok_def)

section \<open>\<open>PolicyDescriptorMessage.pb.h\<close>\<close>

definition rina_messages_policyDescriptor_t_msg :: pb_msgdesc_t where
  "rina_messages_policyDescriptor_t_msg = Pb_Msg
     [static_field OPTIONAL (STRING 20) 1,
      static_field OPTIONAL (STRING 20) 2,
      static_field OPTIONAL (STRING 20) 3,
      callback_field REPEATED (MESSAGE rina_messages_property_t_msg) 4] None"

lemma policyDescriptor_ok: "desc_ok rina_messages_policyDescriptor_t_msg"
  unfolding rina_messages_policyDescriptor_t_msg_def
  by (rule desc_okI) (simp_all add: field_defs field_ok_def property_ok)

section \<open>\<open>QoSSpecification.pb.h\<close>\<close>

definition rina_messages_qosSpecification_t_msg :: pb_msgdesc_t where
  "rina_messages_qosSpecification_t_msg = Pb_Msg
     [static_field OPTIONAL (STRING 20) 1,
      static_field OPTIONAL UINT32 2,
      static_field OPTIONAL UINT64 3,
      static_field OPTIONAL UINT64 4,
      static_field OPTIONAL UINT32 5,
      static_field OPTIONAL UINT32 6,
      static_field OPTIONAL DOUBLE 7,
      static_field OPTIONAL BOOL 8,
      static_field OPTIONAL BOOL 9,
      static_field OPTIONAL INT32 10,
      static_field OPTIONAL UINT32 11,
      static_field OPTIONAL UINT32 12,
      callback_field REPEATED (MESSAGE rina_messages_property_t_msg) 13,
      static_field OPTIONAL BOOL 14,
      static_field OPTIONAL UINT32 15] None"

lemma qosSpecification_ok: "desc_ok rina_messages_qosSpecification_t_msg"
  unfolding rina_messages_qosSpecification_t_msg_def
  by (rule desc_okI) (simp_all add: field_defs field_ok_def property_ok)

section \<open>\<open>ConnectionPoliciesMessage.pb.h\<close>\<close>

definition rina_messages_dtcpWindowBasedFlowControlConfig_t_msg :: pb_msgdesc_t where
  "rina_messages_dtcpWindowBasedFlowControlConfig_t_msg = Pb_Msg
     [static_field OPTIONAL UINT64 1,
      static_field OPTIONAL UINT64 2,
      static_field OPTIONAL (MESSAGE rina_messages_policyDescriptor_t_msg) 3,
      static_field OPTIONAL (MESSAGE rina_messages_policyDescriptor_t_msg) 4] None"

lemma dtcpWindowBasedFlowControlConfig_ok: "desc_ok rina_messages_dtcpWindowBasedFlowControlConfig_t_msg"
  unfolding rina_messages_dtcpWindowBasedFlowControlConfig_t_msg_def
  by (rule desc_okI) (simp_all add: field_defs field_ok_def policyDescriptor_ok)

definition rina_messages_dtcpRateBasedFlowControlConfig_t_msg :: pb_msgdesc_t where
  "rina_messages_dtcpRateBasedFlowControlConfig_t_msg = Pb_Msg
     [static_field OPTIONAL UINT64 1,
      static_field OPTIONAL UINT64 2,
      static_field OPTIONAL (MESSAGE rina_messages_policyDescriptor_t_msg) 3,
      static_field OPTIONAL (MESSAGE rina_messages_policyDescriptor_t_msg) 4,
      static_field OPTIONAL (MESSAGE rina_messages_policyDescriptor_t_msg) 5] None"

lemma dtcpRateBasedFlowControlConfig_ok: "desc_ok rina_messages_dtcpRateBasedFlowControlConfig_t_msg"
  unfolding rina_messages_dtcpRateBasedFlowControlConfig_t_msg_def
  by (rule desc_okI) (simp_all add: field_defs field_ok_def policyDescriptor_ok)

definition rina_messages_dtcpFlowControlConfig_t_msg :: pb_msgdesc_t where
  "rina_messages_dtcpFlowControlConfig_t_msg = Pb_Msg
     [static_field OPTIONAL BOOL 1,
      static_field OPTIONAL (MESSAGE rina_messages_dtcpWindowBasedFlowControlConfig_t_msg) 2,
      static_field OPTIONAL BOOL 3,
      static_field OPTIONAL (MESSAGE rina_messages_dtcpRateBasedFlowControlConfig_t_msg) 4,
      static_field OPTIONAL UINT64 5,
      static_field OPTIONAL UINT64 6,
      static_field OPTIONAL UINT64 7,
      static_field OPTIONAL UINT64 8,
      static_field OPTIONAL UINT64 9,
      static_field OPTIONAL UINT64 10,
      static_field OPTIONAL (MESSAGE rina_messages_policyDescriptor_t_msg) 11,
      static_field OPTIONAL (MESSAGE rina_messages_policyDescriptor_t_msg) 12,
      static_field OPTIONAL (MESSAGE rina_messages_policyDescriptor_t_msg) 13,
      static_field OPTIONAL (MESSAGE rina_messages_policyDescriptor_t_msg) 14] None"

lemma dtcpFlowControlConfig_ok: "desc_ok rina_messages_dtcpFlowControlConfig_t_msg"
  unfolding rina_messages_dtcpFlowControlConfig_t_msg_def
  by (rule desc_okI) (simp_all add: field_defs field_ok_def
    dtcpWindowBasedFlowControlConfig_ok dtcpRateBasedFlowControlConfig_ok policyDescriptor_ok)

definition rina_messages_dtcpRtxControlConfig_t_msg :: pb_msgdesc_t where
  "rina_messages_dtcpRtxControlConfig_t_msg = Pb_Msg
     [static_field OPTIONAL UINT32 1,
      static_field OPTIONAL UINT32 2,
      static_field OPTIONAL (MESSAGE rina_messages_policyDescriptor_t_msg) 3,
      static_field OPTIONAL (MESSAGE rina_messages_policyDescriptor_t_msg) 4,
      static_field OPTIONAL (MESSAGE rina_messages_policyDescriptor_t_msg) 5,
      static_field OPTIONAL (MESSAGE rina_messages_policyDescriptor_t_msg) 6,
      static_field OPTIONAL (MESSAGE rina_messages_policyDescriptor_t_msg) 7,
      static_field OPTIONAL (MESSAGE rina_messages_policyDescriptor_t_msg) 8,
      static_field OPTIONAL UINT32 9] None"

lemma dtcpRtxControlConfig_ok: "desc_ok rina_messages_dtcpRtxControlConfig_t_msg"
  unfolding rina_messages_dtcpRtxControlConfig_t_msg_def
  by (rule desc_okI) (simp_all add: field_defs field_ok_def policyDescriptor_ok)

definition rina_messages_dtcpConfig_t_msg :: pb_msgdesc_t where
  "rina_messages_dtcpConfig_t_msg = Pb_Msg
     [static_field OPTIONAL BOOL 1,
      static_field OPTIONAL (MESSAGE rina_messages_dtcpFlowControlConfig_t_msg) 2,
      static_field OPTIONAL BOOL 3,
      static_field OPTIONAL (MESSAGE rina_messages_dtcpRtxControlConfig_t_msg) 4,
      static_field OPTIONAL (MESSAGE rina_messages_policyDescriptor_t_msg) 5,
      static_field OPTIONAL (MESSAGE rina_messages_policyDescriptor_t_msg) 6,
      static_field OPTIONAL (MESSAGE rina_messages_policyDescriptor_t_msg) 7] None"

lemma dtcpConfig_ok: "desc_ok rina_messages_dtcpConfig_t_msg"
  unfolding rina_messages_dtcpConfig_t_msg_def
  by (rule desc_okI) (simp_all add: field_defs field_ok_def
    dtcpFlowControlConfig_ok dtcpRtxControlConfig_ok policyDescriptor_ok)

definition rina_messages_dtpConfig_t_msg :: pb_msgdesc_t where
  "rina_messages_dtpConfig_t_msg = Pb_Msg
     [static_field OPTIONAL BOOL 1,
      static_field OPTIONAL (MESSAGE rina_messages_policyDescriptor_t_msg) 3,
      static_field OPTIONAL (MESSAGE rina_messages_policyDescriptor_t_msg) 4,
      static_field OPTIONAL (MESSAGE rina_messages_policyDescriptor_t_msg) 5,
      static_field OPTIONAL UINT64 6,
      static_field OPTIONAL UINT32 7,
      static_field OPTIONAL (MESSAGE rina_messages_policyDescriptor_t_msg) 8] None"

lemma dtpConfig_ok: "desc_ok rina_messages_dtpConfig_t_msg"
  unfolding rina_messages_dtpConfig_t_msg_def
  by (rule desc_okI) (simp_all add: field_defs field_ok_def policyDescriptor_ok)

definition rina_messages_connection_t_msg :: pb_msgdesc_t where
  "rina_messages_connection_t_msg = Pb_Msg
     [static_field OPTIONAL UINT32 1,
      static_field OPTIONAL UINT32 2,
      static_field OPTIONAL UINT32 3,
      static_field OPTIONAL UINT32 4,
      static_field OPTIONAL UINT32 5,
      static_field OPTIONAL UINT32 6,
      static_field OPTIONAL (MESSAGE rina_messages_dtpConfig_t_msg) 7,
      static_field OPTIONAL UINT32 8,
      static_field OPTIONAL UINT32 9,
      static_field OPTIONAL UINT64 10,
      static_field OPTIONAL UINT64 11] None"

lemma connection_ok: "desc_ok rina_messages_connection_t_msg"
  unfolding rina_messages_connection_t_msg_def
  by (rule desc_okI) (simp_all add: field_defs field_ok_def dtpConfig_ok)

section \<open>\<open>FlowMessage.pb.h\<close>\<close>

definition rina_messages_connectionId_t_msg :: pb_msgdesc_t where
  "rina_messages_connectionId_t_msg = Pb_Msg
     [static_field OPTIONAL UINT32 1,
      static_field OPTIONAL UINT32 2,
      static_field OPTIONAL UINT32 3] None"

lemma connectionId_ok: "desc_ok rina_messages_connectionId_t_msg"
  unfolding rina_messages_connectionId_t_msg_def
  by (rule desc_okI) (simp_all add: field_defs field_ok_def)

definition rina_messages_Flow_msg :: pb_msgdesc_t where
  "rina_messages_Flow_msg = Pb_Msg
     [static_field REQUIRED (MESSAGE rina_messages_applicationProcessNamingInfo_t_msg) 1,
      static_field REQUIRED (MESSAGE rina_messages_applicationProcessNamingInfo_t_msg) 2,
      static_field REQUIRED UINT64 3,
      static_field OPTIONAL UINT64 4,
      static_field REQUIRED UINT64 5,
      static_field OPTIONAL UINT64 6,
      static_field REPEATED (MESSAGE rina_messages_connectionId_t_msg) 7,
      static_field OPTIONAL UINT32 8,
      static_field OPTIONAL UINT32 9,
      static_field OPTIONAL (MESSAGE rina_messages_qosSpecification_t_msg) 10,
      static_field OPTIONAL (MESSAGE rina_messages_dtpConfig_t_msg) 12,
      static_field OPTIONAL (MESSAGE rina_messages_dtcpConfig_t_msg) 13,
      callback_field OPTIONAL (BYTES 0) 14,
      static_field OPTIONAL UINT32 15,
      static_field OPTIONAL UINT32 16,
      static_field OPTIONAL UINT32 17] None"

lemma Flow_ok: "desc_ok rina_messages_Flow_msg"
  unfolding rina_messages_Flow_msg_def
  by (rule desc_okI) (simp_all add: field_defs field_ok_def
    applicationProcessNamingInfo_ok connectionId_ok qosSpecification_ok dtpConfig_ok dtcpConfig_ok)

end
