(* ===== verification/Pb_Cdap.thy ===== *)
theory Pb_Cdap
  imports Pb_Desc Cdap_Messages
begin

text \<open>
  The management messages on the wire: the structures of \<open>Cdap_Messages\<close> laid out as the stores of their
  descriptors, and nanopb with the buffers of \<open>ribd.c\<close> and \<open>serdesMsg.c\<close> as the encoder and the decoder those
  modules are written against.  A message survives the wire when it fits the buffer; any
  bytes at all are either refused or read as a structure of the right type.
\<close>

section \<open>Members of the structures\<close>

text \<open>The characters of a C string, and the string at the start of an array (\<open>strdup\<close>).\<close>

definition cstr :: "string \<Rightarrow> u8 list" where
  "cstr s = map (\<lambda>c. of_nat (of_char c)) s"

definition uncstr :: "u8 list \<Rightarrow> string" where
  "uncstr b = map (\<lambda>x. char_of (unat x)) (takeWhile (\<lambda>x. x \<noteq> 0) b)"

definition str_store :: "string option \<Rightarrow> pb_store" where
  "str_store p = Pb_Optional (p \<noteq> None) (Pb_String (case p of None \<Rightarrow> [] | Some s \<Rightarrow> cstr s))"

definition int_store :: "int option \<Rightarrow> pb_store" where
  "int_store p = Pb_Optional (p \<noteq> None) (Pb_Int (case p of None \<Rightarrow> 0 | Some v \<Rightarrow> v))"

definition bytes_store :: "u8 list option \<Rightarrow> pb_store" where
  "bytes_store p = Pb_Optional (p \<noteq> None) (Pb_Bytes (case p of None \<Rightarrow> [] | Some b \<Rightarrow> b))"

fun store_str :: "pb_store \<Rightarrow> string option" where
  "store_str (Pb_Optional True (Pb_String b)) = Some (uncstr b)"
| "store_str st = None"

fun store_int :: "pb_store \<Rightarrow> int option" where
  "store_int (Pb_Optional True (Pb_Int v)) = Some v"
| "store_int st = None"

fun store_bytes :: "pb_store \<Rightarrow> u8 list" where
  "store_bytes (Pb_Optional has (Pb_Bytes b)) = b"
| "store_bytes st = []"

fun store_struct :: "pb_store \<Rightarrow> pb_store list option" where
  "store_struct (Pb_Optional True (Pb_Struct sts)) = Some sts"
| "store_struct st = None"

text \<open>The array of versions has one element, empty when none was read.\<close>

fun first_version :: "pb_store \<Rightarrow> string" where
  "first_version (Pb_Repeated (Pb_String v # ds)) = uncstr v"
| "first_version st = ''''"

text \<open>A string without NUL, and in the range of its member.\<close>

definition no_nul :: "string option \<Rightarrow> bool" where
  "no_nul p \<longleftrightarrow> (case p of None \<Rightarrow> True | Some s \<Rightarrow> CHR 0x00 \<notin> set s)"

definition int_fits :: "nat \<Rightarrow> int option \<Rightarrow> bool" where
  "int_fits n p \<longleftrightarrow> (case p of None \<Rightarrow> True | Some v \<Rightarrow> signed_range n v)"

lemma unat_char: "unat (of_nat (of_char c) :: u8) = of_char c"
  by (simp add: unat_of_nat)

lemma cstr_no_zero: "CHR 0x00 \<notin> set s \<Longrightarrow> 0 \<notin> set (cstr s)"
proof
  assume s: "CHR 0x00 \<notin> set s" and "0 \<in> set (cstr s)"
  then obtain c where c: "c \<in> set s" "(of_nat (of_char c) :: u8) = 0" by (auto simp: cstr_def)
  then have "of_char c = (0 :: nat)" using unat_char[of c] by simp
  moreover have "char_of (0 :: nat) = CHR 0x00" by (simp add: char_of_def)
  ultimately have "c = CHR 0x00" using char_of_char[of c, where ?'a = nat] by simp
  then show False using c(1) s by simp
qed

lemma uncstr_cstr:
  assumes "CHR 0x00 \<notin> set s"
  shows "uncstr (cstr s) = s"
proof -
  have "takeWhile (\<lambda>x. x \<noteq> 0) (cstr s) = cstr s"
    using cstr_no_zero[OF assms] by (auto simp: takeWhile_eq_all_conv)
  then show ?thesis
    unfolding uncstr_def by (simp only: cstr_def map_map comp_def unat_char char_of_char list.map_ident)
qed

lemma length_cstr [simp]: "length (cstr s) = length s"
  by (simp add: cstr_def)

section \<open>nanopb on the buffers of the code\<close>

text \<open>\<open>pb_encode\<close> into a buffer of \<open>n\<close> bytes and \<open>pb_decode\<close> of a whole buffer into a cleared structure;
  \<open>None\<close> is the answer \<open>false\<close>.\<close>

definition buffer_encode :: "nat \<Rightarrow> pb_msgdesc_t \<Rightarrow> pb_store list \<Rightarrow> u8 list option" where
  "buffer_encode n m sts =
     (case pb_encode m (pb_ostream_from_buffer n n) sts of
        Ret s \<Rightarrow> Some (take (bytes_written s) (os_state s)) | _ \<Rightarrow> None)"

definition buffer_decode :: "pb_msgdesc_t \<Rightarrow> u8 list \<Rightarrow> pb_store list option" where
  "buffer_decode m bytes =
     (case pb_decode (pb_istream_from_buffer bytes (length bytes)) m (pb_zero m) of
        Ret (vs, s) \<Rightarrow> Some vs | _ \<Rightarrow> None)"

lemma buffer_write:
  "pb_write (pb_ostream_from_buffer n n) b =
     (if length b \<le> n
      then Ret \<lparr> os_callback = True, os_state = b, os_room = n - length b, max_size = n, bytes_written = length b \<rparr>
      else Fail)"
  by (cases b) (auto simp: pb_ostream_from_buffer_def pb_write_def out_buf_write_def)

lemma buffer_encode_wire:
  assumes "desc_ok m" "struct_ok m sts" "clean m sts"
  shows "buffer_encode n m sts = (if length (wire m sts) \<le> n then Some (wire m sts) else None)"
    "pb_encode m (pb_ostream_from_buffer n n) sts \<noteq> Undef"
proof -
  have "os_ok (pb_ostream_from_buffer n n)" by (simp add: os_ok_def pb_ostream_from_buffer_def)
  from pb_encode_writes[OF assms this]
  show "buffer_encode n m sts = (if length (wire m sts) \<le> n then Some (wire m sts) else None)"
    "pb_encode m (pb_ostream_from_buffer n n) sts \<noteq> Undef"
    by (simp_all add: buffer_encode_def buffer_write)
qed

lemma buffer_decode_wire:
  "desc_ok m \<Longrightarrow> struct_ok m sts \<Longrightarrow> clean m sts \<Longrightarrow> buffer_decode m (wire m sts) = Some sts"
  using pb_decode_reads by (simp add: buffer_decode_def)

section \<open>CDAP messages\<close>

definition objVal_struct :: "u8 list option \<Rightarrow> pb_store list" where
  "objVal_struct p =
     [int_store None, int_store None, int_store None, int_store None, str_store None, bytes_store p,
      int_store None, int_store None, Pb_Optional False (Pb_Bool False)]"

definition authPolicy_struct :: "(string option \<times> string) option \<Rightarrow> pb_store list" where
  "authPolicy_struct a =
     (case a of
        None \<Rightarrow> [str_store None, Pb_Repeated [], Pb_Callback]
      | Some (nm, v) \<Rightarrow> [str_store nm, Pb_Repeated [Pb_String (cstr v)], Pb_Callback])"

definition CDAPMessage_struct :: "CDAPMessage \<Rightarrow> pb_store list" where
  "CDAPMessage_struct p =
     [int_store None, Pb_Required (Pb_Int (uint (pb_opCode p))), int_store (pb_invokeID p), int_store None,
      str_store (pb_objClass p), str_store (pb_objName p), int_store (pb_objInst p),
      Pb_Optional (pb_objValue p \<noteq> None) (Pb_Struct (objVal_struct (pb_objValue p))),
      int_store (pb_result p), int_store None, Pb_Callback,
      Pb_Optional (pb_authPolicy p \<noteq> None) (Pb_Struct (authPolicy_struct (pb_authPolicy p))),
      str_store (pb_destAEInst p), str_store (pb_destAEName p), str_store (pb_destApInst p),
      str_store (pb_destApName p), str_store (pb_srcAEInst p), str_store (pb_srcAEName p),
      str_store (pb_srcApInst p), str_store (pb_srcApName p), str_store None, int_store (pb_version p)]"

text \<open>What \<open>prvRibdFillDecodeMessage\<close> reads of a structure: the bytes of the object value and the first
  version whether or not they are there.\<close>

definition struct_CDAPMessage :: "pb_store list \<Rightarrow> CDAPMessage" where
  "struct_CDAPMessage sts =
     \<lparr> pb_opCode = (case sts ! 1 of Pb_Required (Pb_Int v) \<Rightarrow> word_of_int v | _ \<Rightarrow> 0),
       pb_version = store_int (sts ! 21), pb_invokeID = store_int (sts ! 2), pb_result = store_int (sts ! 8),
       pb_destAEInst = store_str (sts ! 12), pb_destAEName = store_str (sts ! 13),
       pb_destApInst = store_str (sts ! 14), pb_destApName = store_str (sts ! 15),
       pb_srcAEInst = store_str (sts ! 16), pb_srcAEName = store_str (sts ! 17),
       pb_srcApInst = store_str (sts ! 18), pb_srcApName = store_str (sts ! 19),
       pb_authPolicy = map_option (\<lambda>a. (store_str (a ! 0), first_version (a ! 1))) (store_struct (sts ! 11)),
       pb_objClass = store_str (sts ! 4), pb_objName = store_str (sts ! 5), pb_objInst = store_int (sts ! 6),
       pb_objValue = map_option (\<lambda>v. store_bytes (v ! 5)) (store_struct (sts ! 7)) \<rparr>"

text \<open>The buffer on the stack is \<open>uint8_t *pucBuffer[128]\<close>: 128 pointers of four bytes.\<close>

definition CDAP_BUFFER :: nat where
  "CDAP_BUFFER = 128 * 4"

definition nanopb_enc_cdap :: "CDAPMessage \<Rightarrow> u8 list option" where
  "nanopb_enc_cdap p = buffer_encode CDAP_BUFFER rina_messages_CDAPMessage_msg (CDAPMessage_struct p)"

definition nanopb_dec_cdap :: "u8 list \<Rightarrow> CDAPMessage option" where
  "nanopb_dec_cdap bytes = map_option struct_CDAPMessage (buffer_decode rina_messages_CDAPMessage_msg bytes)"

text \<open>Members of the right type that can be told from their bytes.\<close>

lemma str_store_ok:
  "fits 19 p \<Longrightarrow> store_ok ok (static_field OPTIONAL (STRING 20) t) (str_store p)"
  "fits 39 p \<Longrightarrow> store_ok ok (static_field OPTIONAL (STRING 40) t) (str_store p)"
  by (cases p; simp add: str_store_def field_defs data_ok_def fits_def)+

lemma int_store_ok:
  "int_fits 4 p \<Longrightarrow> store_ok ok (static_field OPTIONAL INT32 t) (int_store p)"
  "int_fits 8 p \<Longrightarrow> store_ok ok (static_field OPTIONAL INT64 t) (int_store p)"
  by (cases p; simp add: int_store_def field_defs data_ok_def int_fits_def signed_range_def)+

lemma no_int_ok:
  "store_ok ok (static_field OPTIONAL SINT32 t) (int_store None)"
  "store_ok ok (static_field OPTIONAL SINT64 t) (int_store None)"
  "store_ok ok (static_field OPTIONAL FIXED32 t) (int_store None)"
  "store_ok ok (static_field OPTIONAL FIXED64 t) (int_store None)"
  "store_ok ok (static_field OPTIONAL UENUM t) (int_store None)"
  by (simp_all add: int_store_def field_defs data_ok_def signed_range_def unsigned_range_def)

lemma bytes_store_ok:
  "fits n p \<Longrightarrow> store_ok ok (static_field OPTIONAL (BYTES n) t) (bytes_store p)"
  by (cases p) (simp_all add: bytes_store_def field_defs data_ok_def fits_def)

lemma callback_ok: "store_ok ok (callback_field h ty t) Pb_Callback"
  by (simp add: field_defs)

lemma bool_ok: "store_ok ok (static_field OPTIONAL BOOL t) (Pb_Optional has (Pb_Bool b))"
  by (simp add: field_defs data_ok_def)

lemma enum_ok: "store_ok ok (static_field REQUIRED UENUM t) (Pb_Required (Pb_Int (uint (v :: u32))))"
  using uint_bounded[of v] by (simp add: field_defs data_ok_def unsigned_range_def)

lemma message_ok:
  "struct_ok m src \<Longrightarrow>
   store_ok (sub_ok (static_field OPTIONAL (MESSAGE m) t)) (static_field OPTIONAL (MESSAGE m) t)
     (Pb_Optional has (Pb_Struct src))"
  by (simp add: field_defs data_ok_def sub_ok_def)

lemmas member_ok = str_store_ok int_store_ok no_int_ok bytes_store_ok callback_ok bool_ok enum_ok message_ok

lemma str_store_clean:
  "no_nul p \<Longrightarrow> clean_store cl w (zero_store (static_field OPTIONAL (STRING n) t, z)) (str_store p)"
  by (cases p) (simp_all add: str_store_def field_defs no_nul_def cstr_no_zero)

lemma int_store_clean:
  "clean_store cl w (zero_store (static_field OPTIONAL INT32 t, z)) (int_store p)"
  "clean_store cl w (zero_store (static_field OPTIONAL INT64 t, z)) (int_store p)"
  by (cases p; simp add: int_store_def field_defs)+

lemma no_int_clean:
  "clean_store cl w (zero_store (static_field OPTIONAL SINT32 t, z)) (int_store None)"
  "clean_store cl w (zero_store (static_field OPTIONAL SINT64 t, z)) (int_store None)"
  "clean_store cl w (zero_store (static_field OPTIONAL FIXED32 t, z)) (int_store None)"
  "clean_store cl w (zero_store (static_field OPTIONAL FIXED64 t, z)) (int_store None)"
  "clean_store cl w (zero_store (static_field OPTIONAL UENUM t, z)) (int_store None)"
  by (simp_all add: int_store_def field_defs)

lemma bytes_store_clean:
  "clean_store cl w (zero_store (static_field OPTIONAL (BYTES n) t, z)) (bytes_store p)"
  by (cases p) (simp_all add: bytes_store_def field_defs)

lemma message_clean:
  fixes m t defines "f \<equiv> static_field OPTIONAL (MESSAGE m) t"
  assumes "clean m src" "length (wire m src) < 2 ^ 32" "\<not> has \<longrightarrow> src = pb_zero m"
  shows "clean_store (sub_clean f) (sub_wire f) (zero_store (f, sub_zero f)) (Pb_Optional has (Pb_Struct src))"
  using assms(2-4) by (simp add: f_def field_defs sub_clean_def sub_wire_def sub_zero_def)

lemma other_clean:
  "clean_store cl w z Pb_Callback"
  "clean_store cl w z (Pb_Required (Pb_Int v))"
  "clean_store cl w (zero_store (static_field OPTIONAL BOOL t, z')) (Pb_Optional False (Pb_Bool False))"
  by (simp_all add: field_defs)

lemmas member_clean = str_store_clean int_store_clean no_int_clean bytes_store_clean other_clean

lemma none_members [simp]: "no_nul None" "int_fits n None" "fits n None"
  by (simp_all add: no_nul_def int_fits_def fits_def)

lemma varint_length: "length (varint n) \<le> Suc n"
proof (induction n rule: varint.induct)
  case (1 n)
  then show ?case by (cases "n < 128") (auto simp: varint_small varint_big)
qed

lemma objVal_struct_ok: "fits 1024 p \<Longrightarrow> struct_ok rina_messages_objVal_t_msg (objVal_struct p)"
  unfolding rina_messages_objVal_t_msg_def objVal_struct_def by_fields
  by (simp add: member_ok del: store_ok.simps)

lemma objVal_struct_clean: "clean rina_messages_objVal_t_msg (objVal_struct p)"
  unfolding rina_messages_objVal_t_msg_def objVal_struct_def clean_fields
  by (simp add: member_clean del: clean_store.simps zero_store.simps)

lemma objVal_zero: "objVal_struct None = pb_zero rina_messages_objVal_t_msg"
  by (simp add: rina_messages_objVal_t_msg_def objVal_struct_def field_defs int_store_def str_store_def bytes_store_def)

lemma objVal_wire:
  "wire rina_messages_objVal_t_msg (objVal_struct p) =
     (case p of None \<Rightarrow> [] | Some b \<Rightarrow> varint 50 @ varint (length b) @ b)"
  by (cases p)
    (simp_all add: rina_messages_objVal_t_msg_def objVal_struct_def field_defs int_store_def str_store_def
      bytes_store_def wire_basic_def tag_bytes_def payload_def)

lemma objVal_short: "fits 1024 p \<Longrightarrow> length (wire rina_messages_objVal_t_msg (objVal_struct p)) < 2 ^ 32"
  using varint_length[of 50] varint_length[of "length (the p)"]
  by (cases p) (simp_all add: objVal_wire fits_def)

definition auth_fits :: "(string option \<times> string) option \<Rightarrow> bool" where
  "auth_fits a \<longleftrightarrow> (case a of None \<Rightarrow> True | Some (nm, v) \<Rightarrow> fits 39 nm \<and> length v \<le> 39)"

definition auth_no_nul :: "(string option \<times> string) option \<Rightarrow> bool" where
  "auth_no_nul a \<longleftrightarrow> (case a of None \<Rightarrow> True | Some (nm, v) \<Rightarrow> no_nul nm \<and> CHR 0x00 \<notin> set v)"

lemma versions_ok:
  "length v \<le> 39 \<Longrightarrow> store_ok ok (static_field REPEATED (STRING 40) t) (Pb_Repeated [Pb_String (cstr v)])"
  "store_ok ok (static_field REPEATED (STRING 40) t) (Pb_Repeated [])"
  by (simp_all add: field_defs data_ok_def)

lemma versions_clean:
  "CHR 0x00 \<notin> set v \<Longrightarrow> clean_store cl w z (Pb_Repeated [Pb_String (cstr v)])"
  "clean_store cl w z (Pb_Repeated [])"
  by (simp_all add: cstr_no_zero)

lemma auth_struct_ok:
  "auth_fits a \<Longrightarrow> struct_ok rina_messages_authPolicy_t_msg (authPolicy_struct a)"
  unfolding rina_messages_authPolicy_t_msg_def authPolicy_struct_def by_fields
  by (cases a) (auto simp del: store_ok.simps simp add: member_ok versions_ok auth_fits_def)

lemma auth_struct_clean:
  "auth_no_nul a \<Longrightarrow> clean rina_messages_authPolicy_t_msg (authPolicy_struct a)"
  unfolding rina_messages_authPolicy_t_msg_def authPolicy_struct_def clean_fields
  by (cases a)
    (auto simp del: clean_store.simps zero_store.simps simp add: member_clean versions_clean auth_no_nul_def)

lemma auth_zero: "authPolicy_struct None = pb_zero rina_messages_authPolicy_t_msg"
  by (simp add: rina_messages_authPolicy_t_msg_def authPolicy_struct_def field_defs str_store_def)

lemma str_wire_length:
  "length (wire_field w (static_field OPTIONAL (STRING n) t) (str_store p))
     \<le> (case p of None \<Rightarrow> 0 | Some s \<Rightarrow> length (varint (8 * t + 2)) + Suc (length s) + length s)"
  by (cases p)
    (simp_all add: str_store_def field_defs wire_basic_def tag_bytes_def payload_def varint_length)

lemma auth_short:
  assumes "auth_fits a"
  shows "length (wire rina_messages_authPolicy_t_msg (authPolicy_struct a)) < 2 ^ 32"
proof (cases a)
  case (Some x)
  obtain nm v where x: "x = (nm, v)" by (cases x)
  have "fits 39 nm" "length v \<le> 39" using assms Some x by (auto simp: auth_fits_def)
  moreover have "length (varint 10) \<le> 11" "length (varint 18) \<le> 19" "length (varint (length v)) \<le> Suc (length v)"
    using varint_length[of 10] varint_length[of 18] varint_length[of "length v"] by simp_all
  ultimately show ?thesis
    using str_wire_length[of "\<lambda>_. []" 40 1 nm]
    by (cases nm)
      (simp_all add: rina_messages_authPolicy_t_msg_def authPolicy_struct_def Some x field_defs str_store_def
        wire_basic_def tag_bytes_def payload_def fits_def)
qed (simp add: rina_messages_authPolicy_t_msg_def authPolicy_struct_def field_defs str_store_def)

text \<open>What the C types of \<open>messageCdap_t\<close> guarantee of the integers and the strings of a message, for
  the structure made of it.\<close>

definition cdap_fits :: "CDAPMessage \<Rightarrow> bool" where
  "cdap_fits p \<longleftrightarrow>
     int_fits 8 (pb_version p) \<and> int_fits 4 (pb_invokeID p) \<and> int_fits 4 (pb_result p) \<and> int_fits 8 (pb_objInst p)
     \<and> list_all (fits 19) [pb_destAEInst p, pb_destAEName p, pb_destApInst p, pb_destApName p,
          pb_srcAEInst p, pb_srcAEName p, pb_srcApInst p, pb_srcApName p]
     \<and> list_all (fits 39) [pb_objClass p, pb_objName p]
     \<and> fits 1024 (pb_objValue p) \<and> auth_fits (pb_authPolicy p)"

definition cdap_no_nul :: "CDAPMessage \<Rightarrow> bool" where
  "cdap_no_nul p \<longleftrightarrow> auth_no_nul (pb_authPolicy p)
     \<and> list_all no_nul [pb_destAEInst p, pb_destAEName p, pb_destApInst p, pb_destApName p,
          pb_srcAEInst p, pb_srcAEName p, pb_srcApInst p, pb_srcApName p, pb_objClass p, pb_objName p]"

lemma cdap_struct_ok:
  "cdap_fits p \<Longrightarrow> struct_ok rina_messages_CDAPMessage_msg (CDAPMessage_struct p)"
  unfolding rina_messages_CDAPMessage_msg_def CDAPMessage_struct_def by_fields cdap_fits_def
  by (simp add: member_ok objVal_struct_ok auth_struct_ok del: store_ok.simps)

lemma cdap_struct_clean:
  assumes "cdap_fits p" "cdap_no_nul p"
  shows "clean rina_messages_CDAPMessage_msg (CDAPMessage_struct p)"
proof -
  have v: "clean_store (sub_clean f) (sub_wire f) (zero_store (f, sub_zero f))
      (Pb_Optional (pb_objValue p \<noteq> None) (Pb_Struct (objVal_struct (pb_objValue p))))"
    if "f = static_field OPTIONAL (MESSAGE rina_messages_objVal_t_msg) 8" for f
    unfolding that
    by (rule message_clean)
      (use assms in \<open>auto simp: cdap_fits_def objVal_struct_clean objVal_short[simplified] objVal_zero\<close>)
  have a: "clean_store (sub_clean f) (sub_wire f) (zero_store (f, sub_zero f))
      (Pb_Optional (pb_authPolicy p \<noteq> None) (Pb_Struct (authPolicy_struct (pb_authPolicy p))))"
    if "f = static_field OPTIONAL (MESSAGE rina_messages_authPolicy_t_msg) 18" for f
    unfolding that
  proof (rule message_clean)
    show "clean rina_messages_authPolicy_t_msg (authPolicy_struct (pb_authPolicy p))"
      using assms(2) by (simp add: cdap_no_nul_def auth_struct_clean)
    show "length (wire rina_messages_authPolicy_t_msg (authPolicy_struct (pb_authPolicy p))) < 2 ^ 32"
      using assms(1) by (intro auth_short) (simp add: cdap_fits_def)
    show "\<not> pb_authPolicy p \<noteq> None \<longrightarrow>
        authPolicy_struct (pb_authPolicy p) = pb_zero rina_messages_authPolicy_t_msg"
      by (metis auth_zero)
  qed
  show ?thesis
    using assms(2) unfolding rina_messages_CDAPMessage_msg_def CDAPMessage_struct_def clean_fields cdap_no_nul_def
    by (simp del: clean_store.simps zero_store.simps not_None_eq add: member_clean v[OF refl] a[OF refl])
qed

lemma store_members:
  "no_nul p \<Longrightarrow> store_str (str_store p) = p"
  "store_int (int_store i) = i"
  by (cases p; simp add: str_store_def no_nul_def uncstr_cstr) (cases i; simp add: int_store_def)

lemma store_auth:
  "auth_no_nul a \<Longrightarrow> map_option (\<lambda>a. (store_str (a ! 0), first_version (a ! 1)))
     (store_struct (Pb_Optional (a \<noteq> None) (Pb_Struct (authPolicy_struct a)))) = a"
  by (cases a) (auto simp: authPolicy_struct_def auth_no_nul_def store_members uncstr_cstr)

lemma store_objVal:
  "map_option (\<lambda>v. store_bytes (v ! 5)) (store_struct (Pb_Optional (v \<noteq> None) (Pb_Struct (objVal_struct v)))) = v"
  by (cases v) (simp_all add: objVal_struct_def bytes_store_def)

lemma cdap_struct_read: "cdap_no_nul p \<Longrightarrow> struct_CDAPMessage (CDAPMessage_struct p) = p"
  using store_auth[of "pb_authPolicy p"] store_objVal[of "pb_objValue p"]
  unfolding CDAPMessage_struct_def struct_CDAPMessage_def cdap_no_nul_def
  by (cases p) (simp add: store_members)

text \<open>A message of the C types: integers in their ranges, strings that end at their NUL.\<close>

definition name_no_nul :: "name_t \<Rightarrow> bool" where
  "name_no_nul n \<longleftrightarrow> list_all no_nul [pcProcessName n, pcProcessInstance n, pcEntityName n, pcEntityInstance n]"

definition c_message :: "messageCdap_t \<Rightarrow> bool" where
  "c_message m \<longleftrightarrow>
     signed_range 8 (version m) \<and> signed_range 4 (invokeID m) \<and> signed_range 8 (objInst m)
     \<and> signed_range 4 (cdap_result m) \<and> name_no_nul (pxDestinationInfo m) \<and> name_no_nul (pxSourceInfo m)
     \<and> list_all no_nul [pcName (pxAuthPolicy m), pcVersion (pxAuthPolicy m), pcObjClass m, pcObjName m]"

lemma ser_fits:
  assumes "prvRibdSerToRinaMessage m = Some p" "c_message m"
  shows "cdap_fits p" "cdap_no_nul p"
proof -
  have a: "auth_ok (pxAuthPolicy m)" using ser_explicit(1)[OF assms(1)] .
  have f: "list_all (fits 19) [pcEntityInstance (pxDestinationInfo m), pcEntityName (pxDestinationInfo m),
        pcProcessInstance (pxDestinationInfo m), pcProcessName (pxDestinationInfo m),
        pcEntityInstance (pxSourceInfo m), pcEntityName (pxSourceInfo m),
        pcProcessInstance (pxSourceInfo m), pcProcessName (pxSourceInfo m)]"
      "fits 39 (pcObjClass m)" "fits 39 (pcObjName m)" "fits 1024 (pxObjValue m)"
    using assms(1) unfolding prvRibdSerToRinaMessage_def
    by (simp_all only: strcpy_arr_fits memcpy_arr_fits fill_auth_ok bind_if_Some if_Some_eq list.pred_inject simp_thms)
  have i: "int_fits 8 (Some (version m))" "int_fits 4 (Some (invokeID m))"
      "int_fits 8 (if objInst m \<noteq> -1 then Some (objInst m) else None)"
      "int_fits 4 (if cdap_result m \<noteq> -1 then Some (cdap_result m) else None)"
    using assms(2) by (simp_all add: c_message_def int_fits_def)
  have auth: "auth_fits (case pcName (pxAuthPolicy m) of None \<Rightarrow> None
        | Some nm \<Rightarrow> Some (Some nm, the (pcVersion (pxAuthPolicy m))))"
      "auth_no_nul (case pcName (pxAuthPolicy m) of None \<Rightarrow> None
        | Some nm \<Rightarrow> Some (Some nm, the (pcVersion (pxAuthPolicy m))))"
    using a assms(2)
    by (auto simp: auth_fits_def auth_no_nul_def auth_ok_def c_message_def no_nul_def fits_def split: option.splits)
  show "cdap_fits p"
    unfolding ser_explicit(2)[OF assms(1)] cdap_fits_def using f i auth(1) by simp
  show "cdap_no_nul p"
    unfolding ser_explicit(2)[OF assms(1)] cdap_no_nul_def
    using auth(2) assms(2) by (simp add: c_message_def name_no_nul_def)
qed

lemma nanopb_cdap:
  assumes "cdap_fits p" "cdap_no_nul p"
  defines "w \<equiv> wire rina_messages_CDAPMessage_msg (CDAPMessage_struct p)"
  shows "nanopb_enc_cdap p = (if length w \<le> CDAP_BUFFER then Some w else None)" "nanopb_dec_cdap w = Some p"
  using CDAPMessage_ok cdap_struct_ok[OF assms(1)] cdap_struct_clean[OF assms(1,2)] cdap_struct_read[OF assms(2)]
  by (simp_all add: nanopb_enc_cdap_def nanopb_dec_cdap_def w_def buffer_encode_wire buffer_decode_wire)

section \<open>How long a message is\<close>

lemma varint_length_bits: "0 < k \<Longrightarrow> n < 2 ^ (7 * k) \<Longrightarrow> length (varint n) \<le> k"
proof (induction n arbitrary: k rule: varint.induct)
  case (1 n)
  show ?case
  proof (cases "n < 128")
    case False
    obtain j where j: "k = Suc j" using 1(2) by (cases k) auto
    have "j \<noteq> 0" using False 1(3) j by (cases j) auto
    moreover have "n div 128 < 2 ^ (7 * j)" using 1(3) j by (simp add: less_mult_imp_div_less power_add)
    ultimately show ?thesis using 1(1)[of j] False j by (simp add: varint_big)
  qed (use 1 in \<open>simp add: varint_small\<close>)
qed

lemma varint_word: "length (varint (unat (v :: u64))) \<le> 10"
  using varint_length_bits[of 10 "unat v"] u64_bound[of v] by simp

lemma int_wire_length:
  "length (wire_field w (static_field OPTIONAL INT32 t) (int_store p)) \<le> length (varint (8 * t)) + 10"
  "length (wire_field w (static_field OPTIONAL INT64 t) (int_store p)) \<le> length (varint (8 * t)) + 10"
  by (cases p; simp add: int_store_def field_defs wire_basic_def tag_bytes_def payload_def varint_word)+

lemma str_wire_short:
  assumes "fits n p" "n < 128"
  shows "length (wire_field w (static_field OPTIONAL (STRING m) t) (str_store p)) \<le> length (varint (8 * t + 2)) + 1 + n"
  using assms
  by (cases p) (simp_all add: str_store_def field_defs wire_basic_def tag_bytes_def payload_def fits_def varint_small)

lemma tag_lengths:
  "n < 128 \<Longrightarrow> length (varint n) = 1" "128 \<le> n \<Longrightarrow> n < 16384 \<Longrightarrow> length (varint n) = 2"
  by (simp_all add: varint_small varint_big less_mult_imp_div_less)

lemma absent_wire:
  "wire_field w (static_field OPTIONAL t n) (int_store None) = []"
  "wire_field w (static_field OPTIONAL t n) (str_store None) = []"
  by (simp_all add: int_store_def str_store_def)

lemma auth_wire_length:
  assumes "auth_fits a"
  shows "length (wire rina_messages_authPolicy_t_msg (authPolicy_struct a)) \<le> 82"
proof (cases a)
  case (Some x)
  obtain nm v where x: "x = (nm, v)" by (cases x)
  have fits: "fits 39 nm" "length v \<le> 39" using assms Some x by (auto simp: auth_fits_def)
  then have "length (wire_field (\<lambda>_. []) (static_field OPTIONAL (STRING 40) 1) (str_store nm)) \<le> 41"
    using str_wire_short[of 39 nm "\<lambda>_. []" 40 1] by (simp add: tag_lengths)
  then show ?thesis
    using fits(2)
    by (simp add: rina_messages_authPolicy_t_msg_def authPolicy_struct_def Some x tag_lengths
        callback_field_def wire_basic_def tag_bytes_def payload_def)
      (simp add: static_field_def tag_lengths)
qed (simp add: rina_messages_authPolicy_t_msg_def authPolicy_struct_def absent_wire callback_field_def)

lemma message_wire_length:
  "length (wire_field (sub_wire (static_field OPTIONAL (MESSAGE m) t)) (static_field OPTIONAL (MESSAGE m) t)
     (Pb_Optional has (Pb_Struct src)))
   = (if has then length (varint (8 * t + 2)) + length (varint (length (wire m src))) + length (wire m src) else 0)"
  by (simp add: field_defs wire_basic_def tag_bytes_def payload_def sub_wire_def)

lemma opcode_wire_length:
  "length (wire_field w (static_field REQUIRED UENUM 2) (Pb_Required (Pb_Int (uint (v :: u32))))) \<le> 11"
  by (simp add: field_defs wire_basic_def tag_bytes_def payload_def tag_lengths varint_word)

lemma objVal_wire_length:
  "fits 100 v \<Longrightarrow> length (wire_field (sub_wire (static_field OPTIONAL (MESSAGE rina_messages_objVal_t_msg) 8))
     (static_field OPTIONAL (MESSAGE rina_messages_objVal_t_msg) 8)
     (Pb_Optional (v \<noteq> None) (Pb_Struct (objVal_struct v)))) \<le> 104"
  unfolding message_wire_length by (cases v) (simp_all add: objVal_wire tag_lengths fits_def)

lemma authPolicy_wire_length:
  "auth_fits a \<Longrightarrow> length (wire_field (sub_wire (static_field OPTIONAL (MESSAGE rina_messages_authPolicy_t_msg) 18))
     (static_field OPTIONAL (MESSAGE rina_messages_authPolicy_t_msg) 18)
     (Pb_Optional (a \<noteq> None) (Pb_Struct (authPolicy_struct a)))) \<le> 85"
  using auth_wire_length[of a] unfolding message_wire_length by (cases "a = None") (simp_all add: tag_lengths)

lemma cdap_wire_length:
  assumes "cdap_fits p" "fits 100 (pb_objValue p)"
  shows "length (wire rina_messages_CDAPMessage_msg (CDAPMessage_struct p)) \<le> CDAP_BUFFER"
proof -
  have s: "length (wire_field w (static_field OPTIONAL (STRING 20) t) (str_store q)) \<le> 22"
    if "fits 19 q" "19 \<le> t" "t < 2000" for w t q
    using str_wire_short[OF that(1), of w 20 t] that(2,3) by (simp add: tag_lengths)
  have l: "length (wire_field w (static_field OPTIONAL (STRING 40) t) (str_store q)) \<le> 41"
    if "fits 39 q" "t < 15" for w t q
    using str_wire_short[OF that(1), of w 40 t] that(2) by (simp add: tag_lengths)
  have i: "length (wire_field w (static_field OPTIONAL INT32 t) (int_store q)) \<le> 11" if "t < 16" for w t q
    using int_wire_length(1)[of w t q] that by (simp add: tag_lengths)
  have j: "length (wire_field w (static_field OPTIONAL INT64 t) (int_store q)) \<le> 12" if "t < 2000" for w t q
    using int_wire_length(2)[of w t q] that by (cases "t < 16") (simp_all add: tag_lengths)
  have c: "wire_field w (callback_field h ty t) Pb_Callback = []" for w h ty t by simp
  have fits: "fits 19 (pb_destAEInst p)" "fits 19 (pb_destAEName p)" "fits 19 (pb_destApInst p)"
    "fits 19 (pb_destApName p)" "fits 19 (pb_srcAEInst p)" "fits 19 (pb_srcAEName p)"
    "fits 19 (pb_srcApInst p)" "fits 19 (pb_srcApName p)" "fits 39 (pb_objClass p)" "fits 39 (pb_objName p)"
    "auth_fits (pb_authPolicy p)"
    using assms(1) by (simp_all add: cdap_fits_def)
  have "length (wire rina_messages_CDAPMessage_msg (CDAPMessage_struct p))
      \<le> 11 + (11 + (41 + (41 + (12 + (104 + (11 + (85 + (22 + (22 + (22 + (22 + (22 + (22 + (22 + (22 + 12)))))))))))))))"
    unfolding rina_messages_CDAPMessage_msg_def CDAPMessage_struct_def by_fields
      list.map wire_fields.simps absent_wire c append_Nil append_Nil2 length_append
    by (intro add_mono opcode_wire_length i j l s fits objVal_wire_length[OF assms(2)]
        authPolicy_wire_length) simp_all
  then show ?thesis by (simp add: CDAP_BUFFER_def)
qed

section \<open>What the decoder can produce\<close>

lemma uncstr_no_nul: "CHR 0x00 \<notin> set (uncstr b)"
proof
  assume "CHR 0x00 \<in> set (uncstr b)"
  then obtain x where x: "x \<in> set (takeWhile (\<lambda>x. x \<noteq> 0) b)" "CHR 0x00 = char_of (unat x)"
    by (auto simp: uncstr_def)
  have "of_char (char_of (unat x)) = unat x mod 256" by (simp add: of_char_of)
  moreover have "unat x < 256" using unsigned_less[of x, where ?'a = nat] by simp
  moreover have "of_char (CHR 0x00) = (0 :: nat)" by (simp add: of_char_def)
  ultimately have "unat x = 0" using x(2) by simp
  then have "x = 0" by (simp add: unat_eq_0)
  then show False using x(1) set_takeWhileD by fastforce
qed

lemma length_uncstr: "length (uncstr b) \<le> length b"
  by (simp add: uncstr_def length_takeWhile_le)

lemma store_str_no_nul: "no_nul (store_str st)"
  by (cases st rule: store_str.cases) (simp_all add: no_nul_def uncstr_no_nul)

lemma store_str_fits:
  assumes "store_ok ok (static_field OPTIONAL (STRING n) t) st" "0 < n"
  shows "fits (n - 1) (store_str st)"
proof (cases st rule: store_str.cases)
  case (1 b)
  then have "length b < n" using assms(1) by (simp add: field_defs data_ok_def)
  then show ?thesis using 1 length_uncstr[of b] by (simp add: fits_def)
qed (simp_all add: fits_def)

lemma store_int_fits:
  "store_ok ok (static_field OPTIONAL INT32 t) st \<Longrightarrow> int_fits 4 (store_int st)"
  "store_ok ok (static_field OPTIONAL INT64 t) st \<Longrightarrow> int_fits 8 (store_int st)"
  by (cases st rule: store_int.cases; simp add: field_defs data_ok_def int_fits_def)+

lemma objVal_read_fits:
  assumes "store_ok (sub_ok (static_field OPTIONAL (MESSAGE rina_messages_objVal_t_msg) t))
    (static_field OPTIONAL (MESSAGE rina_messages_objVal_t_msg) t) st"
  shows "fits 1024 (map_option (\<lambda>v. store_bytes (v ! 5)) (store_struct st))"
proof -
  have "length (store_bytes (v ! 5)) \<le> 1024" if "struct_ok rina_messages_objVal_t_msg v" for v
  proof -
    have "length v = 9 \<and> (\<forall>i<9. store_ok (sub_ok (field_info rina_messages_objVal_t_msg ! i))
        (field_info rina_messages_objVal_t_msg ! i) (v ! i))"
      using that unfolding rina_messages_objVal_t_msg_def by_fields stores_ok_nth by simp
    then have "store_ok (sub_ok (static_field OPTIONAL (BYTES 1024) 6)) (static_field OPTIONAL (BYTES 1024) 6) (v ! 5)"
      by (auto dest!: spec[of _ 5] simp: rina_messages_objVal_t_msg_def)
    then show ?thesis
      by (cases "v ! 5" rule: store_bytes.cases) (simp_all add: field_defs data_ok_def)
  qed
  then show ?thesis
    using assms by (cases st rule: store_struct.cases) (auto simp: fits_def field_defs data_ok_def sub_ok_def)
qed

lemma auth_read_fits:
  assumes "store_ok (sub_ok (static_field OPTIONAL (MESSAGE rina_messages_authPolicy_t_msg) t))
    (static_field OPTIONAL (MESSAGE rina_messages_authPolicy_t_msg) t) st"
  defines "a \<equiv> map_option (\<lambda>a. (store_str (a ! 0), first_version (a ! 1))) (store_struct st)"
  shows "auth_fits a" "auth_no_nul a"
proof -
  have fits: "fits 39 (store_str (v ! 0)) \<and> length (first_version (v ! 1)) \<le> 39"
    if "struct_ok rina_messages_authPolicy_t_msg v" for v
  proof -
    have n: "length v = 3 \<and> (\<forall>i<3. store_ok (sub_ok (field_info rina_messages_authPolicy_t_msg ! i))
        (field_info rina_messages_authPolicy_t_msg ! i) (v ! i))"
      using that unfolding rina_messages_authPolicy_t_msg_def by_fields stores_ok_nth by simp
    then have nm: "store_ok (sub_ok (static_field OPTIONAL (STRING 40) 1)) (static_field OPTIONAL (STRING 40) 1) (v ! 0)"
      by (auto dest!: spec[of _ 0] simp: rina_messages_authPolicy_t_msg_def)
    from n have "store_ok (sub_ok (static_field REPEATED (STRING 40) 2)) (static_field REPEATED (STRING 40) 2) (v ! 1)"
      by (auto dest!: spec[of _ 1] simp: rina_messages_authPolicy_t_msg_def)
    then have "length (first_version (v ! 1)) \<le> 39"
      using order_trans[OF length_uncstr]
      by (cases "v ! 1" rule: first_version.cases) (simp_all add: field_defs data_ok_def)
    with store_str_fits[OF nm] show ?thesis by simp
  qed
  show "auth_fits a"
    using fits assms(1) unfolding a_def
    by (cases st rule: store_struct.cases) (auto simp: auth_fits_def field_defs data_ok_def sub_ok_def)
  have "CHR 0x00 \<notin> set (first_version st')" for st'
    by (cases st' rule: first_version.cases) (simp_all add: uncstr_no_nul)
  then show "auth_no_nul a"
    unfolding a_def
    by (cases st rule: store_struct.cases) (simp_all add: auth_no_nul_def store_str_no_nul)
qed

lemma struct_read_fits:
  assumes "struct_ok rina_messages_CDAPMessage_msg sts"
  shows "cdap_fits (struct_CDAPMessage sts)" "cdap_no_nul (struct_CDAPMessage sts)"
proof -
  let ?fs = "field_info rina_messages_CDAPMessage_msg"
  have all: "\<forall>i<22. store_ok (sub_ok (?fs ! i)) (?fs ! i) (sts ! i)"
    using assms unfolding rina_messages_CDAPMessage_msg_def by_fields stores_ok_nth by simp
  have st: "store_ok (sub_ok f) f (sts ! i)" if "i < 22" "?fs ! i = f" for i f
    using all that by blast
  have str20: "fits 19 (store_str (sts ! i))" if "i < 22" "?fs ! i = static_field OPTIONAL (STRING 20) t" for i t
    using store_str_fits[OF st[OF that]] by simp
  have str40: "fits 39 (store_str (sts ! i))" if "i < 22" "?fs ! i = static_field OPTIONAL (STRING 40) t" for i t
    using store_str_fits[OF st[OF that]] by simp
  have auth: "auth_fits (pb_authPolicy (struct_CDAPMessage sts))" "auth_no_nul (pb_authPolicy (struct_CDAPMessage sts))"
    using auth_read_fits[OF st[of 11]] by (simp_all add: struct_CDAPMessage_def rina_messages_CDAPMessage_msg_def)
  show "cdap_no_nul (struct_CDAPMessage sts)"
    using auth(2) by (simp add: cdap_no_nul_def struct_CDAPMessage_def store_str_no_nul)
  show "cdap_fits (struct_CDAPMessage sts)"
    using auth(1) str20[of 12 19] str20[of 13 20] str20[of 14 21] str20[of 15 22] str20[of 16 23] str20[of 17 24]
      str20[of 18 25] str20[of 19 26] str40[of 4 5] str40[of 5 6]
      store_int_fits(1)[OF st[of 2]] store_int_fits(1)[OF st[of 8]] store_int_fits(2)[OF st[of 6]]
      store_int_fits(2)[OF st[of 21]] objVal_read_fits[OF st[of 7]]
    by (simp add: cdap_fits_def struct_CDAPMessage_def rina_messages_CDAPMessage_msg_def)
qed

section \<open>Object values of enrollment, neighbours and A-data\<close>

text \<open>The size of the buffers of \<open>serdesMsg.c\<close> (\<open>configSensor.h\<close>).\<close>

definition PB_MTU :: nat where
  "PB_MTU = 1500"

definition u64_store :: "u64 option \<Rightarrow> pb_store" where
  "u64_store p = int_store (map_option uint p)"

definition store_u64 :: "pb_store \<Rightarrow> u64 option" where
  "store_u64 st = map_option word_of_int (store_int st)"

definition enrollmentInformation_struct :: "enrollmentInformation \<Rightarrow> pb_store list" where
  "enrollmentInformation_struct p =
     [u64_store (pb_ei_address p), Pb_Repeated [], Pb_Optional False (Pb_Bool False), str_store (pb_ei_token p)]"

definition struct_enrollmentInformation :: "pb_store list \<Rightarrow> enrollmentInformation" where
  "struct_enrollmentInformation sts =
     \<lparr> pb_ei_address = store_u64 (sts ! 0), pb_ei_token = store_str (sts ! 3) \<rparr>"

definition nanopb_enc_enroll :: "enrollmentInformation \<Rightarrow> u8 list option" where
  "nanopb_enc_enroll p =
     buffer_encode PB_MTU rina_messages_enrollmentInformation_t_msg (enrollmentInformation_struct p)"

definition nanopb_dec_enroll :: "u8 list \<Rightarrow> enrollmentInformation option" where
  "nanopb_dec_enroll bytes =
     map_option struct_enrollmentInformation (buffer_decode rina_messages_enrollmentInformation_t_msg bytes)"

definition neighbor_struct :: "neighborMessage_pb \<Rightarrow> pb_store list" where
  "neighbor_struct p =
     [str_store (pb_nb_apname p), str_store (pb_nb_apinstance p), str_store (pb_nb_aename p),
      str_store (pb_nb_aeinstance p), u64_store (pb_nb_address p), Pb_Repeated []]"

definition struct_neighbor :: "pb_store list \<Rightarrow> neighborMessage_pb" where
  "struct_neighbor sts =
     \<lparr> pb_nb_apname = store_str (sts ! 0), pb_nb_apinstance = store_str (sts ! 1),
       pb_nb_aename = store_str (sts ! 2), pb_nb_aeinstance = store_str (sts ! 3),
       pb_nb_address = store_u64 (sts ! 4) \<rparr>"

definition nanopb_enc_neighbor :: "neighborMessage_pb \<Rightarrow> u8 list option" where
  "nanopb_enc_neighbor p = buffer_encode PB_MTU rina_messages_neighbor_t_msg (neighbor_struct p)"

definition nanopb_dec_neighbor :: "u8 list \<Rightarrow> neighborMessage_pb option" where
  "nanopb_dec_neighbor bytes = map_option struct_neighbor (buffer_decode rina_messages_neighbor_t_msg bytes)"

definition struct_aData :: "pb_store list \<Rightarrow> aData_pb" where
  "struct_aData sts =
     \<lparr> pb_ad_sourceAddress = store_int (sts ! 0), pb_ad_destAddress = store_int (sts ! 1),
       pb_ad_cdapMessage = (case sts ! 2 of Pb_Optional True (Pb_Bytes b) \<Rightarrow> Some b | _ \<Rightarrow> None) \<rparr>"

definition nanopb_dec_adata :: "u8 list \<Rightarrow> aData_pb option" where
  "nanopb_dec_adata bytes = map_option struct_aData (buffer_decode rina_messages_a_data_t_msg bytes)"

lemma u64_store_ok: "store_ok ok (static_field OPTIONAL UINT64 t) (u64_store p)"
  using uint_bounded[of "the p"]
  by (cases p) (simp_all add: u64_store_def int_store_def field_defs data_ok_def unsigned_range_def)

lemma u64_store_clean: "clean_store cl w (zero_store (static_field OPTIONAL UINT64 t, z)) (u64_store p)"
  by (cases p) (simp_all add: u64_store_def int_store_def field_defs)

lemma store_u64_store: "store_u64 (u64_store p) = p"
  by (cases p) (simp_all add: store_u64_def u64_store_def int_store_def)

lemma no_difs:
  "store_ok ok (static_field REPEATED (STRING 20) t) (Pb_Repeated [])"
  by (simp add: field_defs)

lemma u64_wire_length:
  "length (wire_field w (static_field OPTIONAL UINT64 t) (u64_store p)) \<le> length (varint (8 * t)) + 10"
  by (cases p)
    (simp_all add: u64_store_def int_store_def field_defs wire_basic_def tag_bytes_def payload_def varint_word)

lemma nanopb_enroll:
  assumes "fits 19 (pb_ei_token p)" "no_nul (pb_ei_token p)"
  defines "w \<equiv> wire rina_messages_enrollmentInformation_t_msg (enrollmentInformation_struct p)"
  shows "nanopb_enc_enroll p = Some w" "nanopb_dec_enroll w = Some p"
proof -
  have ok: "struct_ok rina_messages_enrollmentInformation_t_msg (enrollmentInformation_struct p)"
    using assms(1) unfolding rina_messages_enrollmentInformation_t_msg_def enrollmentInformation_struct_def by_fields
    by (simp del: store_ok.simps add: u64_store_ok no_difs member_ok)
  have cl: "clean rina_messages_enrollmentInformation_t_msg (enrollmentInformation_struct p)"
    using assms(2) unfolding rina_messages_enrollmentInformation_t_msg_def enrollmentInformation_struct_def clean_fields
    by (simp del: clean_store.simps zero_store.simps add: u64_store_clean versions_clean member_clean)
  have "length w \<le> 11 + (21 + 1)"
    unfolding w_def rina_messages_enrollmentInformation_t_msg_def enrollmentInformation_struct_def by_fields
    using u64_wire_length[of "sub_wire (static_field OPTIONAL UINT64 1)" 1 "pb_ei_address p"]
      str_wire_short[OF assms(1), of "sub_wire (static_field OPTIONAL (STRING 20) 4)" 20 4]
    by (simp add: tag_lengths)
  then show "nanopb_enc_enroll p = Some w"
    using buffer_encode_wire(1)[OF enrollmentInformation_ok ok cl]
    by (simp add: nanopb_enc_enroll_def w_def PB_MTU_def)
  show "nanopb_dec_enroll w = Some p"
    using buffer_decode_wire[OF enrollmentInformation_ok ok cl] assms(2)
    by (simp add: nanopb_dec_enroll_def w_def struct_enrollmentInformation_def enrollmentInformation_struct_def
        store_u64_store store_members)
qed

text \<open>Without members nothing is written, and only then.\<close>

lemma nanopb_enroll_empty:
  assumes "pb_ei_token p = None"
  shows "nanopb_enc_enroll p = Some [] \<longleftrightarrow> pb_ei_address p = None"
proof -
  let ?n = "\<lparr> pb_ei_address = None, pb_ei_token = None \<rparr>"
  have "wire rina_messages_enrollmentInformation_t_msg (enrollmentInformation_struct ?n) = []"
    unfolding rina_messages_enrollmentInformation_t_msg_def enrollmentInformation_struct_def
    by (simp add: u64_store_def int_store_def str_store_def field_defs)
  then have n: "nanopb_enc_enroll ?n = Some []" "nanopb_dec_enroll [] = Some ?n"
    using nanopb_enroll[of ?n] by simp_all
  obtain w where w: "nanopb_enc_enroll p = Some w" "nanopb_dec_enroll w = Some p"
    using nanopb_enroll[of p] assms by simp
  show ?thesis
  proof
    assume "nanopb_enc_enroll p = Some []"
    then have "p = ?n" using w n by simp
    then show "pb_ei_address p = None" by simp
  next
    assume "pb_ei_address p = None"
    then have "p = ?n" using assms by simp
    then show "nanopb_enc_enroll p = Some []" using n by simp
  qed
qed

lemma nanopb_neighbor:
  assumes "list_all (fits 19) [pb_nb_apname p, pb_nb_apinstance p, pb_nb_aename p, pb_nb_aeinstance p]"
    "list_all no_nul [pb_nb_apname p, pb_nb_apinstance p, pb_nb_aename p, pb_nb_aeinstance p]"
  defines "w \<equiv> wire rina_messages_neighbor_t_msg (neighbor_struct p)"
  shows "nanopb_enc_neighbor p = Some w" "nanopb_dec_neighbor w = Some p"
proof -
  have ok: "struct_ok rina_messages_neighbor_t_msg (neighbor_struct p)"
    using assms(1) unfolding rina_messages_neighbor_t_msg_def neighbor_struct_def by_fields
    by (simp del: store_ok.simps add: u64_store_ok no_difs member_ok)
  have cl: "clean rina_messages_neighbor_t_msg (neighbor_struct p)"
    using assms(2) unfolding rina_messages_neighbor_t_msg_def neighbor_struct_def clean_fields
    by (simp del: clean_store.simps zero_store.simps add: u64_store_clean versions_clean member_clean)
  have s: "length (wire_field w (static_field OPTIONAL (STRING 20) t) (str_store q)) \<le> 21"
    if "fits 19 q" "t < 15" for w t q
    using str_wire_short[OF that(1), of w 20 t] that(2) by (simp add: tag_lengths)
  have u: "length (wire_field w (static_field OPTIONAL UINT64 5) (u64_store q)) \<le> 11" for w q
    using u64_wire_length[of w 5 q] by (simp add: tag_lengths)
  have r: "length (wire_field w f (Pb_Repeated [])) \<le> 0" for w f by simp
  have "length w \<le> 21 + (21 + (21 + (21 + (11 + 0))))"
    unfolding w_def rina_messages_neighbor_t_msg_def neighbor_struct_def by_fields
      list.map wire_fields.simps append_Nil2 length_append
    by (intro add_mono s u r) (use assms(1) in simp_all)
  then show "nanopb_enc_neighbor p = Some w"
    using buffer_encode_wire(1)[OF neighbor_ok ok cl]
    by (simp add: nanopb_enc_neighbor_def w_def PB_MTU_def)
  show "nanopb_dec_neighbor w = Some p"
    using buffer_decode_wire[OF neighbor_ok ok cl] assms(2)
    by (simp add: nanopb_dec_neighbor_def w_def struct_neighbor_def neighbor_struct_def
        store_u64_store store_members)
qed

section \<open>Properties\<close>

text \<open>C4: A CDAP message goes through the bytes nanopb writes and reads: whatever the strings, integers and
  object value of a message of the C types, its bytes are read as the message (with the receiver's memory
  in the fields that were left out); encoding succeeds exactly when they fit the buffer of 512
  bytes, and they do whenever the object value has at most 100 bytes.\<close>

theorem cdap_on_wire:
  assumes "prvRibdSerToRinaMessage m = Some p" "c_message m"
  shows "\<exists>bytes. prvRibdDecodeCDAP nanopb_dec_cdap junk bytes = Some (received junk m)
    \<and> prvRibdEncodeCDAP nanopb_enc_cdap True (Some m) = Some (if length bytes \<le> CDAP_BUFFER then Some bytes else None)
    \<and> (fits 100 (pxObjValue m) \<longrightarrow> length bytes \<le> CDAP_BUFFER)"
proof (intro exI conjI impI)
  let ?w = "wire rina_messages_CDAPMessage_msg (CDAPMessage_struct p)"
  note fit = ser_fits[OF assms] and codec = nanopb_cdap[OF ser_fits[OF assms]]
  show "prvRibdDecodeCDAP nanopb_dec_cdap junk ?w = Some (received junk m)"
    by (simp add: prvRibdDecodeCDAP_def codec(2) fill_decode[OF assms(1)])
  show "prvRibdEncodeCDAP nanopb_enc_cdap True (Some m) = Some (if length ?w \<le> CDAP_BUFFER then Some ?w else None)"
    by (simp add: prvRibdEncodeCDAP_def assms(1) codec(1))
  show "length ?w \<le> CDAP_BUFFER" if "fits 100 (pxObjValue m)"
    using cdap_wire_length[OF fit(1)] that by (simp add: ser_explicit(2)[OF assms(1)])
qed

lemma start_msg_c: "c_message start_msg" "fits 100 (pxObjValue start_msg)"
  by (simp_all add: start_msg_def prvRibdFillEnrollMsg_def prvRibMessageCdapInit_def mgmt_name_def c_message_def
      Let_def signed_range_def name_no_nul_def no_nul_def fits_def)

lemma cdap_on_wire_witness:
  "\<exists>bytes. prvRibdEncodeCDAP nanopb_enc_cdap True (Some start_msg) = Some (Some bytes)
     \<and> prvRibdDecodeCDAP nanopb_dec_cdap prvRibMessageCdapInit bytes = Some (received prvRibMessageCdapInit start_msg)"
proof -
  obtain p where "prvRibdSerToRinaMessage start_msg = Some p"
    by (simp add: start_msg_def prvRibdFillEnrollMsg_def prvRibMessageCdapInit_def mgmt_name_def
        prvRibdSerToRinaMessage_def strcpy_arr_def memcpy_arr_def fill_auth_def Let_def)
  from cdap_on_wire[OF this start_msg_c(1), of prvRibMessageCdapInit] start_msg_c(2) show ?thesis by auto
qed

text \<open>C21: Whatever bytes arrive as a CDAP message, the decoder ends without reading outside them
  or writing outside a member of the structure, and what it accepts fits the arrays and the integers of
  the structure, with every string ended inside its array.\<close>

theorem cdap_any_bytes:
  "pb_decode (pb_istream_from_buffer bytes (length bytes)) rina_messages_CDAPMessage_msg st \<noteq> Undef
   \<and> (case nanopb_dec_cdap bytes of None \<Rightarrow> True | Some p \<Rightarrow> cdap_fits p \<and> cdap_no_nul p)"
proof
  show "pb_decode (pb_istream_from_buffer bytes (length bytes)) rina_messages_CDAPMessage_msg st \<noteq> Undef"
    by (rule pb_decode_yields(1)[OF CDAPMessage_ok]) simp
  show "case nanopb_dec_cdap bytes of None \<Rightarrow> True | Some p \<Rightarrow> cdap_fits p \<and> cdap_no_nul p"
    using pb_decode_yields(2)[OF CDAPMessage_ok order_refl]
    by (auto simp: nanopb_dec_cdap_def buffer_decode_def struct_read_fits split: option.split pb.splits)
qed

text \<open>C22: An address other than 0 arrives: the encoder never reports an error, and decoding its bytes
  gives the address.  The address 0 is not encoded, so that the receiver finds what its fresh memory
  held.  Without memory for the buffer, when there is something to write, or for the structure the
  code follows a NULL pointer.\<close>

theorem enrollment_on_wire:
  "\<exists>bytes. pxSerdesMsgEnrollmentEncode mem nanopb_enc_enroll m =
      (if (mem 0 \<or> em_ullAddress m = 0) \<and> mem 1 then Some (Some bytes) else None)
    \<and> pxSerdesMsgEnrollmentDecode nanopb_dec_enroll junk bytes =
        Some (junk \<lparr> em_ullAddress := (if 0 < em_ullAddress m then em_ullAddress m else em_ullAddress junk) \<rparr>)"
proof -
  let ?p = "\<lparr> pb_ei_address = (if em_ullAddress m > 0 then Some (em_ullAddress m) else None), pb_ei_token = None \<rparr>"
  obtain w where w: "nanopb_enc_enroll ?p = Some w" "nanopb_dec_enroll w = Some ?p"
    using nanopb_enroll[of ?p] by auto
  moreover have "w = [] \<longleftrightarrow> em_ullAddress m = 0"
    using nanopb_enroll_empty[of ?p] w(1) by (simp add: word_gt_0)
  ultimately show ?thesis
    by (intro exI[of _ w]) (auto simp: pxSerdesMsgEnrollmentEncode_def ser_value_def pxSerdesMsgEnrollmentDecode_def
        prvSerdesMsgDecodeEnrollment_def word_gt_0)
qed

text \<open>The names of a neighbour arrive.\<close>

lemma neighbor_on_wire:
  assumes "prvSerdesMsgEncodeNeighbor m = Some p"
    "list_all no_nul [nm_pcApName m, nm_pcApInstance m, nm_pcAeName m, nm_pcAeInstance m]"
  shows "\<exists>bytes. pxSerdesMsgNeighborEncode (\<lambda>_. True) nanopb_enc_neighbor m = Some (Some bytes)
    \<and> pxserdesMsgDecodeNeighbor nanopb_dec_neighbor junk bytes = Some (prvSerdesMsgDecodeNeighbor junk p)"
proof -
  have "list_all (fits 19) [pb_nb_apname p, pb_nb_apinstance p, pb_nb_aename p, pb_nb_aeinstance p]"
    "list_all no_nul [pb_nb_apname p, pb_nb_apinstance p, pb_nb_aename p, pb_nb_aeinstance p]"
    using assms unfolding prvSerdesMsgEncodeNeighbor_def
    by (auto simp: strcpy_arr_fits split: if_splits)
  from nanopb_neighbor[OF this] show ?thesis
    using assms(1) by (simp add: pxSerdesMsgNeighborEncode_def ser_value_def pxserdesMsgDecodeNeighbor_def)
qed

end
