(* ===== verification/Pb_Flow.thy ===== *)
theory Pb_Flow
  imports Pb_Cdap Flow_Allocator
begin

text \<open>
  The flow messages on the wire: the structure \<open>Flow\<close> of \<open>Flow_Allocator\<close> laid out as the stores of
  \<open>rina_messages_Flow_msg\<close>, and nanopb as its encoder and decoder.  The fields that the code never fills or
  reads stay clear; the policy set is one of them, because its flag is never set.
\<close>

section \<open>The structure\<close>

definition u32_store :: "u32 option \<Rightarrow> pb_store" where
  "u32_store p = int_store (map_option uint p)"

definition bool_store :: "bool option \<Rightarrow> pb_store" where
  "bool_store p = Pb_Optional (p \<noteq> None) (Pb_Bool (case p of None \<Rightarrow> False | Some b \<Rightarrow> b))"

definition struct_store :: "pb_msgdesc_t \<Rightarrow> pb_store list option \<Rightarrow> pb_store" where
  "struct_store m p = Pb_Optional (p \<noteq> None) (Pb_Struct (case p of None \<Rightarrow> pb_zero m | Some sts \<Rightarrow> sts))"

definition store_u32 :: "pb_store \<Rightarrow> u32 option" where
  "store_u32 st = map_option word_of_int (store_int st)"

text \<open>Members whether or not they are there.\<close>

fun member_int :: "pb_store \<Rightarrow> int" where
  "member_int (Pb_Required (Pb_Int v)) = v"
| "member_int (Pb_Optional has (Pb_Int v)) = v"
| "member_int st = 0"

fun member_bool :: "pb_store \<Rightarrow> bool" where
  "member_bool (Pb_Optional has (Pb_Bool b)) = b"
| "member_bool st = False"

fun member_str :: "pb_store \<Rightarrow> string" where
  "member_str (Pb_Required (Pb_String b)) = uncstr b"
| "member_str (Pb_Optional has (Pb_String b)) = uncstr b"
| "member_str st = ''''"

fun member_struct :: "pb_store \<Rightarrow> pb_store list" where
  "member_struct (Pb_Required (Pb_Struct sts)) = sts"
| "member_struct st = []"

definition naming_struct :: "string \<Rightarrow> string option \<Rightarrow> string option \<Rightarrow> string option \<Rightarrow> pb_store list" where
  "naming_struct apn api aen aei =
     [Pb_Required (Pb_String (cstr apn)), str_store api, str_store aen, str_store aei]"

definition connectionId_struct :: "Flow \<Rightarrow> pb_store list" where
  "connectionId_struct p = [u32_store (pf_qosId p), u32_store (pf_sourceCEPId p), u32_store (pf_destinationCEPId p)]"

definition qos_struct :: "u32 \<times> string \<times> bool \<times> bool \<Rightarrow> pb_store list" where
  "qos_struct q =
     (case q of (qid, nm, partial, ord) \<Rightarrow>
        [str_store (Some nm), u32_store (Some qid), int_store None, int_store None, int_store None, int_store None,
         int_store None, bool_store (Some partial), bool_store (Some ord), int_store None, int_store None,
         int_store None, Pb_Callback, bool_store None, int_store None])"

definition dtpConfig_struct :: "bool \<times> u32 \<Rightarrow> pb_store list" where
  "dtpConfig_struct d =
     (case d of (dtcp, timer) \<Rightarrow>
        [bool_store (Some dtcp), struct_store rina_messages_policyDescriptor_t_msg None,
         struct_store rina_messages_policyDescriptor_t_msg None, struct_store rina_messages_policyDescriptor_t_msg None,
         int_store None, u32_store (Some timer), struct_store rina_messages_policyDescriptor_t_msg None])"

definition Flow_struct :: "Flow \<Rightarrow> pb_store list" where
  "Flow_struct p =
     [Pb_Required (Pb_Struct (naming_struct (pf_srcApName p) (pf_srcApInst p) (pf_srcAEName p) (pf_srcAEInst p))),
      Pb_Required (Pb_Struct (naming_struct (pf_dstApName p) (pf_dstApInst p) (pf_dstAEName p) (pf_dstAEInst p))),
      Pb_Required (Pb_Int (uint (pf_sourcePortId p))), u64_store (pf_destinationPortId p),
      Pb_Required (Pb_Int (uint (pf_sourceAddress p))), u64_store (pf_destinationAddress p),
      Pb_Repeated (if pf_connectionIds_count p = 0 then [] else [Pb_Struct (connectionId_struct p)]),
      int_store None, int_store None,
      struct_store rina_messages_qosSpecification_t_msg (map_option qos_struct (pf_qos p)),
      struct_store rina_messages_dtpConfig_t_msg (map_option dtpConfig_struct (pf_dtpConfig p)),
      struct_store rina_messages_dtcpConfig_t_msg None, Pb_Callback, int_store None, int_store None,
      u32_store (pf_hopCount p)]"

fun first_struct :: "pb_store \<Rightarrow> pb_store list" where
  "first_struct (Pb_Repeated (Pb_Struct sts # ds)) = sts"
| "first_struct st = [u32_store None, u32_store None, u32_store None]"

fun store_count :: "pb_store \<Rightarrow> nat" where
  "store_count (Pb_Repeated ds) = length ds"
| "store_count st = 0"

definition struct_Flow :: "pb_store list \<Rightarrow> Flow" where
  "struct_Flow sts =
     (let src = member_struct (sts ! 0); dst = member_struct (sts ! 1); ids = first_struct (sts ! 6)
      in \<lparr> pf_srcApName = member_str (src ! 0), pf_srcApInst = store_str (src ! 1),
           pf_srcAEName = store_str (src ! 2), pf_srcAEInst = store_str (src ! 3),
           pf_dstApName = member_str (dst ! 0), pf_dstApInst = store_str (dst ! 1),
           pf_dstAEName = store_str (dst ! 2), pf_dstAEInst = store_str (dst ! 3),
           pf_sourcePortId = word_of_int (member_int (sts ! 2)), pf_destinationPortId = store_u64 (sts ! 3),
           pf_sourceAddress = word_of_int (member_int (sts ! 4)), pf_destinationAddress = store_u64 (sts ! 5),
           pf_connectionIds_count = store_count (sts ! 6),
           pf_sourceCEPId = store_u32 (ids ! 1), pf_destinationCEPId = store_u32 (ids ! 2), pf_qosId = store_u32 (ids ! 0),
           pf_hopCount = store_u32 (sts ! 15),
           pf_qos = map_option (\<lambda>q. (word_of_int (member_int (q ! 1)), member_str (q ! 0),
                       member_bool (q ! 7), member_bool (q ! 8))) (store_struct (sts ! 9)),
           pf_dtpConfig = map_option (\<lambda>d. (member_bool (d ! 0), word_of_int (member_int (d ! 5))))
                            (store_struct (sts ! 10)),
           pf_dtppolicyset = (case store_struct (sts ! 10) of None \<Rightarrow> None
              | Some d \<Rightarrow> map_option (\<lambda>s. (member_str (s ! 0), member_str (s ! 2))) (store_struct (d ! 6))) \<rparr>)"

definition nanopb_enc_flow :: "nat \<Rightarrow> Flow \<Rightarrow> u8 list option" where
  "nanopb_enc_flow n p = buffer_encode n rina_messages_Flow_msg (Flow_struct p)"

definition nanopb_dec_flow :: "u8 list \<Rightarrow> Flow option" where
  "nanopb_dec_flow bytes = map_option struct_Flow (buffer_decode rina_messages_Flow_msg bytes)"

section \<open>The structure has its type and can be told from its bytes\<close>

lemma u32_store_ok: "store_ok ok (static_field OPTIONAL UINT32 t) (u32_store p)"
  using uint_bounded[of "the p"]
  by (cases p) (simp_all add: u32_store_def int_store_def field_defs data_ok_def unsigned_range_def)

lemma bool_store_ok: "store_ok ok (static_field OPTIONAL BOOL t) (bool_store p)"
  by (simp add: bool_store_def field_defs data_ok_def)

lemma absent_ok:
  "store_ok ok (static_field OPTIONAL UINT32 t) (int_store None)"
  "store_ok ok (static_field OPTIONAL UINT64 t) (int_store None)"
  "store_ok ok (static_field OPTIONAL DOUBLE t) (int_store None)"
  by (simp_all add: int_store_def field_defs data_ok_def unsigned_range_def)

lemma struct_store_ok:
  assumes "desc_ok m" "\<And>sts. p = Some sts \<Longrightarrow> struct_ok m sts"
  shows "store_ok (sub_ok (static_field OPTIONAL (MESSAGE m) t)) (static_field OPTIONAL (MESSAGE m) t) (struct_store m p)"
  using assms unfolding struct_store_def
  by (cases p) (auto intro!: message_ok pb_zero_ok simp del: store_ok.simps)

lemma required_ok:
  "length s < n \<Longrightarrow> store_ok ok (static_field REQUIRED (STRING n) t) (Pb_Required (Pb_String (cstr s)))"
  "struct_ok m src \<Longrightarrow> store_ok (sub_ok (static_field REQUIRED (MESSAGE m) t)) (static_field REQUIRED (MESSAGE m) t)
     (Pb_Required (Pb_Struct src))"
  "store_ok ok (static_field REQUIRED UINT64 t) (Pb_Required (Pb_Int (uint (v :: u64))))"
  using uint_bounded[of v] by (simp_all add: field_defs data_ok_def sub_ok_def unsigned_range_def)

lemma ids_ok:
  "struct_ok m src \<Longrightarrow> store_ok (sub_ok (static_field REPEATED (MESSAGE m) t)) (static_field REPEATED (MESSAGE m) t)
     (Pb_Repeated (if c then [] else [Pb_Struct src]))"
  by (simp add: field_defs data_ok_def sub_ok_def)

lemmas flow_member_ok = u32_store_ok u64_store_ok bool_store_ok absent_ok required_ok ids_ok member_ok

lemma u32_store_clean: "clean_store cl w (zero_store (static_field OPTIONAL UINT32 t, z)) (u32_store p)"
  by (cases p) (simp_all add: u32_store_def int_store_def field_defs)

lemma bool_store_clean: "clean_store cl w (zero_store (static_field OPTIONAL BOOL t, z)) (bool_store p)"
  by (cases p) (simp_all add: bool_store_def field_defs)

lemma absent_clean:
  "clean_store cl w (zero_store (static_field OPTIONAL UINT32 t, z)) (int_store None)"
  "clean_store cl w (zero_store (static_field OPTIONAL UINT64 t, z)) (int_store None)"
  "clean_store cl w (zero_store (static_field OPTIONAL DOUBLE t, z)) (int_store None)"
  by (simp_all add: int_store_def field_defs)

lemma required_str_clean: "CHR 0x00 \<notin> set s \<Longrightarrow> clean_store cl w z (Pb_Required (Pb_String (cstr s)))"
  by (simp add: cstr_no_zero)

lemma required_struct_clean:
  "clean m src \<Longrightarrow> length (wire m src) < 2 ^ 32 \<Longrightarrow>
   clean_store (sub_clean (static_field REQUIRED (MESSAGE m) t)) (sub_wire (static_field REQUIRED (MESSAGE m) t)) z
     (Pb_Required (Pb_Struct src))"
  by (simp add: field_defs sub_clean_def sub_wire_def)

lemma ids_clean:
  "clean m src \<Longrightarrow> length (wire m src) < 2 ^ 32 \<Longrightarrow>
   clean_store (sub_clean (static_field REPEATED (MESSAGE m) t)) (sub_wire (static_field REPEATED (MESSAGE m) t)) z
     (Pb_Repeated (if c then [] else [Pb_Struct src]))"
  by (simp add: field_defs sub_clean_def sub_wire_def)

lemma struct_store_clean:
  assumes "\<And>sts. p = Some sts \<Longrightarrow> clean m sts \<and> length (wire m sts) < 2 ^ 32"
  shows "clean_store (sub_clean (static_field OPTIONAL (MESSAGE m) t)) (sub_wire (static_field OPTIONAL (MESSAGE m) t))
    (zero_store (static_field OPTIONAL (MESSAGE m) t, sub_zero (static_field OPTIONAL (MESSAGE m) t))) (struct_store m p)"
  using assms
  by (cases p) (simp_all add: struct_store_def field_defs sub_clean_def sub_wire_def sub_zero_def)

lemmas flow_member_clean = u32_store_clean u64_store_clean bool_store_clean absent_clean required_str_clean
  required_struct_clean ids_clean struct_store_clean member_clean

section \<open>Lengths\<close>

lemma u32_wire_length:
  "length (wire_field w (static_field OPTIONAL UINT32 t) (u32_store p)) \<le> length (varint (8 * t)) + 10"
  by (cases p)
    (simp_all add: u32_store_def int_store_def field_defs wire_basic_def tag_bytes_def payload_def varint_word)

lemma bool_wire_length:
  "length (wire_field w (static_field OPTIONAL BOOL t) (bool_store p)) \<le> length (varint (8 * t)) + 1"
  by (cases p)
    (simp_all add: bool_store_def field_defs wire_basic_def tag_bytes_def payload_def varint_small)

lemma absent_struct_wire:
  "wire_field w (static_field OPTIONAL (MESSAGE m) t) (struct_store m None) = []"
  "wire_field w (static_field OPTIONAL BOOL t) (bool_store None) = []"
  by (simp_all add: struct_store_def bool_store_def)

lemma required_wire_length:
  "length s < 20 \<Longrightarrow> length (wire_field w (static_field REQUIRED (STRING 20) 1) (Pb_Required (Pb_String (cstr s)))) \<le> 21"
  "length (wire_field w (static_field REQUIRED UINT64 t) (Pb_Required (Pb_Int (uint (v :: u64))))) \<le> length (varint (8 * t)) + 10"
  by (simp_all add: field_defs wire_basic_def tag_bytes_def payload_def tag_lengths varint_word)

text \<open>A submessage of less than 128 bytes in a field of number at most 15.\<close>

lemma sub_wire_length:
  assumes "length (wire m src) \<le> n" "n < 128" "t < 16"
  shows
    "length (wire_field (sub_wire (static_field REQUIRED (MESSAGE m) t)) (static_field REQUIRED (MESSAGE m) t)
       (Pb_Required (Pb_Struct src))) \<le> n + 2"
    "length (wire_field (sub_wire (static_field REPEATED (MESSAGE m) t)) (static_field REPEATED (MESSAGE m) t)
       (Pb_Repeated (if c then [] else [Pb_Struct src]))) \<le> n + 2"
  using assms by (simp_all add: field_defs wire_basic_def tag_bytes_def payload_def sub_wire_def tag_lengths)

lemma opt_wire_length:
  assumes "\<And>src. p = Some src \<Longrightarrow> length (wire m src) \<le> n" "n < 128" "t < 15"
  shows "length (wire_field (sub_wire (static_field OPTIONAL (MESSAGE m) t)) (static_field OPTIONAL (MESSAGE m) t)
       (struct_store m p)) \<le> n + 2"
  using assms
  by (cases p) (simp_all add: struct_store_def field_defs wire_basic_def tag_bytes_def payload_def sub_wire_def tag_lengths)

section \<open>The parts of a flow\<close>

text \<open>A flow whose strings fit their arrays and hold no NUL, and whose absent parts are clear.\<close>

definition flow_fits :: "Flow \<Rightarrow> bool" where
  "flow_fits p \<longleftrightarrow>
     length (pf_srcApName p) < 20 \<and> length (pf_dstApName p) < 20
     \<and> list_all (fits 19) [pf_srcApInst p, pf_srcAEName p, pf_srcAEInst p, pf_dstApInst p, pf_dstAEName p, pf_dstAEInst p]
     \<and> fits 19 (map_option (\<lambda>(_, nm, _). nm) (pf_qos p))
     \<and> pf_connectionIds_count p = 1 \<and> pf_dtppolicyset p = None"

definition flow_no_nul :: "Flow \<Rightarrow> bool" where
  "flow_no_nul p \<longleftrightarrow>
     list_all no_nul [Some (pf_srcApName p), Some (pf_dstApName p), pf_srcApInst p, pf_srcAEName p, pf_srcAEInst p,
       pf_dstApInst p, pf_dstAEName p, pf_dstAEInst p, map_option (\<lambda>(_, nm, _). nm) (pf_qos p)]"

lemma fits_Some [simp]: "fits n (Some s) \<longleftrightarrow> length s \<le> n"
  by (simp add: fits_def)

lemma no_nul_Some [simp]: "no_nul (Some s) \<longleftrightarrow> CHR 0x00 \<notin> set s"
  by (simp add: no_nul_def)

lemma naming_struct_ok:
  assumes "length apn < 20" "list_all (fits 19) [api, aen, aei]"
  shows "struct_ok rina_messages_applicationProcessNamingInfo_t_msg (naming_struct apn api aen aei)"
    "length (wire rina_messages_applicationProcessNamingInfo_t_msg (naming_struct apn api aen aei)) \<le> 84"
proof -
  show "struct_ok rina_messages_applicationProcessNamingInfo_t_msg (naming_struct apn api aen aei)"
    using assms unfolding rina_messages_applicationProcessNamingInfo_t_msg_def naming_struct_def by_fields
    by (simp del: store_ok.simps add: flow_member_ok)
  have s: "length (wire_field w (static_field OPTIONAL (STRING 20) t) (str_store q)) \<le> 21"
    if "fits 19 q" "t < 15" for w t q
    using str_wire_short[OF that(1), of w 20 t] that(2) by (simp add: tag_lengths)
  have "length (wire rina_messages_applicationProcessNamingInfo_t_msg (naming_struct apn api aen aei))
      \<le> 21 + (21 + (21 + 21))"
    unfolding rina_messages_applicationProcessNamingInfo_t_msg_def naming_struct_def by_fields
      list.map wire_fields.simps append_Nil2 length_append
    by (intro add_mono s required_wire_length) (use assms in simp_all)
  then show "length (wire rina_messages_applicationProcessNamingInfo_t_msg (naming_struct apn api aen aei)) \<le> 84"
    by simp
qed

lemma naming_struct_clean:
  "CHR 0x00 \<notin> set apn \<Longrightarrow> list_all no_nul [api, aen, aei] \<Longrightarrow>
   clean rina_messages_applicationProcessNamingInfo_t_msg (naming_struct apn api aen aei)"
  unfolding rina_messages_applicationProcessNamingInfo_t_msg_def naming_struct_def clean_fields
  by (simp del: clean_store.simps zero_store.simps add: flow_member_clean)

lemma connectionId_struct_ok:
  "struct_ok rina_messages_connectionId_t_msg (connectionId_struct p)"
  "clean rina_messages_connectionId_t_msg (connectionId_struct p)"
  "length (wire rina_messages_connectionId_t_msg (connectionId_struct p)) \<le> 33"
proof -
  show "struct_ok rina_messages_connectionId_t_msg (connectionId_struct p)"
    unfolding rina_messages_connectionId_t_msg_def connectionId_struct_def by_fields
    by (simp del: store_ok.simps add: flow_member_ok)
  show "clean rina_messages_connectionId_t_msg (connectionId_struct p)"
    unfolding rina_messages_connectionId_t_msg_def connectionId_struct_def clean_fields
    by (simp del: clean_store.simps zero_store.simps add: flow_member_clean)
  have u: "length (wire_field w (static_field OPTIONAL UINT32 t) (u32_store q)) \<le> 11" if "t < 16" for w t q
    using u32_wire_length[of w t q] that by (simp add: tag_lengths)
  have "length (wire rina_messages_connectionId_t_msg (connectionId_struct p)) \<le> 11 + (11 + 11)"
    unfolding rina_messages_connectionId_t_msg_def connectionId_struct_def by_fields
      list.map wire_fields.simps append_Nil2 length_append
    by (intro add_mono u) simp_all
  then show "length (wire rina_messages_connectionId_t_msg (connectionId_struct p)) \<le> 33" by simp
qed

lemma qos_struct_ok:
  assumes "q = (qid, nm, partial, ord)" "length nm \<le> 19"
  shows "struct_ok rina_messages_qosSpecification_t_msg (qos_struct q)"
    "length (wire rina_messages_qosSpecification_t_msg (qos_struct q)) \<le> 36"
proof -
  show "struct_ok rina_messages_qosSpecification_t_msg (qos_struct q)"
    using assms(2) unfolding rina_messages_qosSpecification_t_msg_def qos_struct_def assms(1) prod.case by_fields
    by (simp del: store_ok.simps add: flow_member_ok)
  have u: "length (wire_field w (static_field OPTIONAL UINT32 t) (u32_store q)) \<le> 11" if "t < 16" for w t q
    using u32_wire_length[of w t q] that by (simp add: tag_lengths)
  have b: "length (wire_field w (static_field OPTIONAL BOOL t) (bool_store q)) \<le> 2" if "t < 16" for w t q
    using bool_wire_length[of w t q] that by (simp add: tag_lengths)
  have s: "length (wire_field w (static_field OPTIONAL (STRING 20) 1) (str_store (Some nm))) \<le> 21" for w
    using str_wire_short[of 19 "Some nm" w 20 1] assms(2) by (simp add: tag_lengths)
  have c: "wire_field w (callback_field h ty t) Pb_Callback = []" for w h ty t by simp
  have "length (wire rina_messages_qosSpecification_t_msg (qos_struct q)) \<le> 21 + (11 + (2 + 2))"
    unfolding rina_messages_qosSpecification_t_msg_def qos_struct_def assms(1) prod.case by_fields
      list.map wire_fields.simps absent_wire absent_struct_wire c append_Nil append_Nil2 length_append
    by (intro add_mono s u b) simp_all
  then show "length (wire rina_messages_qosSpecification_t_msg (qos_struct q)) \<le> 36" by simp
qed

lemma qos_struct_clean:
  "q = (qid, nm, partial, ord) \<Longrightarrow> CHR 0x00 \<notin> set nm \<Longrightarrow>
   clean rina_messages_qosSpecification_t_msg (qos_struct q)"
  unfolding rina_messages_qosSpecification_t_msg_def qos_struct_def clean_fields
  by (simp del: clean_store.simps zero_store.simps add: flow_member_clean)

lemma struct_none_ok:
  "desc_ok m \<Longrightarrow> store_ok (sub_ok (static_field OPTIONAL (MESSAGE m) t)) (static_field OPTIONAL (MESSAGE m) t)
     (struct_store m None)"
  by (rule struct_store_ok) simp_all

lemma struct_none_clean:
  "clean_store (sub_clean (static_field OPTIONAL (MESSAGE m) t)) (sub_wire (static_field OPTIONAL (MESSAGE m) t))
    (zero_store (static_field OPTIONAL (MESSAGE m) t, sub_zero (static_field OPTIONAL (MESSAGE m) t)))
    (struct_store m None)"
  by (rule struct_store_clean) simp_all

lemma dtpConfig_struct_ok:
  "struct_ok rina_messages_dtpConfig_t_msg (dtpConfig_struct d)"
  "clean rina_messages_dtpConfig_t_msg (dtpConfig_struct d)"
  "length (wire rina_messages_dtpConfig_t_msg (dtpConfig_struct d)) \<le> 13"
proof -
  obtain c t where d: "d = (c, t)" by (cases d)
  show "struct_ok rina_messages_dtpConfig_t_msg (dtpConfig_struct d)"
    unfolding rina_messages_dtpConfig_t_msg_def dtpConfig_struct_def d prod.case by_fields
    by (simp del: store_ok.simps add: flow_member_ok struct_none_ok policyDescriptor_ok)
  show "clean rina_messages_dtpConfig_t_msg (dtpConfig_struct d)"
    unfolding rina_messages_dtpConfig_t_msg_def dtpConfig_struct_def d prod.case clean_fields
    by (simp del: clean_store.simps zero_store.simps add: flow_member_clean struct_none_clean)
  have u: "length (wire_field w (static_field OPTIONAL UINT32 7) (u32_store q)) \<le> 11" for w q
    using u32_wire_length[of w 7 q] by (simp add: tag_lengths)
  have b: "length (wire_field w (static_field OPTIONAL BOOL 1) (bool_store q)) \<le> 2" for w q
    using bool_wire_length[of w 1 q] by (simp add: tag_lengths)
  have "length (wire rina_messages_dtpConfig_t_msg (dtpConfig_struct d)) \<le> 2 + 11"
    unfolding rina_messages_dtpConfig_t_msg_def dtpConfig_struct_def d prod.case by_fields
      list.map wire_fields.simps absent_wire absent_struct_wire append_Nil append_Nil2 length_append
    by (intro add_mono u b)
  then show "length (wire rina_messages_dtpConfig_t_msg (dtpConfig_struct d)) \<le> 13" by simp
qed

section \<open>Flows\<close>

lemma flow_struct_ok: "flow_fits p \<Longrightarrow> struct_ok rina_messages_Flow_msg (Flow_struct p)"
proof -
  assume p: "flow_fits p"
  have n: "struct_ok rina_messages_applicationProcessNamingInfo_t_msg
        (naming_struct (pf_srcApName p) (pf_srcApInst p) (pf_srcAEName p) (pf_srcAEInst p))"
      "struct_ok rina_messages_applicationProcessNamingInfo_t_msg
        (naming_struct (pf_dstApName p) (pf_dstApInst p) (pf_dstAEName p) (pf_dstAEInst p))"
    using p by (simp_all add: flow_fits_def naming_struct_ok)
  have q: "store_ok (sub_ok (static_field OPTIONAL (MESSAGE rina_messages_qosSpecification_t_msg) 10))
      (static_field OPTIONAL (MESSAGE rina_messages_qosSpecification_t_msg) 10)
      (struct_store rina_messages_qosSpecification_t_msg (map_option qos_struct (pf_qos p)))"
    by (rule struct_store_ok[OF qosSpecification_ok])
      (use p qos_struct_ok(1) in \<open>auto simp: flow_fits_def split_beta\<close>)
  have d: "store_ok (sub_ok (static_field OPTIONAL (MESSAGE rina_messages_dtpConfig_t_msg) 12))
      (static_field OPTIONAL (MESSAGE rina_messages_dtpConfig_t_msg) 12)
      (struct_store rina_messages_dtpConfig_t_msg (map_option dtpConfig_struct (pf_dtpConfig p)))"
    by (rule struct_store_ok[OF dtpConfig_ok]) (auto simp: dtpConfig_struct_ok)
  show ?thesis
    unfolding rina_messages_Flow_msg_def Flow_struct_def by_fields
    by (simp del: store_ok.simps
        add: n q d flow_member_ok connectionId_struct_ok struct_none_ok dtcpConfig_ok)
qed

lemma flow_struct_clean:
  "flow_fits p \<Longrightarrow> flow_no_nul p \<Longrightarrow> clean rina_messages_Flow_msg (Flow_struct p)"
proof -
  assume p: "flow_fits p" "flow_no_nul p"
  have n: "clean rina_messages_applicationProcessNamingInfo_t_msg
        (naming_struct (pf_srcApName p) (pf_srcApInst p) (pf_srcAEName p) (pf_srcAEInst p))"
      "clean rina_messages_applicationProcessNamingInfo_t_msg
        (naming_struct (pf_dstApName p) (pf_dstApInst p) (pf_dstAEName p) (pf_dstAEInst p))"
    using p(2) by (simp_all add: flow_no_nul_def naming_struct_clean)
  have l: "length (wire rina_messages_applicationProcessNamingInfo_t_msg
        (naming_struct (pf_srcApName p) (pf_srcApInst p) (pf_srcAEName p) (pf_srcAEInst p))) < 2 ^ 32"
      "length (wire rina_messages_applicationProcessNamingInfo_t_msg
        (naming_struct (pf_dstApName p) (pf_dstApInst p) (pf_dstAEName p) (pf_dstAEInst p))) < 2 ^ 32"
      "length (wire rina_messages_connectionId_t_msg (connectionId_struct p)) < 2 ^ 32"
    using p(1) naming_struct_ok(2)[of "pf_srcApName p" "pf_srcApInst p" "pf_srcAEName p" "pf_srcAEInst p"]
      naming_struct_ok(2)[of "pf_dstApName p" "pf_dstApInst p" "pf_dstAEName p" "pf_dstAEInst p"]
      connectionId_struct_ok(3)[of p]
    by (simp_all add: flow_fits_def)
  have q: "clean_store (sub_clean f) (sub_wire f) (zero_store (f, sub_zero f))
      (struct_store rina_messages_qosSpecification_t_msg (map_option qos_struct (pf_qos p)))"
    if "f = static_field OPTIONAL (MESSAGE rina_messages_qosSpecification_t_msg) 10" for f
    unfolding that
  proof (rule struct_store_clean)
    fix sts assume "map_option qos_struct (pf_qos p) = Some sts"
    then obtain q where q: "pf_qos p = Some q" "sts = qos_struct q" by auto
    obtain qid nm partial ord where e: "q = (qid, nm, partial, ord)" by (cases q)
    have "length nm \<le> 19" "CHR 0x00 \<notin> set nm"
      using p q(1) e by (simp_all add: flow_fits_def flow_no_nul_def)
    then show "clean rina_messages_qosSpecification_t_msg sts
        \<and> length (wire rina_messages_qosSpecification_t_msg sts) < 2 ^ 32"
      using qos_struct_clean[OF e] qos_struct_ok(2)[OF e] q(2) by simp
  qed
  have d: "clean_store (sub_clean f) (sub_wire f) (zero_store (f, sub_zero f))
      (struct_store rina_messages_dtpConfig_t_msg (map_option dtpConfig_struct (pf_dtpConfig p)))"
    if "f = static_field OPTIONAL (MESSAGE rina_messages_dtpConfig_t_msg) 12" for f
    unfolding that
  proof (rule struct_store_clean)
    fix sts assume "map_option dtpConfig_struct (pf_dtpConfig p) = Some sts"
    then obtain c where "sts = dtpConfig_struct c" by auto
    then show "clean rina_messages_dtpConfig_t_msg sts \<and> length (wire rina_messages_dtpConfig_t_msg sts) < 2 ^ 32"
      using dtpConfig_struct_ok(2,3)[of c] by simp
  qed
  show ?thesis
    unfolding rina_messages_Flow_msg_def Flow_struct_def clean_fields
    by (simp del: clean_store.simps zero_store.simps add: n l[simplified] q[OF refl] d[OF refl] flow_member_clean
        connectionId_struct_ok(2) struct_none_clean)
qed

lemma flow_wire_length: "flow_fits p \<Longrightarrow> length (wire rina_messages_Flow_msg (Flow_struct p)) \<le> 317"
proof -
  assume p: "flow_fits p"
  have n: "length (wire_field (sub_wire (static_field REQUIRED (MESSAGE m) t)) (static_field REQUIRED (MESSAGE m) t)
        (Pb_Required (Pb_Struct (naming_struct apn api aen aei)))) \<le> 86"
    if "m = rina_messages_applicationProcessNamingInfo_t_msg" "t < 16" "length apn < 20" "list_all (fits 19) [api, aen, aei]"
    for m t apn api aen aei
    using sub_wire_length(1)[OF naming_struct_ok(2)[OF that(3,4)], of t] that(1,2) by simp
  have r: "length (wire_field w (static_field REQUIRED UINT64 t) (Pb_Required (Pb_Int (uint (v :: u64))))) \<le> 11"
    if "t < 16" for w t v
    using required_wire_length(2)[of w t v] that by (simp add: tag_lengths)
  have u: "length (wire_field w (static_field OPTIONAL UINT64 t) (u64_store q)) \<le> 11" if "t < 16" for w t q
    using u64_wire_length[of w t q] that by (simp add: tag_lengths)
  have h: "length (wire_field w (static_field OPTIONAL UINT32 17) (u32_store q)) \<le> 12" for w q
    using u32_wire_length[of w 17 q] by (simp add: tag_lengths)
  have i: "length (wire_field (sub_wire (static_field REPEATED (MESSAGE rina_messages_connectionId_t_msg) 7))
      (static_field REPEATED (MESSAGE rina_messages_connectionId_t_msg) 7)
      (Pb_Repeated (if c then [] else [Pb_Struct (connectionId_struct p)]))) \<le> 35" for c
    using sub_wire_length(2)[OF connectionId_struct_ok(3), of 7 c] by simp
  have q: "length (wire_field (sub_wire (static_field OPTIONAL (MESSAGE rina_messages_qosSpecification_t_msg) 10))
      (static_field OPTIONAL (MESSAGE rina_messages_qosSpecification_t_msg) 10)
      (struct_store rina_messages_qosSpecification_t_msg (map_option qos_struct (pf_qos p)))) \<le> 36 + 2"
    by (rule opt_wire_length) (use p qos_struct_ok(2) in \<open>auto simp: flow_fits_def split_beta\<close>)
  have d: "length (wire_field (sub_wire (static_field OPTIONAL (MESSAGE rina_messages_dtpConfig_t_msg) 12))
      (static_field OPTIONAL (MESSAGE rina_messages_dtpConfig_t_msg) 12)
      (struct_store rina_messages_dtpConfig_t_msg (map_option dtpConfig_struct (pf_dtpConfig p)))) \<le> 13 + 2"
    by (rule opt_wire_length) (auto simp: dtpConfig_struct_ok(3))
  have c: "wire_field w (callback_field hh ty t) Pb_Callback = []" for w hh ty t by simp
  have "length (wire rina_messages_Flow_msg (Flow_struct p))
      \<le> 86 + (86 + (11 + (11 + (11 + (11 + (35 + ((36 + 2) + ((13 + 2) + 12))))))))"
    unfolding rina_messages_Flow_msg_def Flow_struct_def by_fields
      list.map wire_fields.simps absent_wire absent_struct_wire c append_Nil append_Nil2 length_append
    by (intro add_mono n r u h i q d) (use p in \<open>simp_all add: flow_fits_def\<close>)
  then show ?thesis by simp
qed

lemma members:
  "store_u32 (u32_store o32) = o32"
  "member_int (u32_store (Some w32)) = uint w32"
  "member_bool (bool_store (Some b)) = b"
  "CHR 0x00 \<notin> set s \<Longrightarrow> member_str (str_store (Some s)) = s"
  "CHR 0x00 \<notin> set s \<Longrightarrow> member_str (Pb_Required (Pb_String (cstr s))) = s"
  "store_struct (struct_store m q) = q"
  by (cases o32; simp add: store_u32_def u32_store_def int_store_def)
    (simp_all add: u32_store_def int_store_def bool_store_def str_store_def uncstr_cstr struct_store_def split: option.split)

lemma flow_struct_read:
  assumes "flow_fits p" "flow_no_nul p"
  shows "struct_Flow (Flow_struct p) = p"
proof -
  have q: "map_option (\<lambda>q. (word_of_int (member_int (q ! 1)), member_str (q ! 0), member_bool (q ! 7), member_bool (q ! 8)))
      (map_option qos_struct (pf_qos p)) = pf_qos p"
    using assms(2) by (cases "pf_qos p") (auto simp: qos_struct_def members flow_no_nul_def split_beta)
  have d: "map_option (\<lambda>d. (member_bool (d ! 0), word_of_int (member_int (d ! 5))))
      (map_option dtpConfig_struct (pf_dtpConfig p)) = pf_dtpConfig p"
    by (cases "pf_dtpConfig p") (auto simp: dtpConfig_struct_def members split_beta)
  have s: "(case map_option dtpConfig_struct (pf_dtpConfig p) of None \<Rightarrow> None
      | Some d \<Rightarrow> map_option (\<lambda>s. (member_str (s ! 0), member_str (s ! 2))) (store_struct (d ! 6))) = pf_dtppolicyset p"
    using assms(1) by (cases "pf_dtpConfig p") (auto simp: dtpConfig_struct_def members flow_fits_def split_beta)
  show ?thesis
    using assms q d s
    by (cases p)
      (simp add: struct_Flow_def Flow_struct_def naming_struct_def connectionId_struct_def members store_members
        store_u64_store uncstr_cstr flow_fits_def flow_no_nul_def Let_def)
qed

lemma nanopb_flow:
  assumes "flow_fits p" "flow_no_nul p" "317 \<le> n"
  defines "w \<equiv> wire rina_messages_Flow_msg (Flow_struct p)"
  shows "nanopb_enc_flow n p = Some w" "nanopb_dec_flow w = Some p" "length w \<le> 317"
  using flow_struct_ok[OF assms(1)] flow_struct_clean[OF assms(1,2)] flow_struct_read[OF assms(1,2)] Flow_ok
    flow_wire_length[OF assms(1)] assms(3)
  by (simp_all add: nanopb_enc_flow_def nanopb_dec_flow_def w_def buffer_encode_wire buffer_decode_wire)

section \<open>Properties\<close>

lemma ucast_back:
  "ucast (ucast (b :: u8) :: u32) = b" "ucast (ucast (b :: u8) :: u64) = b" "ucast (ucast (v :: u32) :: u64) = v"
  by (rule bit_word_eqI, simp add: bit_unsigned_iff)+

text \<open>What the receiver's memory is turned into by a flow request.\<close>

definition flow_received :: "flow_t \<Rightarrow> string \<Rightarrow> string \<Rightarrow> flow_t \<Rightarrow> flow_t" where
  "flow_received f sn dn junk = junk
     \<lparr> fl_pxSourceInfo := (fl_pxSourceInfo junk) \<lparr> pcProcessName := Some sn \<rparr>,
       fl_pxDestInfo := (fl_pxDestInfo junk) \<lparr> pcProcessName := Some dn \<rparr>,
       fl_xSourceAddress := fl_xSourceAddress f, xSourcePortId := xSourcePortId f, pxConnectionId := pxConnectionId f \<rparr>"

text \<open>C16: A flow request goes through the bytes nanopb writes and reads: with names that fit their
  arrays the encoding succeeds inside the memory that was allocated for it (NULL is returned when
  there is none), and the peer finds the names
  of the applications, the source address and port and the identifiers of the connection.\<close>

theorem flow_on_wire:
  assumes "pcProcessName (fl_pxSourceInfo f) = Some sn" "pcProcessName (fl_pxDestInfo f) = Some dn"
    "length sn < 20" "length dn < 20" "length (pcQosName (pxQosSpec f)) < 20"
    "length (pcPolicyName (pxDtpConfig f)) < 20" "length (pcPolicyVersion (pxDtpConfig f)) < 20"
    "CHR 0x00 \<notin> set (sn @ dn @ pcQosName (pxQosSpec f))"
    "enc_flow env = nanopb_enc_flow (sizeof_Flow env)" "dec_flow env = nanopb_dec_flow" "373 \<le> sizeof_Flow env"
  shows "\<exists>bytes. pxSerdesMsgFlowEncode env f = Some (if ser_mem env 0 then Some bytes else None)
    \<and> pxSerdesMsgDecodeFlow env bytes = Some (flow_received f sn dn (junk_flow env))"
proof -
  define p where "p = \<lparr> pf_srcApName = sn, pf_srcApInst = None, pf_srcAEName = None, pf_srcAEInst = None,
          pf_dstApName = dn, pf_dstApInst = None, pf_dstAEName = None, pf_dstAEInst = None,
          pf_sourcePortId = ucast (xSourcePortId f), pf_destinationPortId = None,
          pf_sourceAddress = ucast (fl_xSourceAddress f), pf_destinationAddress = None,
          pf_connectionIds_count = 1,
          pf_sourceCEPId = Some (ucast (ci_xSource (pxConnectionId f))),
          pf_destinationCEPId = Some (ucast (ci_xDestination (pxConnectionId f))),
          pf_qosId = Some (ucast (ci_xQosId (pxConnectionId f))),
          pf_hopCount = Some (ulHopCount f),
          pf_qos = Some (ucast (qs_xQosId (pxQosSpec f)), pcQosName (pxQosSpec f),
            xPartialDelivery (pxQosSpec f), xOrderedDelivery (pxQosSpec f)),
          pf_dtpConfig = Some (xDtcpPresent (pxDtpConfig f), xInitialATimer (pxDtpConfig f)),
          pf_dtppolicyset = None \<rparr>"
  have p: "flow_fits p" "flow_no_nul p"
    using assms(3-8) by (simp_all add: p_def flow_fits_def flow_no_nul_def)
  note codec = nanopb_flow[OF p, of "sizeof_Flow env"]
  let ?w = "wire rina_messages_Flow_msg (Flow_struct p)"
  have "pxSerdesMsgFlowEncode env f = Some (if ser_mem env 0 then Some ?w else None)"
    using assms codec(1,3)
    by (simp add: pxSerdesMsgFlowEncode_def strcpy_arr_def del: One_nat_def flip: p_def)
  moreover have "pxSerdesMsgDecodeFlow env ?w = Some (flow_received f sn dn (junk_flow env))"
    using assms(10,11) codec(2)
    by (simp add: pxSerdesMsgDecodeFlow_def prvSerdesMsgDecodeFlow_def flow_received_def)
      (simp add: p_def ucast_back)
  ultimately show ?thesis by blast
qed

text \<open>The flow request of a node whose messages are encoded and decoded by nanopb.\<close>

definition demo_flow :: flow_t where
  "demo_flow =
     \<lparr> fl_pxSourceInfo = \<lparr> pcProcessName = Some ''ping'', pcProcessInstance = None, pcEntityName = None, pcEntityInstance = None \<rparr>,
       fl_pxDestInfo = \<lparr> pcProcessName = Some ''pong'', pcProcessInstance = None, pcEntityName = None, pcEntityInstance = None \<rparr>,
       ulHopCount = 4, fl_eState = eFA_ALLOCATION_IN_PROGRESS, ulMaxCreateFlowRetries = 1, fl_xSourceAddress = 3,
       xRemoteAddress = 1, pxConnectionId = \<lparr> ci_xQosId = 1, ci_xDestination = 0, ci_xSource = 2 \<rparr>,
       ulCurrentConnectionId = 0,
       pxQosSpec = \<lparr> pcQosName = ''reliable'', qs_xQosId = 1, xPartialDelivery = True, xOrderedDelivery = True \<rparr>,
       pxDtpConfig = \<lparr> xDtcpPresent = False, xInitialATimer = 300, pcPolicyName = ''default'', pcPolicyVersion = ''0'' \<rparr>,
       xSourcePortId = 33, xDestinationPortId = 0 \<rparr>"

definition demo_nenv :: "nenv \<Rightarrow> nenv" where
  "demo_nenv env = env \<lparr> enc_flow := nanopb_enc_flow 400, dec_flow := nanopb_dec_flow, sizeof_Flow := 400,
     ser_mem := (\<lambda>_. True) \<rparr>"

theorem flow_on_wire_witness:
  "\<exists>bytes. pxSerdesMsgFlowEncode (demo_nenv ex_nenv) demo_flow = Some (Some bytes)
    \<and> pxSerdesMsgDecodeFlow (demo_nenv ex_nenv) bytes
        = Some (flow_received demo_flow ''ping'' ''pong'' (junk_flow (demo_nenv ex_nenv)))"
proof -
  have "ser_mem (demo_nenv ex_nenv) 0" by (simp add: demo_nenv_def)
  then show ?thesis
    using flow_on_wire[of demo_flow "''ping''" "''pong''" "demo_nenv ex_nenv"]
    by (simp add: demo_flow_def demo_nenv_def)
qed

end
