(* ===== verification/Pb_Props.thy ===== *)
theory Pb_Props
  imports Pb_Flow
begin

text \<open>
  What nanopb guarantees of every message of the program: the variable-length integers against their reference, the
  round trip of any structure and the decoder on any bytes.
\<close>

text \<open>C20: The encoder of variable-length integers, which works on two 32-bit halves, writes the reference
  encoding of the 64-bit value, seven bits a byte, and the decoder reads every value
  back and takes exactly those bytes.\<close>

theorem varint_codec:
  "pb_encode_varint s v = pb_write s (varint (unat v))
   \<and> pb_decode_varint \<lparr> is_state = varint (unat v) @ m, bytes_left = length (varint (unat v)) + l \<rparr>
       = Ret (v, \<lparr> is_state = m, bytes_left = l \<rparr>)"
  using pb_decode_varint_reads[of "unat v" "length (varint (unat v)) + l" m] u64_bound[of v]
  by (simp add: pb_encode_varint_bytes)

text \<open>C5: Every structure of a well-formed descriptor that fits the buffer is encoded, and decoding the
  bytes gives the structure back, whatever the structure decoded into held before.\<close>

theorem pb_roundtrip:
  assumes "desc_ok m" "struct_ok m vs" "clean m vs" "length (wire m vs) \<le> n"
  shows "\<exists>s. pb_encode m (pb_ostream_from_buffer n n) vs = Ret s
    \<and> pb_decode (pb_istream_from_buffer (os_state s) (bytes_written s)) m st
        = Ret (vs, \<lparr> is_state = [], bytes_left = 0 \<rparr>)"
proof -
  have "os_ok (pb_ostream_from_buffer n n)" by (simp add: os_ok_def pb_ostream_from_buffer_def)
  from pb_encode_writes[OF assms(1-3) this] pb_decode_reads[OF assms(1-3), of st] assms(4)
  show ?thesis by (auto simp: buffer_write)
qed

text \<open>A neighbour with a name, in a buffer of 64 bytes.\<close>

lemma pb_roundtrip_witness:
  "\<exists>s. pb_encode rina_messages_neighbor_t_msg (pb_ostream_from_buffer 64 64)
      (neighbor_struct \<lparr> pb_nb_apname = Some ''ab'', pb_nb_apinstance = None, pb_nb_aename = None,
         pb_nb_aeinstance = None, pb_nb_address = None \<rparr>) = Ret s
    \<and> pb_decode (pb_istream_from_buffer (os_state s) (bytes_written s)) rina_messages_neighbor_t_msg []
        = Ret (neighbor_struct \<lparr> pb_nb_apname = Some ''ab'', pb_nb_apinstance = None, pb_nb_aename = None,
            pb_nb_aeinstance = None, pb_nb_address = None \<rparr>, \<lparr> is_state = [], bytes_left = 0 \<rparr>)"
proof (rule pb_roundtrip[OF neighbor_ok])
  let ?p = "\<lparr> pb_nb_apname = Some ''ab'', pb_nb_apinstance = None, pb_nb_aename = None,
     pb_nb_aeinstance = None, pb_nb_address = None \<rparr>"
  show "struct_ok rina_messages_neighbor_t_msg (neighbor_struct ?p)"
    unfolding rina_messages_neighbor_t_msg_def neighbor_struct_def by_fields
    by (simp del: store_ok.simps add: u64_store_ok no_difs member_ok)
  show "clean rina_messages_neighbor_t_msg (neighbor_struct ?p)"
    unfolding rina_messages_neighbor_t_msg_def neighbor_struct_def clean_fields
    by (simp del: clean_store.simps zero_store.simps add: u64_store_clean versions_clean member_clean)
  show "length (wire rina_messages_neighbor_t_msg (neighbor_struct ?p)) \<le> 64"
    unfolding rina_messages_neighbor_t_msg_def neighbor_struct_def by_fields
    using str_wire_short[of 19 "Some ''ab''" "sub_wire (static_field OPTIONAL (STRING 20) 1)" 20 1]
    by (simp add: absent_wire u64_store_def tag_lengths)
qed

text \<open>The descriptors the program decodes with.\<close>

definition messages :: "pb_msgdesc_t list" where
  "messages = [rina_messages_CDAPMessage_msg, rina_messages_enrollmentInformation_t_msg, rina_messages_neighbor_t_msg,
     rina_messages_a_data_t_msg, rina_messages_Flow_msg]"

lemma messages_ok: "m \<in> set messages \<Longrightarrow> desc_ok m"
  by (auto simp: messages_def CDAPMessage_ok enrollmentInformation_ok neighbor_ok a_data_ok Flow_ok)

text \<open>C6: Whatever bytes a decoder of the program is given, it ends without reading outside them,
  and what it accepts is a structure of the descriptor's type: no string, byte array or list is longer than
  its member and every integer is in the range of its own.\<close>

theorem pb_decode_safe:
  assumes "m \<in> set messages" "n \<le> length buf"
  shows "pb_decode (pb_istream_from_buffer buf n) m st \<noteq> Undef
    \<and> (case pb_decode (pb_istream_from_buffer buf n) m st of Ret (vs, s) \<Rightarrow> struct_ok m vs | _ \<Rightarrow> True)"
  using pb_decode_yields[OF messages_ok[OF assms(1)] assms(2), of st]
  by (auto split: pb.split)

lemma pb_decode_safe_witness:
  "pb_decode (pb_istream_from_buffer [0x62, 0xFF, 0x01] 3) rina_messages_Flow_msg [] \<noteq> Undef"
  using pb_decode_safe[of rina_messages_Flow_msg 3 "[0x62, 0xFF, 0x01]" "[]"] by (simp add: messages_def)

end
