(* ===== verification/Ipcp_Ops.thy ===== *)
theory Ipcp_Ops
  imports Ipcp_Manager Ipcp_Normal Rina_Names Rina_Enrollment
begin

text \<open>
  Tables of operations of the IPC processes (\<open>Rina-manager/include/IPCP_instance.h\<close>
  and the tables at the end of \<open>Ipcp/IPCP_ops.c\<close>, \<open>Shim/WiFi/wifi_IPCP_ops.c\<close> and
  \<open>Shim/ieee802154/ieee802154_IPCP_ops.c\<close>), the factory of the normal process, its
  assignment to a DIF and the names it is created with.  A table maps an operation to
  the function the code stores there; \<open>None\<close> is a NULL pointer, and calling it has no
  defined behaviour.
\<close>

section \<open>Tables of operations\<close>

datatype ipcpInstanceOps_t =
  flowAllocateRequest | flowAllocateResponse | flowDeallocate | applicationRegister
| applicationUnregister | assignToDif | updateDifConfig | duWrite | connectionCreate
| connectionUpdate | connectionModify | connectionDestroy | connectionCreateArrived
| flowPrebind | flowBindingIpcp | flowUnbindingIpcp | flowUnbindingUserIpcp
| nm1FlowStateChange | duEnqueue | mgmtDuWrite | mgmtDuPost | pffAdd | pffRemove
| ipcpName | difName | enableWrite | disableWrite | maxSduSize

datatype op_fun =
  F_xNormalFlowPrebind | F_xNormalFlowBinding | F_xNormalConnectionCreateRequest | F_xNormalDuEnqueue
| F_xShimFlowAllocateRequest | F_xShimWiFiFlowAllocateResponse | F_xShimApplicationRegister
| F_xShimApplicationUnregister | F_xShimSDUWrite
| F_xShim802154FlowAllocateRequest | F_xShimFlowAllocateResponse | F_xShim802154ApplicationRegister
| F_xShimIEEE802154SDUWrite

text \<open>A designated initialiser leaves the fields it does not name NULL.\<close>

definition xNormalInstanceOps :: "ipcpInstanceOps_t \<Rightarrow> op_fun option" where
  "xNormalInstanceOps = (\<lambda>_. None)
     (flowPrebind := Some F_xNormalFlowPrebind,
      flowBindingIpcp := Some F_xNormalFlowBinding,
      connectionCreate := Some F_xNormalConnectionCreateRequest,
      duEnqueue := Some F_xNormalDuEnqueue)"

definition xShimWifiOps :: "ipcpInstanceOps_t \<Rightarrow> op_fun option" where
  "xShimWifiOps = (\<lambda>_. None)
     (flowAllocateRequest := Some F_xShimFlowAllocateRequest,
      flowAllocateResponse := Some F_xShimWiFiFlowAllocateResponse,
      applicationRegister := Some F_xShimApplicationRegister,
      applicationUnregister := Some F_xShimApplicationUnregister,
      duWrite := Some F_xShimSDUWrite)"

definition xShim802154Ops :: "ipcpInstanceOps_t \<Rightarrow> op_fun option" where
  "xShim802154Ops = (\<lambda>_. None)
     (flowAllocateRequest := Some F_xShim802154FlowAllocateRequest,
      flowAllocateResponse := Some F_xShimFlowAllocateResponse,
      applicationRegister := Some F_xShim802154ApplicationRegister,
      duWrite := Some F_xShimIEEE802154SDUWrite)"

fun pxOps :: "ipcpInstanceType_t \<Rightarrow> ipcpInstanceOps_t \<Rightarrow> op_fun option" where
  "pxOps eNormal = xNormalInstanceOps"
| "pxOps eShimWiFi = xShimWifiOps"
| "pxOps eShim802154 = xShim802154Ops"

text \<open>The operations the code calls through \<open>pxOps\<close>: on the shim by the stack task and
  by \<open>xNormalRegistering\<close> and the RMT, on the normal process by the shims.\<close>

definition shim_calls :: "ipcpInstanceOps_t list" where
  "shim_calls = [applicationRegister, flowAllocateRequest, flowAllocateResponse, duWrite]"

definition normal_calls :: "ipcpInstanceOps_t list" where
  "normal_calls = [flowBindingIpcp, duEnqueue]"

text \<open>None of these calls goes through a null pointer; the one of \<open>xEfcpDestroy\<close> would, on
  every type of process.\<close>

lemma calls_not_null:
  "\<forall>op \<in> set normal_calls. pxOps eNormal op \<noteq> None"
  "\<forall>ty \<in> {eShimWiFi, eShim802154}. \<forall>op \<in> set shim_calls. pxOps ty op \<noteq> None"
  by (simp_all add: normal_calls_def shim_calls_def xNormalInstanceOps_def xShimWifiOps_def xShim802154Ops_def)

lemma unbinding_null: "pxOps ty flowUnbindingIpcp = None"
  by (cases ty) (simp_all add: xNormalInstanceOps_def xShimWifiOps_def xShim802154Ops_def)

text \<open>The shims and the normal process have no operation in common.\<close>

lemma ops_disjoint:
  "dom (pxOps eNormal) \<inter> dom (pxOps eShimWiFi) = {}" "dom (pxOps eNormal) \<inter> dom (pxOps eShim802154) = {}"
  by (auto simp: xNormalInstanceOps_def xShimWifiOps_def xShim802154Ops_def split: if_splits)

section \<open>The factory\<close>

text \<open>The list holds the owners of its items; an item may have none.\<close>

definition xNormalInit :: "bool \<times> ipcpInstance_t option list" where
  "xNormalInit = (True, [])"

fun prvNormalIPCPFindInstance :: "ipcpInstanceType_t \<Rightarrow> ipcpInstance_t option list \<Rightarrow> ipcpInstance_t option" where
  "prvNormalIPCPFindInstance ty [] = None"
| "prvNormalIPCPFindInstance ty (None # xs) = None"
| "prvNormalIPCPFindInstance ty (Some i # xs) =
     (if ii_xType i = ty then Some i else prvNormalIPCPFindInstance ty xs)"

lemma prvNormalIPCPFindInstance_find:
  "prvNormalIPCPFindInstance ty xs = find (\<lambda>i. ii_xType i = ty) (map the (takeWhile (\<lambda>x. x \<noteq> None) xs))"
  by (induction ty xs rule: prvNormalIPCPFindInstance.induct) simp_all

lemma factory_empty: "prvNormalIPCPFindInstance ty (snd xNormalInit) = None"
  by (simp add: xNormalInit_def)

section \<open>Names, and assignment to a DIF\<close>

definition NORMAL_PROCESS_INSTANCE :: string where "NORMAL_PROCESS_INSTANCE = ''1''"
definition NORMAL_DIF_NAME :: string where "NORMAL_DIF_NAME = ''slice1.DIF''"

record normal_data =
  nd_pxName :: name_t
  nd_pxDifName :: name_t
  nd_xAddress :: u8
  nd_plane :: dplane

text \<open>\<open>pxIpcpCreate\<close> with its four allocations; on a failure nothing is kept.\<close>

definition ipcp_create :: "bool \<Rightarrow> denv \<Rightarrow> u16 \<Rightarrow> (ipcpInstance_t \<times> normal_data) option" where
  "ipcp_create mem env n =
     (if \<not> mem then None
      else Some (\<lparr> ii_xId = n, ii_xType = eNormal \<rparr>,
        \<lparr> nd_pxName = \<lparr> pcProcessName = Some NORMAL_PROCESS_NAME, pcProcessInstance = Some NORMAL_PROCESS_INSTANCE,
                        pcEntityName = Some '''', pcEntityInstance = Some '''' \<rparr>,
          nd_pxDifName = \<lparr> pcProcessName = Some NORMAL_DIF_NAME, pcProcessInstance = Some '''',
                           pcEntityName = Some '''', pcEntityInstance = Some '''' \<rparr>,
          nd_xAddress = ucast LOCAL_ADDRESS, nd_plane = pxIpcpCreate env \<rparr>))"

text \<open>The chain of \<open>||\<close> stops at the first copy that fails, which is only logged; the
  old strings are not freed.\<close>

definition pvNormalAssignToDif :: "bool \<Rightarrow> name_t option \<Rightarrow> normal_data \<Rightarrow> (bool \<times> normal_data) option" where
  "pvNormalAssignToDif mem dif d =
     (case dif of
        None \<Rightarrow> Some (False, d)
      | Some nm \<Rightarrow> do {
          let n = nd_pxDifName d;
          (ok, p) \<leftarrow> xRstringDup mem (pcProcessName nm);
          let n = n \<lparr> pcProcessName := p \<rparr>;
          (ok, n) \<leftarrow> (if \<not> ok then Some (False, n) else do {
             (r, p) \<leftarrow> xRstringDup mem (pcProcessInstance nm); Some (r, n \<lparr> pcProcessInstance := p \<rparr>) });
          (ok, n) \<leftarrow> (if \<not> ok then Some (False, n) else do {
             (r, p) \<leftarrow> xRstringDup mem (pcEntityName nm); Some (r, n \<lparr> pcEntityName := p \<rparr>) });
          (ok, n) \<leftarrow> (if \<not> ok then Some (False, n) else do {
             (r, p) \<leftarrow> xRstringDup mem (pcEntityInstance nm); Some (r, n \<lparr> pcEntityInstance := p \<rparr>) });
          let a = ucast LOCAL_ADDRESS;
          let (r, s) = xRmtAddressAdd a (nd_plane d);
          let d = d \<lparr> nd_pxDifName := n, nd_xAddress := a, nd_plane := s \<rparr>;
          if \<not> r then Some (False, d) else Some (True, d) })"

text \<open>With memory for the strings the assignment copies the whole name, takes the local
  address and makes the RMT recognise it.\<close>

lemma assign_to_dif:
  "\<exists>s. pvNormalAssignToDif True (Some nm) d
         = Some (True, d \<lparr> nd_pxDifName := nm, nd_xAddress := 1, nd_plane := s \<rparr>)
     \<and> s = snd (xRmtAddressAdd 1 (nd_plane d))"
  by (cases nm; cases "nd_pxDifName d")
    (simp add: pvNormalAssignToDif_def xRstringDup_Some xRmtAddressAdd_def LOCAL_ADDRESS_def Let_def)

lemma assign_to_new_process:
  assumes "ipcp_create mem env n = Some (i, d)"
  obtains d' s where "pvNormalAssignToDif True (Some nm) d = Some (True, d')" "nd_pxDifName d' = nm"
    "nd_pxName d' = nd_pxName d" "xRmtPduIsAddressedToMe 1 (nd_plane d') = Some (True, s)"
  using assms assign_to_dif[of nm d]
  by (auto simp: ipcp_create_def pxIpcpCreate_def pxRmtCreate_def xRmtAddressAdd_def xRmtPduIsAddressedToMe_def
      split: if_splits)

lemma assign_no_name: "pvNormalAssignToDif mem None d = Some (False, d)"
  by (simp add: pvNormalAssignToDif_def)

section \<open>Identifiers of connection endpoints\<close>

text \<open>The body of \<open>prvRemoveCepIdFromFlow\<close> is under \<open>#if 0\<close>.\<close>

definition prvRemoveCepIdFromFlow :: "normalFlow_t \<Rightarrow> u8 \<Rightarrow> bool \<times> normalFlow_t" where
  "prvRemoveCepIdFromFlow f cep = (False, f)"

end
