(* ===== verification/Tap_Net.thy ===== *)
theory Tap_Net
  imports Wifi_Net
begin

text \<open>
  The network interface of the WiFi shim on Linux, over a TAP device
  (\<open>Shim/NetworkInterface/linux_tap/NetworkInterface.c\<close>), in its configuration: the device
  exists and is managed outside (\<open>LINUX_TAP_CREATE\<close> and \<open>LINUX_TAP_MANAGE\<close> are false).  The
  answers of the system calls are arguments.  The threads are explicit: the state counts the
  pipes and the threads created that have not run yet, and keeps, for each reader, the pipe it
  listens to.  \<open>bool_t\<close> is \<open>bool\<close> on Linux, so
  that a negative number returned as \<open>bool_t\<close> is true.
\<close>

section \<open>The device\<close>

definition TAP_MTU :: nat where "TAP_MTU = 1500"
definition LINUX_TAP_DEVICE :: string where "LINUX_TAP_DEVICE = ''rina00''"
definition IFF_UP :: u32 where "IFF_UP = 1"
definition IFF_RUNNING :: u32 where "IFF_RUNNING = 64"

text \<open>The answer and the descriptor stored.\<close>

definition prvLinuxTapOpen :: "int \<Rightarrow> int \<Rightarrow> int option \<Rightarrow> bool \<times> int option" where
  "prvLinuxTapOpen fd err pnFD =
     (if fd < 0 then (fd \<noteq> 0, pnFD) else if err < 0 then (False, pnFD) else (True, Some fd))"

text \<open>\<open>ifr_flags\<close> is a short; reading it extends the sign.\<close>

definition prvLinuxTapGetFlags :: "int \<Rightarrow> u16 option \<Rightarrow> u32 option" where
  "prvLinuxTapGetFlags nFD fl = (if nFD < 0 then None else map_option scast fl)"

text \<open>The answer and the flags that the device gets.\<close>

definition prvLinuxTapSetFlags :: "int \<Rightarrow> u32 \<Rightarrow> bool \<times> u16 option" where
  "prvLinuxTapSetFlags err nFlags = (if err < 0 then (err \<noteq> 0, None) else (True, Some (ucast nFlags)))"

definition prvLinuxTapSetUp :: "int \<Rightarrow> u16 option \<Rightarrow> int \<Rightarrow> bool \<times> u16 option" where
  "prvLinuxTapSetUp nFD fl err =
     (case prvLinuxTapGetFlags nFD fl of
        None \<Rightarrow> (False, None)
      | Some f \<Rightarrow> prvLinuxTapSetFlags err (f OR (IFF_UP OR IFF_RUNNING)))"

definition prvLinuxTapSetDown :: "int \<Rightarrow> u16 option \<Rightarrow> int \<Rightarrow> bool \<times> u16 option" where
  "prvLinuxTapSetDown nFD fl err =
     (case prvLinuxTapGetFlags nFD fl of
        None \<Rightarrow> (False, None)
      | Some f \<Rightarrow> prvLinuxTapSetFlags err (f OR NOT (IFF_UP OR IFF_RUNNING)))"

text \<open>Six random numbers; \<open>CHAR_MAX\<close> is 127.\<close>

definition prvGenRandomEth :: "nat list \<Rightarrow> u8 list" where
  "prvGenRandomEth rs =
     (let a = map (\<lambda>r. word_of_nat (r mod 127)) rs in a[0 := (a ! 0 AND 0xFE) OR 0x02])"

section \<open>Threads and link state\<close>

record tap_nic =
  nTapFD :: "int option"
  nTapThreadFD :: "nat option"
  xIsInterfaceConnected :: bool
  nCurrentIffFlags :: u32
  tn_pipes :: nat
  xTapReadTreadParams :: "nat option"
  tn_starting :: nat
  tn_readers :: "nat list"
  tn_woken :: "nat list"

definition tap_boot :: tap_nic where
  "tap_boot = \<lparr> nTapFD = None, nTapThreadFD = None, xIsInterfaceConnected = False, nCurrentIffFlags = 0,
     tn_pipes = 0, xTapReadTreadParams = None, tn_starting = 0, tn_readers = [], tn_woken = [] \<rparr>"

text \<open>The answers for the n-th pipe: the pipe, its descriptors, the attributes, the thread.\<close>

record tap_env =
  pipe_ok :: "nat \<Rightarrow> bool"
  fcntl_ok :: "nat \<Rightarrow> bool"
  attr_ok :: "nat \<Rightarrow> bool"
  thread_ok :: "nat \<Rightarrow> bool"

definition prvLinuxTapCheckFlags :: "u32 \<Rightarrow> tap_nic \<Rightarrow> bool" where
  "prvLinuxTapCheckFlags nFlags s = (sint (nCurrentIffFlags s AND nFlags) > 0)"

definition prvLinuxTapSaveFlags :: "u32 \<Rightarrow> tap_nic \<Rightarrow> tap_nic" where
  "prvLinuxTapSaveFlags nFlags s = s \<lparr> nCurrentIffFlags := nFlags \<rparr>"

definition prvLinuxTapStartReadThread :: "tap_env \<Rightarrow> tap_nic \<Rightarrow> bool \<times> tap_nic" where
  "prvLinuxTapStartReadThread env s =
     (let n = tn_pipes s; s = s \<lparr> tn_pipes := n + 1 \<rparr> in
      if \<not> pipe_ok env n then (False, s)
      else if \<not> fcntl_ok env n then (False, s)
      else (attr_ok env n \<and> thread_ok env n,
            s \<lparr> nTapThreadFD := Some n, xTapReadTreadParams := Some n,
                tn_starting := (if thread_ok env n then tn_starting s + 1 else tn_starting s) \<rparr>))"

text \<open>A thread that has been created reads its pipe from the one structure of parameters when it
  first runs.\<close>

definition read_thread_runs :: "tap_nic \<Rightarrow> tap_nic" where
  "read_thread_runs s =
     (case (tn_starting s, xTapReadTreadParams s) of
        (Suc k, Some p) \<Rightarrow> s \<lparr> tn_starting := k, tn_readers := p # tn_readers s \<rparr>
      | _ \<Rightarrow> s)"

text \<open>The answer of \<open>prvLinuxTapStartMonitorThread\<close> is false whatever happens.\<close>

definition prvLinuxTapStartMonitorThread :: "bool \<Rightarrow> bool \<Rightarrow> bool" where
  "prvLinuxTapStartMonitorThread attr thread =
     (let b = False; b = (if \<not> attr then False else b) in if \<not> thread then False else b)"

definition tapNotifyIFDown :: "tap_nic \<Rightarrow> tap_nic" where
  "tapNotifyIFDown s =
     (if xIsInterfaceConnected s
      then (case nTapThreadFD s of None \<Rightarrow> s | Some p \<Rightarrow> s \<lparr> tn_woken := p # tn_woken s \<rparr>)
      else s)"

definition tapNotifyIFUp :: "tap_env \<Rightarrow> tap_nic \<Rightarrow> tap_nic" where
  "tapNotifyIFUp env s =
     (if xIsInterfaceConnected s then snd (prvLinuxTapStartReadThread env s) else s)"

definition tapNetworkInterfaceInitialise ::
  "int \<Rightarrow> int \<Rightarrow> int \<Rightarrow> u16 option \<Rightarrow> nat list \<Rightarrow> tap_nic \<Rightarrow> bool \<times> u8 list option \<times> tap_nic" where
  "tapNetworkInterfaceInitialise fd err nFD fl rs s =
     (let (ok, tap) = prvLinuxTapOpen fd err (nTapFD s) in
      if \<not> ok then (False, None, s)
      else
        let s = s \<lparr> nTapFD := tap \<rparr>;
            s = (case prvLinuxTapGetFlags nFD fl of None \<Rightarrow> s | Some f \<Rightarrow> s \<lparr> nCurrentIffFlags := f \<rparr>)
        in (True, Some (prvGenRandomEth rs), s))"

definition tapNetworkInterfaceConnect :: "tap_env \<Rightarrow> tap_nic \<Rightarrow> bool \<times> tap_nic" where
  "tapNetworkInterfaceConnect env s =
     (if prvLinuxTapCheckFlags IFF_UP s
      then let (ok, s) = prvLinuxTapStartReadThread env s in
           if \<not> ok then (False, s) else (True, s \<lparr> xIsInterfaceConnected := True \<rparr>)
      else (True, s \<lparr> xIsInterfaceConnected := True \<rparr>))"

definition tapNetworkInterfaceDisconnect :: "tap_nic \<Rightarrow> bool \<times> tap_nic" where
  "tapNetworkInterfaceDisconnect s = (True, s \<lparr> xIsInterfaceConnected := False \<rparr>)"

section \<open>The monitor of the link\<close>

datatype nlmsg_type = NLMSG_DONE | RTM_NEWLINK | NLMSG_OTHER

text \<open>A message with its length, and for a link the name of the interface (unless it has
  gone) and its flags.\<close>

record nlmsghdr =
  nlmsg_len :: nat
  nlmsg_kind :: nlmsg_type
  ifi_name :: "string option"
  ifi_flags :: u32

definition prvLinuxTapParseNewLinkMsg :: "tap_env \<Rightarrow> nlmsghdr \<Rightarrow> tap_nic \<Rightarrow> tap_nic option" where
  "prvLinuxTapParseNewLinkMsg env m s = do {
     nam \<leftarrow> ifi_name m;
     if nam = LINUX_TAP_DEVICE then do {
       let isNowUp = (ifi_flags m AND IFF_UP \<noteq> 0 \<and> \<not> nCurrentIffFlags s AND IFF_UP \<noteq> 0);
       let isNowDown = (\<not> ifi_flags m AND IFF_UP \<noteq> 0 \<and> nCurrentIffFlags s AND IFF_UP \<noteq> 0);
       let s = s \<lparr> nCurrentIffFlags := ifi_flags m \<rparr>;
       let s = (if isNowUp then tapNotifyIFUp env s else s);
       Some (if isNowDown then tapNotifyIFDown s else s) }
     else Some s }"

text \<open>The macros of \<open>linux/netlink.h\<close>.\<close>

definition NLMSG_ALIGN :: "nat \<Rightarrow> nat" where "NLMSG_ALIGN n = (n + 3) div 4 * 4"
definition NLMSG_OK :: "nlmsghdr \<Rightarrow> int \<Rightarrow> bool" where
  "NLMSG_OK m n = (n \<ge> 16 \<and> nlmsg_len m \<ge> 16 \<and> int (nlmsg_len m) \<le> n)"

text \<open>One turn over the messages in the buffer, with the count \<open>nRecv\<close> it leaves.\<close>

fun nl_pass :: "tap_env \<Rightarrow> nlmsghdr list \<Rightarrow> int \<Rightarrow> tap_nic \<Rightarrow> (int \<times> tap_nic) option" where
  "nl_pass env [] n s = Some (n, s)"
| "nl_pass env (m # ms) n s =
     (if \<not> NLMSG_OK m n then Some (n, s)
      else if nlmsg_kind m = NLMSG_DONE then Some (n, s)
      else do {
        s \<leftarrow> (if nlmsg_kind m = RTM_NEWLINK then prvLinuxTapParseNewLinkMsg env m s else Some s);
        nl_pass env ms (n - int (NLMSG_ALIGN (nlmsg_len m))) s })"

text \<open>The loop: the buffer and its count, the answers of \<open>recv\<close> still to come.  It waits when
  they are used up, and has left after a failure; \<open>None\<close> when it never gets that far.\<close>

datatype nl_exit = Nl_Waiting | Nl_Failed | Nl_Aborted

partial_function (option) nl_monitor ::
  "tap_env \<Rightarrow> (nlmsghdr list \<times> int) list \<Rightarrow> nlmsghdr list \<Rightarrow> int \<Rightarrow> tap_nic \<Rightarrow> (nl_exit \<times> tap_nic) option" where
  "nl_monitor env rs buf n s =
     (if n = 0 \<and> rs = [] then Some (Nl_Waiting, s)
      else
        let buf = (if n = 0 then fst (rs ! 0) else buf); k = (if n = 0 then snd (rs ! 0) else n);
            rs = (if n = 0 then tl rs else rs)
        in if k < 0 then Some (Nl_Failed, s)
           else (case nl_pass env buf k s of
                   None \<Rightarrow> Some (Nl_Aborted, s)
                 | Some r \<Rightarrow> nl_monitor env rs buf (fst r) (snd r)))"

definition prvLinuxTapMonitorThread ::
  "tap_env \<Rightarrow> bool \<Rightarrow> bool \<Rightarrow> (nlmsghdr list \<times> int) list \<Rightarrow> tap_nic \<Rightarrow> (nl_exit \<times> tap_nic) option" where
  "prvLinuxTapMonitorThread env sock bnd rs s =
     (if \<not> sock \<or> \<not> bnd then Some (Nl_Failed, s) else nl_monitor env rs [] 0 s)"

section \<open>Frames\<close>

text \<open>The loop that writes; its list holds the answers of \<open>write\<close>, and the result the chunks the
  kernel took, each of them a frame of the device.  \<open>None\<close>: still writing, or outside the buffer.\<close>

fun tap_write :: "int list \<Rightarrow> u8 list \<Rightarrow> nat \<Rightarrow> nat \<Rightarrow> (bool \<times> u8 list list) option" where
  "tap_write [] eth left off = None"
| "tap_write (k # ks) eth left off =
     (if length eth < off + left then None
      else if k < 0 then Some (False, [])
      else if left < nat k then None
      else do {
        let chunk = take (nat k) (drop off eth);
        let left = left - nat k;
        if left > 0 then do {
          (ok, cs) \<leftarrow> tap_write ks eth left (nat k);
          Some (ok, chunk # cs) }
        else Some (True, [chunk]) })"

text \<open>The descriptor is kept, also when it should be released.\<close>

definition tapNetworkInterfaceOutput ::
  "int list \<Rightarrow> NetworkBufferDescriptor_t \<Rightarrow> bool \<Rightarrow> tap_nic \<Rightarrow> nat list
   \<Rightarrow> (bool \<times> u8 list list \<times> nat list) option" where
  "tapNetworkInterfaceOutput ks nb rel s free =
     (if \<not> prvLinuxTapCheckFlags IFF_UP s then Some (False, [], free)
      else do {
        eth \<leftarrow> pucEthernetBuffer nb;
        (ok, cs) \<leftarrow> tap_write ks eth (xDataLength nb) 0;
        Some (ok, cs, free) })"

text \<open>A frame from the reader: the answer, the event for the stack task and the free
  descriptors.  When no descriptor is free the NULL pointer is released.\<close>

definition tapNetworkInterfaceInput ::
  "(nat \<Rightarrow> bool) \<Rightarrow> bool \<Rightarrow> u8 list \<Rightarrow> nat \<Rightarrow> nat list
   \<Rightarrow> (bool \<times> (NetworkBufferDescriptor_t \<times> nat) option \<times> nat list) option" where
  "tapNetworkInterfaceInput mem queued buf len free = do {
     r \<leftarrow> eConsiderFrameForProcessing buf;
     if r \<noteq> eProcessBuffer then Some (True, None, free)
     else do {
       (nb, free) \<leftarrow> pxGetNetworkBufferWithDescriptor mem len free;
       nb \<leftarrow> nb;
       eth \<leftarrow> pucEthernetBuffer nb;
       if length eth < len \<or> length buf < len then None
       else do {
         let nb = nb \<lparr> pucEthernetBuffer := Some (take len buf @ drop len eth) \<rparr>;
         if queued then Some (True, Some (nb, len), free)
         else do { free \<leftarrow> vReleaseNetworkBufferAndDescriptor nb free; Some (False, None, free) } } } }"

text \<open>One turn of the reader: what \<open>read\<close> answers when the device is readable (\<open>[]\<close> for a
  hang-up or an error), whether the pipe is, and whether the queue takes an event.\<close>

record tap_poll =
  tp_tap :: "u8 list option"
  tp_pipe :: bool
  tp_queued :: bool

datatype tap_exit = Polling | ReadFailed | Woken

primrec tap_reader ::
  "(nat \<Rightarrow> bool) \<Rightarrow> tap_poll list \<Rightarrow> u8 list \<Rightarrow> nat list
   \<Rightarrow> (tap_exit \<times> (NetworkBufferDescriptor_t \<times> nat) list \<times> nat list) option" where
  "tap_reader mem [] buf free = Some (Polling, [], free)"
| "tap_reader mem (p # ps) buf free =
     (case tp_tap p of
        Some bs \<Rightarrow>
          if bs = [] then Some (ReadFailed, [], free)
          else if length buf < length bs then None
          else do {
            let buf = bs @ drop (length bs) buf;
            (ok, ev, free) \<leftarrow> tapNetworkInterfaceInput mem (tp_queued p) buf (length bs) free;
            (x, evs, free) \<leftarrow> tap_reader mem ps buf free;
            Some (x, case ev of None \<Rightarrow> evs | Some e \<Rightarrow> e # evs, free) }
      | None \<Rightarrow> if tp_pipe p then Some (Woken, [], free) else tap_reader mem ps buf free)"

definition prvLinuxTapReadThread ::
  "(nat \<Rightarrow> bool) \<Rightarrow> tap_poll list \<Rightarrow> u8 list \<Rightarrow> nat list
   \<Rightarrow> (tap_exit \<times> (NetworkBufferDescriptor_t \<times> nat) list \<times> nat list) option" where
  "prvLinuxTapReadThread mem ps stack free = tap_reader mem ps (take (TAP_MTU + 14) stack) free"

section \<open>The state of the device\<close>

text \<open>Taking the device down never clears its flag: the mask is added instead of removed.\<close>

lemma set_up_sets: "prvLinuxTapSetUp nFD fl err = (r, Some g) \<Longrightarrow> bit g 0"
  by (auto simp: prvLinuxTapSetUp_def prvLinuxTapSetFlags_def IFF_UP_def IFF_RUNNING_def bit_simps
      split: option.splits if_splits)

lemma set_down_keeps:
  assumes "prvLinuxTapSetDown nFD (Some f) err = (r, Some g)" "n < 16"
  shows "bit g n \<longleftrightarrow> bit f n \<or> n \<noteq> 0 \<and> n \<noteq> 6"
proof -
  have "g = ucast (scast f OR NOT (65 :: u32))"
    using assms(1)
    by (auto simp: prvLinuxTapSetDown_def prvLinuxTapGetFlags_def prvLinuxTapSetFlags_def IFF_UP_def IFF_RUNNING_def
        split: if_splits)
  moreover have "bit (65 :: u32) n \<longleftrightarrow> n = 0 \<or> n = 6"
    using assms(2) by (auto simp: bit_simps eval_nat_numeral less_Suc_eq)
  ultimately show ?thesis using assms(2) by (auto simp: bit_simps)
qed

lemma random_address:
  assumes "length rs = 6"
  shows "length (prvGenRandomEth rs) = 6" "\<not> bit (prvGenRandomEth rs ! 0) 0" "bit (prvGenRandomEth rs ! 0) 1"
  using assms by (auto simp: prvGenRandomEth_def Let_def bit_simps)

lemma monitor_start_false: "prvLinuxTapStartMonitorThread a t = False"
  by (simp add: prvLinuxTapStartMonitorThread_def Let_def)

text \<open>Without the clone device the interface says that it is ready, and has no descriptor.\<close>

lemma tap_init_without_device:
  assumes "fd < 0"
  shows "\<exists>mac s'. tapNetworkInterfaceInitialise fd err nFD fl rs tap_boot = (True, Some mac, s') \<and> nTapFD s' = None"
  using assms by (simp add: tapNetworkInterfaceInitialise_def prvLinuxTapOpen_def tap_boot_def Let_def split: option.split)

lemma up_flag: "sint ((f :: u32) AND IFF_UP) > 0 \<longleftrightarrow> bit f 0" "(f :: u32) AND IFF_UP \<noteq> 0 \<longleftrightarrow> bit f 0"
  by (cases "odd f"; simp add: IFF_UP_def and_one_eq bit_0 mod_2_eq_odd)+

section \<open>Readers and the link\<close>

text \<open>The pipes that readers listen to, or will when they run, and on which nothing has been written.\<close>

definition awake :: "tap_nic \<Rightarrow> nat list" where
  "awake s = filter (\<lambda>p. p \<notin> set (tn_woken s))
     (tn_readers s @ replicate (tn_starting s) (case xTapReadTreadParams s of Some p \<Rightarrow> p | None \<Rightarrow> 0))"

text \<open>A message of the kernel, a thread that first runs, and a reader that ends: because its pipe
  says so, or after an empty or failed read of the device.\<close>

inductive tap_step :: "tap_env \<Rightarrow> tap_nic \<Rightarrow> tap_nic \<Rightarrow> bool" for env where
  link: "prvLinuxTapParseNewLinkMsg env m s = Some s' \<Longrightarrow> tap_step env s s'"
| runs: "tap_step env s (read_thread_runs s)"
| woken: "p \<in> set (tn_readers s) \<Longrightarrow> p \<in> set (tn_woken s)
    \<Longrightarrow> tap_step env s (s \<lparr> tn_readers := remove1 p (tn_readers s) \<rparr>)"
| failed: "p \<in> set (tn_readers s) \<Longrightarrow> tap_step env s (s \<lparr> tn_readers := remove1 p (tn_readers s) \<rparr>)"

text \<open>The parameters are those of the pipe the interface writes to, pipes are counted, and a reader
  that has not been told to leave listens to that pipe, and there is none while the device is down
  or the interface not connected.\<close>

definition tap_inv :: "tap_nic \<Rightarrow> bool" where
  "tap_inv s = (xTapReadTreadParams s = nTapThreadFD s \<and> (tn_starting s = 0 \<or> nTapThreadFD s \<noteq> None)
     \<and> (\<forall>p \<in> set (tn_readers s) \<union> set (tn_woken s) \<union> set_option (nTapThreadFD s). p < tn_pipes s)
     \<and> (if xIsInterfaceConnected s \<and> bit (nCurrentIffFlags s) 0
        then \<forall>p \<in> set (awake s). nTapThreadFD s = Some p else awake s = []))"

lemma awake_set:
  "xTapReadTreadParams s = nTapThreadFD s \<Longrightarrow> tn_starting s = 0 \<or> nTapThreadFD s \<noteq> None \<Longrightarrow>
   set (awake s) = {p. p \<notin> set (tn_woken s) \<and> (p \<in> set (tn_readers s) \<or> 0 < tn_starting s \<and> nTapThreadFD s = Some p)}"
  by (auto simp: awake_def split: option.splits)

lemma tap_invI:
  assumes "xTapReadTreadParams s = nTapThreadFD s" "tn_starting s = 0 \<or> nTapThreadFD s \<noteq> None"
    and "\<And>p. p \<in> set (tn_readers s) \<Longrightarrow> p < tn_pipes s" "\<And>p. p \<in> set (tn_woken s) \<Longrightarrow> p < tn_pipes s"
    and "\<And>p. nTapThreadFD s = Some p \<Longrightarrow> p < tn_pipes s"
    and "\<And>p. p \<in> set (awake s) \<Longrightarrow> xIsInterfaceConnected s \<and> bit (nCurrentIffFlags s) 0 \<and> nTapThreadFD s = Some p"
  shows "tap_inv s"
proof -
  have "awake s = []" if "\<not> (xIsInterfaceConnected s \<and> bit (nCurrentIffFlags s) 0)"
  proof (cases "awake s")
    case (Cons p ps)
    then have "p \<in> set (awake s)" by simp
    then show ?thesis using assms(6) that by blast
  qed
  moreover have "\<forall>p \<in> set (tn_readers s) \<union> set (tn_woken s) \<union> set_option (nTapThreadFD s). p < tn_pipes s"
    using assms(3-5) by auto
  ultimately show ?thesis using assms(1,2,6) by (simp add: tap_inv_def)
qed

lemma tap_invD:
  assumes "tap_inv s"
  shows "xTapReadTreadParams s = nTapThreadFD s" "tn_starting s = 0 \<or> nTapThreadFD s \<noteq> None"
    "p \<in> set (tn_readers s) \<Longrightarrow> p < tn_pipes s" "p \<in> set (tn_woken s) \<Longrightarrow> p < tn_pipes s"
    "nTapThreadFD s = Some p \<Longrightarrow> p < tn_pipes s"
    "p \<in> set (awake s) \<Longrightarrow> xIsInterfaceConnected s \<and> bit (nCurrentIffFlags s) 0 \<and> nTapThreadFD s = Some p"
    "p \<in> set (tn_readers s) \<Longrightarrow> p \<in> set (tn_woken s) \<or> xIsInterfaceConnected s \<and> bit (nCurrentIffFlags s) 0 \<and> nTapThreadFD s = Some p"
    "0 < tn_starting s \<Longrightarrow> nTapThreadFD s = Some p \<Longrightarrow> p \<in> set (tn_woken s) \<or> xIsInterfaceConnected s \<and> bit (nCurrentIffFlags s) 0"
proof -
  from assms have a: "xTapReadTreadParams s = nTapThreadFD s" "tn_starting s = 0 \<or> nTapThreadFD s \<noteq> None"
    and b: "\<forall>p \<in> set (tn_readers s) \<union> set (tn_woken s) \<union> set_option (nTapThreadFD s). p < tn_pipes s"
    and c: "if xIsInterfaceConnected s \<and> bit (nCurrentIffFlags s) 0
      then \<forall>p \<in> set (awake s). nTapThreadFD s = Some p else awake s = []"
    unfolding tap_inv_def by blast+
  show "xTapReadTreadParams s = nTapThreadFD s" "tn_starting s = 0 \<or> nTapThreadFD s \<noteq> None" by (rule a)+
  show "p \<in> set (tn_readers s) \<Longrightarrow> p < tn_pipes s" "p \<in> set (tn_woken s) \<Longrightarrow> p < tn_pipes s"
    "nTapThreadFD s = Some p \<Longrightarrow> p < tn_pipes s" using b by auto
  have d: "xIsInterfaceConnected s \<and> bit (nCurrentIffFlags s) 0 \<and> nTapThreadFD s = Some p" if "p \<in> set (awake s)" for p
    using c that by (cases "xIsInterfaceConnected s \<and> bit (nCurrentIffFlags s) 0") auto
  show "p \<in> set (awake s) \<Longrightarrow> xIsInterfaceConnected s \<and> bit (nCurrentIffFlags s) 0 \<and> nTapThreadFD s = Some p" by (rule d)
  have w: "p \<in> set (awake s) \<longleftrightarrow> p \<notin> set (tn_woken s) \<and> (p \<in> set (tn_readers s) \<or> 0 < tn_starting s \<and> nTapThreadFD s = Some p)" for p
    by (simp add: awake_set[OF a])
  show "p \<in> set (tn_woken s) \<or> xIsInterfaceConnected s \<and> bit (nCurrentIffFlags s) 0 \<and> nTapThreadFD s = Some p"
    if "p \<in> set (tn_readers s)" using that d[of p] w[of p] by blast
  show "p \<in> set (tn_woken s) \<or> xIsInterfaceConnected s \<and> bit (nCurrentIffFlags s) 0"
    if "0 < tn_starting s" "nTapThreadFD s = Some p" using that d[of p] w[of p] by blast
qed

text \<open>Starting a reader on a new pipe when no other is awake.\<close>

lemma tap_inv_start:
  assumes i: "tap_inv s" and "awake s = []" "xIsInterfaceConnected s'" "bit (nCurrentIffFlags s') 0"
    and s': "s' = (snd (prvLinuxTapStartReadThread env s)) \<lparr> xIsInterfaceConnected := c, nCurrentIffFlags := f \<rparr>"
  shows "tap_inv s'"
proof -
  note d = tap_invD[OF i]
  have w: "p \<in> set (tn_woken s)" if "p \<in> set (tn_readers s)" for p
    using that assms(2) awake_set[OF d(1,2)] by auto
  show ?thesis
  proof (cases "pipe_ok env (tn_pipes s) \<and> fcntl_ok env (tn_pipes s)")
    case False
    then have *: "s' = s \<lparr> tn_pipes := tn_pipes s + 1, xIsInterfaceConnected := c, nCurrentIffFlags := f \<rparr>"
      by (auto simp: s' prvLinuxTapStartReadThread_def Let_def)
    have "awake s' = []" using assms(2) by (simp add: * awake_def)
    then show ?thesis using d(1-5) by (intro tap_invI) (auto simp: * less_Suc_eq)
  next
    case True
    then have *: "xTapReadTreadParams s' = Some (tn_pipes s)" "nTapThreadFD s' = Some (tn_pipes s)"
      "tn_readers s' = tn_readers s" "tn_woken s' = tn_woken s" "tn_pipes s' = tn_pipes s + 1"
      by (auto simp: s' prvLinuxTapStartReadThread_def Let_def)
    show ?thesis
      using d(3,4) assms(3,4) w by (intro tap_invI) (auto simp: * awake_set less_Suc_eq)
  qed
qed

lemma tap_inv_down:
  assumes i: "tap_inv s" and "\<not> bit f 0" "bit (nCurrentIffFlags s) 0"
  shows "tap_inv (tapNotifyIFDown (s \<lparr> nCurrentIffFlags := f \<rparr>))"
proof -
  note d = tap_invD[OF i]
  let ?s = "tapNotifyIFDown (s \<lparr> nCurrentIffFlags := f \<rparr>)"
  have *: "xTapReadTreadParams ?s = nTapThreadFD s" "nTapThreadFD ?s = nTapThreadFD s" "tn_readers ?s = tn_readers s"
    "tn_pipes ?s = tn_pipes s" "tn_starting ?s = tn_starting s"
    "set (tn_woken ?s) = set (tn_woken s) \<union> (if xIsInterfaceConnected s then set_option (nTapThreadFD s) else {})"
    using d(1) by (auto simp: tapNotifyIFDown_def split: option.splits)
  have c2: "tn_starting ?s = 0 \<or> nTapThreadFD ?s \<noteq> None" using d(2) by (simp only: *)
  have w: "p < tn_pipes ?s" if "p \<in> set (tn_woken ?s)" for p
    using that d(4,5) unfolding * by (auto split: if_splits)
  have False if "p \<in> set (awake ?s)" for p
  proof -
    have "p \<in> {p. p \<notin> set (tn_woken ?s) \<and> (p \<in> set (tn_readers s) \<or> 0 < tn_starting s \<and> nTapThreadFD s = Some p)}"
      using that awake_set[of ?s] c2 by (simp only: *)
    then have p: "p \<notin> set (tn_woken ?s)" "p \<in> set (tn_readers s) \<or> 0 < tn_starting s \<and> nTapThreadFD s = Some p" by blast+
    then have "p \<notin> set (tn_woken s)" by (simp add: *)
    then have "xIsInterfaceConnected s \<and> nTapThreadFD s = Some p" using p(2) d(7,8) by blast
    then show False using p(1) by (simp add: *)
  qed
  then show ?thesis using c2 w d(3,5) by (intro tap_invI) (simp_all only: *, blast+)
qed

lemma tap_inv_link:
  assumes "prvLinuxTapParseNewLinkMsg env m s = Some s'" "tap_inv s"
  shows "tap_inv s' \<and> xIsInterfaceConnected s' = xIsInterfaceConnected s"
proof (cases "ifi_name m = Some LINUX_TAP_DEVICE")
  case True
  let ?f = "ifi_flags m" and ?g = "nCurrentIffFlags s" and ?t = "s \<lparr> nCurrentIffFlags := ifi_flags m \<rparr>"
  have s': "s' = (if bit ?f 0 \<and> \<not> bit ?g 0 then tapNotifyIFUp env ?t
                  else if \<not> bit ?f 0 \<and> bit ?g 0 then tapNotifyIFDown ?t else ?t)"
    using assms(1) True by (auto simp: prvLinuxTapParseNewLinkMsg_def up_flag Let_def)
  have c: "xIsInterfaceConnected (snd (prvLinuxTapStartReadThread env t)) = xIsInterfaceConnected t"
    "nCurrentIffFlags (snd (prvLinuxTapStartReadThread env t)) = nCurrentIffFlags t" for t
    by (simp_all add: prvLinuxTapStartReadThread_def Let_def)
  have cc: "xIsInterfaceConnected s' = xIsInterfaceConnected s"
    by (simp add: s' tapNotifyIFUp_def tapNotifyIFDown_def c split: option.split)
  consider (same) "bit ?f 0 \<longleftrightarrow> bit ?g 0" | (up) "bit ?f 0" "\<not> bit ?g 0" | (down) "\<not> bit ?f 0" "bit ?g 0"
    by blast
  then have "tap_inv s'"
  proof cases
    case same
    then have t: "s' = ?t" using s' by (cases "bit ?g 0") simp_all
    have "awake ?t = awake s" by (simp add: awake_def)
    then show ?thesis using assms(2) same unfolding t tap_inv_def by simp
  next
    case up
    then have a: "awake s = []" using assms(2) by (auto simp: tap_inv_def split: if_splits)
    show ?thesis
    proof (cases "xIsInterfaceConnected s")
      case True
      have "snd (prvLinuxTapStartReadThread env ?t) = (snd (prvLinuxTapStartReadThread env s))
          \<lparr> xIsInterfaceConnected := True, nCurrentIffFlags := ?f \<rparr>"
        using True by (cases s) (auto simp: prvLinuxTapStartReadThread_def Let_def)
      then show ?thesis
        using True up tap_inv_start[OF assms(2) a, where c=True and f="?f" and env=env] by (simp add: s' tapNotifyIFUp_def)
    qed (use up assms(2) a in \<open>auto simp: s' tapNotifyIFUp_def tap_inv_def awake_def\<close>)
  next
    case down
    then show ?thesis using tap_inv_down[OF assms(2)] by (simp add: s')
  qed
  then show ?thesis using cc by simp
next
  case False
  then show ?thesis using assms by (auto simp: prvLinuxTapParseNewLinkMsg_def Option.bind_eq_Some_conv split: if_splits)
qed

lemma tap_inv_runs:
  assumes "tap_inv s"
  shows "tap_inv (read_thread_runs s)"
proof (cases "tn_starting s")
  case (Suc k)
  note d = tap_invD[OF assms]
  obtain p where p: "nTapThreadFD s = Some p" using d(2) Suc by auto
  have *: "read_thread_runs s = s \<lparr> tn_starting := k, tn_readers := p # tn_readers s \<rparr>"
    using Suc p d(1) by (simp add: read_thread_runs_def)
  let ?s = "read_thread_runs s"
  have sub: "set (awake ?s) \<subseteq> set (awake s)"
    using d(1) p Suc by (auto simp: * awake_def)
  show ?thesis
  proof (rule tap_invI)
    show "xTapReadTreadParams ?s = nTapThreadFD ?s" "tn_starting ?s = 0 \<or> nTapThreadFD ?s \<noteq> None"
      using d(1) p by (simp_all add: *)
    show "q < tn_pipes ?s" if "q \<in> set (tn_readers ?s)" for q
      using that d(3)[of q] d(5)[OF p] by (auto simp: *)
    show "q < tn_pipes ?s" if "q \<in> set (tn_woken ?s)" for q using that d(4)[of q] by (simp add: *)
    show "q < tn_pipes ?s" if "nTapThreadFD ?s = Some q" for q using that d(5)[of q] by (simp add: *)
    show "xIsInterfaceConnected ?s \<and> bit (nCurrentIffFlags ?s) 0 \<and> nTapThreadFD ?s = Some q" if "q \<in> set (awake ?s)" for q
      using that sub d(6)[of q] by (auto simp: *)
  qed
qed (use assms in \<open>simp add: read_thread_runs_def\<close>)

lemma tap_inv_ends:
  assumes "tap_inv s"
  shows "tap_inv (s \<lparr> tn_readers := remove1 p (tn_readers s) \<rparr>)"
proof -
  note d = tap_invD[OF assms]
  let ?s = "s \<lparr> tn_readers := remove1 p (tn_readers s) \<rparr>"
  have r: "set (remove1 p (tn_readers s)) \<subseteq> set (tn_readers s)" by (rule set_remove1_subset)
  have sub: "set (awake ?s) \<subseteq> set (awake s)" using r by (auto simp: awake_def)
  show ?thesis
  proof (rule tap_invI)
    show "xTapReadTreadParams ?s = nTapThreadFD ?s" "tn_starting ?s = 0 \<or> nTapThreadFD ?s \<noteq> None"
      using d(1,2) by simp_all
    show "q < tn_pipes ?s" if "q \<in> set (tn_readers ?s)" for q using that r d(3)[of q] by auto
    show "q < tn_pipes ?s" if "q \<in> set (tn_woken ?s)" for q using that d(4)[of q] by simp
    show "q < tn_pipes ?s" if "nTapThreadFD ?s = Some q" for q using that d(5)[of q] by simp
    show "xIsInterfaceConnected ?s \<and> bit (nCurrentIffFlags ?s) 0 \<and> nTapThreadFD ?s = Some q" if "q \<in> set (awake ?s)" for q
      using that sub d(6)[of q] by auto
  qed
qed

lemma tap_inv_steps:
  assumes "(tap_step env)\<^sup>*\<^sup>* s s'" "tap_inv s"
  shows "tap_inv s' \<and> xIsInterfaceConnected s' = xIsInterfaceConnected s"
  using assms
proof (induction rule: rtranclp_induct)
  case (step t u)
  have "xIsInterfaceConnected (read_thread_runs t) = xIsInterfaceConnected t"
    by (simp add: read_thread_runs_def split: nat.split option.split)
  with step(2) show ?case
    by cases (use step tap_inv_link tap_inv_runs tap_inv_ends in auto)
qed simp

lemma tap_inv_connect:
  assumes "tap_inv s" "\<not> xIsInterfaceConnected s" "tapNetworkInterfaceConnect env s = (True, s')"
  shows "tap_inv s' \<and> xIsInterfaceConnected s'"
proof -
  have a: "awake s = []" using assms(1,2) by (simp add: tap_inv_def)
  show ?thesis
  proof (cases "bit (nCurrentIffFlags s) 0")
    case True
    then have s': "s' = (snd (prvLinuxTapStartReadThread env s)) \<lparr> xIsInterfaceConnected := True \<rparr>"
      using assms(3) by (auto simp: tapNetworkInterfaceConnect_def prvLinuxTapCheckFlags_def up_flag Let_def
          split: prod.splits if_splits)
    have "nCurrentIffFlags (snd (prvLinuxTapStartReadThread env s)) = nCurrentIffFlags s"
      by (simp add: prvLinuxTapStartReadThread_def Let_def)
    then have "s' = (snd (prvLinuxTapStartReadThread env s)) \<lparr> xIsInterfaceConnected := True, nCurrentIffFlags := nCurrentIffFlags s \<rparr>"
      by (simp add: s')
    then show ?thesis using tap_inv_start[OF assms(1) a, where c=True and f="nCurrentIffFlags s" and env=env and s'=s'] True by simp
  next
    case False
    then show ?thesis
      using assms a by (auto simp: tapNetworkInterfaceConnect_def prvLinuxTapCheckFlags_def up_flag tap_inv_def awake_def)
  qed
qed

text \<open>C39: After one successful connect, whatever messages of the kernel come before and after, whenever
  the threads created first run, whichever readers end, told to or after a failed read, and whatever
  else fails: while the device is up, every reader that has not been told to leave listens to the pipe
  the interface writes to, so that the next message that the device is down reaches it; and
  while the device is down there is no such reader.\<close>

theorem tap_readers_told:
  assumes "tap_inv s0" "\<not> xIsInterfaceConnected s0" "(tap_step env)\<^sup>*\<^sup>* s0 s1"
    and "tapNetworkInterfaceConnect env s1 = (True, s2)" "(tap_step env)\<^sup>*\<^sup>* s2 s3"
  shows "if bit (nCurrentIffFlags s3) 0 then \<forall>p \<in> set (awake s3). nTapThreadFD s3 = Some p else awake s3 = []"
proof -
  have 1: "tap_inv s1" "\<not> xIsInterfaceConnected s1" using tap_inv_steps[OF assms(3,1)] assms(2) by auto
  have 2: "tap_inv s2" "xIsInterfaceConnected s2" using tap_inv_connect[OF 1 assms(4)] by auto
  show ?thesis using tap_inv_steps[OF assms(5) 2(1)] 2(2) by (simp add: tap_inv_def)
qed

definition ok_env :: tap_env where
  "ok_env = \<lparr> pipe_ok = \<lambda>_. True, fcntl_ok = \<lambda>_. True, attr_ok = \<lambda>_. True, thread_ok = \<lambda>_. True \<rparr>"

definition link_msg :: "u32 \<Rightarrow> nlmsghdr" where
  "link_msg f = \<lparr> nlmsg_len = 32, nlmsg_kind = RTM_NEWLINK, ifi_name = Some LINUX_TAP_DEVICE, ifi_flags = f \<rparr>"

lemma start_ok:
  "prvLinuxTapStartReadThread ok_env s = (True, s \<lparr> tn_pipes := tn_pipes s + 1, nTapThreadFD := Some (tn_pipes s),
     xTapReadTreadParams := Some (tn_pipes s), tn_starting := tn_starting s + 1 \<rparr>)"
  by (simp add: prvLinuxTapStartReadThread_def ok_env_def Let_def)

lemma tap_inv_boot: "tap_inv tap_boot"
  by (simp add: tap_inv_def tap_boot_def awake_def)

lemma three_steps: "r a b \<Longrightarrow> r b c \<Longrightarrow> r c d \<Longrightarrow> r\<^sup>*\<^sup>* a d"
  by (rule converse_rtranclp_into_rtranclp, assumption)+ (rule rtranclp.rtrancl_refl)

text \<open>Up, down and up again before the first thread has run: both threads listen to the second pipe.\<close>

theorem tap_readers_told_witness:
  "\<exists>s2 s3 s4 s5. tapNetworkInterfaceConnect ok_env tap_boot = (True, s2)
     \<and> prvLinuxTapParseNewLinkMsg ok_env (link_msg 1) s2 = Some s3 \<and> prvLinuxTapParseNewLinkMsg ok_env (link_msg 0) s3 = Some s4
     \<and> prvLinuxTapParseNewLinkMsg ok_env (link_msg 1) s4 = Some s5 \<and> nTapThreadFD s5 = Some 1 \<and> length (awake s5) = 2
     \<and> (\<forall>p \<in> set (awake s5). p = 1)"
proof -
  let ?s2 = "tap_boot \<lparr> xIsInterfaceConnected := True \<rparr>"
  let ?s3 = "?s2 \<lparr> nCurrentIffFlags := 1, tn_pipes := 1, nTapThreadFD := Some 0, xTapReadTreadParams := Some 0, tn_starting := 1 \<rparr>"
  let ?s4 = "?s3 \<lparr> nCurrentIffFlags := 0, tn_woken := [0] \<rparr>"
  let ?s5 = "?s4 \<lparr> nCurrentIffFlags := 1, tn_pipes := 2, nTapThreadFD := Some 1, xTapReadTreadParams := Some 1, tn_starting := 2 \<rparr>"
  have c: "tapNetworkInterfaceConnect ok_env tap_boot = (True, ?s2)"
    by (simp add: tapNetworkInterfaceConnect_def prvLinuxTapCheckFlags_def up_flag tap_boot_def)
  note parse = prvLinuxTapParseNewLinkMsg_def link_msg_def up_flag tapNotifyIFUp_def tapNotifyIFDown_def start_ok tap_boot_def
  have l: "prvLinuxTapParseNewLinkMsg ok_env (link_msg 1) ?s2 = Some ?s3"
    "prvLinuxTapParseNewLinkMsg ok_env (link_msg 0) ?s3 = Some ?s4"
    "prvLinuxTapParseNewLinkMsg ok_env (link_msg 1) ?s4 = Some ?s5"
    by (simp_all add: parse)
  have "(tap_step ok_env)\<^sup>*\<^sup>* ?s2 ?s5"
    by (rule three_steps[where b = ?s3 and c = ?s4]) (rule tap_step.link, rule l)+
  from tap_readers_told[OF tap_inv_boot _ _ c this]
  have "if bit (nCurrentIffFlags ?s5) 0 then \<forall>p \<in> set (awake ?s5). nTapThreadFD ?s5 = Some p else awake ?s5 = []"
    by (simp add: tap_boot_def)
  then have "\<forall>p \<in> set (awake ?s5). p = 1" by (simp add: eq_commute)
  moreover have "length (awake ?s5) = 2" by (simp add: awake_def tap_boot_def eval_nat_numeral)
  ultimately show ?thesis using c l by (intro exI[of _ ?s2] exI[of _ ?s3] exI[of _ ?s4] exI[of _ ?s5]) simp
qed

text \<open>Disconnecting leaves the reader running; connecting again starts a second one, and when the
  device goes down only the second is told to leave.\<close>

lemma tap_reconnect:
  assumes "tap_inv s" "\<not> xIsInterfaceConnected s" "bit (nCurrentIffFlags s) 0" "\<not> bit f 0"
    "tn_readers s = []" "tn_starting s = 0"
  shows "\<exists>s1 s2 s3 s4. tapNetworkInterfaceConnect ok_env s = (True, s1)
    \<and> tapNetworkInterfaceDisconnect (read_thread_runs s1) = (True, s2)
    \<and> tapNetworkInterfaceConnect ok_env s2 = (True, s3) \<and> awake (read_thread_runs s3) = [tn_pipes s + 1, tn_pipes s]
    \<and> prvLinuxTapParseNewLinkMsg ok_env (link_msg f) (read_thread_runs s3) = Some s4 \<and> awake s4 = [tn_pipes s]"
proof -
  have "\<forall>p \<in> set (tn_woken s). p < tn_pipes s" using assms(1) by (simp add: tap_inv_def)
  then have n: "tn_pipes s \<notin> set (tn_woken s)" "Suc (tn_pipes s) \<notin> set (tn_woken s)"
    by (metis less_irrefl, metis Suc_lessD less_irrefl)
  then show ?thesis
    using assms(3-6)
    by (simp add: tapNetworkInterfaceConnect_def tapNetworkInterfaceDisconnect_def prvLinuxTapCheckFlags_def up_flag
        start_ok prvLinuxTapParseNewLinkMsg_def link_msg_def tapNotifyIFDown_def awake_def read_thread_runs_def)
qed

section \<open>The monitor\<close>

text \<open>Datagrams whose messages fill them, without an end mark and about existing interfaces, are
  worked through one after the other.\<close>

definition nl_fits :: "nlmsghdr list \<times> int \<Rightarrow> bool" where
  "nl_fits d = (snd d > 0 \<and> snd d = int (\<Sum>m\<leftarrow>fst d. nlmsg_len m)
     \<and> (\<forall>m \<in> set (fst d). nlmsg_len m \<ge> 16 \<and> nlmsg_len m mod 4 = 0 \<and> nlmsg_kind m \<noteq> NLMSG_DONE \<and> ifi_name m \<noteq> None))"

fun nl_apply :: "tap_env \<Rightarrow> nlmsghdr list \<Rightarrow> tap_nic \<Rightarrow> tap_nic" where
  "nl_apply env [] s = s"
| "nl_apply env (m # ms) s = nl_apply env ms
     (if nlmsg_kind m = RTM_NEWLINK then the (prvLinuxTapParseNewLinkMsg env m s) else s)"

lemma nl_pass_fits:
  assumes "\<forall>m \<in> set ms. nlmsg_len m \<ge> 16 \<and> nlmsg_len m mod 4 = 0 \<and> nlmsg_kind m \<noteq> NLMSG_DONE \<and> ifi_name m \<noteq> None"
  shows "nl_pass env ms (int (\<Sum>m\<leftarrow>ms. nlmsg_len m)) s = Some (0, nl_apply env ms s)"
  using assms
proof (induction ms arbitrary: s)
  case (Cons m ms)
  have al: "NLMSG_ALIGN (nlmsg_len m) = nlmsg_len m"
    using Cons.prems by (auto simp: NLMSG_ALIGN_def)
  have "\<exists>t. (if nlmsg_kind m = RTM_NEWLINK then prvLinuxTapParseNewLinkMsg env m s else Some s) = Some t
      \<and> t = (if nlmsg_kind m = RTM_NEWLINK then the (prvLinuxTapParseNewLinkMsg env m s) else s)"
    using Cons.prems by (auto simp: prvLinuxTapParseNewLinkMsg_def Let_def)
  then show ?case
    using Cons by (auto simp: NLMSG_OK_def al)
qed simp

lemma nl_monitor_waits:
  assumes "\<forall>d \<in> set rs. nl_fits d"
  shows "nl_monitor env rs buf 0 s = Some (Nl_Waiting, fold (\<lambda>d. nl_apply env (fst d)) rs s)"
  using assms
proof (induction rs arbitrary: buf s)
  case Nil
  then show ?case by (simp add: nl_monitor.simps)
next
  case (Cons d rs)
  then have "nl_pass env (fst d) (snd d) s = Some (0, nl_apply env (fst d) s)" "snd d > 0"
    using nl_pass_fits[of "fst d" env s] by (auto simp: nl_fits_def)
  then show ?case
    using Cons by (subst nl_monitor.simps) simp
qed

text \<open>An end mark is never passed: the count is not cleared, so that nothing more is received and
  the loop turns for ever.\<close>

lemma nl_monitor_done:
  assumes "nlmsg_kind m = NLMSG_DONE" "n > 0"
  shows "nl_monitor env rs (m # ms) n s = None"
proof -
  have "\<not> (buf = m # ms \<and> k > 0)" if "nl_monitor env rs buf k s = Some y" for rs buf k s y
  proof (rule nl_monitor.raw_induct[OF _ that, of "\<lambda>env rs buf k s y. \<not> (buf = m # ms \<and> k > 0)"])
    fix mon env rs buf k s r
    assume ih: "\<And>env rs buf k s r. mon env rs buf k s = Some r \<Longrightarrow> \<not> (buf = m # ms \<and> k > 0)"
      and r: "(if k = 0 \<and> rs = [] then Some (Nl_Waiting, s)
        else let buf = if k = 0 then fst (rs ! 0) else buf; k' = if k = 0 then snd (rs ! 0) else k;
                 rs = if k = 0 then tl rs else rs
             in if k' < 0 then Some (Nl_Failed, s)
                else case nl_pass env buf k' s of None \<Rightarrow> Some (Nl_Aborted, s)
                     | Some r \<Rightarrow> mon env rs buf (fst r) (snd r)) = Some r"
    have "nl_pass env (m # ms) k s = Some (k, s)" using assms(1) by simp
    then show "\<not> (buf = m # ms \<and> k > 0)" using r ih[of env rs "m # ms" k s r] by (auto simp: Let_def simp del: nl_pass.simps)
  qed
  then show ?thesis using assms(2) by (cases "nl_monitor env rs (m # ms) n s") auto
qed

section \<open>Sending\<close>

lemma tap_write_one:
  assumes "0 < n" "n \<le> length eth"
  shows "tap_write (int n # ks) eth n 0 = Some (True, [take n eth])"
  using assms by simp

text \<open>When the device is up and takes the frame in one or two pieces, the pieces are the frame; a
  refused write ends the loop with false.  Nothing is written while the device is down.  The
  descriptor is never released.\<close>

theorem tap_output:
  assumes "pucEthernetBuffer nb = Some eth" "n = xDataLength nb" "0 < n" "n \<le> length eth" "0 < k" "k < n" "e < 0"
  shows "if bit (nCurrentIffFlags s) 0
    then tapNetworkInterfaceOutput (int n # ks) nb rel s free = Some (True, [take n eth], free)
       \<and> (\<exists>cs. tapNetworkInterfaceOutput (int k # int (n - k) # ks) nb rel s free = Some (True, cs, free) \<and> concat cs = take n eth)
       \<and> tapNetworkInterfaceOutput (e # ks) nb rel s free = Some (False, [], free)
    else tapNetworkInterfaceOutput ks nb rel s free = Some (False, [], free)"
proof -
  have "take k eth @ take (n - k) (drop k eth) = take n eth"
    using assms(6) take_add[of k "n - k" eth] by simp
  moreover have "nat (int (xDataLength nb) - int k) = xDataLength nb - k" by simp
  ultimately show ?thesis
    using assms by (auto simp: tapNetworkInterfaceOutput_def prvLinuxTapCheckFlags_def up_flag Let_def)
qed

theorem tap_output_witness:
  "\<exists>cs. tapNetworkInterfaceOutput [5, 3]
       \<lparr> nb_id = 0, pucEthernetBuffer = Some [1, 2, 3, 4, 5, 6, 7, 8], pucRinaBuffer = None, pucDataBuffer = None,
         xRinaDataLength = 0, xDataLength = 8 \<rparr> True (tap_boot \<lparr> nCurrentIffFlags := 1 \<rparr>) [] = Some (True, cs, [])
     \<and> concat cs = [1, 2, 3, 4, 5, 6, 7, 8]"
  using tap_output[of "\<lparr> nb_id = 0, pucEthernetBuffer = Some [1, 2, 3, 4, 5, 6, 7, 8], pucRinaBuffer = None, pucDataBuffer = None,
         xRinaDataLength = 0, xDataLength = 8 \<rparr>" "[1, 2, 3, 4, 5, 6, 7, 8]" 8 5 "- 1" "tap_boot \<lparr> nCurrentIffFlags := 1 \<rparr>" "[]" True "[]"]
  by simp

text \<open>In three pieces the third is taken from the length of the second, not from the end of what
  has been written.\<close>

lemma tap_write_three:
  assumes "0 < a" "0 < b" "0 < c" "a + b + c \<le> length eth"
  shows "tap_write [int a, int b, int c] eth (a + b + c) 0
    = Some (True, [take a eth, take b (drop a eth), take c (drop b eth)])"
  using assms by simp

section \<open>Receiving\<close>

lemma ethertype_prefix: "14 \<le> length bs \<Longrightarrow> ethertype (bs @ cs) = ethertype bs"
  by (simp add: ethertype_def nth_append)

definition rina_type :: "u8 list \<Rightarrow> bool" where
  "rina_type bs = (ethertype bs = ETH_P_RINA_ARP \<or> ethertype bs = ETH_P_RINA)"

lemma tap_input:
  assumes "14 \<le> length bs" "length bs \<le> 1514" "\<And>k. mem k" "free \<noteq> []"
  shows "\<exists>nb. tapNetworkInterfaceInput mem True (bs @ cs) (length bs) free =
      Some (True, if rina_type bs then Some (nb, length bs) else None, if rina_type bs then tl free else free)
    \<and> (rina_type bs \<longrightarrow> nb_id nb = free ! 0 \<and> take (length bs) (the (pucEthernetBuffer nb)) = bs)"
proof (cases free)
  case (Cons i rest)
  have "bs \<noteq> []" using assms(1) by auto
  moreover have "\<not> length (fresh_buffer i (buffer_size (length bs))) < length bs"
    using assms(1,2) buffer_size_ge[of "length bs"] by (simp add: fresh_buffer_def length_le32 not_less)
  ultimately show ?thesis
    using assms Cons
    by (auto simp: tapNetworkInterfaceInput_def eConsiderFrameForProcessing_def ethertype_prefix rina_type_def
        pxGetNetworkBufferWithDescriptor_def Let_def)
qed (use assms in simp)

text \<open>C33: The reader passes the frames of the two types of the stack on in the order in which they
  come, each in a descriptor of its own, and drops the others.\<close>

theorem tap_reader_frames:
  assumes "\<forall>f \<in> set fs. 14 \<le> length f" "\<forall>f \<in> set fs. length f \<le> length buf" "length buf = 1514" "\<And>k. mem k"
    and "length (filter rina_type fs) < length free"
  shows "\<exists>evs. tap_reader mem (map (\<lambda>f. \<lparr> tp_tap = Some f, tp_pipe = p, tp_queued = True \<rparr>) fs) buf free
        = Some (Polling, evs, drop (length (filter rina_type fs)) free)
    \<and> map (\<lambda>(nb, n). take n (the (pucEthernetBuffer nb))) evs = filter rina_type fs
    \<and> map (\<lambda>(nb, n). nb_id nb) evs = take (length (filter rina_type fs)) free"
  using assms(1-3,5)
proof (induction fs arbitrary: buf free)
  case (Cons f fs)
  have f: "14 \<le> length f" "length f \<le> length buf" "f \<noteq> []" "length f \<le> 1514" using Cons.prems(1-3) by auto
  have ne: "free \<noteq> []" using Cons.prems(4) by auto
  let ?buf = "f @ drop (length f) buf" and ?free = "if rina_type f then tl free else free"
  obtain nb where nb: "tapNetworkInterfaceInput mem True ?buf (length f) free =
      Some (True, if rina_type f then Some (nb, length f) else None, ?free)"
    and id: "rina_type f \<longrightarrow> nb_id nb = free ! 0 \<and> take (length f) (the (pucEthernetBuffer nb)) = f"
    using tap_input[of f mem free, OF f(1,4) assms(4) ne] by blast
  have "\<forall>g \<in> set fs. 14 \<le> length g" "\<forall>g \<in> set fs. length g \<le> length ?buf" "length ?buf = 1514"
    using Cons.prems(1-3) f(2) by auto
  moreover have "length (filter rina_type fs) < length ?free" using Cons.prems(4) by (auto split: if_splits)
  ultimately obtain evs where "tap_reader mem (map (\<lambda>f. \<lparr> tp_tap = Some f, tp_pipe = p, tp_queued = True \<rparr>) fs) ?buf ?free
        = Some (Polling, evs, drop (length (filter rina_type fs)) ?free)"
    "map (\<lambda>(nb, n). take n (the (pucEthernetBuffer nb))) evs = filter rina_type fs"
    "map (\<lambda>(nb, n). nb_id nb) evs = take (length (filter rina_type fs)) ?free"
    using Cons.IH by blast
  then show ?case
    using f nb id ne by (cases free) auto
qed simp

theorem tap_reader_frames_witness:
  "\<exists>nb. tap_reader (\<lambda>_. True) (map (\<lambda>f. \<lparr> tp_tap = Some f, tp_pipe = True, tp_queued = True \<rparr>)
       [replicate 20 0, replicate 12 7 @ [0xD1, 0xF0, 1, 2]]) (replicate 1514 0) [3, 4] = Some (Polling, [nb], [4])
     \<and> take (snd nb) (the (pucEthernetBuffer (fst nb))) = replicate 12 7 @ [0xD1, 0xF0, 1, 2] \<and> nb_id (fst nb) = 3"
proof -
  let ?f = "replicate 12 7 @ [0xD1, 0xF0, 1, 2] :: u8 list"
  have t: "\<not> rina_type (replicate 20 0)" "rina_type ?f"
    by (simp_all add: rina_type_def ethertype_def of_le16_def ETH_P_RINA_ARP_def ETH_P_RINA_def nth_append)
  then obtain evs where e: "tap_reader (\<lambda>_. True) (map (\<lambda>f. \<lparr> tp_tap = Some f, tp_pipe = True, tp_queued = True \<rparr>)
       [replicate 20 0, ?f]) (replicate 1514 0) [3, 4] = Some (Polling, evs, [4])"
    "map (\<lambda>(nb, n). take n (the (pucEthernetBuffer nb))) evs = [?f]" "map (\<lambda>(nb, n). nb_id nb) evs = [3]"
    using tap_reader_frames[of "[replicate 20 0, ?f]" "replicate 1514 0" "\<lambda>_. True" "[3, 4]" True] by auto
  then obtain nb where nb: "evs = [nb]" by (cases evs) (simp_all del: tap_reader.simps)
  obtain d n where "nb = (d, n)" by (cases nb)
  then show ?thesis using e unfolding nb by (intro exI[of _ nb]) (simp del: tap_reader.simps)
qed

text \<open>A frame shorter than its header is judged by the bytes of the one before.\<close>

lemma tap_short_frame:
  assumes "length bs < 12" "length buf \<ge> 14"
  shows "rina_type (bs @ drop (length bs) buf) = rina_type buf"
  using assms by (simp add: rina_type_def ethertype_def nth_append)

end
