(* ===== verification/Mq_Net.thy ===== *)
theory Mq_Net
  imports Wifi_Net
begin

text \<open>
  The network interface over POSIX message queues that the tests use
  (\<open>Shim/NetworkInterface/mq/NetworkInterface.c\<close>, with the notification of POSIX and
  \<open>mac2str\<close> of \<open>Rina-manager/Common/mac.c\<close>).  The queues of the system are a map from names to
  messages in the order of sending; a call that would block has the value \<open>None\<close>, as has a
  failed assertion.  \<open>mq_registered\<close> says that a notification is registered for the incoming
  queue: as documented for \<open>mq_notify\<close>, it is delivered when a message arrives in an empty
  queue, and removed with that.
\<close>

section \<open>Queues\<close>

datatype mqd_t = MqError | MqZero | MqOpen string

record mq_nic =
  sMac :: string
  sInQueueName :: string
  sOutQueueName :: string
  mqIn :: mqd_t
  mqOut :: mqd_t
  mq_queues :: "string \<rightharpoonup> u8 list list"
  mq_registered :: bool
  mq_closed :: "mqd_t list"

definition mq_boot :: mq_nic where
  "mq_boot = \<lparr> sMac = [], sInQueueName = [], sOutQueueName = [],
     mqIn = MqZero, mqOut = MqZero, mq_queues = Map.empty, mq_registered = False, mq_closed = [] \<rparr>"

definition mq_maxmsg :: nat where "mq_maxmsg = 6"
definition mq_msgsize :: nat where "mq_msgsize = 1500"
definition MAC2STR_MIN_BUFSZ :: nat where "MAC2STR_MIN_BUFSZ = 18"
definition QUEUE_NAME_MIN_BUFSZ :: nat where "QUEUE_NAME_MIN_BUFSZ = 24"

fun mq_of :: "mqd_t \<Rightarrow> mq_nic \<Rightarrow> u8 list list option" where
  "mq_of (MqOpen n) s = mq_queues s n"
| "mq_of _ s = None"

text \<open>\<open>mq_open\<close> with \<open>O_CREAT\<close>: an existing queue keeps its messages.\<close>

definition mq_open :: "bool \<Rightarrow> string \<Rightarrow> mq_nic \<Rightarrow> mqd_t \<times> mq_nic" where
  "mq_open ok n s =
     (if \<not> ok then (MqError, s)
      else (MqOpen n, case mq_queues s n of None \<Rightarrow> s \<lparr> mq_queues := (mq_queues s)(n \<mapsto> []) \<rparr> | Some _ \<Rightarrow> s))"

definition mq_close :: "mqd_t \<Rightarrow> mq_nic \<Rightarrow> mq_nic" where
  "mq_close d s = s \<lparr> mq_closed := d # mq_closed s \<rparr>"

definition mq_send :: "mqd_t \<Rightarrow> u8 list \<Rightarrow> mq_nic \<Rightarrow> (bool \<times> mq_nic) option" where
  "mq_send d bs s =
     (case d of
        MqOpen n \<Rightarrow> (case mq_queues s n of
            None \<Rightarrow> Some (False, s)
          | Some q \<Rightarrow>
              if mq_msgsize < length bs then Some (False, s)
              else if mq_maxmsg \<le> length q then None
              else Some (True, s \<lparr> mq_queues := (mq_queues s)(n \<mapsto> q @ [bs]) \<rparr>))
      | _ \<Rightarrow> Some (False, s))"

definition mq_receive :: "mqd_t \<Rightarrow> nat \<Rightarrow> mq_nic \<Rightarrow> (u8 list option \<times> mq_nic) option" where
  "mq_receive d sz s =
     (case d of
        MqOpen n \<Rightarrow> (case mq_queues s n of
            None \<Rightarrow> Some (None, s)
          | Some q \<Rightarrow>
              if sz < mq_msgsize then Some (None, s)
              else if q = [] then None
              else Some (Some (q ! 0), s \<lparr> mq_queues := (mq_queues s)(n \<mapsto> tl q) \<rparr>))
      | _ \<Rightarrow> Some (None, s))"

section \<open>Names\<close>

definition hex_digit :: "nat \<Rightarrow> char" where
  "hex_digit n = ''0123456789abcdef'' ! n"

definition hex2 :: "u8 \<Rightarrow> string" where
  "hex2 b = [hex_digit (unat b div 16), hex_digit (unat b mod 16)]"

text \<open>The text \<open>snprintf\<close> leaves in a buffer of \<open>p\<close> bytes.\<close>

definition mac2str :: "u8 list \<Rightarrow> nat \<Rightarrow> string option" where
  "mac2str m p =
     (if p < MAC2STR_MIN_BUFSZ \<or> length m < 6 then None
      else Some (take (p - 1) (hex2 (m ! 0) @ '':'' @ hex2 (m ! 1) @ '':'' @ hex2 (m ! 2) @ '':''
        @ hex2 (m ! 3) @ '':'' @ hex2 (m ! 4) @ '':'' @ hex2 (m ! 5))))"

definition prvFormatQueueName :: "bool \<Rightarrow> string \<Rightarrow> nat \<Rightarrow> string option" where
  "prvFormatQueueName isIn mac n =
     (if n < QUEUE_NAME_MIN_BUFSZ then None
      else Some (take (n - 1) (''/'' @ (if isIn then ''IN'' else ''OUT'') @ ''-'' @ mac)))"

section \<open>The interface\<close>

definition mqNetworkInterfaceInitialise :: "u8 list \<Rightarrow> mq_nic \<Rightarrow> (bool \<times> mq_nic) option" where
  "mqNetworkInterfaceInitialise mac s = do {
     t \<leftarrow> mac2str mac MAC2STR_MIN_BUFSZ;
     Some (True, s \<lparr> sMac := t \<rparr>) }"

definition mq_cleanup :: "mq_nic \<Rightarrow> mq_nic" where
  "mq_cleanup s =
     (let s = (if mqIn s \<noteq> MqError then mq_close (mqIn s) s else s)
      in if mqOut s \<noteq> MqError then mq_close (mqOut s) s else s)"

definition mqNetworkInterfaceConnect :: "bool \<Rightarrow> bool \<Rightarrow> bool \<Rightarrow> mq_nic \<Rightarrow> (bool \<times> mq_nic) option" where
  "mqNetworkInterfaceConnect in_ok out_ok notify_ok s = do {
     nin \<leftarrow> prvFormatQueueName True (sMac s) QUEUE_NAME_MIN_BUFSZ;
     nout \<leftarrow> prvFormatQueueName False (sMac s) QUEUE_NAME_MIN_BUFSZ;
     let s = s \<lparr> sInQueueName := nin, sOutQueueName := nout \<rparr>;
     let (d, s) = mq_open in_ok nin s;
     let s = s \<lparr> mqIn := d \<rparr>;
     if mqIn s = MqError then Some (False, mq_cleanup s)
     else do {
       let (d, s) = mq_open out_ok nout s;
       let s = s \<lparr> mqOut := d \<rparr>;
       if mqOut s = MqError then Some (False, mq_cleanup s)
       else if \<not> notify_ok then Some (False, mq_cleanup s)
       else Some (True, s \<lparr> mq_registered := True \<rparr>) } }"

text \<open>The arguments are the answers of \<open>mq_close\<close>.\<close>

definition mqNetworkInterfaceDisconnect :: "bool \<Rightarrow> bool \<Rightarrow> mq_nic \<Rightarrow> bool \<times> mq_nic" where
  "mqNetworkInterfaceDisconnect r1 r2 s =
     (let (r1, s) = (if mqIn s \<noteq> MqError
        then (r1, (mq_close (mqIn s) s) \<lparr> mq_queues := (mq_queues s)(sInQueueName s := None), mq_registered := False \<rparr>)
        else (True, s));
      (r2, s) = (if mqOut s \<noteq> MqError
        then (r2, (mq_close (mqOut s) s) \<lparr> mq_queues := (mq_queues s)(sOutQueueName s := None) \<rparr>)
        else (True, s))
      in (r1 \<and> r2, s \<lparr> mqIn := MqZero, mqOut := MqZero \<rparr>))"

definition mqNetworkInterfaceOutput ::
  "NetworkBufferDescriptor_t \<Rightarrow> bool \<Rightarrow> mq_nic \<Rightarrow> nat list \<Rightarrow> (bool \<times> mq_nic \<times> nat list) option" where
  "mqNetworkInterfaceOutput nb rel s free = do {
     eth \<leftarrow> pucEthernetBuffer nb;
     if length eth < xDataLength nb then None
     else do {
       (ok, s) \<leftarrow> mq_send (mqOut s) (take (xDataLength nb) eth) s;
       if \<not> ok then Some (False, s, free) else Some (True, s, free) } }"

text \<open>The event carries the descriptor, whose length is now that of the message.\<close>

definition mqNetworkInterfaceInput ::
  "(nat \<Rightarrow> bool) \<Rightarrow> bool \<Rightarrow> u8 list \<Rightarrow> nat \<Rightarrow> nat list
   \<Rightarrow> (bool \<times> NetworkBufferDescriptor_t option \<times> nat list) option" where
  "mqNetworkInterfaceInput mem queued buf len free = do {
     (nb, free) \<leftarrow> pxGetNetworkBufferWithDescriptor mem len free;
     nb \<leftarrow> nb;
     let nb = nb \<lparr> xDataLength := len \<rparr>;
     eth \<leftarrow> pucEthernetBuffer nb;
     if length eth < len \<or> length buf < len then None
     else do {
       let nb = nb \<lparr> pucEthernetBuffer := Some (take len buf @ drop len eth) \<rparr>;
       if \<not> queued then do { free \<leftarrow> vReleaseNetworkBufferAndDescriptor nb free; Some (False, None, free) }
       else Some (True, Some nb, free) } }"

text \<open>The handler allocates a buffer of the size of a message; a message that is shorter leaves
  the rest of it as it was (\<open>junk\<close>).\<close>

definition mq_event_handler ::
  "(nat \<Rightarrow> bool) \<Rightarrow> bool \<Rightarrow> u8 list \<Rightarrow> mq_nic \<Rightarrow> nat list
   \<Rightarrow> (NetworkBufferDescriptor_t option \<times> mq_nic \<times> nat list) option" where
  "mq_event_handler mem queued junk s free = do {
     (m, s) \<leftarrow> mq_receive (mqIn s) mq_msgsize s;
     let buf = (case m of None \<Rightarrow> junk | Some bs \<Rightarrow> bs @ drop (length bs) junk);
     (ok, ev, free) \<leftarrow> mqNetworkInterfaceInput mem queued buf mq_msgsize free;
     Some (ev, s, free) }"

section \<open>The interface of the tests\<close>

definition xMqNetworkInterfaceOutputCount :: "mq_nic \<Rightarrow> nat option" where
  "xMqNetworkInterfaceOutputCount s = map_option length (mq_of (mqOut s) s)"

definition xMqNetworkInterfaceReadOutput :: "nat \<Rightarrow> mq_nic \<Rightarrow> (bool \<times> u8 list \<times> mq_nic) option" where
  "xMqNetworkInterfaceReadOutput sz s = do {
     (m, s) \<leftarrow> mq_receive (mqOut s) sz s;
     Some (case m of None \<Rightarrow> (False, [], s) | Some bs \<Rightarrow> (True, bs, s)) }"

primrec mq_discard_loop :: "nat \<Rightarrow> mq_nic \<Rightarrow> mq_nic option" where
  "mq_discard_loop 0 s = Some s"
| "mq_discard_loop (Suc n) s = do {
     (ok, bs, s) \<leftarrow> xMqNetworkInterfaceReadOutput mq_msgsize s;
     mq_discard_loop n s }"

definition xMqNetworkInterfaceOutputDiscard :: "mq_nic \<Rightarrow> mq_nic option" where
  "xMqNetworkInterfaceOutputDiscard s = do {
     n \<leftarrow> xMqNetworkInterfaceOutputCount s;
     mq_discard_loop n s }"

text \<open>Sending to the incoming queue, and the handler when the system calls it.\<close>

definition xMqNetworkInterfaceWriteInput ::
  "(nat \<Rightarrow> bool) \<Rightarrow> bool \<Rightarrow> u8 list \<Rightarrow> u8 list \<Rightarrow> mq_nic \<Rightarrow> nat list
   \<Rightarrow> (bool \<times> NetworkBufferDescriptor_t option \<times> mq_nic \<times> nat list) option" where
  "xMqNetworkInterfaceWriteInput mem queued junk bs s free =
     (if length bs < mq_msgsize then None
      else do {
        let notify = (mq_registered s \<and> mq_of (mqIn s) s = Some []);
        (ok, s) \<leftarrow> mq_send (mqIn s) bs s;
        if \<not> ok then Some (False, None, s, free)
        else if notify then do {
          (ev, s, free) \<leftarrow> mq_event_handler mem queued junk (s \<lparr> mq_registered := False \<rparr>) free;
          Some (True, ev, s, free) }
        else Some (True, None, s, free) })"

section \<open>Names of the queues\<close>

lemma hex_digit_inj:
  assumes "hex_digit m = hex_digit n" "m < 16" "n < 16"
  shows "m = n"
proof -
  have "distinct ''0123456789abcdef''" by simp
  then show ?thesis
    using assms nth_eq_iff_index_eq[of "''0123456789abcdef''" m n] by (simp add: hex_digit_def)
qed

lemma unat_less_helper8: "unat (c :: u8) < 256"
  using unsigned_less[of c, where ?'a = nat] by simp

lemma hex2_inj: "hex2 a = hex2 b \<longleftrightarrow> a = b"
proof
  assume h: "hex2 a = hex2 b"
  have "unat (c :: u8) div 16 < 16" for c
    using unat_less_helper8[of c] by (simp add: less_mult_imp_div_less)
  then have "unat a div 16 = unat b div 16" "unat a mod 16 = unat b mod 16"
    using h hex_digit_inj by (simp_all add: hex2_def)
  then have "unat a = unat b" by (metis div_mult_mod_eq)
  then show "a = b" by (simp add: word_unat_eq_iff)
qed simp

lemma mac2str_text:
  assumes "length m = 6"
  shows "mac2str m MAC2STR_MIN_BUFSZ = Some (hex2 (m ! 0) @ '':'' @ hex2 (m ! 1) @ '':'' @ hex2 (m ! 2) @ '':''
        @ hex2 (m ! 3) @ '':'' @ hex2 (m ! 4) @ '':'' @ hex2 (m ! 5))"
  using assms by (simp add: mac2str_def MAC2STR_MIN_BUFSZ_def hex2_def)

lemma hex2_length: "length (hex2 b) = 2"
  by (simp add: hex2_def)

lemma six_inj:
  assumes "length a = length a'" "length b = length b'" "length c = length c'" "length d = length d'"
    "length e = length e'" "length f = length f'"
  shows "a @ x @ b @ x @ c @ x @ d @ x @ e @ x @ f = a' @ x @ b' @ x @ c' @ x @ d' @ x @ e' @ x @ f'
    \<longleftrightarrow> a = a' \<and> b = b' \<and> c = c' \<and> d = d' \<and> e = e' \<and> f = f'"
  using assms by simp

lemma queue_name:
  assumes "length m = 6" "mac2str m MAC2STR_MIN_BUFSZ = Some t"
  shows "prvFormatQueueName i t QUEUE_NAME_MIN_BUFSZ = Some ((if i then ''/IN-'' else ''/OUT-'') @ t)"
  using assms by (auto simp: mac2str_text prvFormatQueueName_def QUEUE_NAME_MIN_BUFSZ_def hex2_length)

text \<open>The names fit into their buffers, and no two interfaces or directions share a queue.\<close>

theorem mq_names:
  assumes "length m = 6" "length m' = 6"
  shows "\<exists>t t' n n'. mac2str m MAC2STR_MIN_BUFSZ = Some t \<and> mac2str m' MAC2STR_MIN_BUFSZ = Some t'
    \<and> prvFormatQueueName i t QUEUE_NAME_MIN_BUFSZ = Some n \<and> prvFormatQueueName i' t' QUEUE_NAME_MIN_BUFSZ = Some n'
    \<and> (n = n' \<longleftrightarrow> m = m' \<and> i = i')"
proof -
  obtain t t' where t: "mac2str m MAC2STR_MIN_BUFSZ = Some t" "mac2str m' MAC2STR_MIN_BUFSZ = Some t'"
    using assms mac2str_text by blast
  obtain a b c d e f where m: "m = [a, b, c, d, e, f]"
    using assms(1) by (auto simp: length_Suc_conv eval_nat_numeral)
  obtain a' b' c' d' e' f' where m': "m' = [a', b', c', d', e', f']"
    using assms(2) by (auto simp: length_Suc_conv eval_nat_numeral)
  have tt: "t = t' \<longleftrightarrow> mac2str m MAC2STR_MIN_BUFSZ = mac2str m' MAC2STR_MIN_BUFSZ" using t by simp
  have "t = t' \<longleftrightarrow> m ! 0 = m' ! 0 \<and> m ! 1 = m' ! 1 \<and> m ! 2 = m' ! 2 \<and> m ! 3 = m' ! 3 \<and> m ! 4 = m' ! 4 \<and> m ! 5 = m' ! 5"
    by (simp only: tt mac2str_text[OF assms(1)] mac2str_text[OF assms(2)] option.inject six_inj hex2_length hex2_inj)
  also have "\<dots> \<longleftrightarrow> m = m'" by (simp add: m m')
  finally have "t = t' \<longleftrightarrow> m = m'" .
  then show ?thesis using t queue_name[OF assms(1) t(1), of i] queue_name[OF assms(2) t(2), of i'] by auto
qed

theorem mq_names_witness:
  "\<exists>t n n'. mac2str [1, 2, 3, 4, 5, 6] MAC2STR_MIN_BUFSZ = Some t
    \<and> prvFormatQueueName True t QUEUE_NAME_MIN_BUFSZ = Some n \<and> prvFormatQueueName False t QUEUE_NAME_MIN_BUFSZ = Some n' \<and> n \<noteq> n'"
  using mq_names[of "[1, 2, 3, 4, 5, 6]" "[1, 2, 3, 4, 5, 6]" True False] by auto

section \<open>Messages\<close>

definition mq_up :: "u8 list list \<Rightarrow> u8 list list \<Rightarrow> mq_nic \<Rightarrow> bool" where
  "mq_up qi qo s = (\<exists>a b. mqIn s = MqOpen a \<and> mqOut s = MqOpen b \<and> a \<noteq> b
     \<and> mq_queues s a = Some qi \<and> mq_queues s b = Some qo)"

lemma mq_connect:
  assumes "length m = 6"
  shows "\<exists>s1 s2. mqNetworkInterfaceInitialise m mq_boot = Some (True, s1)
    \<and> mqNetworkInterfaceConnect True True True s1 = Some (True, s2) \<and> mq_up [] [] s2 \<and> mq_registered s2"
proof -
  obtain t where t: "mac2str m MAC2STR_MIN_BUFSZ = Some t" using assms mac2str_text by blast
  show ?thesis
    by (simp add: mqNetworkInterfaceInitialise_def t mqNetworkInterfaceConnect_def queue_name[OF assms t] mq_open_def
        mq_up_def mq_boot_def Let_def)
qed

text \<open>What is written is read back, in order, after what was in the queue; a message beyond the
  limit is refused, and one beyond the capacity blocks.\<close>

lemma mq_output:
  assumes "mq_up qi qo s" "pucEthernetBuffer nb = Some eth" "xDataLength nb \<le> length eth"
  shows "mqNetworkInterfaceOutput nb rel s free =
    (if mq_msgsize < xDataLength nb then Some (False, s, free)
     else if mq_maxmsg \<le> length qo then None
     else Some (True, s \<lparr> mq_queues := (mq_queues s)((case mqOut s of MqOpen b \<Rightarrow> b) \<mapsto> qo @ [take (xDataLength nb) eth]) \<rparr>, free))"
  using assms by (auto simp: mqNetworkInterfaceOutput_def mq_up_def mq_send_def)

lemma mq_read:
  assumes "mq_up qi (q # qo) s" "mq_msgsize \<le> sz"
  shows "\<exists>s'. xMqNetworkInterfaceReadOutput sz s = Some (True, q, s') \<and> mq_up qi qo s' \<and> mq_registered s' = mq_registered s"
  using assms by (auto simp: xMqNetworkInterfaceReadOutput_def mq_receive_def mq_up_def)

theorem mq_roundtrip:
  assumes "mq_up qi [] s" "pucEthernetBuffer nb = Some eth" "xDataLength nb \<le> length eth"
    and "xDataLength nb \<le> mq_msgsize" "mq_msgsize \<le> sz"
  shows "\<exists>s1 s2. mqNetworkInterfaceOutput nb rel s free = Some (True, s1, free)
    \<and> xMqNetworkInterfaceOutputCount s1 = Some 1
    \<and> xMqNetworkInterfaceReadOutput sz s1 = Some (True, take (xDataLength nb) eth, s2) \<and> mq_up qi [] s2"
proof -
  obtain s1 where 1: "mqNetworkInterfaceOutput nb rel s free = Some (True, s1, free)" "mq_up qi [take (xDataLength nb) eth] s1"
    using assms by (auto simp: mqNetworkInterfaceOutput_def mq_send_def mq_up_def mq_maxmsg_def)
  have "xMqNetworkInterfaceOutputCount s1 = Some 1"
    using 1(2) by (auto simp: xMqNetworkInterfaceOutputCount_def mq_up_def)
  then show ?thesis using 1 mq_read[OF 1(2) assms(5)] by blast
qed

text \<open>Discarding leaves the queue empty: as many messages are read as were counted.\<close>

lemma mq_discard:
  assumes "mq_up qi qo s"
  shows "\<exists>s'. xMqNetworkInterfaceOutputDiscard s = Some s' \<and> mq_up qi [] s'"
proof -
  have "\<exists>s'. mq_discard_loop (length qo) s = Some s' \<and> mq_up qi [] s'"
    using assms
  proof (induction qo arbitrary: s)
    case (Cons q qo)
    then show ?case using mq_read[OF Cons.prems order_refl] by fastforce
  qed simp
  moreover have "xMqNetworkInterfaceOutputCount s = Some (length qo)"
    using assms by (auto simp: xMqNetworkInterfaceOutputCount_def mq_up_def)
  ultimately show ?thesis by (simp add: xMqNetworkInterfaceOutputDiscard_def)
qed

section \<open>Notification\<close>

lemma mq_input:
  assumes "mem (buffer_size len)" "0 < len" "len \<le> length buf" "len \<le> 2 ^ 32 - 8"
  shows "\<exists>nb. mqNetworkInterfaceInput mem True buf len (i # rest) = Some (True, Some nb, rest)
    \<and> nb_id nb = i \<and> xDataLength nb = len \<and> take len (the (pucEthernetBuffer nb)) = take len buf"
proof -
  have "len \<le> length (fresh_buffer i (buffer_size len))"
    using buffer_size_ge[OF assms(4)] by (simp add: fresh_buffer_def length_le32)
  then show ?thesis
    using assms by (simp add: mqNetworkInterfaceInput_def pxGetNetworkBufferWithDescriptor_def Let_def not_less)
qed

text \<open>Messages sent to the incoming queue one after the other, each with the answer and the event.\<close>

primrec mq_write_inputs ::
  "(nat \<Rightarrow> bool) \<Rightarrow> u8 list \<Rightarrow> u8 list list \<Rightarrow> mq_nic \<Rightarrow> nat list
   \<Rightarrow> ((bool \<times> NetworkBufferDescriptor_t option) list \<times> mq_nic \<times> nat list) option" where
  "mq_write_inputs mem junk [] s free = Some ([], s, free)"
| "mq_write_inputs mem junk (m # ms) s free = do {
     (ok, ev, s, free) \<leftarrow> xMqNetworkInterfaceWriteInput mem True junk m s free;
     (rs, s, free) \<leftarrow> mq_write_inputs mem junk ms s free;
     Some ((ok, ev) # rs, s, free) }"

lemma mq_unnotified:
  assumes "mq_up qi qo s" "\<not> mq_registered s" "length qi + length ms \<le> mq_maxmsg" "\<forall>m \<in> set ms. length m = mq_msgsize"
  shows "\<exists>s'. mq_write_inputs mem junk ms s free = Some (replicate (length ms) (True, None), s', free)
    \<and> mq_up (qi @ ms) qo s' \<and> \<not> mq_registered s'"
  using assms
proof (induction ms arbitrary: qi s)
  case (Cons m ms)
  obtain t where "xMqNetworkInterfaceWriteInput mem True junk m s free = Some (True, None, t, free)"
    "mq_up (qi @ [m]) qo t" "\<not> mq_registered t"
    using Cons.prems by (auto simp: xMqNetworkInterfaceWriteInput_def mq_send_def mq_up_def Let_def)
  then show ?case using Cons.IH[of "qi @ [m]" t] Cons.prems by fastforce
qed simp

lemma mq_notified:
  assumes "mq_up [] qo s" "mq_registered s" "mem (buffer_size mq_msgsize)" "length bs = mq_msgsize"
  shows "\<exists>nb s'. xMqNetworkInterfaceWriteInput mem True junk bs s (i # rest) = Some (True, Some nb, s', rest)
    \<and> nb_id nb = i \<and> take mq_msgsize (the (pucEthernetBuffer nb)) = bs \<and> mq_up [] qo s' \<and> \<not> mq_registered s'"
proof -
  obtain a b where ab: "mqIn s = MqOpen a" "mqOut s = MqOpen b" "a \<noteq> b" "mq_queues s a = Some []" "mq_queues s b = Some qo"
    using assms(1) by (auto simp: mq_up_def)
  have "0 < mq_msgsize" "mq_msgsize \<le> 2 ^ 32 - 8" by (simp_all add: mq_msgsize_def)
  then obtain nb where "mqNetworkInterfaceInput mem True (bs @ drop mq_msgsize junk) mq_msgsize (i # rest) = Some (True, Some nb, rest)"
    "nb_id nb = i" "take mq_msgsize (the (pucEthernetBuffer nb)) = bs"
    using mq_input[of mem mq_msgsize "bs @ drop mq_msgsize junk" i rest] assms(3,4) by auto
  then show ?thesis
    using ab assms(2,4)
    by (auto simp: xMqNetworkInterfaceWriteInput_def mq_send_def mq_event_handler_def mq_receive_def mq_maxmsg_def
        mq_up_def Let_def)
qed

text \<open>C40: The first message reaches the stack; it uses the notification up, which the handler does not
  register again, so that the messages after it stay in the queue, and the seventh of them
  blocks the sender.\<close>

theorem mq_one_shot:
  assumes "mq_up [] qo s" "mq_registered s" "mem (buffer_size mq_msgsize)" "length ms \<le> mq_maxmsg"
    and "length bs = mq_msgsize" "\<forall>m \<in> set ms. length m = mq_msgsize" "length m7 = mq_msgsize"
  shows "\<exists>nb s'. mq_write_inputs mem junk (bs # ms) s (i # rest)
        = Some ((True, Some nb) # replicate (length ms) (True, None), s', rest)
    \<and> nb_id nb = i \<and> take mq_msgsize (the (pucEthernetBuffer nb)) = bs \<and> mq_up ms qo s'
    \<and> (length ms = mq_maxmsg \<longrightarrow> xMqNetworkInterfaceWriteInput mem True junk m7 s' rest = None)"
proof -
  obtain nb t where t: "xMqNetworkInterfaceWriteInput mem True junk bs s (i # rest) = Some (True, Some nb, t, rest)"
    "nb_id nb = i" "take mq_msgsize (the (pucEthernetBuffer nb)) = bs" "mq_up [] qo t" "\<not> mq_registered t"
    using mq_notified[where mem = mem, OF assms(1-3,5), of junk i rest] by blast
  obtain s' where "mq_write_inputs mem junk ms t rest = Some (replicate (length ms) (True, None), s', rest)"
    "mq_up ms qo s'" "\<not> mq_registered s'"
    using mq_unnotified[OF t(4,5) _ assms(6), of mem junk rest] assms(4) by auto
  moreover from this have "length ms = mq_maxmsg \<longrightarrow> xMqNetworkInterfaceWriteInput mem True junk m7 s' rest = None"
    using assms(7) by (auto simp: xMqNetworkInterfaceWriteInput_def mq_send_def mq_up_def)
  ultimately show ?thesis using t by auto
qed

theorem mq_one_shot_witness:
  "\<exists>s nb s'. mqNetworkInterfaceConnect True True True (mq_boot \<lparr> sMac := ''a'' \<rparr>) = Some (True, s)
    \<and> mq_write_inputs (\<lambda>_. True) [] [replicate 1500 1, replicate 1500 2] s [0]
        = Some ([(True, Some nb), (True, None)], s', []) \<and> mq_up [replicate 1500 2] [] s'"
proof -
  define s where "s = mq_boot \<lparr> sMac := ''a'', sInQueueName := ''/IN-a'', sOutQueueName := ''/OUT-a'', mqIn := MqOpen ''/IN-a'',
     mqOut := MqOpen ''/OUT-a'', mq_queues := [''/IN-a'' \<mapsto> [], ''/OUT-a'' \<mapsto> []], mq_registered := True \<rparr>"
  have c: "mqNetworkInterfaceConnect True True True (mq_boot \<lparr> sMac := ''a'' \<rparr>) = Some (True, s)"
    by (simp add: mqNetworkInterfaceConnect_def prvFormatQueueName_def QUEUE_NAME_MIN_BUFSZ_def mq_open_def s_def
        mq_boot_def Let_def)
  have u: "mq_up [] [] s" "mq_registered s" by (simp_all add: s_def mq_up_def)
  have "\<exists>nb s'. mq_write_inputs (\<lambda>_. True) [] [replicate 1500 1, replicate 1500 2] s [0]
        = Some ([(True, Some nb), (True, None)], s', []) \<and> mq_up [replicate 1500 2] [] s'"
    using mq_one_shot[OF u, of "\<lambda>_. True" "[replicate 1500 2]" "replicate 1500 1" "replicate 1500 0" "[]" 0 "[]"]
    by (auto simp: mq_msgsize_def mq_maxmsg_def)
  then show ?thesis using c by blast
qed

end
