(* ===== verification/Spec2Isabelle.thy ===== *)
theory Spec2Isabelle
  imports Num_Manager Rina_Names Rina_Links Node_Props Node_Rx Rina_Time Rsrc_Pool Net_Buffers Api_Props Hash_Tab Shim_Flows Arp_Cache Stack_Props Wifi_Props Pb_Props Ipcp_Ops Tap_Net Mq_Net
begin

text \<open>
  Verification of Rinasense, a RINA stack for sensors (\<open>src/components\<close>).

  \<^bold>\<open>The program.\<close>  One task, the stack task (\<open>Ipcp/IPCP_task.c\<close>), reads events from a queue and
  handles them one at a time.  Events come from applications (\<open>Rina-api/rina_api.c\<close>), from the
  network interface and from timers.  The task drives the normal IPC process
  (\<open>Ipcp/IPCP_ops.c\<close> and \<open>Ipcp/Modules\<close>): its management plane (RIB, RIB daemon, enrollment, flow
  allocator) exchanges CDAP messages with the neighbour, and its data plane (EFCP with DTP, RMT)
  carries the units of flows.  Below it a shim IPC process, of IEEE 802.15.4 (\<open>Shim/ieee802154\<close>) or
  of WiFi (\<open>Shim/WiFi\<close>, with ARP in \<open>Shim/Arp826\<close>), gives the one flow to the neighbour.  Everything
  rests on a few libraries: bit arrays, number managers, lists, resource pools, network buffers,
  names, hash tables, time (\<open>Rina-manager\<close>, \<open>Portability\<close>).

  \<^bold>\<open>Conventions.\<close>  Machine integers are words of the width of the code (\<open>u8\<close> to \<open>u64\<close>), sizes and
  indices that cannot wrap are \<open>nat\<close>.  A \<open>struct\<close> is a record, an array a list with the reads and
  writes out of range written out, a heap object a number into a map of the state when its
  identity matters and a value otherwise.  Where an operation may use a pointer that is NULL, copy
  past an array or call \<open>abort\<close>, it returns an option and \<open>None\<close> is that outcome; where it reports an
  error to its caller the model returns what the code returns.  What the code allocates with
  \<open>malloc\<close> and does not initialise is a parameter (\<open>junk\<close>).  Locks are left out: one task runs.

  \<^bold>\<open>Theories, from the bottom.\<close>
  \<^item> \<open>Rina_Prelude\<close>: the types of the machine, scans of tables, the collections of facts.
  \<^item> \<open>Bit_Arr\<close> (\<open>bit_array.h\<close>), \<open>Num_Manager\<close> (\<open>num_mgr.c\<close>): numbers handed out and taken back; a
    specification over the set of numbers held, which the allocation loop meets and ends.
  \<^item> \<open>Rina_Names\<close> (\<open>rina_name.c\<close>), \<open>Generic_Addr\<close> (\<open>rina_gpha.c\<close>): names and addresses, printed and
    parsed back.
  \<^item> \<open>Rina_Links\<close> (\<open>list.h\<close>, \<open>rstypes\<close> lists): doubly linked lists over a store of links, refined to HOL
    lists.  \<open>Slot_Tables\<close>: the fixed tables of the stack and the locale \<open>bounded_table\<close> their users rely
    on, interpreted by the table of every component that has one.
  \<^item> \<open>Rina_Time\<close> (\<open>posix_rstime.c\<close>, timers of \<open>IPCP_task.c\<close>), \<open>Rsrc_Pool\<close> (\<open>rsrc.c\<close>), \<open>Net_Buffers\<close>
    (\<open>BufferManagement.c\<close>): waits, pools of resources and the descriptors on them, with their
    invariants and the refinement of buffers to counters of free descriptors, which the stack uses.
  \<^item> \<open>Hash_Tab\<close> (\<open>hashtab.c\<close>): the tables refine finite maps.
  \<^item> \<open>Cdap_Messages\<close>, \<open>Rina_Rib\<close>, \<open>Mgmt_Plane\<close>, \<open>Rina_Enrollment\<close>, \<open>Flow_Allocator\<close> (\<open>serdesMsg.c\<close>,
    \<open>rib.c\<close>, \<open>ribd.c\<close>, \<open>enrollment.c\<close>, \<open>flowAllocator.c\<close>): the management plane.
    Its modules take the encoder and the decoder of protocol buffers as arguments.
  \<^item> \<open>Pb_Wire\<close>, \<open>Pb_Message\<close> (\<open>CdapProto/pb_encode.c\<close>, \<open>pb_decode.c\<close>, \<open>pb_common.c\<close>): nanopb, its
    streams and scalars, and the messages over descriptors.  \<open>Pb_Codec\<close>: the bytes of a structure as
    a function of its own, which the encoder refines and the decoder inverts, and the decoder on
    arbitrary bytes.  \<open>Pb_Desc\<close> (\<open>*.pb.h\<close>): the descriptors.  \<open>Pb_Cdap\<close>, \<open>Pb_Flow\<close>: nanopb with these
    descriptors as the encoder and decoder of the modules above.  \<open>Pb_Props\<close>: the codec as a whole.
  \<^item> \<open>Du_Pci\<close>, \<open>Data_Plane\<close>, \<open>Dtp_Window\<close>, \<open>Efcp_Paths\<close>, \<open>Ipcp_Normal\<close> (\<open>du.c\<close>, \<open>pci.c\<close>, \<open>dtp.c\<close>,
    \<open>efcp.c\<close>, \<open>rmt.c\<close>, \<open>IPCP_ops.c\<close>): the data plane and the operations of the normal IPC process.
    \<open>Ipcp_Ops\<close>: the tables of operations of the three kinds of process, the factory and the assignment
    to a DIF; every call through a table finds a function, but for the one of \<open>xEfcpDestroy\<close>.
  \<^item> \<open>Rina_Node\<close>, \<open>Node_Inv\<close>, \<open>Node_Props\<close>, \<open>Node_Rx\<close>, \<open>Node_Port\<close>: a node as a machine over its
    events, the invariant of all its reachable states, what received units do.
  \<^item> \<open>Ipcp_Manager\<close> (\<open>IPCP_manager.c\<close>), \<open>Rina_Api\<close>, \<open>Api_Props\<close> (\<open>rina_api.c\<close>): instances and ports;
    applications, whose calls are interleaved with the stack task at their waits.
  \<^item> \<open>Shim_Frames\<close>, \<open>Shim_Flows\<close> (\<open>Shim/ieee802154\<close>), \<open>Arp_Cache\<close> (\<open>Arp826.c\<close>), \<open>Wifi_Net\<close>,
    \<open>Wifi_Shim\<close>, \<open>Wifi_Props\<close> (\<open>NetworkInterface/esp32\<close>, \<open>Shim/WiFi\<close>): the shims.
  \<^item> \<open>Tap_Net\<close>, \<open>Mq_Net\<close> (\<open>NetworkInterface/linux_tap\<close>, \<open>NetworkInterface/mq\<close>): the two other interfaces
    of the WiFi shim, over a TAP device with its threads, which share one structure of parameters and may
    end for a failed read, and over message queues.
  \<^item> \<open>N1_Flow\<close>: the locale \<open>n1_flow\<close>, what the RMT may rely on of the flow below it (a unit is taken, its
    descriptor either queued or back in the pool); interpreted by both shims.
  \<^item> \<open>Stack_Task\<close>, \<open>Stack_Inv\<close>, \<open>Stack_Props\<close> (\<open>IPCP_task.c\<close>): the running stack over the shim of IEEE
    802.15.4, from the start of the node and of its thread on, with the calls of applications as
    steps between its events.  It comes up when the thread runs by the time the manager sends its first
    event, which is lost otherwise; it keeps its invariant, and carries what an application of one node
    writes to the application of the other.

  \<^bold>\<open>Bounds and fuel.\<close>  The loop of the number manager and the waits of the interface are
  \<open>partial_function\<close>s over \<open>option\<close>, so that not returning is a value; that they return, or hang, is
  proved, as for the monitor of the TAP device.  The decoder of a message recurses over the
  bytes left; the depth of submessages is that of the descriptor, which is finite.  Loops over
  answers of system calls recurse over the list of the answers.  Other loops are structural over
  lists.  The queue of the task holds as many events as \<open>xIpcpInit\<close> creates it for.  A CDAP message is
  encoded into 512 bytes (an array of 128 pointers of 32 bits), the neighbour and enrollment objects
  into the 1500 of the MTU, a flow into what is allocated for it.

  \<^bold>\<open>Not modelled.\<close>  Logging and printing for the log; the drivers of the radio and of WiFi and the
  system below the TAP device, whose calls are parameters or events; the kinds of field of nanopb
  that no descriptor of the repository has (pointers, extensions, oneofs, proto3), its user streams
  and its error texts; POSIX threads and queues beyond their documented
  behaviour, and the library \<open>FreeRTOS-Plus-POSIX\<close> copied into the tree; the sensor driver and the
  example applications.  The stack task calls functions of the 802.15.4 shim by name whatever shim is
  configured, so the WiFi shim is not composed with the task: what is shown of it, of ARP and of its
  interfaces is about their functions.  In particular no frame that ARP hands back is ever sent.  The
  receiving of an application is left out of the steps of the running stack: it follows a NULL pointer
  or waits (\<open>Api_Props\<close>).
\<close>

end
